(* ===== verification/Prelude.thy ===== *)
theory Prelude
  imports Main "HOL-Library.List_Lexorder" "HOL-Library.Char_ord"
begin

text \<open>
  What every component shares: Rust strings and vectors, and the ordered containers of the
  standard library.

  A Rust \<open>String\<close> is its sequence of UTF-8 bytes, an Isabelle \<open>string\<close>; the byte-wise
  lexicographic order of \<open>str\<close> is the list order of \<^verbatim>\<open>List_Lexorder\<close> over the character order
  of \<^verbatim>\<open>Char_ord\<close>. The \<open>str\<close> methods the sources call (\<open>split\<close>, \<open>strip_prefix\<close>,
  \<open>trim\<close>, \<open>join\<close>, ...) are modelled here once. A \<open>BTreeSet\<close> is its sorted list of members
  (what iterating it yields), a \<open>BTreeMap\<close> its list of entries sorted by key.
\<close>

named_theorems str_simps \<open>facts about the string operations\<close>
named_theorems btree_simps \<open>facts about the ordered containers\<close>

section \<open>Strings\<close>

fun strip_prefix :: "'a list \<Rightarrow> 'a list \<Rightarrow> 'a list option" where
  "strip_prefix [] s = Some s"
| "strip_prefix (p # ps) [] = None"
| "strip_prefix (p # ps) (c # cs) = (if p = c then strip_prefix ps cs else None)"

definition starts_with :: "'a list \<Rightarrow> 'a list \<Rightarrow> bool" where
  "starts_with p s \<longleftrightarrow> strip_prefix p s \<noteq> None"

definition strip_suffix :: "'a list \<Rightarrow> 'a list \<Rightarrow> 'a list option" where
  "strip_suffix p s = map_option rev (strip_prefix (rev p) (rev s))"

definition ends_with :: "'a list \<Rightarrow> 'a list \<Rightarrow> bool" where
  "ends_with p s \<longleftrightarrow> strip_suffix p s \<noteq> None"

fun contains_str :: "'a list \<Rightarrow> 'a list \<Rightarrow> bool" where
  "contains_str p [] = (p = [])"
| "contains_str p (c # cs) = (starts_with p (c # cs) \<or> contains_str p cs)"

fun split_on :: "'a \<Rightarrow> 'a list \<Rightarrow> 'a list list" where
  "split_on c [] = [[]]"
| "split_on c (x # xs) =
     (if x = c then [] # split_on c xs
      else (case split_on c xs of [] \<Rightarrow> [[x]] | y # ys \<Rightarrow> (x # y) # ys))"

fun split_once :: "'a \<Rightarrow> 'a list \<Rightarrow> ('a list \<times> 'a list) option" where
  "split_once c [] = None"
| "split_once c (x # xs) =
     (if x = c then Some ([], xs)
      else (case split_once c xs of None \<Rightarrow> None | Some (a, b) \<Rightarrow> Some (x # a, b)))"

fun join :: "'a list \<Rightarrow> 'a list list \<Rightarrow> 'a list" where
  "join sep [] = []"
| "join sep [x] = x"
| "join sep (x # y # ys) = x @ sep @ join sep (y # ys)"

definition replace_char :: "'a \<Rightarrow> 'a list \<Rightarrow> 'a list \<Rightarrow> 'a list" where
  "replace_char c r s = concat (map (\<lambda>x. if x = c then r else [x]) s)"

text \<open>Decimal digits, as \<open>{}\<close> formats an unsigned integer.\<close>

fun dec :: "nat \<Rightarrow> string" where
  "dec n = (if n < 10 then [char_of (48 + n)] else dec (n div 10) @ [char_of (48 + n mod 10)])"

declare dec.simps [simp del]

text \<open>
  \<open>str::trim\<close> removes Unicode white space at both ends. \<open>skip_ws\<close> removes one leading white-space
  character in its UTF-8 encoding, \<open>skip_ws_rev\<close> one trailing one from the reversed bytes.
\<close>

definition ascii_ws :: "char \<Rightarrow> bool" where
  "ascii_ws c = (let n = of_char c :: nat in n = 32 \<or> (9 \<le> n \<and> n \<le> 13))"

definition ws_seq :: "nat list \<Rightarrow> bool" where
  "ws_seq bs = (bs \<in> set
     ([[194, 133], [194, 160], [225, 154, 128], [226, 128, 168], [226, 128, 169],
       [226, 128, 175], [226, 129, 159], [227, 128, 128]]
      @ map (\<lambda>n. [226, 128, n]) [128..<139]))"

fun skip_ws :: "string \<Rightarrow> string option" where
  "skip_ws [] = None"
| "skip_ws (c # cs) =
     (if ascii_ws c then Some cs
      else if ws_seq (map of_char (take 2 (c # cs))) then Some (drop 1 cs)
      else if ws_seq (map of_char (take 3 (c # cs))) then Some (drop 2 cs)
      else None)"

fun skip_ws_rev :: "string \<Rightarrow> string option" where
  "skip_ws_rev [] = None"
| "skip_ws_rev (c # cs) =
     (if ascii_ws c then Some cs
      else if ws_seq (map of_char (rev (take 2 (c # cs)))) then Some (drop 1 cs)
      else if ws_seq (map of_char (rev (take 3 (c # cs)))) then Some (drop 2 cs)
      else None)"

lemma skip_ws_shorter: "skip_ws s = Some r \<Longrightarrow> length r < length s"
  by (cases s) (auto split: if_splits)

lemma skip_ws_rev_shorter: "skip_ws_rev s = Some r \<Longrightarrow> length r < length s"
  by (cases s) (auto split: if_splits)

function trim_start :: "string \<Rightarrow> string" where
  "trim_start s = (case skip_ws s of None \<Rightarrow> s | Some r \<Rightarrow> trim_start r)"
  by pat_completeness auto
termination
  by (relation "measure length") (auto dest: skip_ws_shorter)

function trim_rev :: "string \<Rightarrow> string" where
  "trim_rev s = (case skip_ws_rev s of None \<Rightarrow> s | Some r \<Rightarrow> trim_rev r)"
  by pat_completeness auto
termination
  by (relation "measure length") (auto dest: skip_ws_rev_shorter)

declare trim_start.simps [simp del] trim_rev.simps [simp del]

definition trim_end :: "string \<Rightarrow> string" where
  "trim_end s = rev (trim_rev (rev s))"

definition trim :: "string \<Rightarrow> string" where
  "trim s = trim_end (trim_start s)"

text \<open>ASCII classes of \<open>char\<close>.\<close>

definition is_ascii_digit :: "char \<Rightarrow> bool" where
  "is_ascii_digit c = (let n = of_char c :: nat in 48 \<le> n \<and> n \<le> 57)"

definition is_ascii_alphanumeric :: "char \<Rightarrow> bool" where
  "is_ascii_alphanumeric c =
     (let n = of_char c :: nat
      in (48 \<le> n \<and> n \<le> 57) \<or> (65 \<le> n \<and> n \<le> 90) \<or> (97 \<le> n \<and> n \<le> 122))"

definition to_ascii_lowercase :: "string \<Rightarrow> string" where
  "to_ascii_lowercase s =
     map (\<lambda>c. let n = of_char c :: nat in if 65 \<le> n \<and> n \<le> 90 then char_of (n + 32) else c) s"

definition eq_ignore_ascii_case :: "string \<Rightarrow> string \<Rightarrow> bool" where
  "eq_ignore_ascii_case a b \<longleftrightarrow> to_ascii_lowercase a = to_ascii_lowercase b"


section \<open>Facts about strings\<close>

lemma strip_prefix_Some [str_simps]: "strip_prefix p s = Some r \<longleftrightarrow> s = p @ r"
  by (induction p s rule: strip_prefix.induct) auto

lemma strip_prefix_append [simp]: "strip_prefix p (p @ r) = Some r"
  by (simp add: strip_prefix_Some)

lemma starts_with_iff [str_simps]: "starts_with p s \<longleftrightarrow> (\<exists>r. s = p @ r)"
  by (auto simp: starts_with_def strip_prefix_Some)

lemma strip_suffix_Some [str_simps]: "strip_suffix p s = Some r \<longleftrightarrow> s = r @ p"
proof -
  have "strip_suffix p s = Some r \<longleftrightarrow> rev s = rev p @ rev r"
    by (auto simp: strip_suffix_def strip_prefix_Some)
  also have "\<dots> \<longleftrightarrow> s = r @ p"
    by (metis rev_append rev_rev_ident)
  finally show ?thesis .
qed

lemma ends_with_iff [str_simps]: "ends_with p s \<longleftrightarrow> (\<exists>r. s = r @ p)"
  by (auto simp: ends_with_def strip_suffix_Some)

lemma contains_str_iff [str_simps]: "contains_str p s \<longleftrightarrow> (\<exists>a b. s = a @ p @ b)"
proof (induction s)
  case Nil
  show ?case by simp
next
  case (Cons c cs)
  have "(\<exists>a b. c # cs = a @ p @ b) \<longleftrightarrow>
      (\<exists>b. c # cs = p @ b) \<or> (\<exists>a b. cs = a @ p @ b)"
    by (metis append_Cons append_Nil list.exhaust_sel list.sel(1) list.sel(3))
  with Cons show ?case by (simp add: starts_with_iff)
qed

lemma split_on_nonempty [simp]: "split_on c s \<noteq> []"
  by (induction c s rule: split_on.induct) (auto split: list.splits)

lemma split_on_no_sep: "x \<in> set (split_on c s) \<Longrightarrow> c \<notin> set x"
proof (induction s arbitrary: x)
  case Nil
  then show ?case by simp
next
  case (Cons a s)
  obtain y ys where y: "split_on c s = y # ys"
    by (cases "split_on c s") auto
  with Cons.IH have "c \<notin> set y" "\<And>z. z \<in> set ys \<Longrightarrow> c \<notin> set z" by auto
  with Cons.prems y show ?case by (auto split: if_splits)
qed

lemma join_split [str_simps]: "join [c] (split_on c s) = s"
proof (induction s)
  case Nil
  show ?case by simp
next
  case (Cons a s)
  obtain y ys where y: "split_on c s = y # ys"
    by (cases "split_on c s") auto
  with Cons show ?case by (cases ys) auto
qed

lemma split_on_whole: "c \<notin> set x \<Longrightarrow> split_on c x = [x]"
  by (induction x) auto

lemma split_on_append:
  "c \<notin> set x \<Longrightarrow> split_on c (x @ c # s) = x # split_on c s"
  by (induction x) auto

lemma split_join [str_simps]:
  "xs \<noteq> [] \<Longrightarrow> \<forall>x \<in> set xs. c \<notin> set x \<Longrightarrow> split_on c (join [c] xs) = xs"
  by (induction "[c]" xs rule: join.induct) (auto simp: split_on_whole split_on_append)

lemma join_map_sep:
  "c \<notin> \<Union>(set ` set xs) \<Longrightarrow>
     map (\<lambda>x. if x = c then d else x) (join [c] xs) = join [d] xs"
proof (induction "[c]" xs rule: join.induct)
  case (3 x y ys)
  from "3.prems" have "map (\<lambda>a. if a = c then d else a) x = x"
    by (induction x) auto
  with 3 show ?case by auto
qed (auto intro: map_idI)

lemma replace_char_single: "replace_char c [d] s = map (\<lambda>x. if x = c then d else x) s"
  by (induction s) (auto simp: replace_char_def)

lemma set_join: "set (join sep xs) \<subseteq> set sep \<union> \<Union>(set ` set xs)"
  by (induction sep xs rule: join.induct) auto

lemma split_once_append: "c \<notin> set a \<Longrightarrow> split_once c (a @ c # b) = Some (a, b)"
  by (induction a) auto

lemma split_once_SomeD: "split_once c s = Some (a, b) \<Longrightarrow> s = a @ c # b \<and> c \<notin> set a"
proof (induction s arbitrary: a)
  case (Cons x s)
  then show ?case by (cases "x = c"; cases "split_once c s") auto
qed simp

lemma split_once_Some [str_simps]:
  "split_once c s = Some (a, b) \<longleftrightarrow> s = a @ c # b \<and> c \<notin> set a"
  using split_once_append split_once_SomeD by metis

lemma split_once_None [str_simps]: "split_once c s = None \<longleftrightarrow> c \<notin> set s"
  by (induction s) (auto split: option.splits)

text \<open>Trimming leaves a string alone that neither starts nor ends with a white-space byte.\<close>

definition plain_byte :: "char \<Rightarrow> bool" where
  "plain_byte c = (let n = of_char c :: nat in 32 < n \<and> n < 127)"

lemma ws_seq_nonplain: "ws_seq (b # bs) \<Longrightarrow> 127 < b"
  by (auto simp: ws_seq_def)

text \<open>Code equations for evaluation: cheaper than the definitions, byte by byte.\<close>

lemma ws_seq_code [code]:
  "ws_seq [] = False"
  "ws_seq (b # bs) = (if 127 < b then b # bs \<in> set
     ([[194, 133], [194, 160], [225, 154, 128], [226, 128, 168], [226, 128, 169],
       [226, 128, 175], [226, 129, 159], [227, 128, 128]]
      @ map (\<lambda>n. [226, 128, n]) [128..<139]) else False)"
  using ws_seq_nonplain [of b bs] by (auto simp: ws_seq_def)

lemma char_of_upper:
  assumes "65 \<le> (of_char (Char b0 b1 b2 b3 b4 b5 b6 b7) :: nat)" "of_char (Char b0 b1 b2 b3 b4 b5 b6 b7) \<le> (90 :: nat)"
  shows "char_of (of_char (Char b0 b1 b2 b3 b4 b5 b6 b7) + 32 :: nat) = Char b0 b1 b2 b3 b4 True b6 b7"
proof -
  have "\<not> b5" using assms by (cases b5; cases b6; cases b7) (auto simp: of_char_Char of_bool_def split: if_splits)
  then have "of_char (Char b0 b1 b2 b3 b4 b5 b6 b7) + 32 = (of_char (Char b0 b1 b2 b3 b4 True b6 b7) :: nat)"
    by (simp add: of_char_Char)
  then show ?thesis by (simp only: char_of_char)
qed

lemma to_ascii_lowercase_code [code]:
  "to_ascii_lowercase [] = []"
  "to_ascii_lowercase (Char b0 b1 b2 b3 b4 b5 b6 b7 # s) =
     (let n = of_char (Char b0 b1 b2 b3 b4 b5 b6 b7) :: nat
      in if 65 \<le> n \<and> n \<le> 90 then Char b0 b1 b2 b3 b4 True b6 b7 else Char b0 b1 b2 b3 b4 b5 b6 b7) #
     to_ascii_lowercase s"
proof -
  let ?n = "of_char (Char b0 b1 b2 b3 b4 b5 b6 b7) :: nat"
  show "to_ascii_lowercase [] = []" by (simp add: to_ascii_lowercase_def)
  show "to_ascii_lowercase (Char b0 b1 b2 b3 b4 b5 b6 b7 # s) =
     (let n = ?n in if 65 \<le> n \<and> n \<le> 90 then Char b0 b1 b2 b3 b4 True b6 b7 else Char b0 b1 b2 b3 b4 b5 b6 b7) #
     to_ascii_lowercase s"
    unfolding to_ascii_lowercase_def list.map Let_def
    by (cases "65 \<le> ?n \<and> ?n \<le> 90") (simp_all only: char_of_upper if_True if_False)
qed

lemma ws_seq_nonplain_last: "ws_seq (bs @ [b]) \<Longrightarrow> 127 < b"
  by (auto simp: ws_seq_def append_eq_Cons_conv)

lemma skip_ws_plain: "s \<noteq> [] \<Longrightarrow> plain_byte (hd s) \<Longrightarrow> skip_ws s = None"
  by (cases s) (auto simp: plain_byte_def ascii_ws_def Let_def take_Suc numeral_2_eq_2
      numeral_3_eq_3 dest: ws_seq_nonplain)

lemma skip_ws_rev_plain: "s \<noteq> [] \<Longrightarrow> plain_byte (hd s) \<Longrightarrow> skip_ws_rev s = None"
  by (cases s) (auto simp: plain_byte_def ascii_ws_def Let_def take_Suc numeral_2_eq_2
      numeral_3_eq_3 dest: ws_seq_nonplain_last)

lemma trim_plain [str_simps]:
  assumes "s \<noteq> []" "plain_byte (hd s)" "plain_byte (last s)"
  shows "trim s = s"
proof -
  have "trim_start s = s"
    using assms by (simp add: trim_start.simps skip_ws_plain)
  moreover have "trim_rev (rev s) = rev s"
    using assms by (simp add: trim_rev.simps skip_ws_rev_plain hd_rev)
  ultimately show ?thesis by (simp add: trim_def trim_end_def)
qed

lemma alnum_plain: "is_ascii_alphanumeric c \<Longrightarrow> plain_byte c"
  by (auto simp: is_ascii_alphanumeric_def plain_byte_def Let_def)

text \<open>Trimming only removes bytes.\<close>

lemma skip_ws_set: "skip_ws s = Some r \<Longrightarrow> set r \<subseteq> set s"
  by (cases s) (auto split: if_splits dest: in_set_dropD)

lemma skip_ws_rev_set: "skip_ws_rev s = Some r \<Longrightarrow> set r \<subseteq> set s"
  by (cases s) (auto split: if_splits dest: in_set_dropD)

lemma set_trim_start: "set (trim_start s) \<subseteq> set s"
proof (induction s rule: trim_start.induct)
  case (1 s)
  show ?case
    using "1.IH" skip_ws_set [of s] by (cases "skip_ws s") (auto simp: trim_start.simps [of s])
qed

lemma set_trim_rev: "set (trim_rev s) \<subseteq> set s"
proof (induction s rule: trim_rev.induct)
  case (1 s)
  show ?case
    using "1.IH" skip_ws_rev_set [of s] by (cases "skip_ws_rev s") (auto simp: trim_rev.simps [of s])
qed

lemma set_trim: "set (trim s) \<subseteq> set s"
  using set_trim_start [of s] set_trim_rev [of "rev (trim_start s)"]
  by (auto simp: trim_def trim_end_def)

lemma length_trim_start: "length (trim_start s) \<le> length s"
proof (induction s rule: trim_start.induct)
  case (1 s)
  show ?case
    using "1.IH" skip_ws_shorter [of s] by (cases "skip_ws s") (force simp: trim_start.simps [of s])+
qed

lemma length_trim_rev: "length (trim_rev s) \<le> length s"
proof (induction s rule: trim_rev.induct)
  case (1 s)
  show ?case
    using "1.IH" skip_ws_rev_shorter [of s] by (cases "skip_ws_rev s") (force simp: trim_rev.simps [of s])+
qed

lemma length_trim: "length (trim s) \<le> length s"
  using length_trim_start [of s] length_trim_rev [of "rev (trim_start s)"]
  by (simp add: trim_def trim_end_def)

lemma length_split_once:
  "split_once c s = Some (a, b) \<Longrightarrow> length a < length s \<and> length b < length s"
  by (auto simp: split_once_Some)

text \<open>\<open>str::split_whitespace\<close> and \<open>str::lines\<close>.\<close>

fun split_ws_acc :: "nat \<Rightarrow> string \<Rightarrow> string \<Rightarrow> string list" where
  "split_ws_acc 0 acc s = []"
| "split_ws_acc (Suc n) acc [] = (if acc = [] then [] else [rev acc])"
| "split_ws_acc (Suc n) acc (c # cs) =
     (case skip_ws (c # cs) of
        Some rest \<Rightarrow> (if acc = [] then [] else [rev acc]) @ split_ws_acc n [] rest
      | None \<Rightarrow> split_ws_acc n (c # acc) cs)"

definition split_whitespace :: "string \<Rightarrow> string list" where
  "split_whitespace s = split_ws_acc (Suc (length s)) [] s"

definition strip_cr :: "string \<Rightarrow> string" where
  "strip_cr l = (case strip_suffix [CHR 13] l of Some r \<Rightarrow> r | None \<Rightarrow> l)"

definition str_lines :: "string \<Rightarrow> string list" where
  "str_lines s =
     (let ls = split_on (CHR 10) s
      in map strip_cr (butlast ls) @ (if last ls = [] then [] else [last ls]))"

lemma find_SomeD: "find P xs = Some x \<Longrightarrow> x \<in> set xs \<and> P x"
  by (induction xs) (auto split: if_splits)

text \<open>Decimal printing yields digits.\<close>

lemma dec_digits: "c \<in> set (dec n) \<Longrightarrow> is_ascii_digit c"
proof (induction n rule: dec.induct)
  case (1 n)
  show ?case
  proof (cases "n < 10")
    case True
    with 1 show ?thesis by (auto simp: dec.simps is_ascii_digit_def of_char_of Let_def)
  next
    case False
    have "48 + n mod 10 < 256" by simp
    with False 1 show ?thesis
      by (auto simp: dec.simps [of n] is_ascii_digit_def of_char_of Let_def)
  qed
qed

section \<open>Hexadecimal digits\<close>

text \<open>Every byte as two lower-case digits.\<close>

definition nibble :: "nat \<Rightarrow> char" where
  "nibble n = char_of (if n < 10 then 48 + n else 87 + n)"

definition hex_digest :: "string \<Rightarrow> string" where
  "hex_digest s = concat (map (\<lambda>c. [nibble (of_char c div 16), nibble (of_char c mod 16)]) s)"

lemma of_char_bound: "(of_char c :: nat) < 256"
  using of_char_mod_256 [of c, where 'a = nat] by (metis mod_less_divisor zero_less_numeral)

lemma byte_div: "(of_char c :: nat) div 16 < 16"
  using of_char_bound [of c] by (intro less_mult_imp_div_less) simp

lemma nibble_inj: "a < 16 \<Longrightarrow> b < 16 \<Longrightarrow> nibble a = nibble b \<Longrightarrow> a = b"
proof -
  assume ab: "a < 16" "b < 16" "nibble a = nibble b"
  then have "(of_char (nibble a) :: nat) = of_char (nibble b)" by simp
  with ab show ?thesis by (simp add: nibble_def of_char_of split: if_splits)
qed

lemma hex_digest_inj: "hex_digest s = hex_digest t \<Longrightarrow> s = t"
proof (induction s arbitrary: t)
  case Nil
  then show ?case by (cases t) (simp_all add: hex_digest_def)
next
  case (Cons c s)
  then obtain d t' where t: "t = d # t'" by (cases t) (auto simp: hex_digest_def)
  from byte_div have "(of_char c :: nat) div 16 = of_char d div 16" "(of_char c :: nat) mod 16 = of_char d mod 16"
    using Cons.prems t byte_div by (auto simp: hex_digest_def intro!: nibble_inj)
  then have "(of_char c :: nat) = of_char d"
    by (metis div_mult_mod_eq)
  then have "c = d" by simp
  with Cons t show ?case by (simp add: hex_digest_def)
qed

lemma hex_digest_plain: "CHR 10 \<notin> set (hex_digest s)"
proof -
  have "nibble n \<noteq> CHR 10" if "n < 16" for n
  proof
    assume "nibble n = CHR 10"
    then have "(of_char (nibble n) :: nat) = 10" by simp
    with that show False by (simp add: nibble_def of_char_of split: if_splits)
  qed
  then show ?thesis
    using byte_div unfolding hex_digest_def by (simp add: eq_commute [of "CHR 10"])
qed

end
