(* ===== verification/Ordered.thy ===== *)
theory Ordered
  imports Prelude
begin

text \<open>
  The standard library's maps and sets behind their interfaces. The locale \<open>map_adt\<close> is what a
  client of a map relies on, \<open>ordered_map\<close> adds the key order a \<open>BTreeMap\<close> iterates in, and
  \<open>multi_index\<close> is a map of vectors filled through \<open>entry(k).or_default().push(v)\<close>. The model's
  containers interpret them: sorted entry lists for \<open>BTreeMap\<close>, partial functions for the
  \<open>HashMap\<close>s, which the sources only look up and never iterate.
\<close>

section \<open>Entry lists\<close>

lemma alist_by_keys:
  "distinct (map fst xs) \<Longrightarrow> xs = map (\<lambda>k. (k, the (map_of xs k))) (map fst xs)"
proof (induction xs)
  case Nil
  then show ?case by simp
next
  case (Cons x xs)
  from Cons.prems have "map (\<lambda>k. (k, the (map_of (x # xs) k))) (map fst xs) =
      map (\<lambda>k. (k, the (map_of xs k))) (map fst xs)"
    by (cases x) (auto intro!: map_cong)
  with Cons show ?case by (cases x) auto
qed

section \<open>Interfaces\<close>

locale map_adt =
  fixes empty :: "'m"
    and get :: "'m \<Rightarrow> 'k \<Rightarrow> 'v option"
    and put :: "'k \<Rightarrow> 'v \<Rightarrow> 'm \<Rightarrow> 'm"
    and invar :: "'m \<Rightarrow> bool"
  assumes get_empty: "get empty k = None"
    and get_put: "invar m \<Longrightarrow> get (put k v m) k' = (if k' = k then Some v else get m k')"
    and invar_empty: "invar empty"
    and invar_put: "invar m \<Longrightarrow> invar (put k v m)"
begin

lemma invar_fold_put: "invar m \<Longrightarrow> invar (fold (\<lambda>x. put (key x) (val x)) xs m)"
  by (induction xs arbitrary: m) (auto simp: invar_put)

text \<open>Collecting an iterator into a map keeps, per key, the last item.\<close>

lemma get_fold_put:
  "invar m \<Longrightarrow> get (fold (\<lambda>x. put (key x) (val x)) xs m) k =
     (case find (\<lambda>x. key x = k) (rev xs) of Some x \<Rightarrow> Some (val x) | None \<Rightarrow> get m k)"
proof (induction xs rule: rev_induct)
  case Nil
  then show ?case by simp
next
  case (snoc x xs)
  then show ?case by (simp add: get_put invar_fold_put)
qed

end

locale ordered_map = map_adt empty get put invar
  for empty :: "'m" and get :: "'m \<Rightarrow> 'k::linorder \<Rightarrow> 'v option" and put and invar +
  fixes entries :: "'m \<Rightarrow> ('k \<times> 'v) list"
  assumes entries_sorted: "invar m \<Longrightarrow> sorted_wrt (<) (map fst (entries m))"
    and entries_get: "invar m \<Longrightarrow> map_of (entries m) k = get m k"
begin

lemma entries_distinct: "invar m \<Longrightarrow> distinct (map fst (entries m))"
  using entries_sorted strict_sorted_iff by blast

lemma entry_iff: "invar m \<Longrightarrow> (k, v) \<in> set (entries m) \<longleftrightarrow> get m k = Some v"
  using entries_distinct entries_get by (metis map_of_eq_Some_iff)

text \<open>Two maps with the same look-ups iterate alike: iteration is deterministic.\<close>

lemma entries_unique:
  assumes "invar m" "invar m'" "\<And>k. get m k = get m' k"
  shows "entries m = entries m'"
proof -
  have keys: "map fst (entries m) = map fst (entries m')"
  proof (rule sorted_distinct_set_unique)
    show "sorted (map fst (entries m))" "sorted (map fst (entries m'))"
      "distinct (map fst (entries m))" "distinct (map fst (entries m'))"
      using assms(1,2) entries_sorted strict_sorted_iff by blast+
    show "set (map fst (entries m)) = set (map fst (entries m'))"
      using assms by (force simp: entry_iff)
  qed
  have "map_of (entries m) = map_of (entries m')"
    using assms by (simp add: fun_eq_iff entries_get)
  with keys show ?thesis
    using alist_by_keys entries_distinct assms(1,2) by metis
qed

lemma keys_fold_put:
  assumes "invar m"
  shows "set (map fst (entries (fold (\<lambda>x. put (key x) (val x)) xs m))) =
    set (map fst (entries m)) \<union> key ` set xs"
  using assms
proof (induction xs arbitrary: m)
  case Nil
  then show ?case by simp
next
  case (Cons x xs)
  have "set (map fst (entries (put (key x) (val x) m))) = insert (key x) (set (map fst (entries m)))"
    using Cons.prems entry_iff get_put invar_put
    by (auto simp: image_iff) (metis fst_conv)+
  with Cons show ?case by (simp add: invar_put)
qed

end

locale multi_index = map_adt empty get put invar
  for empty :: "'m" and get :: "'m \<Rightarrow> 'k \<Rightarrow> 'v list option" and put and invar +
  fixes push :: "'k \<Rightarrow> 'v \<Rightarrow> 'm \<Rightarrow> 'm"
  assumes push_def: "push k v m = put k ((case get m k of None \<Rightarrow> [] | Some vs \<Rightarrow> vs) @ [v]) m"
begin

lemma invar_push: "invar m \<Longrightarrow> invar (push k v m)"
  by (simp add: push_def invar_put)

lemma get_push:
  "invar m \<Longrightarrow> get (push k v m) k' =
     (if k' = k then Some ((case get m k of None \<Rightarrow> [] | Some vs \<Rightarrow> vs) @ [v]) else get m k')"
  by (simp add: push_def get_put)

text \<open>Looking a key up in the index finds what a scan of the pushed items finds, in order.\<close>

lemma get_fold_push:
  "invar m \<Longrightarrow> get (fold (\<lambda>x. push (key x) (val x)) xs m) k =
     (case filter (\<lambda>x. key x = k) xs of
        [] \<Rightarrow> get m k
      | ys \<Rightarrow> Some ((case get m k of None \<Rightarrow> [] | Some vs \<Rightarrow> vs) @ map val ys))"
proof (induction xs arbitrary: m)
  case Nil
  then show ?case by simp
next
  case (Cons x xs)
  then have IH: "get (fold (\<lambda>x. push (key x) (val x)) xs (push (key x) (val x) m)) k =
     (case filter (\<lambda>x. key x = k) xs of
        [] \<Rightarrow> get (push (key x) (val x) m) k
      | ys \<Rightarrow> Some ((case get (push (key x) (val x) m) k of None \<Rightarrow> [] | Some vs \<Rightarrow> vs) @ map val ys))"
    by (simp add: invar_push)
  show ?case
    using Cons.prems by (auto simp: IH get_push split: list.splits option.splits)
qed

lemma invar_fold_push: "invar m \<Longrightarrow> invar (fold (\<lambda>x. push (key x) (val x)) xs m)"
  by (induction xs arbitrary: m) (auto simp: invar_push)

end

section \<open>\<open>BTreeMap\<close>: entries sorted by key\<close>

fun bm_insert :: "'k::linorder \<Rightarrow> 'v \<Rightarrow> ('k \<times> 'v) list \<Rightarrow> ('k \<times> 'v) list" where
  "bm_insert k v [] = [(k, v)]"
| "bm_insert k v ((a, b) # m) =
     (if k < a then (k, v) # (a, b) # m
      else if k = a then (k, v) # m
      else (a, b) # bm_insert k v m)"

definition bm_push :: "'k::linorder \<Rightarrow> 'v \<Rightarrow> ('k \<times> 'v list) list \<Rightarrow> ('k \<times> 'v list) list" where
  "bm_push k v m = bm_insert k ((case map_of m k of None \<Rightarrow> [] | Some vs \<Rightarrow> vs) @ [v]) m"

definition bm_ok :: "('k::linorder \<times> 'v) list \<Rightarrow> bool" where
  "bm_ok m \<longleftrightarrow> sorted_wrt (<) (map fst m)"

lemma bm_insert_keys [btree_simps]:
  "set (map fst (bm_insert k v m)) = insert k (set (map fst m))"
  by (induction k v m rule: bm_insert.induct) auto

lemma bm_insert_get [btree_simps]:
  "bm_ok m \<Longrightarrow> map_of (bm_insert k v m) k' = (if k' = k then Some v else map_of m k')"
  by (induction k v m rule: bm_insert.induct) (auto simp: bm_ok_def)

lemma bm_insert_ok [btree_simps, intro]: "bm_ok m \<Longrightarrow> bm_ok (bm_insert k v m)"
proof (induction k v m rule: bm_insert.induct)
  case (2 k v a b m)
  then show ?case
    using bm_insert_keys [of k v m] by (fastforce simp: bm_ok_def)
qed (simp add: bm_ok_def)

lemma bm_empty_ok [simp]: "bm_ok []"
  by (simp add: bm_ok_def)

lemma bm_ok_distinct: "bm_ok m \<Longrightarrow> distinct (map fst m)"
  by (simp add: bm_ok_def strict_sorted_iff)

interpretation bm: ordered_map "[]" map_of bm_insert bm_ok "\<lambda>m. m"
  by unfold_locales (auto simp: btree_simps dest: bm_ok_def [THEN iffD1])

interpretation bmi: multi_index "[]" map_of bm_insert bm_ok bm_push
  by unfold_locales (simp add: bm_push_def)

section \<open>\<open>HashMap\<close>: looked up only\<close>

definition hm_push :: "'k \<Rightarrow> 'v \<Rightarrow> ('k \<rightharpoonup> 'v list) \<Rightarrow> ('k \<rightharpoonup> 'v list)" where
  "hm_push k v m = m(k \<mapsto> (case m k of None \<Rightarrow> [] | Some vs \<Rightarrow> vs) @ [v])"

interpretation hm: multi_index Map.empty "\<lambda>m k. m k" "\<lambda>k v m. m(k \<mapsto> v)" "\<lambda>m. True" hm_push
  by unfold_locales (auto simp: hm_push_def)

section \<open>\<open>BTreeSet\<close>: the sorted members\<close>

text \<open>\<open>collect()\<close> into a \<open>BTreeSet\<close>, and \<open>sort\<close> followed by \<open>dedup\<close> on a vector.\<close>

definition btree_set :: "'a::linorder list \<Rightarrow> 'a list" where
  "btree_set xs = sort (remdups xs)"

definition sort_dedup :: "'a::linorder list \<Rightarrow> 'a list" where
  "sort_dedup xs = remdups_adj (sort xs)"

lemma set_btree_set [simp]: "set (btree_set xs) = set xs"
  by (simp add: btree_set_def)

lemma sorted_btree_set [simp]: "sorted (btree_set xs)" "distinct (btree_set xs)"
  by (simp_all add: btree_set_def)

lemma set_sort_dedup [simp]: "set (sort_dedup xs) = set xs"
  by (simp add: sort_dedup_def)

lemma distinct_remdups_adj_sorted: "sorted xs \<Longrightarrow> distinct (remdups_adj xs)"
  by (induction xs rule: remdups_adj.induct) auto

lemma sort_dedup_eq: "sort_dedup xs = btree_set xs"
proof (rule sorted_distinct_set_unique)
  show "sorted (sort_dedup xs)" "distinct (sort_dedup xs)"
    by (simp_all add: sort_dedup_def sorted_remdups_adj distinct_remdups_adj_sorted)
qed simp_all

lemma sorted_sort_dedup [simp]: "sorted (sort_dedup xs)" "distinct (sort_dedup xs)"
  by (simp_all add: sort_dedup_eq)

lemma btree_set_cong: "set xs = set ys \<Longrightarrow> btree_set xs = btree_set ys"
  by (rule sorted_distinct_set_unique) simp_all

lemma btree_set_idem: "sorted xs \<Longrightarrow> distinct xs \<Longrightarrow> btree_set xs = xs"
  by (simp add: btree_set_def distinct_remdups_id sorted_sort_id)

section \<open>Sorting by a comparison\<close>

text \<open>A stable sort by a comparison, as \<open>slice::sort_by\<close>.\<close>

fun insert_by :: "('a \<Rightarrow> 'a \<Rightarrow> bool) \<Rightarrow> 'a \<Rightarrow> 'a list \<Rightarrow> 'a list" where
  "insert_by le x [] = [x]"
| "insert_by le x (y # ys) = (if le x y then x # y # ys else y # insert_by le x ys)"

definition sort_by :: "('a \<Rightarrow> 'a \<Rightarrow> bool) \<Rightarrow> 'a list \<Rightarrow> 'a list" where
  "sort_by le xs = foldr (insert_by le) xs []"

lemma set_insert_by: "set (insert_by le x ys) = insert x (set ys)"
  by (induction ys) auto

lemma set_sort_by [simp]: "set (sort_by le xs) = set xs"
  unfolding sort_by_def by (induction xs) (auto simp: set_insert_by)

lemma length_sort_by [simp]: "length (sort_by le xs) = length xs"
proof -
  have "length (insert_by le x ys) = Suc (length ys)" for x ys by (induction ys) auto
  then show ?thesis unfolding sort_by_def by (induction xs) simp_all
qed

text \<open>A comparison that is total and transitive on the elements sorts them.\<close>

definition sorts_on :: "('a \<Rightarrow> 'a \<Rightarrow> bool) \<Rightarrow> 'a set \<Rightarrow> bool" where
  "sorts_on le A \<longleftrightarrow>
     (\<forall>a \<in> A. \<forall>b \<in> A. le a b \<or> le b a) \<and>
     (\<forall>a \<in> A. \<forall>b \<in> A. \<forall>c \<in> A. le a b \<longrightarrow> le b c \<longrightarrow> le a c)"

lemma sorts_on_subset: "sorts_on le B \<Longrightarrow> A \<subseteq> B \<Longrightarrow> sorts_on le A"
  unfolding sorts_on_def by (meson subsetD)

lemma sorts_on_trans:
  "sorts_on le A \<Longrightarrow> a \<in> A \<Longrightarrow> b \<in> A \<Longrightarrow> c \<in> A \<Longrightarrow> le a b \<Longrightarrow> le b c \<Longrightarrow> le a c"
  unfolding sorts_on_def by metis

lemma sorted_insert_by:
  "sorts_on le (insert x (set ys)) \<Longrightarrow> sorted_wrt le ys \<Longrightarrow> sorted_wrt le (insert_by le x ys)"
proof (induction ys)
  case (Cons y ys)
  have IH: "sorted_wrt le (insert_by le x ys)"
    by (rule Cons.IH [OF sorts_on_subset [OF Cons.prems(1)]]) (use Cons.prems(2) in auto)
  show ?case
  proof (cases "le x y")
    case True
    have "le x z" if "z \<in> set ys" for z
    proof (rule sorts_on_trans [OF Cons.prems(1) _ _ _ True])
      show "le y z" using Cons.prems(2) that by simp
    qed (use that in simp_all)
    with True Cons.prems(2) show ?thesis by simp
  next
    case False
    then have "le y x" using Cons.prems(1) by (simp add: sorts_on_def)
    with IH False Cons.prems(2) show ?thesis by (simp add: set_insert_by)
  qed
qed simp

lemma sorted_sort_by: "sorts_on le (set xs) \<Longrightarrow> sorted_wrt le (sort_by le xs)"
proof (induction xs)
  case (Cons x xs)
  have "sorted_wrt le (sort_by le xs)"
    using Cons.IH [OF sorts_on_subset [OF Cons.prems]] by auto
  then have "sorted_wrt le (insert_by le x (sort_by le xs))"
    using Cons.prems by (intro sorted_insert_by) simp_all
  then show ?case by (simp add: sort_by_def)
qed (simp add: sort_by_def)

lemma find_sorted_least:
  assumes "sorted_wrt le xs" "find P xs = Some x" "\<And>y. le y y"
  shows "\<forall>y \<in> set xs. P y \<longrightarrow> le x y"
  using assms by (induction xs) (auto split: if_splits dest: find_SomeD)

end
