(* ===== verification/Directives.thy ===== *)
theory Directives
  imports Ordered "HOL-Library.Word"
begin

text \<open>
  Header directives of a model, \<^verbatim>\<open>phlo-transform-sql/src/directives.rs\<close>: \<open>-- @name value\<close>
  comment lines, read independently of the SQL around them. One line is one step on the
  \<open>directives\<close> record; problems are collected as issues and never stop the parse.
\<close>

section \<open>Data\<close>

datatype materialization = View | Table | Incremental | Ephemeral

definition materialization_parse :: "string \<Rightarrow> materialization option" where
  "materialization_parse value =
     (let v = to_ascii_lowercase (trim value)
      in if v = ''view'' then Some View
         else if v = ''table'' then Some Table
         else if v = ''incremental'' then Some Incremental
         else if v = ''ephemeral'' then Some Ephemeral
         else None)"

definition materialization_str :: "materialization \<Rightarrow> string" where
  "materialization_str m =
     (case m of View \<Rightarrow> ''view'' | Table \<Rightarrow> ''table'' | Incremental \<Rightarrow> ''incremental''
      | Ephemeral \<Rightarrow> ''ephemeral'')"

datatype incremental_strategy =
    Append
  | Key "string list"
  | Partition "string list"
  | TimeWindow string "64 word option"

definition strategy_str :: "incremental_strategy \<Rightarrow> string" where
  "strategy_str s =
     (case s of Append \<Rightarrow> ''append'' | Key _ \<Rightarrow> ''key'' | Partition _ \<Rightarrow> ''partition''
      | TimeWindow _ _ \<Rightarrow> ''time-window'')"

definition strategy_columns :: "incremental_strategy \<Rightarrow> string list" where
  "strategy_columns s =
     (case s of Append \<Rightarrow> [] | Key columns \<Rightarrow> columns | Partition columns \<Rightarrow> columns
      | TimeWindow column _ \<Rightarrow> [column])"

datatype issue_kind =
    MissingValue | InvalidValue | DuplicateId | ConflictingMaterialization | UnknownDirective

datatype directive_issue =
  Issue (issue_kind: issue_kind) (issue_name: string) (issue_line: nat)

record directives =
  d_pinned_id :: "string option"
  d_materialization :: "materialization option"
  d_tags :: "string list"
  d_owner :: "string option"
  d_keys :: "string list"
  d_not_null :: "string list"
  d_incremental :: "incremental_strategy option"
  d_issues :: "directive_issue list"

definition no_directives :: directives where
  "no_directives =
     \<lparr>d_pinned_id = None, d_materialization = None, d_tags = [], d_owner = None, d_keys = [],
      d_not_null = [], d_incremental = None, d_issues = []\<rparr>"

section \<open>Parsing\<close>

definition name_char :: "char \<Rightarrow> bool" where
  "name_char c \<longleftrightarrow> is_ascii_alphanumeric c \<or> c = CHR ''-'' \<or> c = CHR ''_''"

definition parse_line :: "string \<Rightarrow> (string \<times> string) option" where
  "parse_line line =
     (case strip_prefix ''--'' (trim_start line) of
        None \<Rightarrow> None
      | Some rest \<Rightarrow>
          (case strip_prefix ''@'' (trim_start rest) of
             None \<Rightarrow> None
           | Some body \<Rightarrow>
               (let name = takeWhile name_char body
                in if name = [] then None
                   else Some (''@'' @ name, trim (dropWhile name_char body)))))"

definition split_columns :: "string \<Rightarrow> string list" where
  "split_columns value =
     filter (\<lambda>p. p \<noteq> []) (map trim (concat (map split_whitespace (split_on CHR '','' value))))"

definition add_issue :: "issue_kind \<Rightarrow> string \<Rightarrow> nat \<Rightarrow> directives \<Rightarrow> directives" where
  "add_issue kind name line d = d\<lparr>d_issues := d_issues d @ [Issue kind name line]\<rparr>"

definition missing_value :: "string \<Rightarrow> nat \<Rightarrow> directives \<Rightarrow> directives" where
  "missing_value name line d = add_issue MissingValue name line d"

definition set_materialization ::
    "materialization \<Rightarrow> string \<Rightarrow> nat \<Rightarrow> directives \<Rightarrow> directives" where
  "set_materialization m name line d =
     (case d_materialization d of
        Some existing \<Rightarrow>
          (if existing \<noteq> m then add_issue ConflictingMaterialization name line d else d)
      | None \<Rightarrow> d\<lparr>d_materialization := Some m\<rparr>)"

definition parse_id :: "string \<Rightarrow> string \<Rightarrow> nat \<Rightarrow> directives \<Rightarrow> directives" where
  "parse_id name value line d =
     (let value = trim value
      in if value = [] then missing_value name line d
         else if d_pinned_id d \<noteq> None then add_issue DuplicateId name line d
         else d\<lparr>d_pinned_id := Some value\<rparr>)"

definition incremental_strategy_of :: "string \<Rightarrow> incremental_strategy option" where
  "incremental_strategy_of value =
     (case split_once CHR ''='' value of
        Some (key, columns) \<Rightarrow>
          (let columns = split_columns columns; key = to_ascii_lowercase (trim key)
           in if key = ''key'' \<and> columns \<noteq> [] then Some (Key columns)
              else if key = ''partition'' \<and> columns \<noteq> [] then Some (Partition columns)
              else if key = ''window'' \<and> columns \<noteq> [] then Some (TimeWindow (columns ! 0) None)
              else None)
      | None \<Rightarrow>
          (case split_whitespace value of
             word # _ \<Rightarrow> if to_ascii_lowercase word = ''append'' then Some Append else None
           | [] \<Rightarrow> None))"

definition parse_incremental :: "string \<Rightarrow> string \<Rightarrow> nat \<Rightarrow> directives \<Rightarrow> directives" where
  "parse_incremental name value line d =
     (let value = trim value
      in if value = [] then missing_value name line d
         else case incremental_strategy_of value of
                Some strategy \<Rightarrow>
                  (let d = (case strategy of
                              Key columns \<Rightarrow> d\<lparr>d_keys := sort_dedup (d_keys d @ columns)\<rparr>
                            | _ \<Rightarrow> d)
                   in set_materialization Incremental name line (d\<lparr>d_incremental := Some strategy\<rparr>))
              | None \<Rightarrow> add_issue InvalidValue name line d)"

definition apply_directive :: "string \<Rightarrow> string \<Rightarrow> nat \<Rightarrow> directives \<Rightarrow> directives" where
  "apply_directive name value line d =
     (if name = ''@id'' then parse_id name value line d
      else if name = ''@view'' then set_materialization View name line d
      else if name = ''@table'' then set_materialization Table name line d
      else if name = ''@ephemeral'' then set_materialization Ephemeral name line d
      else if name = ''@materialized'' then
        (if trim value = [] then missing_value name line d
         else case materialization_parse value of
                Some m \<Rightarrow> set_materialization m name line d
              | None \<Rightarrow> add_issue InvalidValue name line d)
      else if name = ''@tags'' then
        (let tags = filter (\<lambda>t. t \<noteq> []) (map trim (split_on CHR '','' value))
         in if tags = [] then missing_value name line d else d\<lparr>d_tags := d_tags d @ tags\<rparr>)
      else if name = ''@owner'' then
        (let owner = trim value
         in if owner = [] then missing_value name line d else d\<lparr>d_owner := Some owner\<rparr>)
      else if name = ''@key'' then
        (let columns = split_columns value
         in if columns = [] then missing_value name line d else d\<lparr>d_keys := d_keys d @ columns\<rparr>)
      else if name = ''@not-null'' then
        (let columns = split_columns value
         in if columns = [] then missing_value name line d
            else d\<lparr>d_not_null := d_not_null d @ columns\<rparr>)
      else if name = ''@incremental'' then parse_incremental name value line d
      else add_issue UnknownDirective name line d)"

definition directive_line :: "nat \<times> string \<Rightarrow> directives \<Rightarrow> directives" where
  "directive_line p d =
     (case parse_line (snd p) of
        None \<Rightarrow> d
      | Some (name, value) \<Rightarrow> apply_directive name value (fst p + 1) d)"

definition parse_directives :: "string \<Rightarrow> directives" where
  "parse_directives sql =
     (let d = fold directive_line (enumerate 0 (str_lines sql)) no_directives
      in d\<lparr>d_tags := sort_dedup (d_tags d), d_keys := sort_dedup (d_keys d),
           d_not_null := sort_dedup (d_not_null d)\<rparr>)"

section \<open>What a parse guarantees\<close>

text \<open>
  The invariant of the line loop: an incremental strategy comes with a materialisation, any
  materialisation but \<open>Incremental\<close> then is a reported conflict, the columns of a key strategy are
  keys, and issues lie on lines already read.
\<close>

definition directives_ok :: "nat \<Rightarrow> directives \<Rightarrow> bool" where
  "directives_ok n d \<longleftrightarrow>
     (d_incremental d \<noteq> None \<longrightarrow>
        d_materialization d = Some Incremental \<or>
        d_materialization d \<noteq> None \<and>
          (\<exists>i \<in> set (d_issues d). issue_kind i = ConflictingMaterialization)) \<and>
     (\<forall>cs. d_incremental d = Some (Key cs) \<longrightarrow> set cs \<subseteq> set (d_keys d)) \<and>
     (\<forall>i \<in> set (d_issues d). 1 \<le> issue_line i \<and> issue_line i \<le> n) \<and>
     sorted (map issue_line (d_issues d))"

lemma issue_ok:
  "directives_ok n d \<Longrightarrow> n < line \<Longrightarrow> directives_ok line (add_issue k name line d)"
  by (fastforce simp: directives_ok_def add_issue_def sorted_append)

lemma weaken_ok: "directives_ok n d \<Longrightarrow> n \<le> m \<Longrightarrow> directives_ok m d"
  by (fastforce simp: directives_ok_def)

lemma set_materialization_ok:
  assumes "directives_ok n d" "n < line"
  shows "directives_ok line (set_materialization m name line d)"
proof (cases "d_materialization d")
  case None
  with assms have "d_incremental d = None" by (auto simp: directives_ok_def)
  with assms None show ?thesis
    by (auto simp: set_materialization_def directives_ok_def)
next
  case (Some e)
  with assms show ?thesis
    by (auto simp: set_materialization_def issue_ok intro: weaken_ok)
qed

lemma incremental_ok:
  assumes "directives_ok n d" "n < line" "\<And>cs. s = Key cs \<Longrightarrow> set cs \<subseteq> set (d_keys d)"
  shows "directives_ok line (set_materialization Incremental name line (d\<lparr>d_incremental := Some s\<rparr>))"
  using assms
  by (cases "d_materialization d")
    (fastforce simp: set_materialization_def directives_ok_def add_issue_def sorted_append)+

lemma keys_ok:
  "directives_ok n d \<Longrightarrow> set (d_keys d) \<subseteq> set ks \<Longrightarrow> directives_ok n (d\<lparr>d_keys := ks\<rparr>)"
  by (auto simp: directives_ok_def)

lemma parse_incremental_ok:
  assumes "directives_ok n d" "n < line"
  shows "directives_ok line (parse_incremental name value line d)"
proof (cases "incremental_strategy_of (trim value)")
  case None
  with assms show ?thesis by (simp add: parse_incremental_def missing_value_def Let_def issue_ok)
next
  case (Some s)
  show ?thesis
  proof (cases s)
    case (Key cs)
    have "directives_ok n (d\<lparr>d_keys := sort_dedup (d_keys d @ cs)\<rparr>)"
      using assms(1) by (rule keys_ok) simp
    from incremental_ok [OF this assms(2), of s name] Key Some assms show ?thesis
      by (simp add: parse_incremental_def missing_value_def Let_def issue_ok)
  qed (insert Some assms incremental_ok [OF assms, of s name],
      simp_all add: parse_incremental_def missing_value_def Let_def issue_ok)
qed

lemma unrelated_ok:
  assumes "directives_ok n d" "n < line"
  shows "directives_ok line (d\<lparr>d_pinned_id := i\<rparr>)" "directives_ok line (d\<lparr>d_tags := t\<rparr>)"
    "directives_ok line (d\<lparr>d_owner := ow\<rparr>)" "directives_ok line (d\<lparr>d_not_null := nn\<rparr>)"
    "directives_ok line (d\<lparr>d_keys := d_keys d @ ks\<rparr>)"
  using assms by (fastforce simp: directives_ok_def)+

lemmas step_ok = issue_ok unrelated_ok set_materialization_ok parse_incremental_ok

lemma apply_directive_ok:
  assumes "directives_ok n d" "n < line"
  shows "directives_ok line (apply_directive name value line d)"
  using step_ok [OF assms]
  by (simp add: apply_directive_def parse_id_def missing_value_def Let_def split: option.split)

lemma directive_line_ok:
  assumes "directives_ok n d"
  shows "directives_ok (Suc n) (directive_line (n, l) d)"
  using assms apply_directive_ok [of n d "Suc n"] weaken_ok [of n d "Suc n"]
  by (simp add: directive_line_def split: option.split)

lemma directive_lines_ok:
  "directives_ok n d \<Longrightarrow> directives_ok (n + length ls) (fold directive_line (enumerate n ls) d)"
proof (induction ls arbitrary: n d)
  case Nil
  then show ?case by simp
next
  case (Cons l ls)
  from Cons.IH [OF directive_line_ok [OF Cons.prems]] show ?case by simp
qed

lemma no_directives_ok: "directives_ok 0 no_directives"
  by (simp add: directives_ok_def no_directives_def)

text \<open>The \<open>@id\<close> values a text declares, and the effect of one line on what was pinned before.\<close>

definition line_ids :: "string \<Rightarrow> string list" where
  "line_ids l =
     (case parse_line l of
        Some (name, value) \<Rightarrow> if name = ''@id'' \<and> trim value \<noteq> [] then [trim value] else []
      | None \<Rightarrow> [])"

definition duplicate_ids :: "directives \<Rightarrow> nat" where
  "duplicate_ids d = length (filter (\<lambda>i. issue_kind i = DuplicateId) (d_issues d))"

lemma issue_pinned:
  "d_pinned_id (add_issue k name line d) = d_pinned_id d"
  "duplicate_ids (add_issue k name line d) =
     duplicate_ids d + (if k = DuplicateId then 1 else 0)"
  by (simp_all add: add_issue_def duplicate_ids_def)

lemma unrelated_pinned:
  "duplicate_ids (d\<lparr>d_pinned_id := i\<rparr>) = duplicate_ids d"
  "duplicate_ids (d\<lparr>d_tags := t\<rparr>) = duplicate_ids d"
  "duplicate_ids (d\<lparr>d_owner := ow\<rparr>) = duplicate_ids d"
  "duplicate_ids (d\<lparr>d_not_null := nn\<rparr>) = duplicate_ids d"
  "duplicate_ids (d\<lparr>d_keys := ks\<rparr>) = duplicate_ids d"
  "duplicate_ids (d\<lparr>d_incremental := inc\<rparr>) = duplicate_ids d"
  "duplicate_ids (d\<lparr>d_materialization := m\<rparr>) = duplicate_ids d"
  by (simp_all add: duplicate_ids_def)

lemma set_materialization_pinned:
  "d_pinned_id (set_materialization m name line d) = d_pinned_id d"
  "duplicate_ids (set_materialization m name line d) = duplicate_ids d"
  by (simp_all add: set_materialization_def issue_pinned unrelated_pinned split: option.split)

lemma parse_incremental_pinned:
  "d_pinned_id (parse_incremental name value line d) = d_pinned_id d"
  "duplicate_ids (parse_incremental name value line d) = duplicate_ids d"
  by (simp_all add: parse_incremental_def missing_value_def Let_def issue_pinned unrelated_pinned
      set_materialization_pinned split: option.split incremental_strategy.split)

lemmas pinned_simps = issue_pinned unrelated_pinned set_materialization_pinned parse_incremental_pinned

lemma apply_other_pinned:
  assumes "name \<noteq> ''@id''"
  shows "d_pinned_id (apply_directive name value line d) = d_pinned_id d"
    "duplicate_ids (apply_directive name value line d) = duplicate_ids d"
  using assms
  by (simp_all add: apply_directive_def missing_value_def Let_def pinned_simps split: option.split)

lemma apply_id_pinned:
  "apply_directive ''@id'' value line d = parse_id ''@id'' value line d"
  by (simp add: apply_directive_def)

lemma directive_line_pinned:
  "d_pinned_id (directive_line (n, l) d) =
     (case d_pinned_id d of Some v \<Rightarrow> Some v
      | None \<Rightarrow> (case line_ids l of [] \<Rightarrow> None | v # _ \<Rightarrow> Some v)) \<and>
   duplicate_ids (directive_line (n, l) d) =
     duplicate_ids d + (if d_pinned_id d = None then 0 else length (line_ids l))"
proof (cases "parse_line l")
  case None
  then show ?thesis by (simp add: directive_line_def line_ids_def split: option.split)
next
  case (Some p)
  obtain name v where p: "p = (name, v)" by (cases p)
  show ?thesis
  proof (cases "name = ''@id''")
    case True
    with Some p show ?thesis
      by (auto simp: directive_line_def line_ids_def apply_id_pinned parse_id_def missing_value_def
          Let_def pinned_simps split: option.split)
  next
    case False
    with Some p show ?thesis
      by (simp add: directive_line_def line_ids_def apply_other_pinned split: option.split)
  qed
qed

lemma directive_lines_pinned:
  "d_pinned_id (fold directive_line (enumerate n ls) d) =
     (case d_pinned_id d of Some v \<Rightarrow> Some v
      | None \<Rightarrow> (case concat (map line_ids ls) of [] \<Rightarrow> None | v # _ \<Rightarrow> Some v)) \<and>
   duplicate_ids (fold directive_line (enumerate n ls) d) =
     duplicate_ids d + length (concat (map line_ids ls)) -
       (if d_pinned_id d = None \<and> concat (map line_ids ls) \<noteq> [] then 1 else 0)"
proof (induction ls arbitrary: n d)
  case Nil
  then show ?case by (simp split: option.split)
next
  case (Cons l ls)
  have len: "length (line_ids l) \<le> 1"
    by (simp add: line_ids_def split: option.split)
  show ?case
  proof (cases "d_pinned_id d")
    case None
    show ?thesis
    proof (cases "line_ids l")
      case Nil
      with None Cons.IH [of "Suc n" "directive_line (n, l) d"] directive_line_pinned [of n l d]
      show ?thesis by simp
    next
      case (Cons v vs)
      with len have "vs = []" by simp
      with None Cons Cons.IH [of "Suc n" "directive_line (n, l) d"] directive_line_pinned [of n l d]
      show ?thesis by simp
    qed
  next
    case (Some v)
    with Cons.IH [of "Suc n" "directive_line (n, l) d"] directive_line_pinned [of n l d]
    show ?thesis by simp
  qed
qed

lemma no_pinned: "d_pinned_id no_directives = None"
  by (simp add: no_directives_def)

lemma no_issues: "d_issues no_directives = []"
  by (simp add: no_directives_def)

section \<open>Properties\<close>

text \<open>
  Every text parses to directives in which an incremental strategy never stands beside
  another materialisation silently (the conflict is an issue), the columns of a key strategy are
  identity keys, tags, keys and not-null columns are sorted without repetition, and issues are
  reported in line order on lines of the text.
\<close>

theorem directives_sound:
  "directives_ok (length (str_lines sql)) (parse_directives sql) \<and>
   sorted (d_tags (parse_directives sql)) \<and> distinct (d_tags (parse_directives sql)) \<and>
   sorted (d_keys (parse_directives sql)) \<and> distinct (d_keys (parse_directives sql)) \<and>
   sorted (d_not_null (parse_directives sql)) \<and> distinct (d_not_null (parse_directives sql))"
  using directive_lines_ok [OF no_directives_ok, of "str_lines sql"]
  by (simp add: parse_directives_def Let_def directives_ok_def)

text \<open>
  The identity a text pins is the value of its first non-empty \<open>@id\<close> line, whatever
  the other lines hold, and each further non-empty \<open>@id\<close> line is one duplicate-id issue.
\<close>

theorem first_id_wins:
  "d_pinned_id (parse_directives sql) =
     (case concat (map line_ids (str_lines sql)) of [] \<Rightarrow> None | v # _ \<Rightarrow> Some v) \<and>
   length (filter (\<lambda>i. issue_kind i = DuplicateId) (d_issues (parse_directives sql))) =
     length (concat (map line_ids (str_lines sql))) - 1"
proof -
  have dups: "duplicate_ids (parse_directives sql) =
      duplicate_ids (fold directive_line (enumerate 0 (str_lines sql)) no_directives)"
    by (simp add: parse_directives_def Let_def unrelated_pinned)
  have "duplicate_ids no_directives = 0" by (simp add: duplicate_ids_def no_issues)
  then show ?thesis
    using directive_lines_pinned [of 0 "str_lines sql" no_directives]
    by (cases "concat (map line_ids (str_lines sql))")
      (simp_all add: dups no_pinned parse_directives_def Let_def
        del: concat_eq_Nil_conv flip: duplicate_ids_def)
qed

end
