(* ===== verification/Identity.thy ===== *)
theory Identity
  imports Ordered
begin

text \<open>
  \<^verbatim>\<open>phlo-transform-core/src/identity.rs\<close>: logical identities of models and external sources,
  and the \<open>TestId\<close> of \<^verbatim>\<open>model.rs\<close>. A namespace is the string it wraps. \<open>ModelId\<close> and
  \<open>SourceId\<close> derive \<open>Ord\<close>, so they are instances of \<open>linorder\<close> here, with the order of their
  fields in declaration order.
\<close>

section \<open>Types and errors\<close>

type_synonym namespace = string

datatype model_id = ModelId (mid_namespace: namespace) (mid_path: "string list")

datatype source_id = SourceId (sid_parts: "string list")

datatype test_id = TestId (tid_name: string)

datatype identity_error = MissingPath string | EmptyPath | InvalidSegment string

definition identity_error_text :: "identity_error \<Rightarrow> string" where
  "identity_error_text e =
     (case e of
        MissingPath v \<Rightarrow> ''model identity `'' @ v @ ''` must have at least a namespace and a name''
      | EmptyPath \<Rightarrow> ''model identity is missing a name component''
      | InvalidSegment s \<Rightarrow> ''`'' @ s @ ''` is not a valid identifier segment'')"

instantiation model_id :: linorder
begin

definition less_eq_model_id :: "model_id \<Rightarrow> model_id \<Rightarrow> bool" where
  "less_eq_model_id a b \<longleftrightarrow>
     mid_namespace a < mid_namespace b \<or>
     mid_namespace a = mid_namespace b \<and> mid_path a \<le> mid_path b"

definition less_model_id :: "model_id \<Rightarrow> model_id \<Rightarrow> bool" where
  "less_model_id a b \<longleftrightarrow>
     mid_namespace a < mid_namespace b \<or>
     mid_namespace a = mid_namespace b \<and> mid_path a < mid_path b"

instance
  by intro_classes
    (auto simp: less_eq_model_id_def less_model_id_def intro: model_id.expand)

end

instantiation source_id :: linorder
begin

definition less_eq_source_id :: "source_id \<Rightarrow> source_id \<Rightarrow> bool" where
  "less_eq_source_id a b \<longleftrightarrow> sid_parts a \<le> sid_parts b"

definition less_source_id :: "source_id \<Rightarrow> source_id \<Rightarrow> bool" where
  "less_source_id a b \<longleftrightarrow> sid_parts a < sid_parts b"

instance
  by intro_classes
    (auto simp: less_eq_source_id_def less_source_id_def intro: source_id.expand)

end

instantiation test_id :: linorder
begin

definition less_eq_test_id :: "test_id \<Rightarrow> test_id \<Rightarrow> bool" where
  "less_eq_test_id a b \<longleftrightarrow> tid_name a \<le> tid_name b"

definition less_test_id :: "test_id \<Rightarrow> test_id \<Rightarrow> bool" where
  "less_test_id a b \<longleftrightarrow> tid_name a < tid_name b"

instance
  by intro_classes
    (auto simp: less_eq_test_id_def less_test_id_def intro: test_id.expand)

end

section \<open>Operations\<close>

definition segment_char :: "char \<Rightarrow> bool" where
  "segment_char c \<longleftrightarrow> is_ascii_alphanumeric c \<or> c = CHR ''_'' \<or> c = CHR ''-''"

definition validate_segment :: "string \<Rightarrow> identity_error + unit" where
  "validate_segment segment =
     (if segment \<noteq> [] \<and> list_all segment_char segment then Inr ()
      else Inl (InvalidSegment segment))"

fun validate_segments :: "string list \<Rightarrow> identity_error + unit" where
  "validate_segments [] = Inr ()"
| "validate_segments (s # ss) =
     (case validate_segment s of Inl e \<Rightarrow> Inl e | Inr _ \<Rightarrow> validate_segments ss)"

definition model_id_new :: "namespace \<Rightarrow> string list \<Rightarrow> identity_error + model_id" where
  "model_id_new ns path =
     (case validate_segment ns of
        Inl e \<Rightarrow> Inl e
      | Inr _ \<Rightarrow>
          if path = [] then Inl EmptyPath
          else (case validate_segments path of
                  Inl e \<Rightarrow> Inl e
                | Inr _ \<Rightarrow> Inr (ModelId ns path)))"

definition model_id_parse :: "string \<Rightarrow> identity_error + model_id" where
  "model_id_parse raw =
     (let value = trim raw;
          value = (case strip_prefix ''model://'' value of
                     Some rest \<Rightarrow> replace_char CHR ''/'' ''.'' rest
                   | None \<Rightarrow> value);
          parts = split_on CHR ''.'' value
      in if length parts < 2 then Inl (MissingPath value)
         else model_id_new (parts ! 0) (drop 1 parts))"

definition local_name :: "model_id \<Rightarrow> string" where
  "local_name m = join ''.'' (mid_path m)"

definition logical_name :: "model_id \<Rightarrow> string" where
  "logical_name m = mid_namespace m @ ''.'' @ local_name m"

definition model_uri :: "model_id \<Rightarrow> string" where
  "model_uri m = ''model://'' @ mid_namespace m @ ''/'' @ join ''/'' (mid_path m)"

text \<open>\<open>last_segment\<close> panics on an empty path, which no constructed identity has.\<close>

definition last_segment :: "model_id \<Rightarrow> string option" where
  "last_segment m = (if mid_path m = [] then None else Some (last (mid_path m)))"

definition source_id_new :: "string list \<Rightarrow> identity_error + source_id" where
  "source_id_new parts = (if parts = [] then Inl EmptyPath else Inr (SourceId parts))"

definition source_name :: "source_id \<Rightarrow> string" where
  "source_name s = join ''.'' (sid_parts s)"

definition source_uri :: "source_id \<Rightarrow> string" where
  "source_uri s = ''source://'' @ join ''/'' (sid_parts s)"

definition test_uri :: "test_id \<Rightarrow> string" where
  "test_uri t = ''test://'' @ replace_char CHR ''.'' ''/'' (tid_name t)"

section \<open>Well-formed identities\<close>

definition valid_segment :: "string \<Rightarrow> bool" where
  "valid_segment s \<longleftrightarrow> s \<noteq> [] \<and> list_all segment_char s"

definition wf_model_id :: "model_id \<Rightarrow> bool" where
  "wf_model_id m \<longleftrightarrow>
     valid_segment (mid_namespace m) \<and> mid_path m \<noteq> [] \<and> list_all valid_segment (mid_path m)"

lemma validate_segment_eq:
  "validate_segment s = (if valid_segment s then Inr () else Inl (InvalidSegment s))"
  by (simp add: validate_segment_def valid_segment_def)

lemma validate_segments_eq:
  "validate_segments ss =
     (case find (\<lambda>s. \<not> valid_segment s) ss of
        None \<Rightarrow> Inr () | Some s \<Rightarrow> Inl (InvalidSegment s))"
  by (induction ss) (auto simp: validate_segment_eq)

lemma find_None_list_all: "find (\<lambda>s. \<not> P s) ss = None \<longleftrightarrow> list_all P ss"
  by (induction ss) auto

lemma model_id_new_Inr:
  "model_id_new ns p = Inr m \<longleftrightarrow> m = ModelId ns p \<and> wf_model_id m"
  by (auto simp: model_id_new_def wf_model_id_def validate_segment_eq validate_segments_eq
      simp flip: find_None_list_all split: option.splits)

lemma segment_char_plain: "segment_char c \<Longrightarrow> plain_byte c"
  by (auto simp: segment_char_def alnum_plain) (simp_all add: plain_byte_def)

lemma segment_char_sep:
  "segment_char c \<Longrightarrow> c \<noteq> CHR ''.'' \<and> c \<noteq> CHR ''/'' \<and> c \<noteq> CHR '':''"
  by (auto simp: segment_char_def is_ascii_alphanumeric_def)

lemma valid_segment_no_sep:
  "valid_segment s \<Longrightarrow> CHR ''.'' \<notin> set s \<and> CHR ''/'' \<notin> set s \<and> CHR '':'' \<notin> set s"
  using segment_char_sep by (fastforce simp: valid_segment_def list_all_iff)

lemma valid_segment_plain: "valid_segment s \<Longrightarrow> c \<in> set s \<Longrightarrow> plain_byte c"
  by (auto simp: valid_segment_def list_all_iff segment_char_plain)

lemma join_nonempty: "xs \<noteq> [] \<Longrightarrow> \<forall>x \<in> set xs. x \<noteq> [] \<Longrightarrow> join sep xs \<noteq> []"
  by (induction sep xs rule: join.induct) auto

lemma last_join:
  "xs \<noteq> [] \<Longrightarrow> \<forall>x \<in> set xs. x \<noteq> [] \<Longrightarrow> last (join sep xs) = last (last xs)"
  by (induction sep xs rule: join.induct) (auto simp: join_nonempty)

lemma logical_name_join: "mid_path m \<noteq> [] \<Longrightarrow>
    logical_name m = join ''.'' (mid_namespace m # mid_path m)"
  by (cases "mid_path m") (simp_all add: logical_name_def local_name_def)

lemma logical_name_colon: "wf_model_id m \<Longrightarrow> CHR '':'' \<notin> set (logical_name m)"
  using set_join [of "''.''" "mid_namespace m # mid_path m"]
  by (auto simp: wf_model_id_def logical_name_join list_all_iff dest!: valid_segment_no_sep)

lemma wf_segments: "wf_model_id m \<Longrightarrow> x \<in> set (mid_namespace m # mid_path m) \<Longrightarrow> valid_segment x"
  by (auto simp: wf_model_id_def list_all_iff)

lemma trim_segments:
  assumes "xs \<noteq> []" "\<forall>x \<in> set xs. valid_segment x"
  shows "trim (join [c] xs) = join [c] xs"
proof (rule trim_plain)
  have ne: "\<forall>x \<in> set xs. x \<noteq> []" using assms(2) by (auto simp: valid_segment_def)
  show "join [c] xs \<noteq> []" using assms(1) ne by (rule join_nonempty)
  have "hd (join [c] xs) = hd (hd xs)"
    using assms(1) ne by (cases "([c], xs)" rule: join.cases) auto
  then show "plain_byte (hd (join [c] xs))"
    using assms ne valid_segment_plain by (metis hd_in_set)
  have "last (join [c] xs) = last (last xs)"
    using assms(1) ne by (rule last_join)
  then show "plain_byte (last (join [c] xs))"
    using assms ne valid_segment_plain by (metis last_in_set)
qed

lemma split_segments:
  "wf_model_id m \<Longrightarrow>
     split_on CHR ''.'' (join ''.'' (mid_namespace m # mid_path m)) = mid_namespace m # mid_path m"
  using wf_segments valid_segment_no_sep by (intro split_join) auto

lemma model_id_parse_dotted:
  assumes "wf_model_id m" "strip_prefix ''model://'' (trim raw) = None"
    "trim raw = join ''.'' (mid_namespace m # mid_path m)"
  shows "model_id_parse raw = Inr m"
proof -
  have "mid_path m \<noteq> []" using assms(1) by (simp add: wf_model_id_def)
  then have "2 \<le> length (mid_namespace m # mid_path m)" by (cases "mid_path m") auto
  then show ?thesis
    using assms split_segments [OF assms(1)] \<open>mid_path m \<noteq> []\<close>
    by (simp add: model_id_parse_def Let_def model_id_new_Inr)
qed

lemma no_colon_no_uri: "CHR '':'' \<notin> set s \<Longrightarrow> strip_prefix ''model://'' s = None"
  by (cases "strip_prefix ''model://'' s") (auto simp: strip_prefix_Some)

lemma model_id_parse_logical_name: "wf_model_id m \<Longrightarrow> model_id_parse (logical_name m) = Inr m"
  using trim_segments [of "mid_namespace m # mid_path m" "CHR ''.''"] wf_segments [of m]
    logical_name_join [of m] logical_name_colon [of m] no_colon_no_uri [of "logical_name m"]
  by (intro model_id_parse_dotted) (auto simp: wf_model_id_def)

lemma model_uri_join: "mid_path m \<noteq> [] \<Longrightarrow>
    model_uri m = ''model://'' @ join ''/'' (mid_namespace m # mid_path m)"
  by (cases "mid_path m") (simp_all add: model_uri_def)

lemma model_id_parse_uri:
  assumes "wf_model_id m"
  shows "model_id_parse (model_uri m) = Inr m"
proof -
  let ?xs = "mid_namespace m # mid_path m"
  have ne: "mid_path m \<noteq> []" using assms by (simp add: wf_model_id_def)
  have seg: "\<forall>x \<in> set ?xs. valid_segment x" using wf_segments [OF assms] by blast
  have J: "join ''/'' ?xs \<noteq> []" "plain_byte (last (join ''/'' ?xs))"
  proof -
    have nes: "\<forall>x \<in> set ?xs. x \<noteq> []" using seg by (auto simp: valid_segment_def)
    show "join ''/'' ?xs \<noteq> []" using nes by (intro join_nonempty) auto
    have "last (join ''/'' ?xs) = last (last ?xs)" using nes by (intro last_join) auto
    moreover have "plain_byte (last (last ?xs))"
      using seg nes valid_segment_plain by (metis last_in_set list.distinct(1))
    ultimately show "plain_byte (last (join ''/'' ?xs))" by simp
  qed
  have trim: "trim (model_uri m) = model_uri m"
    using J by (intro trim_plain) (auto simp: model_uri_join [OF ne] plain_byte_def)
  have "CHR ''/'' \<notin> \<Union>(set ` set ?xs)"
    using seg valid_segment_no_sep by blast
  then have "replace_char CHR ''/'' ''.'' (join ''/'' ?xs) = join ''.'' ?xs"
    using join_map_sep [of "CHR ''/''" ?xs "CHR ''.''"]
    by (simp add: replace_char_single)
  moreover have "2 \<le> length ?xs" using ne by (cases "mid_path m") auto
  moreover have "strip_prefix ''model://'' (model_uri m) = Some (join ''/'' ?xs)"
    by (simp add: model_uri_join [OF ne])
  ultimately show ?thesis
    using split_segments [OF assms] assms ne
    by (simp add: model_id_parse_def Let_def trim model_id_new_Inr)
qed

lemma model_id_parse_wf: "model_id_parse s = Inr m \<Longrightarrow> wf_model_id m"
  by (auto simp: model_id_parse_def Let_def model_id_new_Inr split: if_splits)

lemma logical_name_inj: "wf_model_id a \<Longrightarrow> wf_model_id b \<Longrightarrow> logical_name a = logical_name b \<Longrightarrow> a = b"
  by (metis model_id_parse_logical_name sum.inject(2))

section \<open>Properties\<close>

text \<open>
  Both printed forms of a model identity parse back to it: for every identity the
  constructor accepts, \<open>parse(logical_name)\<close> and \<open>parse(uri)\<close> return exactly that identity.
\<close>

theorem identity_round_trip:
  assumes "model_id_new ns path = Inr m"
  shows "model_id_parse (logical_name m) = Inr m \<and> model_id_parse (model_uri m) = Inr m"
  using assms model_id_parse_logical_name model_id_parse_uri by (auto simp: model_id_new_Inr)

theorem identity_round_trip_witness:
  "model_id_parse ''model://assay/staging/raw'' = Inr (ModelId ''assay'' [''staging'', ''raw''])"
proof -
  have "model_id_new ''assay'' [''staging'', ''raw''] = Inr (ModelId ''assay'' [''staging'', ''raw''])"
    by code_simp
  from identity_round_trip [OF this] show ?thesis
    by (simp add: model_uri_def)
qed

text \<open>
  Parsing is sound and canonical: whatever \<open>parse\<close> accepts is a well-formed
  identity, so its logical name parses to the same identity; a name without a separator is
  \<open>MissingPath\<close>, and the first bad segment is the one reported.
\<close>

theorem identity_parse_sound:
  "(\<forall>m. model_id_parse s = Inr m \<longrightarrow> wf_model_id m \<and> model_id_parse (logical_name m) = Inr m) \<and>
   (CHR ''.'' \<notin> set s \<and> CHR ''/'' \<notin> set s \<longrightarrow> model_id_parse s = Inl (MissingPath (trim s))) \<and>
   (\<forall>ns path. valid_segment ns \<and> path \<noteq> [] \<longrightarrow>
      model_id_new ns path =
        (case find (\<lambda>x. \<not> valid_segment x) path of
           None \<Rightarrow> Inr (ModelId ns path) | Some x \<Rightarrow> Inl (InvalidSegment x)))"
proof (intro conjI allI impI)
  fix m assume "model_id_parse s = Inr m"
  then show "wf_model_id m" by (rule model_id_parse_wf)
  then show "model_id_parse (logical_name m) = Inr m" by (rule model_id_parse_logical_name)
next
  assume sep: "CHR ''.'' \<notin> set s \<and> CHR ''/'' \<notin> set s"
  have "strip_prefix ''model://'' (trim s) = None"
  proof (rule ccontr)
    assume "strip_prefix ''model://'' (trim s) \<noteq> None"
    then obtain r where "trim s = ''model://'' @ r" by (auto simp: strip_prefix_Some)
    then show False using sep set_trim [of s] by auto
  qed
  moreover have "split_on CHR ''.'' (trim s) = [trim s]"
    using sep set_trim [of s] by (intro split_on_whole) auto
  ultimately show "model_id_parse s = Inl (MissingPath (trim s))"
    by (simp add: model_id_parse_def)
next
  fix ns and path :: "string list" assume "valid_segment ns \<and> path \<noteq> []"
  then show "model_id_new ns path =
      (case find (\<lambda>x. \<not> valid_segment x) path of
         None \<Rightarrow> Inr (ModelId ns path) | Some x \<Rightarrow> Inl (InvalidSegment x))"
    by (simp add: model_id_new_def validate_segment_eq validate_segments_eq split: option.split)
qed

theorem identity_parse_sound_witness:
  "model_id_parse '' assay.raw '' = Inr (ModelId ''assay'' [''raw'']) \<and>
   model_id_parse ''assay'' = Inl (MissingPath ''assay'') \<and>
   model_id_new ''assay'' [''raw'', ''bad name'', ''''] = Inl (InvalidSegment ''bad name'')"
proof -
  have "model_id_parse ''assay'' = Inl (MissingPath (trim ''assay''))"
    using identity_parse_sound [of "''assay''"] by simp
  moreover have "trim ''assay'' = ''assay''" by code_simp
  moreover have "model_id_parse '' assay.raw '' = Inr (ModelId ''assay'' [''raw''])" by code_simp
  moreover have "model_id_new ''assay'' [''raw'', ''bad name'', ''''] = Inl (InvalidSegment ''bad name'')"
    by code_simp
  ultimately show ?thesis by simp
qed

end
