(* ===== verification/Relations.thy ===== *)
theory Relations
  imports Identity "HOL-Library.Option_ord"
begin

text \<open>
  Physical and written relation names: \<open>Relation\<close> of \<^verbatim>\<open>phlo-transform-core/src/model.rs\<close>,
  \<open>RelationName\<close> of \<^verbatim>\<open>phlo-transform-sql/src/relations.rs\<close>, \<open>relation_for_source\<close> of
  \<^verbatim>\<open>resolve.rs\<close> and \<open>retarget\<close> of the engine's \<^verbatim>\<open>branch_diff.rs\<close>.
\<close>

section \<open>Relation\<close>

datatype relation =
  Relation (rel_catalog: "string option") (rel_schema: string) (rel_table: string)

instantiation relation :: linorder
begin

definition less_eq_relation :: "relation \<Rightarrow> relation \<Rightarrow> bool" where
  "less_eq_relation a b \<longleftrightarrow>
     rel_catalog a < rel_catalog b \<or>
     rel_catalog a = rel_catalog b \<and>
       (rel_schema a < rel_schema b \<or>
        rel_schema a = rel_schema b \<and> rel_table a \<le> rel_table b)"

definition less_relation :: "relation \<Rightarrow> relation \<Rightarrow> bool" where
  "less_relation a b \<longleftrightarrow>
     rel_catalog a < rel_catalog b \<or>
     rel_catalog a = rel_catalog b \<and>
       (rel_schema a < rel_schema b \<or>
        rel_schema a = rel_schema b \<and> rel_table a < rel_table b)"

instance
  by intro_classes
    (auto simp: less_eq_relation_def less_relation_def intro: relation.expand)

end

definition quote_identifier :: "string \<Rightarrow> string" where
  "quote_identifier value = [CHR 34] @ replace_char (CHR 34) [CHR 34, CHR 34] value @ [CHR 34]"

definition relation_sql :: "relation \<Rightarrow> string" where
  "relation_sql r =
     (case rel_catalog r of
        Some catalog \<Rightarrow>
          quote_identifier catalog @ ''.'' @ quote_identifier (rel_schema r) @ ''.''
            @ quote_identifier (rel_table r)
      | None \<Rightarrow> quote_identifier (rel_schema r) @ ''.'' @ quote_identifier (rel_table r))"

definition relation_display :: "relation \<Rightarrow> string" where
  "relation_display r =
     (case rel_catalog r of
        Some catalog \<Rightarrow> catalog @ ''.'' @ rel_schema r @ ''.'' @ rel_table r
      | None \<Rightarrow> rel_schema r @ ''.'' @ rel_table r)"

definition invalid_relation :: "string \<Rightarrow> string" where
  "invalid_relation spec =
     ''invalid relation `'' @ spec @ ''` '' @ [CHR 0xE2, CHR 0x80, CHR 0x94]
       @ '' expected `schema.table` or `catalog.schema.table`''"

definition relation_parse :: "string \<Rightarrow> string + relation" where
  "relation_parse spec =
     (case split_on CHR ''.'' spec of
        [schema, table] \<Rightarrow> Inr (Relation None schema table)
      | [catalog, schema, table] \<Rightarrow> Inr (Relation (Some catalog) schema table)
      | _ \<Rightarrow> Inl (invalid_relation spec))"

definition retarget :: "relation \<Rightarrow> string option \<Rightarrow> relation" where
  "retarget target catalog =
     (case catalog of
        Some c \<Rightarrow> Relation (Some c) (rel_schema target) (rel_table target)
      | None \<Rightarrow> target)"

section \<open>RelationName\<close>

datatype relation_name = RelationName (rn_parts: "string list")

definition relation_name_new :: "string list \<Rightarrow> relation_name option" where
  "relation_name_new parts =
     (if parts = [] \<or> list_ex (\<lambda>p. p = []) parts then None else Some (RelationName parts))"

definition is_simple :: "relation_name \<Rightarrow> bool" where
  "is_simple n \<longleftrightarrow> length (rn_parts n) = 1"

definition as_dotted :: "relation_name \<Rightarrow> string" where
  "as_dotted n = join ''.'' (rn_parts n)"

section \<open>Sources\<close>

definition relation_for_source ::
    "source_id \<Rightarrow> string option \<Rightarrow> string option \<Rightarrow> relation" where
  "relation_for_source source default_catalog default_schema =
     (let schema = (case default_schema of Some s \<Rightarrow> s | None \<Rightarrow> ''default'')
      in case sid_parts source of
           [] \<Rightarrow> Relation default_catalog schema ''''
         | [t] \<Rightarrow> Relation default_catalog schema t
         | [s, t] \<Rightarrow> Relation default_catalog s t
         | c # s # rest \<Rightarrow> Relation (Some c) s (join ''.'' rest))"

section \<open>Facts\<close>

abbreviation (input) dotfree :: "string \<Rightarrow> bool" where
  "dotfree s \<equiv> CHR ''.'' \<notin> set s"

definition dotfree_relation :: "relation \<Rightarrow> bool" where
  "dotfree_relation r \<longleftrightarrow>
     dotfree (rel_schema r) \<and> dotfree (rel_table r) \<and>
     (case rel_catalog r of Some c \<Rightarrow> dotfree c | None \<Rightarrow> True)"

lemma relation_parse_display: "dotfree_relation r \<Longrightarrow> relation_parse (relation_display r) = Inr r"
  by (cases r)
    (auto simp: dotfree_relation_def relation_parse_def relation_display_def split_on_append
      split_on_whole split: option.splits)

lemma relation_parse_Inr:
  assumes "relation_parse spec = Inr r"
  shows "relation_display r = spec \<and> dotfree_relation r"
proof -
  have J: "join ''.'' (split_on CHR ''.'' spec) = spec" by (rule join_split)
  have D: "\<And>x. x \<in> set (split_on CHR ''.'' spec) \<Longrightarrow> dotfree x" by (rule split_on_no_sep)
  from assms consider
      s t where "split_on CHR ''.'' spec = [s, t]" "r = Relation None s t"
    | c s t where "split_on CHR ''.'' spec = [c, s, t]" "r = Relation (Some c) s t"
    by (auto simp: relation_parse_def split: list.splits)
  then show ?thesis
    using J D by cases (auto simp: relation_display_def dotfree_relation_def)
qed

text \<open>The quoted form is uniquely decodable, whatever the identifiers contain.\<close>

lemma quote_body_unique:
  assumes "replace_char (CHR 34) [CHR 34, CHR 34] a @ CHR 34 # x =
      replace_char (CHR 34) [CHR 34, CHR 34] b @ CHR 34 # y"
    and "\<And>z. x \<noteq> CHR 34 # z" "\<And>z. y \<noteq> CHR 34 # z"
  shows "a = b \<and> x = y"
  using assms
proof (induction a arbitrary: b)
  case Nil
  then show ?case
    by (cases b) (auto simp: replace_char_def split: if_splits)
next
  case (Cons c a)
  show ?case
  proof (cases b)
    case Nil
    with Cons.prems show ?thesis by (auto simp: replace_char_def split: if_splits)
  next
    case (Cons d b')
    with Cons.prems Cons.IH [of b'] show ?thesis
      by (auto simp: replace_char_def split: if_splits)
  qed
qed

lemma quote_identifier_unique:
  assumes "quote_identifier a @ x = quote_identifier b @ y"
    and "\<And>z. x \<noteq> CHR 34 # z" "\<And>z. y \<noteq> CHR 34 # z"
  shows "a = b \<and> x = y"
  using assms quote_body_unique [of a x b y] by (simp add: quote_identifier_def)

lemma quote_identifier_inj: "quote_identifier a = quote_identifier b \<Longrightarrow> a = b"
  using quote_identifier_unique [of a "[]" b "[]"] by simp

lemma relation_sql_inj: "relation_sql a = relation_sql b \<Longrightarrow> a = b"
proof -
  assume eq: "relation_sql a = relation_sql b"
  have dot: "\<And>r z. ''.'' @ r \<noteq> CHR 34 # z" by simp
  obtain ca sa ta where a: "a = Relation ca sa ta" by (cases a)
  obtain cb sb tb where b: "b = Relation cb sb tb" by (cases b)
  show ?thesis
  proof (cases ca; cases cb)
    assume "ca = None" "cb = None"
    with eq a b have "quote_identifier sa @ ''.'' @ quote_identifier ta =
        quote_identifier sb @ ''.'' @ quote_identifier tb"
      by (simp add: relation_sql_def)
    then show ?thesis
      using quote_identifier_unique [OF _ dot dot] quote_identifier_inj a b
        \<open>ca = None\<close> \<open>cb = None\<close> by (metis same_append_eq)
  next
    fix d assume "ca = None" "cb = Some d"
    with eq a b have e: "quote_identifier sa @ ''.'' @ quote_identifier ta =
        quote_identifier d @ ''.'' @ quote_identifier sb @ ''.'' @ quote_identifier tb"
      by (simp add: relation_sql_def)
    then have "quote_identifier ta @ [] = quote_identifier sb @ ''.'' @ quote_identifier tb"
      using quote_identifier_unique [OF e dot dot] by simp
    then have "[] = ''.'' @ quote_identifier tb"
      using quote_identifier_unique [OF _ _ dot] by blast
    then show ?thesis by simp
  next
    fix c assume "ca = Some c" "cb = None"
    with eq a b have e: "quote_identifier c @ ''.'' @ quote_identifier sa @ ''.'' @ quote_identifier ta =
        quote_identifier sb @ ''.'' @ quote_identifier tb"
      by (simp add: relation_sql_def)
    then have "quote_identifier sa @ ''.'' @ quote_identifier ta = quote_identifier tb @ []"
      using quote_identifier_unique [OF e dot dot] by simp
    then have "''.'' @ quote_identifier ta = []"
      using quote_identifier_unique [OF _ dot] by blast
    then show ?thesis by simp
  next
    fix c d assume s: "ca = Some c" "cb = Some d"
    with eq a b have e: "quote_identifier c @ ''.'' @ quote_identifier sa @ ''.'' @ quote_identifier ta =
        quote_identifier d @ ''.'' @ quote_identifier sb @ ''.'' @ quote_identifier tb"
      by (simp add: relation_sql_def)
    then have 1: "c = d" and e2: "quote_identifier sa @ ''.'' @ quote_identifier ta =
        quote_identifier sb @ ''.'' @ quote_identifier tb"
      using quote_identifier_unique [OF e dot dot] by simp_all
    then have "sa = sb" "quote_identifier ta = quote_identifier tb"
      using quote_identifier_unique [OF e2 dot dot] by simp_all
    then show ?thesis using 1 s a b quote_identifier_inj by simp
  qed
qed

section \<open>Properties\<close>

text \<open>
  \<open>Relation::parse\<close> inverts \<open>display\<close> on every relation whose parts hold no dot, and
  whatever \<open>parse\<close> accepts is such a relation and displays as the parsed text.
\<close>

theorem relation_round_trip:
  "(dotfree_relation r \<longrightarrow> relation_parse (relation_display r) = Inr r) \<and>
   (relation_parse spec = Inr r \<longrightarrow> relation_display r = spec \<and> dotfree_relation r)"
  using relation_parse_display relation_parse_Inr by blast

theorem relation_round_trip_witness:
  "relation_parse ''lake.assay.raw'' = Inr (Relation (Some ''lake'') ''assay'' ''raw'')"
proof -
  have "dotfree_relation (Relation (Some ''lake'') ''assay'' ''raw'')" by code_simp
  then show ?thesis
    using relation_round_trip [of "Relation (Some ''lake'') ''assay'' ''raw''" "[]"]
    by (simp add: relation_display_def)
qed

text \<open>
  The quoted SQL form of a relation determines the relation: no catalog, schema or table
  name, quotes and dots included, can make two different relations compile to the same SQL identifier.
\<close>

theorem relation_sql_injective: "relation_sql a = relation_sql b \<longleftrightarrow> a = b"
  using relation_sql_inj by auto

end
