(* ===== verification/Semantic.thy ===== *)
theory Semantic
  imports Relations
begin

text \<open>
  The typed semantic layer: \<^verbatim>\<open>phlo-transform-core/src/semantic.rs\<close> (data types, their Trino
  parser and printer, nullability, schemas, assertions, contracts) and the schema-change
  classification of \<^verbatim>\<open>schema.rs\<close>. The column lineage an output column carries is data here; the graph
  built from it is in Lineage. Diff tolerances are left out of the policy: they are floats.
\<close>

section \<open>Data types\<close>

datatype data_type =
    TBoolean | TTinyInt | TSmallInt | TInteger | TBigInt | TReal | TDouble | TDecimal
  | TVarchar | TVarbinary | TDate | TTime | TTimestamp | TTimestampTz
  | TArray data_type | TMap data_type data_type | TRow "data_type list" | TUnknown

fun is_known :: "data_type \<Rightarrow> bool" where
  "is_known TUnknown = False"
| "is_known _ = True"

definition is_numeric :: "data_type \<Rightarrow> bool" where
  "is_numeric t \<longleftrightarrow>
     t \<in> {TTinyInt, TSmallInt, TInteger, TBigInt, TReal, TDouble, TDecimal}"

fun widen_rank :: "data_type \<Rightarrow> nat" where
  "widen_rank TTinyInt = 1"
| "widen_rank TSmallInt = 2"
| "widen_rank TInteger = 3"
| "widen_rank TBigInt = 4"
| "widen_rank TReal = 5"
| "widen_rank TDouble = 6"
| "widen_rank TDecimal = 7"
| "widen_rank _ = 0"

definition widen :: "data_type \<Rightarrow> data_type \<Rightarrow> data_type" where
  "widen left right =
     (if left = TUnknown \<or> right = TUnknown then TUnknown
      else if left = right then left
      else if is_numeric left \<and> is_numeric right then
        (if widen_rank left \<ge> widen_rank right then left else right)
      else TUnknown)"

fun data_type_text :: "data_type \<Rightarrow> string" where
  "data_type_text TBoolean = ''BOOLEAN''"
| "data_type_text TTinyInt = ''TINYINT''"
| "data_type_text TSmallInt = ''SMALLINT''"
| "data_type_text TInteger = ''INTEGER''"
| "data_type_text TBigInt = ''BIGINT''"
| "data_type_text TReal = ''REAL''"
| "data_type_text TDouble = ''DOUBLE''"
| "data_type_text TDecimal = ''DECIMAL''"
| "data_type_text TVarchar = ''VARCHAR''"
| "data_type_text TVarbinary = ''VARBINARY''"
| "data_type_text TDate = ''DATE''"
| "data_type_text TTime = ''TIME''"
| "data_type_text TTimestamp = ''TIMESTAMP''"
| "data_type_text TTimestampTz = ''TIMESTAMP WITH TIME ZONE''"
| "data_type_text (TArray t) = ''ARRAY('' @ data_type_text t @ '')''"
| "data_type_text (TMap k v) = ''MAP('' @ data_type_text k @ '', '' @ data_type_text v @ '')''"
| "data_type_text (TRow fs) = ''ROW('' @ join '', '' (map data_type_text fs) @ '')''"
| "data_type_text TUnknown = ''UNKNOWN''"

text \<open>\<open>split_top_level\<close> splits at commas outside brackets; the depth is a saturating counter.\<close>

definition opens :: "char \<Rightarrow> bool" where
  "opens c \<longleftrightarrow> c \<in> {CHR ''('', CHR ''<'', CHR ''[''}"

definition closes :: "char \<Rightarrow> bool" where
  "closes c \<longleftrightarrow> c \<in> {CHR '')'', CHR ''>'', CHR '']''}"

fun split_top :: "nat \<Rightarrow> string \<Rightarrow> string \<Rightarrow> string list" where
  "split_top depth current [] = (if trim current = [] then [] else [trim current])"
| "split_top depth current (c # cs) =
     (if opens c then split_top (Suc depth) (current @ [c]) cs
      else if closes c then split_top (depth - 1) (current @ [c]) cs
      else if c = CHR '','' \<and> depth = 0 then trim current # split_top depth [] cs
      else split_top depth (current @ [c]) cs)"

definition split_top_level :: "string \<Rightarrow> string list" where
  "split_top_level value = split_top 0 [] value"

definition type_arguments :: "string \<Rightarrow> string \<Rightarrow> string list option" where
  "type_arguments value keyword =
     (case strip_prefix keyword (to_ascii_lowercase value) of
        None \<Rightarrow> None
      | Some rest \<Rightarrow>
          (case trim_start rest of
             [] \<Rightarrow> None
           | c # cs \<Rightarrow>
               if c = CHR ''('' then map_option split_top_level (strip_suffix '')'' cs)
               else if c = CHR ''<'' then map_option split_top_level (strip_suffix ''>'' cs)
               else None))"

definition base_type :: "string \<Rightarrow> data_type" where
  "base_type lower =
     (let base = trim (takeWhile (\<lambda>c. c \<noteq> CHR ''('' \<and> c \<noteq> CHR ''<'') lower)
      in if base = ''boolean'' then TBoolean
         else if base = ''tinyint'' then TTinyInt
         else if base = ''smallint'' then TSmallInt
         else if base = ''integer'' \<or> base = ''int'' then TInteger
         else if base = ''bigint'' then TBigInt
         else if base = ''real'' then TReal
         else if base = ''double'' then TDouble
         else if base = ''decimal'' \<or> base = ''numeric'' then TDecimal
         else if base = ''varchar'' \<or> base = ''char'' then TVarchar
         else if base = ''varbinary'' then TVarbinary
         else if base = ''date'' then TDate
         else if base = ''time'' then TTime
         else if base = ''timestamp'' then
           (if contains_str ''with time zone'' lower then TTimestampTz else TTimestamp)
         else TUnknown)"

definition field_type :: "string \<Rightarrow> string" where
  "field_type field = (case split_once CHR '' '' field of Some (_, t) \<Rightarrow> t | None \<Rightarrow> field)"

lemma length_split_top: "x \<in> set (split_top d cur s) \<Longrightarrow> length x \<le> length cur + length s"
proof (induction d cur s rule: split_top.induct)
  case (1 depth current)
  then show ?case using length_trim [of current] by (auto split: if_splits)
next
  case (2 depth current c cs)
  consider "opens c" | "\<not> opens c" "closes c"
    | "\<not> opens c" "\<not> closes c" "c = CHR '','' \<and> depth = 0"
    | "\<not> opens c" "\<not> closes c" "\<not> (c = CHR '','' \<and> depth = 0)" by blast
  then show ?case
  proof cases
    case 1
    with "2.IH"(1) "2.prems" show ?thesis by simp
  next
    case b: 2
    with "2.IH"(2) "2.prems" show ?thesis by simp
  next
    case 3
    with "2.IH"(3) "2.prems" length_trim [of current] show ?thesis by auto
  next
    case 4
    with "2.IH"(4) "2.prems" show ?thesis by simp
  qed
qed

lemma length_type_arguments:
  assumes "type_arguments v k = Some args" "x \<in> set args" "k \<noteq> []"
  shows "length x < length v"
proof -
  from assms obtain rest c cs inner suf where
      r: "to_ascii_lowercase v = k @ rest" and t: "trim_start rest = c # cs"
      and i: "cs = inner @ suf" and a: "args = split_top_level inner"
    by (fastforce simp: type_arguments_def strip_prefix_Some strip_suffix_Some
        split: option.splits list.splits if_splits)
  have "length x \<le> length inner"
    using length_split_top [of x 0 "[]" inner] assms(2) a by (simp add: split_top_level_def)
  also have "\<dots> < length rest"
    using length_trim_start [of rest] t i by simp
  also have "\<dots> \<le> length v"
    using arg_cong [OF r, of length] by (simp add: to_ascii_lowercase_def)
  finally show ?thesis .
qed

lemma length_field_type: "length (field_type f) \<le> length f"
  by (auto simp: field_type_def split_once_Some split: option.split)

lemma arg_shorter:
  assumes "type_arguments (trim raw) (c # k) = Some args" "x \<in> set args"
  shows "length x < length raw"
  using length_type_arguments [OF assms] length_trim [of raw] by simp

function parse_trino :: "string \<Rightarrow> data_type" where
  "parse_trino raw =
     (let value = trim raw; lower = to_ascii_lowercase value
      in if starts_with ''array'' lower then
           (case type_arguments value ''array'' of
              Some (inner # _) \<Rightarrow> TArray (parse_trino inner)
            | _ \<Rightarrow> TArray TUnknown)
         else if starts_with ''map'' lower then
           (case type_arguments value ''map'' of
              Some [k, v] \<Rightarrow> TMap (parse_trino k) (parse_trino v)
            | _ \<Rightarrow> TMap TUnknown TUnknown)
         else if starts_with ''row'' lower then
           (case type_arguments value ''row'' of
              Some fields \<Rightarrow> TRow (map (\<lambda>f. parse_trino (field_type f)) fields)
            | None \<Rightarrow> TRow [])
         else base_type lower)"
  by pat_completeness auto
termination
proof (relation "measure length", goal_cases)
  case 1
  show ?case by simp
next
  case (2 raw)
  then show ?case by (auto intro: arg_shorter)
next
  case (3 raw)
  then show ?case by (auto intro: arg_shorter)
next
  case (4 raw)
  then show ?case by (auto intro: arg_shorter)
next
  case (5 raw v lower fields f)
  then have "length f < length raw" by (auto intro: arg_shorter)
  then show ?case using length_field_type [of f] by simp
qed

declare parse_trino.simps [simp del]

section \<open>Nullability\<close>

datatype nullability = NotNull | Nullable | NullUnknown

fun nullability_merge :: "nullability \<Rightarrow> nullability \<Rightarrow> nullability" where
  "nullability_merge NotNull NotNull = NotNull"
| "nullability_merge NullUnknown _ = NullUnknown"
| "nullability_merge _ NullUnknown = NullUnknown"
| "nullability_merge _ _ = Nullable"

definition nullability_text :: "nullability \<Rightarrow> string" where
  "nullability_text n =
     (case n of NotNull \<Rightarrow> ''not null'' | Nullable \<Rightarrow> ''nullable'' | NullUnknown \<Rightarrow> ''unknown'')"

section \<open>Column lineage\<close>

datatype relation_ref = RelModel model_id | RelSource source_id

fun relation_ref_display :: "relation_ref \<Rightarrow> string" where
  "relation_ref_display (RelModel i) = logical_name i"
| "relation_ref_display (RelSource s) = source_name s"

record column_ref =
  cr_relation :: relation_ref
  cr_column :: string

definition column_ref_display :: "column_ref \<Rightarrow> string" where
  "column_ref_display c = relation_ref_display (cr_relation c) @ ''.'' @ cr_column c"

datatype directness = Direct | Indirect

datatype transformation =
    TrIdentity
  | TrTransformation
  | TrAggregation
  | TrJoin
  | TrFilter
  | TrGroupBy
  | TrSort
  | TrWindow
  | TrConditional

datatype lineage_confidence = LcExact | LcInferred | LcDeclared | LcRuntime | LcUnknown

text \<open>The derived orders follow the order of the variants.\<close>

definition directness_rank :: "directness \<Rightarrow> nat" where
  "directness_rank d = (case d of Direct \<Rightarrow> 0 | Indirect \<Rightarrow> 1)"

definition transformation_rank :: "transformation \<Rightarrow> nat" where
  "transformation_rank t =
     (case t of TrIdentity \<Rightarrow> 0 | TrTransformation \<Rightarrow> 1 | TrAggregation \<Rightarrow> 2 | TrJoin \<Rightarrow> 3 | TrFilter \<Rightarrow> 4
      | TrGroupBy \<Rightarrow> 5 | TrSort \<Rightarrow> 6 | TrWindow \<Rightarrow> 7 | TrConditional \<Rightarrow> 8)"

definition confidence_rank :: "lineage_confidence \<Rightarrow> nat" where
  "confidence_rank c =
     (case c of LcExact \<Rightarrow> 0 | LcInferred \<Rightarrow> 1 | LcDeclared \<Rightarrow> 2 | LcRuntime \<Rightarrow> 3 | LcUnknown \<Rightarrow> 4)"

lemma lineage_rank_inj:
  "directness_rank a = directness_rank b \<Longrightarrow> a = b"
  "transformation_rank t = transformation_rank u \<Longrightarrow> t = u"
  "confidence_rank c = confidence_rank d \<Longrightarrow> c = d"
  by (simp_all add: directness_rank_def transformation_rank_def confidence_rank_def
      split: directness.splits transformation.splits lineage_confidence.splits)

instantiation directness :: linorder
begin

definition less_eq_directness :: "directness \<Rightarrow> directness \<Rightarrow> bool" where
  "less_eq_directness a b \<longleftrightarrow> directness_rank a \<le> directness_rank b"

definition less_directness :: "directness \<Rightarrow> directness \<Rightarrow> bool" where
  "less_directness a b \<longleftrightarrow> directness_rank a < directness_rank b"

instance
  by intro_classes
    (auto simp: less_eq_directness_def less_directness_def intro: lineage_rank_inj)

end

instantiation transformation :: linorder
begin

definition less_eq_transformation :: "transformation \<Rightarrow> transformation \<Rightarrow> bool" where
  "less_eq_transformation a b \<longleftrightarrow> transformation_rank a \<le> transformation_rank b"

definition less_transformation :: "transformation \<Rightarrow> transformation \<Rightarrow> bool" where
  "less_transformation a b \<longleftrightarrow> transformation_rank a < transformation_rank b"

instance
  by intro_classes
    (auto simp: less_eq_transformation_def less_transformation_def intro: lineage_rank_inj)

end

instantiation lineage_confidence :: linorder
begin

definition less_eq_lineage_confidence :: "lineage_confidence \<Rightarrow> lineage_confidence \<Rightarrow> bool" where
  "less_eq_lineage_confidence a b \<longleftrightarrow> confidence_rank a \<le> confidence_rank b"

definition less_lineage_confidence :: "lineage_confidence \<Rightarrow> lineage_confidence \<Rightarrow> bool" where
  "less_lineage_confidence a b \<longleftrightarrow> confidence_rank a < confidence_rank b"

instance
  by intro_classes
    (auto simp: less_eq_lineage_confidence_def less_lineage_confidence_def intro: lineage_rank_inj)

end

record column_input =
  in_column :: column_ref
  in_directness :: directness
  in_transformation :: transformation
  in_confidence :: lineage_confidence
  in_expression :: "string option"

definition column_input_identity :: "column_ref \<Rightarrow> column_input" where
  "column_input_identity c =
     \<lparr>in_column = c, in_directness = Direct, in_transformation = TrIdentity, in_confidence = LcExact,
      in_expression = None\<rparr>"

section \<open>Schemas, assertions, contracts\<close>

record output_column =
  oc_name :: string
  oc_type :: data_type
  oc_nullability :: nullability
  oc_inputs :: "column_input list"
  oc_confidence :: lineage_confidence

record model_schema =
  ms_columns :: "output_column list"
  ms_known :: bool

definition empty_schema :: model_schema where
  "empty_schema = \<lparr>ms_columns = [], ms_known = False\<rparr>"

definition schema_column :: "model_schema \<Rightarrow> string \<Rightarrow> output_column option" where
  "schema_column s name = find (\<lambda>c. oc_name c = name) (ms_columns s)"

datatype assertion = ANotNull string | AUnique "string list"

definition assertion_describe :: "assertion \<Rightarrow> string" where
  "assertion_describe a =
     (case a of
        ANotNull column \<Rightarrow> ''not_null '' @ column
      | AUnique columns \<Rightarrow> ''unique '' @ join '', '' columns)"

record column_contract =
  cc_name :: string
  cc_type :: "data_type option"
  cc_nullable :: "bool option"

record model_contract =
  mc_enforced :: bool
  mc_columns :: "column_contract list"
  mc_renames :: "(string \<times> string) list"

section \<open>Schema changes\<close>

record schema_col =
  sc_name :: string
  sc_type :: data_type
  sc_nullability :: nullability

datatype schema_safety = SSafe | SReview | SFullRebuild | SError

fun safety_rank :: "schema_safety \<Rightarrow> nat" where
  "safety_rank SSafe = 0"
| "safety_rank SReview = 1"
| "safety_rank SFullRebuild = 2"
| "safety_rank SError = 3"

lemma safety_rank_inj: "safety_rank a = safety_rank b \<Longrightarrow> a = b"
  by (cases a; cases b) simp_all

instantiation schema_safety :: linorder
begin

definition less_eq_schema_safety :: "schema_safety \<Rightarrow> schema_safety \<Rightarrow> bool" where
  "less_eq_schema_safety a b \<longleftrightarrow> safety_rank a \<le> safety_rank b"

definition less_schema_safety :: "schema_safety \<Rightarrow> schema_safety \<Rightarrow> bool" where
  "less_schema_safety a b \<longleftrightarrow> safety_rank a < safety_rank b"

instance
  by intro_classes
    (auto simp: less_eq_schema_safety_def less_schema_safety_def intro: safety_rank_inj)

end

definition raise :: "schema_safety \<Rightarrow> schema_safety \<Rightarrow> schema_safety" where
  "raise candidate safety = (if candidate > safety then candidate else safety)"

definition current_column_safety :: "schema_col list \<Rightarrow> schema_col \<Rightarrow> schema_safety" where
  "current_column_safety desired column =
     (case find (\<lambda>d. sc_name d = sc_name column) desired of
        None \<Rightarrow> SFullRebuild
      | Some d \<Rightarrow>
          if sc_type d \<noteq> sc_type column then
            (if is_known (sc_type d) \<and> is_known (sc_type column)
                \<and> is_numeric (sc_type d) \<and> is_numeric (sc_type column)
                \<and> widen (sc_type d) (sc_type column) = sc_type d
             then SReview else SError)
          else SSafe)"

definition desired_column_safety :: "schema_col list \<Rightarrow> schema_col \<Rightarrow> schema_safety" where
  "desired_column_safety current column =
     (if list_ex (\<lambda>e. sc_name e = sc_name column) current then SSafe
      else if sc_nullability column = NotNull then SReview
      else SSafe)"

definition classify_schema_change :: "schema_col list \<Rightarrow> schema_col list \<Rightarrow> schema_safety" where
  "classify_schema_change desired current =
     fold (\<lambda>c s. raise (desired_column_safety current c) s) desired
       (fold (\<lambda>c s. raise (current_column_safety desired c) s) current SSafe)"

lemma safe_least [simp]: "SSafe \<le> s"
  by (simp add: less_eq_schema_safety_def)

lemma raise_max: "raise c s = max s c"
  by (auto simp: raise_def max_def)

lemma fold_raise_le:
  "fold (\<lambda>c s. raise (f c) s) cs s0 \<le> b \<longleftrightarrow> s0 \<le> b \<and> (\<forall>c \<in> set cs. f c \<le> b)"
  by (induction cs arbitrary: s0) (auto simp: raise_max)

lemma classify_le:
  "classify_schema_change desired current \<le> b \<longleftrightarrow>
     (\<forall>c \<in> set current. current_column_safety desired c \<le> b) \<and>
     (\<forall>c \<in> set desired. desired_column_safety current c \<le> b)"
  by (auto simp: classify_schema_change_def fold_raise_le)

lemma le_safe_iff: "s \<le> SSafe \<longleftrightarrow> s = SSafe"
  by (cases s) (simp_all add: less_eq_schema_safety_def)

lemma current_column_safe:
  "current_column_safety desired c = SSafe \<longleftrightarrow>
     (\<exists>d. find (\<lambda>d. sc_name d = sc_name c) desired = Some d \<and> sc_type d = sc_type c)"
  by (cases "find (\<lambda>d. sc_name d = sc_name c) desired") (simp_all add: current_column_safety_def)

lemma desired_column_safe:
  "desired_column_safety current d = SSafe \<longleftrightarrow>
     (sc_nullability d = NotNull \<longrightarrow> (\<exists>c \<in> set current. sc_name c = sc_name d))"
  by (auto simp: desired_column_safety_def list_ex_iff)

lemma classify_safe_iff:
  "classify_schema_change desired current = SSafe \<longleftrightarrow>
     (\<forall>c \<in> set current. \<exists>d. find (\<lambda>d. sc_name d = sc_name c) desired = Some d \<and> sc_type d = sc_type c) \<and>
     (\<forall>d \<in> set desired. sc_nullability d = NotNull \<longrightarrow>
        (\<exists>c \<in> set current. sc_name c = sc_name d))"
  using classify_le [of desired current SSafe]
  by (simp add: le_safe_iff current_column_safe desired_column_safe)

lemma not_error_iff: "s \<noteq> SError \<longleftrightarrow> s \<le> SFullRebuild"
  by (cases s) (simp_all add: less_eq_schema_safety_def)

lemma classify_error_iff:
  "classify_schema_change desired current = SError \<longleftrightarrow>
     (\<exists>c \<in> set current. \<exists>d. find (\<lambda>d. sc_name d = sc_name c) desired = Some d \<and>
        sc_type d \<noteq> sc_type c \<and>
        \<not> (is_numeric (sc_type d) \<and> is_numeric (sc_type c) \<and>
           widen (sc_type d) (sc_type c) = sc_type d))"
proof -
  have num: "\<And>t. is_numeric t \<Longrightarrow> is_known t" by (auto simp: is_numeric_def)
  have des: "\<And>c. desired_column_safety current c \<le> SFullRebuild"
    by (simp add: desired_column_safety_def less_eq_schema_safety_def)
  have "classify_schema_change desired current = SError \<longleftrightarrow>
      (\<exists>c \<in> set current. current_column_safety desired c = SError)"
    using classify_le [of desired current SFullRebuild] des not_error_iff by metis
  also have "\<dots> \<longleftrightarrow>
     (\<exists>c \<in> set current. \<exists>d. find (\<lambda>d. sc_name d = sc_name c) desired = Some d \<and>
        sc_type d \<noteq> sc_type c \<and>
        \<not> (is_numeric (sc_type d) \<and> is_numeric (sc_type c) \<and>
           widen (sc_type d) (sc_type c) = sc_type d))"
    by (intro bex_cong refl)
      (auto simp: current_column_safety_def num split: option.splits if_splits)
  finally show ?thesis .
qed

text \<open>Widening picks the wider numeric type, whatever the order.\<close>

lemma widen_comm: "widen a b = widen b a"
proof -
  have "is_numeric a \<Longrightarrow> is_numeric b \<Longrightarrow> widen_rank a = widen_rank b \<Longrightarrow> a = b"
    by (auto simp: is_numeric_def)
  then show ?thesis by (fastforce simp: widen_def)
qed

lemma widen_idem: "widen a a = a"
  by (simp add: widen_def)

lemma numeric_not_unknown: "is_numeric a \<Longrightarrow> a \<noteq> TUnknown"
  by (auto simp: is_numeric_def)

lemma widen_numeric:
  "is_numeric a \<Longrightarrow> is_numeric b \<Longrightarrow>
     widen a b = (if widen_rank b \<le> widen_rank a then a else b)"
  by (auto simp: widen_def numeric_not_unknown)

section \<open>Printing and parsing types\<close>

text \<open>
  \<open>ROW\<close> prints its fields without names, and the parser takes the text after the first space of a
  field as its type: a printed row reads back only when no field's own text holds a space. The
  text of \<open>TimestampTz\<close> never reads back, see \<open>timestamp_tz_unread\<close>.
\<close>

fun reads_back :: "data_type \<Rightarrow> bool" where
  "reads_back (TArray t) = reads_back t"
| "reads_back (TMap k v) = (reads_back k \<and> reads_back v)"
| "reads_back (TRow fs) =
     (list_all reads_back fs \<and> list_all (\<lambda>t. CHR '' '' \<notin> set (data_type_text t)) fs)"
| "reads_back TTimestampTz = False"
| "reads_back _ = True"

abbreviation lower_text :: "data_type \<Rightarrow> string" where
  "lower_text t \<equiv> to_ascii_lowercase (data_type_text t)"

definition lower_char :: "char \<Rightarrow> char" where
  "lower_char c = (let n = of_char c :: nat in if 65 \<le> n \<and> n \<le> 90 then char_of (n + 32) else c)"

lemma lower_eq_map: "to_ascii_lowercase s = map lower_char s"
  by (simp add: to_ascii_lowercase_def lower_char_def [abs_def])

lemma lower_append: "to_ascii_lowercase (a @ b) = to_ascii_lowercase a @ to_ascii_lowercase b"
  by (simp add: lower_eq_map)

lemma lower_Nil: "to_ascii_lowercase [] = []"
  by (simp add: lower_eq_map)

lemma lower_char_idem: "lower_char (lower_char c) = lower_char c"
  by (auto simp: lower_char_def Let_def of_char_of)

lemma lower_idem: "to_ascii_lowercase (to_ascii_lowercase s) = to_ascii_lowercase s"
  by (simp add: lower_eq_map lower_char_idem)

lemma lower_join: "to_ascii_lowercase (join sep xs) = join (to_ascii_lowercase sep) (map to_ascii_lowercase xs)"
  by (induction sep xs rule: join.induct) (auto simp: lower_append lower_Nil)

lemma lower_literals:
  "to_ascii_lowercase ''ARRAY('' = ''array(''"
  "to_ascii_lowercase ''MAP('' = ''map(''"
  "to_ascii_lowercase ''ROW('' = ''row(''"
  "to_ascii_lowercase '')'' = '')''"
  "to_ascii_lowercase '', '' = '', ''"
  "to_ascii_lowercase ''BOOLEAN'' = ''boolean''"
  "to_ascii_lowercase ''TINYINT'' = ''tinyint''"
  "to_ascii_lowercase ''SMALLINT'' = ''smallint''"
  "to_ascii_lowercase ''INTEGER'' = ''integer''"
  "to_ascii_lowercase ''BIGINT'' = ''bigint''"
  "to_ascii_lowercase ''REAL'' = ''real''"
  "to_ascii_lowercase ''DOUBLE'' = ''double''"
  "to_ascii_lowercase ''DECIMAL'' = ''decimal''"
  "to_ascii_lowercase ''VARCHAR'' = ''varchar''"
  "to_ascii_lowercase ''VARBINARY'' = ''varbinary''"
  "to_ascii_lowercase ''DATE'' = ''date''"
  "to_ascii_lowercase ''TIME'' = ''time''"
  "to_ascii_lowercase ''TIMESTAMP'' = ''timestamp''"
  "to_ascii_lowercase ''TIMESTAMP WITH TIME ZONE'' = ''timestamp with time zone''"
  "to_ascii_lowercase ''UNKNOWN'' = ''unknown''"
  by code_simp+

lemma lower_text_simps:
  "lower_text TBoolean = ''boolean''"
  "lower_text TTinyInt = ''tinyint''"
  "lower_text TSmallInt = ''smallint''"
  "lower_text TInteger = ''integer''"
  "lower_text TBigInt = ''bigint''"
  "lower_text TReal = ''real''"
  "lower_text TDouble = ''double''"
  "lower_text TDecimal = ''decimal''"
  "lower_text TVarchar = ''varchar''"
  "lower_text TVarbinary = ''varbinary''"
  "lower_text TDate = ''date''"
  "lower_text TTime = ''time''"
  "lower_text TTimestamp = ''timestamp''"
  "lower_text TTimestampTz = ''timestamp with time zone''"
  "lower_text TUnknown = ''unknown''"
  "lower_text (TArray t) = ''array('' @ lower_text t @ '')''"
  "lower_text (TMap k v) = ''map('' @ lower_text k @ '', '' @ lower_text v @ '')''"
  "lower_text (TRow fs) = ''row('' @ join '', '' (map lower_text fs) @ '')''"
  by (simp_all add: lower_literals lower_join lower_append comp_def del: append_Cons)

lemma split_top_plain:
  "list_all (\<lambda>c. \<not> opens c \<and> \<not> closes c \<and> c \<noteq> CHR '','') w \<Longrightarrow>
     split_top d cur (w @ s) = split_top d (cur @ w) s"
  by (induction w arbitrary: cur) auto

lemma split_top_open: "opens c \<Longrightarrow> split_top d cur (c # s) = split_top (Suc d) (cur @ [c]) s"
  by simp

lemma split_top_close:
  "closes c \<Longrightarrow> split_top (Suc d) cur (c # s) = split_top d (cur @ [c]) s"
  by (auto simp: opens_def closes_def)

lemma split_top_comma: "split_top (Suc d) cur (CHR '','' # s) = split_top (Suc d) (cur @ '','') s"
  by (simp add: opens_def closes_def)

lemmas split_top_steps = opens_def closes_def split_top_open split_top_close split_top_comma

text \<open>The text of a type is balanced: the splitter walks over it and comes back to its depth.\<close>

lemma split_top_join:
  assumes "\<And>x d cur s. x \<in> set xs \<Longrightarrow> split_top d cur (x @ s) = split_top d (cur @ x) s"
  shows "split_top (Suc d) cur (join '', '' xs @ s) = split_top (Suc d) (cur @ join '', '' xs) s"
  using assms
proof (induction "'', ''" xs arbitrary: cur rule: join.induct)
  case 1
  show ?case by simp
next
  case (2 x)
  then show ?case by simp
next
  case (3 x y ys)
  have "split_top (Suc d) cur ((x @ '', '' @ join '', '' (y # ys)) @ s) =
      split_top (Suc d) (cur @ x) ('', '' @ join '', '' (y # ys) @ s)"
    using 3(2) [of x "Suc d" cur] by simp
  also have "\<dots> = split_top (Suc d) (cur @ x @ '', '') (join '', '' (y # ys) @ s)"
    by (simp add: opens_def closes_def)
  also have "\<dots> = split_top (Suc d) ((cur @ x @ '', '') @ join '', '' (y # ys)) s"
    using 3(1) 3(2) by simp
  finally show ?case by simp
qed

lemma split_top_literals:
  "split_top d cur (''array('' @ s) = split_top (Suc d) (cur @ ''array('') s"
  "split_top d cur (''map('' @ s) = split_top (Suc d) (cur @ ''map('') s"
  "split_top d cur (''row('' @ s) = split_top (Suc d) (cur @ ''row('') s"
  "split_top (Suc d) cur ('')'' @ s) = split_top d (cur @ '')'') s"
  "split_top (Suc d) cur ('', '' @ s) = split_top (Suc d) (cur @ '', '') s"
  by (simp_all add: opens_def closes_def)

lemma split_top_text: "split_top d cur (lower_text t @ s) = split_top d (cur @ lower_text t) s"
proof (induction t arbitrary: d cur s)
  case (TArray t)
  show ?case
    by (simp only: lower_text_simps append_assoc TArray split_top_literals)
next
  case (TMap k v)
  show ?case
    by (simp only: lower_text_simps append_assoc TMap split_top_literals)
next
  case (TRow fs)
  have "split_top (Suc d) (cur @ ''row('') (join '', '' (map lower_text fs) @ '')'' @ s) =
      split_top (Suc d) ((cur @ ''row('') @ join '', '' (map lower_text fs)) ('')'' @ s)"
    by (rule split_top_join) (auto simp: TRow)
  then show ?case
    by (simp only: lower_text_simps append_assoc split_top_literals)
qed (simp_all only: lower_text_simps, (rule split_top_plain, simp add: opens_def closes_def)+)

lemma lower_text_ends:
  "lower_text t \<noteq> [] \<and> plain_byte (hd (lower_text t)) \<and> plain_byte (last (lower_text t))"
  by (cases t) (simp_all only: lower_text_simps, simp_all add: plain_byte_def)

lemma trim_lower_text: "trim (lower_text t) = lower_text t"
  using lower_text_ends [of t] by (simp add: trim_plain)

lemma trim_space: "trim (CHR '' '' # s) = trim s"
  by (simp add: trim_def trim_start.simps [of "CHR '' '' # s"] ascii_ws_def)

text \<open>Splitting the printed arguments at the top level gives the arguments back.\<close>

lemma split_top_args:
  "split_top 0 [] (join '', '' (map lower_text ts)) = map lower_text ts \<and>
   split_top 0 '' '' (join '', '' (map lower_text ts)) = map lower_text ts"
proof (induction ts)
  case Nil
  have "trim [] = []" "trim '' '' = []" by code_simp+
  then show ?case by simp
next
  case (Cons t ts)
  have one: "split_top 0 cur (lower_text t) = split_top 0 (cur @ lower_text t) []" for cur
    using split_top_text [of 0 cur t "[]"] by simp
  show ?case
  proof (cases ts)
    case Nil
    then show ?thesis
      using lower_text_ends [of t] by (simp add: one trim_lower_text trim_space)
  next
    case (Cons u us)
    have sep: "split_top 0 cur ('', '' @ s) = trim cur # split_top 0 '' '' s" for cur s
      by (simp add: opens_def closes_def)
    have j: "join '', '' (map lower_text (t # ts)) =
        lower_text t @ '', '' @ join '', '' (map lower_text ts)"
      by (simp add: Cons)
    show ?thesis
      unfolding j split_top_text sep using Cons.IH by (simp add: trim_lower_text trim_space)
  qed
qed

lemma type_arguments_text:
  assumes "to_ascii_lowercase v = k @ ''('' @ join '', '' (map lower_text ts) @ '')''"
  shows "type_arguments v k = Some (map lower_text ts)"
proof -
  have "skip_ws (CHR ''('' # s) = None" for s
    by (rule skip_ws_plain) (simp_all add: plain_byte_def)
  then have "trim_start (CHR ''('' # s) = CHR ''('' # s" for s
    by (simp add: trim_start.simps [of "CHR ''('' # s"])
  moreover have "strip_suffix '')'' (s @ '')'') = Some s" for s :: string
    by (simp add: strip_suffix_Some)
  ultimately show ?thesis
    by (simp add: type_arguments_def assms split_top_level_def split_top_args)
qed

lemma field_type_text: "CHR '' '' \<notin> set (lower_text t) \<Longrightarrow> field_type (lower_text t) = lower_text t"
  by (auto simp: field_type_def split: option.split simp flip: split_once_None)

lemma lower_char_space: "lower_char c = CHR '' '' \<longleftrightarrow> c = CHR '' ''"
proof
  assume "lower_char c = CHR '' ''"
  then have "(of_char (lower_char c) :: nat) = 32" by simp
  then have "\<not> (65 \<le> (of_char c :: nat) \<and> (of_char c :: nat) \<le> 90)"
    by (auto simp: lower_char_def Let_def of_char_of)
  with \<open>lower_char c = CHR '' ''\<close> show "c = CHR '' ''"
    by (simp only: lower_char_def Let_def if_False)
qed (simp add: lower_char_def)

lemma lower_text_space: "CHR '' '' \<in> set (lower_text t) \<longleftrightarrow> CHR '' '' \<in> set (data_type_text t)"
  by (simp add: lower_eq_map image_iff lower_char_space) (metis lower_char_space)


lemma base_type_text:
  "base_type ''boolean'' = TBoolean" "base_type ''tinyint'' = TTinyInt"
  "base_type ''smallint'' = TSmallInt" "base_type ''integer'' = TInteger"
  "base_type ''bigint'' = TBigInt" "base_type ''real'' = TReal" "base_type ''double'' = TDouble"
  "base_type ''decimal'' = TDecimal" "base_type ''varchar'' = TVarchar"
  "base_type ''varbinary'' = TVarbinary" "base_type ''date'' = TDate" "base_type ''time'' = TTime"
  "base_type ''timestamp'' = TTimestamp"
  "base_type ''unknown'' = TUnknown"
  by code_simp+

lemma parse_trino_leaf:
  assumes "trim s = s" "to_ascii_lowercase s = l"
    and "\<not> starts_with ''array'' l" "\<not> starts_with ''map'' l" "\<not> starts_with ''row'' l"
  shows "parse_trino s = base_type l"
  using assms by (simp add: parse_trino.simps [of s] Let_def)

lemma parse_trino_text: "reads_back t \<Longrightarrow> trim s = s \<Longrightarrow> to_ascii_lowercase s = lower_text t \<Longrightarrow> parse_trino s = t"
proof (induction t arbitrary: s)
  case (TArray t)
  have "to_ascii_lowercase s = ''array'' @ ''('' @ join '', '' (map lower_text [t]) @ '')''"
    using TArray.prems(3) by (simp only: lower_text_simps) simp
  then have "type_arguments s ''array'' = Some (map lower_text [t])"
    by (rule type_arguments_text)
  moreover have "starts_with ''array'' (to_ascii_lowercase s)"
    using TArray.prems(3) by (simp only: lower_text_simps) (simp add: starts_with_iff)
  moreover have "parse_trino (lower_text t) = t"
    using TArray.IH TArray.prems(1) by (simp add: trim_lower_text lower_idem)
  ultimately show ?case
    by (simp add: parse_trino.simps [of s] TArray.prems(2) Let_def)
next
  case (TMap k v)
  have "to_ascii_lowercase s = ''map'' @ ''('' @ join '', '' (map lower_text [k, v]) @ '')''"
    using TMap.prems(3) by (simp only: lower_text_simps) simp
  then have "type_arguments s ''map'' = Some (map lower_text [k, v])"
    by (rule type_arguments_text)
  moreover have "starts_with ''map'' (to_ascii_lowercase s)" "\<not> starts_with ''array'' (to_ascii_lowercase s)"
    using TMap.prems(3) by (simp_all only: lower_text_simps) (simp_all add: starts_with_iff)
  moreover have "parse_trino (lower_text k) = k" "parse_trino (lower_text v) = v"
    using TMap.IH TMap.prems(1) by (simp_all add: trim_lower_text lower_idem)
  ultimately show ?case
    by (simp add: parse_trino.simps [of s] TMap.prems(2) Let_def)
next
  case (TRow fs)
  have "to_ascii_lowercase s = ''row'' @ ''('' @ join '', '' (map lower_text fs) @ '')''"
    using TRow.prems(3) by (simp only: lower_text_simps) simp
  then have "type_arguments s ''row'' = Some (map lower_text fs)"
    by (rule type_arguments_text)
  moreover have "starts_with ''row'' (to_ascii_lowercase s)" "\<not> starts_with ''array'' (to_ascii_lowercase s)"
    "\<not> starts_with ''map'' (to_ascii_lowercase s)"
    using TRow.prems(3) by (simp_all only: lower_text_simps) (simp_all add: starts_with_iff)
  moreover have "map (\<lambda>f. parse_trino (field_type f)) (map lower_text fs) = fs"
    using TRow.IH TRow.prems(1)
    by (auto intro!: map_idI simp: list_all_iff field_type_text lower_text_space trim_lower_text lower_idem)
  ultimately show ?case
    by (simp add: parse_trino.simps [of s] TRow.prems(2) Let_def)
qed (simp_all only: lower_text_simps, simp_all add: parse_trino_leaf starts_with_def base_type_text)

section \<open>Properties\<close>

text \<open>
  \<open>DataType::parse_trino\<close> reads back what \<open>Display\<close> prints, at any nesting of arrays,
  maps and rows, for every type without a zoned timestamp whose row fields print without a space.
\<close>

theorem data_type_round_trip: "reads_back t \<Longrightarrow> parse_trino (data_type_text t) = t"
proof (rule parse_trino_text)
  show "trim (data_type_text t) = data_type_text t"
  proof (rule trim_plain)
    show "data_type_text t \<noteq> []" "plain_byte (hd (data_type_text t))"
      "plain_byte (last (data_type_text t))"
      by (cases t; simp add: plain_byte_def)+
  qed
qed simp_all

theorem data_type_round_trip_witness:
  "parse_trino (data_type_text (TArray (TRow [TBigInt, TArray TVarchar]))) =
     TArray (TRow [TBigInt, TArray TVarchar])"
proof -
  have "reads_back (TArray (TRow [TBigInt, TArray TVarchar]))" by code_simp
  then show ?thesis by (rule data_type_round_trip)
qed

text \<open>
  The text \<open>TIMESTAMP WITH TIME ZONE\<close>, the form in which the type itself prints and in
  which a cast without a precision is written, parses as an unknown type: the keyword is compared
  with everything before the first bracket. With a precision the zone is recognised.
\<close>

theorem timestamp_tz_unread:
  "parse_trino (data_type_text TTimestampTz) = TUnknown \<and>
   parse_trino ''timestamp(6) with time zone'' = TTimestampTz"
proof -
  have "base_type ''timestamp with time zone'' = TUnknown"
    "base_type ''timestamp(6) with time zone'' = TTimestampTz"
    "to_ascii_lowercase ''timestamp(6) with time zone'' = ''timestamp(6) with time zone''"
    by code_simp+
  moreover have "trim (data_type_text TTimestampTz) = data_type_text TTimestampTz"
    "trim ''timestamp(6) with time zone'' = ''timestamp(6) with time zone''"
    by (simp_all add: trim_plain plain_byte_def)
  ultimately show ?thesis
    by (simp add: parse_trino.simps Let_def lower_literals starts_with_def)
qed

text \<open>
  A schema change is classified safe exactly when every deployed column is still there
  with its type and every added column admits nulls, and an error exactly when some column's type
  changes other than by numeric widening: dropping columns alone never is an error.
\<close>

theorem schema_change_verdict:
  "(classify_schema_change desired current = SSafe \<longleftrightarrow>
     (\<forall>c \<in> set current. \<exists>d. find (\<lambda>d. sc_name d = sc_name c) desired = Some d \<and> sc_type d = sc_type c) \<and>
     (\<forall>d \<in> set desired. sc_nullability d = NotNull \<longrightarrow>
        (\<exists>c \<in> set current. sc_name c = sc_name d))) \<and>
   (classify_schema_change desired current = SError \<longleftrightarrow>
     (\<exists>c \<in> set current. \<exists>d. find (\<lambda>d. sc_name d = sc_name c) desired = Some d \<and>
        sc_type d \<noteq> sc_type c \<and>
        \<not> (is_numeric (sc_type d) \<and> is_numeric (sc_type c) \<and>
           widen (sc_type d) (sc_type c) = sc_type d)))"
  using classify_safe_iff classify_error_iff by simp

theorem schema_change_verdict_witness:
  "classify_schema_change [\<lparr>sc_name = ''id'', sc_type = TInteger, sc_nullability = NotNull\<rparr>]
     [\<lparr>sc_name = ''id'', sc_type = TBigInt, sc_nullability = NotNull\<rparr>] = SError"
  using schema_change_verdict
    [of "[\<lparr>sc_name = ''id'', sc_type = TInteger, sc_nullability = NotNull\<rparr>]"
        "[\<lparr>sc_name = ''id'', sc_type = TBigInt, sc_nullability = NotNull\<rparr>]"]
  by (simp add: widen_def is_numeric_def)

end
