(* ===== verification/Version.thy ===== *)
theory Version
  imports Relations
begin

text \<open>
  Content-addressed model versions, \<^verbatim>\<open>phlo-transform-core/src/version.rs\<close>. SHA-256 is not part of
  the sources: it is the parameter \<open>sha\<close>, the lower-case hex digest of a byte string. Feeding the
  hasher piece by piece digests the concatenation. \<open>source_state\<close> stands for an implementation of
  the provider trait.
\<close>

section \<open>Inputs and versions\<close>

record model_version =
  mv_hash :: string
  mv_sql_hash :: string
  mv_config_hash :: string
  mv_contract_hash :: string
  mv_dependency_hash :: string
  mv_source_state_hash :: string
  mv_compiler_version :: string
  mv_target_hash :: string

definition no_version :: model_version where
  "no_version =
     \<lparr>mv_hash = [], mv_sql_hash = [], mv_config_hash = [], mv_contract_hash = [],
      mv_dependency_hash = [], mv_source_state_hash = [], mv_compiler_version = [],
      mv_target_hash = []\<rparr>"

text \<open>A slice \<open>get(..n)\<close> of a string is absent when \<open>n\<close> is past its end or inside a character.\<close>

definition char_boundary :: "nat \<Rightarrow> string \<Rightarrow> bool" where
  "char_boundary n s \<longleftrightarrow>
     n = length s \<or>
     n < length s \<and> (let b = of_char (s ! n) :: nat in \<not> (128 \<le> b \<and> b < 192))"

definition version_short :: "model_version \<Rightarrow> string" where
  "version_short v = (if char_boundary 7 (mv_hash v) then take 7 (mv_hash v) else mv_hash v)"

record version_inputs =
  vi_canonical_sql :: string
  vi_config :: string
  vi_contract :: string
  vi_dependencies :: "(string \<times> string) list"
  vi_sources :: "(string \<times> string) list"
  vi_target :: string

definition no_inputs :: version_inputs where
  "no_inputs =
     \<lparr>vi_canonical_sql = [], vi_config = [], vi_contract = [], vi_dependencies = [],
      vi_sources = [], vi_target = []\<rparr>"

record version_detail =
  vd_dependencies :: "(string \<times> string) list"
  vd_sources :: "(string \<times> string) list"

definition COMPILER_SEMANTICS_VERSION :: nat where
  "COMPILER_SEMANTICS_VERSION = 3"

definition unlines :: "string list \<Rightarrow> string" where
  "unlines ls = concat (map (\<lambda>l. l @ [CHR 10]) ls)"

definition hash_lines :: "(string \<Rightarrow> string) \<Rightarrow> string list \<Rightarrow> string" where
  "hash_lines sha ls = sha (unlines ls)"

definition pair_line :: "string \<times> string \<Rightarrow> string" where
  "pair_line p = fst p @ ''='' @ snd p"

text \<open>Pairs sort by name, then value; \<open>sort\<close> and \<open>dedup\<close> on them is \<open>sort_dedup_pairs\<close>.\<close>

definition pair_le :: "string \<times> string \<Rightarrow> string \<times> string \<Rightarrow> bool" where
  "pair_le p q \<longleftrightarrow> fst p < fst q \<or> fst p = fst q \<and> snd p \<le> snd q"

fun insert_pair :: "string \<times> string \<Rightarrow> (string \<times> string) list \<Rightarrow> (string \<times> string) list" where
  "insert_pair p [] = [p]"
| "insert_pair p (q # qs) = (if pair_le p q then p # q # qs else q # insert_pair p qs)"

definition sort_dedup_pairs :: "(string \<times> string) list \<Rightarrow> (string \<times> string) list" where
  "sort_dedup_pairs ps = remdups_adj (foldr insert_pair ps [])"

definition model_version :: "(string \<Rightarrow> string) \<Rightarrow> version_inputs \<Rightarrow> model_version" where
  "model_version sha inputs =
     (let dependency_hash = hash_lines sha (map pair_line (sort_dedup_pairs (vi_dependencies inputs)));
          source_state_hash = hash_lines sha (map pair_line (sort_dedup_pairs (vi_sources inputs)));
          sql_hash = sha (vi_canonical_sql inputs);
          config_hash = sha (vi_config inputs);
          contract_hash = sha (vi_contract inputs);
          target_hash = sha (vi_target inputs);
          compiler_version = dec COMPILER_SEMANTICS_VERSION;
          combined =
            [(''sql'', sql_hash), (''config'', config_hash), (''contract'', contract_hash),
             (''dependencies'', dependency_hash), (''sources'', source_state_hash),
             (''compiler'', compiler_version), (''target'', target_hash)]
      in \<lparr>mv_hash = hash_lines sha (map pair_line combined), mv_sql_hash = sql_hash,
          mv_config_hash = config_hash, mv_contract_hash = contract_hash,
          mv_dependency_hash = dependency_hash, mv_source_state_hash = source_state_hash,
          mv_compiler_version = compiler_version, mv_target_hash = target_hash\<rparr>)"

text \<open>Collecting pairs into a \<open>BTreeMap\<close>: the last value of a name stays.\<close>

definition version_detail_of :: "version_inputs \<Rightarrow> version_detail" where
  "version_detail_of inputs =
     \<lparr>vd_dependencies = fold (\<lambda>p. bm_insert (fst p) (snd p)) (vi_dependencies inputs) [],
      vd_sources = fold (\<lambda>p. bm_insert (fst p) (snd p)) (vi_sources inputs) []\<rparr>"

section \<open>Sorting\<close>

lemma pair_le_linear: "pair_le p q \<or> pair_le q p"
  by (auto simp: pair_le_def)

lemma pair_le_trans: "pair_le p q \<Longrightarrow> pair_le q r \<Longrightarrow> pair_le p r"
  by (auto simp: pair_le_def)

lemma pair_le_antisym: "pair_le p q \<Longrightarrow> pair_le q p \<Longrightarrow> p = q"
  by (cases p; cases q) (auto simp: pair_le_def)

lemma set_insert_pair: "set (insert_pair p qs) = insert p (set qs)"
  by (induction qs) auto

lemma sorted_insert_pair: "sorted_wrt pair_le qs \<Longrightarrow> sorted_wrt pair_le (insert_pair p qs)"
proof (induction qs)
  case Nil
  then show ?case by simp
next
  case (Cons q qs)
  then show ?case
    using pair_le_linear [of p q] pair_le_trans [of p q] by (auto simp: set_insert_pair)
qed

lemma sorted_pairs: "sorted_wrt pair_le (foldr insert_pair ps [])"
  by (induction ps) (simp_all add: sorted_insert_pair)

lemma set_foldr_pairs: "set (foldr insert_pair ps []) = set ps"
  by (induction ps) (simp_all add: set_insert_pair)

lemma set_sort_dedup_pairs [simp]: "set (sort_dedup_pairs ps) = set ps"
  by (simp add: sort_dedup_pairs_def set_foldr_pairs)

definition strict_pairs :: "(string \<times> string) list \<Rightarrow> bool" where
  "strict_pairs ps \<longleftrightarrow> sorted_wrt (\<lambda>p q. pair_le p q \<and> p \<noteq> q) ps"

lemma remdups_adj_strict: "sorted_wrt pair_le ps \<Longrightarrow> strict_pairs (remdups_adj ps)"
proof (induction ps rule: remdups_adj.induct)
  case (3 x y xs)
  show ?case
  proof (cases "x = y")
    case True
    with 3 show ?thesis by simp
  next
    case False
    have "pair_le x z \<and> x \<noteq> z" if "z \<in> set (y # xs)" for z
      using 3(3) that False pair_le_antisym [of x y] by auto
    with 3 False show ?thesis by (simp add: strict_pairs_def)
  qed
qed (simp_all add: strict_pairs_def)

lemma strict_pairs_unique:
  "strict_pairs ps \<Longrightarrow> strict_pairs qs \<Longrightarrow> set ps = set qs \<Longrightarrow> ps = qs"
proof (induction ps arbitrary: qs)
  case Nil
  then show ?case by simp
next
  case (Cons p ps)
  then obtain q qs' where q: "qs = q # qs'" by (cases qs) auto
  have "p \<in> set qs" "q \<in> set (p # ps)"
    using Cons.prems(3) q by auto
  then have "p = q"
    using Cons.prems(1,2) q pair_le_antisym [of p q] by (auto simp: strict_pairs_def)
  moreover have "set ps = set qs'"
  proof (rule insert_ident [THEN iffD1])
    show "p \<notin> set ps" "p \<notin> set qs'"
      using Cons.prems(1,2) q \<open>p = q\<close> by (auto simp: strict_pairs_def)
    show "insert p (set ps) = insert p (set qs')"
      using Cons.prems(3) q \<open>p = q\<close> by simp
  qed
  ultimately show ?case using Cons q by (simp add: strict_pairs_def)
qed

lemma sort_dedup_pairs_cong: "set ps = set qs \<Longrightarrow> sort_dedup_pairs ps = sort_dedup_pairs qs"
  by (rule strict_pairs_unique)
    (simp_all add: sort_dedup_pairs_def remdups_adj_strict sorted_pairs set_foldr_pairs)

section \<open>Reading hashed text back\<close>

lemma unlines_Cons: "unlines (l # ls) = l @ CHR 10 # unlines ls"
  by (simp add: unlines_def)

lemma unlines_inj:
  "\<forall>l \<in> set ls. CHR 10 \<notin> set l \<Longrightarrow> \<forall>m \<in> set ms. CHR 10 \<notin> set m \<Longrightarrow>
     unlines ls = unlines ms \<Longrightarrow> ls = ms"
proof (induction ls arbitrary: ms)
  case Nil
  then show ?case by (cases ms) (simp_all add: unlines_def)
next
  case (Cons l ls)
  then obtain m ms' where m: "ms = m # ms'"
    by (cases ms) (auto simp: unlines_def)
  have "split_on (CHR 10) (l @ CHR 10 # unlines ls) = split_on (CHR 10) (m @ CHR 10 # unlines ms')"
    using Cons.prems(3) m by (simp add: unlines_Cons)
  then have lm: "l = m"
    using Cons.prems(1,2) m by (simp add: split_on_append)
  moreover have "unlines ls = unlines ms'"
    using Cons.prems(3) m lm by (simp add: unlines_Cons)
  then have "ls = ms'"
    using Cons.prems(1,2) m by (intro Cons.IH) simp_all
  ultimately show ?case using m by simp
qed

lemma pair_line_inj:
  assumes "pair_line p = pair_line q" "CHR ''='' \<notin> set (fst p)" "CHR ''='' \<notin> set (fst q)"
  shows "p = q"
proof -
  have "split_once CHR ''='' (pair_line r) = Some r" if "CHR ''='' \<notin> set (fst r)" for r
    using split_once_append [OF that, of "snd r"] by (simp add: pair_line_def)
  with assms show ?thesis by (metis option.inject)
qed

definition plain_pair :: "string \<times> string \<Rightarrow> bool" where
  "plain_pair p \<longleftrightarrow>
     CHR ''='' \<notin> set (fst p) \<and> CHR 10 \<notin> set (fst p) \<and> CHR 10 \<notin> set (snd p)"

lemma pair_lines_inj:
  assumes "\<forall>p \<in> set ps. plain_pair p" "\<forall>q \<in> set qs. plain_pair q"
    and "unlines (map pair_line ps) = unlines (map pair_line qs)"
  shows "ps = qs"
proof -
  have "map pair_line ps = map pair_line qs"
    by (rule unlines_inj) (use assms in \<open>auto simp: plain_pair_def pair_line_def\<close>)
  moreover have "inj_on pair_line (set ps \<union> set qs)"
    using assms(1,2) by (intro inj_onI pair_line_inj) (auto simp: plain_pair_def)
  ultimately show ?thesis by (rule map_inj_on)
qed

text \<open>The byte strings that deriving a version digests.\<close>

definition dependency_text :: "version_inputs \<Rightarrow> string" where
  "dependency_text i = unlines (map pair_line (sort_dedup_pairs (vi_dependencies i)))"

definition source_text :: "version_inputs \<Rightarrow> string" where
  "source_text i = unlines (map pair_line (sort_dedup_pairs (vi_sources i)))"

definition combined_pairs :: "(string \<Rightarrow> string) \<Rightarrow> version_inputs \<Rightarrow> (string \<times> string) list" where
  "combined_pairs sha i =
     [(''sql'', sha (vi_canonical_sql i)), (''config'', sha (vi_config i)),
      (''contract'', sha (vi_contract i)), (''dependencies'', sha (dependency_text i)),
      (''sources'', sha (source_text i)), (''compiler'', dec COMPILER_SEMANTICS_VERSION),
      (''target'', sha (vi_target i))]"

definition digested :: "(string \<Rightarrow> string) \<Rightarrow> version_inputs \<Rightarrow> string set" where
  "digested sha i =
     {vi_canonical_sql i, vi_config i, vi_contract i, vi_target i, dependency_text i, source_text i,
      unlines (map pair_line (combined_pairs sha i))}"

definition readable_inputs :: "version_inputs \<Rightarrow> bool" where
  "readable_inputs i \<longleftrightarrow> list_all plain_pair (vi_dependencies i) \<and> list_all plain_pair (vi_sources i)"

lemma mv_hash_eq: "mv_hash (model_version sha i) = sha (unlines (map pair_line (combined_pairs sha i)))"
  by (simp add: model_version_def Let_def hash_lines_def combined_pairs_def dependency_text_def
      source_text_def)

lemma dec_plain: "CHR 10 \<notin> set (dec n)"
  using dec_digits [of "CHR 10" n] by (auto simp: is_ascii_digit_def)

lemma sort_pairs_text_inj:
  assumes "list_all plain_pair ps" "list_all plain_pair qs"
    and "unlines (map pair_line (sort_dedup_pairs ps)) = unlines (map pair_line (sort_dedup_pairs qs))"
  shows "set ps = set qs"
proof -
  have "sort_dedup_pairs ps = sort_dedup_pairs qs"
    by (rule pair_lines_inj) (use assms in \<open>simp_all add: list_all_iff\<close>)
  then show ?thesis by (metis set_sort_dedup_pairs)
qed

lemma combined_pairs_eq:
  assumes out: "\<And>x. CHR 10 \<notin> set (sha x)"
    and inj: "inj_on sha (digested sha i \<union> digested sha j)"
    and eq: "mv_hash (model_version sha i) = mv_hash (model_version sha j)"
  shows "combined_pairs sha i = combined_pairs sha j"
proof (rule pair_lines_inj)
  show "\<forall>p \<in> set (combined_pairs sha i). plain_pair p" "\<forall>p \<in> set (combined_pairs sha j). plain_pair p"
    by (simp_all add: combined_pairs_def plain_pair_def out dec_plain)
  show "unlines (map pair_line (combined_pairs sha i)) = unlines (map pair_line (combined_pairs sha j))"
    using eq unfolding mv_hash_eq by (rule inj_onD [OF inj]) (simp_all add: digested_def)
qed

section \<open>Properties\<close>

text \<open>
  A version is a function of what the inputs say, not of the order in which dependencies
  and sources are visited or of repetitions among them.
\<close>

theorem version_order_independent:
  assumes "set (vi_dependencies i) = set ds" "set (vi_sources i) = set ss"
  shows "model_version sha (i\<lparr>vi_dependencies := ds, vi_sources := ss\<rparr>) = model_version sha i"
  using sort_dedup_pairs_cong [OF assms(1)] sort_dedup_pairs_cong [OF assms(2)]
  by (simp add: model_version_def Let_def)

theorem version_order_independent_witness:
  "model_version hex_digest
     \<lparr>vi_canonical_sql = ''SELECT 1'', vi_config = ''c'', vi_contract = [],
      vi_dependencies = [(''a.x'', ''1''), (''a.y'', ''2''), (''a.x'', ''1'')],
      vi_sources = [(''raw'', [])], vi_target = ''a.z|view''\<rparr> =
   model_version hex_digest
     \<lparr>vi_canonical_sql = ''SELECT 1'', vi_config = ''c'', vi_contract = [],
      vi_dependencies = [(''a.y'', ''2''), (''a.x'', ''1'')],
      vi_sources = [(''raw'', [])], vi_target = ''a.z|view''\<rparr>"
  using version_order_independent
    [of "\<lparr>vi_canonical_sql = ''SELECT 1'', vi_config = ''c'', vi_contract = [],
          vi_dependencies = [(''a.y'', ''2''), (''a.x'', ''1'')],
          vi_sources = [(''raw'', [])], vi_target = ''a.z|view''\<rparr>"
        "[(''a.x'', ''1''), (''a.y'', ''2''), (''a.x'', ''1'')]" "[(''raw'', [])]" hex_digest]
  by force

text \<open>
  Property C39. Unless the digest collides on the texts at hand, equal version hashes mean equal
  inputs: same canonical SQL, configuration, contract and target, same upstream versions and same
  source states. Names must hold no \<open>=\<close> and no newline, states no newline, which the hashed
  lines would confuse.
\<close>

theorem version_determines_inputs:
  assumes out: "\<And>x. CHR 10 \<notin> set (sha x)"
    and inj: "inj_on sha (digested sha i \<union> digested sha j)"
    and wf: "readable_inputs i" "readable_inputs j"
    and eq: "mv_hash (model_version sha i) = mv_hash (model_version sha j)"
  shows "vi_canonical_sql i = vi_canonical_sql j \<and> vi_config i = vi_config j \<and>
    vi_contract i = vi_contract j \<and> vi_target i = vi_target j \<and>
    set (vi_dependencies i) = set (vi_dependencies j) \<and> set (vi_sources i) = set (vi_sources j)"
proof -
  have D: "x = y" if "sha x = sha y" "x \<in> digested sha i" "y \<in> digested sha j" for x y
    using inj_onD [OF inj that(1)] that(2,3) by simp
  have c: "sha (vi_canonical_sql i) = sha (vi_canonical_sql j)" "sha (vi_config i) = sha (vi_config j)"
    "sha (vi_contract i) = sha (vi_contract j)" "sha (vi_target i) = sha (vi_target j)"
    "sha (dependency_text i) = sha (dependency_text j)" "sha (source_text i) = sha (source_text j)"
    using combined_pairs_eq [OF out inj eq] by (simp_all add: combined_pairs_def)
  note e = c [THEN D, unfolded digested_def]
  have "set (vi_dependencies i) = set (vi_dependencies j)"
    using e(5) wf by (simp add: readable_inputs_def dependency_text_def sort_pairs_text_inj)
  moreover have "set (vi_sources i) = set (vi_sources j)"
    using e(6) wf by (simp add: readable_inputs_def source_text_def sort_pairs_text_inj)
  ultimately show ?thesis using e(1-4) by simp
qed

theorem version_determines_inputs_witness:
  "mv_hash (model_version hex_digest
     \<lparr>vi_canonical_sql = ''SELECT 1'', vi_config = [], vi_contract = [],
      vi_dependencies = [(''a.x'', ''1'')], vi_sources = [], vi_target = ''t''\<rparr>) \<noteq>
   mv_hash (model_version hex_digest
     \<lparr>vi_canonical_sql = ''SELECT 1'', vi_config = [], vi_contract = [],
      vi_dependencies = [(''a.x'', ''2'')], vi_sources = [], vi_target = ''t''\<rparr>)"
proof
  assume eq: "mv_hash (model_version hex_digest
     \<lparr>vi_canonical_sql = ''SELECT 1'', vi_config = [], vi_contract = [],
      vi_dependencies = [(''a.x'', ''1'')], vi_sources = [], vi_target = ''t''\<rparr>) =
   mv_hash (model_version hex_digest
     \<lparr>vi_canonical_sql = ''SELECT 1'', vi_config = [], vi_contract = [],
      vi_dependencies = [(''a.x'', ''2'')], vi_sources = [], vi_target = ''t''\<rparr>)"
  have inj: "inj_on hex_digest S" for S
    by (rule inj_onI) (rule hex_digest_inj)
  show False
    using version_determines_inputs [OF hex_digest_plain inj _ _ eq]
    by (simp add: readable_inputs_def plain_pair_def)
qed

end
