(* ===== verification/Diagnostics.thy ===== *)
theory Diagnostics
  imports Prelude
begin

text \<open>
  Typed diagnostics, \<^verbatim>\<open>phlo-transform-core/src/diagnostics.rs\<close>: the stable codes the modelled
  passes raise, severities, and the builder functions as record updates.
\<close>

datatype severity = SevError | SevWarning | SevInfo

definition severity_label :: "severity \<Rightarrow> string" where
  "severity_label s =
     (case s of SevError \<Rightarrow> ''error'' | SevWarning \<Rightarrow> ''warning'' | SevInfo \<Rightarrow> ''info'')"

definition is_error :: "severity \<Rightarrow> bool" where
  "is_error s \<longleftrightarrow> s = SevError"

record diagnostic =
  dg_code :: string
  dg_severity :: severity
  dg_message :: string
  dg_path :: "string option"
  dg_line :: "nat option"
  dg_column :: "nat option"
  dg_labels :: "string list"
  dg_help :: "string option"

definition diagnostic_new :: "severity \<Rightarrow> string \<Rightarrow> string \<Rightarrow> diagnostic" where
  "diagnostic_new severity code message =
     \<lparr>dg_code = code, dg_severity = severity, dg_message = message, dg_path = None,
      dg_line = None, dg_column = None, dg_labels = [], dg_help = None\<rparr>"

definition diag_error :: "string \<Rightarrow> string \<Rightarrow> diagnostic" where
  "diag_error code message = diagnostic_new SevError code message"

definition diag_warning :: "string \<Rightarrow> string \<Rightarrow> diagnostic" where
  "diag_warning code message = diagnostic_new SevWarning code message"

definition with_path :: "string \<Rightarrow> diagnostic \<Rightarrow> diagnostic" where
  "with_path path d = d\<lparr>dg_path := Some path\<rparr>"

definition with_location :: "nat \<Rightarrow> nat \<Rightarrow> diagnostic \<Rightarrow> diagnostic" where
  "with_location line column d = d\<lparr>dg_line := Some line, dg_column := Some column\<rparr>"

definition with_labels :: "string list \<Rightarrow> diagnostic \<Rightarrow> diagnostic" where
  "with_labels labels d = d\<lparr>dg_labels := labels\<rparr>"

definition with_help :: "string \<Rightarrow> diagnostic \<Rightarrow> diagnostic" where
  "with_help help d = d\<lparr>dg_help := Some help\<rparr>"

definition render_human :: "diagnostic \<Rightarrow> string" where
  "render_human d =
     severity_label (dg_severity d) @ ''['' @ dg_code d @ '']: '' @ dg_message d
       @ concat (map (\<lambda>l. CHR 10 # ''  '' @ l) (dg_labels d))
       @ (case dg_help d of Some h \<Rightarrow> CHR 10 # ''  help: '' @ h | None \<Rightarrow> [])"

section \<open>Codes\<close>

definition PROJECT_DUPLICATE_MODEL :: string where
  "PROJECT_DUPLICATE_MODEL = ''PROJECT002''"

definition PROJECT_INVALID_MODEL_ID :: string where
  "PROJECT_INVALID_MODEL_ID = ''PROJECT004''"

definition PROJECT_TARGET_COLLISION :: string where
  "PROJECT_TARGET_COLLISION = ''PROJECT007''"

definition PARSE_INVALID_SQL :: string where
  "PARSE_INVALID_SQL = ''PARSE001''"

definition PARSE_MALFORMED_DIRECTIVE :: string where
  "PARSE_MALFORMED_DIRECTIVE = ''PARSE002''"

definition PARSE_UNKNOWN_DIRECTIVE :: string where
  "PARSE_UNKNOWN_DIRECTIVE = ''PARSE003''"

definition RESOLUTION_AMBIGUOUS :: string where
  "RESOLUTION_AMBIGUOUS = ''RESOLUTION001''"

definition DEPENDENCIES_CROSS_WORKFLOW :: string where
  "DEPENDENCIES_CROSS_WORKFLOW = ''DEPENDENCIES001''"

definition TYPE_CONTRACT :: string where
  "TYPE_CONTRACT = ''TYPE005''"

definition GRAPH_CYCLE :: string where
  "GRAPH_CYCLE = ''GRAPH001''"

section \<open>Facts\<close>

lemma builder_severity [simp]:
  "dg_severity (diag_error c m) = SevError"
  "dg_severity (diag_warning c m) = SevWarning"
  "dg_severity (with_path p d) = dg_severity d"
  "dg_severity (with_location l k d) = dg_severity d"
  "dg_severity (with_labels ls d) = dg_severity d"
  "dg_severity (with_help h d) = dg_severity d"
  by (simp_all add: diag_error_def diag_warning_def diagnostic_new_def with_path_def
      with_location_def with_labels_def with_help_def)

lemma builder_code [simp]:
  "dg_code (diag_error c m) = c"
  "dg_code (diag_warning c m) = c"
  "dg_code (with_path p d) = dg_code d"
  "dg_code (with_location l k d) = dg_code d"
  "dg_code (with_labels ls d) = dg_code d"
  "dg_code (with_help h d) = dg_code d"
  by (simp_all add: diag_error_def diag_warning_def diagnostic_new_def with_path_def
      with_location_def with_labels_def with_help_def)

end
