(* ===== verification/Model.thy ===== *)
theory Model
  imports Semantic Directives Version Diagnostics
begin

text \<open>
  The semantic and compiled models: \<^verbatim>\<open>phlo-transform-core/src/model.rs\<close> and the data of
  \<^verbatim>\<open>compiled.rs\<close>, with the resolved dependencies of \<^verbatim>\<open>graph.rs\<close>. Paths are the strings they
  display as. The diff policy of a configuration (floating-point tolerances) is left out.
\<close>

section \<open>Semantic models\<close>

type_synonym transform_root_id = "32 word"

datatype frontend_kind = Native | InMemory

record model_origin =
  mo_frontend :: frontend_kind
  mo_path :: "string option"

record root_ref =
  rr_id :: transform_root_id
  rr_relative_path :: "string list"

record model_config =
  cfg_materialization :: materialization
  cfg_tags :: "string list"
  cfg_owner :: "string option"
  cfg_schema :: "string option"
  cfg_incremental :: "incremental_strategy option"

definition default_config :: model_config where
  "default_config =
     \<lparr>cfg_materialization = View, cfg_tags = [], cfg_owner = None, cfg_schema = None,
      cfg_incremental = None\<rparr>"

record workspace_defaults =
  wd_materialization :: materialization
  wd_catalog :: "string option"
  wd_schema :: "string option"

record semantic_model =
  sm_id :: model_id
  sm_namespace :: namespace
  sm_path :: "string list"
  sm_root :: "root_ref option"
  sm_sql :: string
  sm_directives :: directives
  sm_config :: model_config
  sm_workflow :: "string option"
  sm_contract :: "model_contract option"
  sm_origin :: model_origin

definition in_memory_model :: "model_id \<Rightarrow> string \<Rightarrow> semantic_model" where
  "in_memory_model i sql =
     \<lparr>sm_id = i, sm_namespace = mid_namespace i, sm_path = mid_path i, sm_root = None,
      sm_sql = sql, sm_directives = no_directives, sm_config = default_config,
      sm_workflow = None, sm_contract = None,
      sm_origin = \<lparr>mo_frontend = InMemory, mo_path = None\<rparr>\<rparr>"

record semantic_test =
  st_id :: test_id
  st_sql :: string
  st_origin :: model_origin

record semantic_seed =
  ss_name :: string
  ss_path :: string
  ss_schema :: "string option"
  ss_content_hash :: string
  ss_columns :: "string list"

section \<open>Dependencies\<close>

datatype dependency = DepModel model_id | DepSource source_id

instantiation dependency :: linorder
begin

fun less_eq_dependency :: "dependency \<Rightarrow> dependency \<Rightarrow> bool" where
  "less_eq_dependency (DepModel a) (DepModel b) = (a \<le> b)"
| "less_eq_dependency (DepModel a) (DepSource b) = True"
| "less_eq_dependency (DepSource a) (DepModel b) = False"
| "less_eq_dependency (DepSource a) (DepSource b) = (a \<le> b)"

definition less_dependency :: "dependency \<Rightarrow> dependency \<Rightarrow> bool" where
  "less_dependency a b \<longleftrightarrow> a \<le> b \<and> \<not> b \<le> a"

instance
proof
  fix x y z :: dependency
  show "x < y \<longleftrightarrow> x \<le> y \<and> \<not> y \<le> x" by (simp add: less_dependency_def)
  show "x \<le> x" by (cases x) simp_all
  show "x \<le> y \<Longrightarrow> y \<le> z \<Longrightarrow> x \<le> z" by (cases x; cases y; cases z) auto
  show "x \<le> y \<Longrightarrow> y \<le> x \<Longrightarrow> x = y" by (cases x; cases y) auto
  show "x \<le> y \<or> y \<le> x" by (cases x; cases y) auto
qed

end

section \<open>Compiled models, tests and seeds\<close>

record compiled_model =
  cm_id :: model_id
  cm_namespace :: namespace
  cm_path :: "string list"
  cm_origin :: model_origin
  cm_sql :: string
  cm_workflow :: "string option"
  cm_config :: model_config
  cm_target :: relation
  cm_compiled_sql :: string
  cm_schema :: model_schema
  cm_limitations :: "string list"
  cm_assertions :: "assertion list"
  cm_contract :: "model_contract option"
  cm_version :: model_version
  cm_version_detail :: version_detail
  cm_pinned_id :: "model_id option"
  cm_dependencies :: "dependency list"

definition path_display :: "model_origin \<Rightarrow> string option" where
  "path_display origin = map_option (replace_char CHR 0x5C ''/'') (mo_path origin)"

fun dep_models :: "dependency list \<Rightarrow> model_id list" where
  "dep_models [] = []"
| "dep_models (DepModel i # ds) = i # dep_models ds"
| "dep_models (DepSource s # ds) = dep_models ds"

fun dep_sources :: "dependency list \<Rightarrow> source_id list" where
  "dep_sources [] = []"
| "dep_sources (DepModel i # ds) = dep_sources ds"
| "dep_sources (DepSource s # ds) = s # dep_sources ds"

definition model_dependencies :: "compiled_model \<Rightarrow> model_id list" where
  "model_dependencies m = dep_models (cm_dependencies m)"

definition source_dependencies :: "compiled_model \<Rightarrow> source_id list" where
  "source_dependencies m = dep_sources (cm_dependencies m)"

record compiled_seed =
  cs_name :: string
  cs_path :: string
  cs_schema :: "string option"
  cs_content_hash :: string
  cs_columns :: "string list"

definition compiled_seed_relation :: "compiled_seed \<Rightarrow> string option \<Rightarrow> string \<Rightarrow> relation" where
  "compiled_seed_relation seed catalog fallback_schema =
     Relation catalog (case cs_schema seed of Some s \<Rightarrow> s | None \<Rightarrow> fallback_schema) (cs_name seed)"

record compiled_test =
  ct_id :: test_id
  ct_origin :: model_origin
  ct_sql :: string
  ct_compiled_sql :: string
  ct_targets :: "model_id list"
  ct_sources :: "source_id list"
  ct_generated :: bool

lemma set_dep_models [simp]: "set (dep_models ds) = {i. DepModel i \<in> set ds}"
  by (induction ds rule: dep_models.induct) auto

lemma set_dep_sources [simp]: "set (dep_sources ds) = {s. DepSource s \<in> set ds}"
  by (induction ds rule: dep_sources.induct) auto

end
