(* ===== verification/Resolve.thy ===== *)
theory Resolve
  imports Model
begin

text \<open>
  Relation resolution, \<^verbatim>\<open>phlo-transform-core/src/resolve.rs\<close>. The resolver is four hash maps filled
  once and only looked up; they interpret the locale \<open>multi_index\<close>, so each level of the precedence
  is shown to answer like a scan of the workspace's entries.
\<close>

section \<open>The resolver\<close>

record registry_entry =
  re_id :: model_id
  re_namespace :: namespace
  re_path :: "string list"
  re_root :: "root_ref option"

datatype resolution =
    ResModel model_id
  | ResExternal source_id
  | ResAmbiguous "model_id list"

record resolver =
  rs_by_logical :: "string \<rightharpoonup> model_id list"
  rs_by_namespace :: "namespace \<times> string \<rightharpoonup> model_id list"
  rs_by_root :: "transform_root_id \<times> string \<rightharpoonup> model_id list"
  rs_by_suffix :: "string \<rightharpoonup> model_id list"

definition empty_resolver :: resolver where
  "empty_resolver =
     \<lparr>rs_by_logical = Map.empty, rs_by_namespace = Map.empty, rs_by_root = Map.empty,
      rs_by_suffix = Map.empty\<rparr>"

text \<open>\<open>match_indices('.')\<close>: the texts after each dot.\<close>

fun after_dots :: "string \<Rightarrow> string list" where
  "after_dots [] = []"
| "after_dots (c # cs) = (if c = CHR ''.'' then cs # after_dots cs else after_dots cs)"

definition add_entry :: "registry_entry \<Rightarrow> resolver \<Rightarrow> resolver" where
  "add_entry entry r =
     (let logical = logical_name (re_id entry); i = re_id entry
      in r\<lparr>rs_by_logical := hm_push logical i (rs_by_logical r),
           rs_by_namespace := hm_push (re_namespace entry, local_name i) i (rs_by_namespace r),
           rs_by_root :=
             (case re_root entry of
                Some root \<Rightarrow>
                  hm_push (rr_id root, join ''.'' (rr_relative_path root)) i (rs_by_root r)
              | None \<Rightarrow> rs_by_root r),
           rs_by_suffix :=
             fold (\<lambda>suffix. hm_push suffix i) (logical # after_dots logical) (rs_by_suffix r)\<rparr>)"

definition resolver_new :: "registry_entry list \<Rightarrow> resolver" where
  "resolver_new entries = fold add_entry entries empty_resolver"

definition resolve_unique :: "model_id list \<Rightarrow> resolution option" where
  "resolve_unique candidates =
     (case sort_dedup candidates of
        [] \<Rightarrow> None
      | [i] \<Rightarrow> Some (ResModel i)
      | is \<Rightarrow> Some (ResAmbiguous is))"

definition or_empty :: "'a list option \<Rightarrow> 'a list" where
  "or_empty xs = (case xs of Some ys \<Rightarrow> ys | None \<Rightarrow> [])"

definition res_exact :: "resolver \<Rightarrow> string \<Rightarrow> model_id list" where
  "res_exact r full = or_empty (rs_by_logical r full)"

definition res_in_namespace :: "resolver \<Rightarrow> registry_entry \<Rightarrow> string \<Rightarrow> model_id list" where
  "res_in_namespace r current full = or_empty (rs_by_namespace r (re_namespace current, full))"

definition res_in_root :: "resolver \<Rightarrow> registry_entry \<Rightarrow> string \<Rightarrow> model_id list" where
  "res_in_root r current full =
     (case re_root current of
        None \<Rightarrow> []
      | Some root \<Rightarrow> or_empty (rs_by_root r (rr_id root, full)))"

definition res_suffix :: "resolver \<Rightarrow> string \<Rightarrow> model_id list" where
  "res_suffix r full = or_empty (rs_by_suffix r full)"

text \<open>A name has parts, so the source it falls back to can be built (\<open>relation_name_new\<close>).\<close>

definition resolve_global :: "resolver \<Rightarrow> relation_name \<Rightarrow> resolution" where
  "resolve_global r name =
     (let full = as_dotted name
      in case resolve_unique (res_exact r full) of
           Some found \<Rightarrow> found
         | None \<Rightarrow>
             (case resolve_unique (res_suffix r full) of
                Some found \<Rightarrow> found
              | None \<Rightarrow> ResExternal (SourceId (rn_parts name))))"

definition resolve :: "resolver \<Rightarrow> registry_entry \<Rightarrow> relation_name \<Rightarrow> resolution" where
  "resolve r current name =
     (let full = as_dotted name
      in case resolve_unique (res_exact r full) of
           Some found \<Rightarrow> found
         | None \<Rightarrow>
             (case resolve_unique (res_in_namespace r current full) of
                Some found \<Rightarrow> found
              | None \<Rightarrow>
                  (case resolve_unique (res_in_root r current full) of
                     Some found \<Rightarrow> found
                   | None \<Rightarrow> resolve_global r name)))"

section \<open>The indexes answer like scans\<close>

text \<open>The documented precedence, as sets of identities scanned from the entries.\<close>

definition scan_exact :: "registry_entry list \<Rightarrow> string \<Rightarrow> model_id set" where
  "scan_exact es full = {re_id e | e. e \<in> set es \<and> logical_name (re_id e) = full}"

definition scan_namespace :: "registry_entry list \<Rightarrow> registry_entry \<Rightarrow> string \<Rightarrow> model_id set" where
  "scan_namespace es current full =
     {re_id e | e. e \<in> set es \<and> re_namespace e = re_namespace current \<and> local_name (re_id e) = full}"

definition scan_root :: "registry_entry list \<Rightarrow> registry_entry \<Rightarrow> string \<Rightarrow> model_id set" where
  "scan_root es current full =
     {re_id e | e r q. e \<in> set es \<and> re_root e = Some r \<and> re_root current = Some q \<and>
        rr_id r = rr_id q \<and> join ''.'' (rr_relative_path r) = full}"

definition scan_suffix :: "registry_entry list \<Rightarrow> string \<Rightarrow> model_id set" where
  "scan_suffix es full =
     {re_id e | e. e \<in> set es \<and>
        (logical_name (re_id e) = full \<or> ends_with (CHR ''.'' # full) (logical_name (re_id e)))}"

text \<open>What a level with a given candidate set answers.\<close>

definition verdict :: "model_id set \<Rightarrow> resolution option" where
  "verdict S =
     (if S = {} then None
      else if is_singleton S then Some (ResModel (the_elem S))
      else Some (ResAmbiguous (sorted_list_of_set S)))"

lemma or_empty_push [simp]:
  "set (or_empty (hm_push k v m k')) = (if k' = k then insert v (set (or_empty (m k'))) else set (or_empty (m k')))"
  by (auto simp: hm_push_def or_empty_def split: option.split)

lemma or_empty_fold_push_list:
  "or_empty (fold (\<lambda>x. hm_push (key x) (val x)) xs m k) =
     or_empty (m k) @ map val (filter (\<lambda>x. key x = k) xs)"
  using hm.get_fold_push [where m = m and key = key and val = val and xs = xs and k = k]
  by (auto simp: or_empty_def split: list.splits option.splits)

lemma or_empty_fold_push:
  "set (or_empty (fold (\<lambda>x. hm_push (key x) (val x)) xs m k)) =
     set (or_empty (m k)) \<union> val ` {x \<in> set xs. key x = k}"
  by (simp add: or_empty_fold_push_list)

lemma after_dots_iff: "s \<in> set (after_dots t) \<longleftrightarrow> ends_with (CHR ''.'' # s) t"
proof (induction t)
  case Nil
  then show ?case by (simp add: ends_with_iff)
next
  case (Cons c cs)
  have "(\<exists>r. c # cs = r @ CHR ''.'' # s) \<longleftrightarrow> c = CHR ''.'' \<and> cs = s \<or> (\<exists>r. cs = r @ CHR ''.'' # s)"
    by (auto simp: Cons_eq_append_conv)
  with Cons show ?case by (auto simp: ends_with_iff)
qed

lemma add_entry_sets:
  "set (res_exact (add_entry e r) full) =
     set (res_exact r full) \<union> (if logical_name (re_id e) = full then {re_id e} else {})"
  "set (res_in_namespace (add_entry e r) current full) =
     set (res_in_namespace r current full) \<union>
       (if re_namespace e = re_namespace current \<and> local_name (re_id e) = full then {re_id e} else {})"
  "set (res_in_root (add_entry e r) current full) =
     set (res_in_root r current full) \<union>
       (case re_root e of None \<Rightarrow> {}
        | Some p \<Rightarrow> (case re_root current of None \<Rightarrow> {}
          | Some q \<Rightarrow> if rr_id p = rr_id q \<and> join ''.'' (rr_relative_path p) = full then {re_id e} else {}))"
  "set (res_suffix (add_entry e r) full) =
     set (res_suffix r full) \<union>
       (if logical_name (re_id e) = full \<or> ends_with (CHR ''.'' # full) (logical_name (re_id e))
        then {re_id e} else {})"
  using or_empty_fold_push
    [of "\<lambda>s. s" "\<lambda>s. re_id e" "after_dots (logical_name (re_id e))"
        "hm_push (logical_name (re_id e)) (re_id e) (rs_by_suffix r)" full]
  by (auto simp: add_entry_def res_exact_def res_in_namespace_def res_in_root_def res_suffix_def
      Let_def after_dots_iff split: option.split if_splits)

lemma resolver_sets:
  "set (res_exact (fold add_entry es r) full) = set (res_exact r full) \<union> scan_exact es full"
  "set (res_in_namespace (fold add_entry es r) current full) =
     set (res_in_namespace r current full) \<union> scan_namespace es current full"
  "set (res_in_root (fold add_entry es r) current full) =
     set (res_in_root r current full) \<union> scan_root es current full"
  "set (res_suffix (fold add_entry es r) full) = set (res_suffix r full) \<union> scan_suffix es full"
  by (induction es arbitrary: r)
    (auto simp: add_entry_sets scan_exact_def scan_namespace_def scan_root_def scan_suffix_def
      split: option.splits if_splits)

lemma empty_resolver_sets [simp]:
  "res_exact empty_resolver full = []" "res_in_namespace empty_resolver current full = []"
  "res_in_root empty_resolver current full = []" "res_suffix empty_resolver full = []"
  by (simp_all add: empty_resolver_def res_exact_def res_in_namespace_def res_in_root_def
      res_suffix_def or_empty_def split: option.split)

lemma resolve_unique_verdict: "resolve_unique cs = verdict (set cs)"
proof -
  have e: "sort_dedup cs = sorted_list_of_set (set cs)"
    by (metis set_sort_dedup sorted_list_of_set.idem_if_sorted_distinct sorted_sort_dedup)
  show ?thesis
  proof (cases "sort_dedup cs")
    case Nil
    then have "set cs = {}" by (metis list.set(1) set_sort_dedup)
    with Nil show ?thesis by (simp add: resolve_unique_def verdict_def)
  next
    case (Cons i rest)
    then have s: "set cs = insert i (set rest)" by (metis list.set(2) set_sort_dedup)
    have d: "distinct (i # rest)" using Cons by (metis sorted_sort_dedup(2))
    show ?thesis
    proof (cases rest)
      case Nil
      with Cons s show ?thesis by (simp add: resolve_unique_def verdict_def)
    next
      case c2: (Cons j js)
      with d s have "\<not> is_singleton (set cs)" by (auto simp: is_singleton_def)
      with Cons c2 s e show ?thesis by (simp add: resolve_unique_def verdict_def)
    qed
  qed
qed

lemma resolver_levels:
  "resolve_unique (res_exact (resolver_new es) full) = verdict (scan_exact es full)"
  "resolve_unique (res_in_namespace (resolver_new es) current full) = verdict (scan_namespace es current full)"
  "resolve_unique (res_in_root (resolver_new es) current full) = verdict (scan_root es current full)"
  "resolve_unique (res_suffix (resolver_new es) full) = verdict (scan_suffix es full)"
  by (simp_all add: resolve_unique_verdict resolver_new_def resolver_sets)

lemma verdict_None: "verdict S = None \<longleftrightarrow> S = {}"
  by (simp add: verdict_def)

section \<open>Properties\<close>

text \<open>
  Property C35. Resolution follows the documented precedence on the workspace as a set of entries: a
  name is the model with exactly that identity, else the model of the current namespace, else the one
  of the current root, else the one whose identity ends with it, else an external source. Only the
  first level with candidates counts, and several candidates there are an ambiguity listing them all
  in order; the order in which entries were registered does not matter.
\<close>

theorem resolve_precedence:
  "resolve (resolver_new es) current name =
     (case verdict (scan_exact es (as_dotted name)) of Some found \<Rightarrow> found
      | None \<Rightarrow> (case verdict (scan_namespace es current (as_dotted name)) of Some found \<Rightarrow> found
      | None \<Rightarrow> (case verdict (scan_root es current (as_dotted name)) of Some found \<Rightarrow> found
      | None \<Rightarrow> (case verdict (scan_suffix es (as_dotted name)) of Some found \<Rightarrow> found
      | None \<Rightarrow> ResExternal (SourceId (rn_parts name))))))"
  by (simp add: resolve_def resolve_global_def Let_def resolver_levels split: option.split)

text \<open>
  Resolution never guesses: a model is answered only when it is the single candidate of
  its level and every earlier level is empty, an external source only when all four levels are.
\<close>

theorem resolve_never_guesses:
  "(resolve (resolver_new es) current name = ResModel i \<longrightarrow>
      (\<exists>k < 4. (\<forall>j < k. [scan_exact es (as_dotted name), scan_namespace es current (as_dotted name),
          scan_root es current (as_dotted name), scan_suffix es (as_dotted name)] ! j = {}) \<and>
        [scan_exact es (as_dotted name), scan_namespace es current (as_dotted name),
          scan_root es current (as_dotted name), scan_suffix es (as_dotted name)] ! k = {i})) \<and>
   ((\<exists>s. resolve (resolver_new es) current name = ResExternal s) \<longleftrightarrow>
      scan_exact es (as_dotted name) = {} \<and> scan_namespace es current (as_dotted name) = {} \<and>
      scan_root es current (as_dotted name) = {} \<and> scan_suffix es (as_dotted name) = {})"
proof -
  have sing: "verdict S = Some (ResModel i) \<Longrightarrow> S = {i}" for S
    by (auto simp: verdict_def is_singleton_def split: if_splits)
  have noext: "verdict S \<noteq> Some (ResExternal s)" for S s
    by (simp add: verdict_def)
  then have noext': "verdict S = Some x \<Longrightarrow> S \<noteq> {} \<and> (\<forall>s. x \<noteq> ResExternal s)" for S x
    using verdict_None [of S] by auto
  let ?L = "[scan_exact es (as_dotted name), scan_namespace es current (as_dotted name),
          scan_root es current (as_dotted name), scan_suffix es (as_dotted name)]"
  have "\<exists>k < 4. (\<forall>j < k. ?L ! j = {}) \<and> ?L ! k = {i}"
    if r: "resolve (resolver_new es) current name = ResModel i"
  proof -
    have l: "(\<exists>k < 4. P k) \<longleftrightarrow> P 0 \<or> P 1 \<or> P 2 \<or> P 3" for P :: "nat \<Rightarrow> bool"
      by (auto simp: numeral_eq_Suc less_Suc_eq)
    have a: "(\<forall>j < 0. P j) = True" "(\<forall>j < 1. P j) = P 0" "(\<forall>j < 2. P j) = (P 0 \<and> P 1)"
      "(\<forall>j < 3. P j) = (P 0 \<and> P 1 \<and> P 2)" for P :: "nat \<Rightarrow> bool"
      by (auto simp: numeral_eq_Suc less_Suc_eq)
    show ?thesis
      using r unfolding l a resolve_precedence
      by (auto simp: verdict_None dest!: sing split: option.splits)
  qed
  moreover have "(\<exists>s. resolve (resolver_new es) current name = ResExternal s) \<longleftrightarrow>
      scan_exact es (as_dotted name) = {} \<and> scan_namespace es current (as_dotted name) = {} \<and>
      scan_root es current (as_dotted name) = {} \<and> scan_suffix es (as_dotted name) = {}"
    unfolding resolve_precedence
    by (auto simp: noext verdict_None dest: noext' split: option.splits)
  ultimately show ?thesis by blast
qed

text \<open>An entry as the unit tests of \<^verbatim>\<open>resolve.rs\<close> build it.\<close>

definition bare_entry :: "model_id \<Rightarrow> registry_entry" where
  "bare_entry i =
     \<lparr>re_id = i, re_namespace = mid_namespace i, re_path = mid_path i, re_root = None\<rparr>"

theorem resolve_never_guesses_witness:
  "resolve (resolver_new [bare_entry (ModelId ''assay'' [''results'']),
       bare_entry (ModelId ''manufacturing'' [''results''])])
     (bare_entry (ModelId ''reporting'' [''monthly''])) (RelationName [''results'']) =
   ResAmbiguous [ModelId ''assay'' [''results''], ModelId ''manufacturing'' [''results'']] \<and>
   (\<exists>k < 4. [scan_exact [bare_entry (ModelId ''assay'' [''raw''])] ''raw'',
       scan_namespace [bare_entry (ModelId ''assay'' [''raw''])] (bare_entry (ModelId ''assay'' [''x''])) ''raw'',
       scan_root [bare_entry (ModelId ''assay'' [''raw''])] (bare_entry (ModelId ''assay'' [''x''])) ''raw'',
       scan_suffix [bare_entry (ModelId ''assay'' [''raw''])] ''raw''] ! k = {ModelId ''assay'' [''raw'']})"
proof -
  have 1: "resolve (resolver_new [bare_entry (ModelId ''assay'' [''results'']),
       bare_entry (ModelId ''manufacturing'' [''results''])])
     (bare_entry (ModelId ''reporting'' [''monthly''])) (RelationName [''results'']) =
   ResAmbiguous [ModelId ''assay'' [''results''], ModelId ''manufacturing'' [''results'']]"
    by code_simp
  have 2: "resolve (resolver_new [bare_entry (ModelId ''assay'' [''raw''])])
     (bare_entry (ModelId ''assay'' [''x''])) (RelationName [''raw'']) = ResModel (ModelId ''assay'' [''raw''])"
    by code_simp
  show ?thesis
    using 1 resolve_never_guesses [of "[bare_entry (ModelId ''assay'' [''raw''])]"
        "bare_entry (ModelId ''assay'' [''x''])" "RelationName [''raw'']" "ModelId ''assay'' [''raw'']"] 2
    by (auto simp: as_dotted_def)
qed

end
