(* ===== verification/Graph.thy ===== *)
theory Graph
  imports Model "HOL-Library.AList"
begin

text \<open>
  The dependency graph, \<^verbatim>\<open>phlo-transform-core/src/graph.rs\<close>. The sources keep a petgraph
  \<open>DiGraph\<close> beside a \<open>BTreeMap\<close> from nodes to indices; here a graph is the sorted list of its
  nodes (the keys of that map) and the list of its edges in insertion order, with nodes standing for
  their indices. Neighbour lists are sorted by every caller, so petgraph's iteration order does not
  matter. An \<open>expect\<close> or an index that would panic is \<open>None\<close>.
\<close>

section \<open>The graph\<close>

datatype graph_node = NodeModel model_id | NodeSource source_id

fun node_dependency :: "graph_node \<Rightarrow> dependency" where
  "node_dependency (NodeModel i) = DepModel i"
| "node_dependency (NodeSource s) = DepSource s"

fun dependency_node :: "dependency \<Rightarrow> graph_node" where
  "dependency_node (DepModel i) = NodeModel i"
| "dependency_node (DepSource s) = NodeSource s"

lemma node_dependency_inverse [simp]:
  "node_dependency (dependency_node d) = d" "dependency_node (node_dependency n) = n"
  by (cases d, simp_all) (cases n, simp_all)

lemma node_dependency_inj: "node_dependency a = node_dependency b \<longleftrightarrow> a = b"
  by (metis node_dependency_inverse(2))

instantiation graph_node :: linorder
begin

definition less_eq_graph_node :: "graph_node \<Rightarrow> graph_node \<Rightarrow> bool" where
  "less_eq_graph_node a b \<longleftrightarrow> node_dependency a \<le> node_dependency b"

definition less_graph_node :: "graph_node \<Rightarrow> graph_node \<Rightarrow> bool" where
  "less_graph_node a b \<longleftrightarrow> node_dependency a < node_dependency b"

instance
  by intro_classes
    (auto simp: less_eq_graph_node_def less_graph_node_def node_dependency_inj [symmetric])

end

record transform_graph =
  tg_nodes :: "graph_node list"
  tg_edges :: "(graph_node \<times> graph_node) list"

definition empty_graph :: transform_graph where
  "empty_graph = \<lparr>tg_nodes = [], tg_edges = []\<rparr>"

definition ensure_node :: "graph_node \<Rightarrow> transform_graph \<Rightarrow> transform_graph" where
  "ensure_node n g = g\<lparr>tg_nodes := insort_insert n (tg_nodes g)\<rparr>"

definition add_edge :: "graph_node \<Rightarrow> graph_node \<Rightarrow> transform_graph \<Rightarrow> transform_graph" where
  "add_edge from to g =
     (if (from, to) \<in> set (tg_edges g) then g else g\<lparr>tg_edges := tg_edges g @ [(from, to)]\<rparr>)"

fun add_dependencies :: "model_id \<Rightarrow> dependency list \<Rightarrow> transform_graph \<Rightarrow> transform_graph option" where
  "add_dependencies i [] g = Some g"
| "add_dependencies i (d # ds) g =
     (if NodeModel i \<in> set (tg_nodes g) \<and> dependency_node d \<in> set (tg_nodes g)
      then add_dependencies i ds (add_edge (NodeModel i) (dependency_node d) g)
      else None)"

fun add_edges :: "compiled_model list \<Rightarrow> transform_graph \<Rightarrow> transform_graph option" where
  "add_edges [] g = Some g"
| "add_edges (m # ms) g =
     (case add_dependencies (cm_id m) (cm_dependencies m) g of
        None \<Rightarrow> None
      | Some g' \<Rightarrow> add_edges ms g')"

definition graph_build :: "compiled_model list \<Rightarrow> transform_graph option" where
  "graph_build models =
     (let g = fold (\<lambda>m. ensure_node (NodeModel (cm_id m))) models empty_graph;
          source_ids = btree_set (concat (map source_dependencies models));
          g = fold (\<lambda>s. ensure_node (NodeSource s)) source_ids g
      in add_edges models g)"

fun node_models :: "graph_node list \<Rightarrow> model_id list" where
  "node_models [] = []"
| "node_models (NodeModel i # ns) = i # node_models ns"
| "node_models (NodeSource s # ns) = node_models ns"

fun node_sources :: "graph_node list \<Rightarrow> source_id list" where
  "node_sources [] = []"
| "node_sources (NodeModel i # ns) = node_sources ns"
| "node_sources (NodeSource s # ns) = s # node_sources ns"

definition graph_model_ids :: "transform_graph \<Rightarrow> model_id list" where
  "graph_model_ids g = node_models (tg_nodes g)"

definition graph_source_ids :: "transform_graph \<Rightarrow> source_id list" where
  "graph_source_ids g = node_sources (tg_nodes g)"

definition dependencies :: "transform_graph \<Rightarrow> model_id \<Rightarrow> dependency list" where
  "dependencies g i =
     (if NodeModel i \<in> set (tg_nodes g)
      then sort (map (\<lambda>e. node_dependency (snd e)) (filter (\<lambda>e. fst e = NodeModel i) (tg_edges g)))
      else [])"

definition dependents :: "transform_graph \<Rightarrow> model_id \<Rightarrow> model_id list" where
  "dependents g i =
     (if NodeModel i \<in> set (tg_nodes g)
      then sort (node_models (map fst (filter (\<lambda>e. snd e = NodeModel i) (tg_edges g))))
      else [])"

section \<open>Topological order\<close>

definition bump :: "model_id \<Rightarrow> (model_id \<times> nat) list \<Rightarrow> (model_id \<times> nat) list" where
  "bump i remaining = map (\<lambda>(j, n). if j = i then (j, n + 1) else (j, n)) remaining"

definition edge_pairs :: "transform_graph \<Rightarrow> (model_id \<times> model_id) list" where
  "edge_pairs g =
     concat (map (\<lambda>i. map (Pair i) (dep_models (dependencies g i))) (graph_model_ids g))"

definition model_edges ::
    "transform_graph \<Rightarrow> (model_id \<times> nat) list \<times> (model_id \<rightharpoonup> model_id list)" where
  "model_edges g =
     (fold (\<lambda>p. bump (fst p)) (edge_pairs g) (map (\<lambda>i. (i, 0)) (graph_model_ids g)),
      \<lambda>d. map_option sort (fold (\<lambda>p. hm_push (snd p) (fst p)) (edge_pairs g) Map.empty d))"

fun release ::
    "model_id list \<Rightarrow> (model_id \<times> nat) list \<Rightarrow> model_id list
       \<Rightarrow> ((model_id \<times> nat) list \<times> model_id list) option" where
  "release [] remaining ready = Some (remaining, ready)"
| "release (c # cs) remaining ready =
     (case map_of remaining c of
        Some (Suc n) \<Rightarrow>
          release cs (AList.update c n remaining) (if n = 0 then insort_insert c ready else ready)
      | _ \<Rightarrow> None)"

definition children_of :: "(model_id \<rightharpoonup> model_id list) \<Rightarrow> model_id \<Rightarrow> model_id list" where
  "children_of kids i = (case kids i of Some cs \<Rightarrow> cs | None \<Rightarrow> [])"

lemma update_sum:
  "map_of rem c = Some (Suc n) \<Longrightarrow>
     Suc (sum_list (map snd (AList.update c n rem))) = sum_list (map snd rem)"
  by (induction rem) (auto split: if_splits)

lemma release_measure:
  "release cs rem ready = Some (rem', ready') \<Longrightarrow>
     sum_list (map snd rem') + length ready' \<le> sum_list (map snd rem) + length ready"
proof (induction cs rem ready rule: release.induct)
  case (2 c cs rem ready)
  then obtain n where n: "map_of rem c = Some (Suc n)"
    by (auto split: option.splits nat.splits)
  have "length (if n = 0 then insort_insert c ready else ready) \<le> Suc (length ready)"
    by (simp add: insort_insert_key_def)
  with 2 n update_sum [OF n] show ?case by force
qed simp

text \<open>
  The loop pops the least ready model; it ends because every model made ready has used up one of the
  remaining counts.
\<close>

function kahn ::
    "(model_id \<rightharpoonup> model_id list) \<Rightarrow> (model_id \<times> nat) list \<Rightarrow> model_id list \<Rightarrow> model_id list
       \<Rightarrow> model_id list option" where
  "kahn kids remaining [] order = Some order"
| "kahn kids remaining (i # ready) order =
     (case release (children_of kids i) remaining ready of
        None \<Rightarrow> None
      | Some (remaining', ready') \<Rightarrow> kahn kids remaining' ready' (order @ [i]))"
  by pat_completeness auto
termination
  by (relation "measure (\<lambda>(_, rem, ready, _). sum_list (map snd rem) + length ready)")
    (auto dest: release_measure)

definition kahn_order :: "transform_graph \<Rightarrow> model_id list option" where
  "kahn_order g =
     (let (remaining, kids) = model_edges g;
          ready = map fst (filter (\<lambda>p. snd p = 0) remaining)
      in kahn kids remaining ready [])"

definition topological_order :: "transform_graph \<Rightarrow> model_id list option" where
  "topological_order g =
     (case kahn_order g of
        None \<Rightarrow> None
      | Some order \<Rightarrow> if length order = length (fst (model_edges g)) then Some order else None)"

section \<open>Finding a cycle\<close>

text \<open>
  Depth-first search with the three colours. The recursion of \<open>visit\<close> nests through the loop over
  dependencies; \<open>n\<close> bounds its depth, and \<open>Suc\<close> of the number of models is enough because each
  nested call colours one more model grey (\<open>visit_visits\<close>). \<open>None\<close> is running out of that bound or
  not finding a grey model on the stack, neither of which happens.
\<close>

datatype color = White | Grey | Black

definition color_of :: "(model_id \<rightharpoonup> color) \<Rightarrow> model_id \<Rightarrow> color" where
  "color_of colors i = (case colors i of Some c \<Rightarrow> c | None \<Rightarrow> White)"

definition stack_cycle :: "model_id \<Rightarrow> model_id list \<Rightarrow> model_id list option" where
  "stack_cycle d stack =
     (if d \<in> set stack then Some (dropWhile (\<lambda>c. c \<noteq> d) stack @ [d]) else None)"

type_synonym dfs_result = "(model_id list option \<times> (model_id \<rightharpoonup> color) \<times> model_id list) option"

fun visit ::
    "transform_graph \<Rightarrow> nat \<Rightarrow> model_id \<Rightarrow> (model_id \<rightharpoonup> color) \<Rightarrow> model_id list \<Rightarrow> dfs_result"
  and visit_deps ::
    "transform_graph \<Rightarrow> nat \<Rightarrow> model_id \<Rightarrow> model_id list \<Rightarrow> (model_id \<rightharpoonup> color) \<Rightarrow> model_id list
       \<Rightarrow> dfs_result"
where
  "visit g 0 node colors stack = None"
| "visit g (Suc n) node colors stack =
     visit_deps g n node (dep_models (dependencies g node)) (colors(node \<mapsto> Grey)) (stack @ [node])"
| "visit_deps g n node [] colors stack =
     Some (None, colors(node \<mapsto> Black), butlast stack)"
| "visit_deps g n node (d # ds) colors stack =
     (case color_of colors d of
        Grey \<Rightarrow>
          (case stack_cycle d stack of
             Some c \<Rightarrow> Some (Some c, colors, stack)
           | None \<Rightarrow> None)
      | White \<Rightarrow>
          (case visit g n d colors stack of
             None \<Rightarrow> None
           | Some (Some c, colors', stack') \<Rightarrow> Some (Some c, colors', stack')
           | Some (None, colors', stack') \<Rightarrow> visit_deps g n node ds colors' stack')
      | Black \<Rightarrow> visit_deps g n node ds colors stack)"

fun cycle_from ::
    "transform_graph \<Rightarrow> model_id list \<Rightarrow> (model_id \<rightharpoonup> color) \<Rightarrow> model_id list
       \<Rightarrow> model_id list option option" where
  "cycle_from g [] colors stack = Some None"
| "cycle_from g (i # is) colors stack =
     (if color_of colors i = White then
        (case visit g (Suc (length (graph_model_ids g))) i colors stack of
           None \<Rightarrow> None
         | Some (Some c, _) \<Rightarrow> Some (Some c)
         | Some (None, colors', stack') \<Rightarrow> cycle_from g is colors' stack')
      else cycle_from g is colors stack)"

definition cycle_run :: "transform_graph \<Rightarrow> model_id list option option" where
  "cycle_run g = cycle_from g (graph_model_ids g) Map.empty []"

definition graph_cycle :: "transform_graph \<Rightarrow> model_id list option" where
  "graph_cycle g = (case cycle_run g of Some found \<Rightarrow> found | None \<Rightarrow> None)"

section \<open>Well-formed graphs\<close>

definition wf_graph :: "transform_graph \<Rightarrow> bool" where
  "wf_graph g \<longleftrightarrow>
     sorted (tg_nodes g) \<and> distinct (tg_nodes g) \<and> distinct (tg_edges g) \<and>
     list_all (\<lambda>(f, t). f \<in> set (tg_nodes g) \<and> t \<in> set (tg_nodes g) \<and>
       (case f of NodeModel _ \<Rightarrow> True | NodeSource _ \<Rightarrow> False)) (tg_edges g)"

text \<open>The models a model depends on directly.\<close>

definition model_deps :: "transform_graph \<Rightarrow> model_id \<Rightarrow> model_id set" where
  "model_deps g i = set (dep_models (dependencies g i))"

lemma set_node_models [simp]: "set (node_models ns) = {i. NodeModel i \<in> set ns}"
  by (induction ns rule: node_models.induct) auto

lemma set_node_sources [simp]: "set (node_sources ns) = {i. NodeSource i \<in> set ns}"
  by (induction ns rule: node_sources.induct) auto

lemma distinct_node_models: "distinct ns \<Longrightarrow> distinct (node_models ns)"
  by (induction ns rule: node_models.induct) auto

lemma sorted_node_models: "sorted ns \<Longrightarrow> sorted (node_models ns)"
  by (induction ns rule: node_models.induct) (auto simp: less_eq_graph_node_def)

lemma distinct_dep_models: "distinct ds \<Longrightarrow> distinct (dep_models ds)"
  by (induction ds rule: dep_models.induct) auto

lemma wf_ids:
  assumes "wf_graph g"
  shows "distinct (graph_model_ids g)" "sorted (graph_model_ids g)"
  using assms by (simp_all add: wf_graph_def graph_model_ids_def distinct_node_models sorted_node_models)

lemma set_graph_model_ids: "i \<in> set (graph_model_ids g) \<longleftrightarrow> NodeModel i \<in> set (tg_nodes g)"
  by (simp add: graph_model_ids_def)

lemma dependencies_iff:
  assumes "wf_graph g"
  shows "d \<in> set (dependencies g i) \<longleftrightarrow> (NodeModel i, dependency_node d) \<in> set (tg_edges g)"
  using assms by (force simp: dependencies_def wf_graph_def list_all_iff image_iff)

lemma distinct_dependencies:
  assumes "wf_graph g"
  shows "distinct (dependencies g i)"
proof -
  have "inj_on (\<lambda>e. node_dependency (snd e)) {e \<in> set (tg_edges g). fst e = NodeModel i}"
    by (auto simp: inj_on_def node_dependency_inj)
  with assms show ?thesis
    by (simp add: dependencies_def wf_graph_def distinct_map)
qed

lemma dependents_iff:
  assumes "wf_graph g"
  shows "j \<in> set (dependents g i) \<longleftrightarrow> (NodeModel j, NodeModel i) \<in> set (tg_edges g)"
  using assms by (force simp: dependents_def wf_graph_def list_all_iff image_iff)

lemma model_deps_iff:
  assumes "wf_graph g"
  shows "d \<in> model_deps g i \<longleftrightarrow> (NodeModel i, NodeModel d) \<in> set (tg_edges g)"
  by (simp add: model_deps_def dependencies_iff [OF assms])

lemma model_deps_ids:
  assumes "wf_graph g" "d \<in> model_deps g i"
  shows "d \<in> set (graph_model_ids g)" "i \<in> set (graph_model_ids g)"
  using assms by (auto simp: model_deps_iff wf_graph_def list_all_iff set_graph_model_ids)

lemma dependents_deps: "wf_graph g \<Longrightarrow> j \<in> set (dependents g i) \<longleftrightarrow> i \<in> model_deps g j"
  by (simp add: dependents_iff model_deps_iff)

section \<open>The edge tables\<close>

lemma fold_bump:
  "fold (\<lambda>p. bump (fst p)) ps xs =
     map (\<lambda>(j, n). (j, n + length (filter (\<lambda>p. fst p = j) ps))) xs"
proof (induction ps arbitrary: xs)
  case Nil
  then show ?case by (simp add: case_prod_beta)
next
  case (Cons p ps)
  then show ?case by (auto simp: bump_def)
qed

lemma filter_pairs_fst:
  "distinct is \<Longrightarrow> filter (\<lambda>p. fst p = j) (concat (map (\<lambda>i. map (Pair i) (F i)) is)) =
     (if j \<in> set is then map (Pair j) (F j) else [])"
proof (induction "is")
  case Nil
  then show ?case by simp
next
  case (Cons i "is")
  have "filter (\<lambda>p. fst p = j) (map (Pair i) (F i)) = (if i = j then map (Pair j) (F j) else [])"
    by (auto simp: filter_map comp_def)
  with Cons show ?case by auto
qed

lemma set_pairs: "(i, d) \<in> set (concat (map (\<lambda>i. map (Pair i) (F i)) is)) \<longleftrightarrow> i \<in> set is \<and> d \<in> set (F i)"
  by auto

lemma distinct_pairs:
  "distinct is \<Longrightarrow> (\<And>i. distinct (F i)) \<Longrightarrow> distinct (concat (map (\<lambda>i. map (Pair i) (F i)) is))"
  by (induction "is") (auto simp: distinct_map inj_on_def)

lemma remaining_table:
  assumes "wf_graph g"
  shows "fst (model_edges g) =
    map (\<lambda>i. (i, card (model_deps g i))) (graph_model_ids g)"
proof -
  have "length (filter (\<lambda>p. fst p = j) (edge_pairs g)) = card (model_deps g j)"
    if "j \<in> set (graph_model_ids g)" for j
    using that wf_ids(1) [OF assms] distinct_dependencies [OF assms, of j]
    by (simp add: edge_pairs_def filter_pairs_fst model_deps_def distinct_card distinct_dep_models
        del: set_dep_models)
  then show ?thesis by (simp add: model_edges_def fold_bump)
qed

lemma children_table:
  assumes "wf_graph g"
  shows "set (children_of (snd (model_edges g)) d) = {i. d \<in> model_deps g i} \<and>
    distinct (children_of (snd (model_edges g)) d)"
proof -
  let ?ps = "filter (\<lambda>p. snd p = d) (edge_pairs g)"
  have ps: "children_of (snd (model_edges g)) d = sort (map fst ?ps)"
    using hm.get_fold_push [where m = Map.empty and key = snd and val = fst and xs = "edge_pairs g" and k = d]
    by (simp add: children_of_def model_edges_def split: list.split option.split)
  have "set (map fst ?ps) = {i. d \<in> model_deps g i}"
    using model_deps_ids(2) [OF assms]
    by (force simp: edge_pairs_def model_deps_def image_iff)
  moreover have "distinct (map fst ?ps)"
    using distinct_pairs [OF wf_ids(1) [OF assms], of "\<lambda>i. dep_models (dependencies g i)"]
      distinct_dep_models [OF distinct_dependencies [OF assms]]
    by (auto simp: distinct_map edge_pairs_def inj_on_def)
  ultimately show ?thesis by (simp add: ps)
qed

section \<open>Kahn's loop\<close>

lemma release_spec:
  assumes "distinct cs" "\<And>c. c \<in> set cs \<Longrightarrow> \<exists>n. map_of rem c = Some (Suc n)"
    and "sorted ready" "distinct ready"
  shows "\<exists>rem' ready'. release cs rem ready = Some (rem', ready') \<and>
    (\<forall>i. map_of rem' i =
       (if i \<in> set cs then map_option (\<lambda>n. n - 1) (map_of rem i) else map_of rem i)) \<and>
    set ready' = set ready \<union> {c \<in> set cs. map_of rem c = Some 1} \<and>
    sorted ready' \<and> distinct ready'"
  using assms
proof (induction cs arbitrary: rem ready)
  case Nil
  then show ?case by simp
next
  case (Cons c cs)
  from Cons.prems(2) [of c] obtain n where n: "map_of rem c = Some (Suc n)" by auto
  let ?rem = "AList.update c n rem"
  let ?ready = "if n = 0 then insort_insert c ready else ready"
  have upd: "map_of ?rem = (map_of rem)(c \<mapsto> n)"
    by (rule update_conv')
  have "\<exists>rem' ready'. release cs ?rem ?ready = Some (rem', ready') \<and>
      (\<forall>i. map_of rem' i =
         (if i \<in> set cs then map_option (\<lambda>n. n - 1) (map_of ?rem i) else map_of ?rem i)) \<and>
      set ready' = set ?ready \<union> {c \<in> set cs. map_of ?rem c = Some 1} \<and>
      sorted ready' \<and> distinct ready'"
  proof (rule Cons.IH)
    show "distinct cs" using Cons.prems by simp
    show "\<exists>n. map_of ?rem d = Some (Suc n)" if "d \<in> set cs" for d
      using that Cons.prems(1) Cons.prems(2) [of d] by (auto simp: upd)
    show "sorted ?ready" "distinct ?ready"
      using Cons.prems(3,4) by (simp_all add: sorted_insort_insert distinct_insort_insert)
  qed
  then obtain rem' ready' where r: "release cs ?rem ?ready = Some (rem', ready')"
    "\<And>i. map_of rem' i =
       (if i \<in> set cs then map_option (\<lambda>n. n - 1) (map_of ?rem i) else map_of ?rem i)"
    "set ready' = set ?ready \<union> {c \<in> set cs. map_of ?rem c = Some 1}" "sorted ready'" "distinct ready'"
    by blast
  have "map_of rem' i = (if i \<in> set (c # cs) then map_option (\<lambda>n. n - 1) (map_of rem i) else map_of rem i)" for i
    using r(2) [of i] Cons.prems(1) n by (auto simp: upd)
  moreover have "set ready' = set ready \<union> {d \<in> set (c # cs). map_of rem d = Some 1}"
    using r(3) Cons.prems(1) n by (auto simp: upd set_insort_insert)
  ultimately show ?case using r n by simp
qed

text \<open>The models that may come next, and orders that always take the least of them.\<close>

definition ready_after :: "transform_graph \<Rightarrow> model_id set \<Rightarrow> model_id set" where
  "ready_after g done =
     {i \<in> set (graph_model_ids g). i \<notin> done \<and> model_deps g i \<subseteq> done}"

definition least_first :: "transform_graph \<Rightarrow> model_id list \<Rightarrow> bool" where
  "least_first g order \<longleftrightarrow>
     (\<forall>k < length order. order ! k \<in> ready_after g (set (take k order)) \<and>
        (\<forall>j \<in> ready_after g (set (take k order)). order ! k \<le> j))"

definition kahn_inv ::
    "transform_graph \<Rightarrow> (model_id \<times> nat) list \<Rightarrow> model_id list \<Rightarrow> model_id list \<Rightarrow> bool" where
  "kahn_inv g rem ready order \<longleftrightarrow>
     sorted ready \<and> distinct ready \<and> set ready = ready_after g (set order) \<and>
     (\<forall>i. map_of rem i =
        (if i \<in> set (graph_model_ids g) then Some (card (model_deps g i - set order)) else None)) \<and>
     least_first g order"

lemma least_first_snoc:
  "least_first g (order @ [i]) \<longleftrightarrow>
     least_first g order \<and> i \<in> ready_after g (set order) \<and> (\<forall>j \<in> ready_after g (set order). i \<le> j)"
proof -
  have eq: "(\<forall>k < length (order @ [i]). P k) \<longleftrightarrow> (\<forall>k < length order. P k) \<and> P (length order)"
    for P by (auto simp: less_Suc_eq)
  show ?thesis
    unfolding least_first_def eq by (simp add: nth_append)
qed

lemma finite_model_deps [simp]: "finite (model_deps g i)"
  by (simp add: model_deps_def del: set_dep_models)

lemma card_one_released:
  assumes "d \<in> model_deps g i" "d \<notin> S"
  shows "card (model_deps g i - S) = 1 \<longleftrightarrow> model_deps g i \<subseteq> insert d S"
proof
  assume "card (model_deps g i - S) = 1"
  then obtain x where x: "model_deps g i - S = {x}" by (auto simp: card_1_singleton_iff)
  with assms have "d \<in> {x}" by blast
  with x show "model_deps g i \<subseteq> insert d S" by blast
next
  assume "model_deps g i \<subseteq> insert d S"
  with assms have "model_deps g i - S = {d}" by auto
  then show "card (model_deps g i - S) = 1" by simp
qed

lemma kahn_step:
  assumes wf: "wf_graph g" and inv: "kahn_inv g rem (i # ready) order"
  shows "\<exists>rem' ready'. release (children_of (snd (model_edges g)) i) rem ready = Some (rem', ready') \<and>
    kahn_inv g rem' ready' (order @ [i])"
proof -
  let ?cs = "children_of (snd (model_edges g)) i"
  have cs: "set ?cs = {j. i \<in> model_deps g j}" "distinct ?cs"
    using children_table [OF wf] by auto
  have s: "sorted ready" "distinct ready" "i \<notin> set ready" "\<forall>j \<in> set ready. i \<le> j"
    and rdy: "insert i (set ready) = ready_after g (set order)"
    and tab: "\<And>j. map_of rem j =
        (if j \<in> set (graph_model_ids g) then Some (card (model_deps g j - set order)) else None)"
    and lf: "least_first g order"
    using inv by (auto simp: kahn_inv_def)
  have i: "i \<notin> set order" "i \<in> set (graph_model_ids g)" "model_deps g i \<subseteq> set order"
    using rdy by (auto simp: ready_after_def)
  have cnt: "card (model_deps g j - set order) = Suc (card (model_deps g j - set (order @ [i])))"
    if "j \<in> set ?cs" for j
  proof -
    have "model_deps g j - set order = insert i (model_deps g j - set (order @ [i]))"
      using that cs(1) i(1) by auto
    then show ?thesis by (metis Diff_iff card_insert_disjoint finite_Diff finite_model_deps
          in_set_conv_decomp)
  qed
  have "\<exists>rem' ready'. release ?cs rem ready = Some (rem', ready') \<and>
    (\<forall>j. map_of rem' j =
       (if j \<in> set ?cs then map_option (\<lambda>n. n - 1) (map_of rem j) else map_of rem j)) \<and>
    set ready' = set ready \<union> {c \<in> set ?cs. map_of rem c = Some 1} \<and>
    sorted ready' \<and> distinct ready'"
  proof (rule release_spec)
    show "\<exists>n. map_of rem c = Some (Suc n)" if "c \<in> set ?cs" for c
      using cnt [OF that] tab [of c] model_deps_ids(2) [OF wf] that cs(1) by auto
  qed (use cs s in auto)
  then obtain rem' ready' where r: "release ?cs rem ready = Some (rem', ready')"
    "\<And>j. map_of rem' j =
       (if j \<in> set ?cs then map_option (\<lambda>n. n - 1) (map_of rem j) else map_of rem j)"
    "set ready' = set ready \<union> {c \<in> set ?cs. map_of rem c = Some 1}" "sorted ready'" "distinct ready'"
    by blast
  have "map_of rem' j =
      (if j \<in> set (graph_model_ids g) then Some (card (model_deps g j - set (order @ [i]))) else None)" for j
  proof (cases "j \<in> set ?cs")
    case True
    with r(2) [of j] tab [of j] cnt [of j] model_deps_ids(2) [OF wf] cs(1) show ?thesis by auto
  next
    case False
    with cs(1) have "model_deps g j - set (order @ [i]) = model_deps g j - set order" by auto
    with False r(2) [of j] tab [of j] show ?thesis by simp
  qed
  moreover have "set ready' = ready_after g (set (order @ [i]))"
  proof (intro set_eqI iffI)
    fix j assume "j \<in> set ready'"
    then consider "j \<in> set ready" | "j \<in> set ?cs" "map_of rem j = Some 1" using r(3) by auto
    then show "j \<in> ready_after g (set (order @ [i]))"
    proof cases
      case 1
      then have "j \<in> ready_after g (set order)" using rdy by auto
      with 1 s(3) show ?thesis by (auto simp: ready_after_def)
    next
      case 2
      then have c: "card (model_deps g j - set order) = 1" "j \<in> set (graph_model_ids g)"
        using tab [of j] by (auto split: if_splits)
      have "i \<in> model_deps g j" using 2 cs(1) by simp
      then have sub: "model_deps g j \<subseteq> insert i (set order)"
        using card_one_released [of i g j "set order"] c i(1) by simp
      moreover have "j \<notin> set order"
      proof
        assume "j \<in> set order"
        then obtain k where "k < length order" "j = order ! k" by (auto simp: in_set_conv_nth)
        then have "model_deps g j \<subseteq> set (take k order)"
          using lf by (auto simp: least_first_def ready_after_def)
        with \<open>i \<in> model_deps g j\<close> i(1) show False by (auto dest: in_set_takeD)
      qed
      moreover have "j \<noteq> i" using \<open>i \<in> model_deps g j\<close> i by auto
      ultimately show ?thesis using c(2) by (auto simp: ready_after_def)
    qed
  next
    fix j assume j: "j \<in> ready_after g (set (order @ [i]))"
    show "j \<in> set ready'"
    proof (cases "i \<in> model_deps g j")
      case True
      with j have "card (model_deps g j - set order) = 1"
        using card_one_released [of i g j "set order"] i(1) by (auto simp: ready_after_def)
      with True j show ?thesis
        using r(3) cs(1) tab [of j] by (auto simp: ready_after_def)
    next
      case False
      with j have "j \<in> ready_after g (set order)" "j \<noteq> i" by (auto simp: ready_after_def)
      with rdy r(3) show ?thesis by auto
    qed
  qed
  moreover have "least_first g (order @ [i])"
    using lf rdy s(4) by (force simp: least_first_snoc)
  ultimately show ?thesis using r by (simp add: kahn_inv_def)
qed

lemma kahn_result:
  "wf_graph g \<Longrightarrow> kids = snd (model_edges g) \<Longrightarrow> kahn_inv g rem ready order \<Longrightarrow>
     \<exists>out. kahn kids rem ready order = Some out \<and> least_first g out \<and> ready_after g (set out) = {}"
proof (induction kids rem ready order rule: kahn.induct)
  case (1 kids rem order)
  then show ?case by (simp add: kahn_inv_def)
next
  case (2 kids rem i ready order)
  from kahn_step [OF "2.prems"(1) "2.prems"(3)] "2.prems"(2)
  obtain rem' ready' where r: "release (children_of kids i) rem ready = Some (rem', ready')"
    and inv: "kahn_inv g rem' ready' (order @ [i])" by auto
  from "2.IH" [OF r refl "2.prems"(1,2) inv] r show ?case by simp
qed

lemma map_of_map_Pair: "map_of (map (\<lambda>i. (i, f i)) xs) i = (if i \<in> set xs then Some (f i) else None)"
  by (induction xs) auto

lemma kahn_start:
  assumes "wf_graph g"
  shows "kahn_inv g (fst (model_edges g))
    (map fst (filter (\<lambda>p. snd p = 0) (fst (model_edges g)))) []"
proof -
  have f: "map fst (filter (\<lambda>p. snd p = 0) (fst (model_edges g))) =
      filter (\<lambda>i. model_deps g i = {}) (graph_model_ids g)"
    by (simp add: remaining_table [OF assms] filter_map comp_def)
  have "map_of (fst (model_edges g)) i =
      (if i \<in> set (graph_model_ids g) then Some (card (model_deps g i)) else None)" for i
    by (simp add: remaining_table [OF assms] map_of_map_Pair)
  then show ?thesis
    using wf_ids [OF assms]
    by (auto simp: kahn_inv_def f ready_after_def least_first_def sorted_wrt_filter)
qed

text \<open>What a least-first order is: no repetition, every dependency earlier, and only one of a length.\<close>

lemma least_first_ready:
  "least_first g order \<Longrightarrow> k < length order \<Longrightarrow> order ! k \<in> ready_after g (set (take k order))"
  by (simp add: least_first_def)

lemma least_first_distinct:
  assumes "least_first g order"
  shows "distinct order"
  unfolding distinct_conv_nth
proof (intro allI impI)
  fix a b assume ab: "a < length order" "b < length order" "a \<noteq> b"
  have "order ! x \<noteq> order ! y" if "x < y" "y < length order" for x y
  proof
    assume "order ! x = order ! y"
    moreover have "order ! x \<in> set (take y order)"
      using that by (auto simp: in_set_conv_nth intro!: exI [of _ x])
    ultimately show False
      using least_first_ready [OF assms that(2)] by (simp add: ready_after_def)
  qed
  with ab show "order ! a \<noteq> order ! b" by (metis linorder_neqE_nat)
qed

lemma least_first_ids: "least_first g order \<Longrightarrow> set order \<subseteq> set (graph_model_ids g)"
  using least_first_ready by (fastforce simp: in_set_conv_nth ready_after_def)

lemma least_first_deps:
  assumes "least_first g order" "k < length order" "d \<in> model_deps g (order ! k)"
  shows "\<exists>j < k. order ! j = d"
proof -
  have "d \<in> set (take k order)"
    using least_first_ready [OF assms(1,2)] assms(3) by (auto simp: ready_after_def)
  with assms(2) show ?thesis by (auto simp: in_set_conv_nth)
qed

lemma least_first_unique:
  assumes "least_first g a" "least_first g b" "length a = length b"
  shows "a = b"
proof (rule nth_equalityI)
  fix k assume "k < length a"
  then show "a ! k = b ! k"
  proof (induction k rule: less_induct)
    case (less k)
    have "take k a = take k b"
      using less assms(3) by (auto intro!: nth_equalityI)
    then show ?case
      using assms less.prems by (auto simp: least_first_def intro!: antisym)
  qed
qed (rule assms(3))

definition dep_rel :: "transform_graph \<Rightarrow> (model_id \<times> model_id) set" where
  "dep_rel g = {(d, i). d \<in> model_deps g i}"

lemma least_first_acyclic:
  assumes "wf_graph g" "least_first g order" "set order = set (graph_model_ids g)"
  shows "acyclic (dep_rel g)"
proof -
  define pos where "pos i = (THE k. k < length order \<and> order ! k = i)" for i
  have pos: "pos (order ! k) = k" if "k < length order" for k
    unfolding pos_def
    using that least_first_distinct [OF assms(2)] by (auto simp: nth_eq_iff_index_eq)
  have "dep_rel g \<subseteq> measure pos"
  proof
    fix e assume "e \<in> dep_rel g"
    then obtain d i where e: "e = (d, i)" "d \<in> model_deps g i" by (auto simp: dep_rel_def)
    then have "i \<in> set order" using model_deps_ids(2) [OF assms(1)] assms(3) by auto
    then obtain k where k: "k < length order" "order ! k = i" by (auto simp: in_set_conv_nth)
    with e obtain j where "j < k" "order ! j = d" using least_first_deps [OF assms(2)] by metis
    with k e pos show "e \<in> measure pos" by auto
  qed
  then show ?thesis by (metis acyclic_subset wf_acyclic wf_measure)
qed

lemma stuck_cyclic:
  assumes "wf_graph g" "ready_after g S = {}" "i \<in> set (graph_model_ids g)" "i \<notin> S"
  shows "\<not> acyclic (dep_rel g)"
proof
  let ?R = "dep_rel g"
  assume "acyclic ?R"
  have "?R \<subseteq> set (graph_model_ids g) \<times> set (graph_model_ids g)"
    using model_deps_ids [OF assms(1)] by (auto simp: dep_rel_def)
  then have "finite ?R" by (rule finite_subset) simp
  then have "wf ?R" using \<open>acyclic ?R\<close> by (rule finite_acyclic_wf)
  moreover have "i \<in> {j \<in> set (graph_model_ids g). j \<notin> S}"
    using assms(3,4) by simp
  ultimately obtain m where m: "m \<in> {j \<in> set (graph_model_ids g). j \<notin> S}"
    "\<And>y. (y, m) \<in> ?R \<Longrightarrow> y \<notin> {j \<in> set (graph_model_ids g). j \<notin> S}"
    by (rule wfE_min) auto
  then have "m \<in> ready_after g S"
    using model_deps_ids(1) [OF assms(1)] by (auto simp: ready_after_def dep_rel_def)
  with assms(2) show False by simp
qed

lemma kahn_order_result:
  assumes "wf_graph g"
  shows "\<exists>order. kahn_order g = Some order \<and> least_first g order \<and> ready_after g (set order) = {}"
  using kahn_result [OF assms refl kahn_start [OF assms]]
  by (simp add: kahn_order_def case_prod_beta Let_def)

lemma topological_order_Some:
  assumes "wf_graph g"
  shows "topological_order g = Some order \<longleftrightarrow>
    least_first g order \<and> set order = set (graph_model_ids g)"
proof -
  obtain out where out: "kahn_order g = Some out" "least_first g out" "ready_after g (set out) = {}"
    using kahn_order_result [OF assms] by blast
  have len: "length (fst (model_edges g)) = length (graph_model_ids g)"
    by (simp add: remaining_table [OF assms])
  have full: "length o1 = length (graph_model_ids g) \<longleftrightarrow> set o1 = set (graph_model_ids g)"
    if "least_first g o1" for o1
    using least_first_distinct [OF that] least_first_ids [OF that] wf_ids(1) [OF assms]
    by (metis card_subset_eq distinct_card finite_set)
  have all: "set out = set (graph_model_ids g)"
    if "least_first g order" "set order = set (graph_model_ids g)"
    using least_first_acyclic [OF assms that] stuck_cyclic [OF assms out(3)]
      least_first_ids [OF out(2)] by blast
  show ?thesis
  proof
    assume "topological_order g = Some order"
    then show "least_first g order \<and> set order = set (graph_model_ids g)"
      using out(1,2) len full [OF out(2)] by (simp add: topological_order_def split: if_splits)
  next
    assume o: "least_first g order \<and> set order = set (graph_model_ids g)"
    then have "length out = length order" using all full [OF out(2)] full [of order] by simp
    then have "out = order" using o out(2) least_first_unique by blast
    then show "topological_order g = Some order"
      using o out(1) len full [of order] by (simp add: topological_order_def)
  qed
qed

lemma topological_order_None:
  assumes "wf_graph g"
  shows "topological_order g = None \<longleftrightarrow> \<not> acyclic (dep_rel g)"
proof
  assume none: "topological_order g = None"
  obtain out where out: "kahn_order g = Some out" "least_first g out" "ready_after g (set out) = {}"
    using kahn_order_result [OF assms] by blast
  then have "set out \<noteq> set (graph_model_ids g)"
    using none topological_order_Some [OF assms, of out] by auto
  then obtain i where "i \<in> set (graph_model_ids g)" "i \<notin> set out"
    using least_first_ids [OF out(2)] by auto
  then show "\<not> acyclic (dep_rel g)" using stuck_cyclic [OF assms out(3)] by blast
next
  assume "\<not> acyclic (dep_rel g)"
  then show "topological_order g = None"
    using topological_order_Some [OF assms] least_first_acyclic [OF assms]
    by (cases "topological_order g") auto
qed

section \<open>Building\<close>

lemma ensure_nodes:
  "tg_edges (fold (\<lambda>x. ensure_node (N x)) xs g) = tg_edges g \<and>
   set (tg_nodes (fold (\<lambda>x. ensure_node (N x)) xs g)) = set (tg_nodes g) \<union> N ` set xs \<and>
   (sorted (tg_nodes g) \<longrightarrow> sorted (tg_nodes (fold (\<lambda>x. ensure_node (N x)) xs g))) \<and>
   (distinct (tg_nodes g) \<longrightarrow> distinct (tg_nodes (fold (\<lambda>x. ensure_node (N x)) xs g)))"
proof (induction xs arbitrary: g)
  case Nil
  then show ?case by simp
next
  case (Cons x xs)
  show ?case
    using Cons [of "ensure_node (N x) g"]
    by (simp add: ensure_node_def set_insort_insert sorted_insort_insert distinct_insort_insert)
qed

lemma add_edge_wf:
  "wf_graph g \<Longrightarrow> NodeModel i \<in> set (tg_nodes g) \<Longrightarrow> t \<in> set (tg_nodes g) \<Longrightarrow>
     wf_graph (add_edge (NodeModel i) t g)"
  by (auto simp: add_edge_def wf_graph_def list_all_iff)

lemma add_edge_simps [simp]:
  "tg_nodes (add_edge f t g) = tg_nodes g"
  "set (tg_edges (add_edge f t g)) = insert (f, t) (set (tg_edges g))"
  by (auto simp: add_edge_def)

lemma add_dependencies_Some:
  "wf_graph g \<Longrightarrow> add_dependencies i ds g = Some g' \<Longrightarrow>
     wf_graph g' \<and> tg_nodes g' = tg_nodes g \<and>
     set (tg_edges g') = set (tg_edges g) \<union> (\<lambda>d. (NodeModel i, dependency_node d)) ` set ds"
  by (induction i ds g rule: add_dependencies.induct) (auto simp: add_edge_wf split: if_splits)

lemma add_edges_Some:
  "wf_graph g \<Longrightarrow> add_edges ms g = Some g' \<Longrightarrow>
     wf_graph g' \<and> tg_nodes g' = tg_nodes g \<and>
     set (tg_edges g') = set (tg_edges g) \<union>
       {(NodeModel (cm_id m), dependency_node d) | m d. m \<in> set ms \<and> d \<in> set (cm_dependencies m)}"
proof (induction ms g rule: add_edges.induct)
  case (1 g)
  then show ?case by simp
next
  case (2 m ms g)
  from "2.prems"(2) obtain g1 where g1: "add_dependencies (cm_id m) (cm_dependencies m) g = Some g1"
    and g': "add_edges ms g1 = Some g'" by (auto split: option.splits)
  from add_dependencies_Some [OF "2.prems"(1) g1] have "wf_graph g1" by simp
  from "2.IH" [OF g1 this g'] add_dependencies_Some [OF "2.prems"(1) g1] show ?case by auto
qed

lemma add_dependencies_total:
  "NodeModel i \<in> set (tg_nodes g) \<Longrightarrow> \<forall>d \<in> set ds. dependency_node d \<in> set (tg_nodes g) \<Longrightarrow>
     add_dependencies i ds g \<noteq> None"
  by (induction i ds g rule: add_dependencies.induct) auto

lemma add_edges_total:
  "wf_graph g \<Longrightarrow> \<forall>m \<in> set ms. NodeModel (cm_id m) \<in> set (tg_nodes g) \<and>
       (\<forall>d \<in> set (cm_dependencies m). dependency_node d \<in> set (tg_nodes g)) \<Longrightarrow>
     add_edges ms g \<noteq> None"
proof (induction ms g rule: add_edges.induct)
  case (1 g)
  then show ?case by simp
next
  case (2 m ms g)
  then obtain g1 where g1: "add_dependencies (cm_id m) (cm_dependencies m) g = Some g1"
    using add_dependencies_total [of "cm_id m" g "cm_dependencies m"] by auto
  from add_dependencies_Some [OF "2.prems"(1) g1] 2 g1 show ?case by simp
qed

definition build_nodes :: "compiled_model list \<Rightarrow> transform_graph" where
  "build_nodes models =
     fold (\<lambda>s. ensure_node (NodeSource s)) (btree_set (concat (map source_dependencies models)))
       (fold (\<lambda>m. ensure_node (NodeModel (cm_id m))) models empty_graph)"

lemma build_nodes:
  "wf_graph (build_nodes ms)"
  "tg_edges (build_nodes ms) = []"
  "NodeModel i \<in> set (tg_nodes (build_nodes ms)) \<longleftrightarrow> i \<in> cm_id ` set ms"
  "NodeSource s \<in> set (tg_nodes (build_nodes ms)) \<longleftrightarrow>
     (\<exists>m \<in> set ms. DepSource s \<in> set (cm_dependencies m))"
  unfolding build_nodes_def
  using ensure_nodes [of "\<lambda>m. NodeModel (cm_id m)" ms empty_graph]
    ensure_nodes [of NodeSource "btree_set (concat (map source_dependencies ms))"
      "fold (\<lambda>m. ensure_node (NodeModel (cm_id m))) ms empty_graph"]
  by (auto simp: wf_graph_def empty_graph_def source_dependencies_def)

lemma graph_build_nodes: "graph_build ms = add_edges ms (build_nodes ms)"
  by (simp add: graph_build_def build_nodes_def Let_def)

lemma graph_build_Some:
  assumes "graph_build ms = Some g"
  shows "wf_graph g"
    and "set (graph_model_ids g) = cm_id ` set ms"
    and "d \<in> set (dependencies g i) \<longleftrightarrow> (\<exists>m \<in> set ms. cm_id m = i \<and> d \<in> set (cm_dependencies m))"
proof -
  note s = add_edges_Some [OF build_nodes(1) assms [unfolded graph_build_nodes]]
  then show "wf_graph g" by simp
  show "set (graph_model_ids g) = cm_id ` set ms"
    using s by (auto simp: set_graph_model_ids build_nodes)
  have "inj dependency_node" by (rule injI) (metis node_dependency_inverse(1))
  then show "d \<in> set (dependencies g i) \<longleftrightarrow> (\<exists>m \<in> set ms. cm_id m = i \<and> d \<in> set (cm_dependencies m))"
    using s by (auto simp: dependencies_iff build_nodes dest: injD)
qed

lemma graph_build_total:
  "graph_build ms \<noteq> None \<longleftrightarrow> (\<forall>m \<in> set ms. set (model_dependencies m) \<subseteq> cm_id ` set ms)"
proof
  assume "graph_build ms \<noteq> None"
  then obtain g where g: "graph_build ms = Some g" by auto
  show "\<forall>m \<in> set ms. set (model_dependencies m) \<subseteq> cm_id ` set ms"
    using graph_build_Some(3) [OF g] model_deps_ids(1) [OF graph_build_Some(1) [OF g]]
      graph_build_Some(2) [OF g]
    by (fastforce simp: model_dependencies_def model_deps_def)
next
  assume a: "\<forall>m \<in> set ms. set (model_dependencies m) \<subseteq> cm_id ` set ms"
  have "dependency_node d \<in> set (tg_nodes (build_nodes ms))"
    if "m \<in> set ms" "d \<in> set (cm_dependencies m)" for m d
    using a that by (cases d) (auto simp: build_nodes model_dependencies_def)
  then show "graph_build ms \<noteq> None"
    unfolding graph_build_nodes by (intro add_edges_total) (auto simp: build_nodes)
qed

section \<open>The cycle search\<close>

definition black :: "(model_id \<rightharpoonup> color) \<Rightarrow> model_id set" where
  "black colors = {i. colors i = Some Black}"

definition grey :: "(model_id \<rightharpoonup> color) \<Rightarrow> model_id set" where
  "grey colors = {i. colors i = Some Grey}"

definition white :: "transform_graph \<Rightarrow> (model_id \<rightharpoonup> color) \<Rightarrow> model_id set" where
  "white g colors = set (graph_model_ids g) - black colors - grey colors"

definition chain :: "transform_graph \<Rightarrow> model_id list \<Rightarrow> bool" where
  "chain g p \<longleftrightarrow> (\<forall>k. Suc k < length p \<longrightarrow> p ! Suc k \<in> model_deps g (p ! k))"

text \<open>A path along dependencies that returns to where it started and repeats nothing before.\<close>

definition real_cycle :: "transform_graph \<Rightarrow> model_id list \<Rightarrow> bool" where
  "real_cycle g p \<longleftrightarrow> 2 \<le> length p \<and> hd p = last p \<and> distinct (butlast p) \<and> chain g p"

definition dfs_inv :: "transform_graph \<Rightarrow> (model_id \<rightharpoonup> color) \<Rightarrow> model_id list \<Rightarrow> bool" where
  "dfs_inv g colors stack \<longleftrightarrow>
     grey colors = set stack \<and> distinct stack \<and> chain g stack \<and>
     black colors \<subseteq> set (graph_model_ids g) \<and>
     (\<forall>b \<in> black colors. model_deps g b \<subseteq> black colors) \<and>
     acyclic (dep_rel g \<inter> (UNIV \<times> black colors))"

definition dfs_post ::
    "transform_graph \<Rightarrow> (model_id \<rightharpoonup> color) \<Rightarrow> model_id list \<Rightarrow> model_id \<Rightarrow> dfs_result \<Rightarrow> bool" where
  "dfs_post g colors stack node res =
     (case res of
        None \<Rightarrow> False
      | Some (Some c, _) \<Rightarrow> real_cycle g c
      | Some (None, colors', stack') \<Rightarrow>
          stack' = stack \<and> dfs_inv g colors' stack \<and> node \<in> black colors' \<and>
          black colors \<subseteq> black colors')"

lemma chain_snoc: "chain g (p @ [x]) \<longleftrightarrow> chain g p \<and> (p \<noteq> [] \<longrightarrow> x \<in> model_deps g (last p))"
proof -
  have "(\<forall>k. Suc k < length (p @ [x]) \<longrightarrow> P k) \<longleftrightarrow>
      (\<forall>k. Suc k < length p \<longrightarrow> P k) \<and> (p \<noteq> [] \<longrightarrow> P (length p - 1))" for P
    by (cases p) (auto simp: less_Suc_eq)
  then show ?thesis
    unfolding chain_def by (cases "p = []") (auto simp: nth_append last_conv_nth)
qed

lemma chain_drop: "chain g p \<Longrightarrow> chain g (drop n p)"
  by (simp add: chain_def)

lemma stack_cycle_real:
  assumes "chain g stack" "distinct stack" "stack \<noteq> []" "d \<in> model_deps g (last stack)" "d \<in> set stack"
  shows "\<exists>c. stack_cycle d stack = Some c \<and> real_cycle g c"
proof -
  let ?s = "dropWhile (\<lambda>c. c \<noteq> d) stack"
  have ne: "?s \<noteq> []" and hd: "hd ?s = d"
    using assms(5) hd_dropWhile [of "\<lambda>c. c \<noteq> d" stack] by auto
  have s: "?s = drop (length (takeWhile (\<lambda>c. c \<noteq> d) stack)) stack"
    by (rule dropWhile_eq_drop)
  have "chain g ?s" using assms(1) by (simp add: s chain_drop)
  moreover have "last ?s = last stack"
    using ne by (metis last_appendR takeWhile_dropWhile_id)
  ultimately have "chain g (?s @ [d])" using assms(4) by (simp add: chain_snoc)
  moreover have "2 \<le> length (?s @ [d])" using ne by (cases ?s) auto
  ultimately have "real_cycle g (?s @ [d])"
    using hd ne assms(2) by (simp add: real_cycle_def distinct_dropWhile)
  then show ?thesis using assms(5) by (simp add: stack_cycle_def)
qed

lemma colored [simp]:
  "black (colors(i \<mapsto> Grey)) = black colors - {i}"
  "grey (colors(i \<mapsto> Grey)) = insert i (grey colors)"
  "black (colors(i \<mapsto> Black)) = insert i (black colors)"
  "grey (colors(i \<mapsto> Black)) = grey colors - {i}"
  by (auto simp: black_def grey_def)

lemma color_of_sets:
  "color_of colors i = Grey \<longleftrightarrow> i \<in> grey colors"
  "color_of colors i = Black \<longleftrightarrow> i \<in> black colors"
  "color_of colors i = White \<longleftrightarrow> i \<notin> grey colors \<and> i \<notin> black colors"
  by (auto simp: color_of_def grey_def black_def split: option.split intro: color.exhaust)

lemma grey_black_disjoint: "i \<in> grey colors \<Longrightarrow> i \<notin> black colors"
  by (simp add: grey_def black_def)

text \<open>Finishing a model whose dependencies are all finished keeps the finished part acyclic.\<close>

lemma acyclic_finish:
  assumes "acyclic (R \<inter> (UNIV \<times> B))" "\<And>d b. (d, b) \<in> R \<Longrightarrow> b \<in> B \<Longrightarrow> d \<in> B"
    and "i \<notin> B" "\<And>d. (d, i) \<in> R \<Longrightarrow> d \<in> B"
  shows "acyclic (R \<inter> (UNIV \<times> insert i B))"
proof -
  let ?S = "R \<inter> (UNIV \<times> B)" and ?T = "R \<inter> (UNIV \<times> insert i B)"
  have into: "x \<in> B \<and> (x, y) \<in> ?S\<^sup>+" if "(x, y) \<in> ?T\<^sup>+" "y \<in> B" for x y
    using that
  proof (induction rule: converse_trancl_induct)
    case (base x)
    then show ?case using assms(2) by auto
  next
    case (step x z)
    then have z: "z \<in> B" "(z, y) \<in> ?S\<^sup>+" by auto
    then have "(x, z) \<in> ?S" "x \<in> B" using step.hyps(1) assms(2) by auto
    then show ?case using z by (auto intro: trancl_into_trancl2)
  qed
  have "(x, x) \<notin> ?T\<^sup>+" for x
  proof
    assume t: "(x, x) \<in> ?T\<^sup>+"
    show False
    proof (cases "x \<in> B")
      case True
      with into [OF t] assms(1) show False by (auto simp: acyclic_def)
    next
      case False
      from t obtain y where y: "(y, x) \<in> ?T" "(x, y) \<in> ?T\<^sup>*" by (auto dest: tranclD2)
      then have "x = i" using False by auto
      then have "y \<in> B" using y(1) assms(4) by auto
      then have "x \<in> B"
        using y(2) into False by (metis rtranclD)
      with False show False by simp
    qed
  qed
  then show ?thesis by (simp add: acyclic_def)
qed


lemma finish_inv:
  assumes wf: "wf_graph g" and inv: "dfs_inv g colors s" and s: "s \<noteq> []" "last s = node"
    and ids: "node \<in> set (graph_model_ids g)" and deps: "model_deps g node \<subseteq> black colors"
  shows "dfs_inv g (colors(node \<mapsto> Black)) (butlast s)"
proof -
  have sn: "s = butlast s @ [node]" using s by (metis append_butlast_last_id)
  have g: "grey colors = set s" "distinct s" "chain g s"
    using inv by (auto simp: dfs_inv_def)
  have nb: "node \<notin> black colors"
    using g(1) s grey_black_disjoint by (metis last_in_set)
  have "grey (colors(node \<mapsto> Black)) = set (butlast s)"
    using g(1,2) sn by (metis Diff_insert_absorb colored(4) distinct_append distinct_singleton
        insert_is_Un list.set(1) list.simps(15) not_distinct_conv_prefix set_append sup_commute)
  moreover have "distinct (butlast s)" using g(2) by (rule distinct_butlast)
  moreover have "chain g (butlast s)" using g(3) sn chain_snoc by metis
  moreover have "acyclic (dep_rel g \<inter> (UNIV \<times> insert node (black colors)))"
    by (rule acyclic_finish) (use inv nb deps in \<open>auto simp: dfs_inv_def dep_rel_def\<close>)
  ultimately show ?thesis
    using inv ids deps by (auto simp: dfs_inv_def)
qed

lemma white_visited:
  assumes "dfs_inv g colors s" "dfs_inv g colors' s" "black colors \<subseteq> black colors'"
  shows "card (white g colors') \<le> card (white g colors)"
  using assms by (intro card_mono) (auto simp: white_def dfs_inv_def)

text \<open>
  A search that returns without a cycle has finished its model and left the stack as it was; the
  bound never runs out when it is at least the number of uncoloured models.
\<close>

lemma visit_visits:
  "wf_graph g \<Longrightarrow> dfs_inv g colors stack \<Longrightarrow> node \<in> white g colors \<Longrightarrow>
     (stack \<noteq> [] \<Longrightarrow> node \<in> model_deps g (last stack)) \<Longrightarrow> card (white g colors) \<le> n \<Longrightarrow>
     dfs_post g colors stack node (visit g n node colors stack)"
  "wf_graph g \<Longrightarrow> dfs_inv g colors s \<Longrightarrow> s \<noteq> [] \<Longrightarrow> last s = node \<Longrightarrow>
     node \<in> set (graph_model_ids g) \<Longrightarrow> set ds \<subseteq> model_deps g node \<Longrightarrow>
     model_deps g node \<subseteq> set ds \<union> black colors \<Longrightarrow> card (white g colors) \<le> n \<Longrightarrow>
     dfs_post g colors (butlast s) node (visit_deps g n node ds colors s)"
proof (induction g n node colors stack and g n node ds colors s rule: visit_visit_deps.induct)
  case (1 g node colors stack)
  have "finite (white g colors)" by (simp add: white_def)
  with "1.prems"(3,5) show ?case by auto
next
  case (2 g n node colors stack)
  let ?c = "colors(node \<mapsto> Grey)"
  have w: "node \<in> set (graph_model_ids g)" "node \<notin> black colors" "node \<notin> grey colors"
    using "2.prems"(3) by (auto simp: white_def)
  have inv: "dfs_inv g ?c (stack @ [node])"
    using "2.prems"(2,4) w by (auto simp: dfs_inv_def chain_snoc)
  have "white g ?c = white g colors - {node}"
    using w by (auto simp: white_def)
  then have c: "card (white g ?c) \<le> n"
    using "2.prems"(3,5) by (simp add: white_def)
  have "dfs_post g ?c (butlast (stack @ [node])) node
      (visit_deps g n node (dep_models (dependencies g node)) ?c (stack @ [node]))"
    by (rule "2.IH" [OF "2.prems"(1) inv _ _ w(1) _ _ c]) (auto simp: model_deps_def)
  moreover have "black colors - {node} = black colors" using w by auto
  then have "dfs_post g ?c stack node r = dfs_post g colors stack node r" for r
    by (simp only: dfs_post_def colored)
  ultimately show ?case by (simp add: visit.simps)
next
  case (3 g n node colors s)
  then show ?case using finish_inv [of g colors s node] by (auto simp: dfs_post_def)
next
  case (4 g n node d ds colors s)
  have d: "d \<in> model_deps g node" "d \<in> set (graph_model_ids g)"
    using "4.prems"(1,6) model_deps_ids(1) [of g d node] by auto
  note inv = "4.prems"(2)
  show ?case
  proof (cases "color_of colors d")
    case Grey
    then have "d \<in> set s" using inv by (auto simp: color_of_sets dfs_inv_def)
    then obtain c where "stack_cycle d s = Some c" "real_cycle g c"
      using stack_cycle_real [of g s d] inv "4.prems"(3,4) d(1) by (auto simp: dfs_inv_def)
    with Grey show ?thesis by (simp add: dfs_post_def)
  next
    case Black
    then have "model_deps g node \<subseteq> set ds \<union> black colors"
      using "4.prems"(7) by (auto simp: color_of_sets)
    with "4.IH"(3) [OF Black] "4.prems" Black show ?thesis by simp
  next
    case White
    then have "d \<in> white g colors" using d(2) by (auto simp: white_def color_of_sets)
    then have post: "dfs_post g colors s d (visit g n d colors s)"
      using "4.IH"(1) [OF White "4.prems"(1) inv] "4.prems"(4,8) d(1) by simp
    then obtain found colors' stack' where r: "visit g n d colors s = Some (found, colors', stack')"
      by (auto simp: dfs_post_def split: option.splits)
    show ?thesis
    proof (cases found)
      case (Some c)
      with White r post show ?thesis by (simp add: dfs_post_def)
    next
      case None
      with post r have p: "stack' = s" "dfs_inv g colors' s" "d \<in> black colors'"
        "black colors \<subseteq> black colors'" by (auto simp: dfs_post_def)
      have "card (white g colors') \<le> n"
        using white_visited [OF inv p(2,4)] "4.prems"(8) by simp
      moreover have "model_deps g node \<subseteq> set ds \<union> black colors'"
        using "4.prems"(7) p(3,4) by auto
      moreover have "set ds \<subseteq> model_deps g node" using "4.prems"(6) by simp
      ultimately have "dfs_post g colors' (butlast s) node (visit_deps g n node ds colors' s)"
        using "4.IH"(2) [OF White r refl] None p(1,2) "4.prems"(1,3,4,5) by simp
      then have "dfs_post g colors (butlast s) node (visit_deps g n node ds colors' s)"
        using p(4) by (auto simp: dfs_post_def split: option.splits)
      with White r None p(1) show ?thesis by simp
    qed
  qed
qed

declare visit.simps [simp del]

lemma cycle_from_spec:
  assumes "wf_graph g" "dfs_inv g colors []" "set is \<subseteq> set (graph_model_ids g)"
    and "set (graph_model_ids g) \<subseteq> set is \<union> black colors"
  shows "\<exists>found. cycle_from g is colors [] = Some found \<and>
    (case found of Some c \<Rightarrow> real_cycle g c | None \<Rightarrow> acyclic (dep_rel g))"
  using assms
proof (induction "is" arbitrary: colors)
  case Nil
  then have "black colors = set (graph_model_ids g)" by (auto simp: dfs_inv_def)
  moreover have "dep_rel g \<inter> (UNIV \<times> set (graph_model_ids g)) = dep_rel g"
    using model_deps_ids(2) [OF Nil(1)] by (auto simp: dep_rel_def)
  ultimately show ?case using Nil(2) by (auto simp: dfs_inv_def)
next
  case (Cons i "is")
  have ng: "grey colors = {}" using Cons.prems(2) by (simp add: dfs_inv_def)
  show ?case
  proof (cases "i \<in> black colors")
    case True
    then have "color_of colors i \<noteq> White" by (simp add: color_of_sets)
    with Cons.IH [of colors] Cons.prems True show ?thesis by auto
  next
    case False
    then have w: "color_of colors i = White" "i \<in> white g colors"
      using ng Cons.prems(3) by (auto simp: color_of_sets white_def)
    have "card (white g colors) \<le> Suc (length (graph_model_ids g))"
      using card_mono [of "set (graph_model_ids g)" "white g colors"] card_length [of "graph_model_ids g"]
      by (force simp: white_def)
    then have post: "dfs_post g colors [] i (visit g (Suc (length (graph_model_ids g))) i colors [])"
      using visit_visits(1) [OF Cons.prems(1,2) w(2)] by (simp)
    then obtain found colors' stack' where
        r: "visit g (Suc (length (graph_model_ids g))) i colors [] = Some (found, colors', stack')"
      by (auto simp: dfs_post_def split: option.splits)
    show ?thesis
    proof (cases found)
      case (Some c)
      with w(1) r post show ?thesis by (simp add: dfs_post_def)
    next
      case None
      with post r have "stack' = []" "dfs_inv g colors' []" "i \<in> black colors'"
        "black colors \<subseteq> black colors'" by (auto simp: dfs_post_def)
      with Cons.IH [of colors'] Cons.prems w(1) r None show ?thesis
        by auto
    qed
  qed
qed

lemma cycle_run_spec:
  assumes "wf_graph g"
  shows "\<exists>found. cycle_run g = Some found \<and>
    (case found of Some c \<Rightarrow> real_cycle g c | None \<Rightarrow> acyclic (dep_rel g))"
  unfolding cycle_run_def
proof (rule cycle_from_spec)
  show "dfs_inv g Map.empty []"
    by (simp add: dfs_inv_def grey_def black_def chain_def acyclic_def)
qed (use assms in simp_all)

lemma chain_trancl:
  "chain g p \<Longrightarrow> k < l \<Longrightarrow> l < length p \<Longrightarrow> (p ! l, p ! k) \<in> (dep_rel g)\<^sup>+"
proof (induction l)
  case (Suc l)
  have e: "(p ! Suc l, p ! l) \<in> dep_rel g"
    using Suc.prems by (simp add: chain_def dep_rel_def)
  show ?case
  proof (cases "k = l")
    case True
    with e show ?thesis by auto
  next
    case False
    with Suc have "(p ! l, p ! k) \<in> (dep_rel g)\<^sup>+" by simp
    with e show ?thesis by (rule trancl_into_trancl2)
  qed
qed simp

lemma real_cycle_cyclic: "real_cycle g p \<Longrightarrow> \<not> acyclic (dep_rel g)"
proof -
  assume p: "real_cycle g p"
  then have "p \<noteq> []" by (auto simp: real_cycle_def)
  with p have "p ! 0 = p ! (length p - 1)"
    by (simp add: real_cycle_def hd_conv_nth last_conv_nth)
  moreover have "(p ! (length p - 1), p ! 0) \<in> (dep_rel g)\<^sup>+"
    using p by (intro chain_trancl) (auto simp: real_cycle_def)
  ultimately show ?thesis by (auto simp: acyclic_def)
qed

lemma graph_cycle_Some: "wf_graph g \<Longrightarrow> graph_cycle g = Some p \<Longrightarrow> real_cycle g p"
  using cycle_run_spec [of g] by (auto simp: graph_cycle_def)

lemma graph_cycle_None: "wf_graph g \<Longrightarrow> graph_cycle g = None \<longleftrightarrow> acyclic (dep_rel g)"
proof -
  assume "wf_graph g"
  then obtain found where "cycle_run g = Some found"
    "case found of Some c \<Rightarrow> real_cycle g c | None \<Rightarrow> acyclic (dep_rel g)"
    using cycle_run_spec by blast
  then show ?thesis
    using real_cycle_cyclic [of g] by (cases found) (auto simp: graph_cycle_def)
qed

section \<open>Properties\<close>

text \<open>
  Building the graph fails exactly when some model depends on a model that was not
  compiled; a graph that is built is well formed, has the compiled models as its models, and gives
  each model the dependencies its compiled form lists, sorted and without repetition.
\<close>

theorem graph_build_faithful:
  "(graph_build ms = None \<longleftrightarrow> (\<exists>m \<in> set ms. \<not> set (model_dependencies m) \<subseteq> cm_id ` set ms)) \<and>
   (graph_build ms = Some g \<longrightarrow>
      wf_graph g \<and> set (graph_model_ids g) = cm_id ` set ms \<and>
      (\<forall>i. sorted (dependencies g i) \<and> distinct (dependencies g i) \<and>
         set (dependencies g i) = (\<Union>m \<in> {m \<in> set ms. cm_id m = i}. set (cm_dependencies m))))"
proof (intro conjI impI allI)
  show "graph_build ms = None \<longleftrightarrow> (\<exists>m \<in> set ms. \<not> set (model_dependencies m) \<subseteq> cm_id ` set ms)"
    using graph_build_total [of ms] by blast
  assume g: "graph_build ms = Some g"
  show "wf_graph g" "set (graph_model_ids g) = cm_id ` set ms"
    using graph_build_Some(1,2) [OF g] by simp_all
  fix i
  show "sorted (dependencies g i)" by (simp add: dependencies_def)
  show "distinct (dependencies g i)"
    using graph_build_Some(1) [OF g] by (rule distinct_dependencies)
  show "set (dependencies g i) = (\<Union>m \<in> {m \<in> set ms. cm_id m = i}. set (cm_dependencies m))"
    using graph_build_Some(3) [OF g] by auto
qed

text \<open>
  Property C8. On a well-formed graph the topological order exists exactly when the dependency
  relation has no cycle. An order that is returned lists every model once, each after all its
  dependencies, and at each place the least model that may come next; it is the only such order.
\<close>

theorem topological_order_correct:
  assumes "wf_graph g"
  shows "(topological_order g = None \<longleftrightarrow> \<not> acyclic (dep_rel g)) \<and>
    (topological_order g = Some order \<longleftrightarrow>
       least_first g order \<and> set order = set (graph_model_ids g)) \<and>
    (topological_order g = Some order \<longrightarrow>
       distinct order \<and>
       (\<forall>k < length order. \<forall>d \<in> model_deps g (order ! k). \<exists>j < k. order ! j = d))"
  using topological_order_Some [OF assms] topological_order_None [OF assms]
    least_first_distinct least_first_deps by blast

text \<open>
  Property C34. The cycle search ends within its bound, returns a genuine cycle whenever it returns one
  (a path along dependencies back to its start that repeats no model before), and finds none only when
  the graph has none: it disagrees with the topological order on no graph.
\<close>

theorem cycle_search_correct:
  assumes "wf_graph g"
  shows "cycle_run g \<noteq> None \<and>
    (graph_cycle g = Some p \<longrightarrow> real_cycle g p) \<and>
    (graph_cycle g = None \<longleftrightarrow> topological_order g \<noteq> None)"
  using cycle_run_spec [OF assms] graph_cycle_Some [OF assms] graph_cycle_None [OF assms]
    topological_order_None [OF assms] by auto

section \<open>Concrete instances\<close>

text \<open>The model factory of the unit tests of \<^verbatim>\<open>graph.rs\<close>, and two graphs over it.\<close>

definition bare_model :: "model_id \<Rightarrow> dependency list \<Rightarrow> compiled_model" where
  "bare_model i deps =
     \<lparr>cm_id = i, cm_namespace = mid_namespace i, cm_path = mid_path i,
      cm_origin = \<lparr>mo_frontend = InMemory, mo_path = None\<rparr>, cm_sql = [], cm_workflow = None,
      cm_config = default_config,
      cm_target = Relation None (mid_namespace i) (join ''__'' (mid_path i)),
      cm_compiled_sql = [], cm_schema = empty_schema, cm_limitations = [], cm_assertions = [],
      cm_contract = None, cm_version = no_version,
      cm_version_detail = \<lparr>vd_dependencies = [], vd_sources = []\<rparr>, cm_pinned_id = None,
      cm_dependencies = deps\<rparr>"

abbreviation mid :: "string \<Rightarrow> model_id" where
  "mid n \<equiv> ModelId ''m'' [n]"

definition diamond_models :: "compiled_model list" where
  "diamond_models =
     [bare_model (mid ''d'') [DepModel (mid ''b''), DepModel (mid ''c'')],
      bare_model (mid ''b'') [DepModel (mid ''a'')],
      bare_model (mid ''c'') [DepModel (mid ''a''), DepSource (SourceId [''raw''])],
      bare_model (mid ''a'') []]"

definition looped_models :: "compiled_model list" where
  "looped_models =
     [bare_model (mid ''a'') [DepModel (mid ''b'')], bare_model (mid ''b'') [DepModel (mid ''a'')]]"

definition diamond :: transform_graph where
  "diamond = the (graph_build diamond_models)"

definition looped :: transform_graph where
  "looped = the (graph_build looped_models)"

lemma diamond_built: "graph_build diamond_models = Some diamond"
  by code_simp

lemma looped_built: "graph_build looped_models = Some looped"
  by code_simp

lemma diamond_wf: "wf_graph diamond"
  by code_simp

lemma looped_wf: "wf_graph looped"
  by code_simp

lemma diamond_order:
  "topological_order diamond = Some [mid ''a'', mid ''b'', mid ''c'', mid ''d'']"
  by code_simp

lemma looped_cycle: "graph_cycle looped = Some [mid ''a'', mid ''b'', mid ''a'']"
  by code_simp

theorem graph_build_faithful_witness:
  "wf_graph diamond \<and> graph_build [bare_model (mid ''b'') [DepModel (mid ''a'')]] = None"
proof -
  have "graph_build [bare_model (mid ''b'') [DepModel (mid ''a'')]] = None"
    using graph_build_faithful [of "[bare_model (mid ''b'') [DepModel (mid ''a'')]]"]
    by (simp add: bare_model_def model_dependencies_def)
  then show ?thesis
    using graph_build_faithful [of diamond_models diamond] diamond_built by blast
qed

theorem topological_order_correct_witness:
  "least_first diamond [mid ''a'', mid ''b'', mid ''c'', mid ''d''] \<and> acyclic (dep_rel diamond)"
  using topological_order_correct [OF diamond_wf, of "[mid ''a'', mid ''b'', mid ''c'', mid ''d'']"]
    diamond_order by simp

theorem cycle_search_correct_witness:
  "real_cycle looped [mid ''a'', mid ''b'', mid ''a''] \<and> topological_order looped = None"
  using cycle_search_correct [OF looped_wf, of "[mid ''a'', mid ''b'', mid ''a'']"] looped_cycle
  by simp

end
