(* ===== verification/Closure.thy ===== *)
theory Closure
  imports Graph "HOL-Library.While_Combinator"
begin

text \<open>
  The work-list walk that selection (\<open>expand\<close> of \<^verbatim>\<open>select.rs\<close>) and planning
  (\<open>dependency_closure_excluding\<close> of \<^verbatim>\<open>plan.rs\<close>) share: a sorted set of included models and a
  stack of models to visit; popping one pushes its neighbours that are new. The locale
  \<open>closure_walk\<close> states what the walk needs of the neighbour function (finitely many neighbours in
  all) and proves that it ends and includes exactly what the seed reaches.
\<close>

section \<open>The walk\<close>

fun push_new :: "'a::linorder list \<Rightarrow> 'a list \<times> 'a list \<Rightarrow> 'a list \<times> 'a list" where
  "push_new [] s = s"
| "push_new (n # ns) (included, frontier) =
     push_new ns
       (if n \<in> set included then (included, frontier)
        else (insort n included, frontier @ [n]))"

definition walk_step ::
    "('a::linorder \<Rightarrow> 'a list) \<Rightarrow> 'a list \<times> 'a list \<Rightarrow> 'a list \<times> 'a list" where
  "walk_step neighbours s =
     push_new (neighbours (last (snd s))) (fst s, butlast (snd s))"

definition walk :: "('a::linorder \<Rightarrow> 'a list) \<Rightarrow> 'a list \<Rightarrow> 'a list option" where
  "walk neighbours seed =
     map_option fst (while_option (\<lambda>s. snd s \<noteq> []) (walk_step neighbours) (seed, seed))"

definition walk_rel :: "('a \<Rightarrow> 'a list) \<Rightarrow> ('a \<times> 'a) set" where
  "walk_rel neighbours = {(a, b). b \<in> set (neighbours a)}"

definition reached :: "('a \<Rightarrow> 'a list) \<Rightarrow> 'a set \<Rightarrow> 'a set" where
  "reached neighbours S = (walk_rel neighbours)\<^sup>* `` S"

lemma push_new_spec:
  "push_new ns (included, frontier) = (inc', fr') \<Longrightarrow>
     set inc' = set included \<union> set ns \<and>
     set fr' = set frontier \<union> (set ns - set included) \<and>
     length fr' + length included = length frontier + length inc' \<and>
     (sorted included \<longrightarrow> sorted inc') \<and> (distinct included \<longrightarrow> distinct inc')"
proof (induction ns "(included, frontier)" arbitrary: included frontier rule: push_new.induct)
  case (1 included frontier)
  then show ?case by simp
next
  case (2 n ns included frontier)
  show ?case
  proof (cases "n \<in> set included")
    case True
    with 2 show ?thesis by auto
  next
    case False
    with "2.prems" have "push_new ns (insort n included, frontier @ [n]) = (inc', fr')" by simp
    with "2.hyps" [of "insort n included" "frontier @ [n]"] False show ?thesis
      by (auto simp: set_insort_key sorted_insort distinct_insort)
  qed
qed

locale closure_walk =
  fixes neighbours :: "'a::linorder \<Rightarrow> 'a list"
    and nodes :: "'a set"
  assumes finite_nodes: "finite nodes"
    and neighbours_in: "set (neighbours a) \<subseteq> nodes"
begin

definition walk_inv :: "'a set \<Rightarrow> 'a list \<times> 'a list \<Rightarrow> bool" where
  "walk_inv S s \<longleftrightarrow>
     sorted (fst s) \<and> distinct (fst s) \<and> S \<subseteq> set (fst s) \<and> set (snd s) \<subseteq> set (fst s) \<and>
     set (fst s) \<subseteq> reached neighbours S \<and> set (fst s) \<subseteq> S \<union> nodes \<and>
     (\<forall>a \<in> set (fst s) - set (snd s). set (neighbours a) \<subseteq> set (fst s))"

lemma reached_step: "a \<in> reached neighbours S \<Longrightarrow> b \<in> set (neighbours a) \<Longrightarrow> b \<in> reached neighbours S"
  by (auto simp: reached_def walk_rel_def intro: rtrancl.rtrancl_into_rtrancl)

lemma reached_seed: "S \<subseteq> reached neighbours S"
  by (auto simp: reached_def)

lemma reached_closed:
  assumes "S \<subseteq> I" "\<And>a. a \<in> I \<Longrightarrow> set (neighbours a) \<subseteq> I"
  shows "reached neighbours S \<subseteq> I"
proof
  fix b assume "b \<in> reached neighbours S"
  then obtain a where "(a, b) \<in> (walk_rel neighbours)\<^sup>*" "a \<in> S" by (auto simp: reached_def)
  then show "b \<in> I"
    by (induction rule: rtrancl_induct) (use assms in \<open>auto simp: walk_rel_def\<close>)
qed

lemma reached_bound: "reached neighbours S \<subseteq> S \<union> nodes"
  using neighbours_in by (intro reached_closed) auto

lemma walk_inv_step:
  assumes inv: "walk_inv S s" and ne: "snd s \<noteq> []"
  shows "walk_inv S (walk_step neighbours s)"
proof -
  obtain inc fr where s: "s = (inc, fr)" by (cases s)
  obtain inc' fr' where p: "push_new (neighbours (last fr)) (inc, butlast fr) = (inc', fr')"
    by (cases "push_new (neighbours (last fr)) (inc, butlast fr)")
  have fr: "set fr = insert (last fr) (set (butlast fr))"
    using ne s by (metis append_butlast_last_id list.simps(15) rotate1.simps(2) set_rotate1 snd_conv)
  have l: "last fr \<in> set inc" using inv fr s by (auto simp: walk_inv_def)
  note spec = push_new_spec [OF p]
  have "set (neighbours a) \<subseteq> set inc'" if "a \<in> set inc'" "a \<notin> set fr'" for a
  proof (cases "a = last fr")
    case True
    then show ?thesis using spec by auto
  next
    case False
    then have "a \<in> set inc" "a \<notin> set fr" using that spec fr by auto
    then have "set (neighbours a) \<subseteq> set inc" using inv s by (auto simp: walk_inv_def)
    then show ?thesis using spec by auto
  qed
  moreover have r: "set inc' \<subseteq> reached neighbours S"
  proof -
    have "set inc \<subseteq> reached neighbours S" using inv s by (simp add: walk_inv_def)
    moreover have "set (neighbours (last fr)) \<subseteq> reached neighbours S"
      using reached_step [of "last fr"] l calculation by blast
    ultimately show ?thesis using spec by simp
  qed
  moreover have "set inc' \<subseteq> S \<union> nodes"
    using r reached_bound by blast
  moreover have "set fr' \<subseteq> set inc'" using spec inv s fr by (auto simp: walk_inv_def)
  moreover have "S \<subseteq> set inc'" using spec inv s by (auto simp: walk_inv_def)
  ultimately show ?thesis
    using inv spec s p by (auto simp: walk_inv_def walk_step_def)
qed

text \<open>Each step visits one model and only pushes models that were not included.\<close>

lemma walk_ends: "\<exists>s. while_option (\<lambda>s. snd s \<noteq> []) (walk_step neighbours) (inc, fr) = Some s"
  if "walk_inv S (inc, fr)" "finite S"
proof (rule measure_while_option_Some [where P = "walk_inv S"
      and f = "\<lambda>s. 2 * card (S \<union> nodes - set (fst s)) + length (snd s)"])
  fix s assume inv: "walk_inv S s" and ne: "snd s \<noteq> []"
  obtain i f where s: "s = (i, f)" by (cases s)
  obtain i' f' where p: "push_new (neighbours (last f)) (i, butlast f) = (i', f')"
    by (cases "push_new (neighbours (last f)) (i, butlast f)")
  have inv': "walk_inv S (walk_step neighbours s)" by (rule walk_inv_step [OF inv ne])
  then have i': "set i' \<subseteq> S \<union> nodes" "distinct i'" using s p by (simp_all add: walk_inv_def walk_step_def)
  have i: "set i \<subseteq> S \<union> nodes" "distinct i" using inv s by (simp_all add: walk_inv_def)
  have fin: "finite (S \<union> nodes)" using that(2) finite_nodes by simp
  have c: "card (S \<union> nodes - set x) + length x = card (S \<union> nodes)" if "set x \<subseteq> S \<union> nodes" "distinct x" for x
    using that fin by (metis List.finite_set card_Diff_subset card_mono distinct_card le_add_diff_inverse2)
  have "length f' + length i = length (butlast f) + length i'"
    using push_new_spec [OF p] by simp
  moreover have "length (butlast f) < length f" using ne s by simp
  moreover have "length i \<le> length i'"
  proof -
    have "set i \<subseteq> set i'" using push_new_spec [OF p] by auto
    then show ?thesis using i(2) i'(2) by (metis List.finite_set card_mono distinct_card)
  qed
  ultimately show "walk_inv S (walk_step neighbours s) \<and>
      2 * card (S \<union> nodes - set (fst (walk_step neighbours s))) + length (snd (walk_step neighbours s))
        < 2 * card (S \<union> nodes - set (fst s)) + length (snd s)"
    using inv' c [OF i] c [OF i'] s p by (simp add: walk_step_def)
qed (rule that(1))

lemma walk_reaches:
  assumes "sorted seed" "distinct seed"
  shows "\<exists>out. walk neighbours seed = Some out \<and> set out = reached neighbours (set seed) \<and>
    sorted out \<and> distinct out"
proof -
  have start: "walk_inv (set seed) (seed, seed)"
    using assms reached_seed by (auto simp: walk_inv_def)
  then obtain s where s: "while_option (\<lambda>s. snd s \<noteq> []) (walk_step neighbours) (seed, seed) = Some s"
    using walk_ends by blast
  have inv: "walk_inv (set seed) s"
    using s start by (rule while_option_rule [where P = "walk_inv (set seed)", rotated]) (rule walk_inv_step)
  have "snd s = []" using while_option_stop [OF s] by simp
  then have "reached neighbours (set seed) \<subseteq> set (fst s)"
    using inv by (intro reached_closed) (auto simp: walk_inv_def)
  with inv s show ?thesis by (auto simp: walk_def walk_inv_def)
qed

end

section \<open>Walking the dependency graph\<close>

definition upstream_of :: "transform_graph \<Rightarrow> model_id \<Rightarrow> model_id list" where
  "upstream_of g i = dep_models (dependencies g i)"

definition edge_models :: "transform_graph \<Rightarrow> model_id set" where
  "edge_models g = set (node_models (map fst (tg_edges g))) \<union> set (node_models (map snd (tg_edges g)))"

lemma dep_node: "DepModel x = node_dependency n \<longleftrightarrow> n = NodeModel x"
  by (cases n) auto

interpretation up: closure_walk "upstream_of g" "edge_models g" for g
proof
  show "finite (edge_models g)" by (simp add: edge_models_def del: set_node_models)
  show "set (upstream_of g a) \<subseteq> edge_models g" for a
    by (force simp: upstream_of_def dependencies_def edge_models_def dep_node image_iff)
qed

interpretation down: closure_walk "dependents g" "edge_models g" for g
proof
  show "finite (edge_models g)" by (simp add: edge_models_def del: set_node_models)
  show "set (dependents g a) \<subseteq> edge_models g" for a
    by (force simp: dependents_def edge_models_def image_iff)
qed

text \<open>On a well-formed graph the two directions are converse.\<close>

lemma walk_rel_up: "walk_rel (upstream_of g) = (dep_rel g)\<inverse>"
  by (auto simp: walk_rel_def upstream_of_def dep_rel_def model_deps_def)

lemma walk_rel_down: "wf_graph g \<Longrightarrow> walk_rel (dependents g) = dep_rel g"
  by (auto simp: walk_rel_def dep_rel_def dependents_deps)

lemma reached_up_down:
  assumes "wf_graph g"
  shows "b \<in> reached (upstream_of g) {a} \<longleftrightarrow> a \<in> reached (dependents g) {b}"
  by (simp add: reached_def walk_rel_up walk_rel_down [OF assms] rtrancl_converse)

end
