(* ===== verification/Compiled.thy ===== *)
theory Compiled
  imports Closure
begin

text \<open>
  A compiled workspace, \<open>Compilation\<close> of \<^verbatim>\<open>phlo-transform-core/src/compiled.rs\<close>: models and tests
  with the indexes from identity to position, the graph, and the diagnostics. Workspace paths, roots
  and the lineage graph are left out.
\<close>

record compilation =
  cp_models :: "compiled_model list"
  cp_tests :: "compiled_test list"
  cp_seeds :: "compiled_seed list"
  cp_defaults :: workspace_defaults
  cp_graph :: transform_graph
  cp_diagnostics :: "diagnostic list"
  cp_index :: "(model_id \<times> nat) list"
  cp_test_index :: "(test_id \<times> nat) list"

text \<open>Collecting positions into a map: a repeated identity keeps its last position.\<close>

definition position_index :: "('a \<Rightarrow> 'k::linorder) \<Rightarrow> 'a list \<Rightarrow> ('k \<times> nat) list" where
  "position_index key xs = fold (\<lambda>p. bm_insert (key (snd p)) (fst p)) (enumerate 0 xs) []"

definition compilation_new ::
    "compiled_model list \<Rightarrow> compiled_test list \<Rightarrow> compiled_seed list \<Rightarrow> workspace_defaults
       \<Rightarrow> diagnostic list \<Rightarrow> compilation option" where
  "compilation_new models tests seeds defaults diagnostics =
     (case graph_build models of
        None \<Rightarrow> None
      | Some graph \<Rightarrow>
          Some \<lparr>cp_models = models, cp_tests = tests, cp_seeds = seeds, cp_defaults = defaults,
                cp_graph = graph, cp_diagnostics = diagnostics,
                cp_index = position_index cm_id models,
                cp_test_index = position_index ct_id tests\<rparr>)"

definition is_ok :: "compilation \<Rightarrow> bool" where
  "is_ok c \<longleftrightarrow> \<not> list_ex (\<lambda>d. dg_severity d = SevError) (cp_diagnostics c)"

definition compilation_errors :: "compilation \<Rightarrow> diagnostic list" where
  "compilation_errors c = filter (\<lambda>d. dg_severity d = SevError) (cp_diagnostics c)"

definition model_position :: "compilation \<Rightarrow> model_id \<Rightarrow> nat option" where
  "model_position c i = map_of (cp_index c) i"

definition compilation_model :: "compilation \<Rightarrow> model_id \<Rightarrow> compiled_model option" where
  "compilation_model c i = map_option (\<lambda>p. cp_models c ! p) (map_of (cp_index c) i)"

definition model_by_name :: "compilation \<Rightarrow> string \<Rightarrow> compiled_model option" where
  "model_by_name c name =
     (case model_id_parse name of Inl _ \<Rightarrow> None | Inr i \<Rightarrow> compilation_model c i)"

definition compilation_test :: "compilation \<Rightarrow> test_id \<Rightarrow> compiled_test option" where
  "compilation_test c i = map_option (\<lambda>p. cp_tests c ! p) (map_of (cp_test_index c) i)"

definition add_generated_tests :: "compiled_test list \<Rightarrow> compilation \<Rightarrow> compilation" where
  "add_generated_tests generated c =
     (if generated = [] then c
      else let tests = sort_key ct_id (cp_tests c @ generated)
           in c\<lparr>cp_tests := tests, cp_test_index := position_index ct_id tests\<rparr>)"

definition tests_for :: "compilation \<Rightarrow> model_id \<Rightarrow> compiled_test list" where
  "tests_for c i = filter (\<lambda>t. i \<in> set (ct_targets t)) (cp_tests c)"

section \<open>Look-ups\<close>


lemma position_index_get:
  "map_of (position_index key xs) k =
     (case find (\<lambda>p. key (snd p) = k) (rev (enumerate 0 xs)) of Some p \<Rightarrow> Some (fst p) | None \<Rightarrow> None)"
  unfolding position_index_def
  using bm.get_fold_put [where m = "[]" and key = "\<lambda>p. key (snd p)" and val = fst and
      xs = "enumerate 0 xs" and k = k] by (simp split: option.split)

lemma position_index_Some:
  assumes "distinct (map key xs)"
  shows "map_of (position_index key xs) k = Some p \<longleftrightarrow> p < length xs \<and> key (xs ! p) = k"
proof -
  let ?f = "find (\<lambda>p. key (snd p) = k) (rev (enumerate 0 xs))"
  have u: "p = q" if "p < length xs" "q < length xs" "key (xs ! p) = key (xs ! q)" for p q
    using nth_eq_iff_index_eq [OF assms, of p q] that by simp
  show ?thesis
  proof (cases ?f)
    case None
    then have "key (xs ! p) \<noteq> k" if "p < length xs"
      using that by (auto simp: find_None_iff in_set_enumerate_eq)
    with None show ?thesis by (auto simp: position_index_get)
  next
    case (Some q)
    then have "q \<in> set (rev (enumerate 0 xs))" "key (snd q) = k"
      using find_SomeD [OF Some] by simp_all
    then have q: "fst q < length xs" "key (xs ! fst q) = k"
      by (auto simp: in_set_enumerate_eq)
    with Some show ?thesis using u [of p "fst q"] by (auto simp: position_index_get)
  qed
qed

text \<open>
  What the compiler maintains: one model per identity, the index and the graph of exactly these
  models.
\<close>

definition wf_compilation :: "compilation \<Rightarrow> bool" where
  "wf_compilation c \<longleftrightarrow>
     distinct (map cm_id (cp_models c)) \<and> graph_build (cp_models c) = Some (cp_graph c) \<and>
     cp_index c = position_index cm_id (cp_models c)"

lemma compilation_new_wf:
  "distinct (map cm_id models) \<Longrightarrow> compilation_new models ts ss df ds = Some c \<Longrightarrow> wf_compilation c"
  by (auto simp: compilation_new_def wf_compilation_def split: option.splits)

lemma compilation_model_Some:
  assumes "wf_compilation c"
  shows "compilation_model c i = Some m \<longleftrightarrow> m \<in> set (cp_models c) \<and> cm_id m = i"
  using assms position_index_Some [of cm_id "cp_models c" i]
  by (auto simp: wf_compilation_def compilation_model_def in_set_conv_nth)

lemma compilation_model_None:
  "wf_compilation c \<Longrightarrow> compilation_model c i = None \<longleftrightarrow> i \<notin> cm_id ` set (cp_models c)"
proof -
  assume wf: "wf_compilation c"
  show ?thesis
  proof (cases "compilation_model c i")
    case None
    then have "\<And>m. \<not> (m \<in> set (cp_models c) \<and> cm_id m = i)"
      using compilation_model_Some [OF wf, of i] by simp
    with None show ?thesis by blast
  next
    case (Some m)
    with compilation_model_Some [OF wf, of i m] have "i \<in> cm_id ` set (cp_models c)" by auto
    with Some show ?thesis by simp
  qed
qed

lemma compilation_graph:
  assumes "wf_compilation c"
  shows "wf_graph (cp_graph c)" "set (graph_model_ids (cp_graph c)) = cm_id ` set (cp_models c)"
  using assms graph_build_Some by (auto simp: wf_compilation_def)

end
