(* ===== verification/Select.thy ===== *)
theory Select
  imports Compiled
begin

text \<open>
  The selector engine, \<^verbatim>\<open>phlo-transform-core/src/select.rs\<close>: the term grammar, what a term matches,
  expansion along the graph and the resolution of a set of include, exclude and filter terms. Errors
  are values of a sum in the order the code meets them. The change causes a caller may attach to a
  selection are left out.
\<close>

section \<open>Terms\<close>

datatype selector_kind =
    KName string
  | KTag string
  | KNamespace string
  | KSource string
  | KChanged
  | KAll

record selector_term =
  term_upstream :: bool
  term_downstream :: bool
  term_kind :: selector_kind
  term_text :: string

record selector_set =
  ss_include :: "selector_term list"
  ss_exclude :: "selector_term list"
  ss_filter :: "selector_term list"
  ss_expand_upstream :: bool
  ss_expand_downstream :: bool

datatype selector_error =
    SelEmpty
  | SelInvalid string string
  | SelNoMatches string string
  | SelAmbiguous string string
  | SelChangedUnavailable

definition misplaced_plus :: string where
  "misplaced_plus = ''`+` is only valid at the start and/or end of a selector''"

definition missing_body :: string where
  "missing_body = ''missing selector body''"

definition needs_value :: "string \<Rightarrow> string" where
  "needs_value kind = ''`'' @ kind @ '':` needs a value, e.g. `'' @ kind @ '':qc`''"

definition unknown_kind :: "string \<Rightarrow> string" where
  "unknown_kind kind =
     ''unknown selector kind `'' @ kind @ '':` (expected tag:, namespace:, source: or changed)''"

definition bare_kind :: "string \<Rightarrow> selector_kind" where
  "bare_kind rest =
     (if rest = ''changed'' then KChanged
      else if rest = ''all'' \<or> rest = ''*'' then KAll
      else KName rest)"

definition selector_kind_of :: "string \<Rightarrow> string \<Rightarrow> selector_error + selector_kind" where
  "selector_kind_of original rest =
     (case split_once CHR '':'' rest of
        Some (kind, v) \<Rightarrow>
          (if starts_with ''//'' v then Inr (bare_kind rest)
           else if v = [] then Inl (SelInvalid original (needs_value kind))
           else if kind = ''tag'' then Inr (KTag v)
           else if kind = ''namespace'' then Inr (KNamespace v)
           else if kind = ''source'' then Inr (KSource v)
           else Inl (SelInvalid original (unknown_kind kind)))
      | None \<Rightarrow> Inr (bare_kind rest))"

definition parse_selector :: "string \<Rightarrow> selector_error + selector_term" where
  "parse_selector text =
     (let rest = trim text
      in if rest = [] then Inl SelEmpty
         else
           let upstream = starts_with ''+'' rest;
               rest = (if upstream then drop 1 rest else rest);
               downstream = ends_with ''+'' rest;
               rest = (if downstream then butlast rest else rest)
           in if CHR ''+'' \<in> set rest then Inl (SelInvalid text misplaced_plus)
              else if rest = [] then Inl (SelInvalid text missing_body)
              else (case selector_kind_of text rest of
                      Inl e \<Rightarrow> Inl e
                    | Inr kind \<Rightarrow>
                        Inr \<lparr>term_upstream = upstream, term_downstream = downstream,
                             term_kind = kind, term_text = text\<rparr>))"

fun parse_terms :: "string list \<Rightarrow> selector_error + selector_term list" where
  "parse_terms [] = Inr []"
| "parse_terms (t # ts) =
     (case parse_selector t of
        Inl e \<Rightarrow> Inl e
      | Inr x \<Rightarrow> (case parse_terms ts of Inl e \<Rightarrow> Inl e | Inr xs \<Rightarrow> Inr (x # xs)))"

definition selector_set_parse ::
    "string list \<Rightarrow> string list \<Rightarrow> string list \<Rightarrow> bool \<Rightarrow> bool \<Rightarrow> selector_error + selector_set" where
  "selector_set_parse inc exc flt up down =
     (case parse_terms inc of
        Inl e \<Rightarrow> Inl e
      | Inr i \<Rightarrow>
          (case parse_terms exc of
             Inl e \<Rightarrow> Inl e
           | Inr x \<Rightarrow>
               (case parse_terms flt of
                  Inl e \<Rightarrow> Inl e
                | Inr f \<Rightarrow>
                    Inr \<lparr>ss_include = i, ss_exclude = x, ss_filter = f,
                         ss_expand_upstream = up, ss_expand_downstream = down\<rparr>)))"

definition is_unrestricted :: "selector_set \<Rightarrow> bool" where
  "is_unrestricted s \<longleftrightarrow>
     ss_include s = [] \<and> ss_exclude s = [] \<and> ss_filter s = [] \<and>
     \<not> ss_expand_upstream s \<and> \<not> ss_expand_downstream s"

definition uses_changed :: "selector_set \<Rightarrow> bool" where
  "uses_changed s =
     list_ex (\<lambda>t. term_kind t = KChanged) (ss_include s @ ss_exclude s @ ss_filter s)"

section \<open>Matching\<close>

definition last_segment_is :: "model_id \<Rightarrow> string \<Rightarrow> bool" where
  "last_segment_is i s \<longleftrightarrow> last_segment i = Some s"

definition suggests :: "string \<Rightarrow> model_id \<Rightarrow> bool" where
  "suggests pattern i \<longleftrightarrow>
     contains_str pattern (logical_name i) \<or> ends_with pattern (local_name i) \<or>
     last_segment_is i pattern \<or>
     (CHR ''.'' \<in> set pattern \<and> mid_namespace i = hd (split_on CHR ''.'' pattern))"

definition suggestions_for :: "string \<Rightarrow> compilation \<Rightarrow> string list" where
  "suggestions_for pattern c =
     (let ids = map cm_id (cp_models c);
          near = map logical_name (filter (suggests pattern) ids);
          globbed =
            (if near = [] \<and> \<not> ends_with ''.*'' pattern
                \<and> list_ex (\<lambda>i. starts_with (pattern @ ''.'') (logical_name i)) ids
             then [pattern @ ''.*''] else near)
      in take 5 (sort_dedup globbed))"

definition no_match :: "selector_term \<Rightarrow> compilation \<Rightarrow> selector_error" where
  "no_match t c =
     (let suggestions = (case term_kind t of KName pattern \<Rightarrow> suggestions_for pattern c | _ \<Rightarrow> [])
      in SelNoMatches (term_text t)
           (if suggestions = [] then []
            else CHR 10 # ''  did you mean: '' @ join '', '' suggestions))"

definition ambiguous_candidates :: "model_id list \<Rightarrow> string" where
  "ambiguous_candidates is =
     ''candidates:'' @ [CHR 10]
       @ join [CHR 10] (map (\<lambda>i. ''  '' @ logical_name i) is)
       @ [CHR 10] @ ''qualify the model name''"

definition glob_match :: "compilation \<Rightarrow> string \<Rightarrow> model_id list" where
  "glob_match c prefix =
     btree_set (map cm_id (filter
       (\<lambda>m. logical_name (cm_id m) = prefix \<or> starts_with (prefix @ ''.'') (logical_name (cm_id m)))
       (cp_models c)))"

definition suffix_match :: "compilation \<Rightarrow> string \<Rightarrow> model_id list" where
  "suffix_match c pattern =
     map cm_id (filter
       (\<lambda>m. local_name (cm_id m) = pattern \<or> last_segment_is (cm_id m) pattern) (cp_models c))"

definition known_name :: "compilation \<Rightarrow> string \<Rightarrow> model_id option" where
  "known_name c pattern =
     (case model_id_parse pattern of
        Inl _ \<Rightarrow> None
      | Inr i \<Rightarrow> if compilation_model c i \<noteq> None then Some i else None)"

definition match_name :: "compilation \<Rightarrow> string \<Rightarrow> selector_term \<Rightarrow> selector_error + model_id list" where
  "match_name c pattern t =
     (case known_name c pattern of
        Some i \<Rightarrow> Inr [i]
      | None \<Rightarrow>
          (case strip_suffix ''.*'' pattern of
             Some prefix \<Rightarrow>
               (let matched = glob_match c prefix
                in if matched = [] then Inl (no_match t c) else Inr matched)
           | None \<Rightarrow>
               (case suffix_match c pattern of
                  [] \<Rightarrow> Inl (no_match t c)
                | [i] \<Rightarrow> Inr [i]
                | is \<Rightarrow> Inl (SelAmbiguous (term_text t) (ambiguous_candidates is)))))"

definition reads_source :: "string \<Rightarrow> compiled_model \<Rightarrow> bool" where
  "reads_source v m =
     list_ex (\<lambda>s. source_name s = v \<or> starts_with (v @ ''.'') (source_name s) \<or> v \<in> set (sid_parts s))
       (source_dependencies m)"

text \<open>What the kinds other than a name match; \<open>changed\<close> is the caller's change set, if any.\<close>

definition kind_match ::
    "compilation \<Rightarrow> selector_kind \<Rightarrow> model_id list option \<Rightarrow> model_id list option" where
  "kind_match c kind changed =
     (let pick = (\<lambda>P. Some (btree_set (map cm_id (filter P (cp_models c)))))
      in case kind of
           KChanged \<Rightarrow>
             map_option (filter (\<lambda>i. compilation_model c i \<noteq> None)) changed
         | KTag tag \<Rightarrow> pick (\<lambda>m. tag \<in> set (cfg_tags (cm_config m)))
         | KNamespace ns \<Rightarrow> pick (\<lambda>m. mid_namespace (cm_id m) = ns)
         | KSource v \<Rightarrow> pick (reads_source v)
         | _ \<Rightarrow> pick (\<lambda>m. True))"

definition base_match ::
    "compilation \<Rightarrow> selector_term \<Rightarrow> model_id list option \<Rightarrow> selector_error + model_id list" where
  "base_match c t changed =
     (case term_kind t of
        KName pattern \<Rightarrow> match_name c pattern t
      | kind \<Rightarrow>
          (case kind_match c kind changed of
             None \<Rightarrow> Inl SelChangedUnavailable
           | Some matched \<Rightarrow>
               if matched = [] \<and> kind \<noteq> KChanged then Inl (no_match t c) else Inr matched))"

section \<open>Expansion\<close>

text \<open>The walk always ends (\<open>expand_reaches\<close>), so the last case is never taken.\<close>

definition expand :: "compilation \<Rightarrow> model_id list \<Rightarrow> bool \<Rightarrow> model_id list" where
  "expand c seed upstream =
     (case walk (if upstream then upstream_of (cp_graph c) else dependents (cp_graph c)) seed of
        Some included \<Rightarrow> included
      | None \<Rightarrow> [])"

definition push_expanded ::
    "string \<Rightarrow> model_id list \<Rightarrow> model_id list \<Rightarrow> (model_id \<times> string list) list
       \<Rightarrow> (model_id \<times> string list) list" where
  "push_expanded text seed ids expanded_by =
     fold (\<lambda>i e. if i \<in> set seed then e else bm_push i text e) ids expanded_by"

definition expand_term ::
    "compilation \<Rightarrow> selector_term \<Rightarrow> model_id list \<Rightarrow> (model_id \<times> string list) list
       \<Rightarrow> (model_id \<times> string list) list" where
  "expand_term c t base expanded_by =
     (let e = (if term_upstream t
               then push_expanded (term_text t) base (expand c base True) expanded_by
               else expanded_by)
      in if term_downstream t then push_expanded (term_text t) base (expand c base False) e else e)"

section \<open>Resolving a selection\<close>

record selected_model =
  sel_id :: string
  sel_matched :: "string list"
  sel_expanded :: "string list"

definition is_direct :: "selected_model \<Rightarrow> bool" where
  "is_direct m \<longleftrightarrow> sel_matched m \<noteq> []"

record selection_cause =
  sca_path :: string
  sca_detail :: string

record selection =
  sel_members :: "selected_model list"
  sel_excluded :: "string list"
  sel_terms :: "string list"
  sel_exclude_terms :: "string list"
  sel_causes :: "(string \<times> selection_cause list) list"

type_synonym origins = "(model_id \<times> string list) list"

fun include_terms ::
    "compilation \<Rightarrow> model_id list option \<Rightarrow> selector_term list \<Rightarrow> origins \<Rightarrow> origins
       \<Rightarrow> selector_error + origins \<times> origins" where
  "include_terms c changed [] matched expanded = Inr (matched, expanded)"
| "include_terms c changed (t # ts) matched expanded =
     (case base_match c t changed of
        Inl e \<Rightarrow> Inl e
      | Inr base \<Rightarrow>
          include_terms c changed ts (fold (\<lambda>i. bm_push i (term_text t)) base matched)
            (expand_term c t base expanded))"

fun filter_terms ::
    "compilation \<Rightarrow> model_id list option \<Rightarrow> selector_term list \<Rightarrow> model_id list option
       \<Rightarrow> selector_error + model_id list option" where
  "filter_terms c changed [] keep = Inr keep"
| "filter_terms c changed (t # ts) keep =
     (case base_match c t changed of
        Inl e \<Rightarrow> Inl e
      | Inr base \<Rightarrow>
          filter_terms c changed ts
            (Some (case keep of None \<Rightarrow> base | Some k \<Rightarrow> filter (\<lambda>i. i \<in> set base) k)))"

definition union_set :: "'a::linorder list \<Rightarrow> 'a list \<Rightarrow> 'a list" where
  "union_set a b = btree_set (a @ b)"

fun exclude_terms ::
    "compilation \<Rightarrow> model_id list option \<Rightarrow> selector_term list \<Rightarrow> model_id list
       \<Rightarrow> selector_error + model_id list" where
  "exclude_terms c changed [] excluded = Inr excluded"
| "exclude_terms c changed (t # ts) excluded =
     (case base_match c t changed of
        Inl e \<Rightarrow> Inl e
      | Inr base \<Rightarrow>
          (let removed = base;
               removed = (if term_upstream t then union_set removed (expand c removed True) else removed);
               removed = (if term_downstream t then union_set removed (expand c removed False) else removed)
           in exclude_terms c changed ts (union_set excluded removed)))"

definition retain :: "(model_id \<Rightarrow> bool) \<Rightarrow> origins \<Rightarrow> origins" where
  "retain P m = filter (\<lambda>e. P (fst e)) m"

definition flag_expansion ::
    "compilation \<Rightarrow> bool \<Rightarrow> bool \<Rightarrow> string \<Rightarrow> origins \<Rightarrow> origins \<Rightarrow> origins" where
  "flag_expansion c flag upstream text matched expanded =
     (if flag
      then let seed = map fst matched
           in push_expanded text seed (expand c seed upstream) expanded
      else expanded)"

definition selection_members :: "origins \<Rightarrow> origins \<Rightarrow> selected_model list" where
  "selection_members matched expanded =
     map (\<lambda>(i, ts). \<lparr>sel_id = logical_name i, sel_matched = ts,
            sel_expanded = (case map_of expanded i of Some es \<Rightarrow> es | None \<Rightarrow> [])\<rparr>) matched
     @ map (\<lambda>(i, es). \<lparr>sel_id = logical_name i, sel_matched = [], sel_expanded = es\<rparr>)
         (filter (\<lambda>e. map_of matched (fst e) = None) expanded)"

definition ordered_members :: "compilation \<Rightarrow> selected_model list \<Rightarrow> selected_model list" where
  "ordered_members c members =
     (let by_name = fold (\<lambda>m. bm_insert (sel_id m) m) members []
      in case topological_order (cp_graph c) of
           Some order \<Rightarrow> List.map_filter (\<lambda>i. map_of by_name (logical_name i)) order
         | None \<Rightarrow> map snd by_name)"

definition resolve_selection ::
    "compilation \<Rightarrow> selector_set \<Rightarrow> model_id list option \<Rightarrow> selector_error + selection" where
  "resolve_selection c s changed =
     (let matched = (if ss_include s = []
                     then fold (\<lambda>m. bm_push (cm_id m) ''*'') (cp_models c) [] else [])
      in case include_terms c changed (ss_include s) matched [] of
           Inl e \<Rightarrow> Inl e
         | Inr (matched, expanded) \<Rightarrow>
             (case filter_terms c changed (ss_filter s) None of
                Inl e \<Rightarrow> Inl e
              | Inr keep \<Rightarrow>
                  let kept = (\<lambda>i. case keep of None \<Rightarrow> True | Some k \<Rightarrow> i \<in> set k);
                      matched = retain kept matched;
                      expanded = retain kept expanded;
                      expanded = flag_expansion c (ss_expand_upstream s) True ''--upstream'' matched expanded;
                      expanded = flag_expansion c (ss_expand_downstream s) False ''--downstream'' matched expanded
                  in case exclude_terms c changed (ss_exclude s) [] of
                       Inl e \<Rightarrow> Inl e
                     | Inr excluded \<Rightarrow>
                         let matched = retain (\<lambda>i. i \<notin> set excluded) matched;
                             expanded = retain (\<lambda>i. i \<notin> set excluded) expanded
                         in Inr \<lparr>sel_members = ordered_members c (selection_members matched expanded),
                                 sel_excluded = map logical_name excluded,
                                 sel_terms = map term_text (ss_include s),
                                 sel_exclude_terms = map term_text (ss_exclude s),
                                 sel_causes = []\<rparr>))"

definition selection_all :: "compilation \<Rightarrow> selection" where
  "selection_all c =
     \<lparr>sel_members = ordered_members c
        (map (\<lambda>m. \<lparr>sel_id = logical_name (cm_id m), sel_matched = [''*''], sel_expanded = []\<rparr>) (cp_models c)),
      sel_excluded = [], sel_terms = [], sel_exclude_terms = [], sel_causes = []\<rparr>"

definition selection_of :: "compilation \<Rightarrow> model_id list \<Rightarrow> selection" where
  "selection_of c ids =
     \<lparr>sel_members = ordered_members c
        (map (\<lambda>i. \<lparr>sel_id = logical_name i, sel_matched = [logical_name i], sel_expanded = []\<rparr>) ids),
      sel_excluded = [], sel_terms = [], sel_exclude_terms = [], sel_causes = []\<rparr>"

definition parsed_ids :: "string list \<Rightarrow> model_id list" where
  "parsed_ids names =
     List.map_filter (\<lambda>n. case model_id_parse n of Inr i \<Rightarrow> Some i | Inl _ \<Rightarrow> None) names"

lemma parsed_ids_code [code]:
  "parsed_ids [] = []"
  "parsed_ids (n # ns) = (case model_id_parse n of Inr i \<Rightarrow> i # parsed_ids ns | Inl _ \<Rightarrow> parsed_ids ns)"
  by (simp_all add: parsed_ids_def map_filter_simps split: sum.split)

definition selection_ids :: "selection \<Rightarrow> model_id list" where
  "selection_ids s = parsed_ids (map sel_id (sel_members s))"

definition selection_get :: "selection \<Rightarrow> model_id \<Rightarrow> selected_model option" where
  "selection_get s i = find (\<lambda>m. sel_id m = logical_name i) (sel_members s)"

definition selection_contains :: "selection \<Rightarrow> model_id \<Rightarrow> bool" where
  "selection_contains s i \<longleftrightarrow> selection_get s i \<noteq> None"

definition excluded_ids :: "selection \<Rightarrow> model_id list" where
  "excluded_ids s = btree_set (parsed_ids (sel_excluded s))"

section \<open>Selections as sets\<close>

definition direction :: "compilation \<Rightarrow> bool \<Rightarrow> model_id \<Rightarrow> model_id list" where
  "direction c upstream = (if upstream then upstream_of (cp_graph c) else dependents (cp_graph c))"

definition reach :: "compilation \<Rightarrow> bool \<Rightarrow> model_id set \<Rightarrow> model_id set" where
  "reach c upstream S = reached (direction c upstream) S"

lemma expand_reaches:
  assumes "sorted seed" "distinct seed"
  shows "set (expand c seed upstream) = reach c upstream (set seed) \<and>
    sorted (expand c seed upstream) \<and> distinct (expand c seed upstream)"
  using up.walk_reaches [OF assms, of "cp_graph c"] down.walk_reaches [OF assms, of "cp_graph c"]
  by (cases upstream) (auto simp: expand_def reach_def direction_def)

definition keys :: "origins \<Rightarrow> model_id set" where
  "keys m = fst ` set m"

lemma keys_push: "keys (bm_push i t m) = insert i (keys m)"
  using bm_insert_keys [of i _ m] by (simp add: keys_def bm_push_def)

lemma ok_push: "bm_ok m \<Longrightarrow> bm_ok (bm_push i t m)"
  by (simp add: bm_push_def bm_insert_ok)

lemma fold_push: "keys (fold (\<lambda>i. bm_push i t) js m) = keys m \<union> set js"
  by (induction js arbitrary: m) (simp_all add: keys_push)

lemma fold_push_ok: "bm_ok m \<Longrightarrow> bm_ok (fold (\<lambda>i. bm_push i t) js m)"
  by (induction js arbitrary: m) (simp_all add: ok_push)

lemma push_expanded_keys:
  "keys (push_expanded t seed js m) = keys m \<union> (set js - set seed)"
  unfolding push_expanded_def by (induction js arbitrary: m) (auto simp: keys_push)

lemma push_expanded_ok: "bm_ok m \<Longrightarrow> bm_ok (push_expanded t seed js m)"
  unfolding push_expanded_def by (induction js arbitrary: m) (simp_all add: ok_push)

lemma keys_retain: "keys (retain P m) = {i \<in> keys m. P i}" "bm_ok m \<Longrightarrow> bm_ok (retain P m)"
  by (auto simp: keys_def retain_def bm_ok_def sorted_wrt_map sorted_wrt_filter)

lemma keys_sorted: "bm_ok m \<Longrightarrow> sorted (map fst m) \<and> distinct (map fst m)"
  by (simp add: bm_ok_def strict_sorted_iff)

lemma set_keys: "set (map fst m) = keys m"
  by (simp add: keys_def)

text \<open>The terms recorded for a model.\<close>

definition got :: "model_id \<Rightarrow> origins \<Rightarrow> string list" where
  "got i m = (case map_of m i of Some ts \<Rightarrow> ts | None \<Rightarrow> [])"

lemma got_nil [simp]: "got i [] = []"
  by (simp add: got_def)

lemma got_push: "bm_ok m \<Longrightarrow> got i (bm_push j t m) = got i m @ (if j = i then [t] else [])"
  by (auto simp: got_def bm_push_def bm_insert_get split: option.split)

lemma got_fold_push:
  "bm_ok m \<Longrightarrow> distinct js \<Longrightarrow>
     got i (fold (\<lambda>j. bm_push j t) js m) = got i m @ (if i \<in> set js then [t] else [])"
  by (induction js arbitrary: m) (auto simp: got_push ok_push)

lemma got_push_expanded:
  "bm_ok m \<Longrightarrow> distinct js \<Longrightarrow> got i (push_expanded t seed js m) =
     got i m @ (if i \<in> set js - set seed then [t] else [])"
  unfolding push_expanded_def by (induction js arbitrary: m) (auto simp: got_push ok_push)

lemma got_retain: "bm_ok m \<Longrightarrow> got i (retain P m) = (if P i then got i m else [])"
proof -
  have "map_of (filter (\<lambda>e. P (fst e)) m) i = (if P i then map_of m i else None)"
    by (induction m) auto
  then show ?thesis by (simp add: got_def retain_def)
qed

lemma got_stars:
  assumes "distinct (map cm_id ms)"
  shows "got i (fold (\<lambda>m. bm_push (cm_id m) t) ms []) = (if i \<in> cm_id ` set ms then [t] else [])"
  using got_fold_push [of "[]" "map cm_id ms" i t] assms by (simp add: fold_map comp_def bm_ok_def)

text \<open>The models a term matches, and those its \<open>+\<close> signs add.\<close>

definition matches :: "compilation \<Rightarrow> model_id list option \<Rightarrow> selector_term \<Rightarrow> model_id set" where
  "matches c changed t = (case base_match c t changed of Inr base \<Rightarrow> set base | Inl _ \<Rightarrow> {})"

definition additions :: "compilation \<Rightarrow> model_id list option \<Rightarrow> selector_term \<Rightarrow> model_id set" where
  "additions c changed t =
     ((if term_upstream t then reach c True (matches c changed t) else {}) \<union>
      (if term_downstream t then reach c False (matches c changed t) else {})) - matches c changed t"

text \<open>
  What an exclude term removes by the term grammar at the head of the file: the models it matches and those
  its signs add, as for an include term.
\<close>

definition exclusion :: "compilation \<Rightarrow> model_id list option \<Rightarrow> selector_term \<Rightarrow> model_id set" where
  "exclusion c changed t = matches c changed t \<union> additions c changed t"

text \<open>What the loop over the exclude terms collects: downwards from what it has already, ancestors included.\<close>

definition removed_by :: "compilation \<Rightarrow> model_id list option \<Rightarrow> selector_term \<Rightarrow> model_id set" where
  "removed_by c changed t =
     (let up = matches c changed t \<union>
                 (if term_upstream t then reach c True (matches c changed t) else {})
      in up \<union> (if term_downstream t then reach c False up else {}))"

lemma removed_by_exclusion:
  "\<not> (term_upstream t \<and> term_downstream t) \<Longrightarrow> removed_by c changed t = exclusion c changed t"
  by (auto simp: removed_by_def exclusion_def additions_def Let_def)

definition sorted_set :: "model_id list \<Rightarrow> bool" where
  "sorted_set xs \<longleftrightarrow> sorted xs \<and> distinct xs"

abbreviation ids_of :: "compilation \<Rightarrow> model_id set" where
  "ids_of c \<equiv> cm_id ` set (cp_models c)"

lemma base_match_ids:
  assumes "wf_compilation c" "\<And>ch. changed = Some ch \<Longrightarrow> sorted_set ch"
    and "base_match c t changed = Inr base"
  shows "sorted_set base" "set base \<subseteq> ids_of c"
proof -
  have pick: "sorted_set (btree_set (map cm_id (filter P (cp_models c)))) \<and>
      set (btree_set (map cm_id (filter P (cp_models c)))) \<subseteq> ids_of c" for P
    by (auto simp: sorted_set_def)
  have ch: "sorted_set (filter (\<lambda>i. compilation_model c i \<noteq> None) ch) \<and>
      set (filter (\<lambda>i. compilation_model c i \<noteq> None) ch) \<subseteq> ids_of c" if "changed = Some ch" for ch
    using assms(2) [OF that] compilation_model_None [OF assms(1)]
    by (auto simp: sorted_set_def sorted_wrt_filter)
  have km: "sorted_set m \<and> set m \<subseteq> ids_of c" if k: "kind_match c k changed = Some m" for k m
  proof (cases "k = KChanged")
    case True
    with k obtain ch' where "changed = Some ch'" "m = filter (\<lambda>i. compilation_model c i \<noteq> None) ch'"
      by (auto simp: kind_match_def)
    with ch [of ch'] show ?thesis by (simp only:)
  next
    case False
    then have "\<exists>P. kind_match c k changed = Some (btree_set (map cm_id (filter P (cp_models c))))"
      by (cases k) (simp_all only: kind_match_def Let_def selector_kind.case, blast+)
    then obtain P where "m = btree_set (map cm_id (filter P (cp_models c)))"
      using k by auto
    then show ?thesis using pick [of P] by (simp only:)
  qed
  have nm: "sorted_set m \<and> set m \<subseteq> ids_of c" if m: "match_name c p t = Inr m" for p m
  proof (cases "known_name c p")
    case (Some i)
    then obtain cm where "compilation_model c i = Some cm"
      by (auto simp: known_name_def split: sum.splits if_splits)
    then have "i \<in> ids_of c" using compilation_model_Some [OF assms(1), of i cm] by auto
    with m Some show ?thesis by (auto simp: match_name_def sorted_set_def)
  next
    case None
    show ?thesis
    proof (cases "strip_suffix ''.*'' p")
      case (Some prefix)
      then have "m = glob_match c prefix"
        using m None by (simp add: match_name_def Let_def split: if_splits)
      then show ?thesis using pick by (simp only: glob_match_def)
    next
      case n2: None
      obtain i where i: "suffix_match c p = [i]" "m = [i]"
        using m None n2 by (auto simp: match_name_def split: list.splits)
      have "set (suffix_match c p) \<subseteq> ids_of c" by (auto simp: suffix_match_def)
      with i show ?thesis by (auto simp: sorted_set_def)
    qed
  qed
  have "sorted_set base \<and> set base \<subseteq> ids_of c"
  proof (cases "\<exists>p. term_kind t = KName p")
    case True
    then obtain p where "match_name c p t = Inr base"
      using assms(3) by (auto simp: base_match_def)
    then show ?thesis by (rule nm)
  next
    case False
    then have "kind_match c (term_kind t) changed = Some base"
      using assms(3)
      by (cases "term_kind t") (auto simp: base_match_def split: option.splits if_splits)
    then show ?thesis by (rule km)
  qed
  then show "sorted_set base" "set base \<subseteq> ids_of c" by simp_all
qed

lemma direction_ids:
  assumes "wf_compilation c" "S \<subseteq> ids_of c"
  shows "reach c upstream S \<subseteq> ids_of c"
proof -
  have g: "wf_graph (cp_graph c)" "set (graph_model_ids (cp_graph c)) = ids_of c"
    using compilation_graph [OF assms(1)] by auto
  have "set (direction c upstream a) \<subseteq> ids_of c" for a
    using model_deps_ids [OF g(1)] g(2)
    by (auto simp: direction_def upstream_of_def model_deps_def dependents_deps [OF g(1)])
  then show ?thesis
    using up.reached_closed [of S "ids_of c" "cp_graph c"] assms(2)
      down.reached_closed [of S "ids_of c" "cp_graph c"]
    by (cases upstream) (simp_all add: direction_def reach_def)
qed

text \<open>What the loops over terms compute.\<close>

lemma expand_term_keys:
  assumes "sorted_set base" "base_match c t changed = Inr base"
  shows "keys (expand_term c t base e) = keys e \<union> additions c changed t"
    "bm_ok e \<Longrightarrow> bm_ok (expand_term c t base e)"
proof -
  have x: "set (expand c base u) = reach c u (set base)" for u
    using expand_reaches assms(1) by (simp add: sorted_set_def)
  show "keys (expand_term c t base e) = keys e \<union> additions c changed t"
    using assms(2) by (auto simp: expand_term_def Let_def push_expanded_keys x additions_def matches_def)
  show "bm_ok e \<Longrightarrow> bm_ok (expand_term c t base e)"
    by (simp add: expand_term_def Let_def push_expanded_ok)
qed

lemma include_terms_keys:
  assumes "wf_compilation c" "\<And>ch. changed = Some ch \<Longrightarrow> sorted_set ch"
  shows "include_terms c changed ts m e = Inr (m', e') \<Longrightarrow> bm_ok m \<Longrightarrow> bm_ok e \<Longrightarrow>
    bm_ok m' \<and> bm_ok e' \<and> keys m' = keys m \<union> (\<Union>t \<in> set ts. matches c changed t) \<and>
    keys e' = keys e \<union> (\<Union>t \<in> set ts. additions c changed t)"
proof (induction ts arbitrary: m e)
  case Nil
  then show ?case by simp
next
  case (Cons t ts)
  then obtain base where b: "base_match c t changed = Inr base"
    and rest: "include_terms c changed ts (fold (\<lambda>i. bm_push i (term_text t)) base m)
      (expand_term c t base e) = Inr (m', e')"
    by (auto split: sum.splits)
  have s: "sorted_set base" by (rule base_match_ids(1) [OF assms b])
  have "matches c changed t = set base" using b by (simp add: matches_def)
  with Cons.IH [OF rest] Cons.prems expand_term_keys [OF s b] show ?case
    by (auto simp: fold_push fold_push_ok)
qed

text \<open>The signs of a term leave its text with each model they add, once for each sign that adds it.\<close>

definition marks :: "compilation \<Rightarrow> model_id list option \<Rightarrow> model_id \<Rightarrow> selector_term \<Rightarrow> string list" where
  "marks c changed i t =
     (if i \<in> matches c changed t then []
      else (if term_upstream t \<and> i \<in> reach c True (matches c changed t) then [term_text t] else []) @
           (if term_downstream t \<and> i \<in> reach c False (matches c changed t) then [term_text t] else []))"

lemma got_expand_term:
  assumes "sorted_set base" "base_match c t changed = Inr base" "bm_ok e"
  shows "got i (expand_term c t base e) = got i e @ marks c changed i t"
proof -
  have x: "set (expand c base u) = reach c u (set base)" "distinct (expand c base u)" for u
    using expand_reaches assms(1) by (simp_all add: sorted_set_def)
  then show ?thesis
    using assms(2,3)
    by (simp add: expand_term_def Let_def got_push_expanded push_expanded_ok marks_def matches_def)
qed

lemma got_include_terms:
  assumes "wf_compilation c" "\<And>ch. changed = Some ch \<Longrightarrow> sorted_set ch"
  shows "include_terms c changed ts m e = Inr (m', e') \<Longrightarrow> bm_ok m \<Longrightarrow> bm_ok e \<Longrightarrow>
    got i m' = got i m @ map term_text (filter (\<lambda>t. i \<in> matches c changed t) ts) \<and>
    got i e' = got i e @ concat (map (marks c changed i) ts)"
proof (induction ts arbitrary: m e)
  case (Cons t ts)
  then obtain base where b: "base_match c t changed = Inr base"
    and rest: "include_terms c changed ts (fold (\<lambda>i. bm_push i (term_text t)) base m)
      (expand_term c t base e) = Inr (m', e')"
    by (auto split: sum.splits)
  have s: "sorted_set base" by (rule base_match_ids(1) [OF assms b])
  then have "distinct base" by (simp add: sorted_set_def)
  moreover have "matches c changed t = set base" using b by (simp add: matches_def)
  ultimately show ?case
    using Cons.IH [OF rest] Cons.prems(2,3) got_expand_term [OF s b Cons.prems(3)]
    by (simp add: got_fold_push fold_push_ok expand_term_keys(2) [OF s b])
qed simp

lemma filter_terms_keep:
  "filter_terms c changed ts keep = Inr keep' \<Longrightarrow>
     (case keep' of None \<Rightarrow> UNIV | Some k \<Rightarrow> set k) =
       (case keep of None \<Rightarrow> UNIV | Some k \<Rightarrow> set k) \<inter> (\<Inter>t \<in> set ts. matches c changed t)"
proof (induction ts arbitrary: keep)
  case Nil
  then show ?case by simp
next
  case (Cons t ts)
  then obtain base where b: "base_match c t changed = Inr base"
    and rest: "filter_terms c changed ts
        (Some (case keep of None \<Rightarrow> base | Some k \<Rightarrow> filter (\<lambda>i. i \<in> set base) k)) = Inr keep'"
    by (auto split: sum.splits)
  have "matches c changed t = set base" using b by (simp add: matches_def)
  with Cons.IH [OF rest] show ?case by (cases keep) auto
qed

lemma set_union_set [simp]: "set (union_set a b) = set a \<union> set b"
  by (simp add: union_set_def)

lemma sorted_union_set: "sorted_set (union_set a b)"
  by (simp add: union_set_def sorted_set_def)

lemma exclude_terms_set:
  assumes "wf_compilation c" "\<And>ch. changed = Some ch \<Longrightarrow> sorted_set ch"
  shows "exclude_terms c changed ts x = Inr x' \<Longrightarrow>
    set x' = set x \<union> (\<Union>t \<in> set ts. removed_by c changed t)"
proof (induction ts arbitrary: x)
  case Nil
  then show ?case by simp
next
  case (Cons t ts)
  then obtain base where b: "base_match c t changed = Inr base" by (auto split: sum.splits)
  have s: "sorted_set base" by (rule base_match_ids(1) [OF assms b])
  let ?u = "if term_upstream t then union_set base (expand c base True) else base"
  let ?d = "if term_downstream t then union_set ?u (expand c ?u False) else ?u"
  have x: "set (expand c xs u) = reach c u (set xs)" if "sorted_set xs" for xs u
    using expand_reaches that by (simp add: sorted_set_def)
  have su: "sorted_set ?u" using s by (simp add: sorted_union_set)
  have m: "matches c changed t = set base" using b by (simp add: matches_def)
  have "set ?u = set base \<union> (if term_upstream t then reach c True (set base) else {})"
    using x [OF s] by simp
  then have "set ?d = removed_by c changed t"
    using x [OF su] by (simp add: removed_by_def m Let_def)
  moreover have "exclude_terms c changed ts (union_set x ?d) = Inr x'"
    using Cons.prems b by (simp add: Let_def)
  ultimately show ?case using Cons.IH by auto
qed

lemma flag_expansion_keys:
  assumes "bm_ok m"
  shows "keys (flag_expansion c flag u t m e) =
      keys e \<union> (if flag then reach c u (keys m) - keys m else {})"
    "bm_ok e \<Longrightarrow> bm_ok (flag_expansion c flag u t m e)"
  using keys_sorted [OF assms] expand_reaches [of "map fst m" c u]
  by (auto simp: flag_expansion_def Let_def push_expanded_keys push_expanded_ok set_keys simp del: set_map)

lemma got_flag_expansion:
  assumes "bm_ok m" "bm_ok e"
  shows "got i (flag_expansion c flag u t m e) =
      got i e @ (if flag \<and> i \<in> reach c u (keys m) - keys m then [t] else [])"
  using keys_sorted [OF assms(1)] expand_reaches [of "map fst m" c u] assms(2)
  by (simp add: flag_expansion_def Let_def got_push_expanded set_keys del: set_map)

lemma fold_star: "keys (fold (\<lambda>m. bm_push (cm_id m) t) ms o0) = keys o0 \<union> cm_id ` set ms"
  "bm_ok o0 \<Longrightarrow> bm_ok (fold (\<lambda>m. bm_push (cm_id m) t) ms o0)"
  by (induction ms arbitrary: o0) (simp_all add: keys_push ok_push)

text \<open>The selection as a set, from what each term matches.\<close>

definition kept_by_filters :: "compilation \<Rightarrow> selector_set \<Rightarrow> model_id list option \<Rightarrow> model_id set" where
  "kept_by_filters c s changed = (\<Inter>t \<in> set (ss_filter s). matches c changed t)"

definition direct_set :: "compilation \<Rightarrow> selector_set \<Rightarrow> model_id list option \<Rightarrow> model_id set" where
  "direct_set c s changed =
     (if ss_include s = [] then ids_of c else (\<Union>t \<in> set (ss_include s). matches c changed t)) \<inter>
       kept_by_filters c s changed"

definition selected_set :: "compilation \<Rightarrow> selector_set \<Rightarrow> model_id list option \<Rightarrow> model_id set" where
  "selected_set c s changed =
     (let base = direct_set c s changed;
          added = (\<Union>t \<in> set (ss_include s). additions c changed t) \<inter> kept_by_filters c s changed
      in (base \<union> added \<union>
            (if ss_expand_upstream s then reach c True base else {}) \<union>
            (if ss_expand_downstream s then reach c False base else {}))
         - (\<Union>t \<in> set (ss_exclude s). exclusion c changed t))"

text \<open>
  How a selected model is explained: the include terms that match it, then the include terms whose signs add
  it and the flags that add it to the matched and kept models.
\<close>

definition explained :: "compilation \<Rightarrow> selector_set \<Rightarrow> model_id list option \<Rightarrow> model_id \<Rightarrow> selected_model" where
  "explained c s changed i =
     (let base = direct_set c s changed
      in \<lparr>sel_id = logical_name i,
          sel_matched =
            (if i \<notin> base then [] else if ss_include s = [] then [''*'']
             else map term_text (filter (\<lambda>t. i \<in> matches c changed t) (ss_include s))),
          sel_expanded =
            (if i \<in> kept_by_filters c s changed then concat (map (marks c changed i) (ss_include s)) else []) @
            (if ss_expand_upstream s \<and> i \<in> reach c True base - base then [''--upstream''] else []) @
            (if ss_expand_downstream s \<and> i \<in> reach c False base - base then [''--downstream''] else [])\<rparr>)"

lemma members_set:
  assumes "bm_ok m" "bm_ok e"
  shows "set (selection_members m e) =
    (\<lambda>i. \<lparr>sel_id = logical_name i, sel_matched = got i m, sel_expanded = got i e\<rparr>) ` (keys m \<union> keys e)"
proof -
  let ?f = "\<lambda>i. \<lparr>sel_id = logical_name i, sel_matched = got i m, sel_expanded = got i e\<rparr>"
  have here: "got (fst x) m' = snd x" if "bm_ok m'" "x \<in> set m'" for x and m' :: origins
    using bm.entry_iff [OF that(1), of "fst x" "snd x"] that(2) by (simp add: got_def)
  have matched: "(\<lambda>(i, ts). \<lparr>sel_id = logical_name i, sel_matched = ts,
        sel_expanded = (case map_of e i of Some es \<Rightarrow> es | None \<Rightarrow> [])\<rparr>) ` set m = ?f ` keys m"
    unfolding keys_def image_image by (rule image_cong) (auto simp: here [OF assms(1)] got_def [of _ e])
  have "(\<lambda>(i, es). \<lparr>sel_id = logical_name i, sel_matched = [], sel_expanded = es\<rparr>) `
      {x \<in> set e. map_of m (fst x) = None} = ?f ` fst ` {x \<in> set e. map_of m (fst x) = None}"
    unfolding image_image by (rule image_cong) (auto simp: here [OF assms(2)] got_def [of _ m])
  moreover have "fst ` {x \<in> set e. map_of m (fst x) = None} = keys e - keys m"
    by (auto simp: keys_def map_of_eq_None_iff)
  ultimately show ?thesis
    using matched by (simp add: selection_members_def Un_Diff_cancel flip: image_Un)
qed

lemma resolve_selection_origins:
  assumes "wf_compilation c" "\<And>ch. changed = Some ch \<Longrightarrow> sorted_set ch"
    and "\<forall>t \<in> set (ss_exclude s). \<not> (term_upstream t \<and> term_downstream t)"
    and "resolve_selection c s changed = Inr sel"
  shows "\<exists>members. sel_members sel = ordered_members c members \<and>
    set members = explained c s changed ` selected_set c s changed"
proof -
  let ?m0 = "if ss_include s = [] then fold (\<lambda>m. bm_push (cm_id m) ''*'') (cp_models c) [] else []"
  obtain m1 e1 where inc: "include_terms c changed (ss_include s) ?m0 [] = Inr (m1, e1)"
    using assms(4) by (auto simp: resolve_selection_def Let_def split: sum.splits)
  obtain keep where keep: "filter_terms c changed (ss_filter s) None = Inr keep"
    using assms(4) inc by (auto simp: resolve_selection_def Let_def split: sum.splits)
  obtain x where x: "exclude_terms c changed (ss_exclude s) [] = Inr x"
    using assms(4) inc keep by (auto simp: resolve_selection_def Let_def split: sum.splits)
  define kept where "kept i \<longleftrightarrow> (case keep of None \<Rightarrow> True | Some k \<Rightarrow> i \<in> set k)" for i
  define m2 where "m2 = retain kept m1"
  define e2 where "e2 = retain kept e1"
  define e3 where "e3 = flag_expansion c (ss_expand_upstream s) True ''--upstream'' m2 e2"
  define e4 where "e4 = flag_expansion c (ss_expand_downstream s) False ''--downstream'' m2 e3"
  define m5 where "m5 = retain (\<lambda>i. i \<notin> set x) m2"
  define e5 where "e5 = retain (\<lambda>i. i \<notin> set x) e4"
  have sel: "sel_members sel = ordered_members c (selection_members m5 e5)"
    using assms(4) inc keep x
    by (auto simp: resolve_selection_def Let_def m5_def e5_def e4_def e3_def e2_def m2_def kept_def [abs_def])
  have distinct: "distinct (map cm_id (cp_models c))" using assms(1) by (simp add: wf_compilation_def)
  have ok0: "bm_ok ?m0" by (simp add: fold_star)
  have k0: "keys ?m0 = (if ss_include s = [] then ids_of c else {})"
    "got i ?m0 = (if ss_include s = [] \<and> i \<in> ids_of c then [''*''] else [])" for i
    by (simp_all add: fold_star got_stars [OF distinct]) (simp add: keys_def)
  have nil: "keys [] = {}" "bm_ok ([] :: origins)" by (simp_all add: keys_def bm_ok_def)
  note k1 = include_terms_keys [OF assms(1,2) inc ok0 nil(2)] and g1 = got_include_terms [OF assms(1,2) inc ok0 nil(2)]
  have ok1: "bm_ok m1" "bm_ok e1" "bm_ok m2" "bm_ok e2" using k1 by (simp_all add: m2_def e2_def keys_retain(2))
  have ok3: "bm_ok e3" "bm_ok e4" by (simp_all add: e3_def e4_def flag_expansion_keys(2) ok1)
  have ok5: "bm_ok m5" "bm_ok e5" by (simp_all add: m5_def e5_def keys_retain(2) ok1 ok3)
  have kk: "{i. kept i} = kept_by_filters c s changed"
    using filter_terms_keep [OF keep] by (cases keep) (auto simp: kept_def kept_by_filters_def)
  then have kept: "kept i \<longleftrightarrow> i \<in> kept_by_filters c s changed" for i by blast
  have kx: "set x = (\<Union>t \<in> set (ss_exclude s). exclusion c changed t)"
    using exclude_terms_set [OF assms(1,2) x] removed_by_exclusion assms(3) by simp
  have "keys m1 = keys ?m0 \<union> (\<Union>t \<in> set (ss_include s). matches c changed t)"
    "keys e1 = (\<Union>t \<in> set (ss_include s). additions c changed t)"
    using k1 by (simp_all add: nil)
  note k1' = this
  have base: "keys m2 = direct_set c s changed"
    by (auto simp: m2_def keys_retain(1) k1' k0 kept direct_set_def)
  have added: "keys e2 = (\<Union>t \<in> set (ss_include s). additions c changed t) \<inter> kept_by_filters c s changed"
    by (auto simp: e2_def keys_retain(1) k1' kept)
  have "keys m5 \<union> keys e5 = selected_set c s changed"
    unfolding selected_set_def Let_def added [symmetric] base [symmetric] kx [symmetric]
    by (auto simp: m5_def e5_def keys_retain e4_def e3_def flag_expansion_keys(1) [OF ok1(3)])
  moreover have "\<lparr>sel_id = logical_name i, sel_matched = got i m5, sel_expanded = got i e5\<rparr> = explained c s changed i"
    if i: "i \<in> keys m5 \<union> keys e5" for i
  proof -
    have "i \<notin> set x" using i by (auto simp: m5_def e5_def keys_retain)
    then have "got i m5 = got i m2" "got i e5 = got i e4"
      by (simp_all add: m5_def e5_def got_retain ok1 ok3)
    moreover have "got i m2 = sel_matched (explained c s changed i)"
      using g1 [of i] k1 by (auto simp: m2_def got_retain ok1 k0 kept explained_def Let_def direct_set_def)
    moreover have "got i e2 = (if i \<in> kept_by_filters c s changed then concat (map (marks c changed i) (ss_include s)) else [])"
      using g1 [of i] by (simp add: e2_def got_retain ok1 kept)
    moreover have "got i e3 = got i e2 @
        (if ss_expand_upstream s \<and> i \<in> reach c True (keys m2) - keys m2 then [''--upstream''] else [])"
      "got i e4 = got i e3 @
        (if ss_expand_downstream s \<and> i \<in> reach c False (keys m2) - keys m2 then [''--downstream''] else [])"
      unfolding e3_def e4_def
      by (rule got_flag_expansion; simp add: ok1 ok3 [unfolded e3_def])+
    ultimately show ?thesis by (simp add: explained_def Let_def base)
  qed
  ultimately have "set (selection_members m5 e5) = explained c s changed ` selected_set c s changed"
    by (auto simp: members_set [OF ok5] image_def)
  with sel show ?thesis by blast
qed

lemma matches_ids:
  assumes "wf_compilation c" "\<And>ch. changed = Some ch \<Longrightarrow> sorted_set ch"
  shows "matches c changed t \<subseteq> ids_of c"
  using base_match_ids(2) [OF assms] by (auto simp: matches_def split: sum.splits)

lemma selected_ids:
  assumes "wf_compilation c" "\<And>ch. changed = Some ch \<Longrightarrow> sorted_set ch"
  shows "selected_set c s changed \<subseteq> ids_of c"
proof -
  note m = matches_ids [OF assms] and r = direction_ids [OF assms(1)]
  have a: "additions c changed t \<subseteq> ids_of c" for t
    using r [of "matches c changed t"] m [where t = t] by (auto simp: additions_def split: if_splits)
  define B where "B = direct_set c s changed"
  define A where "A = (\<Union>t \<in> set (ss_include s). additions c changed t) \<inter> kept_by_filters c s changed"
  have B: "B \<subseteq> ids_of c" using m unfolding B_def direct_set_def by (simp add: UN_least le_infI1)
  have A: "A \<subseteq> ids_of c" using a unfolding A_def by (simp add: UN_least le_infI1)
  have "selected_set c s changed \<subseteq> B \<union> A \<union> reach c True B \<union> reach c False B"
    unfolding selected_set_def Let_def B_def [symmetric] A_def [symmetric]
    by (cases "ss_expand_upstream s"; cases "ss_expand_downstream s") (simp_all, blast+)
  with A B r [OF B] show ?thesis by (meson Un_least subset_trans)
qed

lemma members_lookup:
  "map_of (fold (\<lambda>m. bm_insert (sel_id m) m) members []) n =
     find (\<lambda>m. sel_id m = n) (rev members)"
  using bm.get_fold_put [where m = "[]" and key = sel_id and val = "\<lambda>m. m" and xs = members and k = n]
  by (simp split: option.splits)

text \<open>Members named after different models of the compilation are found by name, and listed in order.\<close>

lemma ordered_members_eq:
  assumes "set members = f ` S" "\<And>i. sel_id (f i) = logical_name i" "inj_on logical_name (S \<union> set order)"
  shows "List.map_filter (\<lambda>i. find (\<lambda>m. sel_id m = logical_name i) (rev members)) order =
    map f (filter (\<lambda>i. i \<in> S) order)"
proof -
  have "find (\<lambda>m. sel_id m = logical_name i) (rev members) = (if i \<in> S then Some (f i) else None)"
    if i: "i \<in> set order" for i
  proof -
    have same: "j = i" if "j \<in> S" "logical_name j = logical_name i" for j
      using assms(3) that i by (auto dest: inj_onD)
    show ?thesis
    proof (cases "find (\<lambda>m. sel_id m = logical_name i) (rev members)")
      case None
      then show ?thesis using assms(1,2) by (auto simp: find_None_iff)
    next
      case (Some m)
      then have "m \<in> f ` S" "sel_id m = logical_name i" using find_SomeD [OF Some] assms(1) by auto
      then obtain j where j: "j \<in> S" "m = f j" "logical_name j = logical_name i" using assms(2) by auto
      with same [OF j(1,3)] Some show ?thesis by simp
    qed
  qed
  then show ?thesis by (induction order) (simp_all add: map_filter_simps)
qed

lemma ordered_members_set:
  assumes "topological_order (cp_graph c) = None"
    and "set members = f ` S" "\<And>i. sel_id (f i) = logical_name i" "inj_on logical_name S"
  shows "set (ordered_members c members) = set members"
proof -
  let ?b = "fold (\<lambda>m. bm_insert (sel_id m) m) members []"
  have ok: "bm_ok ?b" by (rule bm.invar_fold_put) simp
  have get: "map_of ?b n = find (\<lambda>m. sel_id m = n) (rev members)" for n by (rule members_lookup)
  have "m \<in> set (map snd ?b) \<longleftrightarrow> m \<in> set members" for m
  proof
    assume "m \<in> set (map snd ?b)"
    then obtain k where "map_of ?b k = Some m" using bm.entry_iff [OF ok] by auto
    then show "m \<in> set members" using find_SomeD [of _ "rev members" m] by (simp add: get)
  next
    assume m: "m \<in> set members"
    then obtain m' where m': "find (\<lambda>x. sel_id x = sel_id m) (rev members) = Some m'"
      by (cases "find (\<lambda>x. sel_id x = sel_id m) (rev members)") (auto simp: find_None_iff)
    then have "m' \<in> set members" "sel_id m' = sel_id m" using find_SomeD [OF m'] by auto
    then have "m' = m" using m assms(2-4) by (auto dest: inj_onD)
    then have "(sel_id m, m) \<in> set ?b" using m' by (simp add: bm.entry_iff [OF ok] get)
    then show "m \<in> set (map snd ?b)" by force
  qed
  with assms(1) show ?thesis by (auto simp: ordered_members_def Let_def)
qed

section \<open>Parsing terms\<close>

definition kind_text :: "selector_kind \<Rightarrow> string" where
  "kind_text k =
     (case k of KName n \<Rightarrow> n | KTag v \<Rightarrow> ''tag:'' @ v | KNamespace v \<Rightarrow> ''namespace:'' @ v
      | KSource v \<Rightarrow> ''source:'' @ v | KChanged \<Rightarrow> ''changed'' | KAll \<Rightarrow> ''*'')"

text \<open>Kinds whose text stands for nothing else: values are present and no name reads as a keyword.\<close>

definition readable_kind :: "selector_kind \<Rightarrow> bool" where
  "readable_kind k \<longleftrightarrow>
     plain_byte (hd (kind_text k)) \<and> plain_byte (last (kind_text k)) \<and> CHR ''+'' \<notin> set (kind_text k) \<and>
     (case k of
        KName n \<Rightarrow> n \<noteq> [] \<and> n \<noteq> ''changed'' \<and> n \<noteq> ''all'' \<and> n \<noteq> ''*'' \<and>
          (case split_once CHR '':'' n of None \<Rightarrow> True | Some (_, v) \<Rightarrow> starts_with ''//'' v)
      | KTag v \<Rightarrow> v \<noteq> [] \<and> \<not> starts_with ''//'' v
      | KNamespace v \<Rightarrow> v \<noteq> [] \<and> \<not> starts_with ''//'' v
      | KSource v \<Rightarrow> v \<noteq> [] \<and> \<not> starts_with ''//'' v
      | _ \<Rightarrow> True)"

definition term_render :: "bool \<Rightarrow> bool \<Rightarrow> string \<Rightarrow> string" where
  "term_render upstream downstream body =
     (if upstream then ''+'' else []) @ body @ (if downstream then ''+'' else [])"

lemma kind_text_nonempty: "readable_kind k \<Longrightarrow> kind_text k \<noteq> []"
  by (cases k) (auto simp: readable_kind_def kind_text_def)

lemma selector_kind_text: "readable_kind k \<Longrightarrow> selector_kind_of text (kind_text k) = Inr k"
  by (cases k) (auto simp: readable_kind_def kind_text_def selector_kind_of_def bare_kind_def
      split: option.splits)

lemma parse_rendered:
  assumes "CHR ''+'' \<notin> set body" "body \<noteq> []" "trim text = term_render up down body"
  shows "parse_selector text =
    (case selector_kind_of text body of
       Inl e \<Rightarrow> Inl e
     | Inr kind \<Rightarrow>
         Inr \<lparr>term_upstream = up, term_downstream = down, term_kind = kind, term_text = text\<rparr>)"
proof -
  have hd: "starts_with ''+'' (body @ s) = False" for s
    using assms(1,2) by (cases body) (auto simp: starts_with_iff)
  have lst: "ends_with ''+'' (s @ body) = False" for s
  proof -
    have "last body \<noteq> CHR ''+''" using assms(1,2) by (metis last_in_set)
    then have "last (s @ body) \<noteq> CHR ''+''" using assms(2) by simp
    then show ?thesis unfolding ends_with_iff by (metis last_snoc)
  qed
  have pl: "starts_with ''+'' (CHR ''+'' # s)" "ends_with ''+'' (s @ ''+'')" for s
    by (auto simp: starts_with_iff ends_with_iff)
  have "ends_with ''+'' body = False" using lst [of "[]"] by simp
  then show ?thesis
    using assms hd [of "[]"] hd [of "''+''"] pl
    by (cases up; cases down; cases "selector_kind_of text body")
      (simp_all add: parse_selector_def term_render_def Let_def butlast_append)
qed

section \<open>Properties\<close>

text \<open>
  Property C40. Every readable term parses back from its written form with its signs, and a text parses
  only as signs around a non-empty body that holds no \<open>+\<close>: a sign anywhere else is an error, never
  part of a name.
\<close>

theorem selector_round_trip:
  "(readable_kind k \<longrightarrow>
      parse_selector (term_render up down (kind_text k)) =
        Inr \<lparr>term_upstream = up, term_downstream = down, term_kind = k,
             term_text = term_render up down (kind_text k)\<rparr>) \<and>
   (parse_selector text = Inr t \<longrightarrow>
      (\<exists>body. trim text = term_render (term_upstream t) (term_downstream t) body \<and>
         body \<noteq> [] \<and> CHR ''+'' \<notin> set body \<and> selector_kind_of text body = Inr (term_kind t)))"
proof (intro conjI impI)
  assume r: "readable_kind k"
  let ?t = "term_render up down (kind_text k)"
  have "plain_byte (hd ?t)" "plain_byte (last ?t)" "?t \<noteq> []"
    using r kind_text_nonempty [OF r]
    by (auto simp: term_render_def readable_kind_def plain_byte_def hd_append last_append)
  then have "trim ?t = ?t" by (rule trim_plain [rotated])
  with r show "parse_selector ?t =
      Inr \<lparr>term_upstream = up, term_downstream = down, term_kind = k, term_text = ?t\<rparr>"
    using parse_rendered [of "kind_text k" ?t up down] kind_text_nonempty selector_kind_text
    by (simp add: readable_kind_def)
next
  assume p: "parse_selector text = Inr t"
  let ?r = "trim text"
  let ?r1 = "if starts_with ''+'' ?r then drop 1 ?r else ?r"
  let ?r2 = "if ends_with ''+'' ?r1 then butlast ?r1 else ?r1"
  from p have "CHR ''+'' \<notin> set ?r2" "?r2 \<noteq> []"
    "\<exists>kind. selector_kind_of text ?r2 = Inr kind \<and>
       t = \<lparr>term_upstream = starts_with ''+'' ?r, term_downstream = ends_with ''+'' ?r1,
            term_kind = kind, term_text = text\<rparr>"
    by (auto simp: parse_selector_def Let_def split: sum.splits if_splits)
  moreover have "?r = (if starts_with ''+'' ?r then ''+'' else []) @ ?r1"
    by (auto simp: starts_with_iff)
  moreover have "?r1 = ?r2 @ (if ends_with ''+'' ?r1 then ''+'' else [])"
    by (auto simp: ends_with_iff)
  ultimately show "\<exists>body. trim text = term_render (term_upstream t) (term_downstream t) body \<and>
      body \<noteq> [] \<and> CHR ''+'' \<notin> set body \<and> selector_kind_of text body = Inr (term_kind t)"
    by (intro exI [of _ ?r2]) (auto simp: term_render_def)
qed

theorem selector_round_trip_witness:
  "parse_selector ''+tag:qc+'' =
     Inr \<lparr>term_upstream = True, term_downstream = True, term_kind = KTag ''qc'', term_text = ''+tag:qc+''\<rparr>"
proof -
  have "readable_kind (KTag ''qc'')" by code_simp
  then show ?thesis
    using selector_round_trip [of "KTag ''qc''" True True] by (simp add: term_render_def kind_text_def)
qed

text \<open>
  Property C23. A selection that resolves, when no exclude term carries a sign at both ends, holds exactly
  the models its terms describe by the term grammar: what the include terms match (every model without one)
  with what their signs add, cut down by the filters, widened from the matched and kept models by the
  expansion flags, less what the exclude terms match and their own signs add, whoever pulled it in. Each
  member lists the include terms that match it, in their order, and then what else adds it: the include
  terms with a sign that reaches it from models they match, and the flags. The members of an acyclic
  compilation come in topological order.
\<close>

theorem selection_resolves:
  assumes "wf_compilation c" "\<And>ch. changed = Some ch \<Longrightarrow> sorted_set ch"
    and "\<And>m. m \<in> set (cp_models c) \<Longrightarrow> wf_model_id (cm_id m)"
    and "\<forall>t \<in> set (ss_exclude s). \<not> (term_upstream t \<and> term_downstream t)"
    and "resolve_selection c s changed = Inr sel"
  shows "set (sel_members sel) = explained c s changed ` selected_set c s changed \<and>
    (\<forall>order. topological_order (cp_graph c) = Some order \<longrightarrow>
       sel_members sel =
         map (explained c s changed) (filter (\<lambda>i. i \<in> selected_set c s changed) order))"
proof -
  let ?S = "selected_set c s changed" and ?f = "explained c s changed"
  obtain members where sel: "sel_members sel = ordered_members c members" and set: "set members = ?f ` ?S"
    using resolve_selection_origins [OF assms(1,2,4,5)] by blast
  have name: "sel_id (?f i) = logical_name i" for i by (simp add: explained_def Let_def)
  have inj: "inj_on logical_name (ids_of c)" using assms(3) by (auto intro!: inj_onI logical_name_inj)
  have sub: "?S \<subseteq> ids_of c" by (rule selected_ids [OF assms(1,2)])
  show ?thesis
  proof (cases "topological_order (cp_graph c)")
    case None
    then show ?thesis
      using ordered_members_set [OF None set name inj_on_subset [OF inj sub]] set by (simp add: sel)
  next
    case (Some order)
    have order: "set order = ids_of c"
      using topological_order_Some [OF compilation_graph(1) [OF assms(1)], of order] Some
        compilation_graph(2) [OF assms(1)] by simp
    have "?S \<union> set order = ids_of c" using sub order by auto
    then have "sel_members sel = map ?f (filter (\<lambda>i. i \<in> ?S) order)"
      using ordered_members_eq [OF set name, of order] inj
      by (simp add: sel ordered_members_def Some Let_def members_lookup)
    then show ?thesis using Some sub order by auto
  qed
qed

section \<open>Concrete selections\<close>

definition no_defaults :: workspace_defaults where
  "no_defaults = \<lparr>wd_materialization = View, wd_catalog = None, wd_schema = None\<rparr>"

definition diamond_workspace :: compilation where
  "diamond_workspace = the (compilation_new diamond_models [] [] no_defaults [])"

lemma diamond_compiled: "compilation_new diamond_models [] [] no_defaults [] = Some diamond_workspace"
  by (simp add: diamond_workspace_def compilation_new_def diamond_built)

lemma diamond_workspace_wf: "wf_compilation diamond_workspace"
proof (rule compilation_new_wf [OF _ diamond_compiled])
  show "distinct (map cm_id diamond_models)" by code_simp
qed

lemma diamond_workspace_models: "cp_models diamond_workspace = diamond_models"
  by (simp add: diamond_workspace_def compilation_new_def diamond_built)

lemma diamond_workspace_graph: "cp_graph diamond_workspace = diamond"
  by (simp add: diamond_workspace_def compilation_new_def diamond_built)

definition term_names :: "string list \<Rightarrow> string list \<Rightarrow> string list" where
  "term_names inc exc =
     (case selector_set_parse inc exc [] False False of
        Inl _ \<Rightarrow> [''selector error'']
      | Inr s \<Rightarrow>
          (case resolve_selection diamond_workspace s None of
             Inl _ \<Rightarrow> [''selection error'']
           | Inr sel \<Rightarrow> map sel_id (sel_members sel)))"

text \<open>
  The signs of an exclude term reach further than those of an include term: in the diamond
  a <- b, a <- c, b <- d, c <- d the term \<open>+b+\<close> includes b with its ancestor a and its dependent d, but
  excluding \<open>+b+\<close> also removes c, which is neither: the downward expansion starts from the
  ancestors already collected.
\<close>

theorem exclude_reaches_siblings:
  "term_names [''+m.b+''] [] = [''m.a'', ''m.b'', ''m.d''] \<and> term_names [] [''+m.b+''] = []"
  by code_simp

text \<open>The ancestor \<open>m.a\<close> is excluded, \<open>m.b\<close> is matched by name, \<open>m.d\<close> added by the sign.\<close>

theorem selection_resolves_witness:
  "\<exists>s sel. selector_set_parse [''m.b+''] [''m.a''] [] False False = Inr s \<and>
     resolve_selection diamond_workspace s None = Inr sel \<and>
     map (\<lambda>m. (sel_id m, sel_matched m, sel_expanded m)) (sel_members sel) =
       [(''m.b'', [''m.b+''], []), (''m.d'', [], [''m.b+''])] \<and>
     set (sel_members sel) = explained diamond_workspace s None ` selected_set diamond_workspace s None"
proof -
  have wfm: "wf_model_id (cm_id m)" if "m \<in> set (cp_models diamond_workspace)" for m
  proof -
    have "list_all (\<lambda>m. wf_model_id (cm_id m)) diamond_models" by code_simp
    with that show ?thesis by (simp add: diamond_workspace_models list_all_iff)
  qed
  let ?s = "\<lparr>ss_include = [\<lparr>term_upstream = False, term_downstream = True, term_kind = KName ''m.b'', term_text = ''m.b+''\<rparr>],
      ss_exclude = [\<lparr>term_upstream = False, term_downstream = False, term_kind = KName ''m.a'', term_text = ''m.a''\<rparr>],
      ss_filter = [], ss_expand_upstream = False, ss_expand_downstream = False\<rparr>"
  have p: "selector_set_parse [''m.b+''] [''m.a''] [] False False = Inr ?s" by code_simp
  have "(case resolve_selection diamond_workspace ?s None of
       Inl _ \<Rightarrow> False
     | Inr sel \<Rightarrow> map (\<lambda>m. (sel_id m, sel_matched m, sel_expanded m)) (sel_members sel) =
         [(''m.b'', [''m.b+''], []), (''m.d'', [], [''m.b+''])])" by code_simp
  then obtain sel where r: "resolve_selection diamond_workspace ?s None = Inr sel"
    and n: "map (\<lambda>m. (sel_id m, sel_matched m, sel_expanded m)) (sel_members sel) =
         [(''m.b'', [''m.b+''], []), (''m.d'', [], [''m.b+''])]"
    by (auto split: sum.splits)
  have "set (sel_members sel) = explained diamond_workspace ?s None ` selected_set diamond_workspace ?s None"
    using selection_resolves [OF diamond_workspace_wf _ wfm _ r] by simp
  with p r n show ?thesis by (intro exI [of _ ?s] exI [of _ sel] conjI)
qed

end
