(* ===== verification/Contracts.thy ===== *)
theory Contracts
  imports Model
begin

text \<open>
  Contract comparison, \<^verbatim>\<open>phlo-transform-engine/src/contracts.rs\<close>: the structured diff between a
  recorded and a desired contract, the effective row-identity key of a model and the change of key.
  The \<open>BTreeMap\<close>s from column name to column are only looked up here, as the last column of a name.
\<close>

section \<open>Changes\<close>

datatype contract_safety = CSafe | CReview | CBreaking

definition contract_safety_str :: "contract_safety \<Rightarrow> string" where
  "contract_safety_str s =
     (case s of CSafe \<Rightarrow> ''safe'' | CReview \<Rightarrow> ''review'' | CBreaking \<Rightarrow> ''breaking'')"

datatype contract_change =
  ContractChange (ch_column: string) (ch_kind: string) (ch_detail: string) (ch_safety: contract_safety)

definition em_dash :: string where
  "em_dash = [CHR 0xE2, CHR 0x80, CHR 0x94]"

definition arrow :: string where
  "arrow = [CHR 0xE2, CHR 0x86, CHR 0x92]"

definition describe_column :: "column_contract \<Rightarrow> string" where
  "describe_column c =
     (let null_text = (\<lambda>n. if n then ''nullable'' else ''non-null'')
      in case (cc_type c, cc_nullable c) of
           (Some t, Some n) \<Rightarrow> data_type_text t @ '', '' @ null_text n
         | (Some t, None) \<Rightarrow> data_type_text t
         | (None, Some n) \<Rightarrow> null_text n
         | (None, None) \<Rightarrow> ''untyped'')"

definition type_change :: "string \<Rightarrow> data_type \<Rightarrow> data_type \<Rightarrow> contract_change list" where
  "type_change name was now =
     (if was \<noteq> now then
        [ContractChange name ''type_changed''
           (''contract type `'' @ data_type_text was @ ''` '' @ arrow @ '' `'' @ data_type_text now @ ''`'')
           (if is_known was \<and> is_known now \<and> is_numeric was \<and> is_numeric now \<and> widen now was = now
            then CReview else CBreaking)]
      else [])"

definition null_change :: "string \<Rightarrow> bool \<Rightarrow> bool \<Rightarrow> contract_change list" where
  "null_change name was now =
     (if was \<noteq> now then
        [ContractChange name ''nullability_changed''
           (if now then ''contract relaxed to nullable'' else ''contract tightened to non-null'')
           (if now then CBreaking else CReview)]
      else [])"

definition compare_column_contracts ::
    "string \<Rightarrow> column_contract \<Rightarrow> column_contract \<Rightarrow> contract_change list" where
  "compare_column_contracts name previous desired =
     (case (cc_type previous, cc_type desired) of
        (Some was, Some now) \<Rightarrow> type_change name was now
      | _ \<Rightarrow> []) @
     (case (cc_nullable previous, cc_nullable desired) of
        (Some was, Some now) \<Rightarrow> null_change name was now
      | _ \<Rightarrow> [])"

definition contract_column :: "model_contract \<Rightarrow> string \<Rightarrow> column_contract option" where
  "contract_column c name = find (\<lambda>k. cc_name k = name) (rev (mc_columns c))"

definition rename_claims :: "model_contract \<Rightarrow> (string \<times> string list) list" where
  "rename_claims desired = fold (\<lambda>p. bm_push (snd p) (fst p)) (mc_renames desired) []"

definition ambiguous_claims :: "model_contract \<Rightarrow> (string \<times> string list) list" where
  "ambiguous_claims desired = filter (\<lambda>e. length (snd e) > 1) (rename_claims desired)"

definition resolved_renames :: "model_contract \<Rightarrow> model_contract \<Rightarrow> (string \<times> string) list" where
  "resolved_renames previous desired =
     filter (\<lambda>(new, old).
         old \<notin> fst ` set (ambiguous_claims desired) \<and> contract_column desired new \<noteq> None \<and>
         contract_column previous new = None \<and> contract_column previous old \<noteq> None)
       (mc_renames desired)"

definition enforcement_changes :: "model_contract \<Rightarrow> model_contract \<Rightarrow> contract_change list" where
  "enforcement_changes previous desired =
     (if mc_enforced previous \<noteq> mc_enforced desired then
        [ContractChange [] ''enforcement_changed''
           (if mc_enforced desired
            then ''contract now enforced '' @ em_dash @ '' violations become errors''
            else ''contract no longer enforced '' @ em_dash @ '' violations downgrade to warnings'')
           (if mc_enforced desired then CReview else CBreaking)]
      else [])"

definition ambiguous_changes :: "model_contract \<Rightarrow> model_contract \<Rightarrow> contract_change list" where
  "ambiguous_changes previous desired =
     map (\<lambda>(old, news). ContractChange old ''rename_ambiguous''
            (''declared renames for `'' @ old @ ''` are ambiguous: '' @ join '', '' news) CReview)
       (filter (\<lambda>e. contract_column previous (fst e) \<noteq> None) (ambiguous_claims desired))"

definition rename_changes :: "model_contract \<Rightarrow> model_contract \<Rightarrow> contract_change list" where
  "rename_changes previous desired =
     map (\<lambda>(new, old). ContractChange new ''renamed'' (''renamed from `'' @ old @ ''`'') CBreaking)
       (filter (\<lambda>(new, old). map_of (mc_renames previous) new \<noteq> Some old)
         (resolved_renames previous desired))"

definition removal_changes :: "model_contract \<Rightarrow> model_contract \<Rightarrow> contract_change list" where
  "removal_changes previous desired =
     map (\<lambda>c. ContractChange (cc_name c) ''removed'' ''contract column removed'' CBreaking)
       (filter (\<lambda>c. contract_column desired (cc_name c) = None \<and>
            cc_name c \<notin> snd ` set (resolved_renames previous desired))
         (mc_columns previous))"

definition previous_column ::
    "model_contract \<Rightarrow> model_contract \<Rightarrow> column_contract \<Rightarrow> column_contract option" where
  "previous_column previous desired c =
     (case Option.bind (map_of (resolved_renames previous desired) (cc_name c)) (contract_column previous) of
        Some p \<Rightarrow> Some p
      | None \<Rightarrow> contract_column previous (cc_name c))"

definition column_changes ::
    "model_contract \<Rightarrow> model_contract \<Rightarrow> column_contract \<Rightarrow> contract_change list" where
  "column_changes previous desired c =
     (case previous_column previous desired c of
        None \<Rightarrow>
          [ContractChange (cc_name c) ''added''
             (''contract column added ('' @ describe_column c @ '')'') CSafe]
      | Some p \<Rightarrow> compare_column_contracts (cc_name c) p c)"

fun contract_diff :: "model_contract option \<Rightarrow> model_contract option \<Rightarrow> contract_change list" where
  "contract_diff None None = []"
| "contract_diff None (Some desired) =
     [ContractChange [] ''contract_added''
        (''contract declared ('' @ dec (length (mc_columns desired)) @ '' columns)'') CSafe]"
| "contract_diff (Some previous) None =
     [ContractChange [] ''contract_removed''
        (''contract dropped ('' @ dec (length (mc_columns previous)) @ '' columns)'') CBreaking]"
| "contract_diff (Some previous) (Some desired) =
     enforcement_changes previous desired @ ambiguous_changes previous desired @
     rename_changes previous desired @ removal_changes previous desired @
     concat (map (column_changes previous desired) (mc_columns desired))"

definition breaking_contract_changes :: "contract_change list \<Rightarrow> contract_change list" where
  "breaking_contract_changes changes = filter (\<lambda>c. ch_safety c = CBreaking) changes"

section \<open>Keys\<close>

definition effective_key :: "compiled_model \<Rightarrow> string list list option" where
  "effective_key m =
     (let key =
        (case cfg_incremental (cm_config m) of Some (Key columns) \<Rightarrow> [sort columns] | _ \<Rightarrow> []) @
        concat (map (\<lambda>a. case a of AUnique columns \<Rightarrow> [sort columns] | ANotNull _ \<Rightarrow> []) (cm_assertions m));
          key = sort_dedup key
      in if key = [] then None else Some key)"

datatype recorded_key = KeyKnown "string list list option" | KeyUnknown

definition render_key :: "string list list \<Rightarrow> string" where
  "render_key key = join '', '' (map (join ''+'') key)"

definition key_unverifiable_text :: string where
  "key_unverifiable_text =
     ''the base materialisation predates key persistence '' @ em_dash @
     '' its historical key cannot be verified; rematerialise the base environment to bind it''"

fun key_change :: "recorded_key \<Rightarrow> string list list option \<Rightarrow> contract_change option" where
  "key_change KeyUnknown desired =
     Some (ContractChange [] ''key_unverifiable'' key_unverifiable_text CBreaking)"
| "key_change (KeyKnown (Some was)) (Some now) =
     (if was \<noteq> now then
        Some (ContractChange [] ''key_changed''
          (''key changed: `'' @ render_key was @ ''` '' @ arrow @ '' `'' @ render_key now @ ''`'') CBreaking)
      else None)"
| "key_change (KeyKnown (Some was)) None =
     Some (ContractChange [] ''key_removed'' (''key `'' @ render_key was @ ''` dropped'') CBreaking)"
| "key_change (KeyKnown None) (Some now) =
     Some (ContractChange [] ''key_added'' (''key `'' @ render_key now @ ''` declared'') CReview)"
| "key_change (KeyKnown None) None = None"

section \<open>Facts\<close>

lemma contract_column_name: "contract_column c n = Some k \<Longrightarrow> k \<in> set (mc_columns c) \<and> cc_name k = n"
  unfolding contract_column_def by (induction "rev (mc_columns c)" arbitrary: c)
    (auto simp: find_Some_iff rev_nth)

lemma contract_column_None: "contract_column c n = None \<longleftrightarrow> n \<notin> cc_name ` set (mc_columns c)"
  by (auto simp: contract_column_def find_None_iff)

lemma contract_column_own:
  assumes "distinct (map cc_name (mc_columns c))" "k \<in> set (mc_columns c)"
  shows "contract_column c (cc_name k) = Some k"
proof (cases "contract_column c (cc_name k)")
  case None
  with assms(2) show ?thesis by (auto simp: contract_column_None)
next
  case (Some j)
  with contract_column_name [OF Some] assms show ?thesis
    by (metis distinct_map inj_onD)
qed

lemma no_renames:
  assumes "mc_renames desired = []"
  shows "resolved_renames previous desired = []" "ambiguous_claims desired = []"
  using assms by (simp_all add: resolved_renames_def ambiguous_claims_def rename_claims_def)

text \<open>What one column may become without breaking: the type stays or widens, not-null is not given up.\<close>

definition column_compatible :: "column_contract \<Rightarrow> column_contract \<Rightarrow> bool" where
  "column_compatible p d \<longleftrightarrow>
     (\<forall>was now. cc_type p = Some was \<and> cc_type d = Some now \<and> was \<noteq> now \<longrightarrow>
        is_numeric was \<and> is_numeric now \<and> widen now was = now) \<and>
     \<not> (cc_nullable p = Some False \<and> cc_nullable d = Some True)"

lemma numeric_known: "is_numeric t \<Longrightarrow> is_known t"
  by (auto simp: is_numeric_def)

lemma compare_breaking:
  "breaking_contract_changes (compare_column_contracts n p d) = [] \<longleftrightarrow> column_compatible p d"
proof -
  have t: "breaking_contract_changes (case (cc_type p, cc_type d) of
        (Some was, Some now) \<Rightarrow> type_change n was now | _ \<Rightarrow> []) = [] \<longleftrightarrow>
      (\<forall>was now. cc_type p = Some was \<and> cc_type d = Some now \<and> was \<noteq> now \<longrightarrow>
        is_numeric was \<and> is_numeric now \<and> widen now was = now)"
    by (cases "cc_type p"; cases "cc_type d")
      (auto simp: breaking_contract_changes_def type_change_def numeric_known)
  have u: "breaking_contract_changes (case (cc_nullable p, cc_nullable d) of
        (Some was, Some now) \<Rightarrow> null_change n was now | _ \<Rightarrow> []) = [] \<longleftrightarrow>
      \<not> (cc_nullable p = Some False \<and> cc_nullable d = Some True)"
    by (cases "cc_nullable p"; cases "cc_nullable d")
      (auto simp: breaking_contract_changes_def null_change_def)
  have "breaking_contract_changes (xs @ ys) = [] \<longleftrightarrow>
      breaking_contract_changes xs = [] \<and> breaking_contract_changes ys = []" for xs ys
    by (simp add: breaking_contract_changes_def)
  then show ?thesis using t u by (simp add: compare_column_contracts_def column_compatible_def)
qed

lemma breaking_append:
  "breaking_contract_changes (xs @ ys) = breaking_contract_changes xs @ breaking_contract_changes ys"
  by (simp add: breaking_contract_changes_def)

lemma breaking_concat:
  "breaking_contract_changes (concat xss) = [] \<longleftrightarrow> (\<forall>xs \<in> set xss. breaking_contract_changes xs = [])"
  by (induction xss) (auto simp: breaking_append breaking_contract_changes_def)

lemma breaking_parts:
  assumes "mc_renames desired = []"
  shows "breaking_contract_changes (enforcement_changes previous desired) = [] \<longleftrightarrow>
      (mc_enforced previous \<longrightarrow> mc_enforced desired)"
    and "breaking_contract_changes (ambiguous_changes previous desired) = []"
    and "breaking_contract_changes (rename_changes previous desired) = []"
    and "breaking_contract_changes (removal_changes previous desired) = [] \<longleftrightarrow>
      cc_name ` set (mc_columns previous) \<subseteq> cc_name ` set (mc_columns desired)"
  using no_renames [OF assms]
  by (auto simp: enforcement_changes_def ambiguous_changes_def rename_changes_def removal_changes_def
      breaking_contract_changes_def filter_empty_conv contract_column_None)

section \<open>Properties\<close>

text \<open>
  What consumers of a column keep: a type that was declared is still declared, the same or a numeric type that
  holds it, and a declared not-null is still declared.
\<close>

definition guarantees_kept :: "column_contract \<Rightarrow> column_contract \<Rightarrow> bool" where
  "guarantees_kept p d \<longleftrightarrow>
     (\<forall>was. cc_type p = Some was \<longrightarrow>
        (\<exists>now. cc_type d = Some now \<and> (now = was \<or> is_numeric was \<and> is_numeric now \<and> widen now was = now))) \<and>
     (cc_nullable p = Some False \<longrightarrow> cc_nullable d = Some False)"

text \<open>A column that is kept still declares what it declared, a type or whether it may be null.\<close>

definition still_declared :: "column_contract \<Rightarrow> column_contract \<Rightarrow> bool" where
  "still_declared p d \<longleftrightarrow>
     (cc_type p \<noteq> None \<longrightarrow> cc_type d \<noteq> None) \<and> (cc_nullable p \<noteq> None \<longrightarrow> cc_nullable d \<noteq> None)"

lemma guarantees_compatible: "still_declared p d \<Longrightarrow> column_compatible p d \<longleftrightarrow> guarantees_kept p d"
  by (auto simp: still_declared_def column_compatible_def guarantees_kept_def)

text \<open>
  Property C38. Between two contracts, the new one without declared renames and with every column that is kept
  still declaring the type and the nullability it declared, nothing is breaking exactly when enforcement is not
  given up, no column is dropped, and every column kept keeps its guarantees: its type stays or widens
  numerically, and a not-null stays. (A kept column that leaves a declaration out is not covered: the code
  compares only what both contracts declare, see \<open>dropped_guarantee_unreported\<close>.)
\<close>

theorem contract_breaking_iff:
  assumes "mc_renames desired = []"
    and "\<forall>d \<in> set (mc_columns desired). \<forall>p. contract_column previous (cc_name d) = Some p \<longrightarrow> still_declared p d"
  shows "breaking_contract_changes (contract_diff (Some previous) (Some desired)) = [] \<longleftrightarrow>
    (mc_enforced previous \<longrightarrow> mc_enforced desired) \<and>
    cc_name ` set (mc_columns previous) \<subseteq> cc_name ` set (mc_columns desired) \<and>
    (\<forall>d \<in> set (mc_columns desired). \<forall>p.
       contract_column previous (cc_name d) = Some p \<longrightarrow> guarantees_kept p d)"
proof -
  have c: "breaking_contract_changes (column_changes previous desired d) = [] \<longleftrightarrow>
      (\<forall>p. contract_column previous (cc_name d) = Some p \<longrightarrow> guarantees_kept p d)"
    if "d \<in> set (mc_columns desired)" for d
    using compare_breaking guarantees_compatible assms(2) that
    by (auto simp: column_changes_def previous_column_def no_renames [OF assms(1)]
        breaking_contract_changes_def split: option.split)
  show ?thesis
    by (simp add: breaking_append breaking_concat breaking_parts [OF assms(1)] c)
qed

definition id_contract :: "data_type option \<Rightarrow> bool option \<Rightarrow> model_contract" where
  "id_contract t n =
     \<lparr>mc_enforced = True, mc_columns = [\<lparr>cc_name = ''id'', cc_type = t, cc_nullable = n\<rparr>], mc_renames = []\<rparr>"

theorem contract_breaking_iff_witness:
  "breaking_contract_changes (contract_diff (Some (id_contract (Some TInteger) None))
     (Some (id_contract (Some TBigInt) None))) = []"
  using contract_breaking_iff [of "id_contract (Some TBigInt) None" "id_contract (Some TInteger) None"]
  by (auto simp: id_contract_def contract_column_def still_declared_def guarantees_kept_def is_numeric_def widen_def)

text \<open>
  A contract that no longer states a guarantee it used to state, by leaving out the type
  or the not-null of a column, differs from the recorded one without any change being reported.
\<close>

theorem dropped_guarantee_unreported:
  "contract_diff (Some (id_contract (Some TInteger) (Some False))) (Some (id_contract None None)) = []"
  by code_simp

text \<open>
  A contract compared with itself reports nothing that breaks: at most the ambiguity of
  its own declared renames.
\<close>

theorem contract_diff_refl:
  assumes "distinct (map cc_name (mc_columns c))"
  shows "contract_diff (Some c) (Some c) = ambiguous_changes c c"
proof -
  have r: "resolved_renames c c = []"
    by (auto simp: resolved_renames_def filter_empty_conv)
  have "column_changes c c k = []" if "k \<in> set (mc_columns c)" for k
    using contract_column_own [OF assms that]
    by (simp add: column_changes_def previous_column_def r compare_column_contracts_def
        type_change_def null_change_def split: option.split)
  moreover have "removal_changes c c = []"
    by (auto simp: removal_changes_def filter_empty_conv contract_column_None)
  ultimately show ?thesis
    by (simp add: enforcement_changes_def rename_changes_def r)
qed

theorem contract_diff_refl_witness:
  "contract_diff (Some (id_contract (Some TDate) (Some True))) (Some (id_contract (Some TDate) (Some True))) = []"
proof -
  have "ambiguous_changes (id_contract (Some TDate) (Some True)) (id_contract (Some TDate) (Some True)) = []"
    by code_simp
  then show ?thesis
    using contract_diff_refl [of "id_contract (Some TDate) (Some True)"] by (simp add: id_contract_def)
qed

end
