(* ===== verification/State.thy ===== *)
theory State
  imports Contracts
begin

text \<open>
  Recorded state as the planner reads it: the materialisation and seed records of
  \<^verbatim>\<open>phlo-transform-engine/src/state.rs\<close> with the key a record proves, the timestamp order of
  \<^verbatim>\<open>util.rs\<close>, the environment scopes of \<^verbatim>\<open>branch_diff.rs\<close> and \<^verbatim>\<open>plan.rs\<close>, and the seed
  relations of \<^verbatim>\<open>source_state.rs\<close>. A state store is the parameter \<open>materialized_in\<close> (resp.
  \<open>seeds_in\<close>): its answer for an environment label, or its error text. Parsing a timestamp is the
  \<open>time\<close> crate's work: the parameter \<open>parse_time\<close> gives the instant, if there is one.
\<close>

section \<open>Records\<close>

record materialized_record =
  mr_model_id :: string
  mr_environment :: "string option"
  mr_version :: model_version
  mr_detail :: "version_detail option"
  mr_target :: string
  mr_incremental_strategy :: "string option"
  mr_incremental_key :: "string option"
  mr_adapter :: "string option"
  mr_output_identity :: "string option"
  mr_contract :: "model_contract option"
  mr_effective_key :: "string list list option"
  mr_run_id :: string
  mr_materialized_at :: string

record seed_record =
  sr_name :: string
  sr_environment :: "string option"
  sr_content_hash :: string
  sr_target :: string
  sr_run_id :: string
  sr_loaded_at :: string

definition incremental_key_claim :: "string \<Rightarrow> string list list option" where
  "incremental_key_claim raw =
     (let columns = sort (filter (\<lambda>c. c \<noteq> []) (map trim (split_on CHR '','' raw)))
      in if columns = [] then None else Some [columns])"

definition mr_recorded_key :: "materialized_record \<Rightarrow> recorded_key" where
  "mr_recorded_key r =
     (case mr_effective_key r of
        Some key \<Rightarrow>
          (let key = sort (map sort key) in KeyKnown (if key = [] then None else Some key))
      | None \<Rightarrow>
          if mr_incremental_strategy r = Some ''key'' then
            (case Option.bind (mr_incremental_key r) incremental_key_claim of
               Some claim \<Rightarrow> KeyKnown (Some claim)
             | None \<Rightarrow> KeyUnknown)
          else KeyUnknown)"

section \<open>Scopes\<close>

definition rfc3339_less :: "(string \<Rightarrow> int option) \<Rightarrow> string \<Rightarrow> string \<Rightarrow> bool" where
  "rfc3339_less parse_time a b =
     (case (parse_time a, parse_time b) of
        (Some x, Some y) \<Rightarrow> x < y
      | _ \<Rightarrow> a < b)"

definition merge_latest ::
    "(string \<Rightarrow> int option) \<Rightarrow> ('r \<Rightarrow> string) \<Rightarrow> ('r \<Rightarrow> string) \<Rightarrow> 'r list
       \<Rightarrow> (string \<times> 'r) list \<Rightarrow> (string \<times> 'r) list" where
  "merge_latest parse_time key timestamp incoming by_key =
     fold (\<lambda>r m.
       (case map_of m (key r) of
          Some existing \<Rightarrow>
            if \<not> rfc3339_less parse_time (timestamp existing) (timestamp r) then m
            else bm_insert (key r) r m
        | None \<Rightarrow> bm_insert (key r) r m)) incoming by_key"

definition collect_records :: "('r \<Rightarrow> string) \<Rightarrow> 'r list \<Rightarrow> (string \<times> 'r) list" where
  "collect_records key rs = fold (\<lambda>r. bm_insert (key r) r) rs []"

definition includes_default_environment :: "string \<Rightarrow> bool" where
  "includes_default_environment environment \<longleftrightarrow> environment = ''main''"

definition records_for_environment ::
    "(string \<Rightarrow> int option) \<Rightarrow> ('r \<Rightarrow> string) \<Rightarrow> ('r \<Rightarrow> string)
       \<Rightarrow> (string option \<Rightarrow> string + 'r list) \<Rightarrow> string \<Rightarrow> string + (string \<times> 'r) list" where
  "records_for_environment parse_time key timestamp records_in environment =
     (case records_in (Some environment) of
        Inl e \<Rightarrow> Inl e
      | Inr rs \<Rightarrow>
          if includes_default_environment environment then
            (case records_in None of
               Inl e \<Rightarrow> Inl e
             | Inr ds \<Rightarrow> Inr (merge_latest parse_time key timestamp ds (collect_records key rs)))
          else Inr (collect_records key rs))"

definition records_scope ::
    "(string \<Rightarrow> int option) \<Rightarrow> ('r \<Rightarrow> string) \<Rightarrow> ('r \<Rightarrow> string)
       \<Rightarrow> (string option \<Rightarrow> string + 'r list) \<Rightarrow> string option \<Rightarrow> string + (string \<times> 'r) list" where
  "records_scope parse_time key timestamp records_in environment =
     (case environment of
        Some e \<Rightarrow> records_for_environment parse_time key timestamp records_in e
      | None \<Rightarrow>
          (case records_in None of
             Inl e \<Rightarrow> Inl e
           | Inr ds \<Rightarrow>
               (case records_in (Some ''main'') of
                  Inl e \<Rightarrow> Inl e
                | Inr ms \<Rightarrow> Inr (merge_latest parse_time key timestamp ms (collect_records key ds)))))"

definition materialized_scope ::
    "(string \<Rightarrow> int option) \<Rightarrow> (string option \<Rightarrow> string + materialized_record list)
       \<Rightarrow> string option \<Rightarrow> string + (string \<times> materialized_record) list" where
  "materialized_scope parse_time materialized_in environment =
     records_scope parse_time mr_model_id mr_materialized_at materialized_in environment"

definition seeds_scope ::
    "(string \<Rightarrow> int option) \<Rightarrow> (string option \<Rightarrow> string + seed_record list)
       \<Rightarrow> string option \<Rightarrow> string + (string \<times> seed_record) list" where
  "seeds_scope parse_time seeds_in environment =
     records_scope parse_time sr_name sr_loaded_at seeds_in environment"

section \<open>Seeds\<close>

definition adapter_default_schema :: "string \<Rightarrow> string option" where
  "adapter_default_schema adapter_name = (if adapter_name = ''duckdb'' then Some ''main'' else None)"

definition seed_relation ::
    "compiled_seed \<Rightarrow> string option \<Rightarrow> string option \<Rightarrow> string \<Rightarrow> relation" where
  "seed_relation seed default_catalog default_schema adapter_name =
     (let fallback =
        (case default_schema of
           Some s \<Rightarrow> s
         | None \<Rightarrow>
             (case adapter_default_schema adapter_name of Some s \<Rightarrow> s | None \<Rightarrow> ''default''))
      in compiled_seed_relation seed default_catalog fallback)"

definition seed_for_relation ::
    "compiled_seed list \<Rightarrow> relation \<Rightarrow> string option \<Rightarrow> string option \<Rightarrow> string
       \<Rightarrow> compiled_seed option" where
  "seed_for_relation seeds r default_catalog default_schema adapter_name =
     find (\<lambda>s. relation_display (seed_relation s default_catalog default_schema adapter_name) =
                 relation_display r) seeds"

text \<open>The states are observed source by source; \<open>observe\<close> is the adapter's answer or error.\<close>

fun collect_source_states ::
    "(relation \<Rightarrow> string + string option) \<Rightarrow> string \<Rightarrow> compiled_seed list \<Rightarrow> string option
       \<Rightarrow> string option \<Rightarrow> source_id list \<Rightarrow> (string \<rightharpoonup> string) \<Rightarrow> string + (string \<rightharpoonup> string)" where
  "collect_source_states observe adapter_name seeds catalog schema [] states = Inr states"
| "collect_source_states observe adapter_name seeds catalog schema (s # ss) states =
     (let r = relation_for_source s catalog schema
      in case seed_for_relation seeds r catalog schema adapter_name of
           Some seed \<Rightarrow>
             collect_source_states observe adapter_name seeds catalog schema ss
               (states(source_name s \<mapsto> ''csv:'' @ cs_content_hash seed))
         | None \<Rightarrow>
             (case observe r of
                Inl e \<Rightarrow> Inl e
              | Inr None \<Rightarrow> collect_source_states observe adapter_name seeds catalog schema ss states
              | Inr (Some state) \<Rightarrow>
                  collect_source_states observe adapter_name seeds catalog schema ss
                    (states(source_name s \<mapsto> state))))"

section \<open>The latest record wins\<close>

text \<open>When all timestamps parse, a merged map holds per key a record of the greatest instant.\<close>

definition latest_of ::
    "(string \<Rightarrow> int option) \<Rightarrow> ('r \<Rightarrow> string) \<Rightarrow> ('r \<Rightarrow> string) \<Rightarrow> 'r set \<Rightarrow> (string \<times> 'r) list \<Rightarrow> bool" where
  "latest_of parse_time key timestamp R m \<longleftrightarrow>
     bm_ok m \<and> fst ` set m = key ` R \<and>
     (\<forall>k r. map_of m k = Some r \<longrightarrow> r \<in> R \<and> key r = k \<and>
        (\<forall>q \<in> R. key q = k \<longrightarrow> the (parse_time (timestamp q)) \<le> the (parse_time (timestamp r))))"

lemma keys_insert: "fst ` set (bm_insert k v m) = insert k (fst ` set m)"
  using bm_insert_keys [of k v m] by simp

lemma latest_of_insert:
  assumes "latest_of pt key ts R m" "\<And>q. q \<in> insert r R \<Longrightarrow> pt (ts q) \<noteq> None"
  shows "latest_of pt key ts (insert r R)
    (case map_of m (key r) of
       Some e \<Rightarrow> if \<not> rfc3339_less pt (ts e) (ts r) then m else bm_insert (key r) r m
     | None \<Rightarrow> bm_insert (key r) r m)"
proof -
  have ok: "bm_ok m" and ks: "fst ` set m = key ` R"
    and lat: "\<And>k e. map_of m k = Some e \<Longrightarrow> e \<in> R \<and> key e = k \<and>
        (\<forall>q \<in> R. key q = k \<longrightarrow> the (pt (ts q)) \<le> the (pt (ts e)))"
    using assms(1) by (auto simp: latest_of_def)
  show ?thesis
  proof (cases "map_of m (key r)")
    case None
    then have "key r \<notin> key ` R" using ks by (auto simp: map_of_eq_None_iff)
    then have "key q \<noteq> key r" if "q \<in> R" for q using that by (metis imageI)
    with None ok ks lat show ?thesis
      by (auto simp: latest_of_def keys_insert bm_insert_get)
  next
    case (Some e)
    note le = lat [OF Some]
    then have kr: "key r \<in> key ` R" by (metis imageI)
    obtain x y where xy: "pt (ts e) = Some x" "pt (ts r) = Some y"
      using assms(2) [of e] assms(2) [of r] le by auto
    show ?thesis
    proof (cases "x < y")
      case True
      have "the (pt (ts q)) \<le> y" if "q \<in> R" "key q = key r" for q
        using le that xy True by fastforce
      with Some ok ks lat True xy le show ?thesis
        by (auto simp: latest_of_def keys_insert bm_insert_get rfc3339_less_def)
    next
      case False
      with Some ok ks lat xy le kr show ?thesis
        by (auto simp: latest_of_def rfc3339_less_def insert_absorb)
    qed
  qed
qed

lemma latest_of_merge:
  assumes "latest_of pt key ts R m" "\<And>q. q \<in> set rs \<union> R \<Longrightarrow> pt (ts q) \<noteq> None"
  shows "latest_of pt key ts (set rs \<union> R) (merge_latest pt key ts rs m)"
  using assms
proof (induction rs arbitrary: R m)
  case Nil
  then show ?case by (simp add: merge_latest_def)
next
  case (Cons r rs)
  have "latest_of pt key ts (insert r R)
    (case map_of m (key r) of
       Some e \<Rightarrow> if \<not> rfc3339_less pt (ts e) (ts r) then m else bm_insert (key r) r m
     | None \<Rightarrow> bm_insert (key r) r m)"
    by (rule latest_of_insert [OF Cons.prems(1)]) (use Cons.prems(2) in auto)
  from Cons.IH [OF this] Cons.prems(2) show ?case
    by (simp add: merge_latest_def)
qed

lemma latest_of_collect:
  assumes "distinct (map key rs)"
  shows "latest_of pt key ts (set rs) (collect_records key rs)"
proof -
  have get: "map_of (collect_records key rs) k = find (\<lambda>r. key r = k) (rev rs)" for k
    unfolding collect_records_def
    using bm.get_fold_put [where m = "[]" and key = key and val = "\<lambda>r. r" and xs = rs and k = k]
    by (simp split: option.splits)
  have ks: "set (map fst (collect_records key rs)) = key ` set rs"
    unfolding collect_records_def
    using bm.keys_fold_put [where m = "[]" and key = key and val = "\<lambda>r. r" and xs = rs] by simp
  have ok: "bm_ok (collect_records key rs)"
    unfolding collect_records_def by (rule bm.invar_fold_put) simp
  have u: "q = r" if "q \<in> set rs" "r \<in> set rs" "key q = key r" for q r
    using that assms by (simp add: distinct_map inj_on_def)
  show ?thesis
    unfolding latest_of_def get
  proof (intro conjI allI impI ballI)
    show "bm_ok (collect_records key rs)" by (rule ok)
    show "fst ` set (collect_records key rs) = key ` set rs" using ks by (simp only: set_map)
    fix k r assume "find (\<lambda>r. key r = k) (rev rs) = Some r"
    from find_SomeD [OF this] have r: "r \<in> set rs" "key r = k" by simp_all
    then show "r \<in> set rs" "key r = k" by simp_all
    fix q assume "q \<in> set rs" "key q = k"
    then have "q = r" using r by (intro u) simp_all
    then show "the (pt (ts q)) \<le> the (pt (ts r))" by simp
  qed
qed

text \<open>The two labels' records folded together, read under either label.\<close>

lemma latest_scopes:
  assumes "materialized_in None = Inr ds" "materialized_in (Some ''main'') = Inr ms"
    and "distinct (map mr_model_id ds)" "distinct (map mr_model_id ms)"
    and "\<And>r. r \<in> set ds \<union> set ms \<Longrightarrow> parse_time (mr_materialized_at r) \<noteq> None"
  shows "\<exists>a b. materialized_scope parse_time materialized_in None = Inr a \<and>
    materialized_scope parse_time materialized_in (Some ''main'') = Inr b \<and>
    latest_of parse_time mr_model_id mr_materialized_at (set ds \<union> set ms) a \<and>
    latest_of parse_time mr_model_id mr_materialized_at (set ds \<union> set ms) b"
proof -
  have a: "latest_of parse_time mr_model_id mr_materialized_at (set ms \<union> set ds)
      (merge_latest parse_time mr_model_id mr_materialized_at ms (collect_records mr_model_id ds))"
    by (rule latest_of_merge [OF latest_of_collect [OF assms(3)]]) (use assms(5) in auto)
  have b: "latest_of parse_time mr_model_id mr_materialized_at (set ds \<union> set ms)
      (merge_latest parse_time mr_model_id mr_materialized_at ds (collect_records mr_model_id ms))"
    by (rule latest_of_merge [OF latest_of_collect [OF assms(4)]]) (use assms(5) in auto)
  show ?thesis
    using a b assms(1,2)
    by (simp add: materialized_scope_def records_scope_def records_for_environment_def
        includes_default_environment_def Un_commute)
qed

section \<open>Properties\<close>

text \<open>
  The default environment and \<open>main\<close> plan against the same evidence: both fold the two
  labels' records together and hold, for every model recorded under either, a record of the latest
  instant, whichever label it was written under.
\<close>

theorem scope_keeps_latest:
  assumes "materialized_in None = Inr ds" "materialized_in (Some ''main'') = Inr ms"
    and "distinct (map mr_model_id ds)" "distinct (map mr_model_id ms)"
    and "\<And>r. r \<in> set ds \<union> set ms \<Longrightarrow> parse_time (mr_materialized_at r) \<noteq> None"
  shows "\<exists>a b. materialized_scope parse_time materialized_in None = Inr a \<and>
    materialized_scope parse_time materialized_in (Some ''main'') = Inr b \<and>
    latest_of parse_time mr_model_id mr_materialized_at (set ds \<union> set ms) a \<and>
    latest_of parse_time mr_model_id mr_materialized_at (set ds \<union> set ms) b"
  using assms by (rule latest_scopes)

definition bare_record :: "string \<Rightarrow> string option \<Rightarrow> string \<Rightarrow> materialized_record" where
  "bare_record model environment at =
     \<lparr>mr_model_id = model, mr_environment = environment, mr_version = no_version, mr_detail = None,
      mr_target = ''s.t'', mr_incremental_strategy = None, mr_incremental_key = None,
      mr_adapter = Some ''duckdb'', mr_output_identity = None, mr_contract = None,
      mr_effective_key = None, mr_run_id = ''run'', mr_materialized_at = at\<rparr>"

text \<open>Instants for the witness: the length of the text.\<close>

theorem scope_keeps_latest_witness:
  "\<exists>a b. materialized_scope (\<lambda>s. Some (int (length s)))
      (\<lambda>e. Inr (if e = None then [bare_record ''m.a'' None ''1''] else [bare_record ''m.a'' e ''22''])) None = Inr a \<and>
    materialized_scope (\<lambda>s. Some (int (length s)))
      (\<lambda>e. Inr (if e = None then [bare_record ''m.a'' None ''1''] else [bare_record ''m.a'' e ''22'']))
      (Some ''main'') = Inr b \<and>
    latest_of (\<lambda>s. Some (int (length s))) mr_model_id mr_materialized_at
      {bare_record ''m.a'' None ''1'', bare_record ''m.a'' (Some ''main'') ''22''} a \<and>
    latest_of (\<lambda>s. Some (int (length s))) mr_model_id mr_materialized_at
      {bare_record ''m.a'' None ''1'', bare_record ''m.a'' (Some ''main'') ''22''} b"
  using scope_keeps_latest
    [of "\<lambda>e. Inr (if e = None then [bare_record ''m.a'' None ''1''] else [bare_record ''m.a'' e ''22''])"
        "[bare_record ''m.a'' None ''1'']" "[bare_record ''m.a'' (Some ''main'') ''22'']"
        "\<lambda>s. Some (int (length s))"]
  by (simp add: insert_commute)

end
