(* ===== verification/Plan.thy ===== *)
theory Plan
  imports Select State
begin

text \<open>
  Planning, \<^verbatim>\<open>phlo-transform-engine/src/plan.rs\<close>: what to do with each model and seed from the
  evidence fetched beforehand, why, and the dependency-closed list of planned models. The adapter and
  the state store enter through their answers: \<open>exists\<close> and \<open>live_output\<close> per relation, the
  records of the environment and those sharing a version hash. A string slice inside a character
  panics in Rust; operations that slice return \<open>None\<close> there.
\<close>

section \<open>Actions and reasons\<close>

datatype plan_action = Build | Skip | Cached | Unknown

definition plan_action_str :: "plan_action \<Rightarrow> string" where
  "plan_action_str a =
     (case a of Build \<Rightarrow> ''build'' | Skip \<Rightarrow> ''skip'' | Cached \<Rightarrow> ''cached'' | Unknown \<Rightarrow> ''unknown'')"

definition plan_action_parse :: "string \<Rightarrow> plan_action" where
  "plan_action_parse v =
     (if v = ''build'' then Build else if v = ''skip'' then Skip
      else if v = ''cached'' then Cached else Unknown)"

datatype reason_kind =
    SqlSemanticChange | ConfigChange | ContractChange | DependencyChange | UpstreamRebuild
  | SourceChange | TargetChange | CompilerSemanticsChange | IncrementalChange | SchemaChange
  | MissingRelation | UnknownState | CacheReuse | Forced | Unchanged | SelectedDependency
  | SelectionExpansion | StateUnavailable | GitChange | CacheMiss | AdapterChange | OutputDrift
  | ResumedRun

fun reason_code :: "reason_kind \<Rightarrow> string" where
  "reason_code SqlSemanticChange = ''sql_semantic_change''"
| "reason_code ConfigChange = ''config_change''"
| "reason_code ContractChange = ''contract_change''"
| "reason_code DependencyChange = ''dependency_change''"
| "reason_code UpstreamRebuild = ''upstream_rebuild''"
| "reason_code SourceChange = ''source_change''"
| "reason_code TargetChange = ''target_change''"
| "reason_code CompilerSemanticsChange = ''compiler_semantics_change''"
| "reason_code IncrementalChange = ''incremental_change''"
| "reason_code SchemaChange = ''schema_change''"
| "reason_code MissingRelation = ''missing_relation''"
| "reason_code UnknownState = ''unknown_state''"
| "reason_code CacheReuse = ''cache_reuse''"
| "reason_code CacheMiss = ''cache_miss''"
| "reason_code AdapterChange = ''adapter_change''"
| "reason_code OutputDrift = ''output_drift''"
| "reason_code Forced = ''forced''"
| "reason_code Unchanged = ''unchanged''"
| "reason_code SelectedDependency = ''selected_dependency''"
| "reason_code SelectionExpansion = ''selection_expansion''"
| "reason_code StateUnavailable = ''state_unavailable''"
| "reason_code GitChange = ''git_change''"
| "reason_code ResumedRun = ''resumed_run''"

record plan_reason =
  pr_kind :: reason_kind
  pr_detail :: string
  pr_subject :: "string option"

definition reason_simple :: "reason_kind \<Rightarrow> string \<Rightarrow> plan_reason" where
  "reason_simple kind detail = \<lparr>pr_kind = kind, pr_detail = detail, pr_subject = None\<rparr>"

definition reason_about :: "reason_kind \<Rightarrow> string \<Rightarrow> string \<Rightarrow> plan_reason" where
  "reason_about kind detail subject =
     \<lparr>pr_kind = kind, pr_detail = detail, pr_subject = Some subject\<rparr>"

record cache_source =
  cas_environment :: "string option"
  cas_target :: string
  cas_output_identity :: string
  cas_run_id :: string
  cas_materialized_at :: string

definition cache_source_of :: "materialized_record \<Rightarrow> cache_source" where
  "cache_source_of r =
     \<lparr>cas_environment = mr_environment r, cas_target = mr_target r,
      cas_output_identity = (case mr_output_identity r of Some o1 \<Rightarrow> o1 | None \<Rightarrow> []),
      cas_run_id = mr_run_id r, cas_materialized_at = mr_materialized_at r\<rparr>"

record decision =
  dec_action :: plan_action
  dec_reasons :: "plan_reason list"
  dec_reuse :: "cache_source option"

definition decision_build :: "plan_reason list \<Rightarrow> decision" where
  "decision_build reasons = \<lparr>dec_action = Build, dec_reasons = reasons, dec_reuse = None\<rparr>"

section \<open>Text\<close>

definition ellipsis :: string where
  "ellipsis = [CHR 0xE2, CHR 0x80, CHR 0xA6]"

definition short :: "string \<Rightarrow> nat \<Rightarrow> string option" where
  "short v len =
     (if length v \<le> len then Some v
      else if char_boundary len v then Some (take len v @ ellipsis)
      else None)"

definition short_state :: "string \<Rightarrow> string option" where
  "short_state state = (if state = [] then Some ''unobserved'' else short state 20)"

definition env_text :: "string option \<Rightarrow> string" where
  "env_text e = (case e of Some s \<Rightarrow> s | None \<Rightarrow> ''the default environment'')"

definition forced_text :: string where
  "forced_text = ''rebuild forced by --force''"

definition missing_text :: "string \<Rightarrow> string" where
  "missing_text target = ''target relation '' @ target @ '' does not exist''"

definition adopt_text :: "string \<Rightarrow> string \<Rightarrow> string \<Rightarrow> string \<Rightarrow> string" where
  "adopt_text target output source_env run =
     target @ '' verifiably holds the desired output `'' @ output @ ''` '' @ em_dash @
     '' recorded in '' @ source_env @ '' (run '' @ run @ ''); adopting it''"

definition rewritten_text :: "string \<Rightarrow> string \<Rightarrow> string option \<Rightarrow> string" where
  "rewritten_text source_env target live =
     ''identical version recorded in '' @ source_env @ '' but '' @ target @
     (case live of
        Some l \<Rightarrow> '' now reports output `'' @ l @ ''` '' @ em_dash @ '' the relation was rewritten; rebuilding''
      | None \<Rightarrow> '' has no verifiable output identity; rebuilding'')"

definition unusable_text :: "string \<Rightarrow> materialized_record \<Rightarrow> string \<Rightarrow> string \<Rightarrow> string" where
  "unusable_text source_env hit adapter target =
     ''identical version exists in '' @ source_env @
     (if mr_adapter hit \<noteq> Some adapter then
        '' but was materialised by adapter `'' @
        (case mr_adapter hit of Some a \<Rightarrow> a | None \<Rightarrow> ''<unrecorded>'') @
        ''` (this run uses `'' @ adapter @ ''`); metadata-only, rebuilding''
      else if mr_output_identity hit = None then
        '' at '' @ mr_target hit @ '' but carries no verifiable output identity; rebuilding''
      else
        '' at '' @ mr_target hit @ '' '' @ em_dash @ '' a different content slot than '' @ target @
        ''; rebuilding'')"

definition no_record_reason :: "bool \<Rightarrow> plan_reason" where
  "no_record_reason has_state =
     (if has_state
      then reason_simple UnknownState ''no version recorded for this environment''
      else reason_simple StateUnavailable ''no state store; cannot compare against a recorded version'')"

definition other_adapter_text :: "string \<Rightarrow> string \<Rightarrow> string" where
  "other_adapter_text recorded adapter =
     ''materialised by adapter `'' @ recorded @ ''`; current adapter is `'' @ adapter @ ''`''"

definition no_adapter_text :: "string \<Rightarrow> string" where
  "no_adapter_text adapter =
     ''materialisation was recorded before adapter identity was tracked; cannot verify it was produced by `''
       @ adapter @ ''`''"

definition drift_text :: "string \<Rightarrow> string option \<Rightarrow> string" where
  "drift_text target live =
     target @ '' no longer holds the recorded output'' @
     (case live of Some l \<Rightarrow> '' (now `'' @ l @ ''`)'' | None \<Rightarrow> []) @
     '' '' @ em_dash @ '' another writer owns the relation''"

definition moved_text :: "string \<Rightarrow> string \<Rightarrow> string \<Rightarrow> string" where
  "moved_text was now output =
     ''the recorded materialisation moved target (was '' @ was @ '', now '' @ now @
     ''), which verifiably holds its output `'' @ output @ ''` '' @ em_dash @ '' adopting it''"

definition retarget_text :: "string \<Rightarrow> string \<Rightarrow> string option \<Rightarrow> string option \<Rightarrow> string" where
  "retarget_text was now recorded live =
     ''physical target changed (was '' @ was @ '', now '' @ now @
     (case (recorded, live) of
        (Some r, Some l) \<Rightarrow> '') and it reports `'' @ l @ ''`, not the recorded `'' @ r @ ''`; rebuilding''
      | _ \<Rightarrow> '') and the recorded output is not verifiably present at the new target; rebuilding'')"

section \<open>Why a version differs\<close>

definition contract_summary :: "contract_change list \<Rightarrow> string" where
  "contract_summary changes =
     join ''; '' (map (\<lambda>c. if ch_column c = [] then ch_detail c
        else ch_column c @ '': '' @ ch_detail c) (take 3 changes))"

definition contract_reason_from_changes :: "contract_change list \<Rightarrow> plan_reason" where
  "contract_reason_from_changes changes =
     (let breaking = length (breaking_contract_changes changes);
          more = (if length changes > 3 then '' (+'' @ dec (length changes - 3) @ '' more)'' else [])
      in reason_simple ContractChange
           (''contract changed: '' @ contract_summary changes @ more @
            (if breaking > 0 then '' '' @ em_dash @ '' '' @ dec breaking @ '' breaking'' else [])))"

definition opaque_contract_reason :: plan_reason where
  "opaque_contract_reason = reason_simple ContractChange ''contract or assertions changed''"

definition contract_diff_reason :: "compiled_model \<Rightarrow> materialized_record \<Rightarrow> plan_reason" where
  "contract_diff_reason m current =
     (case cm_contract m of
        None \<Rightarrow>
          (case mr_contract current of
             Some previous \<Rightarrow> contract_reason_from_changes (contract_diff (Some previous) None)
           | None \<Rightarrow> opaque_contract_reason)
      | Some desired \<Rightarrow>
          (let changes = contract_diff (mr_contract current) (Some desired)
           in if changes = [] then opaque_contract_reason else contract_reason_from_changes changes))"

definition changed_dependencies ::
    "(string \<times> string) list \<Rightarrow> (string \<times> string) list \<Rightarrow> string list" where
  "changed_dependencies desired recorded =
     concat (map (\<lambda>(name, now).
        (case map_of recorded name of
           Some was \<Rightarrow> if was \<noteq> now then [name] else []
         | None \<Rightarrow> [name @ '' (new dependency)''])) desired) @
     map (\<lambda>e. fst e @ '' (removed)'') (filter (\<lambda>e. map_of desired (fst e) = None) recorded)"

text \<open>\<open>name.split(" (").next()\<close>: the text before the first \<open> (\<close>.\<close>

fun before_paren :: "string \<Rightarrow> string" where
  "before_paren [] = []"
| "before_paren (c # cs) = (if starts_with '' ('' (c # cs) then [] else c # before_paren cs)"

definition dependency_diff_reason :: "compiled_model \<Rightarrow> materialized_record \<Rightarrow> plan_reason" where
  "dependency_diff_reason m current =
     (case mr_detail current of
        None \<Rightarrow> reason_simple DependencyChange
          ''upstream version changed (recorded before dependency detail was tracked)''
      | Some detail \<Rightarrow>
          (case changed_dependencies (vd_dependencies (cm_version_detail m)) (vd_dependencies detail) of
             [] \<Rightarrow> reason_simple DependencyChange ''upstream version inputs changed''
           | c # cs \<Rightarrow> reason_about DependencyChange
               (''upstream version changed: '' @ join '', '' (c # cs)) (before_paren c)))"

definition source_change_reason :: "string \<Rightarrow> string \<Rightarrow> string option \<Rightarrow> plan_reason list option" where
  "source_change_reason name now was =
     (case was of
        Some w \<Rightarrow>
          if w \<noteq> now then
            (case (short_state w, short_state now) of
               (Some a, Some b) \<Rightarrow>
                 Some [reason_about SourceChange
                   (''source '' @ name @ '' changed ('' @ a @ '' '' @ arrow @ '' '' @ b @ '')'') name]
             | _ \<Rightarrow> None)
          else Some []
      | None \<Rightarrow>
          (case short_state now of
             Some b \<Rightarrow>
               Some [reason_about SourceChange (''source '' @ name @ '' first observed ('' @ b @ '')'') name]
           | None \<Rightarrow> None))"

fun source_changes ::
    "(string \<times> string) list \<Rightarrow> (string \<times> string) list \<Rightarrow> plan_reason list option" where
  "source_changes [] recorded = Some []"
| "source_changes ((name, now) # rest) recorded =
     (case source_change_reason name now (map_of recorded name) of
        None \<Rightarrow> None
      | Some rs \<Rightarrow> map_option (\<lambda>more. rs @ more) (source_changes rest recorded))"

definition source_diff_reasons ::
    "compiled_model \<Rightarrow> materialized_record \<Rightarrow> plan_reason list option" where
  "source_diff_reasons m current =
     (case mr_detail current of
        None \<Rightarrow> Some [reason_simple SourceChange
          ''a source state changed (recorded before source detail was tracked)'']
      | Some detail \<Rightarrow>
          (let desired = vd_sources (cm_version_detail m); recorded = vd_sources detail
           in case source_changes desired recorded of
                None \<Rightarrow> None
              | Some reasons \<Rightarrow>
                  let reasons = reasons @
                    map (\<lambda>e. reason_about SourceChange (''source '' @ fst e @ '' removed'') (fst e))
                      (filter (\<lambda>e. map_of desired (fst e) = None) recorded)
                  in Some (if reasons = [] then [reason_simple SourceChange ''source states changed'']
                           else reasons)))"

definition diff_reasons :: "compiled_model \<Rightarrow> materialized_record \<Rightarrow> plan_reason list option" where
  "diff_reasons m current =
     (let was = mr_version current; now = cm_version m; target = relation_display (cm_target m)
      in case (if mv_source_state_hash was \<noteq> mv_source_state_hash now
               then source_diff_reasons m current else Some []) of
           None \<Rightarrow> None
         | Some sources \<Rightarrow> Some
             ((if mv_sql_hash was \<noteq> mv_sql_hash now
               then [reason_simple SqlSemanticChange ''SQL semantics changed''] else []) @
              (if mv_config_hash was \<noteq> mv_config_hash now
               then [reason_simple ConfigChange ''configuration changed''] else []) @
              (if mv_contract_hash was \<noteq> mv_contract_hash now
               then [contract_diff_reason m current] else []) @
              (if mv_dependency_hash was \<noteq> mv_dependency_hash now
               then [dependency_diff_reason m current] else []) @
              sources @
              (if mr_target current \<noteq> target
               then [reason_simple TargetChange
                       (''physical target changed (was '' @ mr_target current @ '', now '' @ target @ '')'')]
               else []) @
              (if mv_compiler_version was \<noteq> mv_compiler_version now
               then [reason_simple CompilerSemanticsChange ''compiler semantics changed''] else [])))"

section \<open>Deciding one model\<close>

definition same_content_slot :: "string \<Rightarrow> relation \<Rightarrow> bool" where
  "same_content_slot recorded target =
     (case relation_parse recorded of
        Inl _ \<Rightarrow> False
      | Inr r \<Rightarrow> rel_schema r = rel_schema target \<and> rel_table r = rel_table target)"

definition env_rank :: "string option \<Rightarrow> nat" where
  "env_rank e = (case e of None \<Rightarrow> 0 | Some s \<Rightarrow> if s = ''main'' then 1 else 2)"

definition candidate_le :: "materialized_record \<Rightarrow> materialized_record \<Rightarrow> bool" where
  "candidate_le a b \<longleftrightarrow>
     env_rank (mr_environment a) < env_rank (mr_environment b) \<or>
     env_rank (mr_environment a) = env_rank (mr_environment b) \<and>
       mr_materialized_at b \<le> mr_materialized_at a"

record model_evidence =
  ev_exists :: bool
  ev_current :: "materialized_record option"
  ev_elsewhere :: "materialized_record list"
  ev_live_output :: "string option"

definition reuse_candidates ::
    "string \<Rightarrow> relation \<Rightarrow> materialized_record list \<Rightarrow> materialized_record list" where
  "reuse_candidates adapter target elsewhere =
     sort_by candidate_le
       (filter (\<lambda>r. mr_adapter r = Some adapter \<and> mr_output_identity r \<noteq> None \<and>
            same_content_slot (mr_target r) target) elsewhere)"

text \<open>No record in this environment: adopt a verified output recorded elsewhere, or build.\<close>

definition decide_unrecorded ::
    "bool \<Rightarrow> string \<Rightarrow> compiled_model \<Rightarrow> model_evidence \<Rightarrow> string option \<Rightarrow> decision option" where
  "decide_unrecorded has_state adapter m ev environment =
     (let target = relation_display (cm_target m);
          live = ev_live_output ev;
          elsewhere = filter (\<lambda>r. mr_environment r \<noteq> environment) (ev_elsewhere ev);
          candidates = reuse_candidates adapter (cm_target m) elsewhere
      in if \<not> has_state then Some (decision_build [no_record_reason has_state])
         else case candidates of
           first # _ \<Rightarrow>
             (case find (\<lambda>r. mr_output_identity r = live) candidates of
                Some hit \<Rightarrow>
                  (case (short (case mr_output_identity hit of Some o1 \<Rightarrow> o1 | None \<Rightarrow> []) 24,
                         short (mr_run_id hit) 12) of
                     (Some output, Some run) \<Rightarrow>
                       Some \<lparr>dec_action = Cached,
                             dec_reasons = [reason_about CacheReuse
                               (adopt_text target output (env_text (mr_environment hit)) run)
                               (env_text (mr_environment hit))],
                             dec_reuse = Some (cache_source_of hit)\<rparr>
                   | _ \<Rightarrow> None)
              | None \<Rightarrow>
                  Some (decision_build [reason_about CacheMiss
                    (rewritten_text (env_text (mr_environment first)) target live)
                    (env_text (mr_environment first))]))
         | [] \<Rightarrow>
             (case elsewhere of
                hit # _ \<Rightarrow>
                  Some (decision_build [reason_about CacheMiss
                    (unusable_text (env_text (mr_environment hit)) hit adapter target)
                    (env_text (mr_environment hit))])
              | [] \<Rightarrow> Some (decision_build [no_record_reason has_state])))"

definition decide_recorded ::
    "string \<Rightarrow> compiled_model \<Rightarrow> materialized_record \<Rightarrow> string option \<Rightarrow> decision option" where
  "decide_recorded adapter m current live =
     (let target = relation_display (cm_target m);
          same_version = (mv_hash (mr_version current) = mv_hash (cm_version m));
          differing =
            (case diff_reasons m current of
               None \<Rightarrow> None
             | Some [] \<Rightarrow> Some (decision_build
                 [reason_simple UnknownState ''version hash changed but no component differs''])
             | Some reasons \<Rightarrow> Some (decision_build reasons))
      in if mr_target current = target then
           (if mr_output_identity current \<noteq> None \<and> live \<noteq> mr_output_identity current then
              Some (decision_build [reason_simple OutputDrift (drift_text target live)])
            else if same_version then
              Some \<lparr>dec_action = Skip,
                    dec_reasons = [reason_simple Unchanged ''SQL, config, contract and inputs unchanged''],
                    dec_reuse = None\<rparr>
            else differing)
         else if same_version then
           (let rebuild = Some (decision_build [reason_simple TargetChange
                  (retarget_text (mr_target current) target (mr_output_identity current) live)])
            in case mr_output_identity current of
                 None \<Rightarrow> rebuild
               | Some recorded \<Rightarrow>
                   if live \<noteq> Some recorded then rebuild
                   else (case short recorded 24 of
                           Some output \<Rightarrow>
                             Some \<lparr>dec_action = Cached,
                                   dec_reasons = [reason_simple CacheReuse
                                     (moved_text (mr_target current) target output)],
                                   dec_reuse = Some (cache_source_of current)\<rparr>
                         | None \<Rightarrow> None))
         else differing)"

definition decide ::
    "bool \<Rightarrow> string \<Rightarrow> compiled_model \<Rightarrow> model_evidence \<Rightarrow> string option \<Rightarrow> bool \<Rightarrow> decision option" where
  "decide has_state adapter m ev environment force =
     (if force then Some (decision_build [reason_simple Forced forced_text])
      else if \<not> ev_exists ev then
        Some (decision_build [reason_simple MissingRelation
          (missing_text (relation_display (cm_target m)))])
      else case ev_current ev of
        None \<Rightarrow> decide_unrecorded has_state adapter m ev environment
      | Some current \<Rightarrow>
          (case mr_adapter current of
             None \<Rightarrow> Some (decision_build [reason_simple AdapterChange (no_adapter_text adapter)])
           | Some recorded \<Rightarrow>
               if recorded \<noteq> adapter
               then Some (decision_build [reason_simple AdapterChange (other_adapter_text recorded adapter)])
               else decide_recorded adapter m current (ev_live_output ev)))"

definition decide_seed ::
    "bool \<Rightarrow> compiled_seed \<Rightarrow> string \<Rightarrow> bool \<Rightarrow> seed_record option \<Rightarrow> bool
       \<Rightarrow> plan_action \<times> plan_reason list" where
  "decide_seed has_state seed target seed_exists current force =
     (if force then (Build, [reason_simple Forced ''reload forced by --force''])
      else if \<not> seed_exists then
        (Build, [reason_simple MissingRelation (''seed relation '' @ target @ '' does not exist'')])
      else case current of
        Some record \<Rightarrow>
          if sr_content_hash record = cs_content_hash seed \<and> sr_target record = target
          then (Skip, [reason_simple Unchanged ''seed content unchanged''])
          else (Build, [reason_simple SourceChange (''seed '' @ cs_name seed @ '' content changed'')])
      | None \<Rightarrow>
          (Build, [reason_simple UnknownState
             (if has_state then ''no seed load recorded for this environment''
              else ''no state store; cannot compare against a recorded load'')]))"

section \<open>Facts about decisions\<close>

lemma candidate_le_order:
  "candidate_le x y \<or> candidate_le y x"
  "candidate_le x y \<Longrightarrow> candidate_le y z \<Longrightarrow> candidate_le x z"
  by (auto simp: candidate_le_def)

lemma decision_build_simps [simp]:
  "dec_action (decision_build rs) = Build" "dec_reasons (decision_build rs) = rs"
  "dec_reuse (decision_build rs) = None"
  by (simp_all add: decision_build_def)

lemma decide_unrecorded_cases:
  assumes "decide_unrecorded has_state adapter m ev environment = Some d"
  shows "dec_reasons d \<noteq> [] \<and>
    (dec_action d = Build \<and> dec_reuse d = None \<or>
     dec_action d = Cached \<and> has_state \<and>
       (\<exists>hit. hit \<in> set (reuse_candidates adapter (cm_target m)
            (filter (\<lambda>r. mr_environment r \<noteq> environment) (ev_elsewhere ev))) \<and>
          mr_output_identity hit = ev_live_output ev \<and>
          dec_reuse d = Some (cache_source_of hit) \<and>
          (\<forall>r \<in> set (reuse_candidates adapter (cm_target m)
              (filter (\<lambda>r. mr_environment r \<noteq> environment) (ev_elsewhere ev))).
             mr_output_identity r = ev_live_output ev \<longrightarrow> candidate_le hit r)))"
proof -
  let ?e = "filter (\<lambda>r. mr_environment r \<noteq> environment) (ev_elsewhere ev)"
  let ?c = "reuse_candidates adapter (cm_target m) ?e"
  have sorted: "sorted_wrt candidate_le ?c"
    unfolding reuse_candidates_def
    by (rule sorted_sort_by) (auto simp: sorts_on_def candidate_le_def)
  show ?thesis
  proof (cases "has_state \<and> ?c \<noteq> []")
    case False
    with assms show ?thesis
      by (auto simp: decide_unrecorded_def Let_def split: list.splits if_splits)
  next
    case True
    then obtain first rest where c: "?c = first # rest" by (cases ?c) auto
    show ?thesis
    proof (cases "find (\<lambda>r. mr_output_identity r = ev_live_output ev) ?c")
      case None
      with assms True c show ?thesis by (auto simp: decide_unrecorded_def Let_def)
    next
      case (Some hit)
      have "dec_action d = Cached \<and> dec_reasons d \<noteq> [] \<and> dec_reuse d = Some (cache_source_of hit)"
        using assms True Some c by (auto simp: decide_unrecorded_def Let_def split: option.splits)
      moreover have "hit \<in> set ?c" "mr_output_identity hit = ev_live_output ev"
        using find_SomeD [OF Some] by simp_all
      moreover have "\<forall>r \<in> set ?c. mr_output_identity r = ev_live_output ev \<longrightarrow> candidate_le hit r"
        by (rule find_sorted_least [OF sorted Some]) (simp add: candidate_le_def)
      ultimately show ?thesis using True by blast
    qed
  qed
qed

lemma decide_recorded_cases:
  assumes "decide_recorded adapter m current live = Some d"
  shows "dec_reasons d \<noteq> [] \<and>
    (dec_action d = Build \<and> dec_reuse d = None \<or>
     dec_action d = Skip \<and> dec_reuse d = None \<or>
     dec_action d = Cached \<and> dec_reuse d = Some (cache_source_of current) \<and>
       mr_output_identity current \<noteq> None \<and> mr_output_identity current = live \<and>
       mv_hash (mr_version current) = mv_hash (cm_version m)) \<and>
    (dec_action d = Skip \<longleftrightarrow>
       mr_target current = relation_display (cm_target m) \<and>
       (mr_output_identity current = None \<or> mr_output_identity current = live) \<and>
       mv_hash (mr_version current) = mv_hash (cm_version m))"
  using assms
  by (auto simp: decide_recorded_def Let_def split: if_splits option.splits list.splits)

lemma decide_cases:
  assumes "decide has_state adapter m ev environment force = Some d"
  obtains
    (build) "dec_action d = Build" "dec_reuse d = None" "dec_reasons d \<noteq> []"
      "force \<or> \<not> ev_exists ev \<or> (\<exists>cur. ev_current ev = Some cur \<and> mr_adapter cur \<noteq> Some adapter)"
  | (unrecorded) "\<not> force" "ev_exists ev" "ev_current ev = None"
      "decide_unrecorded has_state adapter m ev environment = Some d"
  | (recorded) cur where "\<not> force" "ev_exists ev" "ev_current ev = Some cur"
      "mr_adapter cur = Some adapter" "decide_recorded adapter m cur (ev_live_output ev) = Some d"
  using assms by (auto simp: decide_def split: if_splits option.splits)

section \<open>Properties\<close>

text \<open>
  Property C15. A model is skipped exactly when no rebuild is forced, its relation exists, this
  environment recorded it under the same adapter at the same target with the desired version hash, and
  the relation still reports the recorded output identity if one was recorded.
\<close>

theorem decide_skip_iff:
  assumes "decide has_state adapter m ev environment force = Some d"
  shows "dec_action d = Skip \<longleftrightarrow>
    \<not> force \<and> ev_exists ev \<and>
    (\<exists>cur. ev_current ev = Some cur \<and> mr_adapter cur = Some adapter \<and>
       mr_target cur = relation_display (cm_target m) \<and>
       mv_hash (mr_version cur) = mv_hash (cm_version m) \<and>
       (mr_output_identity cur = None \<or> mr_output_identity cur = ev_live_output ev))"
  using assms
proof (cases rule: decide_cases)
  case build
  then show ?thesis by auto
next
  case unrecorded
  with decide_unrecorded_cases [OF unrecorded(4)] show ?thesis by auto
next
  case (recorded cur)
  with decide_recorded_cases [OF recorded(5)] show ?thesis by auto
qed

text \<open>
  Property C16. A materialisation is reused only on evidence: the record was written by this adapter,
  holds an output identity, the relation reports exactly that identity now, and the plan carries that
  record as its source. A record of another environment must name the model's content slot, and among
  several verified ones the default environment comes first, then \<open>main\<close>, then the most recent.
\<close>

theorem decide_cached_verified:
  assumes "decide has_state adapter m ev environment force = Some d" "dec_action d = Cached"
  shows "\<not> force \<and> ev_exists ev \<and>
    (\<exists>r x. dec_reuse d = Some (cache_source_of r) \<and> mr_adapter r = Some adapter \<and>
       mr_output_identity r = Some x \<and> ev_live_output ev = Some x \<and>
       (ev_current ev = Some r \<and> mv_hash (mr_version r) = mv_hash (cm_version m) \<or>
        ev_current ev = None \<and> has_state \<and> r \<in> set (ev_elsewhere ev) \<and>
        mr_environment r \<noteq> environment \<and> same_content_slot (mr_target r) (cm_target m) \<and>
        (\<forall>q \<in> set (reuse_candidates adapter (cm_target m)
            (filter (\<lambda>q. mr_environment q \<noteq> environment) (ev_elsewhere ev))).
           mr_output_identity q = Some x \<longrightarrow> candidate_le r q)))"
  using assms(1)
proof (cases rule: decide_cases)
  case build
  with assms(2) show ?thesis by simp
next
  case unrecorded
  from decide_unrecorded_cases [OF unrecorded(4)] assms(2)
  obtain hit where hit: "has_state" "hit \<in> set (reuse_candidates adapter (cm_target m)
        (filter (\<lambda>r. mr_environment r \<noteq> environment) (ev_elsewhere ev)))"
    "mr_output_identity hit = ev_live_output ev" "dec_reuse d = Some (cache_source_of hit)"
    "\<forall>r \<in> set (reuse_candidates adapter (cm_target m)
        (filter (\<lambda>r. mr_environment r \<noteq> environment) (ev_elsewhere ev))).
       mr_output_identity r = ev_live_output ev \<longrightarrow> candidate_le hit r"
    by auto
  from hit(2) obtain x where "mr_adapter hit = Some adapter" "mr_output_identity hit = Some x"
    "same_content_slot (mr_target hit) (cm_target m)" "mr_environment hit \<noteq> environment"
    "hit \<in> set (ev_elsewhere ev)"
    by (auto simp: reuse_candidates_def)
  with hit unrecorded show ?thesis
    by (intro conjI exI [of _ hit] exI [of _ x]) (simp_all del: disj_imp)
next
  case (recorded cur)
  with decide_recorded_cases [OF recorded(5)] assms(2) show ?thesis by auto
qed

text \<open>A record with a version hash and an output identity, and the model it describes.\<close>

definition recorded_as :: "string option \<Rightarrow> string \<Rightarrow> string option \<Rightarrow> materialized_record" where
  "recorded_as environment hash output =
     (bare_record ''m.a'' environment ''2026'')
       \<lparr>mr_version := no_version\<lparr>mv_hash := hash\<rparr>, mr_target := ''m.a'', mr_output_identity := output\<rparr>"

definition versioned_model :: "string \<Rightarrow> compiled_model" where
  "versioned_model hash = (bare_model (mid ''a'') [])\<lparr>cm_version := no_version\<lparr>mv_hash := hash\<rparr>\<rparr>"

definition skip_evidence :: model_evidence where
  "skip_evidence =
     \<lparr>ev_exists = True, ev_current = Some (recorded_as None ''h'' (Some ''out'')), ev_elsewhere = [],
      ev_live_output = Some ''out''\<rparr>"

definition cached_evidence :: model_evidence where
  "cached_evidence =
     \<lparr>ev_exists = True, ev_current = None,
      ev_elsewhere = [recorded_as (Some ''main'') ''h'' (Some ''old''), recorded_as None ''h'' (Some ''out'')],
      ev_live_output = Some ''out''\<rparr>"

lemma skip_decision:
  "map_option dec_action
     (decide True ''duckdb'' (versioned_model ''h'') skip_evidence None False) = Some Skip"
  by code_simp

lemma cached_decision:
  "map_option dec_action
     (decide True ''duckdb'' (versioned_model ''h'') cached_evidence (Some ''dev'') False) = Some Cached"
  by code_simp

theorem decide_skip_iff_witness:
  "\<exists>d. decide True ''duckdb'' (versioned_model ''h'') skip_evidence None False = Some d \<and>
    dec_action d = Skip \<and> ev_exists skip_evidence"
proof -
  obtain d where d: "decide True ''duckdb'' (versioned_model ''h'') skip_evidence None False = Some d"
    "dec_action d = Skip"
    using skip_decision by auto
  then show ?thesis using decide_skip_iff [OF d(1)] by blast
qed

theorem decide_cached_verified_witness:
  "\<exists>d r. decide True ''duckdb'' (versioned_model ''h'') cached_evidence (Some ''dev'') False = Some d \<and>
    dec_reuse d = Some (cache_source_of r) \<and> mr_output_identity r = Some ''out''"
proof -
  obtain d where d: "decide True ''duckdb'' (versioned_model ''h'') cached_evidence (Some ''dev'') False = Some d"
    "dec_action d = Cached"
    using cached_decision by auto
  from decide_cached_verified [OF this] obtain r x where "dec_reuse d = Some (cache_source_of r)"
    "mr_output_identity r = Some x" "ev_live_output cached_evidence = Some x"
    by auto
  with d show ?thesis by (auto simp: cached_evidence_def)
qed

section \<open>Slices\<close>

definition sliceable :: "nat \<Rightarrow> string \<Rightarrow> bool" where
  "sliceable n v \<longleftrightarrow> length v \<le> n \<or> char_boundary n v"

definition sliceable_sources :: "version_detail \<Rightarrow> bool" where
  "sliceable_sources d \<longleftrightarrow> (\<forall>e \<in> set (vd_sources d). sliceable 20 (snd e))"

definition sliceable_record :: "materialized_record \<Rightarrow> bool" where
  "sliceable_record r \<longleftrightarrow>
     sliceable 12 (mr_run_id r) \<and> pred_option (sliceable 24) (mr_output_identity r) \<and>
     pred_option sliceable_sources (mr_detail r)"

definition sliceable_records :: "compiled_model \<Rightarrow> model_evidence \<Rightarrow> bool" where
  "sliceable_records m ev \<longleftrightarrow>
     sliceable_sources (cm_version_detail m) \<and> (\<forall>r \<in> set (ev_elsewhere ev). sliceable_record r) \<and>
     pred_option sliceable_record (ev_current ev)"

lemma short_Some: "sliceable n v \<Longrightarrow> \<exists>t. short v n = Some t"
  by (auto simp: short_def sliceable_def)

lemma short_state_Some: "sliceable 20 v \<Longrightarrow> \<exists>t. short_state v = Some t"
  by (auto simp: short_state_def dest: short_Some)

lemma source_changes_Some:
  assumes "\<forall>e \<in> set desired. sliceable 20 (snd e)" "\<forall>e \<in> set recorded. sliceable 20 (snd e)"
  shows "\<exists>rs. source_changes desired recorded = Some rs"
  using assms(1)
proof (induction desired)
  case Nil
  then show ?case by simp
next
  case (Cons e rest)
  obtain name now where e: "e = (name, now)" by (cases e)
  obtain a where a: "short_state now = Some a" using Cons.prems e short_state_Some by fastforce
  have "\<exists>t. short_state w = Some t" if "map_of recorded name = Some w" for w
    using map_of_SomeD [OF that] assms(2) by (force intro: short_state_Some)
  then have "\<exists>rs. source_change_reason name now (map_of recorded name) = Some rs"
    using a by (auto simp: source_change_reason_def split: option.splits)
  with Cons e show ?case by auto
qed

lemma diff_reasons_Some:
  assumes "sliceable_sources (cm_version_detail m)" "sliceable_record current"
  shows "\<exists>rs. diff_reasons m current = Some rs"
proof -
  have "\<exists>rs. source_diff_reasons m current = Some rs"
  proof (cases "mr_detail current")
    case None
    then show ?thesis by (simp add: source_diff_reasons_def)
  next
    case (Some d)
    with assms source_changes_Some [of "vd_sources (cm_version_detail m)" "vd_sources d"]
    show ?thesis
      by (auto simp: source_diff_reasons_def Let_def sliceable_sources_def sliceable_record_def)
  qed
  then show ?thesis by (auto simp: diff_reasons_def Let_def)
qed

text \<open>
  Planning a model always ends with a decision and a stated reason, never an \<open>unknown\<close>
  action, when every text the messages abbreviate can be cut at its limit: source states at 20 bytes,
  output identities at 24 and run ids at 12.
\<close>

theorem decide_total:
  assumes "sliceable_records m ev"
  shows "\<exists>d. decide has_state adapter m ev environment force = Some d \<and>
    dec_reasons d \<noteq> [] \<and> dec_action d \<noteq> Unknown"
proof -
  have rec_total: "\<exists>d. decide_recorded adapter m cur live = Some d"
    if "ev_current ev = Some cur" for cur live
  proof -
    have s: "sliceable_sources (cm_version_detail m)" "sliceable_record cur"
      using assms that by (simp_all add: sliceable_records_def)
    obtain rs where "diff_reasons m cur = Some rs" using diff_reasons_Some [OF s] by blast
    moreover have "\<exists>t. short x 24 = Some t" if "mr_output_identity cur = Some x" for x
      using s(2) that by (simp add: sliceable_record_def short_Some)
    ultimately show ?thesis
      by (cases rs) (auto simp: decide_recorded_def Let_def split: option.splits)
  qed
  have unrec_total: "\<exists>d. decide_unrecorded has_state adapter m ev environment = Some d"
  proof -
    have "\<exists>a b. short (case mr_output_identity r of Some o1 \<Rightarrow> o1 | None \<Rightarrow> []) 24 = Some a \<and>
        short (mr_run_id r) 12 = Some b" if "r \<in> set (ev_elsewhere ev)" for r
    proof -
      have "sliceable_record r" using assms that by (simp add: sliceable_records_def)
      then show ?thesis
        by (cases "mr_output_identity r")
          (auto simp: sliceable_record_def sliceable_def intro!: short_Some)
    qed
    moreover have "r \<in> set (ev_elsewhere ev)"
      if "find P (reuse_candidates adapter (cm_target m)
        (filter (\<lambda>r. mr_environment r \<noteq> environment) (ev_elsewhere ev))) = Some r" for P r
      using find_SomeD [OF that] by (auto simp: reuse_candidates_def)
    ultimately have ok: "\<exists>a b. short (case mr_output_identity r of Some o1 \<Rightarrow> o1 | None \<Rightarrow> []) 24 = Some a \<and>
        short (mr_run_id r) 12 = Some b"
      if "find P (reuse_candidates adapter (cm_target m)
        (filter (\<lambda>r. mr_environment r \<noteq> environment) (ev_elsewhere ev))) = Some r" for P r
      using that by blast
    let ?e = "filter (\<lambda>r. mr_environment r \<noteq> environment) (ev_elsewhere ev)"
    let ?c = "reuse_candidates adapter (cm_target m) ?e"
    show ?thesis
    proof (cases "find (\<lambda>r. mr_output_identity r = ev_live_output ev) ?c")
      case None
      then show ?thesis by (cases ?c; cases ?e) (simp_all add: decide_unrecorded_def Let_def)
    next
      case (Some hit)
      then obtain a b where "short (case mr_output_identity hit of Some o1 \<Rightarrow> o1 | None \<Rightarrow> []) 24 = Some a"
        "short (mr_run_id hit) 12 = Some b"
        using ok by blast
      with Some show ?thesis by (cases ?c) (auto simp: decide_unrecorded_def Let_def)
    qed
  qed
  have "\<exists>d. decide has_state adapter m ev environment force = Some d"
    using rec_total unrec_total by (auto simp: decide_def split: option.splits)
  then obtain d where d: "decide has_state adapter m ev environment force = Some d" by blast
  then have "dec_reasons d \<noteq> [] \<and> dec_action d \<noteq> Unknown"
  proof (cases rule: decide_cases)
    case build
    then show ?thesis by simp
  next
    case unrecorded
    with decide_unrecorded_cases [OF unrecorded(4)] show ?thesis by auto
  next
    case (recorded cur)
    with decide_recorded_cases [OF recorded(5)] show ?thesis by auto
  qed
  with d show ?thesis by blast
qed

theorem decide_total_witness:
  "\<exists>d. decide True ''duckdb'' (versioned_model ''h'') cached_evidence (Some ''dev'') False = Some d \<and>
    dec_reasons d \<noteq> []"
proof -
  have "sliceable_records (versioned_model ''h'') cached_evidence"
    by (simp add: sliceable_records_def sliceable_record_def sliceable_sources_def sliceable_def
        versioned_model_def bare_model_def cached_evidence_def recorded_as_def bare_record_def)
  from decide_total [OF this, of True "''duckdb''" "Some ''dev''" False] show ?thesis by blast
qed

text \<open>
  A source state that holds a character across byte 20 makes planning panic: naming the
  moved source slices the state inside the character.
\<close>

theorem wide_source_state_panics:
  "decide True ''duckdb''
     ((versioned_model ''new'')
        \<lparr>cm_version := no_version\<lparr>mv_hash := ''new'', mv_source_state_hash := ''n''\<rparr>,
         cm_version_detail := \<lparr>vd_dependencies = [],
           vd_sources = [(''raw'', replicate 19 CHR ''x'' @ [CHR 0xC3, CHR 0xA9])]\<rparr>\<rparr>)
     \<lparr>ev_exists = True,
      ev_current = Some ((recorded_as None ''old'' None)
        \<lparr>mr_detail := Some \<lparr>vd_dependencies = [], vd_sources = [(''raw'', ''s'')]\<rparr>\<rparr>),
      ev_elsewhere = [], ev_live_output = None\<rparr> None False = None"
  by code_simp

end
