(* ===== verification/Failure.thy ===== *)
theory Failure
  imports Diagnostics "HOL-Library.Word"
begin

text \<open>
  Execution states (\<^verbatim>\<open>phlo-transform-engine/src/events.rs\<close>) and the classification of failures with
  the retry policy (\<^verbatim>\<open>phlo-transform-engine/src/failure.rs\<close>) and the engine's errors
  (\<^verbatim>\<open>phlo-transform-engine/src/error.rs\<close>). Attempt counters are 32-bit words,
  milliseconds 128-bit words and the multiplier a 64-bit word, with the saturating and checked
  operations of the source. The clock is an argument.
\<close>

section \<open>Execution states\<close>

datatype execution_status =
    Pending | Ready | Running | Passed | Failed | Skipped | CachedStatus | Blocked | Cancelled

definition is_terminal :: "execution_status \<Rightarrow> bool" where
  "is_terminal s \<longleftrightarrow> s \<in> {Passed, Failed, Skipped, CachedStatus, Blocked, Cancelled}"

definition is_satisfied :: "execution_status \<Rightarrow> bool" where
  "is_satisfied s \<longleftrightarrow> s \<in> {Passed, Skipped, CachedStatus}"

fun status_label :: "execution_status \<Rightarrow> string" where
  "status_label Pending = ''pending''"
| "status_label Ready = ''ready''"
| "status_label Running = ''running''"
| "status_label Passed = ''passed''"
| "status_label Failed = ''failed''"
| "status_label Skipped = ''skipped''"
| "status_label CachedStatus = ''cached''"
| "status_label Blocked = ''blocked''"
| "status_label Cancelled = ''cancelled''"

lemma satisfied_terminal: "is_satisfied s \<Longrightarrow> is_terminal s"
  by (auto simp: is_satisfied_def is_terminal_def)

section \<open>Failures\<close>

datatype failure_category =
    AdapterFailure | SqlFailure | TestFailure | TimeoutFailure | CancelledFailure
  | DependencyFailure | StateFailure | InternalFailure

fun category_code :: "failure_category \<Rightarrow> string" where
  "category_code AdapterFailure = ''adapter''"
| "category_code SqlFailure = ''sql''"
| "category_code TestFailure = ''test''"
| "category_code TimeoutFailure = ''timeout''"
| "category_code CancelledFailure = ''cancelled''"
| "category_code DependencyFailure = ''dependency''"
| "category_code StateFailure = ''state''"
| "category_code InternalFailure = ''internal''"

record failure =
  fl_category :: failure_category
  fl_message :: string
  fl_adapter_code :: "string option"
  fl_adapter_message :: "string option"
  fl_attempt :: "32 word"
  fl_at :: string
  fl_retryable :: bool

definition without_attempt :: "string \<Rightarrow> failure_category \<Rightarrow> string \<Rightarrow> failure" where
  "without_attempt now category message =
     \<lparr>fl_category = category, fl_message = message, fl_adapter_code = None, fl_adapter_message = None,
      fl_attempt = 0, fl_at = now, fl_retryable = False\<rparr>"

record attempt =
  at_attempt :: "32 word"
  at_started_at :: string
  at_duration_ms :: "64 word"
  at_query_id :: "string option"
  at_failure :: "failure option"

record adapter_error =
  ae_code :: string
  ae_message :: string
  ae_retryable :: bool

definition adapter_error_text :: "adapter_error \<Rightarrow> string" where
  "adapter_error_text e = ae_code e @ '': '' @ ae_message e"

definition SQL_CODES :: "string list" where
  "SQL_CODES =
     [''SYNTAX_ERROR'', ''PARSE_ERROR'', ''COLUMN_NOT_FOUND'', ''TABLE_NOT_FOUND'', ''SCHEMA_NOT_FOUND'',
      ''CATALOG_NOT_FOUND'', ''FUNCTION_NOT_FOUND'', ''TYPE_MISMATCH'', ''TYPE_NOT_FOUND'',
      ''AMBIGUOUS_NAME'', ''DUPLICATE_COLUMN_NAME'', ''DIVISION_BY_ZERO'', ''INVALID_FUNCTION_ARGUMENT'']"

definition classify_adapter_error :: "string \<Rightarrow> adapter_error \<Rightarrow> 32 word \<Rightarrow> failure" where
  "classify_adapter_error now e n =
     (let sql = list_ex (\<lambda>code. eq_ignore_ascii_case (ae_code e) code) SQL_CODES
      in \<lparr>fl_category = (if sql then SqlFailure else AdapterFailure),
          fl_message = adapter_error_text e, fl_adapter_code = Some (ae_code e),
          fl_adapter_message = Some (ae_message e), fl_attempt = n, fl_at = now,
          fl_retryable = (if sql then False else ae_retryable e)\<rparr>)"

text \<open>The seconds in the message are printed by the standard library's float formatting.\<close>

definition timeout_failure :: "string \<Rightarrow> string \<Rightarrow> 32 word \<Rightarrow> failure" where
  "timeout_failure now seconds n =
     \<lparr>fl_category = TimeoutFailure,
      fl_message = ''exceeded the '' @ seconds @ ''s execution timeout'',
      fl_adapter_code = None, fl_adapter_message = None, fl_attempt = n, fl_at = now,
      fl_retryable = False\<rparr>"

section \<open>Engine errors\<close>

datatype engine_error =
    EAdapter adapter_error
  | ECompilation
  | EFailedDiagnostics string string "diagnostic list"
  | EGit string
  | ENotConfigured string
  | ENotFound string
  | EAmbiguous string
  | EState string
  | EArtifact string
  | EInvalidPlan string
  | EStalePlan string
  | EPromotion string
  | EEnvironment string

definition render_diagnostics :: "diagnostic list \<Rightarrow> string" where
  "render_diagnostics ds = join ''; '' (map render_human ds)"

fun engine_error_text :: "engine_error \<Rightarrow> string" where
  "engine_error_text (EAdapter e) = adapter_error_text e"
| "engine_error_text ECompilation = ''workspace did not compile; fix the reported diagnostics first''"
| "engine_error_text (EFailedDiagnostics label problem ds) =
     ''`'' @ label @ ''` '' @ problem @ '': '' @ render_diagnostics ds"
| "engine_error_text (EGit m) = ''git: '' @ m"
| "engine_error_text (ENotConfigured m) = ''not configured: '' @ m"
| "engine_error_text (ENotFound m) = m"
| "engine_error_text (EAmbiguous m) = m"
| "engine_error_text (EState m) = ''state store error: '' @ m"
| "engine_error_text (EArtifact m) = ''artifact error: '' @ m"
| "engine_error_text (EInvalidPlan m) = ''invalid plan: '' @ m"
| "engine_error_text (EStalePlan m) = ''plan is stale: '' @ m @ ''; run `phlo-transform plan` again''"
| "engine_error_text (EPromotion m) = ''promotion failed: '' @ m"
| "engine_error_text (EEnvironment m) = ''environment error: '' @ m"

section \<open>Durations\<close>

text \<open>\<open>std::time::Duration\<close>: whole seconds and fewer than a billion nanoseconds.\<close>

record duration =
  du_secs :: "64 word"
  du_nanos :: "32 word"

definition valid_duration :: "duration \<Rightarrow> bool" where
  "valid_duration d \<longleftrightarrow> unat (du_nanos d) < 1000000000"

definition from_millis :: "64 word \<Rightarrow> duration" where
  "from_millis ms = \<lparr>du_secs = ms div 1000, du_nanos = ucast (ms mod 1000) * 1000000\<rparr>"

definition as_millis :: "duration \<Rightarrow> 128 word" where
  "as_millis d = ucast (du_secs d) * 1000 + ucast (du_nanos d div 1000000)"

definition saturating_add :: "'a::len word \<Rightarrow> 'a word \<Rightarrow> 'a word" where
  "saturating_add a b = (if unat a + unat b < 2 ^ LENGTH('a) then a + b else - 1)"

definition saturating_sub :: "'a::len word \<Rightarrow> 'a word \<Rightarrow> 'a word" where
  "saturating_sub a b = (if b \<le> a then a - b else 0)"

definition saturating_mul :: "'a::len word \<Rightarrow> 'a word \<Rightarrow> 'a word" where
  "saturating_mul a b = (if unat a * unat b < 2 ^ LENGTH('a) then a * b else - 1)"

definition checked_shl :: "'a::len word \<Rightarrow> 32 word \<Rightarrow> 'a word option" where
  "checked_shl a n = (if unat n < LENGTH('a) then Some (push_bit (unat n) a) else None)"

section \<open>The retry policy\<close>

record retry_policy =
  rp_retries :: "32 word"
  rp_base_delay :: duration
  rp_max_delay :: duration

definition default_policy :: retry_policy where
  "default_policy =
     \<lparr>rp_retries = 0, rp_base_delay = from_millis 200, rp_max_delay = \<lparr>du_secs = 5, du_nanos = 0\<rparr>\<rparr>"

definition max_attempts :: "retry_policy \<Rightarrow> 32 word" where
  "max_attempts p = saturating_add (rp_retries p) 1"

definition retry_delay :: "retry_policy \<Rightarrow> 32 word \<Rightarrow> duration" where
  "retry_delay p n =
     (let shift = min (saturating_sub n 1) 16;
          multiplier = (case checked_shl (1 :: 64 word) shift of Some m \<Rightarrow> m | None \<Rightarrow> - 1);
          millis = min (saturating_mul (as_millis (rp_base_delay p)) (ucast multiplier))
                       (as_millis (rp_max_delay p))
      in from_millis (ucast millis))"

definition should_retry :: "retry_policy \<Rightarrow> failure \<Rightarrow> 32 word \<Rightarrow> bool" where
  "should_retry p f n \<longleftrightarrow>
     fl_retryable f \<and> n < max_attempts p \<and> fl_category f = AdapterFailure"

section \<open>Widths\<close>

definition millis_of :: "duration \<Rightarrow> nat" where
  "millis_of d = unat (du_secs d) * 1000 + unat (du_nanos d) div 1000000"

lemma unat_less: "unat (w :: 'a::len word) < 2 ^ LENGTH('a)"
  by (rule unsigned_less)

lemma unat_ucast_up:
  "LENGTH('a) \<le> LENGTH('b) \<Longrightarrow> unat (ucast (w :: 'a::len word) :: 'b::len word) = unat w"
  by (simp add: unsigned_ucast_eq take_bit_nat_eq_self_iff less_le_trans [OF unsigned_less])

lemma unat_ucast_down:
  "unat (w :: 'a::len word) < 2 ^ LENGTH('b) \<Longrightarrow> unat (ucast w :: 'b::len word) = unat w"
  by (simp add: unsigned_ucast_eq take_bit_nat_eq_self_iff)

lemma unat_max_attempts:
  "unat (max_attempts p) = min (unat (rp_retries p) + 1) (2 ^ 32 - 1)"
proof -
  have "unat (rp_retries p) < 2 ^ 32" using unat_less [of "rp_retries p"] by simp
  moreover have "unat (- 1 :: 32 word) = 2 ^ 32 - 1"
    by (simp add: unsigned_minus_1_eq_mask mask_eq_exp_minus_1)
  moreover have "unat (rp_retries p + 1) = unat (rp_retries p) + 1" if "unat (rp_retries p) + 1 < 2 ^ 32"
    using that unat_add_lem [of "rp_retries p" 1] by simp
  ultimately show ?thesis by (auto simp: max_attempts_def saturating_add_def)
qed

lemma unat_as_millis: "unat (as_millis d) = millis_of d"
proof -
  have s: "unat (ucast (du_secs d) :: 128 word) = unat (du_secs d)"
    by (simp add: unat_ucast_up)
  have n: "unat (ucast (du_nanos d div 1000000) :: 128 word) = unat (du_nanos d) div 1000000"
    by (simp add: unat_ucast_up unat_div_distrib)
  have lt: "unat (du_secs d) < 2 ^ 64" "unat (du_nanos d) < 2 ^ 32"
    using unat_less [of "du_secs d"] unat_less [of "du_nanos d"] by simp_all
  have m: "unat (ucast (du_secs d) * 1000 :: 128 word) = unat (du_secs d) * 1000"
    using unat_mult_lem [of "ucast (du_secs d) :: 128 word" 1000] lt by (simp add: s)
  have "unat (du_secs d) * 1000 + unat (du_nanos d) div 1000000 < 2 ^ 128"
    using lt div_le_dividend [of "unat (du_nanos d)" 1000000] by simp
  then show ?thesis
    using unat_add_lem [of "ucast (du_secs d) * 1000 :: 128 word" "ucast (du_nanos d div 1000000)"]
    by (simp add: as_millis_def millis_of_def m n)
qed
lemma unat_shift:
  "unat (min (saturating_sub n 1) 16 :: 32 word) = min (unat n - 1) 16"
proof -
  have "unat (saturating_sub n (1 :: 32 word)) = unat n - 1"
  proof (cases "n = 0")
    case True
    then show ?thesis by (simp add: saturating_sub_def)
  next
    case False
    then have "1 \<le> n" by (metis word_gt_0 word_le_sub1 word_less_1 not_le)
    then show ?thesis using unat_minus_one [OF False] by (simp add: saturating_sub_def)
  qed
  then show ?thesis by (simp add: min_def word_le_nat_alt)
qed

lemma multiplier_value:
  assumes "unat s \<le> 16"
  shows "\<exists>m. checked_shl (1 :: 64 word) s = Some m \<and> unat m = 2 ^ unat s"
proof -
  have "unat (push_bit (unat s) (1 :: 64 word)) = 2 ^ unat s"
    using assms by (simp only: unsigned_push_bit_eq) (simp add: take_bit_nat_eq_self_iff push_bit_eq_mult)
  then show ?thesis using assms by (simp add: checked_shl_def)
qed

lemma millis_from_millis: "millis_of (from_millis m) = unat m"
proof -
  have "unat (m mod 1000) < 1000" by (simp add: unat_mod_distrib)
  then have r: "unat (ucast (m mod 1000) * 1000000 :: 32 word) = unat (m mod 1000) * 1000000"
    using unat_mult_lem [of "ucast (m mod 1000) :: 32 word" 1000000]
    by (simp add: unat_ucast_down)
  then show ?thesis
    by (simp add: millis_of_def from_millis_def unat_div_distrib unat_mod_distrib)
qed

lemma millis_bound: "millis_of d < 2 ^ 64 * 1000 + 2 ^ 32"
  using unat_less [of "du_secs d"] unat_less [of "du_nanos d"] by (simp add: millis_of_def)

lemma unat_min: "unat (min a b :: 'a::len word) = min (unat a) (unat b)"
  by (simp add: min_def word_le_nat_alt)

section \<open>Properties\<close>

text \<open>
  The delay after a failed attempt is the base delay doubled once per earlier retry, at
  most sixteen times, and never above the ceiling; no product overflows on the way, whatever the
  configured durations are, as long as the ceiling is expressible in 64-bit milliseconds.
\<close>

theorem retry_delay_bounds:
  assumes "millis_of (rp_max_delay p) < 2 ^ 64"
  shows "millis_of (retry_delay p n) =
      min (millis_of (rp_base_delay p) * 2 ^ min (unat n - 1) 16) (millis_of (rp_max_delay p))"
proof -
  let ?s = "min (saturating_sub n 1) 16 :: 32 word"
  obtain m where m: "checked_shl (1 :: 64 word) ?s = Some m" "unat m = 2 ^ unat ?s"
    using multiplier_value [of ?s] by (auto simp: unat_shift)
  have p: "(2 :: nat) ^ unat ?s \<le> 2 ^ 16" by (intro power_increasing) (simp_all add: unat_shift)
  have u: "unat (ucast m :: 128 word) = 2 ^ unat ?s" by (simp add: unat_ucast_up m(2))
  have b: "millis_of (rp_base_delay p) * 2 ^ unat ?s < 2 ^ 128"
  proof -
    have "millis_of (rp_base_delay p) * 2 ^ unat ?s \<le> (2 ^ 64 * 1000 + 2 ^ 32) * 2 ^ 16"
      using millis_bound [of "rp_base_delay p"] p by (intro mult_le_mono) simp_all
    then show ?thesis by simp
  qed
  have "unat (saturating_mul (as_millis (rp_base_delay p)) (ucast m)) =
      millis_of (rp_base_delay p) * 2 ^ unat ?s"
    using b unat_mult_lem [of "as_millis (rp_base_delay p)" "ucast m"]
    by (simp add: saturating_mul_def unat_as_millis u)
  then have "unat (min (saturating_mul (as_millis (rp_base_delay p)) (ucast m)) (as_millis (rp_max_delay p))) =
      min (millis_of (rp_base_delay p) * 2 ^ unat ?s) (millis_of (rp_max_delay p))"
    by (simp add: unat_min unat_as_millis)
  moreover from this have "unat (ucast (min (saturating_mul (as_millis (rp_base_delay p)) (ucast m))
      (as_millis (rp_max_delay p))) :: 64 word) =
      min (millis_of (rp_base_delay p) * 2 ^ unat ?s) (millis_of (rp_max_delay p))"
    using assms by (subst unat_ucast_down) simp_all
  ultimately show ?thesis
    by (simp add: retry_delay_def Let_def m(1) millis_from_millis unat_shift)
qed

theorem retry_delay_bounds_witness:
  "millis_of (retry_delay default_policy 4) = 1600 \<and> millis_of (retry_delay default_policy 9) = 5000"
  using retry_delay_bounds [of default_policy 4] retry_delay_bounds [of default_policy 9]
  by (simp add: default_policy_def millis_from_millis, simp add: millis_of_def)

text \<open>
  A failed attempt is retried exactly when the adapter declared its error transient, the
  error code names no SQL fault in any letter case, and attempts are left: an attempt numbered past the
  configured retries, a timeout, a cancellation or a blocked node never is.
\<close>

theorem retry_only_transient:
  "(should_retry p (classify_adapter_error now e n) n \<longleftrightarrow>
      ae_retryable e \<and> unat n < min (unat (rp_retries p) + 1) (2 ^ 32 - 1) \<and>
      \<not> (\<exists>code \<in> set SQL_CODES. eq_ignore_ascii_case (ae_code e) code)) \<and>
   \<not> should_retry p (timeout_failure now seconds n) n \<and>
   \<not> should_retry p (without_attempt now category message) n"
  by (auto simp: should_retry_def classify_adapter_error_def timeout_failure_def without_attempt_def
      Let_def list_ex_iff word_less_nat_alt unat_max_attempts)

end
