(* ===== verification/Planner.thy ===== *)
theory Planner
  imports Plan Failure
begin

text \<open>
  The planner, \<open>Planner::plan\<close> of \<^verbatim>\<open>phlo-transform-engine/src/plan.rs\<close>: from a compilation and a
  selection to the dependency-closed, ordered plan with a decision per model and seed. The warehouse
  and the state store are the record \<open>evidence_source\<close>: what their calls answer. A run identity and a
  clock reading are arguments, as is SHA-256. The outer option is a panic of a string slice.
\<close>

section \<open>The dependency closure\<close>

definition kept_upstream :: "transform_graph \<Rightarrow> model_id list \<Rightarrow> model_id \<Rightarrow> model_id list" where
  "kept_upstream g excluded i = filter (\<lambda>d. d \<notin> set excluded) (upstream_of g i)"

text \<open>The walk always ends (\<open>closure_excluding_reaches\<close>), so the last case is never taken.\<close>

definition dependency_closure_excluding ::
    "compilation \<Rightarrow> model_id list \<Rightarrow> model_id list \<Rightarrow> model_id list" where
  "dependency_closure_excluding c selected excluded =
     (case walk (kept_upstream (cp_graph c) excluded) selected of Some included \<Rightarrow> included | None \<Rightarrow> [])"

definition dependency_closure :: "compilation \<Rightarrow> model_id list \<Rightarrow> model_id list" where
  "dependency_closure c selected = dependency_closure_excluding c (btree_set selected) []"

text \<open>
  \<open>requiring_models\<close>: a breadth-first search from the selection that notes, for every other model it
  meets, the selected model whose search met it first.
\<close>

type_synonym claims = "(model_id \<times> string) list"

fun claim_deps ::
    "model_id list \<Rightarrow> model_id \<Rightarrow> model_id list \<Rightarrow> claims \<times> (model_id \<times> model_id) list
       \<Rightarrow> claims \<times> (model_id \<times> model_id) list" where
  "claim_deps selected source [] s = s"
| "claim_deps selected source (d # ds) (claims, frontier) =
     claim_deps selected source ds
       (if d \<in> set selected \<or> map_of claims d \<noteq> None then (claims, frontier)
        else (bm_insert d (logical_name source) claims, frontier @ [(d, source)]))"

fun claim_step ::
    "(model_id \<Rightarrow> model_id list) \<Rightarrow> model_id list \<Rightarrow> claims \<times> (model_id \<times> model_id) list
       \<Rightarrow> claims \<times> (model_id \<times> model_id) list" where
  "claim_step up selected (claims, []) = (claims, [])"
| "claim_step up selected (claims, (current, source) # frontier) =
     claim_deps selected source (up current) (claims, frontier)"

definition requiring_models :: "compilation \<Rightarrow> model_id list \<Rightarrow> claims" where
  "requiring_models c selected =
     (case while_option (\<lambda>s. snd s \<noteq> []) (claim_step (upstream_of (cp_graph c)) selected)
             ([], map (\<lambda>i. (i, i)) selected) of
        Some s \<Rightarrow> fst s
      | None \<Rightarrow> [])"

section \<open>Plans\<close>

datatype membership = Selected | Expanded | DependencyMember

record planned_model =
  pm_id :: string
  pm_target :: string
  pm_materialization :: string
  pm_action :: plan_action
  pm_reasons :: "plan_reason list"
  pm_reuse :: "cache_source option"
  pm_membership :: membership
  pm_exists :: bool
  pm_incremental :: "string option"
  pm_full_rebuild :: bool
  pm_watermark :: "string option"
  pm_desired_version :: string
  pm_current_version :: "string option"
  pm_dependencies :: "string list"
  pm_sources :: "string list"
  pm_sql_hash :: string
  pm_compiled_sql :: string

record planned_seed =
  ps_name :: string
  ps_target :: string
  ps_path :: string
  ps_action :: plan_action
  ps_desired_version :: string
  ps_reasons :: "plan_reason list"

record planned_test =
  pt_id :: string
  pt_generated :: bool
  pt_targets :: "string list"
  pt_sources :: "string list"

record plan_selection =
  psel_terms :: "string list"
  psel_exclude :: "string list"
  psel_matched :: "string list"
  psel_expanded :: "string list"
  psel_required :: "string list"

record plan =
  pl_id :: string
  pl_created_at :: string
  pl_environment :: "string option"
  pl_adapter :: string
  pl_compiler_semantics_version :: string
  pl_blocked :: bool
  pl_selection :: plan_selection
  pl_warnings :: "string list"
  pl_seeds :: "planned_seed list"
  pl_models :: "planned_model list"
  pl_tests :: "planned_test list"
  pl_diagnostics :: "diagnostic list"

definition model_count :: "plan \<Rightarrow> nat" where
  "model_count p = length (pl_models p)"

definition test_count :: "plan \<Rightarrow> nat" where
  "test_count p = length (pl_tests p)"

definition build_count :: "plan \<Rightarrow> nat" where
  "build_count p = length (filter (\<lambda>m. pm_action m = Build) (pl_models p))"

fun stale_model :: "compilation \<Rightarrow> planned_model list \<Rightarrow> string option" where
  "stale_model c [] = None"
| "stale_model c (m # ms) =
     (case model_id_parse (pm_id m) of
        Inl _ \<Rightarrow> stale_model c ms
      | Inr i \<Rightarrow>
          (case compilation_model c i of
             None \<Rightarrow> Some (''model `'' @ pm_id m @ ''` no longer exists'')
           | Some compiled \<Rightarrow>
               if mv_hash (cm_version compiled) \<noteq> pm_desired_version m then
                 Some (''model `'' @ pm_id m @ ''` changed since the plan was created'')
               else if relation_display (cm_target compiled) \<noteq> pm_target m then
                 Some (''model `'' @ pm_id m @ ''` target changed since the plan was created (`'' @
                       pm_target m @ ''` -> `'' @ relation_display (cm_target compiled) @ ''`)'')
               else stale_model c ms))"

definition staleness :: "plan \<Rightarrow> compilation \<Rightarrow> string option" where
  "staleness p c = stale_model c (pl_models p)"

section \<open>Schema changes\<close>

text \<open>The derived \<open>Debug\<close> form of a data type.\<close>

fun data_type_debug :: "data_type \<Rightarrow> string" where
  "data_type_debug TBoolean = ''Boolean''"
| "data_type_debug TTinyInt = ''TinyInt''"
| "data_type_debug TSmallInt = ''SmallInt''"
| "data_type_debug TInteger = ''Integer''"
| "data_type_debug TBigInt = ''BigInt''"
| "data_type_debug TReal = ''Real''"
| "data_type_debug TDouble = ''Double''"
| "data_type_debug TDecimal = ''Decimal''"
| "data_type_debug TVarchar = ''Varchar''"
| "data_type_debug TVarbinary = ''Varbinary''"
| "data_type_debug TDate = ''Date''"
| "data_type_debug TTime = ''Time''"
| "data_type_debug TTimestamp = ''Timestamp''"
| "data_type_debug TTimestampTz = ''TimestampTz''"
| "data_type_debug TUnknown = ''Unknown''"
| "data_type_debug (TArray t) = ''Array('' @ data_type_debug t @ '')''"
| "data_type_debug (TMap k v) = ''Map('' @ data_type_debug k @ '', '' @ data_type_debug v @ '')''"
| "data_type_debug (TRow ts) = ''Row(['' @ join '', '' (map data_type_debug ts) @ ''])''"

definition schema_change_pieces :: "schema_col list \<Rightarrow> schema_col list \<Rightarrow> string list" where
  "schema_change_pieces desired current =
     concat (map (\<lambda>d.
        (case map_of (rev (map (\<lambda>c. (sc_name c, c)) current)) (sc_name d) of
           None \<Rightarrow> [''added '' @ sc_name d]
         | Some was \<Rightarrow>
             if sc_type was \<noteq> sc_type d
             then [sc_name d @ '': '' @ data_type_debug (sc_type was) @ '' '' @ arrow @ '' '' @
                   data_type_debug (sc_type d)]
             else [])) desired) @
     map (\<lambda>c. ''removed '' @ sc_name c)
       (filter (\<lambda>c. sc_name c \<notin> set (map sc_name desired)) current)"

definition schema_change_detail ::
    "schema_col list \<Rightarrow> schema_col list \<Rightarrow> schema_safety \<Rightarrow> string" where
  "schema_change_detail desired current safety =
     (let pieces = schema_change_pieces desired current;
          label = (case safety of
                     SFullRebuild \<Rightarrow> ''schema change requires a full rebuild''
                   | SError \<Rightarrow> ''incompatible schema change''
                   | _ \<Rightarrow> ''output schema changed'')
      in if pieces = [] then label else label @ '': '' @ join '', '' pieces)"

section \<open>What the plan may ask\<close>

record column_info =
  ci_name :: string
  ci_data_type :: string
  ci_nullable :: bool

record state_view =
  sv_materialized_in :: "string option \<Rightarrow> string + materialized_record list"
  sv_seeds_in :: "string option \<Rightarrow> string + seed_record list"
  sv_materialized_by_hashes :: "string list \<Rightarrow> string + (string \<times> materialized_record list) list"
  sv_watermark :: "string \<Rightarrow> string option \<Rightarrow> string + string option"

record evidence_source =
  es_adapter :: string
  es_relations_exist :: "relation list \<Rightarrow> adapter_error + bool list"
  es_output_identity :: "relation \<Rightarrow> adapter_error + string option"
  es_relation_columns_many :: "relation list \<Rightarrow> (adapter_error + column_info list) list"
  es_state :: "state_view option"
  es_parse_time :: "string \<Rightarrow> int option"

section \<open>Which models and seeds\<close>

definition plan_order :: "compilation \<Rightarrow> model_id list \<Rightarrow> model_id list" where
  "plan_order c planned =
     filter (\<lambda>i. case compilation_model c i of
                  Some m \<Rightarrow> cfg_materialization (cm_config m) \<noteq> Ephemeral
                | None \<Rightarrow> False)
       (filter (\<lambda>i. i \<in> set planned)
         (case topological_order (cp_graph c) of Some order \<Rightarrow> order | None \<Rightarrow> planned))"

definition default_schema :: "compilation \<Rightarrow> string \<Rightarrow> string option" where
  "default_schema c adapter =
     (case wd_schema (cp_defaults c) of Some s \<Rightarrow> Some s | None \<Rightarrow> adapter_default_schema adapter)"

definition covered_test :: "model_id list \<Rightarrow> compiled_test \<Rightarrow> bool" where
  "covered_test planned t \<longleftrightarrow> list_all (\<lambda>i. i \<in> set planned) (ct_targets t)"

definition seed_sources :: "compilation \<Rightarrow> model_id list \<Rightarrow> source_id list" where
  "seed_sources c planned =
     concat (map (\<lambda>i. case compilation_model c i of Some m \<Rightarrow> source_dependencies m | None \<Rightarrow> []) planned) @
     concat (map ct_sources (filter (covered_test planned) (cp_tests c)))"

definition needed_seeds :: "compilation \<Rightarrow> string \<Rightarrow> model_id list \<Rightarrow> (string \<times> compiled_seed) list" where
  "needed_seeds c adapter planned =
     (let catalog = wd_catalog (cp_defaults c); schema = default_schema c adapter
      in fold (\<lambda>s m. case seed_for_relation (cp_seeds c) (relation_for_source s catalog schema)
                              catalog schema adapter of
                        Some seed \<Rightarrow> bm_insert (cs_name seed) seed m
                      | None \<Rightarrow> m) (seed_sources c planned) [])"

section \<open>Existence\<close>

text \<open>The excluded, materialised dependencies the planned models read.\<close>

definition excluded_reads ::
    "compilation \<Rightarrow> model_id list \<Rightarrow> model_id list \<Rightarrow> (model_id \<times> model_id \<times> compiled_model) list" where
  "excluded_reads c excluded planned =
     concat (map (\<lambda>i. case compilation_model c i of
        None \<Rightarrow> []
      | Some m \<Rightarrow> List.map_filter (\<lambda>d.
          if d \<notin> set excluded then None
          else case compilation_model c d of
                 None \<Rightarrow> None
               | Some e \<Rightarrow>
                   if cfg_materialization (cm_config e) = Ephemeral then None else Some (i, d, e))
          (model_dependencies m)) planned)"

definition probe_relations ::
    "compilation \<Rightarrow> string \<Rightarrow> bool \<Rightarrow> (model_id \<times> model_id \<times> compiled_model) list
       \<Rightarrow> (string \<times> compiled_seed) list \<Rightarrow> model_id list \<Rightarrow> relation list" where
  "probe_relations c adapter blocked reads seeds order =
     (if blocked then []
      else map (\<lambda>(i, d, e). cm_target e) reads @
           map (\<lambda>(n, s). seed_relation s (wd_catalog (cp_defaults c)) (default_schema c adapter) adapter) seeds @
           List.map_filter (\<lambda>i. map_option cm_target (compilation_model c i)) order)"

fun unique_relations :: "string list \<Rightarrow> relation list \<Rightarrow> relation list" where
  "unique_relations seen [] = []"
| "unique_relations seen (r # rs) =
     (if relation_display r \<in> set seen then unique_relations seen rs
      else r # unique_relations (relation_display r # seen) rs)"

definition exists_map ::
    "evidence_source \<Rightarrow> relation list \<Rightarrow> engine_error + (string \<times> bool) list" where
  "exists_map es relations =
     (let unique = unique_relations [] relations
      in case es_relations_exist es unique of
           Inl e \<Rightarrow> Inl (EAdapter e)
         | Inr found \<Rightarrow> Inr (map (\<lambda>(f, r). (relation_display r, f)) (zip found unique)))"

definition found_in :: "(string \<times> bool) list \<Rightarrow> relation \<Rightarrow> bool" where
  "found_in existing r = (map_of existing (relation_display r) = Some True)"

fun check_exclusions ::
    "bool \<Rightarrow> (string \<times> bool) list \<Rightarrow> (model_id \<times> model_id \<times> compiled_model) list
       \<Rightarrow> engine_error + string list" where
  "check_exclusions blocked existing [] = Inr []"
| "check_exclusions blocked existing ((i, d, e) # reads) =
     (if \<not> blocked \<and> \<not> found_in existing (cm_target e) then
        Inl (EInvalidPlan (logical_name i @ '' depends on excluded model '' @ logical_name d @ '', and '' @
               relation_display (cm_target e) @ '' has never been materialised''))
      else case check_exclusions blocked existing reads of
             Inl err \<Rightarrow> Inl err
           | Inr warnings \<Rightarrow>
               Inr ((logical_name i @ '' depends on excluded model '' @ logical_name d @
                     ''; it will read the existing materialisation'') # warnings))"

section \<open>Recorded and live evidence\<close>

definition state_error :: "string + 'a \<Rightarrow> engine_error + 'a" where
  "state_error r = map_sum EState (\<lambda>x. x) r"

definition ordered_models :: "compilation \<Rightarrow> model_id list \<Rightarrow> compiled_model list" where
  "ordered_models c order = List.map_filter (compilation_model c) order"

definition wanted_hashes ::
    "compilation \<Rightarrow> (string \<times> bool) list \<Rightarrow> (string \<times> materialized_record) list \<Rightarrow> model_id list
       \<Rightarrow> string list" where
  "wanted_hashes c existing materialized order =
     btree_set (map (\<lambda>m. mv_hash (cm_version m))
       (filter (\<lambda>m. map_of materialized (logical_name (cm_id m)) = None \<and> found_in existing (cm_target m))
         (ordered_models c order)))"

definition wants_identity ::
    "string \<Rightarrow> string option \<Rightarrow> (string \<times> bool) list \<Rightarrow> (string \<times> materialized_record) list
       \<Rightarrow> (string \<times> materialized_record list) list \<Rightarrow> compiled_model \<Rightarrow> bool" where
  "wants_identity adapter environment existing materialized by_hash m \<longleftrightarrow>
     (case map_of materialized (logical_name (cm_id m)) of
        Some r \<Rightarrow> mr_output_identity r \<noteq> None
      | None \<Rightarrow>
          found_in existing (cm_target m) \<and>
          (case map_of by_hash (mv_hash (cm_version m)) of
             None \<Rightarrow> False
           | Some rs \<Rightarrow> list_ex (\<lambda>r. mr_environment r \<noteq> environment \<and> mr_adapter r = Some adapter \<and>
                 mr_output_identity r \<noteq> None \<and> same_content_slot (mr_target r) (cm_target m)) rs))"

definition live_outputs ::
    "evidence_source \<Rightarrow> string option \<Rightarrow> (string \<times> bool) list \<Rightarrow> (string \<times> materialized_record) list
       \<Rightarrow> (string \<times> materialized_record list) list \<Rightarrow> compiled_model list \<Rightarrow> (string \<times> string option) list" where
  "live_outputs es environment existing materialized by_hash models =
     map (\<lambda>m. (relation_display (cm_target m),
               case es_output_identity es (cm_target m) of Inr o1 \<Rightarrow> o1 | Inl _ \<Rightarrow> None))
       (filter (wants_identity (es_adapter es) environment existing materialized by_hash) models)"

record gathered =
  ga_existing :: "(string \<times> bool) list"
  ga_warnings :: "string list"
  ga_materialized :: "(string \<times> materialized_record) list"
  ga_seeds :: "(string \<times> seed_record) list"
  ga_by_hash :: "(string \<times> materialized_record list) list"
  ga_live :: "(string \<times> string option) list"

definition gather_state ::
    "compilation \<Rightarrow> evidence_source \<Rightarrow> bool \<Rightarrow> string option \<Rightarrow> (string \<times> bool) list \<Rightarrow> string list
       \<Rightarrow> model_id list \<Rightarrow> engine_error + gathered" where
  "gather_state c es blocked environment existing warnings order =
     (let nothing = \<lparr>ga_existing = existing, ga_warnings = warnings, ga_materialized = [], ga_seeds = [],
                     ga_by_hash = [], ga_live = []\<rparr>
      in if blocked then Inr nothing
         else case es_state es of
           None \<Rightarrow> Inr (nothing\<lparr>ga_live := live_outputs es environment existing [] [] (ordered_models c order)\<rparr>)
         | Some sv \<Rightarrow>
             (case state_error (materialized_scope (es_parse_time es) (sv_materialized_in sv) environment) of
                Inl e \<Rightarrow> Inl e
              | Inr materialized \<Rightarrow>
                  (case state_error (seeds_scope (es_parse_time es) (sv_seeds_in sv) environment) of
                     Inl e \<Rightarrow> Inl e
                   | Inr seeds \<Rightarrow>
                       (case state_error (sv_materialized_by_hashes sv
                               (wanted_hashes c existing materialized order)) of
                          Inl e \<Rightarrow> Inl e
                        | Inr by_hash \<Rightarrow>
                            Inr \<lparr>ga_existing = existing, ga_warnings = warnings,
                                 ga_materialized = materialized, ga_seeds = seeds, ga_by_hash = by_hash,
                                 ga_live = live_outputs es environment existing materialized by_hash
                                             (ordered_models c order)\<rparr>))))"

definition gather ::
    "compilation \<Rightarrow> evidence_source \<Rightarrow> bool \<Rightarrow> string option \<Rightarrow> model_id list \<Rightarrow> model_id list
       \<Rightarrow> model_id list \<Rightarrow> (string \<times> compiled_seed) list \<Rightarrow> engine_error + gathered" where
  "gather c es blocked environment excluded planned order seeds =
     (let reads = excluded_reads c excluded planned
      in case exists_map es (probe_relations c (es_adapter es) blocked reads seeds order) of
           Inl e \<Rightarrow> Inl e
         | Inr existing \<Rightarrow>
             (case check_exclusions blocked existing reads of
                Inl e \<Rightarrow> Inl e
              | Inr warnings \<Rightarrow> gather_state c es blocked environment existing warnings order))"

definition plan_seed ::
    "compilation \<Rightarrow> evidence_source \<Rightarrow> bool \<Rightarrow> bool \<Rightarrow> gathered \<Rightarrow> compiled_seed \<Rightarrow> planned_seed" where
  "plan_seed c es blocked force g seed =
     (let r = seed_relation seed (wd_catalog (cp_defaults c)) (default_schema c (es_adapter es)) (es_adapter es);
          decided = (if blocked then (Unknown, [])
                     else decide_seed (es_state es \<noteq> None) seed (relation_display r)
                            (found_in (ga_existing g) r) (map_of (ga_seeds g) (cs_name seed)) force)
      in \<lparr>ps_name = cs_name seed, ps_target = relation_display r, ps_path = cs_path seed,
          ps_action = fst decided, ps_desired_version = cs_content_hash seed, ps_reasons = snd decided\<rparr>)"

section \<open>Planning one model\<close>

definition member_of :: "selection \<Rightarrow> model_id \<Rightarrow> selected_model option" where
  "member_of sel i = map_of (rev (map (\<lambda>m. (sel_id m, m)) (sel_members sel))) (logical_name i)"

definition membership_of :: "selection \<Rightarrow> model_id \<Rightarrow> membership" where
  "membership_of sel i =
     (case member_of sel i of
        Some m \<Rightarrow> if is_direct m then Selected else Expanded
      | None \<Rightarrow> DependencyMember)"

definition membership_reasons :: "selection \<Rightarrow> claims \<Rightarrow> model_id \<Rightarrow> plan_reason list" where
  "membership_reasons sel requiring i =
     (case membership_of sel i of
        Selected \<Rightarrow>
          (case map_of (sel_causes sel) (logical_name i) of
             None \<Rightarrow> []
           | Some causes \<Rightarrow>
               map (\<lambda>c. reason_about GitChange (''selected because '' @ sca_detail c) (sca_path c)) causes)
      | Expanded \<Rightarrow>
          (case member_of sel i of
             None \<Rightarrow> []
           | Some m \<Rightarrow>
               map (\<lambda>t. reason_about SelectionExpansion (''selected by `'' @ t @ ''`'') t) (sel_expanded m))
      | DependencyMember \<Rightarrow>
          (case map_of requiring i of
             Some by \<Rightarrow> [reason_about SelectedDependency (''required by selected model '' @ by) by]
           | None \<Rightarrow> [reason_simple SelectedDependency ''required by the selection'']))"

definition upstream_reasons :: "model_id list \<Rightarrow> compiled_model \<Rightarrow> plan_reason list" where
  "upstream_reasons will_build m =
     map (\<lambda>d. reason_about UpstreamRebuild
            (''upstream '' @ logical_name d @ '' will rebuild in this plan'') (logical_name d))
       (filter (\<lambda>d. d \<in> set will_build) (model_dependencies m))"

definition desired_incremental_key :: "model_config \<Rightarrow> string option" where
  "desired_incremental_key cfg =
     (case map_option (\<lambda>s. join '','' (strategy_columns s)) (cfg_incremental cfg) of
        Some key \<Rightarrow> if key = [] then None else Some key
      | None \<Rightarrow> None)"

definition incremental_detail :: "string option \<Rightarrow> string option \<Rightarrow> string" where
  "incremental_detail was now =
     (case (was, now) of
        (Some w, Some n) \<Rightarrow>
          if w \<noteq> n then ''incremental strategy changed ('' @ w @ '' '' @ arrow @ '' '' @ n @ ''); full rebuild''
          else ''incremental strategy or key changed; full rebuild''
      | _ \<Rightarrow> ''incremental strategy or key changed; full rebuild'')"

definition incremental_rebuild ::
    "compiled_model \<Rightarrow> plan_action \<Rightarrow> materialized_record option \<Rightarrow> bool \<times> plan_reason list" where
  "incremental_rebuild m action current =
     (if action = Build \<and> cfg_materialization (cm_config m) = Incremental then
        (case current of
           None \<Rightarrow> (True, [])
         | Some r \<Rightarrow>
             let strategy = map_option strategy_str (cfg_incremental (cm_config m));
                 key = desired_incremental_key (cm_config m)
             in if mr_incremental_strategy r \<noteq> strategy \<or> mr_incremental_key r \<noteq> key
                then (True, [reason_simple IncrementalChange
                               (incremental_detail (mr_incremental_strategy r) strategy)])
                else (False, []))
      else (False, []))"

definition plan_watermark ::
    "evidence_source \<Rightarrow> string option \<Rightarrow> compiled_model \<Rightarrow> engine_error + string option" where
  "plan_watermark es environment m =
     (case (cfg_incremental (cm_config m), es_state es) of
        (Some (TimeWindow _ _), Some sv) \<Rightarrow>
          state_error (sv_watermark sv (logical_name (cm_id m)) environment)
      | _ \<Rightarrow> Inr None)"

definition model_evidence_of :: "gathered \<Rightarrow> compiled_model \<Rightarrow> model_evidence" where
  "model_evidence_of g m =
     \<lparr>ev_exists = found_in (ga_existing g) (cm_target m),
      ev_current = map_of (ga_materialized g) (logical_name (cm_id m)),
      ev_elsewhere = (case map_of (ga_by_hash g) (mv_hash (cm_version m)) of Some rs \<Rightarrow> rs | None \<Rightarrow> []),
      ev_live_output =
        (case map_of (rev (ga_live g)) (relation_display (cm_target m)) of Some o1 \<Rightarrow> o1 | None \<Rightarrow> None)\<rparr>"

record plan_request =
  rq_selection :: selection
  rq_requiring :: claims
  rq_environment :: "string option"
  rq_blocked :: bool
  rq_force :: bool

definition no_evidence :: model_evidence where
  "no_evidence = \<lparr>ev_exists = False, ev_current = None, ev_elsewhere = [], ev_live_output = None\<rparr>"

text \<open>The planned form of one model; the models that will build so far are \<open>will_build\<close>.\<close>

definition plan_model ::
    "(string \<Rightarrow> string) \<Rightarrow> evidence_source \<Rightarrow> gathered \<Rightarrow> plan_request \<Rightarrow> model_id list
       \<Rightarrow> compiled_model \<Rightarrow> (engine_error + planned_model) option" where
  "plan_model sha es g rq will_build m =
     (let i = cm_id m;
          ev = (if rq_blocked rq then no_evidence else model_evidence_of g m);
          decided = (if rq_blocked rq
                     then Some \<lparr>dec_action = Unknown, dec_reasons = [], dec_reuse = None\<rparr>
                     else decide (es_state es \<noteq> None) (es_adapter es) m ev (rq_environment rq) (rq_force rq))
      in case decided of
           None \<Rightarrow> None
         | Some d \<Rightarrow>
             (let builds = (if dec_action d = Build then will_build @ [i] else will_build);
                  upstream = (if dec_action d = Build then upstream_reasons builds m else []);
                  rebuild = incremental_rebuild m (dec_action d) (ev_current ev)
              in case plan_watermark es (rq_environment rq) m of
                   Inl e \<Rightarrow> Some (Inl e)
                 | Inr watermark \<Rightarrow> Some (Inr
                     \<lparr>pm_id = logical_name i, pm_target = relation_display (cm_target m),
                      pm_materialization = materialization_str (cfg_materialization (cm_config m)),
                      pm_action = dec_action d,
                      pm_reasons = membership_reasons (rq_selection rq) (rq_requiring rq) i @
                                   dec_reasons d @ upstream @ snd rebuild,
                      pm_reuse = dec_reuse d,
                      pm_membership = membership_of (rq_selection rq) i,
                      pm_exists = ev_exists ev,
                      pm_incremental = map_option strategy_str (cfg_incremental (cm_config m)),
                      pm_full_rebuild = fst rebuild, pm_watermark = watermark,
                      pm_desired_version = mv_hash (cm_version m),
                      pm_current_version = map_option (\<lambda>r. mv_hash (mr_version r)) (ev_current ev),
                      pm_dependencies = map logical_name (model_dependencies m),
                      pm_sources = map source_name (source_dependencies m),
                      pm_sql_hash = sha (cm_compiled_sql m),
                      pm_compiled_sql = cm_compiled_sql m\<rparr>)))"

fun plan_models ::
    "(string \<Rightarrow> string) \<Rightarrow> evidence_source \<Rightarrow> gathered \<Rightarrow> plan_request \<Rightarrow> model_id list
       \<Rightarrow> compiled_model list \<Rightarrow> (engine_error + planned_model list) option" where
  "plan_models sha es g rq will_build [] = Some (Inr [])"
| "plan_models sha es g rq will_build (m # ms) =
     (case plan_model sha es g rq will_build m of
        None \<Rightarrow> None
      | Some (Inl e) \<Rightarrow> Some (Inl e)
      | Some (Inr p) \<Rightarrow>
          (case plan_models sha es g rq
                  (if pm_action p = Build then will_build @ [cm_id m] else will_build) ms of
             None \<Rightarrow> None
           | Some (Inl e) \<Rightarrow> Some (Inl e)
           | Some (Inr ps) \<Rightarrow> Some (Inr (p # ps))))"

section \<open>Schema checks\<close>

definition needs_schema_check :: "compiled_model \<Rightarrow> planned_model \<Rightarrow> bool" where
  "needs_schema_check m p \<longleftrightarrow> pm_action p = Build \<and> pm_exists p \<and> ms_known (cm_schema m)"

definition check_schema :: "compiled_model \<Rightarrow> column_info list \<Rightarrow> planned_model \<Rightarrow> planned_model" where
  "check_schema m columns p =
     (let current = map (\<lambda>c. \<lparr>sc_name = ci_name c, sc_type = parse_trino (ci_data_type c),
                              sc_nullability = NullUnknown\<rparr>) columns;
          desired = map (\<lambda>c. \<lparr>sc_name = oc_name c, sc_type = oc_type c, sc_nullability = oc_nullability c\<rparr>)
                      (ms_columns (cm_schema m));
          safety = classify_schema_change desired current
      in if safety = SSafe then p
         else p\<lparr>pm_reasons := pm_reasons p @
                  [reason_simple SchemaChange (schema_change_detail desired current safety)],
                pm_full_rebuild := (if safety = SFullRebuild \<or> safety = SError then True
                                    else pm_full_rebuild p)\<rparr>)"

text \<open>
  One batched column read answers the checks in order; a relation whose columns cannot be read, or that
  the answer does not reach, leaves its model alone.
\<close>

fun apply_schema_checks ::
    "(compiled_model \<times> planned_model) list \<Rightarrow> (adapter_error + column_info list) list
       \<Rightarrow> planned_model list" where
  "apply_schema_checks [] found = []"
| "apply_schema_checks ((m, p) # rest) found =
     (if needs_schema_check m p then
        (case found of
           [] \<Rightarrow> p # apply_schema_checks rest []
         | Inl _ # found \<Rightarrow> p # apply_schema_checks rest found
         | Inr columns # found \<Rightarrow> check_schema m columns p # apply_schema_checks rest found)
      else p # apply_schema_checks rest found)"

definition schema_checked ::
    "evidence_source \<Rightarrow> compiled_model list \<Rightarrow> planned_model list \<Rightarrow> planned_model list" where
  "schema_checked es models planned =
     (let pairs = zip models planned;
          checks = filter (\<lambda>(m, p). needs_schema_check m p) pairs
      in if checks = [] then planned
         else apply_schema_checks pairs
                (es_relation_columns_many es (map (\<lambda>(m, p). cm_target m) checks)))"


section \<open>The plan\<close>

definition plan_tests :: "compilation \<Rightarrow> model_id list \<Rightarrow> planned_test list" where
  "plan_tests c planned =
     map (\<lambda>t. \<lparr>pt_id = tid_name (ct_id t), pt_generated = ct_generated t,
               pt_targets = map logical_name (ct_targets t), pt_sources = map source_name (ct_sources t)\<rparr>)
       (filter (covered_test planned) (cp_tests c))"

definition plan_selection_of :: "selection \<Rightarrow> model_id list \<Rightarrow> plan_selection" where
  "plan_selection_of sel order =
     \<lparr>psel_terms = sel_terms sel, psel_exclude = sel_exclude_terms sel,
      psel_matched = map logical_name
        (filter (\<lambda>i. case member_of sel i of Some m \<Rightarrow> is_direct m | None \<Rightarrow> False) order),
      psel_expanded = map logical_name
        (filter (\<lambda>i. case member_of sel i of Some m \<Rightarrow> \<not> is_direct m | None \<Rightarrow> False) order),
      psel_required = map logical_name (filter (\<lambda>i. i \<notin> set (selection_ids sel)) order)\<rparr>"

definition make_plan ::
    "(string \<Rightarrow> string) \<Rightarrow> string \<Rightarrow> string \<Rightarrow> evidence_source \<Rightarrow> compilation \<Rightarrow> selection
       \<Rightarrow> string option \<Rightarrow> bool \<Rightarrow> (engine_error + plan) option" where
  "make_plan sha plan_id now es c sel environment force =
     (let blocked = (\<not> is_ok c);
          excluded = excluded_ids sel;
          members = btree_set (selection_ids sel);
          planned = dependency_closure_excluding c members excluded;
          order = plan_order c planned;
          seeds = needed_seeds c (es_adapter es) planned
      in case gather c es blocked environment excluded planned order seeds of
           Inl e \<Rightarrow> Some (Inl e)
         | Inr g \<Rightarrow>
             (let models = ordered_models c order;
                  rq = \<lparr>rq_selection = sel, rq_requiring = requiring_models c members,
                        rq_environment = environment, rq_blocked = blocked, rq_force = force\<rparr>
              in case plan_models sha es g rq [] models of
                   None \<Rightarrow> None
                 | Some (Inl e) \<Rightarrow> Some (Inl e)
                 | Some (Inr ps) \<Rightarrow> Some (Inr
                     \<lparr>pl_id = plan_id, pl_created_at = now, pl_environment = environment,
                      pl_adapter = es_adapter es,
                      pl_compiler_semantics_version = dec COMPILER_SEMANTICS_VERSION,
                      pl_blocked = blocked,
                      pl_selection = plan_selection_of sel order,
                      pl_warnings = ga_warnings g,
                      pl_seeds = map (\<lambda>(n, s). plan_seed c es blocked force g s) seeds,
                      pl_models = schema_checked es models ps,
                      pl_tests = plan_tests c planned,
                      pl_diagnostics = cp_diagnostics c\<rparr>)))"

section \<open>Facts about the closure\<close>

interpretation kept: closure_walk "kept_upstream g excluded" "edge_models g" for g excluded
proof
  show "finite (edge_models g)" by (rule up.finite_nodes)
  show "set (kept_upstream g excluded a) \<subseteq> edge_models g" for a
    using up.neighbours_in [of g a] by (auto simp: kept_upstream_def)
qed

lemma closure_excluding_reaches:
  assumes "sorted selected" "distinct selected"
  shows "set (dependency_closure_excluding c selected excluded) =
      reached (kept_upstream (cp_graph c) excluded) (set selected)"
    "sorted (dependency_closure_excluding c selected excluded)"
    "distinct (dependency_closure_excluding c selected excluded)"
proof -
  obtain out where "walk (kept_upstream (cp_graph c) excluded) selected = Some out"
    "set out = reached (kept_upstream (cp_graph c) excluded) (set selected)" "sorted out" "distinct out"
    using kept.walk_reaches [OF assms, of "cp_graph c" excluded] by blast
  then show "set (dependency_closure_excluding c selected excluded) =
      reached (kept_upstream (cp_graph c) excluded) (set selected)"
    "sorted (dependency_closure_excluding c selected excluded)"
    "distinct (dependency_closure_excluding c selected excluded)"
    by (simp_all add: dependency_closure_excluding_def)
qed

definition claim_keys :: "claims \<Rightarrow> model_id set" where
  "claim_keys cl = fst ` set cl"

lemma claim_keys_None: "map_of cl d = None \<longleftrightarrow> d \<notin> claim_keys cl"
  by (simp add: claim_keys_def map_of_eq_None_iff)

lemma claim_keys_insert [simp]: "claim_keys (bm_insert d v cl) = insert d (claim_keys cl)"
  using bm_insert_keys [of d v cl] by (simp add: claim_keys_def)

lemma finite_claim_keys [simp]: "finite (claim_keys cl)"
  by (simp add: claim_keys_def)

lemma claim_deps_spec:
  assumes "claim_deps selected source ds (cl, fr) = (cl', fr')" "bm_ok cl"
  shows "bm_ok cl' \<and> claim_keys cl' = claim_keys cl \<union> (set ds - set selected) \<and>
    set fr' = set fr \<union> (\<lambda>d. (d, source)) ` (set ds - set selected - claim_keys cl) \<and>
    length fr' + card (claim_keys cl) = length fr + card (claim_keys cl') \<and>
    (\<forall>d v. map_of cl' d = Some v \<longrightarrow> map_of cl d = Some v \<or>
       d \<in> set ds \<and> v = logical_name source)"
  using assms
proof (induction ds arbitrary: cl fr)
  case Nil
  then show ?case by simp
next
  case (Cons d ds)
  show ?case
  proof (cases "d \<in> set selected \<or> map_of cl d \<noteq> None")
    case True
    then have "claim_deps selected source ds (cl, fr) = (cl', fr')" using Cons.prems by simp
    from Cons.IH [OF this Cons.prems(2)] True show ?thesis
      by (auto simp: claim_keys_None)
  next
    case False
    let ?cl = "bm_insert d (logical_name source) cl"
    have step: "claim_deps selected source ds (?cl, fr @ [(d, source)]) = (cl', fr')"
      using Cons.prems(1) False by simp
    have ok: "bm_ok ?cl" using Cons.prems(2) by (rule bm_insert_ok)
    have new: "d \<notin> claim_keys cl" "d \<notin> set selected" using False by (auto simp: claim_keys_None)
    have get: "map_of ?cl x = (if x = d then Some (logical_name source) else map_of cl x)" for x
      by (rule bm_insert_get [OF Cons.prems(2)])
    note IH = Cons.IH [OF step ok]
    have "set fr' = set fr \<union> (\<lambda>d. (d, source)) ` (set (d # ds) - set selected - claim_keys cl)"
      using IH new by auto
    moreover have "length fr' + card (claim_keys cl) = length fr + card (claim_keys cl')"
      using IH new by simp
    moreover have "\<forall>x v. map_of cl' x = Some v \<longrightarrow> map_of cl x = Some v \<or>
       x \<in> set (d # ds) \<and> v = logical_name source"
    proof (intro allI impI)
      fix x v assume "map_of cl' x = Some v"
      with IH have "map_of ?cl x = Some v \<or> x \<in> set ds \<and> v = logical_name source" by blast
      then show "map_of cl x = Some v \<or> x \<in> set (d # ds) \<and> v = logical_name source"
        by (auto simp: get split: if_splits)
    qed
    moreover have "claim_keys cl' = claim_keys cl \<union> (set (d # ds) - set selected)"
      using IH new by auto
    ultimately show ?thesis using IH by blast
  qed
qed

definition claims_inv ::
    "transform_graph \<Rightarrow> model_id list \<Rightarrow> claims \<times> (model_id \<times> model_id) list \<Rightarrow> bool" where
  "claims_inv g selected s \<longleftrightarrow>
     bm_ok (fst s) \<and> claim_keys (fst s) \<inter> set selected = {} \<and> claim_keys (fst s) \<subseteq> edge_models g \<and>
     (\<forall>(i, src) \<in> set (snd s). src \<in> set selected \<and> i \<in> reached (upstream_of g) {src}) \<and>
     (\<forall>d v. map_of (fst s) d = Some v \<longrightarrow>
        (\<exists>src \<in> set selected. v = logical_name src \<and> d \<in> reached (upstream_of g) {src})) \<and>
     (\<forall>a \<in> set selected \<union> claim_keys (fst s) - fst ` set (snd s).
        set (upstream_of g a) \<subseteq> set selected \<union> claim_keys (fst s))"

lemma claims_inv_step:
  assumes inv: "claims_inv g selected s" and ne: "snd s \<noteq> []"
  shows "claims_inv g selected (claim_step (upstream_of g) selected s)"
    "2 * card (edge_models g - claim_keys (fst (claim_step (upstream_of g) selected s))) +
       length (snd (claim_step (upstream_of g) selected s))
     < 2 * card (edge_models g - claim_keys (fst s)) + length (snd s)"
proof -
  obtain cl i src fr where s: "s = (cl, (i, src) # fr)"
  proof -
    obtain cl f where f: "s = (cl, f)" by (cases s)
    then obtain p fr where p: "f = p # fr" using ne by (cases f) auto
    obtain i src where "p = (i, src)" by (cases p)
    with f p that show ?thesis by blast
  qed
  obtain cl' fr' where d: "claim_deps selected src (upstream_of g i) (cl, fr) = (cl', fr')"
    by (cases "claim_deps selected src (upstream_of g i) (cl, fr)")
  have step: "claim_step (upstream_of g) selected s = (cl', fr')" using s d by simp
  have ok: "bm_ok cl" using inv s by (simp add: claims_inv_def)
  note spec = claim_deps_spec [OF d ok]
  have src: "src \<in> set selected" "i \<in> reached (upstream_of g) {src}"
    using inv s by (auto simp: claims_inv_def)
  have up: "x \<in> reached (upstream_of g) {src}" if "x \<in> set (upstream_of g i)" for x
    using up.reached_step [OF src(2) that] .
  have nodes: "claim_keys cl' \<subseteq> edge_models g"
    using spec inv s up.neighbours_in [of g i] by (auto simp: claims_inv_def)
  have closed: "set (upstream_of g a) \<subseteq> set selected \<union> claim_keys cl'"
    if "a \<in> set selected \<union> claim_keys cl'" "a \<notin> fst ` set fr'" for a
  proof (cases "a = i")
    case True
    then show ?thesis using spec by auto
  next
    case False
    have fsts: "fst ` set fr' = fst ` set fr \<union> (set (upstream_of g i) - set selected - claim_keys cl)"
      using spec by (simp add: image_Un image_image)
    have "a \<in> set selected \<union> claim_keys cl"
      using that spec unfolding fsts by blast
    moreover have "a \<notin> fst ` set fr" using that(2) unfolding fsts by blast
    ultimately have "set (upstream_of g a) \<subseteq> set selected \<union> claim_keys cl"
      using inv s False by (auto simp: claims_inv_def)
    then show ?thesis using spec by auto
  qed
  have named: "\<exists>src \<in> set selected. v = logical_name src \<and> x \<in> reached (upstream_of g) {src}"
    if "map_of cl' x = Some v" for x v
  proof -
    have "map_of cl x = Some v \<or> x \<in> set (upstream_of g i) \<and> v = logical_name src"
      using spec that by blast
    then show ?thesis using inv s src up by (auto simp: claims_inv_def)
  qed
  have fr: "\<forall>(j, src) \<in> set fr'. src \<in> set selected \<and> j \<in> reached (upstream_of g) {src}"
    using spec inv s src up by (auto simp: claims_inv_def)
  have disj: "claim_keys cl' \<inter> set selected = {}"
    using spec inv s by (auto simp: claims_inv_def)
  show "claims_inv g selected (claim_step (upstream_of g) selected s)"
    unfolding step claims_inv_def fst_conv snd_conv
  proof (intro conjI)
    show "bm_ok cl'" using spec by blast
  qed (use disj nodes closed named fr in blast)+
  have "card (edge_models g - claim_keys x) + card (claim_keys x) = card (edge_models g)"
    if "claim_keys x \<subseteq> edge_models g" for x
    using that up.finite_nodes [of g] card_mono [OF up.finite_nodes that]
    by (simp add: card_Diff_subset)
  from this [OF nodes] this [of cl]
  have "card (edge_models g - claim_keys cl') + card (claim_keys cl') =
      card (edge_models g - claim_keys cl) + card (claim_keys cl)"
    using inv s by (simp add: claims_inv_def)
  moreover have "card (claim_keys cl) \<le> card (claim_keys cl')"
    using spec by (intro card_mono) auto
  moreover have "length fr' + card (claim_keys cl) = length fr + card (claim_keys cl')"
    using spec by blast
  ultimately have "2 * card (edge_models g - claim_keys cl') + length fr'
      < 2 * card (edge_models g - claim_keys cl) + Suc (length fr)"
    by linarith
  then show "2 * card (edge_models g - claim_keys (fst (claim_step (upstream_of g) selected s))) +
       length (snd (claim_step (upstream_of g) selected s))
     < 2 * card (edge_models g - claim_keys (fst s)) + length (snd s)"
    using s step by simp
qed

lemma requiring_models_spec:
  assumes "i \<in> reached (upstream_of (cp_graph c)) (set selected)" "i \<notin> set selected"
  shows "\<exists>src \<in> set selected. map_of (requiring_models c selected) i = Some (logical_name src) \<and>
    i \<in> reached (upstream_of (cp_graph c)) {src}"
proof -
  let ?g = "cp_graph c"
  let ?start = "([] :: claims, map (\<lambda>i. (i, i)) selected)"
  have self: "a \<in> reached (upstream_of ?g) {a}" for a
    using up.reached_seed [of "{a}" ?g] by blast
  have start: "claims_inv ?g selected ?start"
    unfolding claims_inv_def by (auto simp: claim_keys_def self image_image)
  have "\<exists>s. while_option (\<lambda>s. snd s \<noteq> []) (claim_step (upstream_of ?g) selected) ?start = Some s"
    by (rule measure_while_option_Some [where P = "claims_inv ?g selected"
        and f = "\<lambda>s. 2 * card (edge_models ?g - claim_keys (fst s)) + length (snd s)"])
      (use claims_inv_step start in blast)+
  then obtain s where s: "while_option (\<lambda>s. snd s \<noteq> []) (claim_step (upstream_of ?g) selected) ?start = Some s"
    by blast
  have inv: "claims_inv ?g selected s"
    using s start
    by (rule while_option_rule [where P = "claims_inv ?g selected", rotated]) (rule claims_inv_step(1))
  have "snd s = []" using while_option_stop [OF s] by simp
  then have "reached (upstream_of ?g) (set selected) \<subseteq> set selected \<union> claim_keys (fst s)"
    using inv by (intro up.reached_closed) (auto simp: claims_inv_def)
  then have "map_of (fst s) i \<noteq> None" using assms by (auto simp: claim_keys_None)
  with inv s show ?thesis by (auto simp: claims_inv_def requiring_models_def)
qed

section \<open>Facts about plans\<close>

lemma make_plan_Inr:
  assumes "make_plan sha plan_id now es c sel environment force = Some (Inr p)"
  obtains g ps planned order where
    "planned = dependency_closure_excluding c (btree_set (selection_ids sel)) (excluded_ids sel)"
    "order = plan_order c planned"
    "gather c es (\<not> is_ok c) environment (excluded_ids sel) planned order
       (needed_seeds c (es_adapter es) planned) = Inr g"
    "plan_models sha es g \<lparr>rq_selection = sel,
        rq_requiring = requiring_models c (btree_set (selection_ids sel)),
        rq_environment = environment, rq_blocked = \<not> is_ok c, rq_force = force\<rparr> []
       (ordered_models c order) = Some (Inr ps)"
    "pl_models p = schema_checked es (ordered_models c order) ps"
    "pl_seeds p = map (\<lambda>(n, s). plan_seed c es (\<not> is_ok c) force g s)
       (needed_seeds c (es_adapter es) planned)"
    "pl_warnings p = ga_warnings g" "pl_blocked p = (\<not> is_ok c)"
  using assms by (auto simp: make_plan_def Let_def split: sum.splits option.splits)

lemma plan_models_spec:
  assumes "plan_models sha es g rq wb ms = Some (Inr ps)"
  shows "length ps = length ms \<and>
    (\<forall>k < length ms. \<exists>b. plan_model sha es g rq b (ms ! k) = Some (Inr (ps ! k)) \<and>
       set b = set wb \<union> {cm_id (ms ! j) | j. j < k \<and> pm_action (ps ! j) = Build})"
  using assms
proof (induction ms arbitrary: wb ps)
  case Nil
  then show ?case by simp
next
  case (Cons m ms)
  obtain p qs where p: "plan_model sha es g rq wb m = Some (Inr p)" and ps: "ps = p # qs"
    and qs: "plan_models sha es g rq (if pm_action p = Build then wb @ [cm_id m] else wb) ms = Some (Inr qs)"
    using Cons.prems by (auto split: option.splits sum.splits)
  let ?w = "if pm_action p = Build then wb @ [cm_id m] else wb"
  note IH = Cons.IH [OF qs]
  have "\<exists>b. plan_model sha es g rq b ((m # ms) ! k) = Some (Inr (ps ! k)) \<and>
       set b = set wb \<union> {cm_id ((m # ms) ! j) | j. j < k \<and> pm_action (ps ! j) = Build}"
    if k: "k < length (m # ms)" for k
  proof (cases k)
    case 0
    then show ?thesis using p ps by auto
  next
    case (Suc n)
    with k IH obtain b where b: "plan_model sha es g rq b (ms ! n) = Some (Inr (qs ! n))"
      "set b = set ?w \<union> {cm_id (ms ! j) | j. j < n \<and> pm_action (qs ! j) = Build}"
      by auto
    have "{cm_id ((m # ms) ! j) | j. j < Suc n \<and> pm_action (ps ! j) = Build} =
        (if pm_action p = Build then {cm_id m} else {}) \<union>
        {cm_id (ms ! j) | j. j < n \<and> pm_action (qs ! j) = Build}" (is "?L = ?R")
    proof
      show "?L \<subseteq> ?R"
      proof
        fix x assume "x \<in> ?L"
        then obtain j where "x = cm_id ((m # ms) ! j)" "j < Suc n" "pm_action (ps ! j) = Build" by blast
        then show "x \<in> ?R" using ps by (cases j) auto
      qed
      have "cm_id (ms ! j) \<in> ?L" if "j < n" "pm_action (qs ! j) = Build" for j
        using that ps by (intro CollectI exI [of _ "Suc j"]) simp
      moreover have "cm_id m \<in> ?L" if "pm_action p = Build"
        using that ps by (intro CollectI exI [of _ 0]) simp
      ultimately show "?R \<subseteq> ?L" by auto
    qed
    then show ?thesis using b Suc ps by (intro exI [of _ b]) auto
  qed
  then show ?case using IH ps by simp
qed

lemma plan_model_Inr:
  assumes "plan_model sha es g rq b m = Some (Inr p)"
  obtains d rs where
    "pm_id p = logical_name (cm_id m)" "pm_action p = dec_action d"
    "pm_membership p = membership_of (rq_selection rq) (cm_id m)"
    "pm_reasons p = membership_reasons (rq_selection rq) (rq_requiring rq) (cm_id m) @ dec_reasons d @
       (if dec_action d = Build then upstream_reasons (b @ [cm_id m]) m else []) @ rs"
    "if rq_blocked rq then dec_action d = Unknown
     else decide (es_state es \<noteq> None) (es_adapter es) m (model_evidence_of g m) (rq_environment rq)
            (rq_force rq) = Some d"
proof -
  let ?ev = "if rq_blocked rq then no_evidence else model_evidence_of g m"
  let ?decided = "if rq_blocked rq then Some \<lparr>dec_action = Unknown, dec_reasons = [], dec_reuse = None\<rparr>
    else decide (es_state es \<noteq> None) (es_adapter es) m ?ev (rq_environment rq) (rq_force rq)"
  obtain d where d: "?decided = Some d"
    using assms by (cases ?decided) (simp_all only: plan_model_def Let_def option.case, simp)
  obtain w where w: "plan_watermark es (rq_environment rq) m = Inr w"
    using assms by (cases "plan_watermark es (rq_environment rq) m")
      (simp_all only: plan_model_def Let_def d option.case sum.case, simp)
  show ?thesis
    by (rule that [of d "snd (incremental_rebuild m (dec_action d) (ev_current ?ev))"])
      (use assms d in \<open>auto simp: plan_model_def Let_def w split: if_splits\<close>)
qed

text \<open>Schema checks only add reasons and force full rebuilds.\<close>

definition extends_model :: "planned_model \<Rightarrow> planned_model \<Rightarrow> bool" where
  "extends_model p q \<longleftrightarrow>
     (\<exists>rs b. q = p\<lparr>pm_reasons := pm_reasons p @ rs, pm_full_rebuild := b\<rparr>)"

lemma extends_refl [simp]: "extends_model p p"
  unfolding extends_model_def by (intro exI [of _ "[]"] exI [of _ "pm_full_rebuild p"]) simp

lemma extends_check: "extends_model p (check_schema m columns p)"
proof -
  have "extends_model p (p\<lparr>pm_reasons := pm_reasons p @ rs, pm_full_rebuild := b\<rparr>)" for rs b
    unfolding extends_model_def by blast
  then show ?thesis by (simp add: check_schema_def Let_def del: if_split split: if_split)
qed

lemma extends_apply:
  "list_all2 (\<lambda>(m, p) q. extends_model p q) ps (apply_schema_checks ps found)"
  by (induction ps found rule: apply_schema_checks.induct) (auto simp: extends_check split: list.splits sum.splits)

lemma extends_checked:
  assumes "length ps = length ms"
  shows "length (schema_checked es ms ps) = length ms"
    "k < length ms \<Longrightarrow> extends_model (ps ! k) (schema_checked es ms ps ! k)"
proof -
  have "list_all2 extends_model ps (schema_checked es ms ps)"
  proof (cases "filter (\<lambda>(m, p). needs_schema_check m p) (zip ms ps) = []")
    case True
    then show ?thesis by (simp add: schema_checked_def list_all2_same)
  next
    case False
    have "list_all2 (\<lambda>(m, p) q. extends_model p q) (zip ms ps) (schema_checked es ms ps)"
      using False extends_apply by (simp add: schema_checked_def Let_def)
    then show ?thesis using assms by (auto simp: list_all2_conv_all_nth)
  qed
  then show "length (schema_checked es ms ps) = length ms"
    "k < length ms \<Longrightarrow> extends_model (ps ! k) (schema_checked es ms ps ! k)"
    using assms by (auto simp: list_all2_conv_all_nth)
qed

lemma extends_simps:
  assumes "extends_model p q"
  shows "pm_id q = pm_id p" "pm_action q = pm_action p" "pm_membership q = pm_membership p"
    "set (pm_reasons p) \<subseteq> set (pm_reasons q)"
  using assms by (auto simp: extends_model_def)

text \<open>The models of a plan, position by position.\<close>

lemma plan_model_at:
  assumes "make_plan sha plan_id now es c sel environment force = Some (Inr p)"
    and "order = plan_order c (dependency_closure_excluding c (btree_set (selection_ids sel)) (excluded_ids sel))"
    and "ms = ordered_models c order"
  shows "length (pl_models p) = length ms"
    "k < length ms \<Longrightarrow> \<exists>g b q. extends_model q (pl_models p ! k) \<and>
       plan_model sha es g \<lparr>rq_selection = sel,
          rq_requiring = requiring_models c (btree_set (selection_ids sel)),
          rq_environment = environment, rq_blocked = \<not> is_ok c, rq_force = force\<rparr> b (ms ! k) = Some (Inr q) \<and>
       set b = {cm_id (ms ! j) | j. j < k \<and> pm_action (pl_models p ! j) = Build}"
proof -
  from assms(1) obtain g ps where
    ps: "plan_models sha es g \<lparr>rq_selection = sel,
        rq_requiring = requiring_models c (btree_set (selection_ids sel)),
        rq_environment = environment, rq_blocked = \<not> is_ok c, rq_force = force\<rparr> [] ms = Some (Inr ps)"
    and p: "pl_models p = schema_checked es ms ps"
    by (rule make_plan_Inr) (use assms(2,3) in blast)
  note spec = plan_models_spec [OF ps]
  have len: "length ps = length ms" using spec by blast
  show "length (pl_models p) = length ms" using extends_checked(1) [OF len] p by simp
  assume k: "k < length ms"
  obtain b where b: "plan_model sha es g \<lparr>rq_selection = sel,
        rq_requiring = requiring_models c (btree_set (selection_ids sel)),
        rq_environment = environment, rq_blocked = \<not> is_ok c, rq_force = force\<rparr> b (ms ! k) = Some (Inr (ps ! k))"
    "set b = set [] \<union> {cm_id (ms ! j) | j. j < k \<and> pm_action (ps ! j) = Build}"
    using spec k by blast
  have same: "pm_action (pl_models p ! j) = pm_action (ps ! j)" if "j < k" for j
    using extends_simps(2) [OF extends_checked(2) [OF len, of j]] that k p by simp
  have "{cm_id (ms ! j) | j. j < k \<and> pm_action (ps ! j) = Build} =
      {cm_id (ms ! j) | j. j < k \<and> pm_action (pl_models p ! j) = Build}"
    using same by auto
  moreover have "extends_model (ps ! k) (pl_models p ! k)"
    using extends_checked(2) [OF len k] p by simp
  ultimately show "\<exists>g b q. extends_model q (pl_models p ! k) \<and>
       plan_model sha es g \<lparr>rq_selection = sel,
          rq_requiring = requiring_models c (btree_set (selection_ids sel)),
          rq_environment = environment, rq_blocked = \<not> is_ok c, rq_force = force\<rparr> b (ms ! k) = Some (Inr q) \<and>
       set b = {cm_id (ms ! j) | j. j < k \<and> pm_action (pl_models p ! j) = Build}"
    using b by (intro exI [of _ g] exI [of _ b] exI [of _ "ps ! k"]) simp
qed

lemma map_filter_ids:
  assumes "wf_compilation c" "\<And>i. i \<in> set order \<Longrightarrow> compilation_model c i \<noteq> None"
  shows "map cm_id (ordered_models c order) = order"
  using assms(2)
  by (induction order)
    (auto simp: ordered_models_def List.map_filter_simps compilation_model_Some [OF assms(1)] split: option.split)

lemma topological_after:
  assumes "wf_graph g" "topological_order g = Some order"
  shows "sorted_wrt (\<lambda>a b. b \<notin> model_deps g a) order" "distinct order"
proof -
  have lf: "least_first g order" using topological_order_Some [OF assms(1)] assms(2) by blast
  show d: "distinct order" by (rule least_first_distinct [OF lf])
  show "sorted_wrt (\<lambda>a b. b \<notin> model_deps g a) order"
    unfolding sorted_wrt_iff_nth_less
  proof (intro allI impI notI)
    fix i j assume ij: "i < j" "j < length order" "order ! j \<in> model_deps g (order ! i)"
    then obtain k where "k < i" "order ! k = order ! j"
      using least_first_deps [OF lf, of i] by auto
    with ij d show False by (simp add: nth_eq_iff_index_eq)
  qed
qed

lemma plan_order_facts:
  assumes "wf_compilation c" "acyclic (dep_rel (cp_graph c))"
  shows "sorted_wrt (\<lambda>a b. b \<notin> model_deps (cp_graph c) a) (plan_order c planned)"
    "distinct (plan_order c planned)"
    "set (plan_order c planned) =
       {i \<in> set planned. \<exists>m \<in> set (cp_models c). cm_id m = i \<and> cfg_materialization (cm_config m) \<noteq> Ephemeral}"
    "map cm_id (ordered_models c (plan_order c planned)) = plan_order c planned"
proof -
  note g = compilation_graph [OF assms(1)]
  obtain o1 where o1: "topological_order (cp_graph c) = Some o1"
    using topological_order_None [OF g(1)] assms(2) by fastforce
  note t = topological_after [OF g(1) o1]
  have ids: "set o1 = cm_id ` set (cp_models c)"
    using topological_order_Some [OF g(1)] o1 g(2) by blast
  show "sorted_wrt (\<lambda>a b. b \<notin> model_deps (cp_graph c) a) (plan_order c planned)"
    "distinct (plan_order c planned)"
    using t by (simp_all add: plan_order_def o1 sorted_wrt_filter)
  show s: "set (plan_order c planned) =
       {i \<in> set planned. \<exists>m \<in> set (cp_models c). cm_id m = i \<and> cfg_materialization (cm_config m) \<noteq> Ephemeral}"
    using ids by (auto simp: plan_order_def o1 compilation_model_Some [OF assms(1)] split: option.splits)
      (metis assms(1) compilation_model_Some option.distinct(1) option.inject)
  show "map cm_id (ordered_models c (plan_order c planned)) = plan_order c planned"
  proof (rule map_filter_ids [OF assms(1)])
    fix i assume "i \<in> set (plan_order c planned)"
    then show "compilation_model c i \<noteq> None"
      unfolding s using compilation_model_None [OF assms(1)] by blast
  qed
qed

lemma declared_dependencies:
  assumes "wf_compilation c" "m \<in> set (cp_models c)"
  shows "set (model_dependencies m) \<subseteq> cm_id ` set (cp_models c)"
  using assms graph_build_total [of "cp_models c"] by (force simp: wf_compilation_def)

lemma plan_id_at:
  assumes "make_plan sha plan_id now es c sel environment force = Some (Inr p)"
    and "ms = ordered_models c (plan_order c
      (dependency_closure_excluding c (btree_set (selection_ids sel)) (excluded_ids sel)))"
    and "k < length ms"
  shows "pm_id (pl_models p ! k) = logical_name (cm_id (ms ! k))"
proof -
  obtain g b q where q: "extends_model q (pl_models p ! k)"
    "plan_model sha es g \<lparr>rq_selection = sel,
        rq_requiring = requiring_models c (btree_set (selection_ids sel)),
        rq_environment = environment, rq_blocked = \<not> is_ok c, rq_force = force\<rparr> b (ms ! k) = Some (Inr q)"
    using plan_model_at(2) [OF assms(1) refl assms(2,3)] by blast
  have "pm_id q = logical_name (cm_id (ms ! k))" by (rule plan_model_Inr [OF q(2)]) assumption
  then show ?thesis using extends_simps(1) [OF q(1)] by simp
qed

lemma reached_kept: "reached (kept_upstream g excluded) S \<subseteq> reached (upstream_of g) S"
  unfolding reached_def
  by (intro Image_mono rtrancl_mono subset_refl) (auto simp: walk_rel_def kept_upstream_def)

lemma dependency_member_iff:
  "membership_of sel i = DependencyMember \<longleftrightarrow> logical_name i \<notin> sel_id ` set (sel_members sel)"
proof -
  have "membership_of sel i = DependencyMember \<longleftrightarrow> member_of sel i = None"
    by (simp add: membership_of_def split: option.split)
  then show ?thesis by (simp add: member_of_def map_of_eq_None_iff image_image)
qed

section \<open>Properties\<close>

lemma plan_ids_order:
  assumes "wf_compilation c" "acyclic (dep_rel (cp_graph c))"
    and "make_plan sha plan_id now es c sel environment force = Some (Inr p)"
  shows "\<exists>order. map pm_id (pl_models p) = map logical_name order \<and> distinct order \<and>
    sorted_wrt (\<lambda>a b. b \<notin> model_deps (cp_graph c) a) order \<and>
    set order = {i \<in> reached (kept_upstream (cp_graph c) (excluded_ids sel)) (set (selection_ids sel)).
      \<exists>m \<in> set (cp_models c). cm_id m = i \<and> cfg_materialization (cm_config m) \<noteq> Ephemeral}"
proof -
  let ?planned = "dependency_closure_excluding c (btree_set (selection_ids sel)) (excluded_ids sel)"
  let ?order = "plan_order c ?planned"
  let ?ms = "ordered_models c ?order"
  note o1 = plan_order_facts [OF assms(1,2), of ?planned]
  note at = plan_model_at [OF assms(3) refl refl]
  have "pm_id (pl_models p ! k) = logical_name (?order ! k)" if k: "k < length ?ms" for k
  proof -
    have "pm_id (pl_models p ! k) = logical_name (cm_id (?ms ! k))"
      by (rule plan_id_at [OF assms(3) refl k])
    moreover have "cm_id (?ms ! k) = ?order ! k"
      using o1(4) k by (metis nth_map)
    ultimately show ?thesis by simp
  qed
  moreover have "length ?ms = length ?order" using o1(4) by (metis length_map)
  ultimately have "map pm_id (pl_models p) = map logical_name ?order"
    using at(1) by (intro nth_equalityI) simp_all
  moreover have "set ?planned = reached (kept_upstream (cp_graph c) (excluded_ids sel)) (set (selection_ids sel))"
    using closure_excluding_reaches(1) [of "btree_set (selection_ids sel)" c "excluded_ids sel"] by simp
  ultimately show ?thesis using o1(1,2,3) by (intro exI [of _ ?order]) simp
qed

text \<open>
  Property C20. A plan lists exactly the materialised models of the dependency closure: the selected models
  and everything they need through dependencies that are not excluded, without the ephemeral ones, each
  once, and no model before one it depends on.
\<close>

theorem plan_closed_and_ordered:
  assumes "wf_compilation c" "acyclic (dep_rel (cp_graph c))"
    and "make_plan sha plan_id now es c sel environment force = Some (Inr p)"
  shows "\<exists>order. map pm_id (pl_models p) = map logical_name order \<and> distinct order \<and>
    sorted_wrt (\<lambda>a b. b \<notin> model_deps (cp_graph c) a) order \<and>
    set order = {i \<in> reached (kept_upstream (cp_graph c) (excluded_ids sel)) (set (selection_ids sel)).
      \<exists>m \<in> set (cp_models c). cm_id m = i \<and> cfg_materialization (cm_config m) \<noteq> Ephemeral}"
  using assms by (rule plan_ids_order)

text \<open>
  A plan of a workspace that does not compile decides nothing: every model and seed action is
  \<open>unknown\<close>. A plan of a workspace that compiles never leaves an action \<open>unknown\<close>.
\<close>

theorem plan_unknown_iff_blocked:
  assumes "make_plan sha plan_id now es c sel environment force = Some (Inr p)"
  shows "pl_blocked p = (\<not> is_ok c) \<and> (\<forall>m \<in> set (pl_models p). (pm_action m = Unknown) = pl_blocked p) \<and>
    (\<forall>s \<in> set (pl_seeds p). (ps_action s = Unknown) = pl_blocked p)"
proof -
  let ?planned = "dependency_closure_excluding c (btree_set (selection_ids sel)) (excluded_ids sel)"
  let ?ms = "ordered_models c (plan_order c ?planned)"
  note at = plan_model_at [OF assms refl refl]
  from assms obtain g and seeds :: "(string \<times> compiled_seed) list" where b: "pl_blocked p = (\<not> is_ok c)"
    and s: "pl_seeds p = map (\<lambda>(n, s). plan_seed c es (\<not> is_ok c) force g s) seeds"
    by (rule make_plan_Inr) (rule that, assumption+)
  have decided: "dec_action d \<noteq> Unknown"
    if "decide hs ad m ev en f = Some d" for hs ad m ev en f d
    using that
  proof (cases rule: decide_cases)
    case unrecorded
    then show ?thesis using decide_unrecorded_cases [OF unrecorded(4)] by auto
  next
    case (recorded cur)
    then show ?thesis using decide_recorded_cases [OF recorded(5)] by auto
  qed simp
  have "(pm_action (pl_models p ! k) = Unknown) = (\<not> is_ok c)" if k: "k < length ?ms" for k
  proof -
    obtain g b q where q: "extends_model q (pl_models p ! k)"
      "plan_model sha es g \<lparr>rq_selection = sel,
          rq_requiring = requiring_models c (btree_set (selection_ids sel)),
          rq_environment = environment, rq_blocked = \<not> is_ok c, rq_force = force\<rparr> b (?ms ! k) = Some (Inr q)"
      using at(2) [OF k] by blast
    from q(2) have "(pm_action q = Unknown) = (\<not> is_ok c)"
      by (rule plan_model_Inr) (use decided in \<open>auto split: if_splits\<close>)
    then show ?thesis using extends_simps(2) [OF q(1)] by simp
  qed
  then have "\<forall>m \<in> set (pl_models p). (pm_action m = Unknown) = (\<not> is_ok c)"
    using at(1) by (metis in_set_conv_nth)
  moreover have "\<forall>s \<in> set (pl_seeds p). (ps_action s = Unknown) = (\<not> is_ok c)"
    unfolding s by (auto simp: plan_seed_def Let_def decide_seed_def split: option.splits if_splits)
  ultimately show ?thesis using b by simp
qed

text \<open>
  Property C22. The plan says why a model is in it and why it builds: a model the selection did not name is
  attributed to a selected model that transitively depends on it, and a model that builds names every
  direct dependency that builds earlier in the same plan.
\<close>

theorem plan_explains:
  assumes "wf_compilation c" "acyclic (dep_rel (cp_graph c))"
    and "\<And>s. s \<in> set (sel_members sel) \<Longrightarrow> \<exists>i. wf_model_id i \<and> sel_id s = logical_name i"
    and "make_plan sha plan_id now es c sel environment force = Some (Inr p)"
    and "k < length (pl_models p)" "\<And>m. m \<in> set (cp_models c) \<Longrightarrow> wf_model_id (cm_id m)"
  shows "\<exists>m \<in> set (cp_models c). pm_id (pl_models p ! k) = logical_name (cm_id m) \<and>
    (pm_membership (pl_models p ! k) = DependencyMember \<longrightarrow>
       (\<exists>src \<in> set (selection_ids sel).
          reason_about SelectedDependency (''required by selected model '' @ logical_name src) (logical_name src)
            \<in> set (pm_reasons (pl_models p ! k)) \<and>
          cm_id m \<in> reached (upstream_of (cp_graph c)) {src})) \<and>
    (\<forall>j < k. \<forall>d \<in> set (model_dependencies m).
       pm_action (pl_models p ! j) = Build \<and> pm_action (pl_models p ! k) = Build \<and>
       pm_id (pl_models p ! j) = logical_name d \<longrightarrow>
       reason_about UpstreamRebuild (''upstream '' @ logical_name d @ '' will rebuild in this plan'')
         (logical_name d) \<in> set (pm_reasons (pl_models p ! k)))"
proof -
  let ?planned = "dependency_closure_excluding c (btree_set (selection_ids sel)) (excluded_ids sel)"
  let ?order = "plan_order c ?planned"
  let ?ms = "ordered_models c ?order"
  note o1 = plan_order_facts [OF assms(1,2), of ?planned]
  note at = plan_model_at [OF assms(4) refl refl]
  have k: "k < length ?ms" using assms(5) at(1) by simp
  obtain g b q where q: "extends_model q (pl_models p ! k)"
    "plan_model sha es g \<lparr>rq_selection = sel,
        rq_requiring = requiring_models c (btree_set (selection_ids sel)),
        rq_environment = environment, rq_blocked = \<not> is_ok c, rq_force = force\<rparr> b (?ms ! k) = Some (Inr q)"
    "set b = {cm_id (?ms ! j) | j. j < k \<and> pm_action (pl_models p ! j) = Build}"
    using at(2) [OF k] by blast
  let ?m = "?ms ! k"
  obtain d :: decision and rs where d: "pm_id q = logical_name (cm_id ?m)" "pm_action q = dec_action d"
    "pm_membership q = membership_of sel (cm_id ?m)"
    "pm_reasons q = membership_reasons sel (requiring_models c (btree_set (selection_ids sel))) (cm_id ?m) @
       dec_reasons d @ (if dec_action d = Build then upstream_reasons (b @ [cm_id ?m]) ?m else []) @ rs"
  proof (rule plan_model_Inr [OF q(2)], goal_cases)
    case (1 d rs)
    then show ?case by (intro that [of d rs]) simp_all
  qed
  have mid: "cm_id ?m = ?order ! k" using o1(4) k by (metis nth_map)
  have "length ?ms = length ?order" using o1(4) by (metis length_map)
  then have inorder: "cm_id ?m \<in> set ?order" using mid k by simp
  then obtain m' where m': "m' \<in> set (cp_models c)" "cm_id m' = cm_id ?m"
    unfolding o1(3) by blast
  have "?m \<in> set ?ms" using k by simp
  then obtain i where "compilation_model c i = Some ?m"
    by (auto simp: ordered_models_def List.map_filter_def split: option.splits)
  then have mem: "?m \<in> set (cp_models c)" using compilation_model_Some [OF assms(1)] by blast
  have named: "\<exists>src \<in> set (selection_ids sel).
      reason_about SelectedDependency (''required by selected model '' @ logical_name src) (logical_name src)
        \<in> set (pm_reasons (pl_models p ! k)) \<and> cm_id ?m \<in> reached (upstream_of (cp_graph c)) {src}"
    if "pm_membership (pl_models p ! k) = DependencyMember"
  proof -
    have dep: "membership_of sel (cm_id ?m) = DependencyMember"
      using that d(3) extends_simps(3) [OF q(1)] by simp
    then have none: "\<forall>s \<in> set (sel_members sel). sel_id s \<noteq> logical_name (cm_id ?m)"
      by (simp add: dependency_member_iff) (metis image_eqI)
    have new: "cm_id ?m \<notin> set (selection_ids sel)"
    proof
      assume "cm_id ?m \<in> set (selection_ids sel)"
      then obtain s where s: "s \<in> set (sel_members sel)" "model_id_parse (sel_id s) = Inr (cm_id ?m)"
        by (auto simp: selection_ids_def parsed_ids_def List.map_filter_def split: sum.splits)
      obtain i where "wf_model_id i" "sel_id s = logical_name i" using assms(3) [OF s(1)] by blast
      with s none show False using model_id_parse_logical_name [of i] by auto
    qed
    have "cm_id ?m \<in> reached (kept_upstream (cp_graph c) (excluded_ids sel)) (set (selection_ids sel))"
      using inorder o1(3) closure_excluding_reaches(1) [of "btree_set (selection_ids sel)" c "excluded_ids sel"]
      by auto
    then have "cm_id ?m \<in> reached (upstream_of (cp_graph c)) (set (btree_set (selection_ids sel)))"
      using reached_kept by (metis set_btree_set subsetD)
    then obtain src where src: "src \<in> set (selection_ids sel)"
      "map_of (requiring_models c (btree_set (selection_ids sel))) (cm_id ?m) = Some (logical_name src)"
      "cm_id ?m \<in> reached (upstream_of (cp_graph c)) {src}"
      using requiring_models_spec [of "cm_id ?m" c "btree_set (selection_ids sel)"] new by auto
    have "reason_about SelectedDependency (''required by selected model '' @ logical_name src) (logical_name src)
        \<in> set (pm_reasons q)"
      using d(4) dep src(2) by (simp add: membership_reasons_def)
    with src extends_simps(4) [OF q(1)] show ?thesis by blast
  qed
  have upstream: "reason_about UpstreamRebuild (''upstream '' @ logical_name e @ '' will rebuild in this plan'')
      (logical_name e) \<in> set (pm_reasons (pl_models p ! k))"
    if "j < k" "e \<in> set (model_dependencies ?m)" "pm_action (pl_models p ! j) = Build"
      "pm_action (pl_models p ! k) = Build" "pm_id (pl_models p ! j) = logical_name e" for j e
  proof -
    have j: "j < length ?ms" using that(1) k by simp
    have "logical_name e = logical_name (cm_id (?ms ! j))"
      using plan_id_at [OF assms(4) refl j] that(5) by simp
    moreover have "cm_id (?ms ! j) \<in> set ?order"
      using o1(4) j by (metis length_map nth_map nth_mem)
    then obtain n where "n \<in> set (cp_models c)" "cm_id n = cm_id (?ms ! j)"
      unfolding o1(3) by blast
    then have "wf_model_id (cm_id (?ms ! j))" using assms(6) [of n] by argo
    moreover have "wf_model_id e"
      using declared_dependencies [OF assms(1) mem] that(2) assms(6) by auto
    ultimately have "e = cm_id (?ms ! j)" using logical_name_inj by blast
    then have "e \<in> set b" using that(1,3) q(3) by blast
    moreover have "dec_action d = Build" using that(4) d(2) extends_simps(2) [OF q(1)] by simp
    ultimately have "reason_about UpstreamRebuild
        (''upstream '' @ logical_name e @ '' will rebuild in this plan'') (logical_name e) \<in> set (pm_reasons q)"
      using that(2) d(4) by (auto simp: upstream_reasons_def)
    then show ?thesis using extends_simps(4) [OF q(1)] by blast
  qed
  have "pm_id (pl_models p ! k) = logical_name (cm_id ?m)" using d(1) extends_simps(1) [OF q(1)] by simp
  with mem named upstream show ?thesis by (intro bexI [of _ ?m]) blast+
qed

text \<open>
  Property C21. Excluding a model is safe: when a workspace that compiles is planned, every materialised
  dependency that a planned model reads and the selection excludes exists in the warehouse, and the plan
  warns of it.
\<close>

theorem plan_exclusion_safe:
  assumes "is_ok c" "make_plan sha plan_id now es c sel environment force = Some (Inr p)"
    and "\<And>rs. es_relations_exist es rs = Inr (map present rs)"
    and "i \<in> set (dependency_closure_excluding c (btree_set (selection_ids sel)) (excluded_ids sel))"
    and "compilation_model c i = Some m" "d \<in> set (model_dependencies m)" "d \<in> set (excluded_ids sel)"
    and "compilation_model c d = Some e" "cfg_materialization (cm_config e) \<noteq> Ephemeral"
  shows "(\<exists>r. relation_display r = relation_display (cm_target e) \<and> present r) \<and>
    logical_name i @ '' depends on excluded model '' @ logical_name d @
      ''; it will read the existing materialisation'' \<in> set (pl_warnings p)"
proof -
  let ?planned = "dependency_closure_excluding c (btree_set (selection_ids sel)) (excluded_ids sel)"
  let ?order = "plan_order c ?planned"
  let ?reads = "excluded_reads c (excluded_ids sel) ?planned"
  obtain g where g: "gather c es (\<not> is_ok c) environment (excluded_ids sel) ?planned ?order
       (needed_seeds c (es_adapter es) ?planned) = Inr g" "pl_warnings p = ga_warnings g"
    using assms(2) by (rule make_plan_Inr) simp
  then obtain existing warnings where ex: "exists_map es (probe_relations c (es_adapter es) False ?reads
       (needed_seeds c (es_adapter es) ?planned) ?order) = Inr existing"
    and w: "check_exclusions False existing ?reads = Inr warnings" "ga_warnings g = warnings"
    using assms(1)
    by (auto simp: gather_def gather_state_def Let_def state_error_def split: sum.splits option.splits)
  have "(i, d, e) \<in> set ?reads"
    using assms(4-9) by (force simp: excluded_reads_def List.map_filter_def)
  moreover have "found_in existing (cm_target e) \<and>
      logical_name i @ '' depends on excluded model '' @ logical_name d @
        ''; it will read the existing materialisation'' \<in> set ws"
    if "check_exclusions False existing reads = Inr ws" "(i, d, e) \<in> set reads" for reads ws i d e
    using that by (induction False existing reads arbitrary: ws rule: check_exclusions.induct)
      (auto split: if_splits sum.splits)
  ultimately have found: "found_in existing (cm_target e)" and warned: "logical_name i @
      '' depends on excluded model '' @ logical_name d @ ''; it will read the existing materialisation'' \<in> set warnings"
    using w(1) by blast+
  obtain rs where "existing = map (\<lambda>(f, r). (relation_display r, f)) (zip (map present rs) rs)"
    using ex assms(3) by (auto simp: exists_map_def Let_def)
  moreover have "\<exists>r. relation_display r = name \<and> present r"
    if "map_of (map (\<lambda>(f, r). (relation_display r, f)) (zip (map present rs) rs)) name = Some True" for rs name
    using that by (induction rs) (auto split: if_splits)
  ultimately show ?thesis using found warned w(2) g(2) by (simp add: found_in_def)
qed

section \<open>Witnesses\<close>

text \<open>A warehouse where every relation exists and nothing is recorded; a table and a view that reads it.\<close>

definition bare_source :: evidence_source where
  "bare_source =
     \<lparr>es_adapter = ''duckdb'', es_relations_exist = (\<lambda>rs. Inr (map (\<lambda>r. True) rs)),
      es_output_identity = (\<lambda>r. Inr None), es_relation_columns_many = (\<lambda>rs. []), es_state = None,
      es_parse_time = (\<lambda>s. None)\<rparr>"

definition pair_models :: "compiled_model list" where
  "pair_models =
     [(bare_model (mid ''a'') [])\<lparr>cm_config := default_config
        \<lparr>cfg_materialization := Incremental, cfg_incremental := Some (TimeWindow ''at'' None)\<rparr>\<rparr>,
      bare_model (mid ''b'') [DepModel (mid ''a'')]]"

definition pair_workspace :: "diagnostic list \<Rightarrow> compilation" where
  "pair_workspace ds = the (compilation_new pair_models [] [] no_defaults ds)"

definition pair_plan :: "string list \<Rightarrow> (engine_error + plan) option" where
  "pair_plan excluded =
     make_plan (\<lambda>s. s) ''plan'' ''now'' bare_source (pair_workspace [])
       ((selection_of (pair_workspace []) [mid ''b''])\<lparr>sel_excluded := excluded\<rparr>) None False"

lemma pair_built: "graph_build pair_models \<noteq> None"
  by code_simp

lemma pair_wf: "wf_compilation (pair_workspace ds)"
proof (rule compilation_new_wf)
  show "distinct (map cm_id pair_models)" by code_simp
  show "compilation_new pair_models [] [] no_defaults ds = Some (pair_workspace ds)"
    using pair_built by (auto simp: pair_workspace_def compilation_new_def)
qed

lemma pair_acyclic: "acyclic (dep_rel (cp_graph (pair_workspace [])))"
proof -
  have "topological_order (cp_graph (pair_workspace [])) \<noteq> None" by code_simp
  then show ?thesis
    unfolding topological_order_None [OF compilation_graph(1) [OF pair_wf]] by (rule notnotD)
qed

lemma pair_plans:
  "(case pair_plan [] of
      Some (Inr p) \<Rightarrow> map (\<lambda>m. (pm_id m, pm_action m, pm_membership m)) (pl_models p) =
        [(''m.a'', Build, DependencyMember), (''m.b'', Build, Selected)]
    | _ \<Rightarrow> False)"
  "(case pair_plan [''m.a''] of
      Some (Inr p) \<Rightarrow> map pm_id (pl_models p) = [''m.b''] \<and> length (pl_warnings p) = 1
    | _ \<Rightarrow> False)"
  by code_simp+

lemmas pair_planned = pair_plans(1)
lemmas pair_excluded = pair_plans(2)

theorem plan_closed_and_ordered_witness:
  "\<exists>p order. pair_plan [] = Some (Inr p) \<and> map pm_id (pl_models p) = map logical_name order \<and>
    distinct order \<and> order \<noteq> []"
proof -
  obtain p where p: "pair_plan [] = Some (Inr p)" "pl_models p \<noteq> []"
    using pair_planned by (auto split: option.splits sum.splits)
  from plan_closed_and_ordered [OF pair_wf pair_acyclic p(1) [unfolded pair_plan_def]]
  obtain order where "map pm_id (pl_models p) = map logical_name order" "distinct order" by blast
  with p show ?thesis by auto
qed

theorem plan_unknown_iff_blocked_witness:
  "\<exists>p. pair_plan [] = Some (Inr p) \<and> pl_models p \<noteq> [] \<and> pl_blocked p = (\<not> is_ok (pair_workspace []))"
proof -
  obtain p where p: "pair_plan [] = Some (Inr p)" "pl_models p \<noteq> []"
    using pair_planned by (auto split: option.splits sum.splits)
  with plan_unknown_iff_blocked [OF p(1) [unfolded pair_plan_def]] show ?thesis by blast
qed

lemma pair_ids: "m \<in> set (cp_models (pair_workspace ds)) \<Longrightarrow> wf_model_id (cm_id m)"
proof -
  have "list_all (\<lambda>m. wf_model_id (cm_id m)) pair_models" by code_simp
  moreover have "cp_models (pair_workspace ds) = pair_models"
    using pair_built by (auto simp: pair_workspace_def compilation_new_def)
  ultimately show "m \<in> set (cp_models (pair_workspace ds)) \<Longrightarrow> wf_model_id (cm_id m)"
    by (simp add: list_all_iff)
qed

lemma pair_selected:
  "sel_members ((selection_of (pair_workspace []) [mid ''b''])\<lparr>sel_excluded := ex\<rparr>) =
     [\<lparr>sel_id = ''m.b'', sel_matched = [''m.b''], sel_expanded = []\<rparr>]"
proof -
  have "sel_members (selection_of (pair_workspace []) [mid ''b'']) =
     [\<lparr>sel_id = ''m.b'', sel_matched = [''m.b''], sel_expanded = []\<rparr>]" by code_simp
  then show ?thesis by simp
qed

lemma mid_b: "wf_model_id (mid ''b'')" "logical_name (mid ''b'') = ''m.b''"
  by code_simp+

theorem plan_explains_witness:
  "\<exists>p src. pair_plan [] = Some (Inr p) \<and>
    reason_about SelectedDependency (''required by selected model '' @ logical_name src) (logical_name src)
      \<in> set (pm_reasons (pl_models p ! 0))"
proof -
  obtain p where p: "pair_plan [] = Some (Inr p)" "0 < length (pl_models p)"
    "pm_membership (pl_models p ! 0) = DependencyMember"
    using pair_planned by (cases "pair_plan []") (auto simp: map_eq_Cons_conv split: sum.splits)
  from plan_explains [OF pair_wf pair_acyclic _ p(1) [unfolded pair_plan_def] p(2) pair_ids] mid_b p(3)
  obtain src where "reason_about SelectedDependency (''required by selected model '' @ logical_name src)
      (logical_name src) \<in> set (pm_reasons (pl_models p ! 0))"
    by (simp only: pair_selected) (fastforce simp: mid_b)
  with p(1) show ?thesis by blast
qed

theorem plan_exclusion_safe_witness:
  "\<exists>p. pair_plan [''m.a''] = Some (Inr p) \<and>
    ''m.b depends on excluded model m.a; it will read the existing materialisation'' \<in> set (pl_warnings p)"
proof -
  let ?sel = "(selection_of (pair_workspace []) [mid ''b''])\<lparr>sel_excluded := [''m.a'']\<rparr>"
  obtain p where p: "pair_plan [''m.a''] = Some (Inr p)"
    using pair_excluded by (auto split: option.splits sum.splits)
  have ok: "is_ok (pair_workspace [])" by code_simp
  have present: "es_relations_exist bare_source rs = Inr (map (\<lambda>r. True) rs)" for rs
    by (simp add: bare_source_def)
  have planned: "mid ''b'' \<in> set (dependency_closure_excluding (pair_workspace [])
      (btree_set (selection_ids ?sel)) (excluded_ids ?sel))" "mid ''a'' \<in> set (excluded_ids ?sel)"
    by code_simp+
  obtain m e where m: "compilation_model (pair_workspace []) (mid ''b'') = Some m"
      "mid ''a'' \<in> set (model_dependencies m)"
    and e: "compilation_model (pair_workspace []) (mid ''a'') = Some e"
      "cfg_materialization (cm_config e) \<noteq> Ephemeral"
  proof -
    have "(case compilation_model (pair_workspace []) (mid ''b'') of Some m \<Rightarrow>
        mid ''a'' \<in> set (model_dependencies m) | None \<Rightarrow> False)" by code_simp
    moreover have "(case compilation_model (pair_workspace []) (mid ''a'') of Some e \<Rightarrow>
        cfg_materialization (cm_config e) \<noteq> Ephemeral | None \<Rightarrow> False)" by code_simp
    ultimately show ?thesis using that by (auto split: option.splits)
  qed
  have names: "logical_name (mid ''a'') = ''m.a''" "logical_name (mid ''b'') = ''m.b''" by code_simp+
  from plan_exclusion_safe [OF ok p [unfolded pair_plan_def] present planned(1) m planned(2) e]
  have "''m.b depends on excluded model m.a; it will read the existing materialisation'' \<in> set (pl_warnings p)"
    by (simp add: names)
  with p show ?thesis by blast
qed

text \<open>
  A plan of a workspace that does not compile still reads the state store: the watermark of a
  time-window model is asked for, and a store that cannot answer turns the blocked plan into an error.
\<close>

theorem blocked_plan_reads_watermark:
  "make_plan (\<lambda>s. s) ''plan'' ''now''
     (bare_source\<lparr>es_state := Some \<lparr>sv_materialized_in = (\<lambda>e. Inr []), sv_seeds_in = (\<lambda>e. Inr []),
        sv_materialized_by_hashes = (\<lambda>hs. Inr []), sv_watermark = (\<lambda>n e. Inl ''locked'')\<rparr>\<rparr>)
     (pair_workspace [diag_error ''X'' ''broken'']) (selection_of (pair_workspace []) [mid ''a'']) None False
   = Some (Inl (EState ''locked''))"
  by code_simp

end
