(* ===== verification/RunRecords.thy ===== *)
theory RunRecords
  imports Failure
begin

text \<open>
  The run history the state store keeps, \<^verbatim>\<open>phlo-transform-engine/src/state.rs\<close>: one record per
  model, seed and test of a run, and the summary of a run. An empty \<open>finished_at\<close> is a model still
  running.
\<close>

record model_run_record =
  mrr_run_id :: string
  mrr_model_id :: string
  mrr_materialization :: string
  mrr_action :: string
  mrr_status :: execution_status
  mrr_started_at :: string
  mrr_finished_at :: string
  mrr_sql_hash :: string
  mrr_target :: string
  mrr_desired_version :: string
  mrr_attempts :: "attempt list"
  mrr_query_id :: "string option"
  mrr_error :: "string option"
  mrr_error_category :: "string option"

record seed_run_record =
  srr_run_id :: string
  srr_name :: string
  srr_status :: execution_status
  srr_target :: string
  srr_attempts :: "attempt list"
  srr_error :: "string option"
  srr_error_category :: "string option"
  srr_started_at :: string
  srr_finished_at :: string

record test_run_record =
  trr_run_id :: string
  trr_test_id :: string
  trr_status :: execution_status
  trr_row_count :: "64 word"
  trr_query_id :: "string option"
  trr_error :: "string option"
  trr_error_category :: "string option"
  trr_started_at :: string
  trr_finished_at :: string

record run_summary =
  rs_run_id :: string
  rs_plan_id :: string
  rs_environment :: "string option"
  rs_reference_hash :: "string option"
  rs_started_at :: string
  rs_finished_at :: "string option"
  rs_status :: execution_status
  rs_model_count :: nat
  rs_failed_count :: nat

end
