(* ===== verification/Exec.thy ===== *)
theory Exec
  imports Planner RunRecords
begin

text \<open>
  What a run executes for one node, \<^verbatim>\<open>phlo-transform-engine/src/run.rs\<close>: the physical operation of a
  model, the attempts of a model task and of a seed load with their retries, the results and the
  records the state store is given. What the warehouse, the clock and the store answer are the
  records \<open>attempt_world\<close> and \<open>store\<close>; a write that fails answers its error.
\<close>

section \<open>Events\<close>

datatype engine_event =
    CompileStarted
  | CompileFinished nat nat
  | PlanCreated string nat nat
  | RunStarted string string "string option"
  | ModelQueued string
  | SeedStarted string
  | SeedRetrying string "32 word" "64 word" string
  | SeedFinished string execution_status
  | ModelStarted string
  | ModelRetrying string "32 word" "64 word" string
  | ModelFinished string execution_status "string option" "64 word"
  | TestStarted string
  | TestFinished string execution_status "64 word" "string option"
  | RunFinished string execution_status

record query_result =
  qr_query_id :: "string option"
  qr_columns :: "string list"
  qr_rows :: "string list list"
  qr_row_count :: "64 word"

section \<open>The physical operation\<close>

datatype exec_operation =
    OpView | OpTable | OpAppend
  | OpMerge "string list"
  | OpReplacePartitions "string list"
  | OpTimeWindow string

fun sql_type :: "data_type \<Rightarrow> string option" where
  "sql_type TBoolean = Some ''boolean''"
| "sql_type TTinyInt = Some ''tinyint''"
| "sql_type TSmallInt = Some ''smallint''"
| "sql_type TInteger = Some ''integer''"
| "sql_type TBigInt = Some ''bigint''"
| "sql_type TReal = Some ''real''"
| "sql_type TDouble = Some ''double''"
| "sql_type TDecimal = Some ''decimal''"
| "sql_type TVarchar = Some ''varchar''"
| "sql_type TDate = Some ''date''"
| "sql_type TTime = Some ''time''"
| "sql_type TTimestamp = Some ''timestamp''"
| "sql_type TTimestampTz = Some ''timestamp with time zone''"
| "sql_type _ = None"

definition quote_ident :: "string \<Rightarrow> string" where
  "quote_ident s = ''\"'' @ replace_char (CHR 0x22) ''\"\"'' s @ ''\"''"

definition time_window_predicate ::
    "compiled_model \<Rightarrow> string \<Rightarrow> string \<Rightarrow> 64 word option \<Rightarrow> string option" where
  "time_window_predicate m column watermark overlap_seconds =
     (case schema_column (cm_schema m) column of
        None \<Rightarrow> None
      | Some c \<Rightarrow>
          (case sql_type (oc_type c) of
             None \<Rightarrow> None
           | Some ty \<Rightarrow>
               let lower = ''CAST('' @ [CHR 0x27] @ replace_char (CHR 0x27) [CHR 0x27, CHR 0x27] watermark @
                             [CHR 0x27] @ '' AS '' @ ty @ '')'';
                   bound = (case overlap_seconds of
                              Some overlap \<Rightarrow>
                                if 0 < overlap \<and> (oc_type c = TTimestamp \<or> oc_type c = TTimestampTz)
                                then ''('' @ lower @ '' - INTERVAL '' @ [CHR 0x27] @ dec (unat overlap) @
                                       [CHR 0x27] @ '' SECOND)''
                                else lower
                            | None \<Rightarrow> lower)
               in Some (quote_ident column @ '' > '' @ bound)))"

definition needs_bootstrap :: "planned_model option \<Rightarrow> bool" where
  "needs_bootstrap info =
     (case info of Some p \<Rightarrow> pm_full_rebuild p \<or> \<not> pm_exists p | None \<Rightarrow> True)"

text \<open>\<open>None\<close> is the panic for an ephemeral model, which is never planned.\<close>

definition exec_op :: "compiled_model \<Rightarrow> planned_model option \<Rightarrow> exec_operation option" where
  "exec_op m info =
     (case cfg_materialization (cm_config m) of
        View \<Rightarrow> Some OpView
      | Table \<Rightarrow> Some OpTable
      | Ephemeral \<Rightarrow> None
      | Incremental \<Rightarrow>
          Some (if needs_bootstrap info then OpTable
                else (case cfg_incremental (cm_config m) of
                        Some Append \<Rightarrow> OpAppend
                      | Some (Key columns) \<Rightarrow> OpMerge columns
                      | Some (Partition columns) \<Rightarrow> OpReplacePartitions columns
                      | Some (TimeWindow column overlap) \<Rightarrow>
                          (case Option.bind (Option.bind info pm_watermark)
                                  (\<lambda>w. time_window_predicate m column w overlap) of
                             Some predicate \<Rightarrow> OpTimeWindow predicate
                           | None \<Rightarrow> OpTable)
                      | None \<Rightarrow> OpTable)))"

text \<open>The statement an operation hands to the adapter.\<close>

datatype adapter_call =
    CreateOrReplaceView relation string
  | CreateOrReplaceTable relation string
  | AppendRows relation string
  | MergeRows relation "string list" string
  | ReplacePartitionRows relation "string list" string

fun execute_op :: "relation \<Rightarrow> string \<Rightarrow> exec_operation \<Rightarrow> adapter_call" where
  "execute_op target sql OpView = CreateOrReplaceView target sql"
| "execute_op target sql OpTable = CreateOrReplaceTable target sql"
| "execute_op target sql OpAppend = AppendRows target sql"
| "execute_op target sql (OpMerge cs) = MergeRows target cs sql"
| "execute_op target sql (OpReplacePartitions columns) = ReplacePartitionRows target columns sql"
| "execute_op target sql (OpTimeWindow predicate) =
     AppendRows target (''SELECT * FROM ('' @ sql @ '') AS __phlo_src WHERE '' @ predicate)"

section \<open>Results\<close>

record model_result =
  mres_model :: string
  mres_target :: string
  mres_materialization :: string
  mres_action :: string
  mres_status :: execution_status
  mres_desired_version :: string
  mres_previous_version :: "string option"
  mres_reasons :: "string list"
  mres_query_id :: "string option"
  mres_attempts :: "attempt list"
  mres_failure :: "failure option"
  mres_started_at :: "string option"
  mres_finished_at :: "string option"
  mres_duration_ms :: "64 word"
  mres_sql_hash :: string
  mres_output_identity :: "string option"

record seed_result =
  sres_seed :: string
  sres_target :: string
  sres_status :: execution_status
  sres_attempts :: "attempt list"
  sres_failure :: "failure option"
  sres_duration_ms :: "64 word"

record test_result =
  tres_test :: string
  tres_status :: execution_status
  tres_row_count :: "64 word"
  tres_query_id :: "string option"
  tres_failure :: "failure option"
  tres_duration_ms :: "64 word"

record run_counts =
  rn_passed :: nat
  rn_failed :: nat
  rn_skipped :: nat
  rn_cached :: nat
  rn_blocked :: nat
  rn_cancelled :: nat

definition no_counts :: run_counts where
  "no_counts = \<lparr>rn_passed = 0, rn_failed = 0, rn_skipped = 0, rn_cached = 0, rn_blocked = 0, rn_cancelled = 0\<rparr>"

fun add_count :: "execution_status \<Rightarrow> run_counts \<Rightarrow> run_counts" where
  "add_count Passed n = n\<lparr>rn_passed := rn_passed n + 1\<rparr>"
| "add_count Failed n = n\<lparr>rn_failed := rn_failed n + 1\<rparr>"
| "add_count Skipped n = n\<lparr>rn_skipped := rn_skipped n + 1\<rparr>"
| "add_count CachedStatus n = n\<lparr>rn_cached := rn_cached n + 1\<rparr>"
| "add_count Blocked n = n\<lparr>rn_blocked := rn_blocked n + 1\<rparr>"
| "add_count Cancelled n = n\<lparr>rn_cancelled := rn_cancelled n + 1\<rparr>"
| "add_count _ n = n"

definition plan_result_fields :: "planned_model option \<Rightarrow> string \<times> string option \<times> string list" where
  "plan_result_fields info =
     (case info of
        Some p \<Rightarrow> (pm_desired_version p, pm_current_version p, map pr_detail (pm_reasons p))
      | None \<Rightarrow> ([], None, []))"

definition action_of :: "planned_model option \<Rightarrow> string" where
  "action_of info = (case info of Some p \<Rightarrow> plan_action_str (pm_action p) | None \<Rightarrow> ''build'')"

definition model_result_of ::
    "(string \<Rightarrow> string) \<Rightarrow> compiled_model \<Rightarrow> execution_status \<Rightarrow> attempt list \<Rightarrow> string option
       \<Rightarrow> string option \<Rightarrow> 64 word \<Rightarrow> planned_model option \<Rightarrow> model_result" where
  "model_result_of sha m st attempts started finished duration_ms info =
     (let (desired, previous, reasons) = plan_result_fields info
      in \<lparr>mres_model = logical_name (cm_id m), mres_target = relation_display (cm_target m),
          mres_materialization = materialization_str (cfg_materialization (cm_config m)),
          mres_action = action_of info, mres_status = st, mres_desired_version = desired,
          mres_previous_version = previous, mres_reasons = reasons, mres_query_id = None,
          mres_attempts = attempts, mres_failure = None, mres_started_at = started,
          mres_finished_at = finished, mres_duration_ms = duration_ms,
          mres_sql_hash = sha (cm_compiled_sql m), mres_output_identity = None\<rparr>)"

definition with_failure :: "failure \<Rightarrow> model_result \<Rightarrow> model_result" where
  "with_failure f r = r\<lparr>mres_failure := Some f\<rparr>"

definition seed_result_of ::
    "planned_seed \<Rightarrow> execution_status \<Rightarrow> attempt list \<Rightarrow> failure option \<Rightarrow> 64 word \<Rightarrow> seed_result" where
  "seed_result_of p st attempts f duration_ms =
     \<lparr>sres_seed = ps_name p, sres_target = ps_target p, sres_status = st, sres_attempts = attempts,
      sres_failure = f, sres_duration_ms = duration_ms\<rparr>"

section \<open>Records\<close>

definition model_start_record ::
    "(string \<Rightarrow> string) \<Rightarrow> string \<Rightarrow> compiled_model \<Rightarrow> string \<Rightarrow> planned_model option \<Rightarrow> model_run_record" where
  "model_start_record sha run_id m started info =
     \<lparr>mrr_run_id = run_id, mrr_model_id = logical_name (cm_id m),
      mrr_materialization = materialization_str (cfg_materialization (cm_config m)),
      mrr_action = action_of info, mrr_status = Running, mrr_started_at = started,
      mrr_finished_at = [], mrr_sql_hash = sha (cm_compiled_sql m),
      mrr_target = relation_display (cm_target m),
      mrr_desired_version = fst (plan_result_fields info), mrr_attempts = [], mrr_query_id = None,
      mrr_error = None, mrr_error_category = None\<rparr>"

definition or_empty :: "string option \<Rightarrow> string" where
  "or_empty x = (case x of Some s \<Rightarrow> s | None \<Rightarrow> [])"

definition model_record :: "string \<Rightarrow> model_result \<Rightarrow> model_run_record" where
  "model_record run_id r =
     \<lparr>mrr_run_id = run_id, mrr_model_id = mres_model r, mrr_materialization = mres_materialization r,
      mrr_action = mres_action r, mrr_status = mres_status r,
      mrr_started_at = or_empty (mres_started_at r), mrr_finished_at = or_empty (mres_finished_at r),
      mrr_sql_hash = mres_sql_hash r, mrr_target = mres_target r,
      mrr_desired_version = mres_desired_version r, mrr_attempts = mres_attempts r,
      mrr_query_id = mres_query_id r, mrr_error = map_option fl_message (mres_failure r),
      mrr_error_category = map_option (\<lambda>f. category_code (fl_category f)) (mres_failure r)\<rparr>"

definition seed_run_record_of :: "string \<Rightarrow> seed_result \<Rightarrow> string \<Rightarrow> string \<Rightarrow> seed_run_record" where
  "seed_run_record_of run_id r started finished =
     \<lparr>srr_run_id = run_id, srr_name = sres_seed r, srr_status = sres_status r,
      srr_target = sres_target r, srr_attempts = sres_attempts r,
      srr_error = map_option fl_message (sres_failure r),
      srr_error_category = map_option (\<lambda>f. category_code (fl_category f)) (sres_failure r),
      srr_started_at = started, srr_finished_at = finished\<rparr>"

definition test_record :: "string \<Rightarrow> string \<Rightarrow> test_result \<Rightarrow> test_run_record" where
  "test_record now run_id r =
     \<lparr>trr_run_id = run_id, trr_test_id = tres_test r, trr_status = tres_status r,
      trr_row_count = tres_row_count r, trr_query_id = tres_query_id r,
      trr_error = map_option fl_message (tres_failure r),
      trr_error_category = map_option (\<lambda>f. category_code (fl_category f)) (tres_failure r),
      trr_started_at = now, trr_finished_at = now\<rparr>"

text \<open>What writing to the state store answers: \<open>None\<close> is success, \<open>Some\<close> the error.\<close>

record store =
  wr_model :: "model_run_record \<Rightarrow> engine_error option"
  wr_seed :: "seed_run_record \<Rightarrow> engine_error option"
  wr_test :: "test_run_record \<Rightarrow> engine_error option"
  wr_materialized :: "materialized_record \<Rightarrow> engine_error option"
  wr_seed_state :: "seed_record \<Rightarrow> engine_error option"
  wr_watermark :: "string \<Rightarrow> string option \<Rightarrow> string \<Rightarrow> string \<Rightarrow> engine_error option"
  rd_watermark :: "string \<Rightarrow> string option \<Rightarrow> engine_error + string option"

text \<open>A write is dropped without a store; otherwise its error is the run's.\<close>

definition write_with :: "('s \<Rightarrow> 'r \<Rightarrow> engine_error option) \<Rightarrow> 's option \<Rightarrow> 'r \<Rightarrow> engine_error option" where
  "write_with w st r = (case st of None \<Rightarrow> None | Some s \<Rightarrow> w s r)"

section \<open>Attempts\<close>

datatype attempt_end = AttemptOk query_result | AttemptError adapter_error | AttemptTimeout

record attempt_world =
  aw_end :: "32 word \<Rightarrow> attempt_end"
  aw_started :: "32 word \<Rightarrow> string"
  aw_ended :: "32 word \<Rightarrow> string"
  aw_duration :: "32 word \<Rightarrow> 64 word"
  aw_elapsed :: "32 word \<Rightarrow> 64 word"
  aw_cancelled :: "32 word \<Rightarrow> bool"
  aw_limit :: string

definition attempt_result :: "attempt_world \<Rightarrow> 32 word \<Rightarrow> failure + query_result" where
  "attempt_result w n =
     (case aw_end w n of
        AttemptOk q \<Rightarrow> Inr q
      | AttemptError e \<Rightarrow> Inl (classify_adapter_error (aw_ended w n) e n)
      | AttemptTimeout \<Rightarrow> Inl (timeout_failure (aw_ended w n) (aw_limit w) n))"

definition attempt_of :: "attempt_world \<Rightarrow> 32 word \<Rightarrow> string option \<Rightarrow> failure option \<Rightarrow> attempt" where
  "attempt_of w n query f =
     \<lparr>at_attempt = n, at_started_at = aw_started w n, at_duration_ms = aw_duration w n,
      at_query_id = query, at_failure = f\<rparr>"

definition delay_ms :: "retry_policy \<Rightarrow> 32 word \<Rightarrow> 64 word" where
  "delay_ms p n = ucast (as_millis (retry_delay p n))"

text \<open>Whether attempt \<open>n\<close>, which ended in failure \<open>f\<close>, is followed by another one.\<close>

definition retries :: "retry_policy \<Rightarrow> attempt_world \<Rightarrow> failure \<Rightarrow> 32 word \<Rightarrow> bool" where
  "retries p w f n \<longleftrightarrow> should_retry p f n \<and> \<not> aw_cancelled w n"

lemma retries_below_max: "retries p w f n \<Longrightarrow> n < max_attempts p"
  by (simp add: retries_def should_retry_def)

lemma next_attempt: "retries p w f n \<Longrightarrow> unat (n + 1) = unat n + 1"
proof -
  assume "retries p w f n"
  then have "unat n < unat (max_attempts p)" using retries_below_max word_less_nat_alt by blast
  then have "unat n + 1 < 2 ^ LENGTH(32)" using unat_less [of "max_attempts p"] by simp
  then show ?thesis using unat_add_lem [of n 1] by simp
qed

lemma retry_decreases:
  "retries p w f n \<Longrightarrow> unat (max_attempts p) - unat (n + 1) < unat (max_attempts p) - unat n"
  using retries_below_max [of p w f n] by (simp add: next_attempt word_less_nat_alt)

subsection \<open>A model task\<close>

record model_task =
  tk_id :: model_id
  tk_run_id :: string
  tk_materialization :: string
  tk_action :: string
  tk_sql_hash :: string
  tk_target :: string
  tk_desired_version :: string
  tk_started_at :: string
  tk_prior_attempts :: "attempt list"
  tk_operation :: exec_operation

record completion =
  co_id :: model_id
  co_outcome :: "failure + query_result"
  co_attempts :: "attempt list"
  co_state_error :: "string option"
  co_started_at :: string
  co_finished_at :: string
  co_duration_ms :: "64 word"

text \<open>What a task leaves behind: its completion, the retries it announced, the records it wrote.\<close>

record task_log =
  lg_completion :: completion
  lg_retries :: "engine_event list"
  lg_writes :: "model_run_record list"

definition progress_record :: "model_task \<Rightarrow> attempt list \<Rightarrow> failure \<Rightarrow> model_run_record" where
  "progress_record t attempts f =
     \<lparr>mrr_run_id = tk_run_id t, mrr_model_id = logical_name (tk_id t),
      mrr_materialization = tk_materialization t, mrr_action = tk_action t, mrr_status = Running,
      mrr_started_at = tk_started_at t, mrr_finished_at = [], mrr_sql_hash = tk_sql_hash t,
      mrr_target = tk_target t, mrr_desired_version = tk_desired_version t,
      mrr_attempts = tk_prior_attempts t @ attempts, mrr_query_id = None,
      mrr_error = Some (fl_message f), mrr_error_category = Some (category_code (fl_category f))\<rparr>"

definition complete ::
    "attempt_world \<Rightarrow> model_task \<Rightarrow> 32 word \<Rightarrow> failure + query_result \<Rightarrow> attempt list \<Rightarrow> string option \<Rightarrow> completion" where
  "complete w t n outcome attempts lost =
     \<lparr>co_id = tk_id t, co_outcome = outcome, co_attempts = attempts, co_state_error = lost,
      co_started_at = tk_started_at t, co_finished_at = aw_ended w n, co_duration_ms = aw_elapsed w n\<rparr>"

function model_attempts ::
    "retry_policy \<Rightarrow> attempt_world \<Rightarrow> store option \<Rightarrow> model_task \<Rightarrow> 32 word \<Rightarrow> attempt list \<Rightarrow> task_log" where
  "model_attempts p w st t n done =
     (case attempt_result w n of
        Inr q \<Rightarrow>
          \<lparr>lg_completion = complete w t n (Inr q) (done @ [attempt_of w n (qr_query_id q) None]) None,
           lg_retries = [], lg_writes = []\<rparr>
      | Inl f \<Rightarrow>
          (let attempts = done @ [attempt_of w n None (Some f)];
               entry = progress_record t attempts f;
               wrote = (case st of None \<Rightarrow> [] | Some _ \<Rightarrow> [entry])
           in case write_with wr_model st entry of
                Some e \<Rightarrow>
                  \<lparr>lg_completion = complete w t n (Inl f) attempts (Some (engine_error_text e)),
                   lg_retries = [], lg_writes = wrote\<rparr>
              | None \<Rightarrow>
                  if retries p w f n then
                    (let log = model_attempts p w st t (n + 1) attempts
                     in log\<lparr>lg_retries :=
                              ModelRetrying (logical_name (tk_id t)) n (delay_ms p n) (fl_message f) # lg_retries log,
                            lg_writes := wrote @ lg_writes log\<rparr>)
                  else \<lparr>lg_completion = complete w t n (Inl f) attempts None,
                        lg_retries = [], lg_writes = wrote\<rparr>))"
  by pat_completeness auto
termination
  by (relation "measure (\<lambda>(p, w, st, t, n, done). unat (max_attempts p) - unat n)")
     (auto intro: retry_decreases)

declare model_attempts.simps [simp del]

text \<open>The first attempt continues the numbering of the attempts an earlier invocation recorded.\<close>

definition first_attempt :: "model_task \<Rightarrow> 32 word" where
  "first_attempt t = of_nat (length (tk_prior_attempts t)) + 1"

definition run_model_task ::
    "retry_policy \<Rightarrow> attempt_world \<Rightarrow> store option \<Rightarrow> model_task \<Rightarrow> task_log" where
  "run_model_task p w st t = model_attempts p w st t (first_attempt t) []"

subsection \<open>A seed load\<close>

function seed_attempts ::
    "retry_policy \<Rightarrow> attempt_world \<Rightarrow> store option \<Rightarrow> string \<Rightarrow> planned_seed \<Rightarrow> string \<Rightarrow> string
       \<Rightarrow> 32 word \<Rightarrow> attempt list
       \<Rightarrow> engine_error + (seed_result \<times> engine_event list \<times> seed_run_record list)" where
  "seed_attempts p w st run_id ps target started n done =
     (case attempt_result w n of
        Inr q \<Rightarrow>
          (let result = \<lparr>sres_seed = ps_name ps, sres_target = target, sres_status = Passed,
                         sres_attempts = done @ [attempt_of w n (qr_query_id q) None],
                         sres_failure = None, sres_duration_ms = aw_elapsed w n\<rparr>;
               entry = seed_run_record_of run_id result started (aw_ended w n)
           in case write_with wr_seed st entry of
                Some e \<Rightarrow> Inl e
              | None \<Rightarrow> Inr (result, [SeedStarted (ps_name ps), SeedFinished (ps_name ps) Passed], [entry]))
      | Inl f \<Rightarrow>
          (let attempts = done @ [attempt_of w n None (Some f)];
               result = (\<lambda>s. \<lparr>sres_seed = ps_name ps, sres_target = target, sres_status = s,
                              sres_attempts = attempts, sres_failure = Some f,
                              sres_duration_ms = aw_elapsed w n\<rparr>);
               progress = seed_run_record_of run_id (result Running) started (aw_ended w n);
               final = seed_run_record_of run_id (result Failed) started (aw_ended w n)
           in case write_with wr_seed st progress of
                Some e \<Rightarrow> Inl e
              | None \<Rightarrow>
                  if retries p w f n then
                    map_sum id (\<lambda>(r, events, writes).
                        (r, SeedStarted (ps_name ps) #
                            SeedRetrying (ps_name ps) n (delay_ms p n) (fl_message f) # events,
                         progress # writes))
                      (seed_attempts p w st run_id ps target started (n + 1) attempts)
                  else (case write_with wr_seed st final of
                          Some e \<Rightarrow> Inl e
                        | None \<Rightarrow> Inr (result Failed,
                            [SeedStarted (ps_name ps), SeedFinished (ps_name ps) Failed],
                            [progress, final]))))"
  by pat_completeness auto
termination
  by (relation "measure (\<lambda>(p, w, st, run_id, ps, target, started, n, done).
        unat (max_attempts p) - unat n)") (auto intro: retry_decreases)

declare seed_attempts.simps [simp del]

definition run_seed ::
    "retry_policy \<Rightarrow> attempt_world \<Rightarrow> store option \<Rightarrow> string \<Rightarrow> planned_seed \<Rightarrow> relation \<Rightarrow> string
       \<Rightarrow> engine_error + (seed_result \<times> engine_event list \<times> seed_run_record list)" where
  "run_seed p w st run_id ps r started =
     seed_attempts p w st run_id ps (relation_display r) started 1 []"

section \<open>Tests\<close>

text \<open>What each test meets, by its identity.\<close>

record test_world =
  tw_end :: "test_id \<Rightarrow> attempt_end"
  tw_now :: "test_id \<Rightarrow> string"
  tw_duration :: "test_id \<Rightarrow> 64 word"
  tw_cancelled :: "test_id \<Rightarrow> bool"
  tw_limit :: string

definition rows_text :: "64 word \<Rightarrow> string" where
  "rows_text n = ''test returned '' @ dec (unat n) @ '' row(s)''"

definition test_failure :: "string \<Rightarrow> 64 word \<Rightarrow> failure" where
  "test_failure now n =
     \<lparr>fl_category = TestFailure, fl_message = rows_text n, fl_adapter_code = None,
      fl_adapter_message = None, fl_attempt = 1, fl_at = now, fl_retryable = False\<rparr>"

text \<open>A test passes on no rows; rows and errors fail it.\<close>

definition test_verdict ::
    "test_world \<Rightarrow> test_id \<Rightarrow> execution_status \<times> 64 word \<times> string option \<times> failure option" where
  "test_verdict w t =
     (case tw_end w t of
        AttemptOk q \<Rightarrow>
          if qr_row_count q = 0 then (Passed, 0, qr_query_id q, None)
          else (Failed, qr_row_count q, qr_query_id q, Some (test_failure (tw_now w t) (qr_row_count q)))
      | AttemptError e \<Rightarrow> (Failed, 0, None, Some (classify_adapter_error (tw_now w t) e 1))
      | AttemptTimeout \<Rightarrow> (Failed, 0, None, Some (timeout_failure (tw_now w t) (tw_limit w) 1)))"

definition status_or_default :: "('k \<rightharpoonup> execution_status) \<Rightarrow> 'k \<Rightarrow> execution_status" where
  "status_or_default status i = (case status i of Some s \<Rightarrow> s | None \<Rightarrow> Pending)"

definition missing_targets :: "(model_id \<rightharpoonup> execution_status) \<Rightarrow> compiled_test \<Rightarrow> string list" where
  "missing_targets status t =
     map logical_name (filter (\<lambda>i. \<not> is_satisfied (status_or_default status i)) (ct_targets t))"

definition reads_failed_seed :: "compilation \<Rightarrow> string \<Rightarrow> string list \<Rightarrow> source_id \<Rightarrow> bool" where
  "reads_failed_seed c adapter failed s \<longleftrightarrow>
     relation_display (relation_for_source s (wd_catalog (cp_defaults c)) (default_schema c adapter))
       \<in> set failed"

definition bad_sources :: "compilation \<Rightarrow> string \<Rightarrow> string list \<Rightarrow> compiled_test \<Rightarrow> string list" where
  "bad_sources c adapter failed t =
     map source_name (filter (reads_failed_seed c adapter failed) (ct_sources t))"

definition unrun_test :: "test_world \<Rightarrow> compiled_test \<Rightarrow> execution_status \<Rightarrow> failure_category \<Rightarrow> string \<Rightarrow> test_result" where
  "unrun_test w t st category message =
     \<lparr>tres_test = tid_name (ct_id t), tres_status = st, tres_row_count = 0, tres_query_id = None,
      tres_failure = Some (without_attempt (tw_now w (ct_id t)) category message), tres_duration_ms = 0\<rparr>"

definition run_test ::
    "compilation \<Rightarrow> string \<Rightarrow> (model_id \<rightharpoonup> execution_status) \<Rightarrow> string list \<Rightarrow> bool \<Rightarrow> test_world
       \<Rightarrow> compiled_test \<Rightarrow> test_result \<times> engine_event list" where
  "run_test c adapter status failed stopped w t =
     (let name = tid_name (ct_id t); missing = missing_targets status t; bad = bad_sources c adapter failed t
      in if stopped \<or> tw_cancelled w (ct_id t) then
           (unrun_test w t Cancelled CancelledFailure ''not started'', [])
         else if missing \<noteq> [] \<or> bad \<noteq> [] then
           (unrun_test w t Blocked DependencyFailure
              (if missing \<noteq> [] then ''targets not ready: '' @ join '', '' missing
               else ''seed sources failed to load: '' @ join '', '' bad),
            [TestFinished name Blocked 0 None])
         else (case test_verdict w (ct_id t) of (st, rows, query, f) \<Rightarrow>
           (\<lparr>tres_test = name, tres_status = st, tres_row_count = rows, tres_query_id = query,
             tres_failure = f, tres_duration_ms = tw_duration w (ct_id t)\<rparr>,
            [TestStarted name, TestFinished name st rows query])))"

fun run_test_list ::
    "store option \<Rightarrow> string \<Rightarrow> (compiled_test \<Rightarrow> test_result \<times> engine_event list) \<Rightarrow> test_world
       \<Rightarrow> compiled_test list \<Rightarrow> engine_error + (test_result list \<times> engine_event list)" where
  "run_test_list st run_id run w [] = Inr ([], [])"
| "run_test_list st run_id run w (t # ts) =
     (case run t of (r, events) \<Rightarrow>
       (case write_with wr_test st (test_record (tw_now w (ct_id t)) run_id r) of
          Some e \<Rightarrow> Inl e
        | None \<Rightarrow>
            (case run_test_list st run_id run w ts of
               Inl e \<Rightarrow> Inl e
             | Inr (rs, rest) \<Rightarrow> Inr (r # rs, events @ rest))))"

definition run_tests ::
    "store option \<Rightarrow> string \<Rightarrow> bool \<Rightarrow> compilation \<Rightarrow> string \<Rightarrow> plan \<Rightarrow> (model_id \<rightharpoonup> execution_status)
       \<Rightarrow> string list \<Rightarrow> bool \<Rightarrow> test_world \<Rightarrow> engine_error + (test_result list \<times> engine_event list)" where
  "run_tests st run_id wanted c adapter p status failed stopped w =
     (if \<not> wanted then Inr ([], [])
      else run_test_list st run_id (run_test c adapter status failed stopped w) w
             (filter (\<lambda>t. tid_name (ct_id t) \<in> set (map pt_id (pl_tests p))) (cp_tests c)))"

text \<open>The standalone loop behind the \<^verbatim>\<open>test\<close> command.\<close>

record test_outcome =
  tout_test :: string
  tout_status :: execution_status
  tout_row_count :: "64 word"
  tout_error :: "string option"

definition covered_by :: "string list option \<Rightarrow> compiled_test \<Rightarrow> bool" where
  "covered_by members t \<longleftrightarrow>
     (case members of
        None \<Rightarrow> True
      | Some ms \<Rightarrow> ct_targets t \<noteq> [] \<and> list_all (\<lambda>i. logical_name i \<in> set ms) (ct_targets t))"

definition test_outcome_of :: "(string \<Rightarrow> adapter_error + query_result) \<Rightarrow> compiled_test \<Rightarrow> test_outcome" where
  "test_outcome_of execute t =
     (case (case execute (ct_compiled_sql t) of
              Inr q \<Rightarrow> if qr_row_count q = 0 then (Passed, 0, None)
                       else (Failed, qr_row_count q, Some (rows_text (qr_row_count q)))
            | Inl e \<Rightarrow> (Failed, 0, Some (adapter_error_text e))) of (st, rows, err) \<Rightarrow>
        \<lparr>tout_test = tid_name (ct_id t), tout_status = st, tout_row_count = rows, tout_error = err\<rparr>)"

text \<open>The handle is read before each test, so cancellation is a function of the test reached.\<close>

fun execute_tests ::
    "(string \<Rightarrow> adapter_error + query_result) \<Rightarrow> string list option \<Rightarrow> (test_id \<Rightarrow> bool)
       \<Rightarrow> compiled_test list \<Rightarrow> test_outcome list" where
  "execute_tests execute members cancelled [] = []"
| "execute_tests execute members cancelled (t # ts) =
     (if cancelled (ct_id t) then []
      else if \<not> covered_by members t then execute_tests execute members cancelled ts
      else test_outcome_of execute t # execute_tests execute members cancelled ts)"

section \<open>The contract of the attempts\<close>

text \<open>
  What a retry loop promises of the attempts it made from attempt \<open>n\<close> on and of the failure it ended
  with: they are numbered consecutively, every one but the last failed in a way the policy retries, and
  the last decides the outcome.
\<close>

fun attempts_from :: "retry_policy \<Rightarrow> 32 word \<Rightarrow> attempt list \<Rightarrow> failure option \<Rightarrow> bool" where
  "attempts_from p n [] f = False"
| "attempts_from p n [a] f = (at_attempt a = n \<and> at_failure a = f)"
| "attempts_from p n (a # b # as) f =
     (at_attempt a = n \<and> (case at_failure a of Some g \<Rightarrow> should_retry p g n | None \<Rightarrow> False) \<and>
      attempts_from p (n + 1) (b # as) f)"

lemma attempts_from_Cons:
  "attempts_from p (n + 1) as f \<Longrightarrow> at_attempt a = n \<Longrightarrow> at_failure a = Some g \<Longrightarrow> should_retry p g n \<Longrightarrow>
     attempts_from p n (a # as) f"
  by (cases as) auto

lemma should_retry_next: "should_retry p f n \<Longrightarrow> unat (n + 1) = unat n + 1 \<and> unat n < unat (max_attempts p)"
proof -
  assume "should_retry p f n"
  then have lt: "unat n < unat (max_attempts p)" by (simp add: should_retry_def word_less_nat_alt)
  then have "unat n + 1 < 2 ^ LENGTH(32)" using unat_less [of "max_attempts p"] by simp
  with lt show ?thesis using unat_add_lem [of n 1] by simp
qed

lemma attempts_from_length:
  "attempts_from p n as f \<Longrightarrow> length as \<le> max 1 (unat (max_attempts p) + 1 - unat n)"
proof (induction p n as f rule: attempts_from.induct)
  case (3 p n a b as f)
  then obtain g where "should_retry p g n" by (auto split: option.splits)
  with 3 show ?case using should_retry_next [of p g n] by (auto split: option.splits)
qed auto

lemma attempts_from_numbers:
  "attempts_from p n as f \<Longrightarrow> map at_attempt as = map (\<lambda>k. n + of_nat k) [0..<length as]"
proof (induction p n as f rule: attempts_from.induct)
  case (3 p n a b as f)
  have "map (\<lambda>k. n + of_nat k) [0..<length (a # b # as)] =
      n # map (\<lambda>k. n + of_nat (Suc k)) [0..<length (b # as)]"
    by (simp add: upt_conv_Cons map_Suc_upt [symmetric] del: upt_Suc)
  moreover have "map at_attempt (b # as) = map (\<lambda>k. n + of_nat (Suc k)) [0..<length (b # as)]"
    using 3 by (simp add: add.assoc del: upt_Suc)
  ultimately show ?case using 3(2) by simp
qed auto

text \<open>What one iteration of the model loop leaves, by its three ways out.\<close>

definition failed_attempt :: "attempt_world \<Rightarrow> 32 word \<Rightarrow> failure \<Rightarrow> attempt" where
  "failed_attempt w n f = attempt_of w n None (Some f)"

definition outcome_failure :: "failure + query_result \<Rightarrow> failure option" where
  "outcome_failure r = (case r of Inl f \<Rightarrow> Some f | Inr _ \<Rightarrow> None)"

lemma attempt_of_simps [simp]:
  "at_attempt (attempt_of w n q f) = n" "at_failure (attempt_of w n q f) = f"
  by (simp_all add: attempt_of_def)

definition task_shape ::
    "retry_policy \<Rightarrow> store option \<Rightarrow> model_task \<Rightarrow> 32 word \<Rightarrow> attempt list \<Rightarrow> task_log \<Rightarrow> attempt list \<Rightarrow> bool" where
  "task_shape p st t n done log as \<longleftrightarrow>
     co_attempts (lg_completion log) = done @ as \<and>
     attempts_from p n as (outcome_failure (co_outcome (lg_completion log))) \<and>
     co_id (lg_completion log) = tk_id t \<and>
     length (lg_retries log) + 1 = length as \<and>
     map mrr_attempts (lg_writes log) =
       (if st = None then []
        else map (\<lambda>k. tk_prior_attempts t @ done @ take (Suc k) as)
               [0..<length (filter (\<lambda>a. at_failure a \<noteq> None) as)])"

lemma task_shape_stop:
  assumes "co_attempts (lg_completion log) = done @ [a]" "co_outcome (lg_completion log) = Inl f"
    "co_id (lg_completion log) = tk_id t" "lg_retries log = []"
    "lg_writes log = (case st of None \<Rightarrow> [] | Some _ \<Rightarrow> [progress_record t (done @ [a]) f])"
    "at_attempt a = n" "at_failure a = Some f"
  shows "task_shape p st t n done log [a]"
  using assms by (auto simp: task_shape_def outcome_failure_def progress_record_def split: option.splits)

lemma task_shape_retry:
  assumes "task_shape p st t (n + 1) (done @ [a]) log as"
    "at_attempt a = n" "at_failure a = Some f" "should_retry p f n"
  shows "task_shape p st t n done
    (log\<lparr>lg_retries := e # lg_retries log,
         lg_writes := (case st of None \<Rightarrow> [] | Some _ \<Rightarrow> [progress_record t (done @ [a]) f]) @ lg_writes log\<rparr>)
    (a # as)"
proof -
  have "map (\<lambda>k. tk_prior_attempts t @ done @ take (Suc k) (a # as)) [0..<Suc m] =
      (tk_prior_attempts t @ done @ [a]) #
      map (\<lambda>k. tk_prior_attempts t @ (done @ [a]) @ take (Suc k) as) [0..<m]" for m
    by (simp add: upt_conv_Cons map_Suc_upt [symmetric] del: upt_Suc)
  moreover have "attempts_from p n (a # as) (outcome_failure (co_outcome (lg_completion log)))"
    using assms by (intro attempts_from_Cons) (simp_all add: task_shape_def)
  ultimately show ?thesis
    using assms(1,3) by (simp add: task_shape_def progress_record_def split: option.splits)
qed

lemma model_attempts_shape: "\<exists>as. task_shape p st t n done (model_attempts p w st t n done) as"
proof (induction p w st t n "done" rule: model_attempts.induct)
  case (1 p w st t n "done")
  let ?log = "model_attempts p w st t n done"
  note unfold = model_attempts.simps [of p w st t n "done"]
  show ?case
  proof (cases "attempt_result w n")
    case (Inr q)
    then have "task_shape p st t n done ?log [attempt_of w n (qr_query_id q) None]"
      by (simp add: unfold complete_def outcome_failure_def task_shape_def)
    then show ?thesis ..
  next
    case (Inl f)
    let ?a = "attempt_of w n None (Some f)"
    let ?e = "progress_record t (done @ [?a]) f"
    consider (lost) e where "write_with wr_model st ?e = Some e"
      | (stop) "write_with wr_model st ?e = None" "\<not> retries p w f n"
      | (retry) "write_with wr_model st ?e = None" "retries p w f n"
      by (cases "write_with wr_model st ?e") auto
    then show ?thesis
    proof cases
      case lost
      have "task_shape p st t n done ?log [?a]"
        by (rule task_shape_stop) (simp_all add: unfold Inl lost Let_def complete_def)
      then show ?thesis ..
    next
      case stop
      have "task_shape p st t n done ?log [?a]"
        by (rule task_shape_stop) (simp_all add: unfold Inl stop Let_def complete_def)
      then show ?thesis ..
    next
      case retry
      obtain as where "task_shape p st t (n + 1) (done @ [?a]) (model_attempts p w st t (n + 1) (done @ [?a])) as"
        using 1 [OF Inl refl refl refl retry] by blast
      then have "task_shape p st t n done ?log (?a # as)"
        using task_shape_retry [of p st t n "done" ?a _ as f] retry
        by (simp add: unfold Inl Let_def retries_def)
      then show ?thesis ..
    qed
  qed
qed

lemma map_sum_Inl: "map_sum f g x = Inl e \<longleftrightarrow> (\<exists>a. x = Inl a \<and> f a = e)"
  by (cases x) auto

definition seed_shape ::
    "retry_policy \<Rightarrow> 32 word \<Rightarrow> attempt list
       \<Rightarrow> seed_result \<times> engine_event list \<times> seed_run_record list \<Rightarrow> attempt list \<Rightarrow> bool" where
  "seed_shape p n done out as \<longleftrightarrow>
     sres_attempts (fst out) = done @ as \<and> attempts_from p n as (sres_failure (fst out)) \<and>
     sres_status (fst out) = (if sres_failure (fst out) = None then Passed else Failed) \<and>
     srr_status (last (snd (snd out))) = sres_status (fst out) \<and>
     srr_attempts (last (snd (snd out))) = sres_attempts (fst out)"

lemma seed_run_record_simps [simp]:
  "srr_status (seed_run_record_of run_id r started finished) = sres_status r"
  "srr_attempts (seed_run_record_of run_id r started finished) = sres_attempts r"
  by (simp_all add: seed_run_record_of_def)

lemma seed_attempts_shape:
  assumes "seed_attempts p w st run_id ps target started n done = Inr out"
  shows "\<exists>as. seed_shape p n done out as \<and> snd (snd out) \<noteq> []"
  using assms
proof (induction p w st run_id ps target started n "done" arbitrary: out rule: seed_attempts.induct)
  case (1 p w st run_id ps target started n "done")
  note unfold = seed_attempts.simps [of p w st run_id ps target started n "done"]
  show ?case
  proof (cases "attempt_result w n")
    case (Inr q)
    then have "seed_shape p n done out [attempt_of w n (qr_query_id q) None] \<and> snd (snd out) \<noteq> []"
      using 1(2) by (auto simp: unfold Let_def seed_shape_def split: option.splits)
    then show ?thesis ..
  next
    case (Inl f)
    let ?a = "attempt_of w n None (Some f)"
    let ?r = "\<lambda>s. \<lparr>sres_seed = ps_name ps, sres_target = target, sres_status = s,
      sres_attempts = done @ [?a], sres_failure = Some f, sres_duration_ms = aw_elapsed w n\<rparr>"
    have wrote: "write_with wr_seed st (seed_run_record_of run_id (?r Running) started (aw_ended w n)) = None"
      using 1(2) Inl by (cases "write_with wr_seed st
          (seed_run_record_of run_id (?r Running) started (aw_ended w n))") (auto simp: unfold Let_def)
    show ?thesis
    proof (cases "retries p w f n")
      case False
      then have "seed_shape p n done out [?a] \<and> snd (snd out) \<noteq> []"
        using 1(2) Inl wrote by (auto simp: unfold Let_def seed_shape_def split: option.splits)
      then show ?thesis ..
    next
      case True
      with 1(2) Inl wrote obtain r events writes where
        rec: "seed_attempts p w st run_id ps target started (n + 1) (done @ [?a]) = Inr (r, events, writes)"
        and out: "fst out = r" "last (snd (snd out)) = (if writes = [] then hd (snd (snd out)) else last writes)"
          "snd (snd out) \<noteq> []"
        by (cases "seed_attempts p w st run_id ps target started (n + 1) (done @ [?a])")
           (auto simp: unfold Let_def)
      obtain as where as: "seed_shape p (n + 1) (done @ [?a]) (r, events, writes) as" "writes \<noteq> []"
        using 1(1) [OF Inl refl refl refl refl wrote True rec] by auto
      have "attempts_from p n (?a # as) (sres_failure r)"
        using as(1) True by (intro attempts_from_Cons) (auto simp: seed_shape_def retries_def)
      with as out have "seed_shape p n done out (?a # as) \<and> snd (snd out) \<noteq> []"
        by (simp add: seed_shape_def)
      then show ?thesis ..
    qed
  qed
qed

section \<open>Properties\<close>

text \<open>
  Property C29. A model task's attempts are bounded and tell its outcome: they are numbered from the
  first attempt on without a gap, every one but the last failed in a way the policy retries, the
  last one failed exactly when the task did, and there are at most as many as the policy has left (one
  at least), each retry having been announced.
\<close>

theorem model_attempts_bounded:
  "let log = run_model_task p w st t; c = lg_completion log; as = co_attempts c; n = first_attempt t
   in attempts_from p n as (outcome_failure (co_outcome c)) \<and>
      map at_attempt as = map (\<lambda>k. n + of_nat k) [0..<length as] \<and>
      length as \<le> max 1 (unat (max_attempts p) + 1 - unat n) \<and>
      length (lg_retries log) + 1 = length as \<and> co_id c = tk_id t"
proof -
  obtain as where "task_shape p st t (first_attempt t) [] (run_model_task p w st t) as"
    using model_attempts_shape unfolding run_model_task_def by blast
  then show ?thesis
    using attempts_from_length attempts_from_numbers
    by (fastforce simp: Let_def task_shape_def)
qed

text \<open>
  No attempt is lost to a crash: after every failed attempt, before any backoff, the
  store is given a record holding the attempts of the earlier invocations followed by every attempt made so
  far, and nothing else is written by the task.
\<close>

theorem attempts_recorded_as_they_land:
  "let log = run_model_task p w st t; as = co_attempts (lg_completion log)
   in map mrr_attempts (lg_writes log) =
        (if st = None then []
         else map (\<lambda>k. tk_prior_attempts t @ take (Suc k) as)
                [0..<length (filter (\<lambda>a. at_failure a \<noteq> None) as)])"
proof -
  obtain as where "task_shape p st t (first_attempt t) [] (run_model_task p w st t) as"
    using model_attempts_shape unfolding run_model_task_def by blast
  then show ?thesis by (simp add: Let_def task_shape_def)
qed

text \<open>
  Property C30. A seed load that the store follows ends with a result: at most as many attempts as the
  policy allows, numbered from one, the last deciding between passed and failed, and that result is the
  last record written.
\<close>

theorem seed_load_ends:
  "case run_seed p w st run_id ps r started of
     Inl e \<Rightarrow> st \<noteq> None
   | Inr (result, events, writes) \<Rightarrow>
       attempts_from p 1 (sres_attempts result) (sres_failure result) \<and>
       length (sres_attempts result) \<le> max 1 (unat (max_attempts p)) \<and>
       sres_status result = (if sres_failure result = None then Passed else Failed) \<and>
       (srr_status (last writes), srr_attempts (last writes)) = (sres_status result, sres_attempts result)"
proof -
  have "st \<noteq> None" if "seed_attempts p w st run_id ps t started n done = Inl e" for t n "done" e
    using that
  proof (induction p w st run_id ps t started n "done" rule: seed_attempts.induct)
    case (1 p w st run_id ps t started n "done")
    show ?case
    proof
      assume "st = None"
      with 1(2) have "\<exists>f. attempt_result w n = Inl f \<and> retries p w f n \<and>
          seed_attempts p w st run_id ps t started (n + 1) (done @ [attempt_of w n None (Some f)]) = Inl e"
        by (auto simp: seed_attempts.simps [of p w _ run_id ps t started n "done"] Let_def write_with_def
            map_sum_Inl split: sum.splits if_splits)
      then obtain f where f: "attempt_result w n = Inl f" "retries p w f n"
        "seed_attempts p w st run_id ps t started (n + 1) (done @ [attempt_of w n None (Some f)]) = Inl e"
        by blast
      show False
        using 1(1) [OF f(1) refl refl refl refl _ f(2,3)] \<open>st = None\<close> by (simp add: write_with_def)
    qed
  qed
  moreover have "attempts_from p 1 (sres_attempts (fst out)) (sres_failure (fst out)) \<and>
      length (sres_attempts (fst out)) \<le> max 1 (unat (max_attempts p)) \<and>
      sres_status (fst out) = (if sres_failure (fst out) = None then Passed else Failed) \<and>
      (srr_status (last (snd (snd out))), srr_attempts (last (snd (snd out)))) =
        (sres_status (fst out), sres_attempts (fst out))"
    if h: "run_seed p w st run_id ps r started = Inr out" for out
  proof -
    obtain as where as: "seed_shape p 1 [] out as"
      using seed_attempts_shape [OF h [unfolded run_seed_def]] by blast
    moreover have "length as \<le> max 1 (unat (max_attempts p))"
      using attempts_from_length [of p 1 as "sres_failure (fst out)"] as by (simp add: seed_shape_def)
    ultimately show ?thesis by (auto simp: seed_shape_def seed_run_record_of_def)
  qed
  ultimately show ?thesis
    by (cases "run_seed p w st run_id ps r started") (auto simp: run_seed_def)
qed

lemma run_test_list_Inr:
  "run_test_list st run_id run w ts = Inr (rs, events) \<Longrightarrow>
     rs = map (\<lambda>t. fst (run t)) ts \<and> events = concat (map (\<lambda>t. snd (run t)) ts)"
  by (induction ts arbitrary: rs events) (auto split: prod.splits option.splits sum.splits)

lemma run_test_name [simp]: "tres_test (fst (run_test c adapter status failed stopped w t)) = tid_name (ct_id t)"
  by (auto simp: run_test_def unrun_test_def Let_def split: prod.split)

lemma run_test_passed:
  "tres_status (fst (run_test c adapter status failed stopped w t)) = Passed \<longleftrightarrow>
     \<not> stopped \<and> \<not> tw_cancelled w (ct_id t) \<and>
     (\<forall>i \<in> set (ct_targets t). is_satisfied (status_or_default status i)) \<and>
     (\<forall>s \<in> set (ct_sources t). \<not> reads_failed_seed c adapter failed s) \<and>
     (\<exists>q. tw_end w (ct_id t) = AttemptOk q \<and> qr_row_count q = 0)"
proof -
  have "missing_targets status t = [] \<longleftrightarrow> (\<forall>i \<in> set (ct_targets t). is_satisfied (status_or_default status i))"
    "bad_sources c adapter failed t = [] \<longleftrightarrow> (\<forall>s \<in> set (ct_sources t). \<not> reads_failed_seed c adapter failed s)"
    by (auto simp: missing_targets_def bad_sources_def filter_empty_conv)
  then show ?thesis
    by (auto simp: run_test_def unrun_test_def test_verdict_def Let_def split: attempt_end.splits)
qed

text \<open>
  Property C31. The tests of a run: every planned test gets exactly one result, in the order of the
  compilation, and it passes exactly when the run was not stopped, every model it targets was satisfied
  in this run, no seed it reads failed to load, and the query ran and returned no rows.
\<close>

theorem tests_pass_only_on_ready_data:
  "case run_tests st run_id True c adapter p status failed stopped w of
     Inl e \<Rightarrow> st \<noteq> None
   | Inr (results, events) \<Rightarrow>
       (let tests = filter (\<lambda>t. tid_name (ct_id t) \<in> set (map pt_id (pl_tests p))) (cp_tests c)
        in map tres_test results = map (\<lambda>t. tid_name (ct_id t)) tests \<and>
           map (\<lambda>r. tres_status r = Passed) results =
             map (\<lambda>t. \<not> stopped \<and> \<not> tw_cancelled w (ct_id t) \<and>
                set (ct_targets t) \<subseteq> {i. is_satisfied (status_or_default status i)} \<and>
                set (ct_sources t) \<inter> {s. reads_failed_seed c adapter failed s} = {} \<and>
                (\<exists>q. tw_end w (ct_id t) = AttemptOk q \<and> qr_row_count q = 0)) tests)"
proof -
  have "st \<noteq> None" if "run_test_list st run_id run w ts = Inl e" for run ts e
    using that by (induction ts) (auto simp: write_with_def split: prod.splits option.splits sum.splits)
  moreover have "map tres_test rs = map (\<lambda>t. tid_name (ct_id t)) ts \<and>
      map (\<lambda>r. tres_status r = Passed) rs = map (\<lambda>t. \<not> stopped \<and> \<not> tw_cancelled w (ct_id t) \<and>
                set (ct_targets t) \<subseteq> {i. is_satisfied (status_or_default status i)} \<and>
                set (ct_sources t) \<inter> {s. reads_failed_seed c adapter failed s} = {} \<and>
                (\<exists>q. tw_end w (ct_id t) = AttemptOk q \<and> qr_row_count q = 0)) ts"
    if "run_test_list st run_id (run_test c adapter status failed stopped w) w ts = Inr (rs, events)" for ts rs events
    using run_test_list_Inr [OF that] by (simp add: run_test_passed Ball_def subset_eq disjoint_iff)
  ultimately show ?thesis
    by (cases "run_tests st run_id True c adapter p status failed stopped w")
       (auto simp: run_tests_def Let_def)
qed

end
