(* ===== verification/Schedule.thy ===== *)
theory Schedule
  imports Exec
begin

text \<open>
  The scheduler, \<open>Runner::execute\<close> of \<^verbatim>\<open>phlo-transform-engine/src/run.rs\<close>: the bookkeeping of the
  planned models, the phases that settle models without running them (reuse of an earlier pass, cache
  adoption, skips, failed seeds), the loop that starts models as their dependencies finish, and
  the final sweep. The loop is a step relation: which task finishes next, and when a cancellation is
  noticed, is up to the environment. A handler ends in \<open>Inl\<close> when it ends the run, with an
  error of the state store or a panic. The retries a task announces are appended when it is joined.
\<close>

section \<open>The context of a run\<close>

record run_context =
  rx_compilation :: compilation
  rx_plan :: plan
  rx_run_id :: string
  rx_environment :: "string option"
  rx_concurrency :: nat
  rx_fail_fast :: bool
  rx_retry :: retry_policy
  rx_adapter :: string
  rx_sha :: "string \<Rightarrow> string"
  rx_store :: "store option"
  rx_prior_models :: "string \<rightharpoonup> model_run_record"
  rx_clock :: "model_id \<Rightarrow> string"
  rx_identity_before :: "relation \<Rightarrow> string option"
  rx_identity_built :: "relation \<Rightarrow> string option"
  rx_query :: "string \<Rightarrow> adapter_error + query_result"
  rx_world :: "model_id \<Rightarrow> attempt_world"

datatype run_end = RunError engine_error | RunPanic

definition parsed_id :: "planned_model \<Rightarrow> model_id option" where
  "parsed_id m = (case model_id_parse (pm_id m) of Inr i \<Rightarrow> Some i | Inl _ \<Rightarrow> None)"

definition planned_of :: "plan \<Rightarrow> model_id list" where
  "planned_of p = List.map_filter parsed_id (pl_models p)"

definition planned_ids :: "run_context \<Rightarrow> model_id list" where
  "planned_ids cx = planned_of (rx_plan cx)"

text \<open>Collected into a map, so that a repeated identity keeps its last entry.\<close>

definition plan_info :: "run_context \<Rightarrow> model_id \<rightharpoonup> planned_model" where
  "plan_info cx =
     map_of (rev (List.map_filter (\<lambda>m. map_option (\<lambda>i. (i, m)) (parsed_id m)) (pl_models (rx_plan cx))))"

definition planned_deps :: "run_context \<Rightarrow> model_id \<Rightarrow> model_id list" where
  "planned_deps cx i =
     (case compilation_model (rx_compilation cx) i of
        Some m \<Rightarrow> filter (\<lambda>d. d \<in> set (planned_ids cx)) (model_dependencies m)
      | None \<Rightarrow> [])"

text \<open>The sorted list under a model in \<open>dependents\<close>: a planned model once per dependency on it.\<close>

definition dependents_of :: "run_context \<Rightarrow> model_id \<Rightarrow> model_id list" where
  "dependents_of cx i =
     sort (concat (map (\<lambda>j. replicate (count_list (planned_deps cx j) i) j) (planned_ids cx)))"

definition concurrency :: "run_context \<Rightarrow> nat" where
  "concurrency cx = max (rx_concurrency cx) 1"

section \<open>The state of a run\<close>

record sched =
  sc_status :: "model_id \<rightharpoonup> execution_status"
  sc_remaining :: "model_id \<rightharpoonup> nat"
  sc_results :: "(model_id \<times> model_result) list"
  sc_info :: "model_id \<rightharpoonup> planned_model"
  sc_ready :: "model_id list"
  sc_running :: "model_task list"
  sc_cancelled :: bool
  sc_fail_fast :: bool
  sc_events :: "engine_event list"
  sc_writes :: "model_run_record list"
  sc_materialized :: "materialized_record list"
  sc_watermarks :: "(string \<times> string) list"

definition initial_sched :: "run_context \<Rightarrow> bool \<Rightarrow> bool \<Rightarrow> engine_event list \<Rightarrow> sched" where
  "initial_sched cx cancelled fail_fast events =
     \<lparr>sc_status = map_of (map (\<lambda>i. (i, Pending)) (planned_ids cx)),
      sc_remaining = map_of (map (\<lambda>i. (i, length (planned_deps cx i))) (planned_ids cx)),
      sc_results = [], sc_info = plan_info cx, sc_ready = [], sc_running = [],
      sc_cancelled = cancelled, sc_fail_fast = fail_fast, sc_events = events, sc_writes = [],
      sc_materialized = [], sc_watermarks = []\<rparr>"

definition stopped :: "sched \<Rightarrow> bool" where
  "stopped s \<longleftrightarrow> sc_cancelled s \<or> sc_fail_fast s"

definition then_run :: "run_end + 'a \<Rightarrow> ('a \<Rightarrow> run_end + 'b) \<Rightarrow> run_end + 'b" where
  "then_run r f = (case r of Inl e \<Rightarrow> Inl e | Inr a \<Rightarrow> f a)"

fun fold_run :: "('a \<Rightarrow> 's \<Rightarrow> run_end + 's) \<Rightarrow> 'a list \<Rightarrow> 's \<Rightarrow> run_end + 's" where
  "fold_run f [] s = Inr s"
| "fold_run f (x # xs) s = then_run (f x s) (fold_run f xs)"

definition set_status :: "model_id \<Rightarrow> execution_status \<Rightarrow> sched \<Rightarrow> sched" where
  "set_status i st s = s\<lparr>sc_status := (sc_status s)(i \<mapsto> st)\<rparr>"

definition emit :: "engine_event list \<Rightarrow> sched \<Rightarrow> sched" where
  "emit es s = s\<lparr>sc_events := sc_events s @ es\<rparr>"

definition put_result :: "model_id \<Rightarrow> model_result \<Rightarrow> sched \<Rightarrow> sched" where
  "put_result i r s = s\<lparr>sc_results := bm_insert i r (sc_results s)\<rparr>"

definition logged :: "run_context \<Rightarrow> 'a \<Rightarrow> 'a list" where
  "logged cx x = (case rx_store cx of None \<Rightarrow> [] | Some _ \<Rightarrow> [x])"

definition persist_record :: "run_context \<Rightarrow> model_run_record \<Rightarrow> sched \<Rightarrow> run_end + sched" where
  "persist_record cx entry s =
     (case write_with wr_model (rx_store cx) entry of
        Some e \<Rightarrow> Inl (RunError e)
      | None \<Rightarrow> Inr (s\<lparr>sc_writes := sc_writes s @ logged cx entry\<rparr>))"

definition persist_model :: "run_context \<Rightarrow> model_result \<Rightarrow> sched \<Rightarrow> run_end + sched" where
  "persist_model cx r s = persist_record cx (model_record (rx_run_id cx) r) s"

definition finished_event :: "model_id \<Rightarrow> execution_status \<Rightarrow> engine_event" where
  "finished_event i st = ModelFinished (logical_name i) st None 0"

text \<open>The result of a model that did not run, with the plan's reasons for it.\<close>

definition idle_result :: "run_context \<Rightarrow> sched \<Rightarrow> compiled_model \<Rightarrow> model_id \<Rightarrow> execution_status \<Rightarrow> model_result" where
  "idle_result cx s m i st = model_result_of (rx_sha cx) m st [] None None 0 (sc_info s i)"

definition add_reason :: "string \<Rightarrow> model_result \<Rightarrow> model_result" where
  "add_reason text r = r\<lparr>mres_reasons := mres_reasons r @ [text]\<rparr>"

section \<open>Dependents\<close>

definition release_one :: "model_id \<Rightarrow> (model_id \<rightharpoonup> nat) \<Rightarrow> (model_id \<rightharpoonup> nat)" where
  "release_one child r = (case r child of Some n \<Rightarrow> r(child \<mapsto> n - 1) | None \<Rightarrow> r)"

definition release_dependents :: "run_context \<Rightarrow> model_id \<Rightarrow> sched \<Rightarrow> sched" where
  "release_dependents cx i s = s\<lparr>sc_remaining := fold release_one (dependents_of cx i) (sc_remaining s)\<rparr>"

definition mark_blocked :: "run_context \<Rightarrow> model_id \<Rightarrow> model_id \<Rightarrow> sched \<Rightarrow> sched" where
  "mark_blocked cx cause child s =
     (let s = set_status child Blocked s
      in case compilation_model (rx_compilation cx) child of
           None \<Rightarrow> s
         | Some m \<Rightarrow>
             put_result child
               (with_failure (without_attempt (rx_clock cx child) DependencyFailure
                    (''upstream '' @ logical_name cause @ '' failed''))
                  (idle_result cx s m child Blocked))
               (emit [finished_event child Blocked] s))"

lemma mark_blocked_status [simp]: "sc_status (mark_blocked cx cause child s) = (sc_status s)(child \<mapsto> Blocked)"
  by (simp add: mark_blocked_def set_status_def put_result_def emit_def Let_def split: option.split)

lemma dependents_planned: "set (dependents_of cx i) \<subseteq> set (planned_ids cx)"
  by (auto simp: dependents_of_def)

definition settled :: "(model_id \<rightharpoonup> execution_status) \<Rightarrow> model_id \<Rightarrow> bool" where
  "settled status i \<longleftrightarrow> is_terminal (status_or_default status i)"

text \<open>
  The recursion of \<open>block_dependents\<close> with its call stack as a work list: pairs of a blocked (or failed)
  model and a dependent of it still to visit, depth first. The first component is what the calls return.
\<close>

function block_list ::
    "run_context \<Rightarrow> (model_id \<times> model_id) list \<Rightarrow> sched \<Rightarrow> model_id list \<times> sched" where
  "block_list cx [] s = ([], s)"
| "block_list cx ((cause, child) # rest) s =
     (if settled (sc_status s) child then block_list cx rest s
      else (case block_list cx (map (Pair child) (dependents_of cx child) @ rest)
                   (mark_blocked cx cause child s) of
              (blocked, s') \<Rightarrow> (child # blocked, s')))"
  by pat_completeness auto

definition open_nodes :: "run_context \<Rightarrow> (model_id \<times> model_id) list \<Rightarrow> sched \<Rightarrow> model_id set" where
  "open_nodes cx work s = {i \<in> set (planned_ids cx) \<union> snd ` set work. \<not> settled (sc_status s) i}"

lemma open_nodes_finite: "finite (open_nodes cx work s)"
  by (simp add: open_nodes_def)

lemma open_nodes_decrease:
  assumes "\<not> settled (sc_status s) child"
  shows "open_nodes cx (map (Pair child) (dependents_of cx child) @ rest) (mark_blocked cx cause child s)
     \<subset> open_nodes cx ((cause, child) # rest) s"
proof -
  have new: "settled (sc_status (mark_blocked cx cause child s)) j \<longleftrightarrow>
      j = child \<or> settled (sc_status s) j" for j
    by (auto simp: settled_def status_or_default_def is_terminal_def)
  have sub: "open_nodes cx (map (Pair child) (dependents_of cx child) @ rest) (mark_blocked cx cause child s)
      \<subseteq> open_nodes cx ((cause, child) # rest) s"
    using dependents_planned [of cx child] unfolding open_nodes_def new by auto
  have "child \<in> open_nodes cx ((cause, child) # rest) s"
    using assms by (simp add: open_nodes_def)
  moreover have "child \<notin> open_nodes cx (map (Pair child) (dependents_of cx child) @ rest)
      (mark_blocked cx cause child s)"
    unfolding open_nodes_def new by simp
  ultimately show ?thesis using sub by blast
qed

lemma open_nodes_shrink: "card (open_nodes cx rest s) \<le> card (open_nodes cx (x # rest) s)"
  by (rule card_mono [OF open_nodes_finite]) (auto simp: open_nodes_def)

termination block_list
  by (relation "measures [\<lambda>(cx, work, s). card (open_nodes cx work s), \<lambda>(cx, work, s). length work]")
     (auto intro!: psubset_card_mono [OF open_nodes_finite] open_nodes_decrease
       simp: order.order_iff_strict [symmetric] dest: le_neq_implies_less
       intro: open_nodes_shrink)

definition persist_blocked :: "run_context \<Rightarrow> model_id list \<Rightarrow> sched \<Rightarrow> run_end + sched" where
  "persist_blocked cx =
     fold_run (\<lambda>child s. case map_of (sc_results s) child of
                            Some r \<Rightarrow> persist_model cx r s
                          | None \<Rightarrow> Inr s)"

definition block_dependents :: "run_context \<Rightarrow> model_id \<Rightarrow> sched \<Rightarrow> run_end + sched" where
  "block_dependents cx i s =
     (case block_list cx (map (Pair i) (dependents_of cx i)) s of
        (blocked, s') \<Rightarrow> persist_blocked cx blocked s')"

section \<open>Settling models without running them\<close>

definition reusable_model ::
    "(string \<rightharpoonup> model_run_record) \<Rightarrow> model_id \<Rightarrow> string \<Rightarrow> model_run_record option" where
  "reusable_model prior i desired =
     (case prior (logical_name i) of
        Some r \<Rightarrow> if mrr_status r = Passed \<and> mrr_desired_version r = desired then Some r else None
      | None \<Rightarrow> None)"

definition planned_exists :: "sched \<Rightarrow> model_id \<Rightarrow> bool" where
  "planned_exists s i = (case sc_info s i of Some p \<Rightarrow> pm_exists p | None \<Rightarrow> False)"

text \<open>A pass of an earlier invocation of this run is carried over.\<close>

definition reuse_prior :: "run_context \<Rightarrow> model_id \<Rightarrow> sched \<Rightarrow> sched" where
  "reuse_prior cx i s =
     (case compilation_model (rx_compilation cx) i of
        None \<Rightarrow> s
      | Some m \<Rightarrow>
          if planned_exists s i \<and> reusable_model (rx_prior_models cx) i (mv_hash (cm_version m)) \<noteq> None
          then release_dependents cx i
                 (put_result i (add_reason ''reused from earlier in this run'' (idle_result cx s m i CachedStatus))
                   (emit [finished_event i CachedStatus] (set_status i CachedStatus s)))
          else s)"

definition planned_action :: "sched \<Rightarrow> model_id \<Rightarrow> plan_action" where
  "planned_action s i = (case sc_info s i of Some p \<Rightarrow> pm_action p | None \<Rightarrow> Build)"

definition planned_reuse :: "sched \<Rightarrow> model_id \<Rightarrow> cache_source option" where
  "planned_reuse s i = Option.bind (sc_info s i) pm_reuse"

definition live_identity :: "run_context \<Rightarrow> model_id \<Rightarrow> string option" where
  "live_identity cx i =
     Option.bind (compilation_model (rx_compilation cx) i) (\<lambda>m. rx_identity_before cx (cm_target m))"

definition adoptable :: "run_context \<Rightarrow> sched \<Rightarrow> model_id \<Rightarrow> bool" where
  "adoptable cx s i =
     (case planned_reuse s i of
        Some reuse \<Rightarrow> live_identity cx i = Some (cas_output_identity reuse)
      | None \<Rightarrow> False)"

definition stale_text :: "planned_model \<Rightarrow> string option \<Rightarrow> string" where
  "stale_text p live =
     (if pm_reuse p = None
      then ''cache reuse has no recorded source; building '' @ pm_target p @ '' instead''
      else (case live of
              Some l \<Rightarrow> ''cache evidence stale at run time: '' @ pm_target p @ '' now reports `'' @ l @
                          ''`; building instead''
            | None \<Rightarrow> ''cache evidence stale at run time: '' @ pm_target p @
                          '' has no verifiable output identity; building instead''))"

text \<open>Evidence that no longer holds turns the adoption back into a full rebuild.\<close>

definition fall_back :: "run_context \<Rightarrow> model_id \<Rightarrow> sched \<Rightarrow> sched" where
  "fall_back cx i s =
     (case sc_info s i of
        None \<Rightarrow> s
      | Some p \<Rightarrow>
          s\<lparr>sc_info := (sc_info s)(i \<mapsto>
              p\<lparr>pm_action := Build, pm_full_rebuild := True, pm_reuse := None,
                pm_reasons := pm_reasons p @ [reason_simple CacheMiss (stale_text p (live_identity cx i))]\<rparr>)\<rparr>)"

definition is_time_window :: "compiled_model \<Rightarrow> bool" where
  "is_time_window m = (case cfg_incremental (cm_config m) of Some (TimeWindow _ _) \<Rightarrow> True | _ \<Rightarrow> False)"

definition materialized_of ::
    "run_context \<Rightarrow> compiled_model \<Rightarrow> string \<Rightarrow> string \<Rightarrow> string option \<Rightarrow> string \<Rightarrow> string \<Rightarrow> materialized_record" where
  "materialized_of cx m name target identity run_id at =
     \<lparr>mr_model_id = name, mr_environment = rx_environment cx, mr_version = cm_version m,
      mr_detail = Some (cm_version_detail m), mr_target = target,
      mr_incremental_strategy = map_option strategy_str (cfg_incremental (cm_config m)),
      mr_incremental_key = desired_incremental_key (cm_config m),
      mr_adapter = Some (rx_adapter cx), mr_output_identity = identity, mr_contract = cm_contract m,
      mr_effective_key = Some (case effective_key m of Some k \<Rightarrow> k | None \<Rightarrow> []),
      mr_run_id = run_id, mr_materialized_at = at\<rparr>"

definition write_watermark :: "run_context \<Rightarrow> compiled_model \<Rightarrow> string \<Rightarrow> sched \<Rightarrow> run_end + sched" where
  "write_watermark cx m value s =
     (case rx_store cx of
        None \<Rightarrow> Inr s
      | Some st \<Rightarrow>
          (case wr_watermark st (logical_name (cm_id m)) (rx_environment cx) value (rx_run_id cx) of
             Some e \<Rightarrow> Inl (RunError e)
           | None \<Rightarrow> Inr (s\<lparr>sc_watermarks := sc_watermarks s @ [(logical_name (cm_id m), value)]\<rparr>)))"

text \<open>Adoption records the source's run and time; a time-window model takes its watermark along.\<close>

definition adopt_watermark ::
    "run_context \<Rightarrow> store \<Rightarrow> compiled_model \<Rightarrow> cache_source \<Rightarrow> sched \<Rightarrow> run_end + sched" where
  "adopt_watermark cx st m reuse s =
     (if is_time_window m then
        (case rd_watermark st (logical_name (cm_id m)) (cas_environment reuse) of
           Inl e \<Rightarrow> Inl (RunError e)
         | Inr None \<Rightarrow> Inr s
         | Inr (Some value) \<Rightarrow> write_watermark cx m value s)
      else Inr s)"

definition adopt :: "run_context \<Rightarrow> model_id \<Rightarrow> sched \<Rightarrow> run_end + sched" where
  "adopt cx i s =
     (case (rx_store cx, compilation_model (rx_compilation cx) i, planned_reuse s i) of
        (Some st, Some m, Some reuse) \<Rightarrow>
          (let entry = materialized_of cx m (logical_name (cm_id m)) (relation_display (cm_target m))
                         (Some (cas_output_identity reuse)) (cas_run_id reuse) (cas_materialized_at reuse)
           in case wr_materialized st entry of
                Some e \<Rightarrow> Inl (RunError e)
              | None \<Rightarrow> adopt_watermark cx st m reuse (s\<lparr>sc_materialized := sc_materialized s @ [entry]\<rparr>))
      | _ \<Rightarrow> Inr s)"

definition adopted_text :: "cache_source \<Rightarrow> string" where
  "adopted_text reuse =
     ''adopted the output recorded in '' @
     (case cas_environment reuse of Some e \<Rightarrow> e | None \<Rightarrow> ''the default environment'') @
     '' '' @ em_dash @ '' `'' @ cas_output_identity reuse @ ''` verified live''"

definition settled_result :: "run_context \<Rightarrow> sched \<Rightarrow> compiled_model \<Rightarrow> model_id \<Rightarrow> plan_action \<Rightarrow> model_result" where
  "settled_result cx s m i action =
     (if action = Cached then
        (let r = (idle_result cx s m i CachedStatus)\<lparr>mres_output_identity := live_identity cx i\<rparr>
         in case planned_reuse s i of Some reuse \<Rightarrow> add_reason (adopted_text reuse) r | None \<Rightarrow> r)
      else idle_result cx s m i Skipped)"

text \<open>Settle a model whose action needs no build.\<close>

definition settle_as :: "run_context \<Rightarrow> model_id \<Rightarrow> plan_action \<Rightarrow> sched \<Rightarrow> run_end + sched" where
  "settle_as cx i action s =
     (let outcome = (if action = Cached then CachedStatus else Skipped);
          s1 = set_status i outcome s
      in then_run
           (case compilation_model (rx_compilation cx) i of
              None \<Rightarrow> Inr s1
            | Some m \<Rightarrow>
                (let r = settled_result cx s m i action
                 in then_run (persist_model cx r (emit [finished_event i outcome] s1))
                      (\<lambda>s2. Inr (put_result i r s2))))
           (\<lambda>s3. Inr (release_dependents cx i s3)))"

definition skip_or_adopt :: "run_context \<Rightarrow> model_id \<Rightarrow> sched \<Rightarrow> run_end + sched" where
  "skip_or_adopt cx i s =
     (let action = planned_action s i
      in if sc_status s i \<noteq> Some Pending \<or> action = Build \<or> action = Unknown then Inr s
         else if action = Cached \<and> \<not> adoptable cx s i then Inr (fall_back cx i s)
         else if action = Cached then then_run (adopt cx i s) (settle_as cx i action)
         else settle_as cx i action s)"

definition reads_seed :: "run_context \<Rightarrow> string list \<Rightarrow> compiled_model \<Rightarrow> bool" where
  "reads_seed cx failed m \<longleftrightarrow>
     list_ex (reads_failed_seed (rx_compilation cx) (rx_adapter cx) failed) (source_dependencies m)"

text \<open>A model that reads a seed that failed to load is blocked, and with it its dependents.\<close>

definition block_seed_reader :: "run_context \<Rightarrow> string list \<Rightarrow> model_id \<Rightarrow> sched \<Rightarrow> run_end + sched" where
  "block_seed_reader cx failed i s =
     (if sc_status s i \<noteq> Some Pending then Inr s
      else case compilation_model (rx_compilation cx) i of
             None \<Rightarrow> Inr s
           | Some m \<Rightarrow>
               if \<not> reads_seed cx failed m then Inr s
               else
                 (let r = with_failure (without_attempt (rx_clock cx i) DependencyFailure
                                          ''blocked by a failed seed load'')
                            (idle_result cx s m i Blocked)
                  in then_run (persist_model cx r (emit [finished_event i Blocked] (set_status i Blocked s)))
                       (\<lambda>s1. block_dependents cx i (put_result i r s1))))"

definition is_ready :: "sched \<Rightarrow> model_id \<Rightarrow> bool" where
  "is_ready s i \<longleftrightarrow>
     (case sc_remaining s i of Some n \<Rightarrow> n | None \<Rightarrow> 0) = 0 \<and> sc_status s i = Some Pending"

definition queue_ready :: "run_context \<Rightarrow> sched \<Rightarrow> sched" where
  "queue_ready cx s = s\<lparr>sc_ready := filter (is_ready s) (planned_ids cx)\<rparr>"

text \<open>Everything before the loop, given the targets of the seeds that failed to load.\<close>

definition prepare :: "run_context \<Rightarrow> string list \<Rightarrow> sched \<Rightarrow> run_end + sched" where
  "prepare cx failed s =
     then_run (fold_run (skip_or_adopt cx) (planned_ids cx) (fold (reuse_prior cx) (planned_ids cx) s))
       (\<lambda>s. then_run (if failed = [] then Inr s
                      else fold_run (block_seed_reader cx failed) (planned_ids cx) s)
              (\<lambda>s. Inr (queue_ready cx s)))"

section \<open>Starting models\<close>

definition prior_attempts :: "run_context \<Rightarrow> model_id \<Rightarrow> attempt list" where
  "prior_attempts cx i =
     (case rx_prior_models cx (logical_name i) of Some r \<Rightarrow> mrr_attempts r | None \<Rightarrow> [])"

definition task_of :: "run_context \<Rightarrow> compiled_model \<Rightarrow> planned_model option \<Rightarrow> exec_operation \<Rightarrow> model_task" where
  "task_of cx m info operation =
     \<lparr>tk_id = cm_id m, tk_run_id = rx_run_id cx,
      tk_materialization = materialization_str (cfg_materialization (cm_config m)),
      tk_action = action_of info, tk_sql_hash = rx_sha cx (cm_compiled_sql m),
      tk_target = relation_display (cm_target m),
      tk_desired_version = (case info of Some p \<Rightarrow> pm_desired_version p | None \<Rightarrow> []),
      tk_started_at = rx_clock cx (cm_id m), tk_prior_attempts = prior_attempts cx (cm_id m),
      tk_operation = operation\<rparr>"

definition start_model :: "run_context \<Rightarrow> model_id \<Rightarrow> sched \<Rightarrow> run_end + sched" where
  "start_model cx i s =
     (let s1 = emit [ModelStarted (logical_name i)] (set_status i Running s)
      in case compilation_model (rx_compilation cx) i of
           None \<Rightarrow> Inr s1
         | Some m \<Rightarrow>
             then_run (persist_record cx
                 (model_start_record (rx_sha cx) (rx_run_id cx) m (rx_clock cx i) (sc_info s i)) s1)
               (\<lambda>s2. case exec_op m (sc_info s i) of
                        None \<Rightarrow> Inl RunPanic
                      | Some operation \<Rightarrow>
                          Inr (s2\<lparr>sc_running := sc_running s2 @ [task_of cx m (sc_info s i) operation]\<rparr>)))"

text \<open>The inner loop: pop ready models while there is a free slot.\<close>

fun fill_list :: "run_context \<Rightarrow> model_id list \<Rightarrow> sched \<Rightarrow> run_end + sched" where
  "fill_list cx [] s = Inr (s\<lparr>sc_ready := []\<rparr>)"
| "fill_list cx (i # rest) s =
     (if concurrency cx \<le> length (sc_running s) then Inr (s\<lparr>sc_ready := i # rest\<rparr>)
      else if sc_status s i \<noteq> Some Pending then fill_list cx rest s
      else then_run (start_model cx i s) (fill_list cx rest))"

definition fill :: "run_context \<Rightarrow> sched \<Rightarrow> run_end + sched" where
  "fill cx s = fill_list cx (sc_ready s) s"

section \<open>Joining tasks\<close>

definition forget_task :: "model_id \<Rightarrow> sched \<Rightarrow> sched" where
  "forget_task i s = s\<lparr>sc_running := filter (\<lambda>t. tk_id t \<noteq> i) (sc_running s)\<rparr>"

definition lost_progress :: "model_id \<Rightarrow> string \<Rightarrow> run_end" where
  "lost_progress i e = RunError (EState (''could not persist '' @ logical_name i @ '' progress: '' @ e))"

definition ran_result ::
    "run_context \<Rightarrow> sched \<Rightarrow> compiled_model \<Rightarrow> completion \<Rightarrow> execution_status \<Rightarrow> model_result" where
  "ran_result cx s m co st =
     model_result_of (rx_sha cx) m st (prior_attempts cx (co_id co) @ co_attempts co)
       (Some (co_started_at co)) (Some (co_finished_at co)) (co_duration_ms co) (sc_info s (co_id co))"

definition passed_result ::
    "run_context \<Rightarrow> sched \<Rightarrow> compiled_model \<Rightarrow> completion \<Rightarrow> query_result \<Rightarrow> model_result" where
  "passed_result cx s m co q =
     (ran_result cx s m co Passed)\<lparr>mres_query_id := qr_query_id q,
       mres_output_identity := rx_identity_built cx (cm_target m)\<rparr>"

definition failed_result :: "run_context \<Rightarrow> sched \<Rightarrow> compiled_model \<Rightarrow> completion \<Rightarrow> failure \<Rightarrow> model_result" where
  "failed_result cx s m co f = with_failure f (ran_result cx s m co Failed)"

text \<open>A passed time-window model commits the maximum it now holds, when there is one.\<close>

definition watermark_query :: "compiled_model \<Rightarrow> string \<Rightarrow> string" where
  "watermark_query m column = ''SELECT max('' @ quote_ident column @ '') FROM '' @ relation_sql (cm_target m)"

definition observed_watermark :: "adapter_error + query_result \<Rightarrow> string option" where
  "observed_watermark r =
     (case r of
        Inl _ \<Rightarrow> None
      | Inr q \<Rightarrow>
          (case qr_rows q of
             (value # _) # _ \<Rightarrow> if value \<noteq> ''NULL'' then Some value else None
           | _ \<Rightarrow> None))"

definition advance_watermark :: "run_context \<Rightarrow> compiled_model \<Rightarrow> sched \<Rightarrow> run_end + sched" where
  "advance_watermark cx m s =
     (case cfg_incremental (cm_config m) of
        Some (TimeWindow column _) \<Rightarrow>
          (case observed_watermark (rx_query cx (watermark_query m column)) of
             Some value \<Rightarrow> write_watermark cx m value s
           | None \<Rightarrow> Inr s)
      | _ \<Rightarrow> Inr s)"

definition extend_ready :: "run_context \<Rightarrow> model_id \<Rightarrow> sched \<Rightarrow> sched" where
  "extend_ready cx i s = s\<lparr>sc_ready := sc_ready s @ filter (is_ready s) (dependents_of cx i)\<rparr>"

definition on_passed ::
    "run_context \<Rightarrow> compiled_model \<Rightarrow> completion \<Rightarrow> query_result \<Rightarrow> sched \<Rightarrow> run_end + sched" where
  "on_passed cx m co q s =
     (let i = co_id co; r = passed_result cx s m co q
      in then_run (persist_model cx r
           (emit [ModelFinished (logical_name i) Passed (qr_query_id q) (co_duration_ms co)] (set_status i Passed s)))
         (\<lambda>s1. advance_watermark cx m (extend_ready cx i (release_dependents cx i (put_result i r s1)))))"

definition on_failed ::
    "run_context \<Rightarrow> compiled_model \<Rightarrow> completion \<Rightarrow> failure \<Rightarrow> sched \<Rightarrow> run_end + sched" where
  "on_failed cx m co f s =
     (let i = co_id co; r = failed_result cx s m co f
      in then_run (persist_model cx r
           (emit [ModelFinished (logical_name i) Failed None (co_duration_ms co)] (set_status i Failed s)))
         (\<lambda>s1. let s2 = put_result i r s1
               in if rx_fail_fast cx
                  then then_run (block_dependents cx i (s2\<lparr>sc_fail_fast := True\<rparr>))
                         (\<lambda>s3. Inr (s3\<lparr>sc_ready := []\<rparr>))
                  else block_dependents cx i s2))"

definition note_log :: "task_log \<Rightarrow> sched \<Rightarrow> sched" where
  "note_log log s =
     s\<lparr>sc_events := sc_events s @ lg_retries log, sc_writes := sc_writes s @ lg_writes log\<rparr>"

text \<open>A task joined in the loop.\<close>

definition join_task :: "run_context \<Rightarrow> task_log \<Rightarrow> sched \<Rightarrow> run_end + sched" where
  "join_task cx log s =
     (let co = lg_completion log; i = co_id co; s1 = forget_task i (note_log log s)
      in case co_state_error co of
           Some e \<Rightarrow> Inl (lost_progress i e)
         | None \<Rightarrow>
             (case compilation_model (rx_compilation cx) i of
                None \<Rightarrow> Inl RunPanic
              | Some m \<Rightarrow>
                  (case co_outcome co of
                     Inr q \<Rightarrow> on_passed cx m co q s1
                   | Inl f \<Rightarrow> on_failed cx m co f s1)))"

text \<open>A task that had completed when the run was stopped is still reported.\<close>

definition drain_task :: "run_context \<Rightarrow> task_log \<Rightarrow> sched \<Rightarrow> run_end + sched" where
  "drain_task cx log s =
     (let co = lg_completion log; i = co_id co; s1 = forget_task i (note_log log s)
      in case co_state_error co of
           Some e \<Rightarrow> Inl (lost_progress i e)
         | None \<Rightarrow>
             if settled (sc_status s1) i then Inr s1
             else (case compilation_model (rx_compilation cx) i of
                     None \<Rightarrow> Inl RunPanic
                   | Some m \<Rightarrow>
                       (let r = (case co_outcome co of
                                   Inr q \<Rightarrow> passed_result cx s m co q
                                 | Inl f \<Rightarrow> failed_result cx s m co f)
                        in then_run (persist_model cx r
                             (set_status i (mres_status r)
                               (emit [ModelFinished (logical_name i) (mres_status r) (mres_query_id r)
                                        (mres_duration_ms r)] s1)))
                           (\<lambda>s2. (case co_outcome co of
                                    Inr q \<Rightarrow> Inr (release_dependents cx i (put_result i r s2))
                                  | Inl f \<Rightarrow> block_dependents cx i (put_result i r s2))))))"

section \<open>The loop\<close>

definition busy :: "sched \<Rightarrow> bool" where
  "busy s \<longleftrightarrow> sc_running s \<noteq> [] \<or> sc_ready s \<noteq> []"

definition filled :: "run_context \<Rightarrow> sched \<Rightarrow> bool" where
  "filled cx s \<longleftrightarrow> sc_ready s = [] \<or> concurrency cx \<le> length (sc_running s)"

text \<open>A model is started at most once in a run, so what its task meets is part of the context.\<close>

definition task_log_of :: "run_context \<Rightarrow> model_task \<Rightarrow> task_log" where
  "task_log_of cx t = run_model_task (rx_retry cx) (rx_world cx (tk_id t)) (rx_store cx) t"

inductive sched_step :: "run_context \<Rightarrow> sched \<Rightarrow> run_end + sched \<Rightarrow> bool" for cx where
  Cancel: "\<not> stopped s \<Longrightarrow> busy s \<Longrightarrow> sched_step cx s (Inr (s\<lparr>sc_cancelled := True\<rparr>))"
| Fill: "\<not> stopped s \<Longrightarrow> \<not> filled cx s \<Longrightarrow> sched_step cx s (fill cx s)"
| Join: "\<not> stopped s \<Longrightarrow> filled cx s \<Longrightarrow> t \<in> set (sc_running s) \<Longrightarrow>
    sched_step cx s (join_task cx (task_log_of cx t) s)"
| JoinError: "\<not> stopped s \<Longrightarrow> filled cx s \<Longrightarrow> t \<in> set (sc_running s) \<Longrightarrow>
    sched_step cx s (Inl (RunError (EState (''model task failed: '' @ message))))"
| Drain: "stopped s \<Longrightarrow> t \<in> set (sc_running s) \<Longrightarrow>
    sched_step cx s (drain_task cx (task_log_of cx t) s)"
| Abort: "stopped s \<Longrightarrow> t \<in> set (sc_running s) \<Longrightarrow>
    sched_step cx s (Inr (forget_task (tk_id t) s))"

text \<open>Where a run stands between two steps, from the state the preparation left.\<close>

inductive sched_reach :: "run_context \<Rightarrow> sched \<Rightarrow> sched \<Rightarrow> bool" for cx where
  Refl: "sched_reach cx s s"
| Step: "sched_reach cx s t \<Longrightarrow> sched_step cx t (Inr u) \<Longrightarrow> sched_reach cx s u"

definition loop_done :: "sched \<Rightarrow> bool" where
  "loop_done s \<longleftrightarrow> sc_running s = [] \<and> (stopped s \<or> sc_ready s = [])"

section \<open>The final sweep\<close>

definition swept_status :: "sched \<Rightarrow> execution_status" where
  "swept_status s = (if stopped s then Cancelled else Blocked)"

definition swept_failure :: "run_context \<Rightarrow> sched \<Rightarrow> model_id \<Rightarrow> failure" where
  "swept_failure cx s i =
     (if stopped s
      then without_attempt (rx_clock cx i) CancelledFailure
             (if sc_cancelled s then ''run cancelled'' else ''cancelled by fail-fast shutdown'')
      else without_attempt (rx_clock cx i) DependencyFailure ''blocked by an upstream failure'')"

definition sweep_model :: "run_context \<Rightarrow> model_id \<Rightarrow> sched \<Rightarrow> run_end + sched" where
  "sweep_model cx i s =
     (if settled (sc_status s) i then Inr s
      else (let st = swept_status s; s1 = set_status i st s
            in case compilation_model (rx_compilation cx) i of
                 None \<Rightarrow> Inr s1
               | Some m \<Rightarrow>
                   (let r = with_failure (swept_failure cx s i) (idle_result cx s m i st)
                    in then_run (persist_model cx r (emit [finished_event i st] s1))
                         (\<lambda>s2. Inr (put_result i r s2)))))"

definition sweep :: "run_context \<Rightarrow> sched \<Rightarrow> run_end + sched" where
  "sweep cx = fold_run (sweep_model cx) (planned_ids cx)"

end
