(* ===== verification/ScheduleFacts.thy ===== *)
theory ScheduleFacts
  imports Schedule
begin

text \<open>
  What the handlers of the scheduler do to its state, and the invariants of every reachable state: the
  remaining counts, the dependencies of what has started, the propagation of failures, the queue of
  ready models and the slots in use.
\<close>

named_theorems sched_simps \<open>the fields each step of a handler leaves alone\<close>

section \<open>Effects\<close>

lemma then_run_Inr: "then_run r f = Inr b \<longleftrightarrow> (\<exists>a. r = Inr a \<and> f a = Inr b)"
  by (cases r) (auto simp: then_run_def)

lemma fold_run_invariant:
  assumes "fold_run f xs s = Inr s'" "P s"
    "\<And>x s s'. x \<in> set xs \<Longrightarrow> P s \<Longrightarrow> f x s = Inr s' \<Longrightarrow> P s'"
  shows "P s'"
  using assms
proof (induction xs arbitrary: s)
  case Nil
  then show ?case by simp
next
  case (Cons x xs)
  from Cons.prems(1) obtain t where t: "f x s = Inr t" "fold_run f xs t = Inr s'"
    by (auto simp: then_run_Inr)
  have "P t" using Cons.prems(3) [OF _ Cons.prems(2) t(1)] by simp
  then show ?case using Cons.IH [OF t(2)] Cons.prems(3) by (meson list.set_intros(2))
qed

lemma persist_record_Inr:
  "persist_record cx entry s = Inr s' \<Longrightarrow> \<exists>ws. s' = s\<lparr>sc_writes := ws\<rparr>"
  by (auto simp: persist_record_def split: option.splits)

lemma persist_model_Inr: "persist_model cx r s = Inr s' \<Longrightarrow> \<exists>ws. s' = s\<lparr>sc_writes := ws\<rparr>"
  by (simp add: persist_model_def persist_record_Inr)

lemma persist_blocked_Inr:
  assumes "persist_blocked cx bl s = Inr s'"
  shows "\<exists>ws. s' = s\<lparr>sc_writes := ws\<rparr>"
  using assms unfolding persist_blocked_def
proof (rule fold_run_invariant)
  show "\<exists>ws. s = s\<lparr>sc_writes := ws\<rparr>" by (rule exI [of _ "sc_writes s"]) simp
next
  fix x t t'
  assume "\<exists>ws. t = s\<lparr>sc_writes := ws\<rparr>"
    "(case map_of (sc_results t) x of None \<Rightarrow> Inr t | Some r \<Rightarrow> persist_model cx r t) = Inr t'"
  then show "\<exists>ws. t' = s\<lparr>sc_writes := ws\<rparr>"
    by (auto split: option.splits dest!: persist_model_Inr)
qed

lemma write_watermark_Inr:
  "write_watermark cx m v s = Inr s' \<Longrightarrow> \<exists>ws. s' = s\<lparr>sc_watermarks := ws\<rparr>"
  by (cases "rx_store cx")
     (auto simp: write_watermark_def split: option.splits intro: exI [of _ "sc_watermarks s"])

lemma advance_watermark_Inr:
  "advance_watermark cx m s = Inr s' \<Longrightarrow> \<exists>ws. s' = s\<lparr>sc_watermarks := ws\<rparr>"
  by (auto simp: advance_watermark_def split: option.splits incremental_strategy.splits
      intro: exI [of _ "sc_watermarks s"] dest: write_watermark_Inr)

lemma adopt_Inr:
  "adopt cx i s = Inr s' \<Longrightarrow> \<exists>ms ws. s' = s\<lparr>sc_materialized := ms, sc_watermarks := ws\<rparr>"
proof -
  have same: "\<exists>ms ws. t = t\<lparr>sc_materialized := ms, sc_watermarks := ws\<rparr>" for t :: sched
    by (rule exI [of _ "sc_materialized t"], rule exI [of _ "sc_watermarks t"]) simp
  have "\<exists>ws. t' = t\<lparr>sc_watermarks := ws\<rparr>" if "adopt_watermark cx st m reuse t = Inr t'" for st m reuse t t'
    using that by (auto simp: adopt_watermark_def split: if_splits sum.splits option.splits
        intro: exI [of _ "sc_watermarks t"] dest: write_watermark_Inr)
  then show "adopt cx i s = Inr s' \<Longrightarrow> ?thesis"
    using same [of s]
    by (fastforce simp: adopt_def Let_def split: option.splits)
qed

lemma release_one_get: "release_one c r j = (if j = c then map_option (\<lambda>n. n - 1) (r j) else r j)"
  by (auto simp: release_one_def split: option.split)

lemma release_fold: "fold release_one cs r j = map_option (\<lambda>n. n - count_list cs j) (r j)"
proof (induction cs arbitrary: r)
  case Nil
  then show ?case by (cases "r j") auto
next
  case (Cons c cs)
  then show ?case by (cases "r j") (auto simp: release_one_get)
qed

lemma count_list_replicate: "count_list (replicate n x) y = (if x = y then n else 0)"
  by (induction n) auto

lemma count_list_concat: "count_list (concat xss) y = sum_list (map (\<lambda>xs. count_list xs y) xss)"
  by (induction xss) (simp_all add: count_list_append)

lemma count_list_sort: "count_list (sort xs) y = count_list xs y"
  by (simp add: count_list_eq_length_filter filter_sort)

lemma sum_list_single:
  "distinct xs \<Longrightarrow> sum_list (map (\<lambda>x. if x = y then f x else (0::nat)) xs) = (if y \<in> set xs then f y else 0)"
  by (induction xs) auto

lemma dependents_count:
  assumes "distinct (planned_ids cx)"
  shows "count_list (dependents_of cx i) j =
    (if j \<in> set (planned_ids cx) then count_list (planned_deps cx j) i else 0)"
proof -
  have "count_list (dependents_of cx i) j =
      sum_list (map (\<lambda>k. if k = j then count_list (planned_deps cx k) i else 0) (planned_ids cx))"
    by (simp add: dependents_of_def count_list_sort count_list_concat comp_def count_list_replicate)
  with sum_list_single [OF assms] show ?thesis by simp
qed

lemma in_dependents: "j \<in> set (dependents_of cx i) \<longleftrightarrow> j \<in> set (planned_ids cx) \<and> i \<in> set (planned_deps cx j)"
  by (auto simp: dependents_of_def in_set_replicate count_list_0_iff)

lemma planned_deps_planned: "d \<in> set (planned_deps cx i) \<Longrightarrow> d \<in> set (planned_ids cx)"
  by (auto simp: planned_deps_def split: option.splits)

section \<open>Blocking\<close>

definition has_result :: "(model_id \<times> model_result) list \<Rightarrow> model_id \<Rightarrow> execution_status \<Rightarrow> bool" where
  "has_result rs i st \<longleftrightarrow> (case map_of rs i of Some r \<Rightarrow> mres_status r = st | None \<Rightarrow> False)"

definition blocks ::
    "run_context \<Rightarrow> (model_id \<times> model_id) list \<Rightarrow> sched \<Rightarrow> model_id list \<Rightarrow> sched \<Rightarrow> bool" where
  "blocks cx work s bl s' \<longleftrightarrow>
     (\<exists>rs es. s' = s\<lparr>sc_status := (\<lambda>j. if j \<in> set bl then Some Blocked else sc_status s j),
                     sc_results := rs, sc_events := es\<rparr>) \<and>
     (\<forall>b \<in> set bl. \<not> settled (sc_status s) b) \<and>
     (\<forall>x \<in> set work. settled (sc_status s') (snd x)) \<and>
     (\<forall>b \<in> set bl. \<forall>j \<in> set (dependents_of cx b). settled (sc_status s') j) \<and>
     (\<forall>b \<in> set bl. b \<in> snd ` set work \<or> (\<exists>b' \<in> set bl. b \<in> set (dependents_of cx b')))"

lemma blocksD:
  assumes "blocks cx work s bl s'"
  shows "\<And>b. b \<in> set bl \<Longrightarrow> \<not> settled (sc_status s) b"
    and "\<And>x. x \<in> set work \<Longrightarrow> settled (sc_status s') (snd x)"
    and "\<And>b j. b \<in> set bl \<Longrightarrow> j \<in> set (dependents_of cx b) \<Longrightarrow> settled (sc_status s') j"
    and "\<And>b. b \<in> set bl \<Longrightarrow> b \<in> snd ` set work \<or> (\<exists>b' \<in> set bl. b \<in> set (dependents_of cx b'))"
    and "\<exists>rs es. s' = s\<lparr>sc_status := (\<lambda>j. if j \<in> set bl then Some Blocked else sc_status s j),
                     sc_results := rs, sc_events := es\<rparr>"
  using assms unfolding blocks_def by blast+

lemma settled_upd: "settled (m(c \<mapsto> x)) j \<longleftrightarrow> (if j = c then is_terminal x else settled m j)"
  by (simp add: settled_def status_or_default_def)

lemma blocked_terminal [simp]: "is_terminal Blocked" "is_terminal Failed" "is_terminal Passed"
  "is_terminal Skipped" "is_terminal CachedStatus" "is_terminal Cancelled"
  "\<not> is_terminal Pending" "\<not> is_terminal Running" "\<not> is_terminal Ready"
  by (simp_all add: is_terminal_def)

lemma mark_blocked_eq:
  "\<exists>rs es. mark_blocked cx cause child s =
     s\<lparr>sc_status := (sc_status s)(child \<mapsto> Blocked), sc_results := rs, sc_events := es\<rparr>"
proof (cases "compilation_model (rx_compilation cx) child")
  case None
  then show ?thesis
    by (intro exI [of _ "sc_results s"] exI [of _ "sc_events s"])
       (simp add: mark_blocked_def set_status_def Let_def)
next
  case (Some m)
  let ?m = "mark_blocked cx cause child s"
  have "?m = s\<lparr>sc_status := (sc_status s)(child \<mapsto> Blocked), sc_results := sc_results ?m, sc_events := sc_events ?m\<rparr>"
    by (rule sched.equality) (simp_all add: Some mark_blocked_def set_status_def Let_def put_result_def emit_def)
  then show ?thesis by blast
qed

lemma block_list_blocks: "block_list cx work s = (bl, s') \<Longrightarrow> blocks cx work s bl s'"
proof (induction cx work s arbitrary: bl s' rule: block_list.induct)
  case (1 cx s)
  then show ?case
    by (auto simp: blocks_def intro!: exI [of _ "sc_results s"] exI [of _ "sc_events s"])
next
  case (2 cx cause child rest s)
  show ?case
  proof (cases "settled (sc_status s) child")
    case True
    with "2.prems" have "block_list cx rest s = (bl, s')" by simp
    from "2.IH"(1) [OF True this] have rec: "blocks cx rest s bl s'" .
    then have "settled (sc_status s') child"
      using True by (auto simp: blocks_def settled_def status_or_default_def)
    with rec show ?thesis unfolding blocks_def by auto
  next
    case False
    let ?s = "mark_blocked cx cause child s"
    let ?work = "map (Pair child) (dependents_of cx child) @ rest"
    obtain bl' where bl: "block_list cx ?work ?s = (bl', s')" "bl = child # bl'"
      using "2.prems" False by (auto split: prod.splits)
    from "2.IH"(2) [OF False bl(1)] have rec: "blocks cx ?work ?s bl' s'" .
    obtain rs es where m: "?s = s\<lparr>sc_status := (sc_status s)(child \<mapsto> Blocked), sc_results := rs, sc_events := es\<rparr>"
      using mark_blocked_eq by blast
    from rec obtain rs' es' where s': "s' = ?s\<lparr>sc_status := (\<lambda>j. if j \<in> set bl' then Some Blocked
        else sc_status ?s j), sc_results := rs', sc_events := es'\<rparr>"
      unfolding blocks_def by blast
    have eq: "s' = s\<lparr>sc_status := (\<lambda>j. if j \<in> set bl then Some Blocked else sc_status s j),
        sc_results := rs', sc_events := es'\<rparr>"
    proof -
      have "(\<lambda>j. if j \<in> set bl' then Some Blocked else sc_status ?s j) =
          (\<lambda>j. if j \<in> set bl then Some Blocked else sc_status s j)"
        by (auto simp: bl(2))
      then show ?thesis unfolding s' by (simp only:) (simp add: m)
    qed
    show ?thesis
      unfolding blocks_def
    proof (intro conjI)
      show "\<exists>rs es. s' = s\<lparr>sc_status := (\<lambda>j. if j \<in> set bl then Some Blocked else sc_status s j),
          sc_results := rs, sc_events := es\<rparr>"
        using eq by blast
      show "\<forall>b\<in>set bl. \<not> settled (sc_status s) b"
        using rec False by (auto simp: blocks_def bl(2) settled_upd split: if_splits)
      have child: "settled (sc_status s') child"
        by (simp add: eq bl(2) settled_def status_or_default_def)
      then show "\<forall>x\<in>set ((cause, child) # rest). settled (sc_status s') (snd x)"
        using rec by (auto simp: blocks_def)
      show "\<forall>b\<in>set bl. \<forall>j\<in>set (dependents_of cx b). settled (sc_status s') j"
        using blocksD(2,3) [OF rec] unfolding bl(2) by fastforce
      show "\<forall>b\<in>set bl. b \<in> snd ` set ((cause, child) # rest) \<or> (\<exists>b'\<in>set bl. b \<in> set (dependents_of cx b'))"
      proof
        fix b assume "b \<in> set bl"
        then consider "b = child" | "b \<in> set bl'" unfolding bl(2) by auto
        then show "b \<in> snd ` set ((cause, child) # rest) \<or> (\<exists>b'\<in>set bl. b \<in> set (dependents_of cx b'))"
        proof cases
          case 1
          then show ?thesis by simp
        next
          case 2
          from blocksD(4) [OF rec this] show ?thesis by (auto simp: bl(2))
        qed
      qed
    qed
  qed
qed

section \<open>The dependency invariant\<close>

text \<open>A run is scheduled from a plan whose models exist and follow their dependencies.\<close>

definition wf_context :: "run_context \<Rightarrow> bool" where
  "wf_context cx \<longleftrightarrow>
     distinct (planned_ids cx) \<and>
     (\<forall>i \<in> set (planned_ids cx). \<exists>m. compilation_model (rx_compilation cx) i = Some m \<and> cm_id m = i) \<and>
     (\<forall>k < length (planned_ids cx). set (planned_deps cx (planned_ids cx ! k)) \<subseteq> set (take k (planned_ids cx)))"

definition satisfied :: "(model_id \<rightharpoonup> execution_status) \<Rightarrow> model_id \<Rightarrow> bool" where
  "satisfied status i \<longleftrightarrow> is_satisfied (status_or_default status i)"

definition waiting_on :: "run_context \<Rightarrow> (model_id \<rightharpoonup> execution_status) \<Rightarrow> model_id \<Rightarrow> model_id list" where
  "waiting_on cx status i = filter (\<lambda>d. \<not> satisfied status d) (planned_deps cx i)"

definition broken :: "(model_id \<rightharpoonup> execution_status) \<Rightarrow> model_id \<Rightarrow> bool" where
  "broken status i \<longleftrightarrow> status i = Some Failed \<or> status i = Some Blocked"

definition started :: "(model_id \<rightharpoonup> execution_status) \<Rightarrow> model_id \<Rightarrow> bool" where
  "started status i \<longleftrightarrow> status i = Some Running \<or> status i = Some Passed \<or> status i = Some Failed"

definition deps_inv ::
    "run_context \<Rightarrow> model_id set \<Rightarrow> (model_id \<rightharpoonup> execution_status) \<Rightarrow> (model_id \<rightharpoonup> nat) \<Rightarrow> bool" where
  "deps_inv cx seeds status remaining \<longleftrightarrow>
     dom status = set (planned_ids cx) \<and>
     (\<forall>i. status i \<noteq> Some Ready \<and> status i \<noteq> Some Cancelled) \<and>
     (\<forall>i \<in> set (planned_ids cx). remaining i = Some (length (waiting_on cx status i))) \<and>
     (\<forall>i. started status i \<longrightarrow> waiting_on cx status i = []) \<and>
     (\<forall>i \<in> set (planned_ids cx). \<forall>d \<in> set (planned_deps cx i). broken status d \<longrightarrow> settled status i) \<and>
     (\<forall>i. status i = Some Blocked \<longrightarrow> i \<in> seeds \<or> (\<exists>d \<in> set (planned_deps cx i). broken status d))"

lemma deps_invD:
  assumes "deps_inv cx seeds status remaining"
  shows "dom status = set (planned_ids cx)"
    and "\<And>i. status i \<noteq> Some Ready" "\<And>i. status i \<noteq> Some Cancelled"
    and "\<And>i. i \<in> set (planned_ids cx) \<Longrightarrow> remaining i = Some (length (waiting_on cx status i))"
    and "\<And>i. started status i \<Longrightarrow> waiting_on cx status i = []"
    and "\<And>i d. i \<in> set (planned_ids cx) \<Longrightarrow> d \<in> set (planned_deps cx i) \<Longrightarrow> broken status d \<Longrightarrow> settled status i"
    and "\<And>i. status i = Some Blocked \<Longrightarrow> i \<in> seeds \<or> (\<exists>d \<in> set (planned_deps cx i). broken status d)"
  using assms unfolding deps_inv_def by blast+

lemma satisfied_settled: "satisfied status i \<Longrightarrow> settled status i"
  by (simp add: satisfied_def settled_def satisfied_terminal)

lemma broken_settled: "broken status i \<Longrightarrow> settled status i"
  by (auto simp: broken_def settled_def status_or_default_def)

lemma broken_not_satisfied: "broken status i \<Longrightarrow> \<not> satisfied status i"
  by (auto simp: broken_def satisfied_def status_or_default_def is_satisfied_def)

lemma satisfied_upd: "satisfied (m(c \<mapsto> x)) j \<longleftrightarrow> (if j = c then is_satisfied x else satisfied m j)"
  by (simp add: satisfied_def status_or_default_def)

lemma broken_upd: "broken (m(c \<mapsto> x)) j \<longleftrightarrow> (if j = c then x = Failed \<or> x = Blocked else broken m j)"
  by (simp add: broken_def)

lemma started_upd:
  "started (m(c \<mapsto> x)) j \<longleftrightarrow> (if j = c then x = Running \<or> x = Passed \<or> x = Failed else started m j)"
  by (simp add: started_def)

lemma not_satisfied_simps [simp]:
  "\<not> is_satisfied Pending" "\<not> is_satisfied Running" "\<not> is_satisfied Failed" "\<not> is_satisfied Blocked"
  "is_satisfied Passed" "is_satisfied Skipped" "is_satisfied CachedStatus" "\<not> is_satisfied Cancelled"
  by (simp_all add: is_satisfied_def)

lemma filter_length_remove:
  assumes "\<not> P i"
  shows "length (filter (\<lambda>d. d \<noteq> i \<and> \<not> P d) ds) = length (filter (\<lambda>d. \<not> P d) ds) - count_list ds i"
proof -
  have "length (filter (\<lambda>d. \<not> P d) ds) = length (filter (\<lambda>d. d \<noteq> i \<and> \<not> P d) ds) + count_list ds i"
    using assms by (induction ds) auto
  then show ?thesis by simp
qed

text \<open>Settling a model as satisfied and releasing its dependents.\<close>

lemma deps_inv_satisfy:
  assumes inv: "deps_inv cx seeds status remaining" and wf: "distinct (planned_ids cx)"
    and i: "i \<in> set (planned_ids cx)" "\<not> settled status i"
    and x: "is_satisfied x" "x = Passed \<Longrightarrow> status i = Some Running"
  shows "deps_inv cx seeds (status(i \<mapsto> x)) (fold release_one (dependents_of cx i) remaining)"
proof -
  let ?st = "status(i \<mapsto> x)"
  note inv' = deps_invD [OF inv]
  have unsat: "\<not> satisfied status i" using i(2) satisfied_settled by blast
  have wait: "waiting_on cx ?st j = filter (\<lambda>d. d \<noteq> i \<and> \<not> satisfied status d) (planned_deps cx j)" for j
    using x(1) by (auto simp: waiting_on_def satisfied_upd intro: filter_cong)
  have shrink: "set (waiting_on cx ?st j) \<subseteq> set (waiting_on cx status j)" for j
    by (auto simp: wait) (simp add: waiting_on_def)
  have br: "broken ?st j \<longleftrightarrow> broken status j" for j
    using x(1) i(2) broken_settled by (auto simp: broken_upd)
  have set': "settled status j \<Longrightarrow> settled ?st j" for j
    using x(1) satisfied_terminal by (simp add: settled_upd)
  show ?thesis
    unfolding deps_inv_def
  proof (intro conjI allI ballI impI)
    show "dom ?st = set (planned_ids cx)" using inv'(1) i(1) by auto
    fix j
    show "?st j \<noteq> Some Ready" "?st j \<noteq> Some Cancelled"
      using x(1) inv'(2,3) by (auto simp: is_satisfied_def)
    show "waiting_on cx ?st j = []" if "started ?st j"
    proof -
      have "started status j"
        using that x by (auto simp: started_upd started_def is_satisfied_def split: if_splits)
      then show ?thesis using inv'(5) shrink [of j] by force
    qed
    show "j \<in> seeds \<or> (\<exists>d\<in>set (planned_deps cx j). broken ?st d)" if "?st j = Some Blocked"
      using that inv'(7) [of j] x(1) br by (auto split: if_splits)
  next
    fix j assume j: "j \<in> set (planned_ids cx)"
    have "length (waiting_on cx ?st j) = length (waiting_on cx status j) - count_list (planned_deps cx j) i"
      unfolding wait using filter_length_remove [of "satisfied status" i, OF unsat] by (simp add: waiting_on_def)
    then show "fold release_one (dependents_of cx i) remaining j = Some (length (waiting_on cx ?st j))"
      using inv'(4) [OF j] j dependents_count [OF wf] by (simp add: release_fold)
  next
    fix j d assume "j \<in> set (planned_ids cx)" "d \<in> set (planned_deps cx j)" "broken ?st d"
    then show "settled ?st j" using br inv'(6) set' by blast
  qed
qed

text \<open>Starting a model that waits on nothing.\<close>

lemma deps_inv_start:
  assumes inv: "deps_inv cx seeds status remaining"
    and i: "status i = Some Pending" "waiting_on cx status i = []"
  shows "deps_inv cx seeds (status(i \<mapsto> Running)) remaining"
proof -
  let ?st = "status(i \<mapsto> Running)"
  note inv' = deps_invD [OF inv]
  have unsat: "\<not> satisfied status i" "\<not> settled status i"
    using i(1) by (simp_all add: satisfied_def settled_def status_or_default_def)
  then have sat: "satisfied ?st j \<longleftrightarrow> satisfied status j" and set': "settled ?st j \<longleftrightarrow> settled status j"
    and br: "broken ?st j \<longleftrightarrow> broken status j" for j
    using broken_settled by (auto simp: satisfied_upd settled_upd broken_upd)
  then have wait: "waiting_on cx ?st j = waiting_on cx status j" for j
    by (simp add: waiting_on_def)
  show ?thesis
    unfolding deps_inv_def
  proof (intro conjI allI ballI impI)
    show "dom ?st = set (planned_ids cx)" using inv'(1) i(1) by auto
    fix j
    show "?st j \<noteq> Some Ready" "?st j \<noteq> Some Cancelled" using inv'(2,3) by auto
    show "waiting_on cx ?st j = []" if "started ?st j"
      using that inv'(5) i(2) by (auto simp: wait started_upd split: if_splits)
    show "j \<in> seeds \<or> (\<exists>d\<in>set (planned_deps cx j). broken ?st d)" if "?st j = Some Blocked"
      using that inv'(7) [of j] br by (auto split: if_splits)
  next
    fix j assume "j \<in> set (planned_ids cx)"
    then show "remaining j = Some (length (waiting_on cx ?st j))" using inv'(4) by (simp add: wait)
  next
    fix j d assume "j \<in> set (planned_ids cx)" "d \<in> set (planned_deps cx j)" "broken ?st d"
    then show "settled ?st j" using br inv'(6) set' by blast
  qed
qed

text \<open>Breaking a model and blocking what depends on it.\<close>

lemma deps_inv_break:
  assumes inv: "deps_inv cx seeds status remaining"
    and i: "i \<in> set (planned_ids cx)" "\<not> settled status i"
    and x: "x = Failed \<and> status i = Some Running \<or> x = Blocked \<and> i \<in> seeds"
    and bl: "blocks cx (map (Pair i) (dependents_of cx i)) s bl s'" "sc_status s = status(i \<mapsto> x)"
  shows "deps_inv cx seeds (sc_status s') remaining"
    and "\<And>b. b \<in> set bl \<Longrightarrow> status b = Some Pending \<and> b \<noteq> i \<and> waiting_on cx status b \<noteq> []"
    and "sc_status s' = (\<lambda>j. if j \<in> set bl then Some Blocked else (status(i \<mapsto> x)) j)"
proof -
  let ?st = "sc_status s'"
  note inv' = deps_invD [OF inv] and bl' = blocksD [OF bl(1)]
  show st: "?st = (\<lambda>j. if j \<in> set bl then Some Blocked else (status(i \<mapsto> x)) j)"
    using bl'(5) bl(2) by fastforce
  have new: "\<not> settled status b" "b \<noteq> i" if "b \<in> set bl" for b
    using bl'(1) [OF that] x by (auto simp: bl(2) settled_upd split: if_splits)
  have old: "?st j = status j" if "settled status j" for j
    using that new i(2) by (auto simp: st)
  have sat: "satisfied ?st j \<longleftrightarrow> satisfied status j" for j
  proof (cases "j = i \<or> j \<in> set bl")
    case True
    then have "\<not> settled status j" using new i(2) by auto
    then have "\<not> satisfied status j" using satisfied_settled by blast
    moreover have "\<not> satisfied ?st j"
      using True x by (auto simp: st satisfied_def status_or_default_def)
    ultimately show ?thesis by simp
  next
    case False
    then show ?thesis by (simp add: st satisfied_def status_or_default_def)
  qed
  then have wait: "waiting_on cx ?st j = waiting_on cx status j" for j
    by (simp add: waiting_on_def)
  have set': "settled ?st j" if "settled status j" for j
    using that old [OF that] by (simp add: settled_def status_or_default_def)
  have br: "broken ?st j \<longleftrightarrow> j = i \<or> j \<in> set bl \<or> broken status j" for j
    using x new i(2) broken_settled by (auto simp: st broken_def)
  have cause: "\<exists>d \<in> set (planned_deps cx b). d = i \<or> d \<in> set bl" if "b \<in> set bl" for b
    using bl'(4) [OF that] in_dependents by auto
  have pend: "waiting_on cx status b \<noteq> []" if b: "b \<in> set bl" for b
  proof -
    obtain d where d: "d \<in> set (planned_deps cx b)" "d = i \<or> d \<in> set bl" using cause [OF b] by blast
    then have "\<not> satisfied status d" using new i(2) satisfied_settled by blast
    with d(1) show ?thesis by (auto simp: waiting_on_def filter_empty_conv)
  qed
  have planned: "b \<in> set (planned_ids cx)" if "b \<in> set bl" for b
    using bl'(4) [OF that] in_dependents by auto
  show "\<And>b. b \<in> set bl \<Longrightarrow> status b = Some Pending \<and> b \<noteq> i \<and> waiting_on cx status b \<noteq> []"
  proof (intro conjI)
    fix b assume b: "b \<in> set bl"
    obtain y where y: "status b = Some y" using planned [OF b] inv'(1) by (metis domD)
    have "\<not> started status b" using inv'(5) pend [OF b] by blast
    then show "status b = Some Pending"
      using new(1) [OF b] y inv'(2,3) [of b]
      by (cases y) (auto simp: started_def settled_def status_or_default_def)
    show "b \<noteq> i" "waiting_on cx status b \<noteq> []" using new(2) pend b by auto
  qed
  show "deps_inv cx seeds ?st remaining"
    unfolding deps_inv_def
  proof (intro conjI allI ballI impI)
    show "dom ?st = set (planned_ids cx)"
      using inv'(1) i(1) planned by (auto simp: st dom_def split: if_splits)
    fix j
    show "?st j \<noteq> Some Ready" "?st j \<noteq> Some Cancelled" using inv'(2,3) x by (auto simp: st)
    show "waiting_on cx ?st j = []" if "started ?st j"
    proof -
      have "started status j" using that x by (auto simp: st started_def split: if_splits)
      then show ?thesis using inv'(5) wait by simp
    qed
    show "j \<in> seeds \<or> (\<exists>d\<in>set (planned_deps cx j). broken ?st d)" if "?st j = Some Blocked"
    proof (cases "j \<in> set bl")
      case True
      then show ?thesis using cause br by blast
    next
      case False
      then show ?thesis using that x inv'(7) [of j] br by (auto simp: st split: if_splits)
    qed
  next
    fix j assume "j \<in> set (planned_ids cx)"
    then show "remaining j = Some (length (waiting_on cx ?st j))" using inv'(4) by (simp add: wait)
  next
    fix j d assume j: "j \<in> set (planned_ids cx)" and d: "d \<in> set (planned_deps cx j)" "broken ?st d"
    from d(2) consider "d = i" | "d \<in> set bl" | "broken status d" using br by blast
    then show "settled ?st j"
    proof cases
      case 1
      then have "(i, j) \<in> set (map (Pair i) (dependents_of cx i))" using d(1) j by (simp add: in_dependents)
      from bl'(2) [OF this] show ?thesis by simp
    next
      case 2
      then show ?thesis using bl'(3) d(1) j in_dependents by blast
    next
      case 3
      then show ?thesis using inv'(6) [OF j d(1)] set' by blast
    qed
  qed
qed

section \<open>Results follow the status\<close>

definition res_ok :: "(model_id \<times> model_result) list \<Rightarrow> (model_id \<rightharpoonup> execution_status) \<Rightarrow> bool" where
  "res_ok results status \<longleftrightarrow>
     bm_ok results \<and>
     (\<forall>i. map_option mres_status (map_of results i) = (if settled status i then status i else None))"

lemma res_ok_put:
  "res_ok results status \<Longrightarrow> mres_status r = x \<Longrightarrow> is_terminal x \<Longrightarrow>
     res_ok (bm_insert i r results) (status(i \<mapsto> x))"
  unfolding res_ok_def
proof (elim conjE, intro conjI allI)
  fix j
  assume ok: "bm_ok results" and x: "mres_status r = x" "is_terminal x"
    and get: "\<forall>i. map_option mres_status (map_of results i) = (if settled status i then status i else None)"
  show "map_option mres_status (map_of (bm_insert i r results) j) =
      (if settled (status(i \<mapsto> x)) j then (status(i \<mapsto> x)) j else None)"
  proof (cases "j = i")
    case True
    then show ?thesis using x by (simp add: bm_insert_get [OF ok] settled_upd)
  next
    case False
    then show ?thesis using get
      by (simp only: bm_insert_get [OF ok] settled_upd fun_upd_other if_False simp_thms)
  qed
qed (rule bm_insert_ok)

lemma res_ok_open: "res_ok results status \<Longrightarrow> \<not> settled status i \<Longrightarrow> \<not> is_terminal x \<Longrightarrow> res_ok results (status(i \<mapsto> x))"
  by (auto simp: res_ok_def settled_upd)

lemma mres_status_simps [simp]:
  "mres_status (model_result_of sha m st as a b d info) = st"
  "mres_status (with_failure f r) = mres_status r"
  "mres_status (add_reason t r) = mres_status r"
  "mres_status (idle_result cx s m i st) = st"
  "mres_status (ran_result cx s m co st) = st"
  "mres_status (passed_result cx s m co q) = Passed"
  "mres_status (failed_result cx s m co f) = Failed"
  by (simp_all add: model_result_of_def with_failure_def add_reason_def idle_result_def ran_result_def
      passed_result_def failed_result_def split: prod.splits)

lemma mres_status_settled [simp]:
  "mres_status (settled_result cx s m i action) = (if action = Cached then CachedStatus else Skipped)"
  by (simp add: settled_result_def Let_def split: option.split)

lemma wf_model:
  "wf_context cx \<Longrightarrow> i \<in> set (planned_ids cx) \<Longrightarrow>
     \<exists>m. compilation_model (rx_compilation cx) i = Some m \<and> cm_id m = i"
  by (simp add: wf_context_def)

lemma work_planned: "snd ` set (map (Pair i) (dependents_of cx i)) \<subseteq> set (planned_ids cx)"
  using dependents_planned [of cx i] by auto

lemma block_list_results:
  assumes "wf_context cx" "res_ok (sc_results s) (sc_status s)"
    "snd ` set work \<subseteq> set (planned_ids cx)" "block_list cx work s = (bl, s')"
  shows "res_ok (sc_results s') (sc_status s')"
  using assms
proof (induction cx work s arbitrary: bl s' rule: block_list.induct)
  case (1 cx s)
  then show ?case by simp
next
  case (2 cx cause child rest s)
  show ?case
  proof (cases "settled (sc_status s) child")
    case True
    with 2 show ?thesis by simp
  next
    case False
    let ?s = "mark_blocked cx cause child s"
    let ?work = "map (Pair child) (dependents_of cx child) @ rest"
    obtain bl' where bl: "block_list cx ?work ?s = (bl', s')"
      using "2.prems"(4) False by (auto split: prod.splits)
    obtain m where m: "compilation_model (rx_compilation cx) child = Some m"
      using wf_model [OF "2.prems"(1)] "2.prems"(3) by auto
    have "res_ok (sc_results ?s) (sc_status ?s)"
      using "2.prems"(2) m
      by (simp add: mark_blocked_def Let_def set_status_def emit_def put_result_def res_ok_put)
    moreover have "snd ` set ?work \<subseteq> set (planned_ids cx)"
      using "2.prems"(3) dependents_planned [of cx child] by auto
    ultimately show ?thesis using "2.IH"(2) [OF False "2.prems"(1) _ _ bl] by blast
  qed
qed

text \<open>The fields that matter to the schedule, and those \<open>block_dependents\<close> leaves alone.\<close>

definition core :: "sched \<Rightarrow> (model_id \<rightharpoonup> nat) \<times> (model_id \<rightharpoonup> planned_model) \<times> model_id list \<times> model_task list
    \<times> bool \<times> bool" where
  "core s = (sc_remaining s, sc_info s, sc_ready s, sc_running s, sc_cancelled s, sc_fail_fast s)"

lemma coreD:
  assumes "core s = core t"
  shows "sc_remaining s = sc_remaining t" "sc_info s = sc_info t" "sc_ready s = sc_ready t"
    "sc_running s = sc_running t" "sc_cancelled s = sc_cancelled t" "sc_fail_fast s = sc_fail_fast t"
  using assms by (simp_all add: core_def)

lemma persist_core:
  "persist_model cx r s = Inr s' \<Longrightarrow> core s' = core s \<and> sc_status s' = sc_status s \<and> sc_results s' = sc_results s"
  by (drule persist_model_Inr) (auto simp: core_def)

lemma block_dependents_Inr:
  assumes "block_dependents cx i s = Inr s'"
  obtains bl u where "block_list cx (map (Pair i) (dependents_of cx i)) s = (bl, u)"
    "core s' = core s" "sc_status s' = sc_status u" "sc_results s' = sc_results u"
    "blocks cx (map (Pair i) (dependents_of cx i)) s bl u"
proof -
  obtain bl u where u: "block_list cx (map (Pair i) (dependents_of cx i)) s = (bl, u)"
    "persist_blocked cx bl u = Inr s'"
    using assms by (auto simp: block_dependents_def split: prod.splits)
  have bs: "blocks cx (map (Pair i) (dependents_of cx i)) s bl u" by (rule block_list_blocks [OF u(1)])
  then have "core u = core s" using blocksD(5) by (fastforce simp: core_def)
  then show ?thesis using that [OF u(1)] persist_blocked_Inr [OF u(2)] bs by (auto simp: core_def)
qed

section \<open>The invariant of the preparation\<close>

definition prep_inv :: "run_context \<Rightarrow> model_id set \<Rightarrow> sched \<Rightarrow> bool" where
  "prep_inv cx seeds s \<longleftrightarrow>
     deps_inv cx seeds (sc_status s) (sc_remaining s) \<and> res_ok (sc_results s) (sc_status s) \<and>
     sc_running s = [] \<and> sc_ready s = [] \<and> (\<forall>i. \<not> started (sc_status s) i)"

lemma prep_invD:
  assumes "prep_inv cx seeds s"
  shows "deps_inv cx seeds (sc_status s) (sc_remaining s)" "res_ok (sc_results s) (sc_status s)"
    "sc_running s = []" "sc_ready s = []" "\<And>i. \<not> started (sc_status s) i"
  using assms by (simp_all add: prep_inv_def)

lemma prep_inv_cong:
  assumes "prep_inv cx seeds s" "core s' = core s" "sc_status s' = sc_status s" "sc_results s' = sc_results s"
  shows "prep_inv cx seeds s'"
  using assms coreD [OF assms(2)] by (simp add: prep_inv_def)

lemma map_of_const: "map_of (map (\<lambda>i. (i, f i)) xs) i = (if i \<in> set xs then Some (f i) else None)"
  by (induction xs) auto

lemma initial_prep_inv: "prep_inv cx seeds (initial_sched cx cancelled fail_fast events)"
proof -
  let ?s = "initial_sched cx cancelled fail_fast events"
  have st: "sc_status ?s i = (if i \<in> set (planned_ids cx) then Some Pending else None)" for i
    by (simp add: initial_sched_def map_of_const)
  have open': "\<not> settled (sc_status ?s) i" "\<not> satisfied (sc_status ?s) i" "\<not> broken (sc_status ?s) i"
      "\<not> started (sc_status ?s) i" for i
    by (auto simp: settled_def satisfied_def broken_def started_def status_or_default_def st)
  have "waiting_on cx (sc_status ?s) i = planned_deps cx i" for i
    by (simp add: waiting_on_def open')
  moreover have "dom (sc_status ?s) = set (planned_ids cx)"
    by (auto simp: st dom_def)
  moreover have "sc_remaining ?s i = Some (length (planned_deps cx i))" if "i \<in> set (planned_ids cx)" for i
    using that by (simp add: initial_sched_def map_of_const)
  ultimately show ?thesis
    by (simp add: prep_inv_def deps_inv_def res_ok_def open' st) (simp add: initial_sched_def)
qed

lemma prep_inv_satisfy:
  assumes "wf_context cx" "prep_inv cx seeds s" "i \<in> set (planned_ids cx)" "\<not> settled (sc_status s) i"
    "x = CachedStatus \<or> x = Skipped" "mres_status r = x"
    "sc_status s' = (sc_status s)(i \<mapsto> x)" "sc_results s' = bm_insert i r (sc_results s)"
    "sc_remaining s' = fold release_one (dependents_of cx i) (sc_remaining s)"
    "sc_running s' = []" "sc_ready s' = []"
  shows "prep_inv cx seeds s'"
proof -
  note inv = prep_invD [OF assms(2)]
  have "deps_inv cx seeds (sc_status s') (sc_remaining s')"
    unfolding assms(7,9)
    by (rule deps_inv_satisfy [OF inv(1) _ assms(3,4)]) (use assms(1,5) in \<open>auto simp: wf_context_def\<close>)
  moreover have "res_ok (sc_results s') (sc_status s')"
    unfolding assms(7,8) by (rule res_ok_put [OF inv(2)]) (use assms(5,6) in auto)
  moreover have "\<not> started (sc_status s') j" for j
    using inv(5) assms(5) by (auto simp: assms(7) started_upd)
  ultimately show ?thesis using assms(10,11) by (simp add: prep_inv_def)
qed

lemma fold_invariant_list:
  "P s \<Longrightarrow> (\<And>x s. x \<in> set xs \<Longrightarrow> P s \<Longrightarrow> P (f x s)) \<Longrightarrow> P (fold f xs s)"
  by (induction xs arbitrary: s) auto


lemma reuse_prior_prep:
  assumes wf: "wf_context cx" and "prep_inv cx seeds s" "i \<in> set (planned_ids cx)" "\<not> settled (sc_status s) i"
  shows "prep_inv cx seeds (reuse_prior cx i s)"
    and "\<And>j. j \<noteq> i \<Longrightarrow> sc_status (reuse_prior cx i s) j = sc_status s j"
proof -
  obtain m where m: "compilation_model (rx_compilation cx) i = Some m" using wf_model [OF wf assms(3)] by blast
  let ?c = "planned_exists s i \<and> reusable_model (rx_prior_models cx) i (mv_hash (cm_version m)) \<noteq> None"
  show "prep_inv cx seeds (reuse_prior cx i s)"
  proof (cases ?c)
    case True
    then show ?thesis
      using prep_invD(3,4) [OF assms(2)]
      by (intro prep_inv_satisfy [OF assms, of CachedStatus])
         (auto simp: reuse_prior_def m release_dependents_def put_result_def emit_def set_status_def)
  next
    case False
    then show ?thesis using assms(2) by (auto simp: reuse_prior_def m)
  qed
  show "\<And>j. j \<noteq> i \<Longrightarrow> sc_status (reuse_prior cx i s) j = sc_status s j"
    by (simp add: reuse_prior_def m release_dependents_def put_result_def emit_def set_status_def)
qed

lemma reuse_fold_prep:
  assumes "wf_context cx"
  shows "prep_inv cx seeds s \<Longrightarrow> distinct xs \<Longrightarrow> set xs \<subseteq> set (planned_ids cx) \<Longrightarrow>
    (\<forall>i \<in> set xs. \<not> settled (sc_status s) i) \<Longrightarrow> prep_inv cx seeds (fold (reuse_prior cx) xs s)"
proof (induction xs arbitrary: s)
  case Nil
  then show ?case by simp
next
  case (Cons x xs)
  then have x: "x \<in> set (planned_ids cx)" "\<not> settled (sc_status s) x" by auto
  have "\<forall>i \<in> set xs. \<not> settled (sc_status (reuse_prior cx x s)) i"
  proof
    fix i assume "i \<in> set xs"
    with Cons.prems(2,4) have "i \<noteq> x" "\<not> settled (sc_status s) i" by auto
    then show "\<not> settled (sc_status (reuse_prior cx x s)) i"
      using reuse_prior_prep(2) [OF assms Cons.prems(1) x, of i] by (simp add: settled_def status_or_default_def)
  qed
  with Cons reuse_prior_prep(1) [OF assms Cons.prems(1) x] show ?case by simp
qed

lemma fall_back_core:
  "sc_status (fall_back cx i s) = sc_status s" "sc_results (fall_back cx i s) = sc_results s"
  "sc_remaining (fall_back cx i s) = sc_remaining s" "sc_running (fall_back cx i s) = sc_running s"
  "sc_ready (fall_back cx i s) = sc_ready s" "sc_cancelled (fall_back cx i s) = sc_cancelled s"
  "sc_fail_fast (fall_back cx i s) = sc_fail_fast s"
  by (simp_all add: fall_back_def split: option.split)

lemma settle_as_Inr:
  assumes "wf_context cx" "i \<in> set (planned_ids cx)" "settle_as cx i action s = Inr s'"
  defines "x \<equiv> (if action = Cached then CachedStatus else Skipped)"
  obtains r where "mres_status r = x" "sc_status s' = (sc_status s)(i \<mapsto> x)"
    "sc_results s' = bm_insert i r (sc_results s)"
    "sc_remaining s' = fold release_one (dependents_of cx i) (sc_remaining s)"
    "sc_running s' = sc_running s" "sc_ready s' = sc_ready s" "sc_info s' = sc_info s"
proof -
  obtain m where m: "compilation_model (rx_compilation cx) i = Some m" using wf_model [OF assms(1,2)] by blast
  let ?r = "settled_result cx s m i action"
  obtain s2 where s2: "persist_model cx ?r (emit [finished_event i x] (set_status i x s)) = Inr s2"
    "s' = release_dependents cx i (put_result i ?r s2)"
    using assms(3) by (auto simp: settle_as_def m then_run_Inr Let_def x_def)
  note p = persist_core [OF s2(1)]
  show thesis
    by (rule that [of ?r]) (use p coreD [OF conjunct1 [OF p]] in
      \<open>simp_all add: s2(2) release_dependents_def put_result_def emit_def set_status_def x_def\<close>)
qed

lemma settle_as_prep:
  assumes wf: "wf_context cx" and inv: "prep_inv cx seeds s" and i: "i \<in> set (planned_ids cx)"
    and pending: "sc_status s i = Some Pending" and step: "settle_as cx i action s = Inr s'"
  shows "prep_inv cx seeds s'"
proof -
  have open': "\<not> settled (sc_status s) i" using pending by (simp add: settled_def status_or_default_def)
  obtain r where r: "mres_status r = (if action = Cached then CachedStatus else Skipped)"
    "sc_status s' = (sc_status s)(i \<mapsto> if action = Cached then CachedStatus else Skipped)"
    "sc_results s' = bm_insert i r (sc_results s)"
    "sc_remaining s' = fold release_one (dependents_of cx i) (sc_remaining s)"
    "sc_running s' = sc_running s" "sc_ready s' = sc_ready s"
    by (rule settle_as_Inr [OF wf i step])
  show ?thesis
    by (rule prep_inv_satisfy [OF wf inv i open' _ r(1-4)]) (simp_all add: r(5,6) prep_invD(3,4) [OF inv])
qed

lemma skip_or_adopt_prep:
  assumes wf: "wf_context cx" and inv: "prep_inv cx seeds s" and i: "i \<in> set (planned_ids cx)"
    and step: "skip_or_adopt cx i s = Inr s'"
  shows "prep_inv cx seeds s'"
proof -
  let ?a = "planned_action s i"
  show ?thesis
  proof (cases "sc_status s i \<noteq> Some Pending \<or> ?a = Build \<or> ?a = Unknown")
    case True
    with step have "s' = s" by (simp add: skip_or_adopt_def)
    then show ?thesis using inv by simp
  next
    case False
    then have pending: "sc_status s i = Some Pending" by simp
    consider "?a = Cached" "\<not> adoptable cx s i" | "?a = Cached" "adoptable cx s i" | "?a \<noteq> Cached" by blast
    then show ?thesis
    proof cases
      case 1
      with False step have "s' = fall_back cx i s" by (simp add: skip_or_adopt_def)
      then show ?thesis using inv by (simp add: prep_inv_def fall_back_core)
    next
      case 2
      with False step obtain t where t: "adopt cx i s = Inr t" "settle_as cx i Cached t = Inr s'"
        by (cases "adopt cx i s") (simp_all add: skip_or_adopt_def then_run_def)
      from adopt_Inr [OF t(1)] obtain ms ws where eq: "t = s\<lparr>sc_materialized := ms, sc_watermarks := ws\<rparr>"
        by blast
      have "prep_inv cx seeds t" by (rule prep_inv_cong [OF inv]) (simp_all add: eq core_def)
      then show ?thesis by (rule settle_as_prep [OF wf _ i _ t(2)]) (simp add: eq pending)
    next
      case 3
      with False step have "settle_as cx i ?a s = Inr s'" by (simp add: skip_or_adopt_def)
      then show ?thesis by (rule settle_as_prep [OF wf inv i pending])
    qed
  qed
qed

definition seed_readers :: "run_context \<Rightarrow> string list \<Rightarrow> model_id set" where
  "seed_readers cx failed =
     {i. case compilation_model (rx_compilation cx) i of Some m \<Rightarrow> reads_seed cx failed m | None \<Rightarrow> False}"

lemma block_seed_reader_prep:
  assumes wf: "wf_context cx" and inv: "prep_inv cx (seed_readers cx failed) s" and i: "i \<in> set (planned_ids cx)"
    and step: "block_seed_reader cx failed i s = Inr s'"
  shows "prep_inv cx (seed_readers cx failed) s'"
proof -
  obtain m where m: "compilation_model (rx_compilation cx) i = Some m" using wf_model [OF wf i] by blast
  show ?thesis
  proof (cases "sc_status s i = Some Pending \<and> reads_seed cx failed m")
    case False
    then show ?thesis using step inv by (auto simp: block_seed_reader_def m split: if_splits)
  next
    case True
    let ?r = "with_failure (without_attempt (rx_clock cx i) DependencyFailure
        ''blocked by a failed seed load'') (idle_result cx s m i Blocked)"
    obtain s1 where s1: "persist_model cx ?r (emit [finished_event i Blocked] (set_status i Blocked s)) = Inr s1"
      "block_dependents cx i (put_result i ?r s1) = Inr s'"
      using True step by (auto simp: block_seed_reader_def m then_run_Inr Let_def)
    note p = persist_core [OF s1(1)] and pi = prep_invD [OF inv]
    let ?t = "put_result i ?r s1"
    have t: "sc_status ?t = (sc_status s)(i \<mapsto> Blocked)" "core ?t = core s"
      "sc_results ?t = bm_insert i ?r (sc_results s)"
      using p by (simp_all add: put_result_def emit_def set_status_def core_def)
    obtain bl u where u: "block_list cx (map (Pair i) (dependents_of cx i)) ?t = (bl, u)"
      "core s' = core ?t" "sc_status s' = sc_status u" "sc_results s' = sc_results u"
      "blocks cx (map (Pair i) (dependents_of cx i)) ?t bl u"
      by (rule block_dependents_Inr [OF s1(2)])
    have open': "\<not> settled (sc_status s) i" using True by (simp add: settled_def status_or_default_def)
    have seed: "i \<in> seed_readers cx failed" using True by (simp add: seed_readers_def m)
    have br: "Blocked = Failed \<and> sc_status s i = Some Running \<or> Blocked = Blocked \<and> i \<in> seed_readers cx failed"
      using seed by simp
    note d = deps_inv_break [OF pi(1) i open' br u(5) t(1)]
    have "res_ok (sc_results ?t) (sc_status ?t)"
      unfolding t(1,3) by (rule res_ok_put [OF pi(2)]) simp_all
    from block_list_results [OF wf this work_planned u(1)]
    have "res_ok (sc_results u) (sc_status u)" .
    moreover have "\<not> started (sc_status u) j" for j
      using pi(5) [of j] by (auto simp: d(3) started_def)
    ultimately show ?thesis
      using d(1) u(2-4) t(2) pi(3,4) coreD [OF u(2)] coreD [OF t(2)] by (simp add: prep_inv_def)
  qed
qed

section \<open>The invariant of the loop\<close>

definition task_for :: "run_context \<Rightarrow> planned_model option \<Rightarrow> model_id \<Rightarrow> model_task option" where
  "task_for cx info i =
     (case compilation_model (rx_compilation cx) i of
        None \<Rightarrow> None
      | Some m \<Rightarrow> map_option (task_of cx m info) (exec_op m info))"

text \<open>Whether the task of a model passes, given what it meets.\<close>

definition task_passes :: "run_context \<Rightarrow> sched \<Rightarrow> model_id \<Rightarrow> bool" where
  "task_passes cx pre i =
     (case task_for cx (sc_info pre i) i of
        None \<Rightarrow> False
      | Some t \<Rightarrow> (case co_outcome (lg_completion (task_log_of cx t)) of Inr _ \<Rightarrow> True | Inl _ \<Rightarrow> False))"

definition queue_inv :: "run_context \<Rightarrow> sched \<Rightarrow> model_id list \<Rightarrow> sched \<Rightarrow> bool" where
  "queue_inv cx pre ready s \<longleftrightarrow>
     distinct (map tk_id (sc_running s)) \<and> length (sc_running s) \<le> concurrency cx \<and>
     (\<forall>t \<in> set (sc_running s). sc_status s (tk_id t) = Some Running \<and>
        task_for cx (sc_info pre (tk_id t)) (tk_id t) = Some t) \<and>
     (\<not> stopped s \<longrightarrow> (\<forall>i. sc_status s i = Some Running \<longrightarrow> i \<in> tk_id ` set (sc_running s))) \<and>
     (\<forall>i \<in> set ready. i \<in> set (planned_ids cx) \<and> waiting_on cx (sc_status s) i = []) \<and>
     (\<not> stopped s \<longrightarrow>
        (\<forall>i. sc_status s i = Some Pending \<longrightarrow> waiting_on cx (sc_status s) i = [] \<longrightarrow> i \<in> set ready))"

definition pre_inv :: "run_context \<Rightarrow> sched \<Rightarrow> (model_id \<rightharpoonup> execution_status) \<Rightarrow> bool" where
  "pre_inv cx pre status \<longleftrightarrow>
     (\<forall>i. settled (sc_status pre) i \<longrightarrow> status i = sc_status pre i) \<and>
     (\<forall>i. status i = Some CachedStatus \<or> status i = Some Skipped \<longrightarrow> settled (sc_status pre) i) \<and>
     (\<forall>i. status i = Some Passed \<longrightarrow> task_passes cx pre i) \<and>
     (\<forall>i. status i = Some Failed \<longrightarrow> \<not> task_passes cx pre i)"

definition loop_inv :: "run_context \<Rightarrow> sched \<Rightarrow> model_id list \<Rightarrow> sched \<Rightarrow> bool" where
  "loop_inv cx pre ready s \<longleftrightarrow>
     deps_inv cx {i. sc_status pre i = Some Blocked} (sc_status s) (sc_remaining s) \<and>
     res_ok (sc_results s) (sc_status s) \<and> queue_inv cx pre ready s \<and> pre_inv cx pre (sc_status s) \<and>
     sc_info s = sc_info pre"

lemma loop_invD:
  assumes "loop_inv cx pre ready s"
  shows "deps_inv cx {i. sc_status pre i = Some Blocked} (sc_status s) (sc_remaining s)"
    "res_ok (sc_results s) (sc_status s)" "queue_inv cx pre ready s" "pre_inv cx pre (sc_status s)"
    "sc_info s = sc_info pre"
  using assms by (simp_all add: loop_inv_def)

lemma queue_invD:
  assumes "queue_inv cx pre ready s"
  shows "distinct (map tk_id (sc_running s))" "length (sc_running s) \<le> concurrency cx"
    "\<And>t. t \<in> set (sc_running s) \<Longrightarrow> sc_status s (tk_id t) = Some Running"
    "\<And>t. t \<in> set (sc_running s) \<Longrightarrow> task_for cx (sc_info pre (tk_id t)) (tk_id t) = Some t"
    "\<And>i. \<not> stopped s \<Longrightarrow> sc_status s i = Some Running \<Longrightarrow> i \<in> tk_id ` set (sc_running s)"
    "\<And>i. i \<in> set ready \<Longrightarrow> i \<in> set (planned_ids cx)"
    "\<And>i. i \<in> set ready \<Longrightarrow> waiting_on cx (sc_status s) i = []"
    "\<And>i. \<not> stopped s \<Longrightarrow> sc_status s i = Some Pending \<Longrightarrow> waiting_on cx (sc_status s) i = [] \<Longrightarrow> i \<in> set ready"
  using assms unfolding queue_inv_def by blast+

lemma pre_invD:
  assumes "pre_inv cx pre status"
  shows "\<And>i. settled (sc_status pre) i \<Longrightarrow> status i = sc_status pre i"
    "\<And>i. status i = Some CachedStatus \<or> status i = Some Skipped \<Longrightarrow> settled (sc_status pre) i"
    "\<And>i. status i = Some Passed \<Longrightarrow> task_passes cx pre i"
    "\<And>i. status i = Some Failed \<Longrightarrow> \<not> task_passes cx pre i"
  using assms unfolding pre_inv_def by blast+

lemma stopped_cong:
  "sc_cancelled s = sc_cancelled t \<Longrightarrow> sc_fail_fast s = sc_fail_fast t \<Longrightarrow> stopped s = stopped t"
  by (simp add: stopped_def)

lemma is_ready_iff:
  assumes "deps_inv cx seeds (sc_status s) (sc_remaining s)" "i \<in> set (planned_ids cx)"
  shows "is_ready s i \<longleftrightarrow> sc_status s i = Some Pending \<and> waiting_on cx (sc_status s) i = []"
  using deps_invD(4) [OF assms] by (auto simp: is_ready_def)

lemma pending_planned: "deps_inv cx seeds status remaining \<Longrightarrow> status i = Some x \<Longrightarrow> i \<in> set (planned_ids cx)"
  using deps_invD(1) by (metis domI)

subsection \<open>Starting\<close>

lemma pre_inv_upd:
  assumes "pre_inv cx pre status" "\<not> settled status i"
    "x = Running \<or> x = Blocked \<or> x = Passed \<and> task_passes cx pre i \<or> x = Failed \<and> \<not> task_passes cx pre i"
  shows "pre_inv cx pre (status(i \<mapsto> x))"
proof -
  have "\<not> settled (sc_status pre) i"
    using pre_invD(1) [OF assms(1), of i] assms(2) by (auto simp: settled_def status_or_default_def)
  show ?thesis
    unfolding pre_inv_def
  proof (intro conjI allI impI)
    fix j
    show "(status(i \<mapsto> x)) j = sc_status pre j" if "settled (sc_status pre) j"
      using that pre_invD(1) [OF assms(1) that] \<open>\<not> settled (sc_status pre) i\<close> by (cases "j = i") simp_all
    show "settled (sc_status pre) j" if "(status(i \<mapsto> x)) j = Some CachedStatus \<or> (status(i \<mapsto> x)) j = Some Skipped"
      using that assms(3) pre_invD(2) [OF assms(1), of j] by (cases "j = i") auto
    show "task_passes cx pre j" if "(status(i \<mapsto> x)) j = Some Passed"
      using that assms(3) pre_invD(3) [OF assms(1), of j] by (cases "j = i") auto
    show "\<not> task_passes cx pre j" if "(status(i \<mapsto> x)) j = Some Failed"
      using that assms(3) pre_invD(4) [OF assms(1), of j] by (cases "j = i") auto
  qed
qed

lemma start_model_inv:
  assumes wf: "wf_context cx" and inv: "loop_inv cx pre (i # rest) s" and run: "\<not> stopped s"
    and slot: "length (sc_running s) < concurrency cx" and pending: "sc_status s i = Some Pending"
    and step: "start_model cx i s = Inr s'"
  shows "loop_inv cx pre rest s'" "\<not> stopped s'"
    "sc_status s' = (sc_status s)(i \<mapsto> Running)" "length (sc_running s') = Suc (length (sc_running s))"
proof -
  note li = loop_invD [OF inv] and qi = queue_invD [OF loop_invD(3) [OF inv]]
  have i: "i \<in> set (planned_ids cx)" "waiting_on cx (sc_status s) i = []" using qi(6,7) by simp_all
  obtain m where m: "compilation_model (rx_compilation cx) i = Some m" "cm_id m = i"
    using wf_model [OF wf i(1)] by blast
  obtain s2 operation where s2: "persist_record cx (model_start_record (rx_sha cx) (rx_run_id cx) m (rx_clock cx i) (sc_info s i))
      (emit [ModelStarted (logical_name i)] (set_status i Running s)) = Inr s2"
    "exec_op m (sc_info s i) = Some operation"
    "s' = s2\<lparr>sc_running := sc_running s2 @ [task_of cx m (sc_info s i) operation]\<rparr>"
    using step by (auto simp: start_model_def m Let_def then_run_Inr split: option.splits)
  let ?t = "task_of cx m (sc_info s i) operation"
  obtain ws where s2': "s2 = (emit [ModelStarted (logical_name i)] (set_status i Running s))\<lparr>sc_writes := ws\<rparr>"
    using persist_record_Inr [OF s2(1)] by blast
  have st: "sc_status s' = (sc_status s)(i \<mapsto> Running)" and run': "sc_running s' = sc_running s @ [?t]"
    and same: "sc_remaining s' = sc_remaining s" "sc_results s' = sc_results s" "sc_info s' = sc_info s"
      "sc_cancelled s' = sc_cancelled s" "sc_fail_fast s' = sc_fail_fast s"
    by (simp_all add: s2(3) s2' emit_def set_status_def)
  show "sc_status s' = (sc_status s)(i \<mapsto> Running)" "length (sc_running s') = Suc (length (sc_running s))"
    using st run' by simp_all
  show "\<not> stopped s'" using run stopped_cong same by blast
  have open': "\<not> settled (sc_status s) i" "\<not> satisfied (sc_status s) i"
    using pending by (simp_all add: settled_def satisfied_def status_or_default_def)
  have wait: "waiting_on cx (sc_status s') j = waiting_on cx (sc_status s) j" for j
    using open' by (auto simp: waiting_on_def st satisfied_upd intro: filter_cong)
  have tid: "tk_id ?t = i" by (simp add: task_of_def m(2))
  have "queue_inv cx pre rest s'"
    unfolding queue_inv_def
  proof (intro conjI ballI impI allI)
    have "i \<notin> tk_id ` set (sc_running s)" using qi(3) pending by fastforce
    then show "distinct (map tk_id (sc_running s'))" using qi(1) by (auto simp: run' tid)
    show "length (sc_running s') \<le> concurrency cx" using slot by (simp add: run')
    fix t assume "t \<in> set (sc_running s')"
    then consider "t = ?t" | "t \<in> set (sc_running s)" by (auto simp: run')
    then have "sc_status s' (tk_id t) = Some Running \<and> task_for cx (sc_info pre (tk_id t)) (tk_id t) = Some t"
    proof cases
      case 1
      then show ?thesis using s2(2) by (simp add: tid st task_for_def m(1) li(5) [symmetric])
    next
      case 2
      then show ?thesis using qi(3,4) [OF 2] by (simp add: st)
    qed
    then show "sc_status s' (tk_id t) = Some Running" "task_for cx (sc_info pre (tk_id t)) (tk_id t) = Some t"
      by blast+
  next
    fix j assume "sc_status s' j = Some Running"
    then show "j \<in> tk_id ` set (sc_running s')"
      using qi(5) [OF run, of j] tid by (auto simp: st run' split: if_splits)
  next
    fix j assume "j \<in> set rest"
    then show "j \<in> set (planned_ids cx)" "waiting_on cx (sc_status s') j = []"
      using qi(6,7) [of j] by (simp_all add: wait)
  next
    fix j assume "sc_status s' j = Some Pending" "waiting_on cx (sc_status s') j = []"
    then have "j \<noteq> i" "sc_status s j = Some Pending" "waiting_on cx (sc_status s) j = []"
      by (auto simp: st wait [unfolded st] split: if_splits)
    then show "j \<in> set rest" using qi(8) [OF run, of j] by simp
  qed
  moreover have "deps_inv cx {i. sc_status pre i = Some Blocked} (sc_status s') (sc_remaining s')"
    unfolding st same by (rule deps_inv_start [OF li(1) pending i(2)])
  moreover have "res_ok (sc_results s') (sc_status s')"
    unfolding st same by (rule res_ok_open [OF li(2) open'(1)]) simp
  moreover have "pre_inv cx pre (sc_status s')"
    unfolding st by (rule pre_inv_upd [OF li(4) open'(1)]) simp
  ultimately show "loop_inv cx pre rest s'" by (simp add: loop_inv_def same li(5))
qed

lemma loop_inv_skip:
  assumes "loop_inv cx pre (i # rest) s" "sc_status s i \<noteq> Some Pending"
  shows "loop_inv cx pre rest s"
proof -
  note qi = queue_invD [OF loop_invD(3) [OF assms(1)]]
  have "queue_inv cx pre rest s"
    unfolding queue_inv_def
  proof (intro conjI ballI impI allI)
    fix j assume "\<not> stopped s" "sc_status s j = Some Pending" "waiting_on cx (sc_status s) j = []"
    then show "j \<in> set rest" using qi(8) [of j] assms(2) by auto
  qed (use qi in auto)
  then show ?thesis using loop_invD [OF assms(1)] by (simp add: loop_inv_def)
qed

lemma loop_inv_ready:
  "loop_inv cx pre ready (s\<lparr>sc_ready := r\<rparr>) = loop_inv cx pre ready s"
  by (simp add: loop_inv_def queue_inv_def stopped_def)

lemma fill_list_inv:
  assumes "wf_context cx" "loop_inv cx pre ready s" "\<not> stopped s" "fill_list cx ready s = Inr s'"
  shows "loop_inv cx pre (sc_ready s') s'" "\<not> stopped s'"
proof -
  have "loop_inv cx pre (sc_ready s') s' \<and> \<not> stopped s'"
    using assms
  proof (induction ready arbitrary: s)
    case Nil
    then show ?case using loop_inv_ready [where ready = "[]" and s = s and r = "[]"] by (auto simp: stopped_def)
  next
    case (Cons i rest)
    consider "concurrency cx \<le> length (sc_running s)"
      | "length (sc_running s) < concurrency cx" "sc_status s i \<noteq> Some Pending"
      | "length (sc_running s) < concurrency cx" "sc_status s i = Some Pending" by linarith
    then show ?case
    proof cases
      case 1
      with Cons.prems(4) have "s' = s\<lparr>sc_ready := i # rest\<rparr>" by simp
      then show ?thesis
        using Cons.prems(2,3) loop_inv_ready [where ready = "i # rest" and s = s and r = "i # rest"]
        by (auto simp: stopped_def)
    next
      case 2
      then show ?thesis
        using Cons.IH [OF Cons.prems(1) loop_inv_skip [OF Cons.prems(2) 2(2)] Cons.prems(3)] Cons.prems(4) by simp
    next
      case 3
      with Cons.prems(4) obtain t where t: "start_model cx i s = Inr t" "fill_list cx rest t = Inr s'"
        by (auto simp: then_run_Inr)
      note st = start_model_inv [OF Cons.prems(1,2,3) 3 t(1)]
      show ?thesis by (rule Cons.IH [OF Cons.prems(1) st(1,2) t(2)])
    qed
  qed
  then show "loop_inv cx pre (sc_ready s') s'" "\<not> stopped s'" by simp_all
qed


subsection \<open>Joining\<close>

text \<open>What \<open>join_task\<close> and \<open>drain_task\<close> share: the task of a running model ends as it must.\<close>

lemma task_log_id [simp]: "co_id (lg_completion (task_log_of cx t)) = tk_id t"
  using model_attempts_bounded [of "rx_retry cx" "rx_world cx (tk_id t)" "rx_store cx" t]
  by (simp add: task_log_of_def Let_def)

lemma forget_running:
  "distinct (map tk_id (sc_running s)) \<Longrightarrow> sc_running (forget_task i s) = filter (\<lambda>t. tk_id t \<noteq> i) (sc_running s)"
  by (simp add: forget_task_def)

lemma forget_task_simps [simp]:
  "sc_status (forget_task i s) = sc_status s" "sc_remaining (forget_task i s) = sc_remaining s"
  "sc_results (forget_task i s) = sc_results s" "sc_info (forget_task i s) = sc_info s"
  "sc_ready (forget_task i s) = sc_ready s" "sc_cancelled (forget_task i s) = sc_cancelled s"
  "sc_fail_fast (forget_task i s) = sc_fail_fast s"
  "sc_running (forget_task i s) = filter (\<lambda>t. tk_id t \<noteq> i) (sc_running s)"
  by (simp_all add: forget_task_def)

lemma note_log_simps [simp]:
  "sc_status (note_log log s) = sc_status s" "sc_remaining (note_log log s) = sc_remaining s"
  "sc_results (note_log log s) = sc_results s" "sc_info (note_log log s) = sc_info s"
  "sc_ready (note_log log s) = sc_ready s" "sc_cancelled (note_log log s) = sc_cancelled s"
  "sc_fail_fast (note_log log s) = sc_fail_fast s" "sc_running (note_log log s) = sc_running s"
  by (simp_all add: note_log_def)

text \<open>A running model passes: its dependents are released, and those now waiting on nothing are queued.\<close>

lemma loop_inv_pass:
  assumes wf: "wf_context cx" and inv: "loop_inv cx pre ready s"
    and i: "sc_status s i = Some Running" "task_passes cx pre i" "mres_status r = Passed"
    and s': "sc_status s' = (sc_status s)(i \<mapsto> Passed)" "sc_results s' = bm_insert i r (sc_results s)"
      "sc_remaining s' = fold release_one (dependents_of cx i) (sc_remaining s)"
      "sc_running s' = filter (\<lambda>t. tk_id t \<noteq> i) (sc_running s)" "sc_info s' = sc_info s"
      "stopped s' \<longleftrightarrow> stopped s"
    and q: "\<not> stopped s \<Longrightarrow> ready' = ready @ filter (is_ready s') (dependents_of cx i)"
      "stopped s \<Longrightarrow> ready' = ready"
  shows "loop_inv cx pre ready' s'"
proof -
  note li = loop_invD [OF inv] and qi = queue_invD [OF loop_invD(3) [OF inv]]
  have planned: "i \<in> set (planned_ids cx)" by (rule pending_planned [OF li(1) i(1)])
  have open': "\<not> settled (sc_status s) i" using i(1) by (simp add: settled_def status_or_default_def)
  have unsat: "\<not> satisfied (sc_status s) i" using open' satisfied_settled by blast
  have dist: "distinct (planned_ids cx)" using wf by (simp add: wf_context_def)
  have deps: "deps_inv cx {i. sc_status pre i = Some Blocked} (sc_status s') (sc_remaining s')"
    unfolding s'(1,3) by (rule deps_inv_satisfy [OF li(1) dist planned open']) (use i(1) in simp_all)
  have wait: "waiting_on cx (sc_status s') j = filter (\<lambda>d. d \<noteq> i) (waiting_on cx (sc_status s) j)" for j
    by (auto simp: waiting_on_def s'(1) satisfied_upd intro: filter_cong)
  have ready: "is_ready s' j \<longleftrightarrow> sc_status s' j = Some Pending \<and> waiting_on cx (sc_status s') j = []"
    if "j \<in> set (planned_ids cx)" for j by (rule is_ready_iff [OF deps that])
  have "queue_inv cx pre ready' s'"
    unfolding queue_inv_def
  proof (intro conjI ballI impI allI)
    show "distinct (map tk_id (sc_running s'))" using qi(1) by (simp add: s'(4) distinct_map_filter)
    show "length (sc_running s') \<le> concurrency cx"
      unfolding s'(4) by (rule le_trans [OF length_filter_le qi(2)])
    fix t assume "t \<in> set (sc_running s')"
    then have t: "t \<in> set (sc_running s)" "tk_id t \<noteq> i" by (auto simp: s'(4))
    then show "sc_status s' (tk_id t) = Some Running" "task_for cx (sc_info pre (tk_id t)) (tk_id t) = Some t"
      using qi(3,4) [OF t(1)] by (simp_all add: s'(1))
  next
    fix j assume "\<not> stopped s'" "sc_status s' j = Some Running"
    then have "j \<noteq> i" "j \<in> tk_id ` set (sc_running s)"
      using qi(5) [of j] by (auto simp: s'(1,6) split: if_splits)
    then show "j \<in> tk_id ` set (sc_running s')" by (auto simp: s'(4))
  next
    fix j assume j: "j \<in> set ready'"
    have "j \<in> set ready \<or> j \<in> set (dependents_of cx i) \<and> is_ready s' j"
      using j q by (cases "stopped s") auto
    then show "j \<in> set (planned_ids cx)" "waiting_on cx (sc_status s') j = []"
      using qi(6,7) [of j] ready [of j] dependents_planned [of cx i] by (auto simp: wait)
  next
    fix j assume run: "\<not> stopped s'" and j: "sc_status s' j = Some Pending" "waiting_on cx (sc_status s') j = []"
    have "j \<noteq> i" "sc_status s j = Some Pending" using j(1) by (auto simp: s'(1) split: if_splits)
    show "j \<in> set ready'"
    proof (cases "waiting_on cx (sc_status s) j = []")
      case True
      then have "j \<in> set ready" using qi(8) run \<open>sc_status s j = Some Pending\<close> by (simp add: s'(6))
      then show ?thesis using q run by (simp add: s'(6))
    next
      case False
      then obtain d where d: "d \<in> set (waiting_on cx (sc_status s) j)"
        by (cases "waiting_on cx (sc_status s) j") auto
      then have "d = i" using j(2) by (auto simp: wait filter_empty_conv)
      then have "i \<in> set (planned_deps cx j)" using d by (simp add: waiting_on_def)
      moreover have jp: "j \<in> set (planned_ids cx)"
        by (rule pending_planned [OF li(1) \<open>sc_status s j = Some Pending\<close>])
      ultimately have "j \<in> set (dependents_of cx i)" by (simp add: in_dependents)
      moreover have "is_ready s' j" using ready [OF jp] j by simp
      ultimately show ?thesis using q run by (simp add: s'(6))
    qed
  qed
  moreover have "res_ok (sc_results s') (sc_status s')"
    unfolding s'(1,2) by (rule res_ok_put [OF li(2) i(3)]) simp
  moreover have "pre_inv cx pre (sc_status s')"
    unfolding s'(1) by (rule pre_inv_upd [OF li(4) open']) (simp add: i(2))
  ultimately show ?thesis using deps by (simp add: loop_inv_def s'(5) li(5))
qed

text \<open>A running model fails: what depends on it is blocked.\<close>

lemma loop_inv_fail:
  assumes wf: "wf_context cx" and inv: "loop_inv cx pre ready s"
    and i: "sc_status s i = Some Running" "\<not> task_passes cx pre i" "mres_status r = Failed"
    and t: "sc_status t = (sc_status s)(i \<mapsto> Failed)" "sc_results t = bm_insert i r (sc_results s)"
    and bl: "block_list cx (map (Pair i) (dependents_of cx i)) t = (bl, u)"
      "blocks cx (map (Pair i) (dependents_of cx i)) t bl u"
    and s': "sc_status s' = sc_status u" "sc_results s' = sc_results u" "sc_remaining s' = sc_remaining s"
      "sc_running s' = filter (\<lambda>t. tk_id t \<noteq> i) (sc_running s)" "sc_info s' = sc_info s"
    and q: "stopped s' \<or> \<not> stopped s \<and> ready' = ready" "set ready' \<subseteq> set ready"
  shows "loop_inv cx pre ready' s'"
proof -
  note li = loop_invD [OF inv] and qi = queue_invD [OF loop_invD(3) [OF inv]]
  have planned: "i \<in> set (planned_ids cx)" by (rule pending_planned [OF li(1) i(1)])
  have open': "\<not> settled (sc_status s) i" using i(1) by (simp add: settled_def status_or_default_def)
  have x: "Failed = Failed \<and> sc_status s i = Some Running \<or> Failed = Blocked \<and> i \<in> {i. sc_status pre i = Some Blocked}"
    using i(1) by simp
  note d = deps_inv_break [OF li(1) planned open' x bl(2) t(1)]
  note st = d(3) [folded s'(1)]
  have sat: "satisfied (sc_status s') j \<longleftrightarrow> satisfied (sc_status s) j" for j
    using d(2) [of j] i(1) by (auto simp: st satisfied_def status_or_default_def)
  then have wait: "waiting_on cx (sc_status s') j = waiting_on cx (sc_status s) j" for j
    by (simp add: waiting_on_def)
  have prev: "sc_status s j = Some y \<and> j \<noteq> i" if "sc_status s' j = Some y" "y \<noteq> Blocked" "y \<noteq> Failed" for j y
    using that by (auto simp: st split: if_splits)
  have "queue_inv cx pre ready' s'"
    unfolding queue_inv_def
  proof (intro conjI ballI impI allI)
    show "distinct (map tk_id (sc_running s'))" using qi(1) by (simp add: s'(4) distinct_map_filter)
    show "length (sc_running s') \<le> concurrency cx"
      unfolding s'(4) by (rule le_trans [OF length_filter_le qi(2)])
    fix k assume "k \<in> set (sc_running s')"
    then have k: "k \<in> set (sc_running s)" "tk_id k \<noteq> i" by (auto simp: s'(4))
    have "tk_id k \<notin> set bl" using d(2) [of "tk_id k"] qi(3) [OF k(1)] by auto
    then show "sc_status s' (tk_id k) = Some Running" "task_for cx (sc_info pre (tk_id k)) (tk_id k) = Some k"
      using qi(3,4) [OF k(1)] k(2) by (simp_all add: st)
  next
    fix j assume "\<not> stopped s'" "sc_status s' j = Some Running"
    then have "j \<noteq> i" "j \<in> tk_id ` set (sc_running s)"
      using qi(5) [of j] prev [of j Running] q(1) by auto
    then show "j \<in> tk_id ` set (sc_running s')" by (auto simp: s'(4))
  next
    fix j assume "j \<in> set ready'"
    then show "j \<in> set (planned_ids cx)" "waiting_on cx (sc_status s') j = []"
      using qi(6,7) [of j] q(2) by (auto simp: wait)
  next
    fix j assume "\<not> stopped s'" "sc_status s' j = Some Pending" "waiting_on cx (sc_status s') j = []"
    then show "j \<in> set ready'" using qi(8) [of j] prev [of j Pending] q(1) by (auto simp: wait)
  qed
  moreover have "res_ok (sc_results s') (sc_status s')"
  proof -
    have "res_ok (sc_results t) (sc_status t)"
      unfolding t by (rule res_ok_put [OF li(2) i(3)]) simp
    from block_list_results [OF wf this work_planned bl(1)] show ?thesis by (simp add: s')
  qed
  moreover have "pre_inv cx pre (sc_status s')"
    unfolding pre_inv_def
  proof (intro conjI allI impI)
    fix j
    note p = pre_inv_upd [OF li(4) open', of Failed]
    show "sc_status s' j = sc_status pre j" if "settled (sc_status pre) j"
    proof -
      have e: "sc_status s j = sc_status pre j" by (rule pre_invD(1) [OF li(4) that])
      then have "settled (sc_status s) j" using that by (simp add: settled_def status_or_default_def)
      then have "j \<noteq> i" "j \<notin> set bl" using open' d(2) [of j] by (auto simp: settled_def status_or_default_def)
      then show ?thesis using e by (simp add: st)
    qed
    show "settled (sc_status pre) j" if "sc_status s' j = Some CachedStatus \<or> sc_status s' j = Some Skipped"
      using that prev [of j] pre_invD(2) [OF li(4), of j] by blast
    show "task_passes cx pre j" if "sc_status s' j = Some Passed"
      using that prev [of j Passed] pre_invD(3) [OF li(4), of j] by simp
    show "\<not> task_passes cx pre j" if "sc_status s' j = Some Failed"
      using that i(2) pre_invD(4) [OF li(4), of j] by (auto simp: st split: if_splits)
  qed
  ultimately show ?thesis using d(1) by (simp add: loop_inv_def s'(1,3,5) li(5))
qed


lemma is_ready_cong:
  "sc_remaining s = sc_remaining t \<Longrightarrow> sc_status s = sc_status t \<Longrightarrow> is_ready s = is_ready t"
  by (simp add: is_ready_def fun_eq_iff)

lemma running_task:
  assumes "wf_context cx" "loop_inv cx pre ready s" "t \<in> set (sc_running s)"
  obtains m where "compilation_model (rx_compilation cx) (tk_id t) = Some m"
    "sc_status s (tk_id t) = Some Running" "tk_id t \<in> set (planned_ids cx)"
    "task_passes cx pre (tk_id t) \<longleftrightarrow>
       (case co_outcome (lg_completion (task_log_of cx t)) of Inr _ \<Rightarrow> True | Inl _ \<Rightarrow> False)"
proof -
  note qi = queue_invD [OF loop_invD(3) [OF assms(2)]]
  have planned: "tk_id t \<in> set (planned_ids cx)"
    using pending_planned [OF loop_invD(1) [OF assms(2)] qi(3) [OF assms(3)]] .
  obtain m where "compilation_model (rx_compilation cx) (tk_id t) = Some m" using wf_model [OF assms(1) planned] by blast
  then show thesis
    using that qi(3,4) [OF assms(3)] planned by (simp add: task_passes_def)
qed

lemma join_task_inv:
  assumes wf: "wf_context cx" and inv: "loop_inv cx pre (sc_ready s) s" and run: "\<not> stopped s"
    and t: "t \<in> set (sc_running s)" and step: "join_task cx (task_log_of cx t) s = Inr s'"
  shows "loop_inv cx pre (sc_ready s') s' \<and> settled (sc_status s') (tk_id t) \<and> (rx_fail_fast cx \<or> \<not> stopped s')"
proof -
  let ?co = "lg_completion (task_log_of cx t)" and ?i = "tk_id t"
  let ?s1 = "forget_task ?i (note_log (task_log_of cx t) s)"
  obtain m where m: "compilation_model (rx_compilation cx) ?i = Some m" "sc_status s ?i = Some Running"
    "?i \<in> set (planned_ids cx)"
    "task_passes cx pre ?i \<longleftrightarrow> (case co_outcome ?co of Inr _ \<Rightarrow> True | Inl _ \<Rightarrow> False)"
    by (rule running_task [OF wf inv t])
  have ok: "co_state_error ?co = None" using step by (auto simp: join_task_def Let_def split: option.splits)
  show ?thesis
  proof (cases "co_outcome ?co")
    case (Inr q)
    let ?r = "passed_result cx ?s1 m ?co q"
    let ?ev = "[ModelFinished (logical_name ?i) Passed (qr_query_id q) (co_duration_ms ?co)]"
    obtain s2 where s2: "persist_model cx ?r (emit ?ev (set_status ?i Passed ?s1)) = Inr s2"
      "advance_watermark cx m (extend_ready cx ?i (release_dependents cx ?i (put_result ?i ?r s2))) = Inr s'"
      using step ok Inr m(1) by (auto simp: join_task_def Let_def on_passed_def then_run_Inr)
    note p = persist_core [OF s2(1)]
    obtain ws where s': "s' = (extend_ready cx ?i (release_dependents cx ?i (put_result ?i ?r s2)))\<lparr>sc_watermarks := ws\<rparr>"
      using advance_watermark_Inr [OF s2(2)] by blast
    have f: "sc_status s' = (sc_status s)(?i \<mapsto> Passed)" "sc_results s' = bm_insert ?i ?r (sc_results s)"
      "sc_remaining s' = fold release_one (dependents_of cx ?i) (sc_remaining s)"
      "sc_running s' = filter (\<lambda>u. tk_id u \<noteq> ?i) (sc_running s)" "sc_info s' = sc_info s"
      "sc_cancelled s' = sc_cancelled s" "sc_fail_fast s' = sc_fail_fast s"
      using p coreD [OF conjunct1 [OF p]]
      by (simp_all add: s' extend_ready_def release_dependents_def put_result_def emit_def set_status_def)
    have "sc_ready s' = sc_ready s @ filter (is_ready (release_dependents cx ?i (put_result ?i ?r s2))) (dependents_of cx ?i)"
      using coreD [OF conjunct1 [OF p]]
      by (simp add: s' extend_ready_def release_dependents_def put_result_def emit_def set_status_def)
    moreover have "is_ready (release_dependents cx ?i (put_result ?i ?r s2)) = is_ready s'"
      by (rule is_ready_cong) (simp_all add: s' extend_ready_def)
    ultimately have q: "sc_ready s' = sc_ready s @ filter (is_ready s') (dependents_of cx ?i)" by simp
    have "loop_inv cx pre (sc_ready s') s'"
      by (rule loop_inv_pass [OF wf inv m(2) _ _ f(1-5) stopped_cong [OF f(6,7)] q])
         (use m(4) Inr run in simp_all)
    then show ?thesis using stopped_cong [OF f(6,7)] run by (simp add: f(1) settled_upd)
  next
    case (Inl e)
    let ?r = "failed_result cx ?s1 m ?co e"
    let ?ev = "[ModelFinished (logical_name ?i) Failed None (co_duration_ms ?co)]"
    obtain s2 where s2: "persist_model cx ?r (emit ?ev (set_status ?i Failed ?s1)) = Inr s2"
      and rest: "(if rx_fail_fast cx
         then then_run (block_dependents cx ?i ((put_result ?i ?r s2)\<lparr>sc_fail_fast := True\<rparr>))
                         (\<lambda>s3. Inr (s3\<lparr>sc_ready := []\<rparr>))
         else block_dependents cx ?i (put_result ?i ?r s2)) = Inr s'"
      using step ok Inl m(1) by (auto simp: join_task_def Let_def on_failed_def then_run_Inr)
    note p = persist_core [OF s2(1)]
    define ff where "ff = rx_fail_fast cx"
    define v where "v = (put_result ?i ?r s2)\<lparr>sc_fail_fast := (if ff then True else sc_fail_fast s2)\<rparr>"
    obtain s3 where s3: "block_dependents cx ?i v = Inr s3" "s' = (if ff then s3\<lparr>sc_ready := []\<rparr> else s3)"
    proof (cases ff)
      case True
      then show ?thesis using rest that by (auto simp: ff_def v_def then_run_Inr)
    next
      case False
      then have "v = put_result ?i ?r s2" by (simp add: v_def put_result_def)
      then show ?thesis using False rest that by (simp add: ff_def)
    qed
    obtain bl u where u: "block_list cx (map (Pair ?i) (dependents_of cx ?i)) v = (bl, u)"
      "core s3 = core v" "sc_status s3 = sc_status u" "sc_results s3 = sc_results u"
      "blocks cx (map (Pair ?i) (dependents_of cx ?i)) v bl u"
      by (rule block_dependents_Inr [OF s3(1)])
    have v: "sc_status v = (sc_status s)(?i \<mapsto> Failed)" "sc_results v = bm_insert ?i ?r (sc_results s)"
      "sc_remaining v = sc_remaining s" "sc_running v = filter (\<lambda>u. tk_id u \<noteq> ?i) (sc_running s)"
      "sc_info v = sc_info s" "sc_cancelled v = sc_cancelled s" "sc_ready v = sc_ready s"
      "sc_fail_fast v = (if ff then True else sc_fail_fast s)"
      using p coreD [OF conjunct1 [OF p]]
      by (simp_all add: v_def put_result_def emit_def set_status_def)
    have s': "sc_status s' = sc_status u" "sc_results s' = sc_results u" "sc_remaining s' = sc_remaining s"
      "sc_running s' = filter (\<lambda>u. tk_id u \<noteq> ?i) (sc_running s)" "sc_info s' = sc_info s"
      "sc_ready s' = (if ff then [] else sc_ready s)" "stopped s' \<longleftrightarrow> ff \<or> stopped s"
      using u(3,4) coreD [OF u(2)] v by (simp_all add: s3(2) stopped_def)
    have q: "stopped s' \<or> \<not> stopped s \<and> sc_ready s' = sc_ready s" "set (sc_ready s') \<subseteq> set (sc_ready s)"
      using run s'(6,7) by auto
    have fails: "\<not> task_passes cx pre ?i" using m(4) Inl by simp
    have "loop_inv cx pre (sc_ready s') s'"
      by (rule loop_inv_fail [OF wf inv m(2) fails _ v(1,2) u(1,5) s'(1-5) q]) simp
    moreover have "settled (sc_status s') ?i"
      using blocksD(5) [OF u(5)] v(1) by (auto simp: s'(1) settled_def status_or_default_def)
    ultimately show ?thesis using s'(7) run by (auto simp: ff_def)
  qed
qed

lemma forget_inv:
  assumes "loop_inv cx pre ready s" "stopped s"
  shows "loop_inv cx pre ready (forget_task i s)"
proof -
  note qi = queue_invD [OF loop_invD(3) [OF assms(1)]]
  have st: "stopped (forget_task i s)" using assms(2) by (simp add: stopped_def)
  have "queue_inv cx pre ready (forget_task i s)"
    unfolding queue_inv_def
  proof (intro conjI ballI impI allI)
    show "distinct (map tk_id (sc_running (forget_task i s)))" using qi(1) by (simp add: distinct_map_filter)
    show "length (sc_running (forget_task i s)) \<le> concurrency cx"
      unfolding forget_task_simps by (rule le_trans [OF length_filter_le qi(2)])
  qed (use qi(3,4,6,7) st in auto)
  then show ?thesis using loop_invD [OF assms(1)] by (simp add: loop_inv_def)
qed

lemma note_log_inv: "loop_inv cx pre ready (note_log log s) = loop_inv cx pre ready s"
  by (simp add: loop_inv_def queue_inv_def stopped_def)

end
