(* ===== verification/Progress.thy ===== *)
theory Progress
  imports ScheduleFacts
begin

text \<open>
  What every run of the scheduler guarantees: the invariants over reachable states, that the loop ends
  and leaves no model behind, and that its outcome is that of running the models one at a time in
  plan order, whatever the interleaving and the number of slots.
\<close>

section \<open>Steps keep the invariant\<close>

lemma drain_task_inv:
  assumes wf: "wf_context cx" and inv: "loop_inv cx pre (sc_ready s) s" and stop: "stopped s"
    and t: "t \<in> set (sc_running s)" and step: "drain_task cx (task_log_of cx t) s = Inr s'"
  shows "loop_inv cx pre (sc_ready s') s' \<and> stopped s' \<and> sc_ready s' = sc_ready s \<and>
    sc_running s' = filter (\<lambda>u. tk_id u \<noteq> tk_id t) (sc_running s)"
proof -
  let ?co = "lg_completion (task_log_of cx t)" and ?i = "tk_id t"
  let ?s1 = "forget_task ?i (note_log (task_log_of cx t) s)"
  obtain m where m: "compilation_model (rx_compilation cx) ?i = Some m" "sc_status s ?i = Some Running"
    "?i \<in> set (planned_ids cx)"
    "task_passes cx pre ?i \<longleftrightarrow> (case co_outcome ?co of Inr _ \<Rightarrow> True | Inl _ \<Rightarrow> False)"
    by (rule running_task [OF wf inv t])
  have ok: "co_state_error ?co = None" using step by (auto simp: drain_task_def Let_def split: option.splits)
  have open': "\<not> settled (sc_status ?s1) ?i" using m(2) by (simp add: settled_def status_or_default_def)
  show ?thesis
  proof (cases "co_outcome ?co")
    case (Inr q)
    let ?r = "passed_result cx s m ?co q"
    let ?ev = "[ModelFinished (logical_name ?i) (mres_status ?r) (mres_query_id ?r) (mres_duration_ms ?r)]"
    obtain s2 where s2: "persist_model cx ?r (set_status ?i (mres_status ?r) (emit ?ev ?s1)) = Inr s2"
      "release_dependents cx ?i (put_result ?i ?r s2) = s'"
      using step ok Inr m(1) open' by (auto simp: drain_task_def Let_def then_run_Inr)
    note p = persist_core [OF s2(1)]
    have f: "sc_status s' = (sc_status s)(?i \<mapsto> Passed)" "sc_results s' = bm_insert ?i ?r (sc_results s)"
      "sc_remaining s' = fold release_one (dependents_of cx ?i) (sc_remaining s)"
      "sc_running s' = filter (\<lambda>u. tk_id u \<noteq> ?i) (sc_running s)" "sc_info s' = sc_info s"
      "sc_cancelled s' = sc_cancelled s" "sc_fail_fast s' = sc_fail_fast s" "sc_ready s' = sc_ready s"
      using p coreD [OF conjunct1 [OF p]]
      by (simp_all add: s2(2) [symmetric] release_dependents_def put_result_def emit_def set_status_def)
    have st: "stopped s' \<longleftrightarrow> stopped s" by (rule stopped_cong [OF f(6,7)])
    have "loop_inv cx pre (sc_ready s') s'"
      by (rule loop_inv_pass [OF wf inv m(2) _ _ f(1-5) st]) (use m(4) Inr stop f(8) in simp_all)
    then show ?thesis using st stop f(4,8) by simp
  next
    case (Inl e)
    let ?r = "failed_result cx s m ?co e"
    let ?ev = "[ModelFinished (logical_name ?i) (mres_status ?r) (mres_query_id ?r) (mres_duration_ms ?r)]"
    obtain s2 where s2: "persist_model cx ?r (set_status ?i (mres_status ?r) (emit ?ev ?s1)) = Inr s2"
      "block_dependents cx ?i (put_result ?i ?r s2) = Inr s'"
      using step ok Inl m(1) open' by (auto simp: drain_task_def Let_def then_run_Inr)
    note p = persist_core [OF s2(1)]
    let ?v = "put_result ?i ?r s2"
    obtain bl u where u: "block_list cx (map (Pair ?i) (dependents_of cx ?i)) ?v = (bl, u)"
      "core s' = core ?v" "sc_status s' = sc_status u" "sc_results s' = sc_results u"
      "blocks cx (map (Pair ?i) (dependents_of cx ?i)) ?v bl u"
      by (rule block_dependents_Inr [OF s2(2)])
    have v: "sc_status ?v = (sc_status s)(?i \<mapsto> Failed)" "sc_results ?v = bm_insert ?i ?r (sc_results s)"
      "sc_remaining ?v = sc_remaining s" "sc_running ?v = filter (\<lambda>u. tk_id u \<noteq> ?i) (sc_running s)"
      "sc_info ?v = sc_info s" "sc_cancelled ?v = sc_cancelled s" "sc_fail_fast ?v = sc_fail_fast s"
      "sc_ready ?v = sc_ready s"
      using p coreD [OF conjunct1 [OF p]] by (simp_all add: put_result_def emit_def set_status_def)
    have s': "sc_remaining s' = sc_remaining s" "sc_running s' = filter (\<lambda>u. tk_id u \<noteq> ?i) (sc_running s)"
      "sc_info s' = sc_info s" "sc_ready s' = sc_ready s" "stopped s' \<longleftrightarrow> stopped s"
      using coreD [OF u(2)] v by (simp_all add: stopped_def)
    have q: "stopped s' \<or> \<not> stopped s \<and> sc_ready s' = sc_ready s" "set (sc_ready s') \<subseteq> set (sc_ready s)"
      using stop s' by auto
    have fails: "\<not> task_passes cx pre ?i" using m(4) Inl by simp
    have "loop_inv cx pre (sc_ready s') s'"
      by (rule loop_inv_fail [OF wf inv m(2) fails _ v(1,2) u(1,5) u(3,4) s'(1-3) q]) simp
    then show ?thesis using s' stop by simp
  qed
qed

lemma cancel_inv: "loop_inv cx pre ready s \<Longrightarrow> loop_inv cx pre ready (s\<lparr>sc_cancelled := True\<rparr>)"
  by (simp add: loop_inv_def queue_inv_def stopped_def)

lemma sched_step_inv:
  assumes wf: "wf_context cx" and step: "sched_step cx s (Inr s')" and inv: "loop_inv cx pre (sc_ready s) s"
  shows "loop_inv cx pre (sc_ready s') s'"
  using step
proof (cases rule: sched_step.cases)
  case Cancel
  then show ?thesis using cancel_inv [OF inv] by simp
next
  case Fill
  then show ?thesis using fill_list_inv(1) [OF wf inv] by (simp add: fill_def)
next
  case (Join t)
  from join_task_inv [OF wf inv Join(2,4) Join(1) [symmetric]] show ?thesis by blast
next
  case (Drain t)
  from drain_task_inv [OF wf inv Drain(2,3) Drain(1) [symmetric]] show ?thesis by blast
next
  case (Abort t)
  then show ?thesis using forget_inv [OF inv] by simp
qed

lemma sched_reach_inv:
  assumes "wf_context cx" "sched_reach cx s t" "loop_inv cx pre (sc_ready s) s"
  shows "loop_inv cx pre (sc_ready t) t"
  using assms(2,3) by (induction rule: sched_reach.induct) (auto intro: sched_step_inv [OF assms(1)])

text \<open>The preparation establishes it.\<close>

lemma deps_inv_seeds:
  "deps_inv cx seeds status remaining \<Longrightarrow> deps_inv cx {i. status i = Some Blocked} status remaining"
  by (simp add: deps_inv_def)

lemma prepare_inv:
  assumes wf: "wf_context cx" and step: "prepare cx failed (initial_sched cx c ff ev) = Inr pre"
  shows "loop_inv cx pre (sc_ready pre) pre" "sc_running pre = []" "\<And>i. \<not> started (sc_status pre) i"
    "prep_inv cx (seed_readers cx failed) (pre\<lparr>sc_ready := []\<rparr>)"
proof -
  let ?P = "prep_inv cx (seed_readers cx failed)"
  let ?s0 = "initial_sched cx c ff ev"
  have p0: "?P ?s0" by (rule initial_prep_inv)
  have open0: "\<not> settled (sc_status ?s0) i" for i
    by (auto simp: initial_sched_def settled_def status_or_default_def map_of_const)
  have p1: "?P (fold (reuse_prior cx) (planned_ids cx) ?s0)"
    by (rule reuse_fold_prep [OF wf p0]) (use wf open0 in \<open>auto simp: wf_context_def\<close>)
  obtain s2 s3 where s2: "fold_run (skip_or_adopt cx) (planned_ids cx) (fold (reuse_prior cx) (planned_ids cx) ?s0) = Inr s2"
    and s3: "(if failed = [] then Inr s2 else fold_run (block_seed_reader cx failed) (planned_ids cx) s2) = Inr s3"
    and pre: "pre = queue_ready cx s3"
    using step by (auto simp: prepare_def then_run_Inr)
  have p2: "?P s2"
    by (rule fold_run_invariant [where P = ?P, OF s2 p1]) (rule skip_or_adopt_prep [OF wf])
  have p3: "?P s3"
  proof (cases "failed = []")
    case True
    then show ?thesis using s3 p2 by simp
  next
    case False
    then have "fold_run (block_seed_reader cx failed) (planned_ids cx) s2 = Inr s3" using s3 by simp
    from this p2 show ?thesis
      by (rule fold_run_invariant [where P = ?P]) (rule block_seed_reader_prep [OF wf])
  qed
  note pi = prep_invD [OF p3]
  have same: "sc_status pre = sc_status s3" "sc_remaining pre = sc_remaining s3" "sc_results pre = sc_results s3"
    "sc_running pre = []" "sc_ready pre = filter (is_ready s3) (planned_ids cx)"
    using pi(3) by (simp_all add: pre queue_ready_def)
  have ready: "i \<in> set (sc_ready pre) \<longleftrightarrow>
      i \<in> set (planned_ids cx) \<and> sc_status s3 i = Some Pending \<and> waiting_on cx (sc_status s3) i = []" for i
    using is_ready_iff [OF pi(1), of i] by (auto simp: same)
  show "sc_running pre = []" "\<And>i. \<not> started (sc_status pre) i"
    using pi by (simp_all add: same)
  have "queue_inv cx pre (sc_ready pre) pre"
    using pi(5) pending_planned [OF pi(1)]
    by (auto simp: queue_inv_def same(1,4) ready started_def)
  moreover have "pre_inv cx pre (sc_status pre)"
    using pi(5) by (auto simp: pre_inv_def same started_def settled_def status_or_default_def)
  ultimately show "loop_inv cx pre (sc_ready pre) pre"
    using deps_inv_seeds [OF pi(1)] pi(2) by (simp add: loop_inv_def same)
  show "?P (pre\<lparr>sc_ready := []\<rparr>)"
    using pi by (simp add: prep_inv_def same)
qed

section \<open>The loop ends\<close>

definition open_models :: "run_context \<Rightarrow> sched \<Rightarrow> model_id set" where
  "open_models cx s = {i \<in> set (planned_ids cx). \<not> settled (sc_status s) i}"

definition loop_measure :: "run_context \<Rightarrow> (sched \<times> sched) set" where
  "loop_measure cx = measures
     [\<lambda>s. if stopped s then 0 else 1, \<lambda>s. card (open_models cx s),
      \<lambda>s. length (sc_ready s), \<lambda>s. length (sc_running s)]"

lemma wf_loop_measure: "wf (loop_measure cx)"
  by (simp add: loop_measure_def)

text \<open>Any reachable state may take the place of the prepared one, so what is settled there stays.\<close>

lemma loop_inv_self:
  assumes "loop_inv cx pre ready s"
  shows "loop_inv cx s ready s"
proof -
  note li = loop_invD [OF assms]
  have "task_passes cx s = task_passes cx pre"
    by (simp add: task_passes_def fun_eq_iff li(5))
  then have "pre_inv cx s (sc_status s)"
    using pre_invD(3,4) [OF li(4)] unfolding pre_inv_def
    by (simp add: settled_def status_or_default_def)
  moreover have "queue_inv cx s ready s"
    using li(3) by (simp add: queue_inv_def li(5))
  ultimately show ?thesis
    using li(2) deps_inv_seeds [OF li(1)] by (simp add: loop_inv_def)
qed

lemma step_keeps_settled:
  assumes "wf_context cx" "sched_step cx s (Inr s')" "loop_inv cx pre (sc_ready s) s" "settled (sc_status s) i"
  shows "sc_status s' i = sc_status s i"
  using pre_invD(1) [OF loop_invD(4) [OF sched_step_inv [OF assms(1,2) loop_inv_self [OF assms(3)]]] assms(4)] .

lemma reach_keeps_settled:
  assumes "wf_context cx" "sched_reach cx s t" "loop_inv cx pre (sc_ready s) s" "settled (sc_status s) i"
  shows "sc_status t i = sc_status s i"
  using pre_invD(1) [OF loop_invD(4) [OF sched_reach_inv [OF assms(1,2) loop_inv_self [OF assms(3)]]] assms(4)] .

lemma open_models_mono:
  assumes "wf_context cx" "sched_step cx s (Inr s')" "loop_inv cx pre (sc_ready s) s"
  shows "open_models cx s' \<subseteq> open_models cx s"
  using step_keeps_settled [OF assms] by (auto simp: open_models_def settled_def status_or_default_def)

lemma start_model_ready: "start_model cx i s = Inr s' \<Longrightarrow> sc_ready s' = sc_ready s \<and> (stopped s' \<longleftrightarrow> stopped s)"
  by (auto simp: start_model_def Let_def then_run_Inr emit_def set_status_def stopped_def
      split: option.splits dest!: persist_record_Inr)

lemma fill_list_ready: "fill_list cx ready s = Inr s' \<Longrightarrow> length (sc_ready s') \<le> length ready \<and> (stopped s' \<longleftrightarrow> stopped s)"
proof (induction ready arbitrary: s)
  case Nil
  then show ?case by (auto simp: stopped_def)
next
  case (Cons i rest)
  show ?case
  proof (cases "concurrency cx \<le> length (sc_running s)")
    case True
    then show ?thesis using Cons.prems by (auto simp: stopped_def)
  next
    case False
    show ?thesis
    proof (cases "sc_status s i = Some Pending")
      case True
      then obtain t where "start_model cx i s = Inr t" "fill_list cx rest t = Inr s'"
        using False Cons.prems by (auto simp: then_run_Inr)
      then show ?thesis using Cons.IH [of t] start_model_ready [of cx i s t] by simp
    next
      case False': False
      then have "fill_list cx rest s = Inr s'" using False Cons.prems by simp
      then show ?thesis using Cons.IH [of s] by simp
    qed
  qed
qed

lemma fill_shrinks:
  assumes "\<not> filled cx s" "fill cx s = Inr s'"
  shows "length (sc_ready s') < length (sc_ready s)" "stopped s' \<longleftrightarrow> stopped s"
proof -
  obtain i rest where r: "sc_ready s = i # rest" and slot: "\<not> concurrency cx \<le> length (sc_running s)"
    using assms(1) by (cases "sc_ready s") (auto simp: filled_def)
  have "length (sc_ready s') \<le> length rest \<and> (stopped s' \<longleftrightarrow> stopped s)"
  proof (cases "sc_status s i = Some Pending")
    case True
    then obtain t where "start_model cx i s = Inr t" "fill_list cx rest t = Inr s'"
      using slot assms(2) by (auto simp: fill_def r then_run_Inr)
    then show ?thesis using fill_list_ready [of cx rest t] start_model_ready [of cx i s t] by simp
  next
    case False
    then show ?thesis using slot assms(2) fill_list_ready [of cx rest s] by (simp add: fill_def r)
  qed
  then show "length (sc_ready s') < length (sc_ready s)" "stopped s' \<longleftrightarrow> stopped s" by (auto simp: r)
qed

lemma card_open: "open_models cx t \<subseteq> open_models cx s \<Longrightarrow> card (open_models cx t) \<le> card (open_models cx s)"
  by (rule card_mono) (simp_all add: open_models_def)

lemma sched_step_decreases:
  assumes wf: "wf_context cx" and step: "sched_step cx s (Inr s')" and inv: "loop_inv cx pre (sc_ready s) s"
  shows "(s', s) \<in> loop_measure cx"
proof -
  have fin: "finite (open_models cx s)" by (simp add: open_models_def)
  note mono = open_models_mono [OF wf step inv]
  note le = card_open [OF mono]
  have drop: "length (filter (\<lambda>u. tk_id u \<noteq> tk_id t) (sc_running s)) < length (sc_running s)"
    if "t \<in> set (sc_running s)" for t
    using that by (intro length_filter_less) auto
  show ?thesis
    using step
  proof (cases rule: sched_step.cases)
    case Cancel
    then show ?thesis by (simp add: loop_measure_def stopped_def)
  next
    case Fill
    then show ?thesis using fill_shrinks [OF Fill(3) Fill(1) [symmetric]] le
      by (auto simp: loop_measure_def)
  next
    case (Join t)
    have "settled (sc_status s') (tk_id t)"
      using join_task_inv [OF wf inv Join(2,4) Join(1) [symmetric]] by simp
    moreover have "tk_id t \<in> open_models cx s"
      by (rule running_task [OF wf inv Join(4)]) (simp add: open_models_def settled_def status_or_default_def)
    ultimately have "open_models cx s' \<subset> open_models cx s" using mono by (auto simp: open_models_def)
    then have "card (open_models cx s') < card (open_models cx s)" by (rule psubset_card_mono [OF fin])
    then show ?thesis using Join(2) by (simp add: loop_measure_def)
  next
    case (Drain t)
    from drain_task_inv [OF wf inv Drain(2,3) Drain(1) [symmetric]]
    have "stopped s'" "sc_ready s' = sc_ready s"
      "sc_running s' = filter (\<lambda>u. tk_id u \<noteq> tk_id t) (sc_running s)" by blast+
    then show ?thesis using drop [OF Drain(3)] le Drain(2) by (auto simp: loop_measure_def)
  next
    case (Abort t)
    then show ?thesis using drop [OF Abort(3)] le by (auto simp: loop_measure_def stopped_def)
  qed
qed

text \<open>While the loop is not done it can go on.\<close>

lemma sched_progress:
  assumes "\<not> loop_done s"
  shows "\<exists>r. sched_step cx s r"
proof (cases "stopped s")
  case True
  then obtain t where "t \<in> set (sc_running s)" using assms by (cases "sc_running s") (auto simp: loop_done_def)
  then show ?thesis using sched_step.Abort [OF True] by blast
next
  case run: False
  show ?thesis
  proof (cases "filled cx s")
    case False
    then show ?thesis using sched_step.Fill [OF run] by blast
  next
    case True
    have "sc_running s \<noteq> []"
      using True assms run by (auto simp: filled_def loop_done_def concurrency_def)
    then obtain t where "t \<in> set (sc_running s)" by (cases "sc_running s") auto
    then show ?thesis using sched_step.Join [OF run True] by blast
  qed
qed

section \<open>Nothing is left behind\<close>

text \<open>
  When the loop of a run that was never stopped ends, every planned model is settled: the first one that
  was not would wait on nothing, so it would be queued or running.
\<close>

lemma loop_done_settled:
  assumes wf: "wf_context cx" and inv: "loop_inv cx pre (sc_ready s) s" and run: "\<not> stopped s"
    and end': "loop_done s" and i: "i \<in> set (planned_ids cx)"
  shows "settled (sc_status s) i"
proof (rule ccontr)
  assume bad: "\<not> settled (sc_status s) i"
  note li = loop_invD [OF inv] and qi = queue_invD [OF loop_invD(3) [OF inv]]
  define P where "P k \<longleftrightarrow> k < length (planned_ids cx) \<and> \<not> settled (sc_status s) (planned_ids cx ! k)" for k
  obtain n where "P n" using i bad by (auto simp: P_def in_set_conv_nth)
  define k where "k = (LEAST k. P k)"
  have k: "P k" and least: "\<And>j. j < k \<Longrightarrow> \<not> P j"
    unfolding k_def using LeastI [of P n] not_less_Least [of _ P] \<open>P n\<close> by blast+
  let ?i = "planned_ids cx ! k"
  have i': "?i \<in> set (planned_ids cx)" "\<not> settled (sc_status s) ?i" using k by (auto simp: P_def)
  have deps: "settled (sc_status s) d" if "d \<in> set (planned_deps cx ?i)" for d
  proof -
    have "d \<in> set (take k (planned_ids cx))" using wf that k by (auto simp: wf_context_def P_def)
    then obtain j where "j < k" "planned_ids cx ! j = d" "j < length (planned_ids cx)"
      by (auto simp: in_set_conv_nth)
    then show ?thesis using least [of j] by (auto simp: P_def)
  qed
  have "satisfied (sc_status s) d" if d: "d \<in> set (planned_deps cx ?i)" for d
  proof -
    obtain y where y: "sc_status s d = Some y"
      using deps_invD(1) [OF li(1)] planned_deps_planned [OF d] by blast
    have "\<not> broken (sc_status s) d" using deps_invD(6) [OF li(1) i'(1) d] i'(2) by blast
    then show ?thesis
      using deps [OF d] y deps_invD(2,3) [OF li(1), of d]
      by (cases y) (auto simp: broken_def satisfied_def settled_def status_or_default_def)
  qed
  then have wait: "waiting_on cx (sc_status s) ?i = []" by (simp add: waiting_on_def)
  obtain y where y: "sc_status s ?i = Some y" using deps_invD(1) [OF li(1)] i'(1) by blast
  then have "y = Pending \<or> y = Running"
    using i'(2) deps_invD(2,3) [OF li(1), of ?i] by (cases y) (auto simp: settled_def status_or_default_def)
  then show False
    using qi(5,8) [OF run, of ?i] wait y end' run by (auto simp: loop_done_def)
qed

section \<open>The sequential reference\<close>

text \<open>
  What running the planned models one after the other would leave: a model settled by the preparation
  keeps its status, one with a failed or blocked dependency is blocked, any other passes or fails as
  its task does.
\<close>

definition verdict :: "run_context \<Rightarrow> sched \<Rightarrow> (model_id \<rightharpoonup> execution_status) \<Rightarrow> model_id \<Rightarrow> execution_status" where
  "verdict cx pre status i =
     (if settled (sc_status pre) i then status_or_default (sc_status pre) i
      else if list_ex (broken status) (planned_deps cx i) then Blocked
      else if task_passes cx pre i then Passed else Failed)"

definition sequential :: "run_context \<Rightarrow> sched \<Rightarrow> (model_id \<rightharpoonup> execution_status)" where
  "sequential cx pre = fold (\<lambda>i status. status(i \<mapsto> verdict cx pre status i)) (planned_ids cx) Map.empty"

lemma settled_verdict:
  assumes wf: "wf_context cx" and inv: "loop_inv cx pre ready s" and i: "i \<in> set (planned_ids cx)"
    and all: "\<And>j. j \<in> set (planned_ids cx) \<Longrightarrow> settled (sc_status s) j"
  shows "sc_status s i = Some (verdict cx pre (sc_status s) i)"
proof -
  note li = loop_invD [OF inv]
  obtain y where y: "sc_status s i = Some y" using deps_invD(1) [OF li(1)] i by blast
  show ?thesis
  proof (cases "settled (sc_status pre) i")
    case True
    then have "sc_status pre i = Some y" using pre_invD(1) [OF li(4) True] y by simp
    then show ?thesis using True y by (simp add: verdict_def status_or_default_def)
  next
    case False
    have "\<not> (y = CachedStatus \<or> y = Skipped)" using pre_invD(2) [OF li(4), of i] False y by auto
    then have cases: "y = Passed \<or> y = Failed \<or> y = Blocked"
      using all [OF i] y deps_invD(2,3) [OF li(1), of i]
      by (cases y) (auto simp: settled_def status_or_default_def)
    show ?thesis
    proof (cases "list_ex (broken (sc_status s)) (planned_deps cx i)")
      case True
      then obtain d where "d \<in> set (planned_deps cx i)" "broken (sc_status s) d" by (auto simp: list_ex_iff)
      then have "waiting_on cx (sc_status s) i \<noteq> []"
        using broken_not_satisfied by (auto simp: waiting_on_def filter_empty_conv)
      then have "\<not> started (sc_status s) i" using deps_invD(5) [OF li(1)] by blast
      then have "y = Blocked" using cases y by (auto simp: started_def)
      then show ?thesis using False True y by (simp add: verdict_def)
    next
      case False': False
      have "y \<noteq> Blocked"
        using deps_invD(7) [OF li(1), of i] False' y False
        by (auto simp: list_ex_iff settled_def status_or_default_def)
      then show ?thesis
        using cases y False False' pre_invD(3,4) [OF li(4), of i] by (auto simp: verdict_def)
    qed
  qed
qed

lemma sequential_unique:
  assumes wf: "wf_context cx" and dom: "dom status = set (planned_ids cx)"
    and eq: "\<And>i. i \<in> set (planned_ids cx) \<Longrightarrow> status i = Some (verdict cx pre status i)"
  shows "sequential cx pre = status"
proof -
  have "fold (\<lambda>i status. status(i \<mapsto> verdict cx pre status i)) (take k (planned_ids cx)) Map.empty =
      status |` set (take k (planned_ids cx))" if "k \<le> length (planned_ids cx)" for k
    using that
  proof (induction k)
    case 0
    then show ?case by simp
  next
    case (Suc k)
    let ?xs = "take k (planned_ids cx)" and ?x = "planned_ids cx ! k"
    have split: "take (Suc k) (planned_ids cx) = ?xs @ [?x]"
      using Suc.prems by (simp add: take_Suc_conv_app_nth)
    have "set (planned_deps cx ?x) \<subseteq> set ?xs" using wf Suc.prems by (simp add: wf_context_def)
    then have "broken (status |` set ?xs) d = broken status d" if "d \<in> set (planned_deps cx ?x)" for d
      using that by (simp add: broken_def restrict_in subset_iff)
    then have "list_ex (broken (status |` set ?xs)) (planned_deps cx ?x) =
        list_ex (broken status) (planned_deps cx ?x)"
      unfolding list_ex_iff by blast
    then have v: "Some (verdict cx pre (status |` set ?xs) ?x) = status ?x"
      using eq [of ?x] Suc.prems by (simp add: verdict_def)
    have "fold (\<lambda>i status. status(i \<mapsto> verdict cx pre status i)) (take (Suc k) (planned_ids cx)) Map.empty =
        (status |` set ?xs)(?x := status ?x)"
      unfolding split fold_append comp_apply Suc.IH [OF Suc_leD [OF Suc.prems]] by (simp add: v)
    also have "\<dots> = status |` set (take (Suc k) (planned_ids cx))"
      by (auto simp: split restrict_map_def fun_eq_iff)
    finally show ?case .
  qed
  from this [of "length (planned_ids cx)"] have "sequential cx pre = status |` set (planned_ids cx)"
    by (simp add: sequential_def)
  also have "\<dots> = status"
    using dom by (simp add: restrict_map_def fun_eq_iff) (metis domIff)
  finally show ?thesis .
qed

section \<open>The sweep\<close>

lemma sweep_model_Inr:
  assumes "sweep_model cx i s = Inr s'"
  shows "settled (sc_status s') i" "\<And>j. settled (sc_status s) j \<Longrightarrow> sc_status s' j = sc_status s j"
    "\<And>j. j \<noteq> i \<Longrightarrow> sc_status s' j = sc_status s j"
    "settled (sc_status s) i \<Longrightarrow> s' = s" "stopped s' \<longleftrightarrow> stopped s"
    "\<not> settled (sc_status s) i \<Longrightarrow> sc_status s' i = Some (swept_status s)"
proof -
  have ends: "is_terminal (swept_status s)" by (simp add: swept_status_def)
  have "settled (sc_status s) i \<and> s' = s \<or> \<not> settled (sc_status s) i \<and>
      sc_status s' = (sc_status s)(i \<mapsto> swept_status s) \<and> (stopped s' \<longleftrightarrow> stopped s)"
    using assms by (auto simp: sweep_model_def Let_def then_run_Inr put_result_def emit_def set_status_def
        stopped_def split: if_splits option.splits dest!: persist_model_Inr)
  with ends show "settled (sc_status s') i" "\<And>j. settled (sc_status s) j \<Longrightarrow> sc_status s' j = sc_status s j"
    "\<And>j. j \<noteq> i \<Longrightarrow> sc_status s' j = sc_status s j"
    "settled (sc_status s) i \<Longrightarrow> s' = s" "stopped s' \<longleftrightarrow> stopped s"
    "\<not> settled (sc_status s) i \<Longrightarrow> sc_status s' i = Some (swept_status s)"
    by (auto simp: settled_upd)
qed

lemma sweep_list:
  "fold_run (sweep_model cx) xs s = Inr s' \<Longrightarrow>
     (\<forall>i. sc_status s' i =
        (if i \<in> set xs \<and> \<not> settled (sc_status s) i then Some (swept_status s) else sc_status s i)) \<and>
     (stopped s' \<longleftrightarrow> stopped s) \<and> ((\<forall>i \<in> set xs. settled (sc_status s) i) \<longrightarrow> s' = s)"
proof (induction xs arbitrary: s)
  case Nil
  then show ?case by simp
next
  case (Cons x xs)
  then obtain t where t: "sweep_model cx x s = Inr t" "fold_run (sweep_model cx) xs t = Inr s'"
    by (auto simp: then_run_Inr)
  note sm = sweep_model_Inr [OF t(1)] and IH = Cons.IH [OF t(2)]
  have swept: "swept_status t = swept_status s" using sm(5) by (simp add: swept_status_def)
  have "sc_status s' i = (if i \<in> set (x # xs) \<and> \<not> settled (sc_status s) i then Some (swept_status s) else sc_status s i)" for i
  proof (cases "i = x")
    case True
    then show ?thesis using IH sm(1,2,6) by auto
  next
    case False
    then show ?thesis using IH sm(3) [OF False] by (simp add: swept settled_def status_or_default_def)
  qed
  moreover have "s' = s" if "\<forall>i \<in> set (x # xs). settled (sc_status s) i"
  proof -
    have "t = s" using that sm(4) by simp
    then show ?thesis using IH that by simp
  qed
  ultimately show ?case using IH sm(5) by blast
qed

lemma sweep_Inr:
  assumes "sweep cx s = Inr s'"
  shows "sc_status s' i =
      (if i \<in> set (planned_ids cx) \<and> \<not> settled (sc_status s) i then Some (swept_status s) else sc_status s i)"
    "\<forall>i \<in> set (planned_ids cx). settled (sc_status s) i \<Longrightarrow> s' = s"
  using sweep_list [OF assms [unfolded sweep_def]] by blast+

lemma sweep_settled:
  "\<forall>i \<in> set xs. settled (sc_status s) i \<Longrightarrow> fold_run (sweep_model cx) xs s = Inr s"
  by (induction xs) (simp_all add: then_run_def sweep_model_def)


lemma complete_run_sequential:
  assumes "wf_context cx" "prepare cx failed (initial_sched cx cancelled fail_fast events) = Inr pre"
    and "sched_reach cx pre s" "loop_done s" "\<not> stopped s"
  shows "sc_status s = sequential cx pre \<and> sweep cx s = Inr s"
proof -
  have inv: "loop_inv cx pre (sc_ready s) s"
    by (rule sched_reach_inv [OF assms(1,3) prepare_inv(1) [OF assms(1,2)]])
  have all: "settled (sc_status s) i" if "i \<in> set (planned_ids cx)" for i
    by (rule loop_done_settled [OF assms(1) inv assms(5,4) that])
  have "sequential cx pre = sc_status s"
    by (rule sequential_unique [OF assms(1)])
       (use deps_invD(1) [OF loop_invD(1) [OF inv]] settled_verdict [OF assms(1) inv _ all] in simp_all)
  moreover have "sweep cx s = Inr s"
    unfolding sweep_def by (rule sweep_settled) (use all in blast)
  ultimately show ?thesis by simp
qed

section \<open>Properties\<close>

text \<open>
  Property C1. The schedule does not decide the outcome. However the loop interleaves starts and
  completions, and however many models it runs at once, when a run that was never stopped leaves the loop,
  every model has the status it would have had if the models had run one at a time in plan order, and the
  sweep has nothing left to classify.
\<close>

theorem schedule_matches_sequential:
  assumes "wf_context cx" "prepare cx failed (initial_sched cx cancelled fail_fast events) = Inr pre"
    and "sched_reach cx pre s" "loop_done s" "\<not> stopped s"
  shows "sc_status s = sequential cx pre \<and> sweep cx s = Inr s"
  using assms by (rule complete_run_sequential)

text \<open>
  Property C2. The loop ends and leaves nothing behind: from a prepared state there is no infinite
  sequence of steps, a state that is not done can step, and after the sweep that follows, every
  planned model is in a terminal state.
\<close>

theorem schedule_ends:
  assumes "wf_context cx" "prepare cx failed (initial_sched cx cancelled fail_fast events) = Inr pre"
  shows "(\<nexists>f. f 0 = pre \<and> (\<forall>n. sched_step cx (f n) (Inr (f (Suc n))))) \<and>
    (\<forall>s. sched_reach cx pre s \<longrightarrow> (loop_done s \<or> (\<exists>r. sched_step cx s r)) \<and>
       (\<forall>s'. sweep cx s = Inr s' \<longrightarrow> (\<forall>i \<in> set (planned_ids cx). settled (sc_status s') i)))"
proof (intro conjI allI impI ballI notI)
  assume "\<exists>f. f 0 = pre \<and> (\<forall>n. sched_step cx (f n) (Inr (f (Suc n))))"
  then obtain f where f: "f 0 = pre" "\<And>n. sched_step cx (f n) (Inr (f (Suc n)))" by blast
  have reach: "sched_reach cx pre (f n)" for n
    by (induction n) (use f in \<open>auto intro: sched_reach.intros\<close>)
  have "(f (Suc n), f n) \<in> loop_measure cx" for n
    by (rule sched_step_decreases [OF assms(1) f(2) sched_reach_inv [OF assms(1) reach prepare_inv(1) [OF assms]]])
  then show False using wf_loop_measure wf_iff_no_infinite_down_chain by metis
next
  fix s
  show "loop_done s \<or> (\<exists>r. sched_step cx s r)" using sched_progress by blast
  fix s' i assume "sweep cx s = Inr s'" "i \<in> set (planned_ids cx)"
  then show "settled (sc_status s') i"
    using sweep_Inr(1) [of cx s s' i] by (auto simp: settled_def status_or_default_def swept_status_def)
qed

text \<open>
  Property C6. What holds at every point of a run: never more models in flight than slots (one at
  least), no model twice; a model is started only when every planned dependency is satisfied, and its
  dependencies stay so while it runs and after; the count kept for a model is the number of its
  dependencies that are not satisfied.
\<close>

theorem running_within_limits:
  assumes "wf_context cx" "prepare cx failed (initial_sched cx cancelled fail_fast events) = Inr pre"
    and "sched_reach cx pre s"
  shows "length (sc_running s) \<le> max (rx_concurrency cx) 1 \<and> distinct (map tk_id (sc_running s)) \<and>
    tk_id ` set (sc_running s) \<subseteq> {i. sc_status s i = Some Running} \<and>
    (\<forall>i. started (sc_status s) i \<longrightarrow>
       (\<forall>d \<in> set (planned_deps cx i). is_satisfied (status_or_default (sc_status s) d))) \<and>
    (\<forall>i \<in> set (planned_ids cx). sc_remaining s i =
       Some (length (filter (\<lambda>d. \<not> is_satisfied (status_or_default (sc_status s) d)) (planned_deps cx i))))"
proof -
  have inv: "loop_inv cx pre (sc_ready s) s"
    by (rule sched_reach_inv [OF assms(1,3) prepare_inv(1) [OF assms(1,2)]])
  note di = deps_invD [OF loop_invD(1) [OF inv]] and qi = queue_invD [OF loop_invD(3) [OF inv]]
  have "length (sc_running s) \<le> max (rx_concurrency cx) 1" using qi(2) by (simp add: concurrency_def)
  moreover have "tk_id ` set (sc_running s) \<subseteq> {i. sc_status s i = Some Running}" using qi(3) by blast
  moreover have "\<forall>i. started (sc_status s) i \<longrightarrow> (\<forall>d \<in> set (planned_deps cx i). satisfied (sc_status s) d)"
    using di(5) by (auto simp: waiting_on_def filter_empty_conv)
  ultimately show ?thesis using qi(1) di(4) by (simp add: satisfied_def waiting_on_def)
qed

text \<open>
  Property C3. Failures propagate, and only failures do: at every point of a run a planned model with a
  failed or blocked dependency is itself settled and did not run, and a model is blocked only when it reads
  a seed that failed to load or has a failed or blocked dependency; a settled model keeps its status
  for the rest of the run.
\<close>

theorem failure_blocks_dependents:
  assumes "wf_context cx" "prepare cx failed (initial_sched cx cancelled fail_fast events) = Inr pre"
    and "sched_reach cx pre s"
  shows "(\<forall>i \<in> set (planned_ids cx). \<forall>d \<in> set (planned_deps cx i). broken (sc_status s) d \<longrightarrow>
      settled (sc_status s) i \<and> \<not> started (sc_status s) i) \<and>
    (\<forall>i. sc_status s i = Some Blocked \<longrightarrow>
       i \<in> seed_readers cx failed \<or> (\<exists>d \<in> set (planned_deps cx i). broken (sc_status s) d)) \<and>
    (\<forall>t i. sched_reach cx s t \<longrightarrow> settled (sc_status s) i \<longrightarrow> sc_status t i = sc_status s i)"
proof (intro conjI ballI allI impI)
  have inv: "loop_inv cx pre (sc_ready s) s"
    by (rule sched_reach_inv [OF assms(1,3) prepare_inv(1) [OF assms(1,2)]])
  note di = deps_invD [OF loop_invD(1) [OF inv]]
  fix i
  show "settled (sc_status s) i" "\<not> started (sc_status s) i"
    if "i \<in> set (planned_ids cx)" "d \<in> set (planned_deps cx i)" "broken (sc_status s) d" for d
    using di(5,6) that broken_not_satisfied by (force simp: waiting_on_def filter_empty_conv)+
  show "i \<in> seed_readers cx failed \<or> (\<exists>d \<in> set (planned_deps cx i). broken (sc_status s) d)"
    if blocked: "sc_status s i = Some Blocked"
  proof -
    note pi = deps_invD [OF prep_invD(1) [OF prepare_inv(4) [OF assms(1,2)]]]
    have keep: "broken (sc_status s) d" if "broken (sc_status pre) d" for d
      using that pre_invD(1) [OF loop_invD(4) [OF inv] broken_settled [OF that]] by (simp add: broken_def)
    show ?thesis using di(7) [OF blocked] pi(7) [of i] keep by auto
  qed
  show "sc_status t i = sc_status s i" if "sched_reach cx s t" "settled (sc_status s) i" for t
    by (rule reach_keeps_settled [OF assms(1) that(1) inv that(2)])
qed

section \<open>Plans make well-formed contexts\<close>

lemma planned_of_names:
  assumes "map pm_id (pl_models p) = map logical_name order" "\<forall>i \<in> set order. wf_model_id i"
  shows "planned_of p = order"
  using assms unfolding planned_of_def
proof (induction "pl_models p" arbitrary: p order)
  case Nil
  then show ?case by (simp add: map_filter_simps)
next
  case (Cons m ms)
  then obtain i rest where o: "order = i # rest" "pm_id m = logical_name i" "map pm_id ms = map logical_name rest"
    by (cases order) (auto simp: Cons.hyps(2) [symmetric])
  have "parsed_id m = Some i"
    using Cons.prems(2) o by (simp add: parsed_id_def model_id_parse_logical_name)
  moreover have "List.map_filter parsed_id ms = rest"
    using Cons.hyps(1) [of "p\<lparr>pl_models := ms\<rparr>" rest] o Cons.prems(2) by simp
  ultimately show ?case using Cons.hyps(2) o(1) by (simp add: Cons.hyps(2) [symmetric] map_filter_simps)
qed

definition runnable :: "run_context \<Rightarrow> bool" where
  "runnable cx \<longleftrightarrow> wf_context cx \<and>
     (\<forall>i \<in> set (planned_ids cx). \<forall>m. compilation_model (rx_compilation cx) i = Some m \<longrightarrow>
        cfg_materialization (cm_config m) \<noteq> Ephemeral)"

lemma planned_runnable:
  assumes c: "wf_compilation c" "acyclic (dep_rel (cp_graph c))" "\<forall>m \<in> set (cp_models c). wf_model_id (cm_id m)"
    and plan: "make_plan sha plan_id now es c sel environment force = Some (Inr p)"
    and cx: "rx_compilation cx = c" "rx_plan cx = p"
  shows "runnable cx"
proof -
  obtain order where o: "map pm_id (pl_models p) = map logical_name order" "distinct order"
    "sorted_wrt (\<lambda>a b. b \<notin> model_deps (cp_graph c) a) order"
    "\<forall>i \<in> set order. \<exists>m \<in> set (cp_models c). cm_id m = i \<and> cfg_materialization (cm_config m) \<noteq> Ephemeral"
    using plan_ids_order [OF c(1,2) plan] by blast
  have "\<forall>i \<in> set order. wf_model_id i" using o(4) c(3) by metis
  then have ids: "planned_ids cx = order"
    using planned_of_names [OF o(1)] by (simp add: planned_ids_def cx)
  have model: "compilation_model c i = Some m \<longleftrightarrow> m \<in> set (cp_models c) \<and> cm_id m = i" for i m
    by (rule compilation_model_Some [OF c(1)])
  have dist: "distinct (map cm_id (cp_models c))" using c(1) by (simp add: wf_compilation_def)
  have "set (planned_deps cx (order ! k)) \<subseteq> set (take k order)" if k: "k < length order" for k
  proof
    fix d assume d: "d \<in> set (planned_deps cx (order ! k))"
    then obtain m where m: "compilation_model c (order ! k) = Some m" "d \<in> set (model_dependencies m)" "d \<in> set order"
      by (cases "compilation_model c (order ! k)") (auto simp: planned_deps_def cx ids)
    have "d \<in> model_deps (cp_graph c) (order ! k)"
      using m(1,2) graph_build_Some(3) [of "cp_models c" "cp_graph c" "DepModel d" "order ! k"] c(1)
      by (auto simp: model wf_compilation_def model_deps_def model_dependencies_def)
    moreover from m(3) obtain j where j: "j < length order" "order ! j = d" by (auto simp: in_set_conv_nth)
    moreover have "d \<noteq> order ! k"
    proof
      assume "d = order ! k"
      with \<open>d \<in> model_deps (cp_graph c) (order ! k)\<close> have "(d, d) \<in> dep_rel (cp_graph c)" by (simp add: dep_rel_def)
      with c(2) show False by (meson acyclic_def r_into_trancl)
    qed
    ultimately have "\<not> k < j" "j \<noteq> k"
      using o(3) k by (auto simp: sorted_wrt_iff_nth_less)
    then have "j < k" by simp
    then show "d \<in> set (take k order)" using j k by (auto simp: in_set_conv_nth intro!: exI [of _ j])
  qed
  moreover have "\<exists>m. compilation_model c i = Some m \<and> cm_id m = i" if "i \<in> set order" for i
    using o(4) that model by blast
  moreover have "cfg_materialization (cm_config m) \<noteq> Ephemeral"
    if "i \<in> set order" "compilation_model c i = Some m" for i m
    using o(4) that dist unfolding model by (metis distinct_map inj_onD)
  ultimately show ?thesis using o(2) by (auto simp: runnable_def wf_context_def ids cx)
qed

section \<open>A planned run does not panic\<close>

lemma then_run_Inl: "then_run r f = Inl e \<longleftrightarrow> r = Inl e \<or> (\<exists>a. r = Inr a \<and> f a = Inl e)"
  by (cases r) (auto simp: then_run_def)

lemma fold_run_Inl:
  "fold_run f xs s = Inl e \<Longrightarrow> (\<And>x s. x \<in> set xs \<Longrightarrow> f x s = Inl e \<Longrightarrow> False) \<Longrightarrow> False"
  by (induction xs arbitrary: s) (auto simp: then_run_Inl)

lemma no_panic_write:
  "persist_record cx entry s \<noteq> Inl RunPanic" "persist_model cx r s \<noteq> Inl RunPanic"
  "write_watermark cx m v s \<noteq> Inl RunPanic" "advance_watermark cx m s \<noteq> Inl RunPanic"
  by (auto simp: persist_record_def persist_model_def write_watermark_def advance_watermark_def
      split: option.splits incremental_strategy.splits)

lemma no_panic_block: "block_dependents cx i s \<noteq> Inl RunPanic"
proof
  assume "block_dependents cx i s = Inl RunPanic"
  then obtain bl u where "fold_run (\<lambda>child s. case map_of (sc_results s) child of
      Some r \<Rightarrow> persist_model cx r s | None \<Rightarrow> Inr s) bl u = Inl RunPanic"
    by (auto simp: block_dependents_def persist_blocked_def split: prod.splits)
  then show False by (rule fold_run_Inl) (auto simp: no_panic_write split: option.splits)
qed

lemma no_panic_start:
  assumes "runnable cx" "i \<in> set (planned_ids cx)"
  shows "start_model cx i s \<noteq> Inl RunPanic"
proof -
  obtain m where m: "compilation_model (rx_compilation cx) i = Some m"
    using wf_model [of cx] assms unfolding runnable_def by blast
  then have "cfg_materialization (cm_config m) \<noteq> Ephemeral" using assms by (simp add: runnable_def)
  then obtain operation where "exec_op m (sc_info s i) = Some operation"
    by (cases "cfg_materialization (cm_config m)") (auto simp: exec_op_def)
  then show ?thesis
    by (auto simp: start_model_def m Let_def then_run_Inl no_panic_write split: option.splits)
qed

lemma no_panic_fill:
  "runnable cx \<Longrightarrow> set ready \<subseteq> set (planned_ids cx) \<Longrightarrow> fill_list cx ready s \<noteq> Inl RunPanic"
proof (induction ready arbitrary: s)
  case (Cons i rest)
  then show ?case using no_panic_start [of cx i] by (auto simp: then_run_Inl)
qed simp

lemma no_panic_join:
  assumes "runnable cx" "tk_id t \<in> set (planned_ids cx)"
  shows "join_task cx (task_log_of cx t) s \<noteq> Inl RunPanic" "drain_task cx (task_log_of cx t) s \<noteq> Inl RunPanic"
proof -
  obtain m where m: "compilation_model (rx_compilation cx) (tk_id t) = Some m"
    using wf_model [of cx] assms unfolding runnable_def by blast
  show "join_task cx (task_log_of cx t) s \<noteq> Inl RunPanic"
    by (auto simp: join_task_def m Let_def on_passed_def on_failed_def then_run_Inl no_panic_write no_panic_block
        lost_progress_def split: option.splits sum.splits if_splits)
  show "drain_task cx (task_log_of cx t) s \<noteq> Inl RunPanic"
    by (auto simp: drain_task_def m Let_def then_run_Inl no_panic_write no_panic_block
        lost_progress_def split: option.splits sum.splits if_splits)
qed

text \<open>
  Property C7. Plans are schedulable: for every plan the planner makes of a compiled workspace whose
  dependencies are acyclic, the scheduler's assumptions hold (each planned model once, found in the
  compilation, after its dependencies), and no step of the run can panic.
\<close>

theorem planned_run_never_panics:
  assumes "wf_compilation c" "acyclic (dep_rel (cp_graph c))" "\<forall>m \<in> set (cp_models c). wf_model_id (cm_id m)"
    and "make_plan sha plan_id now es c sel environment force = Some (Inr p)"
    and "rx_compilation cx = c" "rx_plan cx = p"
    and "prepare cx failed (initial_sched cx cancelled fail_fast events) = Inr pre" "sched_reach cx pre s"
  shows "wf_context cx \<and> \<not> sched_step cx s (Inl RunPanic)"
proof -
  have run: "runnable cx" by (rule planned_runnable [OF assms(1-6)])
  then have wf: "wf_context cx" by (simp add: runnable_def)
  have inv: "loop_inv cx pre (sc_ready s) s"
    by (rule sched_reach_inv [OF wf assms(8) prepare_inv(1) [OF wf assms(7)]])
  note qi = queue_invD [OF loop_invD(3) [OF inv]]
  have tasks: "tk_id t \<in> set (planned_ids cx)" if "t \<in> set (sc_running s)" for t
    by (rule pending_planned [OF loop_invD(1) [OF inv] qi(3) [OF that]])
  have "\<not> sched_step cx s (Inl RunPanic)"
  proof
    assume "sched_step cx s (Inl RunPanic)"
    then show False
    proof (cases rule: sched_step.cases)
      case Fill
      have "set (sc_ready s) \<subseteq> set (planned_ids cx)" using qi(6) by blast
      then show ?thesis using Fill(1) no_panic_fill [OF run] by (metis fill_def)
    next
      case (Join t)
      then show ?thesis using no_panic_join(1) [OF run tasks] by metis
    next
      case (Drain t)
      then show ?thesis using no_panic_join(2) [OF run tasks] by metis
    qed
  qed
  with wf show ?thesis by simp
qed

section \<open>A run whose store refuses nothing completes\<close>

definition accepting :: "store option \<Rightarrow> bool" where
  "accepting st \<longleftrightarrow>
     (case st of
        None \<Rightarrow> True
      | Some s \<Rightarrow>
          wr_model s = (\<lambda>r. None) \<and> wr_seed s = (\<lambda>r. None) \<and> wr_test s = (\<lambda>r. None) \<and>
          wr_materialized s = (\<lambda>r. None) \<and> wr_seed_state s = (\<lambda>r. None) \<and>
          wr_watermark s = (\<lambda>m e v r. None) \<and> rd_watermark s = (\<lambda>m e. Inr None))"

lemma accepting_write:
  assumes "accepting st"
  shows "write_with wr_model st a = None" "write_with wr_seed st b = None" "write_with wr_test st c = None"
  using assms by (auto simp: accepting_def write_with_def split: option.splits)

lemma sched_reach_trans: "sched_reach cx t u \<Longrightarrow> sched_reach cx s t \<Longrightarrow> sched_reach cx s u"
  by (induction rule: sched_reach.induct) (auto intro: sched_reach.intros)

lemma accepting_attempts:
  "accepting st \<Longrightarrow> co_state_error (lg_completion (model_attempts p w st t n done)) = None"
proof (induction p w st t n "done" rule: model_attempts.induct)
  case (1 p w st t n "done")
  then show ?case
    by (auto simp: model_attempts.simps [of p w _ t n "done"] Let_def complete_def accepting_write split: sum.split)
qed

lemma accepting_writes:
  assumes "accepting (rx_store cx)"
  shows "persist_record cx entry s \<noteq> Inl e" "persist_model cx r s \<noteq> Inl e"
    "write_watermark cx m v s \<noteq> Inl e" "advance_watermark cx m s \<noteq> Inl e"
  using assms by (auto simp: persist_record_def persist_model_def write_watermark_def advance_watermark_def
      accepting_write accepting_def split: option.splits incremental_strategy.splits)

lemma accepting_block: "accepting (rx_store cx) \<Longrightarrow> block_dependents cx i s \<noteq> Inl e"
proof
  assume none: "accepting (rx_store cx)" and "block_dependents cx i s = Inl e"
  then obtain bl u where "fold_run (\<lambda>child s. case map_of (sc_results s) child of
      Some r \<Rightarrow> persist_model cx r s | None \<Rightarrow> Inr s) bl u = Inl e"
    by (auto simp: block_dependents_def persist_blocked_def split: prod.splits)
  then show False by (rule fold_run_Inl) (auto simp: accepting_writes [OF none] split: option.splits)
qed

lemma accepting_step:
  assumes run: "runnable cx" and none: "accepting (rx_store cx)" "\<not> rx_fail_fast cx"
    and inv: "loop_inv cx pre (sc_ready s) s" "\<not> stopped s" "\<not> loop_done s"
  shows "\<exists>t. sched_step cx s (Inr t) \<and> \<not> stopped t"
proof -
  have wf: "wf_context cx" using run by (simp add: runnable_def)
  note qi = queue_invD [OF loop_invD(3) [OF inv(1)]]
  show ?thesis
  proof (cases "filled cx s")
    case False
    have start: "start_model cx i u \<noteq> Inl e" if "i \<in> set (planned_ids cx)" for i u e
      using no_panic_start [OF run that, of u] accepting_writes [OF none(1)]
      by (auto simp: start_model_def Let_def then_run_Inl split: option.splits)
    have "fill_list cx ready u \<noteq> Inl e" if "set ready \<subseteq> set (planned_ids cx)" for ready u e
      using that by (induction ready arbitrary: u) (auto simp: then_run_Inl start)
    then obtain t where t: "fill cx s = Inr t"
      using qi(6) by (metis fill_def subsetI sum.exhaust)
    then show ?thesis
      using sched_step.Fill [OF inv(2) False] fill_list_inv(2) [OF wf inv(1,2) t [unfolded fill_def]] by metis
  next
    case True
    then have "sc_running s \<noteq> []"
      using inv(2,3) by (auto simp: filled_def loop_done_def concurrency_def)
    then obtain t where t: "t \<in> set (sc_running s)" by (cases "sc_running s") auto
    have planned: "tk_id t \<in> set (planned_ids cx)"
      by (rule pending_planned [OF loop_invD(1) [OF inv(1)] qi(3) [OF t]])
    obtain m where m: "compilation_model (rx_compilation cx) (tk_id t) = Some m"
      using wf_model [OF wf planned] by blast
    have "co_state_error (lg_completion (task_log_of cx t)) = None"
      by (simp add: task_log_of_def run_model_task_def accepting_attempts none(1))
    then have "join_task cx (task_log_of cx t) s \<noteq> Inl e" for e
      using accepting_writes [OF none(1)] accepting_block [OF none(1)]
      by (auto simp: join_task_def m Let_def on_passed_def on_failed_def none(2) then_run_Inl split: sum.splits)
    then obtain u where u: "join_task cx (task_log_of cx t) s = Inr u" by (meson sum.exhaust)
    then show ?thesis
      using sched_step.Join [OF inv(2) True t] join_task_inv [OF wf inv(1,2) t u] none(2) by metis
  qed
qed

lemma accepting_completes:
  assumes run: "runnable cx" and none: "accepting (rx_store cx)" "\<not> rx_fail_fast cx"
  shows "loop_inv cx pre (sc_ready s) s \<Longrightarrow> \<not> stopped s \<Longrightarrow>
    \<exists>t. sched_reach cx s t \<and> loop_done t \<and> \<not> stopped t"
proof (induction s rule: wf_induct [OF wf_loop_measure [of cx]])
  case (1 s)
  show ?case
  proof (cases "loop_done s")
    case True
    then show ?thesis using 1(3) sched_reach.Refl by blast
  next
    case False
    obtain t where t: "sched_step cx s (Inr t)" "\<not> stopped t"
      using accepting_step [OF run none 1(2,3) False] by blast
    have wf: "wf_context cx" using run by (simp add: runnable_def)
    have "\<exists>u. sched_reach cx t u \<and> loop_done u \<and> \<not> stopped u"
      using 1(1) sched_step_decreases [OF wf t(1) 1(2)] sched_step_inv [OF wf t(1) 1(2)] t(2) by blast
    then show ?thesis
      using sched_reach_trans [OF _ sched_reach.Step [OF sched_reach.Refl t(1)]] by blast
  qed
qed

section \<open>A concrete run\<close>

definition quiet_world :: "(32 word \<Rightarrow> attempt_end) \<Rightarrow> attempt_world" where
  "quiet_world e =
     \<lparr>aw_end = e, aw_started = (\<lambda>n. ''t''), aw_ended = (\<lambda>n. ''t''), aw_duration = (\<lambda>n. 0),
      aw_elapsed = (\<lambda>n. 0), aw_cancelled = (\<lambda>n. False), aw_limit = ''1''\<rparr>"

definition sample_plan :: "model_id list \<Rightarrow> plan" where
  "sample_plan ids =
     \<lparr>pl_id = ''p'', pl_created_at = ''t'', pl_environment = None, pl_adapter = ''duckdb'',
      pl_compiler_semantics_version = ''1'', pl_blocked = False,
      pl_selection = \<lparr>psel_terms = [], psel_exclude = [], psel_matched = [], psel_expanded = [], psel_required = []\<rparr>,
      pl_warnings = [], pl_seeds = [],
      pl_models = map (\<lambda>i. \<lparr>pm_id = logical_name i, pm_target = ''t'', pm_materialization = ''view'',
        pm_action = Build, pm_reasons = [], pm_reuse = None, pm_membership = Selected, pm_exists = False,
        pm_incremental = None, pm_full_rebuild = False, pm_watermark = None, pm_desired_version = ''v'',
        pm_current_version = None, pm_dependencies = [], pm_sources = [], pm_sql_hash = [],
        pm_compiled_sql = []\<rparr>) ids,
      pl_tests = [], pl_diagnostics = []\<rparr>"

definition ok_query :: query_result where
  "ok_query = \<lparr>qr_query_id = Some ''q'', qr_columns = [], qr_rows = [], qr_row_count = 0\<rparr>"

definition sample_context :: "compilation \<Rightarrow> plan \<Rightarrow> (model_id \<Rightarrow> attempt_end) \<Rightarrow> run_context" where
  "sample_context c p ends =
     \<lparr>rx_compilation = c, rx_plan = p, rx_run_id = ''r'', rx_environment = None, rx_concurrency = 2,
      rx_fail_fast = False, rx_retry = default_policy, rx_adapter = ''duckdb'', rx_sha = (\<lambda>s. s),
      rx_store = None, rx_prior_models = Map.empty, rx_clock = (\<lambda>i. ''t''),
      rx_identity_before = (\<lambda>r. None), rx_identity_built = (\<lambda>r. Some ''o''),
      rx_query = (\<lambda>s. Inr ok_query), rx_world = (\<lambda>i. quiet_world (\<lambda>n. ends i))\<rparr>"

text \<open>Two models, the second reading the first, which fails.\<close>

definition pair_compiled :: compilation where
  "pair_compiled =
     \<lparr>cp_models = pair_models, cp_tests = [], cp_seeds = [], cp_defaults = no_defaults,
      cp_graph = empty_graph, cp_diagnostics = [], cp_index = [(mid ''a'', 0), (mid ''b'', 1)],
      cp_test_index = []\<rparr>"

definition failing_pair :: run_context where
  "failing_pair = sample_context pair_compiled (sample_plan [mid ''a'', mid ''b''])
     (\<lambda>i. if i = mid ''a'' then AttemptTimeout else AttemptOk ok_query)"

definition pair_prepared :: "run_end + sched" where
  "pair_prepared = prepare failing_pair [] (initial_sched failing_pair False False [])"

lemma failing_pair_facts:
  "planned_ids failing_pair = [mid ''a'', mid ''b'']"
  "planned_deps failing_pair (mid ''a'') = []" "planned_deps failing_pair (mid ''b'') = [mid ''a'']"
  "mid ''a'' \<noteq> mid ''b''" "rx_fail_fast failing_pair = False"
  by code_simp+

lemma failing_pair_fields:
  "rx_store failing_pair = None" "rx_prior_models failing_pair = Map.empty"
  by (simp_all add: failing_pair_def sample_context_def)

lemma failing_pair_models:
  "compilation_model (rx_compilation failing_pair) (mid ''a'') = Some (hd pair_models)"
  "compilation_model (rx_compilation failing_pair) (mid ''b'') = Some (pair_models ! 1)"
  "cm_id (hd pair_models) = mid ''a''" "cm_id (pair_models ! 1) = mid ''b''"
  "cfg_materialization (cm_config (hd pair_models)) = Incremental"
  "cfg_materialization (cm_config (pair_models ! 1)) = View"
  using failing_pair_facts(4)
  by (simp_all add: failing_pair_def sample_context_def pair_compiled_def compilation_model_def pair_models_def
      bare_model_def default_config_def)

lemma failing_pair_runnable: "runnable failing_pair"
  using failing_pair_facts failing_pair_models
  by (auto simp: runnable_def wf_context_def less_Suc_eq)

lemma failing_pair_wf: "wf_context failing_pair"
  using failing_pair_runnable by (simp add: runnable_def)

text \<open>With nothing to reuse and everything to build, the preparation only queues what is ready.\<close>

lemma plan_info_in: "plan_info cx i = Some p \<Longrightarrow> p \<in> set (pl_models (rx_plan cx))"
  unfolding plan_info_def by (drule map_of_SomeD) (auto simp: map_filter_def)

lemma build_prepared:
  assumes "rx_prior_models cx = Map.empty" "\<forall>p \<in> set (pl_models (rx_plan cx)). pm_action p = Build"
  shows "prepare cx [] (initial_sched cx cancelled fail_fast events) =
    Inr (queue_ready cx (initial_sched cx cancelled fail_fast events))"
proof -
  let ?s = "initial_sched cx cancelled fail_fast events"
  have "reuse_prior cx i u = u" for i u
    by (simp add: reuse_prior_def reusable_model_def assms(1) split: option.split)
  then have prior: "fold (reuse_prior cx) xs u = u" for xs u by (induction xs) simp_all
  have "pm_action p = Build" if "plan_info cx i = Some p" for i p
    using assms(2) plan_info_in [OF that] by blast
  then have "planned_action ?s i = Build" for i
    by (simp add: planned_action_def initial_sched_def split: option.split)
  then have "fold_run (skip_or_adopt cx) xs ?s = Inr ?s" for xs
    by (induction xs) (simp_all add: skip_or_adopt_def Let_def then_run_def)
  then show ?thesis by (simp add: prepare_def then_run_def prior)
qed

lemma pair_prepared_eq:
  "\<exists>ready. pair_prepared = Inr ((initial_sched failing_pair False False [])\<lparr>sc_ready := ready\<rparr>)"
proof -
  have "pair_prepared = Inr (queue_ready failing_pair (initial_sched failing_pair False False []))"
    unfolding pair_prepared_def
    by (rule build_prepared) (auto simp: failing_pair_def sample_context_def sample_plan_def)
  then show ?thesis unfolding queue_ready_def by blast
qed

lemma failing_pair_passes: "\<not> task_passes failing_pair pre (mid ''a'')"
proof -
  have no: "\<not> retries p w (timeout_failure ''t'' ''1'' n) n" for p w n
    by (simp add: retries_def should_retry_def timeout_failure_def)
  have "attempt_result (rx_world failing_pair (mid ''a'')) n = Inl (timeout_failure ''t'' ''1'' n)" for n
    by (simp add: failing_pair_def sample_context_def attempt_result_def quiet_world_def)
  then have "co_outcome (lg_completion (model_attempts p (rx_world failing_pair (mid ''a'')) None t n [])) =
      Inl (timeout_failure ''t'' ''1'' n)" for p t n
    by (simp add: model_attempts.simps [of _ _ _ _ n] no write_with_def Let_def complete_def)
  then show ?thesis
    by (auto simp: task_passes_def task_for_def task_of_def failing_pair_models(1,3) task_log_of_def run_model_task_def
        failing_pair_fields split: option.split)
qed

lemma failing_pair_done:
  obtains pre s where "pair_prepared = Inr pre" "sched_reach failing_pair pre s" "loop_done s" "\<not> stopped s"
    "sc_status s (mid ''a'') = Some Failed" "sc_status s (mid ''b'') = Some Blocked"
proof -
  obtain ready where pre: "pair_prepared = Inr ((initial_sched failing_pair False False [])\<lparr>sc_ready := ready\<rparr>)"
    using pair_prepared_eq by blast
  let ?pre = "(initial_sched failing_pair False False [])\<lparr>sc_ready := ready\<rparr>"
  have inv: "loop_inv failing_pair ?pre (sc_ready ?pre) ?pre"
    by (rule prepare_inv(1) [OF failing_pair_wf pre [unfolded pair_prepared_def]])
  have run: "\<not> stopped ?pre" by (simp add: initial_sched_def stopped_def)
  obtain s where s: "sched_reach failing_pair ?pre s" "loop_done s" "\<not> stopped s"
    using accepting_completes [OF failing_pair_runnable _ _ inv run]
    by (auto simp: failing_pair_facts(5) failing_pair_fields(1) accepting_def)
  have open': "\<not> settled (sc_status ?pre) i" for i
    by (simp add: initial_sched_def failing_pair_facts settled_def status_or_default_def)
  have "sequential failing_pair ?pre (mid ''a'') = Some Failed \<and> sequential failing_pair ?pre (mid ''b'') = Some Blocked"
    using open' failing_pair_facts failing_pair_passes [of ?pre]
    by (simp add: sequential_def verdict_def broken_def)
  with that [OF pre s] complete_run_sequential [OF failing_pair_wf pre [unfolded pair_prepared_def] s]
  show thesis by simp
qed

theorem schedule_matches_sequential_witness:
  "\<exists>pre s. pair_prepared = Inr pre \<and> sched_reach failing_pair pre s \<and>
     sc_status s (mid ''a'') = Some Failed \<and> sc_status s (mid ''b'') = Some Blocked \<and>
     sc_status s = sequential failing_pair pre"
proof -
  obtain pre s where h: "pair_prepared = Inr pre" "sched_reach failing_pair pre s" "loop_done s" "\<not> stopped s"
    "sc_status s (mid ''a'') = Some Failed" "sc_status s (mid ''b'') = Some Blocked" by (rule failing_pair_done)
  with schedule_matches_sequential [OF failing_pair_wf h(1) [unfolded pair_prepared_def] h(2-4)]
  show ?thesis by blast
qed

theorem schedule_ends_witness:
  "\<exists>pre. pair_prepared = Inr pre \<and> \<not> (\<exists>f. f 0 = pre \<and> (\<forall>n. sched_step failing_pair (f n) (Inr (f (Suc n)))))"
proof -
  obtain pre s where h: "pair_prepared = Inr pre" "sched_reach failing_pair pre s" by (rule failing_pair_done)
  with schedule_ends [OF failing_pair_wf h(1) [unfolded pair_prepared_def]] show ?thesis by blast
qed

theorem running_within_limits_witness:
  "\<exists>pre s. pair_prepared = Inr pre \<and> sched_reach failing_pair pre s \<and> loop_done s \<and> length (sc_running s) \<le> 2"
proof -
  obtain pre s where h: "pair_prepared = Inr pre" "sched_reach failing_pair pre s" "loop_done s" by (rule failing_pair_done)
  have "rx_concurrency failing_pair = 2" by (simp add: failing_pair_def sample_context_def)
  then have "length (sc_running s) \<le> 2"
    using running_within_limits [OF failing_pair_wf h(1) [unfolded pair_prepared_def] h(2)] by simp
  with h show ?thesis by blast
qed

theorem failure_blocks_dependents_witness:
  "\<exists>pre s. pair_prepared = Inr pre \<and> sched_reach failing_pair pre s \<and> broken (sc_status s) (mid ''a'') \<and>
     settled (sc_status s) (mid ''b'') \<and> \<not> started (sc_status s) (mid ''b'')"
proof -
  obtain pre s where h: "pair_prepared = Inr pre" "sched_reach failing_pair pre s"
    "sc_status s (mid ''a'') = Some Failed" by (rule failing_pair_done)
  then have b: "broken (sc_status s) (mid ''a'')" by (simp add: broken_def)
  then have "settled (sc_status s) (mid ''b'') \<and> \<not> started (sc_status s) (mid ''b'')"
    using failure_blocks_dependents [OF failing_pair_wf h(1) [unfolded pair_prepared_def] h(2)]
    by (auto simp: failing_pair_facts)
  with h b show ?thesis by blast
qed

text \<open>The planner's own plan of the two models, run with both passing.\<close>

definition planned_pair :: run_context where
  "planned_pair = sample_context (pair_workspace [])
     (case pair_plan [] of Some (Inr p) \<Rightarrow> p | _ \<Rightarrow> sample_plan []) (\<lambda>i. AttemptOk ok_query)"

lemma accepting_prepare:
  assumes "accepting (rx_store cx)"
  obtains pre where "prepare cx [] s = Inr pre"
proof -
  note quiet = accepting_writes [OF assms]
  have settle: "settle_as cx i a u \<noteq> Inl e" for i a u e
    by (auto simp: settle_as_def Let_def quiet then_run_Inl split: option.splits)
  have "adopt cx i u \<noteq> Inl e" for i u e
    using assms by (auto simp: adopt_def adopt_watermark_def accepting_def Let_def quiet split: option.splits)
  then have "skip_or_adopt cx i u \<noteq> Inl e" for i u e
    using settle by (auto simp: skip_or_adopt_def Let_def then_run_Inl)
  then have "fold_run (skip_or_adopt cx) xs u \<noteq> Inl e" for xs u e
    using fold_run_Inl [of "skip_or_adopt cx" xs u e] by blast
  then obtain u where "fold_run (skip_or_adopt cx) (planned_ids cx) (fold (reuse_prior cx) (planned_ids cx) s) = Inr u"
    by (meson sum.exhaust)
  then show thesis using that by (simp add: prepare_def then_run_def)
qed

theorem planned_run_never_panics_witness:
  "wf_context planned_pair \<and>
   (case prepare planned_pair [] (initial_sched planned_pair False False []) of
      Inl _ \<Rightarrow> True
    | Inr pre \<Rightarrow> \<not> sched_step planned_pair pre (Inl RunPanic))"
proof -
  obtain p where p: "pair_plan [] = Some (Inr p)" using pair_planned by (auto split: option.splits sum.splits)
  have ids: "\<forall>m \<in> set (cp_models (pair_workspace [])). wf_model_id (cm_id m)" using pair_ids by blast
  have cx: "rx_compilation planned_pair = pair_workspace []" "rx_plan planned_pair = p"
    by (simp_all add: planned_pair_def sample_context_def p)
  note safe = planned_run_never_panics [OF pair_wf pair_acyclic ids p [unfolded pair_plan_def] cx]
  obtain pre where pre: "prepare planned_pair [] (initial_sched planned_pair False False []) = Inr pre"
    by (rule accepting_prepare [of planned_pair]) (simp_all add: planned_pair_def sample_context_def accepting_def)
  show ?thesis using safe [OF pre sched_reach.Refl] by (simp add: pre)
qed

end
