(* ===== verification/Run.thy ===== *)
theory Run
  imports Progress "HOL-Library.Product_Lexorder" "HOL-Library.Option_ord"
begin

text \<open>
  A whole run, \<open>Runner::apply\<close>, \<open>resume\<close>, \<open>retry_failed\<close> and \<open>execute\<close> of
  \<^verbatim>\<open>phlo-transform-engine/src/run.rs\<close>: opening the run in the store, the schemas and seeds loaded
  before any model, the scheduler of the theory Schedule, the tests, the counts and status, the
  materialisations recorded at the end, and the two ways to continue an earlier run. What the run meets is
  the record \<open>run_inputs\<close>. The warnings of failed query cancellations are left out.
\<close>

section \<open>The stored plan\<close>

record stored_plan_model =
  spm_id :: string
  spm_target :: string
  spm_action :: string
  spm_desired_version :: string
  spm_full_rebuild :: bool
  spm_watermark :: "string option"

record stored_plan_seed =
  sps_name :: string
  sps_target :: string
  sps_path :: string
  sps_action :: string
  sps_desired_version :: string

record stored_plan_test =
  spt_id :: string
  spt_targets :: "string list"
  spt_sources :: "string list"

record stored_plan =
  spl_plan_id :: string
  spl_environment :: "string option"
  spl_models :: "stored_plan_model list"
  spl_seeds :: "stored_plan_seed list"
  spl_tests :: "stored_plan_test list"

definition stored_plan_of :: "plan \<Rightarrow> string option \<Rightarrow> stored_plan" where
  "stored_plan_of p environment =
     \<lparr>spl_plan_id = pl_id p, spl_environment = environment,
      spl_models = map (\<lambda>m. \<lparr>spm_id = pm_id m, spm_target = pm_target m,
        spm_action = plan_action_str (pm_action m), spm_desired_version = pm_desired_version m,
        spm_full_rebuild = pm_full_rebuild m, spm_watermark = pm_watermark m\<rparr>) (pl_models p),
      spl_seeds = map (\<lambda>s. \<lparr>sps_name = ps_name s, sps_target = ps_target s, sps_path = ps_path s,
        sps_action = plan_action_str (ps_action s), sps_desired_version = ps_desired_version s\<rparr>) (pl_seeds p),
      spl_tests = map (\<lambda>t. \<lparr>spt_id = pt_id t, spt_targets = pt_targets t, spt_sources = pt_sources t\<rparr>)
        (pl_tests p)\<rparr>"

record stored_run =
  sto_record :: run_summary
  sto_plan :: "stored_plan option"

section \<open>What a run meets\<close>

record run_inputs =
  ri_context :: run_context
  ri_resume :: bool
  ri_continued_from :: "string option"
  ri_started_at :: string
  ri_finished_at :: string
  ri_run_tests :: bool
  ri_prior_seeds :: "string \<rightharpoonup> seed_run_record"
  ri_ensure_schema :: "relation \<Rightarrow> adapter_error option"
  ri_seed_world :: "string \<Rightarrow> attempt_world"
  ri_seed_clock :: "string \<Rightarrow> string"
  ri_seed_cancelled :: "string \<Rightarrow> bool"
  ri_identity_final :: "relation \<Rightarrow> string option"
  ri_test_world :: test_world
  ri_start_run :: "run_summary \<Rightarrow> stored_plan \<Rightarrow> engine_error option"
  ri_reopen_run :: "string \<Rightarrow> engine_error option"
  ri_finish_run :: "string \<Rightarrow> execution_status \<Rightarrow> string \<Rightarrow> nat \<Rightarrow> engine_error option"

abbreviation ri_compilation :: "run_inputs \<Rightarrow> compilation" where
  "ri_compilation ri \<equiv> rx_compilation (ri_context ri)"

abbreviation ri_plan :: "run_inputs \<Rightarrow> plan" where
  "ri_plan ri \<equiv> rx_plan (ri_context ri)"

definition checked :: "engine_error option \<Rightarrow> (run_end + 'a) \<Rightarrow> run_end + 'a" where
  "checked r k = (case r of Some e \<Rightarrow> Inl (RunError e) | None \<Rightarrow> k)"

section \<open>Opening the run\<close>

definition run_summary_of :: "run_inputs \<Rightarrow> run_summary" where
  "run_summary_of ri =
     \<lparr>rs_run_id = rx_run_id (ri_context ri), rs_plan_id = pl_id (ri_plan ri),
      rs_environment = rx_environment (ri_context ri), rs_reference_hash = None,
      rs_started_at = ri_started_at ri, rs_finished_at = None, rs_status = Running,
      rs_model_count = length (planned_ids (ri_context ri)), rs_failed_count = 0\<rparr>"

definition open_run :: "run_inputs \<Rightarrow> engine_error option" where
  "open_run ri =
     (if rx_store (ri_context ri) = None then None
      else if ri_resume ri then ri_reopen_run ri (rx_run_id (ri_context ri))
      else ri_start_run ri (run_summary_of ri)
             (stored_plan_of (ri_plan ri) (rx_environment (ri_context ri))))"

definition planned_models :: "run_context \<Rightarrow> compiled_model list" where
  "planned_models cx =
     filter (\<lambda>m. cm_id m \<in> set (planned_ids cx)) (cp_models (rx_compilation cx))"

text \<open>The planned models that write each target, by target.\<close>

definition target_counts :: "run_context \<Rightarrow> (string \<times> nat) list" where
  "target_counts cx =
     fold (\<lambda>m counts. let t = relation_display (cm_target m)
                      in bm_insert t (Suc (case map_of counts t of Some n \<Rightarrow> n | None \<Rightarrow> 0)) counts)
       (planned_models cx) []"

definition shared_targets :: "run_context \<Rightarrow> (string \<times> nat) list" where
  "shared_targets cx = filter (\<lambda>(t, n). 1 < n) (target_counts cx)"

definition shared_warning :: "string \<times> nat \<Rightarrow> string" where
  "shared_warning = (\<lambda>(t, n). t @ '' is written by '' @ dec n @ '' planned models; their writes are serialised'')"

definition target_schemas :: "run_context \<Rightarrow> (string option \<times> string) list" where
  "target_schemas cx =
     btree_set (map (\<lambda>m. (rel_catalog (cm_target m), rel_schema (cm_target m))) (planned_models cx))"

fun ensure_schemas :: "(relation \<Rightarrow> adapter_error option) \<Rightarrow> (string option \<times> string) list \<Rightarrow> adapter_error option" where
  "ensure_schemas ensure [] = None"
| "ensure_schemas ensure ((catalog, schema) # rest) =
     (case ensure (Relation catalog schema []) of
        Some e \<Rightarrow> Some e
      | None \<Rightarrow> ensure_schemas ensure rest)"

section \<open>Seeds\<close>

record seed_phase =
  sd_results :: "seed_result list"
  sd_events :: "engine_event list"
  sd_writes :: "seed_run_record list"
  sd_cancelled :: bool
  sd_fail_fast :: bool

definition find_seed :: "compilation \<Rightarrow> string \<Rightarrow> compiled_seed option" where
  "find_seed c name = find (\<lambda>s. cs_name s = name) (cp_seeds c)"

definition planned_relation :: "run_inputs \<Rightarrow> compiled_seed \<Rightarrow> relation" where
  "planned_relation ri seed =
     seed_relation seed (wd_catalog (cp_defaults (ri_compilation ri)))
       (default_schema (ri_compilation ri) (rx_adapter (ri_context ri))) (rx_adapter (ri_context ri))"

text \<open>A result noted without a load: written to the store when \<open>write\<close> says so.\<close>

definition note_seed ::
    "run_inputs \<Rightarrow> bool \<Rightarrow> seed_result \<Rightarrow> engine_event list \<Rightarrow> seed_phase \<Rightarrow> run_end + seed_phase" where
  "note_seed ri write r events sd =
     (let now = ri_seed_clock ri (sres_seed r);
          entry = seed_run_record_of (rx_run_id (ri_context ri)) r now now;
          noted = sd\<lparr>sd_results := sd_results sd @ [r], sd_events := sd_events sd @ events\<rparr>
      in if write
         then checked (write_with wr_seed (rx_store (ri_context ri)) entry)
                (Inr (noted\<lparr>sd_writes := sd_writes sd @ logged (ri_context ri) entry\<rparr>))
         else Inr noted)"

definition seed_reused :: "run_inputs \<Rightarrow> string \<Rightarrow> bool" where
  "seed_reused ri name =
     (case ri_prior_seeds ri name of Some r \<Rightarrow> srr_status r = Passed | None \<Rightarrow> False)"

definition load_planned_seed :: "run_inputs \<Rightarrow> planned_seed \<Rightarrow> relation \<Rightarrow> seed_phase \<Rightarrow> run_end + seed_phase" where
  "load_planned_seed ri ps r sd =
     (case ri_ensure_schema ri r of
        Some e \<Rightarrow> Inl (RunError (EAdapter e))
      | None \<Rightarrow>
          (case run_seed (rx_retry (ri_context ri)) (ri_seed_world ri (ps_name ps)) (rx_store (ri_context ri))
                  (rx_run_id (ri_context ri)) ps r (ri_seed_clock ri (ps_name ps)) of
             Inl e \<Rightarrow> Inl (RunError e)
           | Inr (result, events, writes) \<Rightarrow>
               Inr \<lparr>sd_results = sd_results sd @ [result], sd_events = sd_events sd @ events,
                    sd_writes = sd_writes sd @ concat (map (logged (ri_context ri)) writes),
                    sd_cancelled = (sd_cancelled sd \<or> ri_seed_cancelled ri (ps_name ps)),
                    sd_fail_fast = (sd_fail_fast sd \<or>
                       sres_status result = Failed \<and> rx_fail_fast (ri_context ri))\<rparr>))"

definition run_planned_seed :: "run_inputs \<Rightarrow> planned_seed \<Rightarrow> seed_phase \<Rightarrow> run_end + seed_phase" where
  "run_planned_seed ri ps sd =
     (case find_seed (ri_compilation ri) (ps_name ps) of
        None \<Rightarrow> Inr sd
      | Some seed \<Rightarrow>
          if sd_cancelled sd \<or> sd_fail_fast sd then
            note_seed ri True
              (seed_result_of ps Cancelled []
                 (Some (without_attempt (ri_seed_clock ri (ps_name ps)) CancelledFailure ''not started'')) 0) [] sd
          else if ps_action ps \<noteq> Build then
            (let reused = seed_reused ri (cs_name seed);
                 outcome = (if reused then CachedStatus else Skipped)
             in note_seed ri (\<not> reused) (seed_result_of ps outcome [] None 0)
                  [SeedFinished (ps_name ps) outcome] sd)
          else load_planned_seed ri ps (planned_relation ri seed) sd)"

definition load_seeds :: "run_inputs \<Rightarrow> run_end + seed_phase" where
  "load_seeds ri =
     fold_run (run_planned_seed ri) (pl_seeds (ri_plan ri))
       \<lparr>sd_results = [], sd_events = [], sd_writes = [], sd_cancelled = False, sd_fail_fast = False\<rparr>"

definition failed_seed_targets :: "seed_phase \<Rightarrow> string list" where
  "failed_seed_targets sd =
     btree_set (map sres_target (filter (\<lambda>r. sres_status r = Failed) (sd_results sd)))"

section \<open>Before the loop\<close>

definition run_started :: "run_inputs \<Rightarrow> engine_event" where
  "run_started ri = RunStarted (rx_run_id (ri_context ri)) (pl_id (ri_plan ri)) (ri_continued_from ri)"

text \<open>The run is opened in the store before any work; the first failing step ends it.\<close>

definition execute_head :: "run_inputs \<Rightarrow> run_end + (seed_phase \<times> sched)" where
  "execute_head ri =
     (let cx = ri_context ri
      in checked (open_run ri)
           (checked (map_option EAdapter (ensure_schemas (ri_ensure_schema ri) (target_schemas cx)))
             (then_run (load_seeds ri) (\<lambda>sd.
                then_run (prepare cx (failed_seed_targets sd)
                    (initial_sched cx (sd_cancelled sd) (sd_fail_fast sd) (run_started ri # sd_events sd)))
                  (\<lambda>pre. Inr (sd, pre))))))"

section \<open>Counts, status and records\<close>

record run_result =
  rres_run_id :: string
  rres_plan_id :: string
  rres_environment :: "string option"
  rres_continued_from :: "string option"
  rres_status :: execution_status
  rres_started_at :: string
  rres_finished_at :: string
  rres_counts :: run_counts
  rres_warnings :: "string list"
  rres_models :: "model_result list"
  rres_tests :: "test_result list"
  rres_seeds :: "seed_result list"
  rres_events :: "engine_event list"

definition result_statuses ::
    "(model_id \<times> model_result) list \<Rightarrow> seed_result list \<Rightarrow> test_result list \<Rightarrow> execution_status list" where
  "result_statuses results seeds tests =
     map (mres_status \<circ> snd) results @ map sres_status seeds @ map tres_status tests"

definition run_counts_of :: "execution_status list \<Rightarrow> run_counts" where
  "run_counts_of statuses = fold add_count statuses no_counts"

definition run_status :: "bool \<Rightarrow> execution_status list \<Rightarrow> execution_status" where
  "run_status cancelled statuses =
     (if cancelled then Cancelled else if Failed \<in> set statuses then Failed else Passed)"

text \<open>The compiled model behind a result that passed.\<close>

definition built_model :: "run_context \<Rightarrow> model_result \<Rightarrow> compiled_model option" where
  "built_model cx r =
     (if mres_status r \<noteq> Passed then None
      else (case model_id_parse (mres_model r) of
              Inr i \<Rightarrow> compilation_model (rx_compilation cx) i
            | Inl _ \<Rightarrow> None))"

definition overwritten :: "run_inputs \<Rightarrow> compiled_model \<Rightarrow> model_result \<Rightarrow> bool" where
  "overwritten ri m r \<longleftrightarrow>
     (case mres_output_identity r of
        None \<Rightarrow> False
      | Some captured \<Rightarrow> ri_identity_final ri (cm_target m) \<noteq> Some captured)"

definition overwritten_warning :: "model_result \<Rightarrow> string" where
  "overwritten_warning r =
     ''materialisation for '' @ mres_model r @ '' not recorded: '' @ mres_target r @
     '' changed after the build (a concurrent writer owns it now)''"

definition record_result ::
    "run_inputs \<Rightarrow> store \<Rightarrow> model_result \<Rightarrow> string list \<times> materialized_record list
       \<Rightarrow> run_end + string list \<times> materialized_record list" where
  "record_result ri st r acc =
     (case (built_model (ri_context ri) r, acc) of
        (None, _) \<Rightarrow> Inr acc
      | (Some m, (warnings, records)) \<Rightarrow>
          if overwritten ri m r then Inr (warnings @ [overwritten_warning r], records)
          else (let entry = materialized_of (ri_context ri) m (mres_model r) (mres_target r)
                              (mres_output_identity r) (rx_run_id (ri_context ri)) (ri_finished_at ri)
                in checked (wr_materialized st entry) (Inr (warnings, records @ [entry]))))"

definition record_seed_result ::
    "run_inputs \<Rightarrow> store \<Rightarrow> seed_result \<Rightarrow> seed_record list \<Rightarrow> run_end + seed_record list" where
  "record_seed_result ri st r records =
     (if sres_status r \<noteq> Passed then Inr records
      else (case find_seed (ri_compilation ri) (sres_seed r) of
              None \<Rightarrow> Inr records
            | Some seed \<Rightarrow>
                (let entry = \<lparr>sr_name = cs_name seed, sr_environment = rx_environment (ri_context ri),
                              sr_content_hash = cs_content_hash seed, sr_target = sres_target r,
                              sr_run_id = rx_run_id (ri_context ri), sr_loaded_at = ri_finished_at ri\<rparr>
                 in checked (wr_seed_state st entry) (Inr (records @ [entry])))))"

record run_records =
  rk_warnings :: "string list"
  rk_materialized :: "materialized_record list"
  rk_seeds :: "seed_record list"

definition record_run ::
    "run_inputs \<Rightarrow> string list \<Rightarrow> (model_id \<times> model_result) list \<Rightarrow> seed_result list
       \<Rightarrow> run_end + run_records" where
  "record_run ri warnings results seeds =
     (case rx_store (ri_context ri) of
        None \<Rightarrow> Inr \<lparr>rk_warnings = warnings, rk_materialized = [], rk_seeds = []\<rparr>
      | Some st \<Rightarrow>
          then_run (fold_run (record_result ri st) (map snd results) (warnings, [])) (\<lambda>(warned, records).
            then_run (fold_run (record_seed_result ri st) seeds []) (\<lambda>loaded.
              Inr \<lparr>rk_warnings = warned, rk_materialized = records, rk_seeds = loaded\<rparr>)))"

definition close_run :: "run_inputs \<Rightarrow> bool \<Rightarrow> execution_status list \<Rightarrow> engine_error option" where
  "close_run ri cancelled statuses =
     (if rx_store (ri_context ri) = None then None
      else ri_finish_run ri (rx_run_id (ri_context ri)) (run_status cancelled statuses) (ri_finished_at ri)
             (rn_failed (run_counts_of statuses)))"

section \<open>After the loop\<close>

text \<open>What a run leaves: its report, the last state of the scheduler, and the records it wrote.\<close>

record run_outcome =
  ro_result :: run_result
  ro_sched :: sched
  ro_records :: run_records

definition model_results :: "run_context \<Rightarrow> (model_id \<times> model_result) list \<Rightarrow> model_result list" where
  "model_results cx results = List.map_filter (map_of results) (planned_ids cx)"

definition finish ::
    "run_inputs \<Rightarrow> seed_phase \<Rightarrow> sched \<Rightarrow> test_result list \<Rightarrow> engine_event list \<Rightarrow> run_end + run_outcome" where
  "finish ri sd s tests events =
     (let cx = ri_context ri;
          statuses = result_statuses (sc_results s) (sd_results sd) tests;
          verdict = run_status (sc_cancelled s) statuses
      in then_run (record_run ri (map shared_warning (shared_targets cx)) (sc_results s) (sd_results sd))
           (\<lambda>rk. checked (close_run ri (sc_cancelled s) statuses) (Inr
             \<lparr>ro_result = \<lparr>rres_run_id = rx_run_id cx, rres_plan_id = pl_id (ri_plan ri),
                rres_environment = rx_environment cx, rres_continued_from = ri_continued_from ri,
                rres_status = verdict, rres_started_at = ri_started_at ri,
                rres_finished_at = ri_finished_at ri, rres_counts = run_counts_of statuses,
                rres_warnings = rk_warnings rk, rres_models = model_results cx (sc_results s),
                rres_tests = tests, rres_seeds = sd_results sd,
                rres_events = sc_events s @ events @ [RunFinished (rx_run_id cx) verdict]\<rparr>,
              ro_sched = s, ro_records = rk\<rparr>)))"

definition execute_tail :: "run_inputs \<Rightarrow> seed_phase \<Rightarrow> sched \<Rightarrow> run_end + run_outcome" where
  "execute_tail ri sd done =
     (let cx = ri_context ri
      in then_run (sweep cx done) (\<lambda>s.
           (case run_tests (rx_store cx) (rx_run_id cx) (ri_run_tests ri) (rx_compilation cx) (rx_adapter cx)
                   (rx_plan cx) (sc_status s) (failed_seed_targets sd) (stopped s) (ri_test_world ri) of
              Inl e \<Rightarrow> Inl (RunError e)
            | Inr (tests, events) \<Rightarrow> finish ri sd s tests events)))"

inductive executed :: "run_inputs \<Rightarrow> run_end + run_outcome \<Rightarrow> bool" for ri where
  HeadFails: "execute_head ri = Inl e \<Longrightarrow> executed ri (Inl e)"
| LoopFails: "execute_head ri = Inr (sd, pre) \<Longrightarrow> sched_reach (ri_context ri) pre s \<Longrightarrow>
    sched_step (ri_context ri) s (Inl e) \<Longrightarrow> executed ri (Inl e)"
| LoopEnds: "execute_head ri = Inr (sd, pre) \<Longrightarrow> sched_reach (ri_context ri) pre s \<Longrightarrow> loop_done s \<Longrightarrow>
    executed ri (execute_tail ri sd s)"

end
