(* ===== verification/Gates.thy ===== *)
theory Gates
  imports RunRecords
begin

text \<open>
  Promotion gates, \<^verbatim>\<open>phlo-transform-engine/src/gates.rs\<close>: the evidence gathered for a candidate, one
  result per named gate with its explanation, and the verdict of the set. The merge check is the
  answer of the Nessie client.
\<close>

section \<open>Evidence and results\<close>

record merge_conflict =
  cf_path :: string
  cf_message :: string

record merge_outcome =
  mo_hash :: "string option"
  mo_conflicts :: "merge_conflict list"

definition is_clean :: "merge_outcome \<Rightarrow> bool" where
  "is_clean m \<longleftrightarrow> mo_conflicts m = []"

record gate_result =
  gr_name :: string
  gr_passed :: bool
  gr_detail :: string

record gate_report =
  ge_results :: "gate_result list"
  ge_passed :: bool

definition gate_failures :: "gate_report \<Rightarrow> gate_result list" where
  "gate_failures report = filter (\<lambda>r. \<not> gr_passed r) (ge_results report)"

record gate_input =
  gi_run :: "run_summary option"
  gi_model_runs :: "model_run_record list"
  gi_seed_runs :: "seed_run_record list"
  gi_test_runs :: "test_run_record list"
  gi_require_diff :: bool
  gi_diff_passed :: "bool option"
  gi_diff_rejected :: "string option"
  gi_breaking_schema_changes :: "string list"
  gi_allow_breaking_schema :: bool
  gi_expected_target_hash :: "string option"
  gi_actual_target_hash :: "string option"
  gi_actual_candidate_hash :: "string option"
  gi_schema_audited :: bool
  gi_merge_check :: "merge_outcome option"

definition gate :: "string \<Rightarrow> bool \<Rightarrow> string \<Rightarrow> gate_result" where
  "gate name passed detail = \<lparr>gr_name = name, gr_passed = passed, gr_detail = detail\<rparr>"

section \<open>The gates\<close>

definition run_gate :: "gate_input \<Rightarrow> gate_result" where
  "run_gate i =
     (case gi_run i of
        Some run \<Rightarrow>
          if rs_status run = Passed \<and> rs_failed_count run = 0 then
            (case (gi_actual_candidate_hash i, rs_reference_hash run) of
               (Some actual, Some recorded) \<Rightarrow>
                 if actual = recorded
                 then gate ''run'' True (''run '' @ rs_run_id run @ '' passed candidate@'' @ recorded)
                 else gate ''run'' False
                   (''candidate is now '' @ actual @ ''; last successful run '' @ rs_run_id run @
                    '' validated '' @ recorded)
             | (Some actual, None) \<Rightarrow>
                 gate ''run'' False
                   (''candidate is now '' @ actual @ ''; last successful run '' @ rs_run_id run @
                    '' validated an unrecorded commit'')
             | (None, _) \<Rightarrow> gate ''run'' True (''run '' @ rs_run_id run @ '' passed''))
          else gate ''run'' False
            (''latest run '' @ rs_run_id run @ '' '' @ status_label (rs_status run) @ '' ('' @
             dec (rs_failed_count run) @ '' failed)'')
      | None \<Rightarrow> gate ''run'' False ''no recorded run for the candidate reference'')"

definition failed_tests :: "gate_input \<Rightarrow> test_run_record list" where
  "failed_tests i = filter (\<lambda>t. trr_status t = Failed) (gi_test_runs i)"

definition tests_gate :: "gate_input \<Rightarrow> gate_result" where
  "tests_gate i =
     (if gi_run i = None then gate ''tests'' False ''no run to audit''
      else if failed_tests i = [] then
        gate ''tests'' True (dec (length (gi_test_runs i)) @ '' tests passed'')
      else gate ''tests'' False
        (dec (length (failed_tests i)) @ '' tests failed: '' @
         join '', '' (map trr_test_id (failed_tests i))))"

definition stopped_status :: "execution_status \<Rightarrow> bool" where
  "stopped_status s \<longleftrightarrow> s = Blocked \<or> s = Cancelled"

definition blocked_work :: "gate_input \<Rightarrow> string list" where
  "blocked_work i =
     map mrr_model_id (filter (\<lambda>r. stopped_status (mrr_status r)) (gi_model_runs i)) @
     map srr_name (filter (\<lambda>r. stopped_status (srr_status r)) (gi_seed_runs i)) @
     map trr_test_id (filter (\<lambda>r. stopped_status (trr_status r)) (gi_test_runs i))"

definition blocked_gate :: "gate_input \<Rightarrow> gate_result" where
  "blocked_gate i =
     (if gi_run i = None then gate ''blocked'' False ''no run to audit''
      else if blocked_work i = [] then gate ''blocked'' True ''no blocked or cancelled work''
      else gate ''blocked'' False
        (dec (length (blocked_work i)) @ '' blocked or cancelled: '' @ join '', '' (blocked_work i)))"

definition schema_gate :: "gate_input \<Rightarrow> gate_result" where
  "schema_gate i =
     (let breaking = gi_breaking_schema_changes i
      in if breaking \<noteq> [] then
           (if gi_allow_breaking_schema i
            then gate ''schema'' True (dec (length breaking) @ '' breaking changes waived'')
            else gate ''schema'' False (''breaking schema changes: '' @ join '', '' breaking))
         else if \<not> gi_schema_audited i then
           gate ''schema'' False
             (case gi_diff_rejected i of
                Some rejected \<Rightarrow> ''schema audit unusable: '' @ rejected
              | None \<Rightarrow> ''schema compatibility was not audited; run `diff --from <candidate> --to <target> --full`'')
         else gate ''schema'' True ''no breaking schema changes'')"

definition data_diff_gate :: "gate_input \<Rightarrow> gate_result list" where
  "data_diff_gate i =
     (if gi_require_diff i then
        [case gi_diff_rejected i of
           Some rejected \<Rightarrow> gate ''data_diff'' False rejected
         | None \<Rightarrow>
             (case gi_diff_passed i of
                Some True \<Rightarrow> gate ''data_diff'' True ''data diff passed''
              | Some False \<Rightarrow> gate ''data_diff'' False ''data diff failed policy''
              | None \<Rightarrow> gate ''data_diff'' False ''a passing data diff is required before promotion'')]
      else [])"

definition base_gate :: "gate_input \<Rightarrow> gate_result" where
  "base_gate i =
     (case (gi_expected_target_hash i, gi_actual_target_hash i) of
        (Some expected, Some actual) \<Rightarrow>
          if expected \<noteq> actual then
            gate ''base'' False
              (''target advanced since planning (expected '' @ expected @ '', found '' @ actual @ '')'')
          else gate ''base'' True ''target unchanged since the evidence base was recorded''
      | _ \<Rightarrow> gate ''base'' False
          (''candidate base provenance is unknown '' @ [CHR 0xE2, CHR 0x80, CHR 0x94] @
           '' recreate the candidate from the current target or audit it with `diff --from <candidate> --to <target> --full`''))"

definition conflicts_gate :: "gate_input \<Rightarrow> gate_result" where
  "conflicts_gate i =
     (case gi_merge_check i of
        Some check \<Rightarrow>
          if is_clean check then gate ''conflicts'' True ''candidate merges cleanly''
          else gate ''conflicts'' False
            (join ''; '' (map (\<lambda>c. cf_path c @ '': '' @ cf_message c) (mo_conflicts check)))
      | None \<Rightarrow> gate ''conflicts'' False ''merge check was not performed'')"

definition evaluate_gates :: "gate_input \<Rightarrow> gate_report" where
  "evaluate_gates i =
     (let results = [run_gate i, tests_gate i, blocked_gate i, schema_gate i] @ data_diff_gate i @
                    [base_gate i, conflicts_gate i]
      in \<lparr>ge_results = results, ge_passed = list_all gr_passed results\<rparr>)"

section \<open>When each gate passes\<close>

lemma gate_simps [simp]:
  "gr_passed (gate n p d) = p" "gr_name (gate n p d) = n" "gr_detail (gate n p d) = d"
  by (simp_all add: gate_def)

lemma run_gate_passed:
  "gr_passed (run_gate i) \<longleftrightarrow>
     (\<exists>run. gi_run i = Some run \<and> rs_status run = Passed \<and> rs_failed_count run = 0 \<and>
        (gi_actual_candidate_hash i = None \<or> rs_reference_hash run = gi_actual_candidate_hash i))"
  by (auto simp: run_gate_def split: option.splits)

lemma tests_gate_passed:
  "gr_passed (tests_gate i) \<longleftrightarrow> gi_run i \<noteq> None \<and> (\<forall>t \<in> set (gi_test_runs i). trr_status t \<noteq> Failed)"
  by (auto simp: tests_gate_def failed_tests_def filter_empty_conv)

lemma blocked_gate_passed:
  "gr_passed (blocked_gate i) \<longleftrightarrow> gi_run i \<noteq> None \<and>
     (\<forall>r \<in> set (gi_model_runs i). \<not> stopped_status (mrr_status r)) \<and>
     (\<forall>r \<in> set (gi_seed_runs i). \<not> stopped_status (srr_status r)) \<and>
     (\<forall>r \<in> set (gi_test_runs i). \<not> stopped_status (trr_status r))"
  by (auto simp: blocked_gate_def blocked_work_def filter_empty_conv)

lemma schema_gate_passed:
  "gr_passed (schema_gate i) \<longleftrightarrow>
     (if gi_breaking_schema_changes i = [] then gi_schema_audited i else gi_allow_breaking_schema i)"
  by (auto simp: schema_gate_def Let_def)

lemma data_diff_gate_passed:
  "list_all gr_passed (data_diff_gate i) \<longleftrightarrow>
     \<not> gi_require_diff i \<or> gi_diff_rejected i = None \<and> gi_diff_passed i = Some True"
  by (auto simp: data_diff_gate_def split: option.splits bool.splits)

lemma base_gate_passed:
  "gr_passed (base_gate i) \<longleftrightarrow>
     gi_expected_target_hash i \<noteq> None \<and> gi_actual_target_hash i = gi_expected_target_hash i"
  by (auto simp: base_gate_def split: option.splits)

lemma conflicts_gate_passed:
  "gr_passed (conflicts_gate i) \<longleftrightarrow> (\<exists>check. gi_merge_check i = Some check \<and> mo_conflicts check = [])"
  by (auto simp: conflicts_gate_def is_clean_def split: option.splits)

lemmas gates_passed =
  run_gate_passed tests_gate_passed blocked_gate_passed schema_gate_passed data_diff_gate_passed
  base_gate_passed conflicts_gate_passed

lemma gates_verdict:
  "ge_passed (evaluate_gates i) \<longleftrightarrow>
     gr_passed (run_gate i) \<and> gr_passed (tests_gate i) \<and> gr_passed (blocked_gate i) \<and>
     gr_passed (schema_gate i) \<and> list_all gr_passed (data_diff_gate i) \<and> gr_passed (base_gate i) \<and>
     gr_passed (conflicts_gate i)"
  by (simp add: evaluate_gates_def Let_def)

lemma gate_name_simps [simp]:
  "gr_name (run_gate i) = ''run''" "gr_name (tests_gate i) = ''tests''"
  "gr_name (blocked_gate i) = ''blocked''" "gr_name (schema_gate i) = ''schema''"
  "map gr_name (data_diff_gate i) = (if gi_require_diff i then [''data_diff''] else [])"
  "gr_name (base_gate i) = ''base''" "gr_name (conflicts_gate i) = ''conflicts''"
  by (auto simp: run_gate_def tests_gate_def blocked_gate_def schema_gate_def data_diff_gate_def
      base_gate_def conflicts_gate_def Let_def split: option.splits bool.splits)

section \<open>Properties\<close>

text \<open>
  Breaking changes that reach the gate without an audited diff, such as those of the recorded contracts, pass
  it when they are waived: the check of the audit is on the other branch.
\<close>

lemma waived_breaks_unaudited:
  "gi_breaking_schema_changes i \<noteq> [] \<Longrightarrow> gr_passed (schema_gate i) = gi_allow_breaking_schema i"
  by (simp add: schema_gate_passed)

text \<open>
  Property C28. When every breaking change the gates are given comes with an audited diff, a candidate is
  authorised exactly when its latest run passed without a failure and validated the commit that would merge,
  no test of it failed, no model, seed or test of it was blocked or cancelled, a diff audited the schema and
  its breaking changes are absent or waived, a required data diff passed and is fresh, the target is provably
  where the evidence was taken, and a merge check found no conflict. Gates are reported in a fixed order, and
  a report passes exactly when no gate failed.
\<close>

theorem gates_authorise_iff:
  assumes "gi_breaking_schema_changes i \<noteq> [] \<Longrightarrow> gi_schema_audited i"
  shows "ge_passed (evaluate_gates i) =
     ((\<exists>run. gi_run i = Some run \<and> rs_status run = Passed \<and> rs_failed_count run = 0 \<and>
         gi_actual_candidate_hash i \<in> {None, rs_reference_hash run}) \<and>
      trr_status ` set (gi_test_runs i) \<inter> {Failed, Blocked, Cancelled} = {} \<and>
      mrr_status ` set (gi_model_runs i) \<inter> {Blocked, Cancelled} = {} \<and>
      srr_status ` set (gi_seed_runs i) \<inter> {Blocked, Cancelled} = {} \<and>
      gi_schema_audited i \<and> (gi_breaking_schema_changes i = [] \<or> gi_allow_breaking_schema i) \<and>
      (if gi_require_diff i then gi_diff_rejected i = None \<and> gi_diff_passed i = Some True else True) \<and>
      (\<exists>target. gi_expected_target_hash i = Some target \<and> gi_actual_target_hash i = Some target) \<and>
      (\<exists>check. gi_merge_check i = Some check \<and> mo_conflicts check = [])) \<and>
   map gr_name (ge_results (evaluate_gates i)) =
     [''run'', ''tests'', ''blocked'', ''schema''] @ (if gi_require_diff i then [''data_diff''] else []) @
     [''base'', ''conflicts''] \<and>
   ge_passed (evaluate_gates i) = (gate_failures (evaluate_gates i) = [])"
proof (intro conjI)
  have stopped: "f ` A \<inter> {Blocked, Cancelled} = {} \<longleftrightarrow> (\<forall>a \<in> A. \<not> stopped_status (f a))"
    for f :: "'a \<Rightarrow> execution_status" and A
    by (force simp: stopped_status_def)
  have three: "f ` A \<inter> {Failed, Blocked, Cancelled} = {} \<longleftrightarrow>
      (\<forall>a \<in> A. f a \<noteq> Failed) \<and> (\<forall>a \<in> A. \<not> stopped_status (f a))"
    for f :: "'a \<Rightarrow> execution_status" and A
    by (force simp: stopped_status_def)
  have base: "gi_expected_target_hash i \<noteq> None \<and> gi_actual_target_hash i = gi_expected_target_hash i \<longleftrightarrow>
      (\<exists>target. gi_expected_target_hash i = Some target \<and> gi_actual_target_hash i = Some target)"
    by auto
  have run: "(\<exists>run. gi_run i = Some run \<and> rs_status run = Passed \<and> rs_failed_count run = 0 \<and>
        (gi_actual_candidate_hash i = None \<or> rs_reference_hash run = gi_actual_candidate_hash i)) \<longleftrightarrow>
      (\<exists>run. gi_run i = Some run \<and> rs_status run = Passed \<and> rs_failed_count run = 0 \<and>
         gi_actual_candidate_hash i \<in> {None, rs_reference_hash run})"
    by auto
  have schema: "gr_passed (schema_gate i) \<longleftrightarrow>
      gi_schema_audited i \<and> (gi_breaking_schema_changes i = [] \<or> gi_allow_breaking_schema i)"
    using assms by (auto simp: schema_gate_passed)
  have ran: "gi_run i \<noteq> None" if "\<exists>run. gi_run i = Some run \<and> P run" for P
    using that by auto
  show "ge_passed (evaluate_gates i) = ((\<exists>run. gi_run i = Some run \<and> rs_status run = Passed \<and>
         rs_failed_count run = 0 \<and> gi_actual_candidate_hash i \<in> {None, rs_reference_hash run}) \<and>
      trr_status ` set (gi_test_runs i) \<inter> {Failed, Blocked, Cancelled} = {} \<and>
      mrr_status ` set (gi_model_runs i) \<inter> {Blocked, Cancelled} = {} \<and>
      srr_status ` set (gi_seed_runs i) \<inter> {Blocked, Cancelled} = {} \<and>
      gi_schema_audited i \<and> (gi_breaking_schema_changes i = [] \<or> gi_allow_breaking_schema i) \<and>
      (if gi_require_diff i then gi_diff_rejected i = None \<and> gi_diff_passed i = Some True else True) \<and>
      (\<exists>target. gi_expected_target_hash i = Some target \<and> gi_actual_target_hash i = Some target) \<and>
      (\<exists>check. gi_merge_check i = Some check \<and> mo_conflicts check = []))"
    unfolding gates_verdict gates_passed(1-3,5-) schema run base stopped three using ran by fastforce
  show "map gr_name (ge_results (evaluate_gates i)) =
     [''run'', ''tests'', ''blocked'', ''schema''] @ (if gi_require_diff i then [''data_diff''] else []) @
     [''base'', ''conflicts'']"
    by (simp add: evaluate_gates_def Let_def)
  show "ge_passed (evaluate_gates i) = (gate_failures (evaluate_gates i) = [])"
    by (simp only: evaluate_gates_def gate_failures_def Let_def filter_empty_conv list_all_iff
        gate_report.simps not_not)
qed

text \<open>A candidate with one waived break that a diff audited; without the audit of it nothing is claimed.\<close>

definition waived_gates :: gate_input where
  "waived_gates =
     \<lparr>gi_run = Some \<lparr>rs_run_id = ''r1'', rs_plan_id = ''p1'', rs_environment = Some ''ci'',
        rs_reference_hash = Some ''c1'', rs_started_at = ''1'', rs_finished_at = Some ''2'', rs_status = Passed,
        rs_model_count = 0, rs_failed_count = 0\<rparr>,
      gi_model_runs = [], gi_seed_runs = [], gi_test_runs = [], gi_require_diff = False, gi_diff_passed = None,
      gi_diff_rejected = None, gi_breaking_schema_changes = [''m.a.x: dropped''], gi_allow_breaking_schema = True,
      gi_expected_target_hash = Some ''m1'', gi_actual_target_hash = Some ''m1'',
      gi_actual_candidate_hash = Some ''c1'', gi_schema_audited = True,
      gi_merge_check = Some \<lparr>mo_hash = Some ''c1'', mo_conflicts = []\<rparr>\<rparr>"

theorem gates_authorise_iff_witness:
  "ge_passed (evaluate_gates waived_gates) \<and> \<not> ge_passed (evaluate_gates (waived_gates\<lparr>gi_allow_breaking_schema := False\<rparr>))"
  using gates_authorise_iff [of waived_gates] gates_authorise_iff [of "waived_gates\<lparr>gi_allow_breaking_schema := False\<rparr>"]
  by (simp add: waived_gates_def)

end
