(* ===== verification/Store.thy ===== *)
theory Store
  imports Run Gates
begin

text \<open>
  The SQLite state store, \<open>SqliteStateStore\<close> of \<^verbatim>\<open>phlo-transform-engine/src/state.rs\<close>: one list per
  table, in the order of the row identifiers, and one operation per method, doing what its statement
  does. A row is the record that is read back from it; columns written as JSON are kept as the values they
  encode. The environment column holds the empty text for no environment, so an empty label reads back as
  none. \<open>parse_time\<close> is the instant the \<open>time\<close> crate reads from a timestamp, the type \<open>'j\<close> the JSON
  payload of an evidence record.
\<close>

section \<open>Statuses\<close>

definition parse_status :: "string \<Rightarrow> execution_status" where
  "parse_status s =
     (if s = ''passed'' then Passed else if s = ''failed'' then Failed
      else if s = ''skipped'' then Skipped else if s = ''cached'' then CachedStatus
      else if s = ''blocked'' then Blocked else if s = ''cancelled'' then Cancelled
      else if s = ''running'' then Running else if s = ''ready'' then Ready else Pending)"

lemma parse_status_label: "parse_status (status_label s) = s"
  by (cases s) (simp_all add: parse_status_def)

section \<open>Evidence and promotions\<close>

datatype evidence_kind = EnvironmentEvidence | BranchDiffEvidence | LineageDiffEvidence

fun evidence_kind_str :: "evidence_kind \<Rightarrow> string" where
  "evidence_kind_str EnvironmentEvidence = ''environment''"
| "evidence_kind_str BranchDiffEvidence = ''branch_diff''"
| "evidence_kind_str LineageDiffEvidence = ''lineage_diff''"

definition evidence_kind_parse :: "string \<Rightarrow> evidence_kind option" where
  "evidence_kind_parse s =
     (if s = ''environment'' then Some EnvironmentEvidence
      else if s = ''branch_diff'' then Some BranchDiffEvidence
      else if s = ''lineage_diff'' then Some LineageDiffEvidence else None)"

lemma evidence_kind_round_trip: "evidence_kind_parse (evidence_kind_str k) = Some k"
  by (cases k) (simp_all add: evidence_kind_parse_def)

record 'j evidence_record =
  er_evidence_id :: string
  er_kind :: evidence_kind
  er_subject :: string
  er_target_ref :: string
  er_candidate_hash :: "string option"
  er_target_hash :: "string option"
  er_fingerprint :: "string option"
  er_payload :: 'j
  er_run_id :: "string option"
  er_created_at :: string

record promotion_evidence_ids =
  pe_branch_diff :: "string option"
  pe_lineage_diff :: "string option"
  pe_environment :: "string option"

definition no_evidence_ids :: promotion_evidence_ids where
  "no_evidence_ids = \<lparr>pe_branch_diff = None, pe_lineage_diff = None, pe_environment = None\<rparr>"

definition ids_or_none :: "promotion_evidence_ids \<Rightarrow> promotion_evidence_ids option" where
  "ids_or_none ids =
     (if pe_branch_diff ids = None \<and> pe_lineage_diff ids = None \<and> pe_environment ids = None
      then None else Some ids)"

record promotion_record =
  pn_promotion_id :: string
  pn_candidate_ref :: string
  pn_candidate_hash :: "string option"
  pn_target_ref :: string
  pn_target_hash_before :: string
  pn_target_hash_after :: "string option"
  pn_plan_id :: "string option"
  pn_run_id :: "string option"
  pn_dry_run :: bool
  pn_merged :: bool
  pn_conflicts :: "merge_conflict list"
  pn_gates :: "gate_result list"
  pn_evidence :: "promotion_evidence_ids option"
  pn_timestamp :: string
  pn_actor :: "string option"

section \<open>Tables\<close>

record watermark_row =
  wm_model :: string
  wm_environment :: string
  wm_value :: string
  wm_run_id :: string
  wm_updated_at :: string

record 'j database =
  db_runs :: "(run_summary \<times> stored_plan) list"
  db_model_runs :: "model_run_record list"
  db_seed_runs :: "seed_run_record list"
  db_test_runs :: "test_run_record list"
  db_model_versions :: "materialized_record list"
  db_watermarks :: "watermark_row list"
  db_seed_loads :: "seed_record list"
  db_promotions :: "promotion_record list"
  db_evidence :: "'j evidence_record list"

definition empty_database :: "'j database" where
  "empty_database =
     \<lparr>db_runs = [], db_model_runs = [], db_seed_runs = [], db_test_runs = [], db_model_versions = [],
      db_watermarks = [], db_seed_loads = [], db_promotions = [], db_evidence = []\<rparr>"

text \<open>The environment column: no environment is the empty text.\<close>

definition env_column :: "string option \<Rightarrow> string" where
  "env_column e = (case e of Some s \<Rightarrow> s | None \<Rightarrow> [])"

definition env_value :: "string \<Rightarrow> string option" where
  "env_value s = (if s = [] then None else Some s)"

definition stored_env :: "string option \<Rightarrow> string option" where
  "stored_env e = env_value (env_column e)"

text \<open>\<open>INSERT OR REPLACE\<close>: the old row goes, the new one is last.\<close>

definition replace_row :: "('r \<Rightarrow> 'k) \<Rightarrow> 'r \<Rightarrow> 'r list \<Rightarrow> 'r list" where
  "replace_row key r rows = filter (\<lambda>x. key x \<noteq> key r) rows @ [r]"

text \<open>\<open>INSERT ... ON CONFLICT (key) DO UPDATE ... WHERE\<close>: the row is updated in place when the condition holds.\<close>

fun upsert :: "('r \<Rightarrow> 'k) \<Rightarrow> ('r \<Rightarrow> 'r \<Rightarrow> bool) \<Rightarrow> 'r \<Rightarrow> 'r list \<Rightarrow> 'r list" where
  "upsert key wins r [] = [r]"
| "upsert key wins r (x # rows) =
     (if key x = key r then (if wins r x then r else x) # rows else x # upsert key wins r rows)"

text \<open>\<open>ORDER BY timestamp DESC, rowid DESC\<close>, then the stable sort by instant.\<close>

definition text_desc :: "('r \<Rightarrow> string) \<Rightarrow> 'r list \<Rightarrow> 'r list" where
  "text_desc at rows = rev (sort_key at rows)"

definition newest_first :: "(string \<Rightarrow> int option) \<Rightarrow> ('r \<Rightarrow> string) \<Rightarrow> 'r list \<Rightarrow> 'r list" where
  "newest_first parse_time at rows = sort_by (\<lambda>a b. \<not> rfc3339_less parse_time (at a) (at b)) rows"

definition freshest :: "(string \<Rightarrow> int option) \<Rightarrow> ('r \<Rightarrow> string) \<Rightarrow> 'r list \<Rightarrow> 'r list" where
  "freshest parse_time at rows = newest_first parse_time at (text_desc at rows)"

section \<open>Runs\<close>

text \<open>\<open>None\<close> is the error of a run identifier already taken.\<close>

definition start_run :: "run_summary \<Rightarrow> stored_plan \<Rightarrow> 'j database \<Rightarrow> 'j database option" where
  "start_run r p d =
     (if rs_run_id r \<in> set (map (rs_run_id \<circ> fst) (db_runs d)) then None
      else Some (d\<lparr>db_runs := db_runs d @ [(r\<lparr>rs_environment := stored_env (rs_environment r)\<rparr>, p)]\<rparr>))"

definition update_run :: "string \<Rightarrow> (run_summary \<Rightarrow> run_summary) \<Rightarrow> 'j database \<Rightarrow> 'j database" where
  "update_run run_id f d =
     d\<lparr>db_runs := map (\<lambda>(r, p). (if rs_run_id r = run_id then f r else r, p)) (db_runs d)\<rparr>"

definition reopen_run :: "string \<Rightarrow> 'j database \<Rightarrow> 'j database" where
  "reopen_run run_id = update_run run_id (\<lambda>r. r\<lparr>rs_status := Running, rs_finished_at := None\<rparr>)"

definition bind_run_reference_hash :: "string \<Rightarrow> string \<Rightarrow> 'j database \<Rightarrow> 'j database" where
  "bind_run_reference_hash run_id h = update_run run_id (\<lambda>r. r\<lparr>rs_reference_hash := Some h\<rparr>)"

definition finish_run :: "string \<Rightarrow> execution_status \<Rightarrow> string \<Rightarrow> nat \<Rightarrow> 'j database \<Rightarrow> 'j database" where
  "finish_run run_id st at failed =
     update_run run_id (\<lambda>r. r\<lparr>rs_status := st, rs_finished_at := Some at, rs_failed_count := failed\<rparr>)"

definition runs :: "(string \<Rightarrow> int option) \<Rightarrow> 'j database \<Rightarrow> run_summary list" where
  "runs parse_time d = freshest parse_time rs_started_at (map fst (db_runs d))"

definition latest_run :: "(string \<Rightarrow> int option) \<Rightarrow> string option \<Rightarrow> 'j database \<Rightarrow> run_summary option" where
  "latest_run parse_time environment d =
     (case freshest parse_time rs_started_at
             (filter (\<lambda>r. env_column (rs_environment r) = env_column environment) (map fst (db_runs d))) of
        r # _ \<Rightarrow> Some r
      | [] \<Rightarrow> None)"

definition stored_run_of :: "string \<Rightarrow> 'j database \<Rightarrow> stored_run option" where
  "stored_run_of run_id d =
     map_option (\<lambda>(r, p). \<lparr>sto_record = r, sto_plan = Some p\<rparr>)
       (find (\<lambda>(r, p). rs_run_id r = run_id) (db_runs d))"

subsection \<open>Finding runs by a prefix\<close>

text \<open>The rest of a text after its first character, continuation bytes and all.\<close>

definition after_char :: "string \<Rightarrow> string" where
  "after_char s = dropWhile (\<lambda>c. 128 \<le> (of_char c :: nat) \<and> (of_char c :: nat) < 192) (drop 1 s)"

lemma length_after_char: "s \<noteq> [] \<Longrightarrow> length (after_char s) < length s"
  unfolding after_char_def by (cases s) (simp_all add: le_imp_less_Suc length_dropWhile_le)

text \<open>SQLite's \<open>LIKE\<close>: any text for a percent sign, any character for an underscore, letters of either case.\<close>

function (sequential) like :: "string \<Rightarrow> string \<Rightarrow> bool" where
  "like [] s = (s = [])"
| "like (c # p) s =
     (if c = CHR ''%'' then (if s = [] then like p s else like p s \<or> like (c # p) (after_char s))
      else if s = [] then False
      else if c = CHR ''_'' then like p (after_char s)
      else to_ascii_lowercase [c] = to_ascii_lowercase [hd s] \<and> like p (tl s))"
  by pat_completeness auto
termination
  by (relation "measure (\<lambda>(p, s). length p + length s)")
     (auto simp: length_after_char less_Suc_eq intro: add_less_mono dest: length_after_char)

definition find_runs :: "(string \<Rightarrow> int option) \<Rightarrow> string \<Rightarrow> 'j database \<Rightarrow> run_summary list" where
  "find_runs parse_time prefix d =
     freshest parse_time rs_started_at (filter (\<lambda>r. like (prefix @ ''%'') (rs_run_id r)) (map fst (db_runs d)))"

section \<open>The nodes of a run\<close>

definition record_model :: "model_run_record \<Rightarrow> 'j database \<Rightarrow> 'j database" where
  "record_model r d = d\<lparr>db_model_runs := replace_row (\<lambda>x. (mrr_run_id x, mrr_model_id x)) r (db_model_runs d)\<rparr>"

definition record_seed_run :: "seed_run_record \<Rightarrow> 'j database \<Rightarrow> 'j database" where
  "record_seed_run r d = d\<lparr>db_seed_runs := replace_row (\<lambda>x. (srr_run_id x, srr_name x)) r (db_seed_runs d)\<rparr>"

definition record_test :: "test_run_record \<Rightarrow> 'j database \<Rightarrow> 'j database" where
  "record_test r d = d\<lparr>db_test_runs := replace_row (\<lambda>x. (trr_run_id x, trr_test_id x)) r (db_test_runs d)\<rparr>"

definition model_runs :: "string \<Rightarrow> 'j database \<Rightarrow> model_run_record list" where
  "model_runs run_id d = sort_key mrr_model_id (filter (\<lambda>r. mrr_run_id r = run_id) (db_model_runs d))"

definition seed_runs :: "string \<Rightarrow> 'j database \<Rightarrow> seed_run_record list" where
  "seed_runs run_id d = sort_key srr_name (filter (\<lambda>r. srr_run_id r = run_id) (db_seed_runs d))"

definition test_runs :: "string \<Rightarrow> 'j database \<Rightarrow> test_run_record list" where
  "test_runs run_id d = sort_key trr_test_id (filter (\<lambda>r. trr_run_id r = run_id) (db_test_runs d))"

section \<open>Materialisations and seed loads\<close>

text \<open>A record is applied only when it is not older than the stored one.\<close>

definition version_key :: "materialized_record \<Rightarrow> string \<times> string" where
  "version_key r = (mr_model_id r, env_column (mr_environment r))"

definition not_older :: "(string \<Rightarrow> int option) \<Rightarrow> ('r \<Rightarrow> string) \<Rightarrow> 'r \<Rightarrow> 'r \<Rightarrow> bool" where
  "not_older parse_time at new old \<longleftrightarrow> \<not> rfc3339_less parse_time (at new) (at old)"

definition record_materialized ::
    "(string \<Rightarrow> int option) \<Rightarrow> materialized_record \<Rightarrow> 'j database \<Rightarrow> 'j database" where
  "record_materialized parse_time r d =
     d\<lparr>db_model_versions :=
         upsert version_key (not_older parse_time mr_materialized_at)
           (r\<lparr>mr_environment := stored_env (mr_environment r)\<rparr>) (db_model_versions d)\<rparr>"

definition materialized_version :: "string \<Rightarrow> string option \<Rightarrow> 'j database \<Rightarrow> materialized_record option" where
  "materialized_version model_id environment d =
     find (\<lambda>r. version_key r = (model_id, env_column environment)) (db_model_versions d)"

definition materialized_by_hash :: "string \<Rightarrow> 'j database \<Rightarrow> materialized_record list" where
  "materialized_by_hash h d = filter (\<lambda>r. mv_hash (mr_version r) = h) (db_model_versions d)"

text \<open>One query for many hashes: every hash asked for has an entry.\<close>

definition materialized_by_hashes :: "string list \<Rightarrow> 'j database \<Rightarrow> (string \<times> materialized_record list) list" where
  "materialized_by_hashes hashes d =
     (let none = fold (\<lambda>h. bm_insert h []) hashes []
      in if none = [] then none
         else fold (\<lambda>r. bm_push (mv_hash (mr_version r)) r)
                (filter (\<lambda>r. mv_hash (mr_version r) \<in> set hashes) (db_model_versions d)) none)"

definition materialized_in :: "string option \<Rightarrow> 'j database \<Rightarrow> materialized_record list" where
  "materialized_in environment d =
     sort_key mr_model_id
       (filter (\<lambda>r. env_column (mr_environment r) = env_column environment) (db_model_versions d))"

definition seed_key :: "seed_record \<Rightarrow> string \<times> string" where
  "seed_key r = (sr_name r, env_column (sr_environment r))"

definition record_seed :: "(string \<Rightarrow> int option) \<Rightarrow> seed_record \<Rightarrow> 'j database \<Rightarrow> 'j database" where
  "record_seed parse_time r d =
     d\<lparr>db_seed_loads :=
         upsert seed_key (not_older parse_time sr_loaded_at)
           (r\<lparr>sr_environment := stored_env (sr_environment r)\<rparr>) (db_seed_loads d)\<rparr>"

definition seed_state :: "string \<Rightarrow> string option \<Rightarrow> 'j database \<Rightarrow> seed_record option" where
  "seed_state name environment d =
     find (\<lambda>r. seed_key r = (name, env_column environment)) (db_seed_loads d)"

definition seeds_in :: "string option \<Rightarrow> 'j database \<Rightarrow> seed_record list" where
  "seeds_in environment d =
     sort_key sr_name (filter (\<lambda>r. env_column (sr_environment r) = env_column environment) (db_seed_loads d))"

section \<open>Watermarks\<close>

text \<open>When a run started, if its row is still there.\<close>

definition run_started_at :: "'j database \<Rightarrow> string \<Rightarrow> string option" where
  "run_started_at d run_id = map_option rs_started_at (find (\<lambda>r. rs_run_id r = run_id) (map fst (db_runs d)))"

definition supersedes ::
    "(string \<Rightarrow> int option) \<Rightarrow> (string \<Rightarrow> string option) \<Rightarrow> watermark_row \<Rightarrow> watermark_row \<Rightarrow> bool" where
  "supersedes parse_time start_of new old \<longleftrightarrow>
     \<not> rfc3339_less parse_time
         (case start_of (wm_run_id new) of Some t \<Rightarrow> t | None \<Rightarrow> wm_updated_at new)
         (case start_of (wm_run_id old) of Some t \<Rightarrow> t | None \<Rightarrow> [])"

definition watermark_key :: "watermark_row \<Rightarrow> string \<times> string" where
  "watermark_key w = (wm_model w, wm_environment w)"

definition set_watermark ::
    "(string \<Rightarrow> int option) \<Rightarrow> string \<Rightarrow> string \<Rightarrow> string option \<Rightarrow> string \<Rightarrow> string \<Rightarrow> 'j database
       \<Rightarrow> 'j database" where
  "set_watermark parse_time now model_id environment v run_id d =
     d\<lparr>db_watermarks :=
         upsert watermark_key (supersedes parse_time (run_started_at d))
           \<lparr>wm_model = model_id, wm_environment = env_column environment, wm_value = v,
            wm_run_id = run_id, wm_updated_at = now\<rparr> (db_watermarks d)\<rparr>"

definition watermark :: "string \<Rightarrow> string option \<Rightarrow> 'j database \<Rightarrow> string option" where
  "watermark model_id environment d =
     map_option wm_value (find (\<lambda>w. watermark_key w = (model_id, env_column environment)) (db_watermarks d))"

section \<open>Promotions and evidence\<close>

definition record_promotion :: "promotion_record \<Rightarrow> 'j database \<Rightarrow> 'j database" where
  "record_promotion r d = d\<lparr>db_promotions := replace_row pn_promotion_id r (db_promotions d)\<rparr>"

definition promotions :: "(string \<Rightarrow> int option) \<Rightarrow> 'j database \<Rightarrow> promotion_record list" where
  "promotions parse_time d = freshest parse_time pn_timestamp (db_promotions d)"

text \<open>Evidence is only appended: \<open>None\<close> is the error of an identifier already taken.\<close>

definition record_evidence :: "'j evidence_record \<Rightarrow> 'j database \<Rightarrow> 'j database option" where
  "record_evidence r d =
     (if er_evidence_id r \<in> set (map er_evidence_id (db_evidence d)) then None
      else Some (d\<lparr>db_evidence := db_evidence d @ [r]\<rparr>))"

definition evidence_for ::
    "(string \<Rightarrow> int option) \<Rightarrow> evidence_kind \<Rightarrow> string \<Rightarrow> 'j database \<Rightarrow> 'j evidence_record list" where
  "evidence_for parse_time kind subject d =
     freshest parse_time er_created_at
       (filter (\<lambda>r. er_kind r = kind \<and> er_subject r = subject) (db_evidence d))"

text \<open>The first row of each key, in the order given.\<close>

fun first_per :: "('r \<Rightarrow> 'k) \<Rightarrow> 'k set \<Rightarrow> 'r list \<Rightarrow> 'r list" where
  "first_per key seen [] = []"
| "first_per key seen (r # rs) =
     (if key r \<in> seen then first_per key seen rs else r # first_per key (insert (key r) seen) rs)"

definition latest_evidence ::
    "(string \<Rightarrow> int option) \<Rightarrow> evidence_kind \<Rightarrow> 'j database \<Rightarrow> 'j evidence_record list" where
  "latest_evidence parse_time kind d =
     first_per (\<lambda>r. (er_subject r, er_target_ref r)) {}
       (freshest parse_time er_created_at (filter (\<lambda>r. er_kind r = kind) (db_evidence d)))"

definition remove_evidence :: "evidence_kind \<Rightarrow> string \<Rightarrow> 'j database \<Rightarrow> 'j database" where
  "remove_evidence kind subject d =
     d\<lparr>db_evidence := filter (\<lambda>r. \<not> (er_kind r = kind \<and> er_subject r = subject)) (db_evidence d)\<rparr>"

end
