(* ===== verification/StoreFacts.thy ===== *)
theory StoreFacts
  imports Store "HOL-Library.Multiset"
begin

text \<open>
  What the state store promises, for the operations of the theory Store: a conditional upsert keeps per key
  the best row written (the locale \<open>keyed_table\<close>, interpreted for each of its tables), a replacing insert
  the last one, and the timestamp orders list what is there, newest first.
\<close>

section \<open>Tables with one row per key\<close>

text \<open>
  Rows compete for their key by a comparison that is total and transitive on acceptable rows; \<open>best\<close> is
  what a sequence of writes leaves for a key.
\<close>

locale keyed_table =
  fixes key :: "'r \<Rightarrow> 'k" and wins :: "'r \<Rightarrow> 'r \<Rightarrow> bool" and ok :: "'r \<Rightarrow> bool"
  assumes wins_total: "ok a \<Longrightarrow> ok b \<Longrightarrow> wins a b \<or> wins b a"
    and wins_trans: "ok a \<Longrightarrow> ok b \<Longrightarrow> ok c \<Longrightarrow> wins a b \<Longrightarrow> wins b c \<Longrightarrow> wins a c"
begin

definition lookup :: "'k \<Rightarrow> 'r list \<Rightarrow> 'r option" where
  "lookup k rows = find (\<lambda>x. key x = k) rows"

lemma lookup_upsert:
  "lookup k (upsert key wins r rows) =
     (if key r = k then (case lookup k rows of Some x \<Rightarrow> Some (if wins r x then r else x) | None \<Rightarrow> Some r)
      else lookup k rows)"
  unfolding lookup_def by (induction rows) auto

lemma lookup_key: "lookup k rows = Some x \<Longrightarrow> key x = k \<and> x \<in> set rows"
  unfolding lookup_def by (drule find_SomeD) simp

lemma keys_upsert: "key ` set (upsert key wins r rows) = insert (key r) (key ` set rows)"
  by (induction rows) auto

lemma set_upsert: "set (upsert key wins r rows) \<subseteq> insert r (set rows)"
  by (induction rows) auto

lemma distinct_upsert: "distinct (map key rows) \<Longrightarrow> distinct (map key (upsert key wins r rows))"
proof (induction rows)
  case (Cons x rows)
  then show ?case
    using keys_upsert [of r rows] by (auto simp flip: set_map)
qed simp

text \<open>After a sequence of writes into an empty table.\<close>

definition written :: "'r list \<Rightarrow> 'r list" where
  "written ws = fold (upsert key wins) ws []"

lemma written_Nil [simp]: "written [] = []"
  by (simp add: written_def)

lemma written_snoc: "written (ws @ [r]) = upsert key wins r (written ws)"
  by (simp add: written_def)

lemma set_written: "set (written ws) \<subseteq> set ws"
  by (induction ws rule: rev_induct) (use set_upsert in \<open>fastforce simp: written_snoc\<close>)+

lemma distinct_written: "distinct (map key (written ws))"
  by (induction ws rule: rev_induct) (simp_all add: written_snoc distinct_upsert)

lemma written_none: "lookup k (written ws) = None \<longleftrightarrow> k \<notin> key ` set ws"
proof (induction ws rule: rev_induct)
  case (snoc w ws)
  then show ?case by (auto simp: written_snoc lookup_upsert split: option.splits)
qed (simp add: lookup_def)

lemma written_best:
  assumes "\<forall>r \<in> set ws. ok r" "lookup k (written ws) = Some r"
  shows "r \<in> set ws \<and> key r = k \<and> (\<forall>q \<in> set ws. key q = k \<longrightarrow> wins r q)"
  using assms
proof (induction ws arbitrary: r rule: rev_induct)
  case Nil
  then show ?case by (simp add: lookup_def)
next
  case (snoc w ws)
  have refl: "wins w w" using wins_total [of w w] snoc.prems(1) by simp
  note ok = snoc.prems(1)
  show ?case
  proof (cases "key w = k")
    case False
    then have "lookup k (written ws) = Some r" using snoc.prems(2) by (simp add: written_snoc lookup_upsert)
    from snoc.IH [OF _ this] snoc.prems(1) False show ?thesis by simp
  next
    case True
    show ?thesis
    proof (cases "lookup k (written ws)")
      case None
      then have "k \<notin> key ` set ws" by (simp only: written_none not_False_eq_True)
      then have "key q \<noteq> k" if "q \<in> set ws" for q using that by blast
      moreover have "r = w" using snoc.prems(2) True None by (simp add: written_snoc lookup_upsert)
      ultimately show ?thesis using True refl by auto
    next
      case (Some x)
      have x: "x \<in> set ws" "key x = k" "\<forall>q \<in> set ws. key q = k \<longrightarrow> wins x q"
        using snoc.IH [OF _ Some] snoc.prems(1) by auto
      have r: "r = (if wins w x then w else x)"
        using snoc.prems(2) True Some by (simp add: written_snoc lookup_upsert)
      show ?thesis
      proof (cases "wins w x")
        case True
        then have "wins w q" if "q \<in> set ws" "key q = k" for q
          using wins_trans [of w x q] x that ok by auto
        then show ?thesis using True r \<open>key w = k\<close> refl by auto
      next
        case False
        then have "wins x w" using wins_total [of w x] ok x(1) by auto
        then show ?thesis using False r x by auto
      qed
    qed
  qed
qed

text \<open>Rows already there, one per key, are as good as written first.\<close>

lemma upsert_new: "key r \<notin> key ` set rows \<Longrightarrow> upsert key wins r rows = rows @ [r]"
  by (induction rows) auto

lemma written_rows: "distinct (map key rows) \<Longrightarrow> written rows = rows"
  by (induction rows rule: rev_induct) (simp_all add: written_snoc upsert_new)

lemma fold_written: "distinct (map key rows) \<Longrightarrow> fold (upsert key wins) ws rows = written (rows @ ws)"
  by (simp add: written_def fold_append written_rows [unfolded written_def])

text \<open>When no two rows of a key tie, the order of the writes does not matter.\<close>

lemma written_order_independent:
  assumes "\<forall>r \<in> set ws. ok r" "mset vs = mset ws"
    and "\<forall>a \<in> set ws. \<forall>b \<in> set ws. key a = key b \<longrightarrow> wins a b \<longrightarrow> wins b a \<longrightarrow> a = b"
  shows "lookup k (written vs) = lookup k (written ws)"
proof -
  have same: "set vs = set ws" using assms(2) by (metis set_mset_mset)
  show ?thesis
  proof (cases "k \<in> key ` set ws")
    case False
    then show ?thesis using same by (metis written_none)
  next
    case True
    then obtain a b where ab: "lookup k (written ws) = Some a" "lookup k (written vs) = Some b"
      using same by (metis not_None_eq written_none)
    have "a = b"
      using written_best [OF assms(1) ab(1)] written_best [of vs, OF _ ab(2)] assms(1,3) same by metis
    then show ?thesis using ab by simp
  qed
qed

end

text \<open>Timestamps that all parse are ordered by their instants.\<close>

lemma rfc3339_less_instants:
  "pt a = Some x \<Longrightarrow> pt b = Some y \<Longrightarrow> rfc3339_less pt a b \<longleftrightarrow> x < y"
  by (simp add: rfc3339_less_def)

interpretation versions: keyed_table version_key "not_older pt mr_materialized_at"
  "\<lambda>r. pt (mr_materialized_at r) \<noteq> None" for pt
  by unfold_locales (auto simp: not_older_def rfc3339_less_def)

interpretation seed_loads: keyed_table seed_key "not_older pt sr_loaded_at"
  "\<lambda>r. pt (sr_loaded_at r) \<noteq> None" for pt
  by unfold_locales (auto simp: not_older_def rfc3339_less_def)

text \<open>Watermarks compete by the start of the runs that wrote them, as long as those runs are stored.\<close>

interpretation watermarks: keyed_table watermark_key "supersedes pt start_of"
  "\<lambda>w. \<exists>t. start_of (wm_run_id w) = Some t \<and> pt t \<noteq> None" for pt start_of
  by unfold_locales (auto simp: supersedes_def rfc3339_less_def)

section \<open>What a sequence of writes leaves\<close>

lemma env_column_stored [simp]: "env_column (stored_env e) = env_column e"
  by (simp add: stored_env_def env_column_def env_value_def split: option.split)

lemma stored_env_idem [simp]: "stored_env (stored_env e) = stored_env e"
  by (simp add: stored_env_def [of "stored_env e"]) (simp add: stored_env_def)

text \<open>The row a record becomes.\<close>

definition version_row :: "materialized_record \<Rightarrow> materialized_record" where
  "version_row r = r\<lparr>mr_environment := stored_env (mr_environment r)\<rparr>"

lemma version_row_simps [simp]:
  "version_key (version_row r) = version_key r" "mr_materialized_at (version_row r) = mr_materialized_at r"
  "mr_model_id (version_row r) = mr_model_id r"
  "env_column (mr_environment (version_row r)) = env_column (mr_environment r)"
  by (simp_all add: version_row_def version_key_def)

definition versions_after :: "(string \<Rightarrow> int option) \<Rightarrow> materialized_record list \<Rightarrow> 'j database \<Rightarrow> 'j database" where
  "versions_after pt ws d = fold (record_materialized pt) ws d"

lemma versions_table:
  "db_model_versions (versions_after pt ws d) =
     fold (upsert version_key (not_older pt mr_materialized_at)) (map version_row ws) (db_model_versions d)"
  unfolding versions_after_def
  by (induction ws arbitrary: d) (simp_all add: record_materialized_def version_row_def)

lemma versions_written:
  "db_model_versions (versions_after pt ws empty_database) = versions.written pt (map version_row ws)"
  by (simp add: versions_table versions.written_def empty_database_def)

lemma materialized_version_lookup:
  "materialized_version m e d = versions.lookup (m, env_column e) (db_model_versions d)"
  by (simp add: materialized_version_def versions.lookup_def)

lemma set_materialized_in:
  "set (materialized_in e d) = {r \<in> set (db_model_versions d). env_column (mr_environment r) = env_column e}"
  by (auto simp: materialized_in_def)

lemma distinct_materialized_in:
  assumes "distinct (map version_key (db_model_versions d))"
  shows "distinct (map mr_model_id (materialized_in e d))"
proof -
  let ?rows = "filter (\<lambda>r. env_column (mr_environment r) = env_column e) (db_model_versions d)"
  have "distinct (map version_key ?rows)" using assms by (rule distinct_map_filter)
  moreover have "map version_key ?rows = map (\<lambda>m. (m, env_column e)) (map mr_model_id ?rows)"
    by (simp add: version_key_def)
  ultimately have "distinct (map mr_model_id ?rows)" by (metis distinct_map)
  moreover have "mset (map mr_model_id (materialized_in e d)) = mset (map mr_model_id ?rows)"
    by (simp add: materialized_in_def)
  ultimately show ?thesis by (metis mset_eq_imp_distinct_iff)
qed

text \<open>A materialisation that the label's slot holds.\<close>

definition slot_of :: "string \<Rightarrow> string \<Rightarrow> materialized_record \<Rightarrow> bool" where
  "slot_of m e r \<longleftrightarrow> mr_model_id r = m \<and> env_column (mr_environment r) = e"

lemma slot_of_row [simp]: "slot_of m e (version_row r) = slot_of m e r"
  by (simp add: slot_of_def)

lemma slot_of_key: "version_key w = (m, e) \<longleftrightarrow> slot_of m e w"
  by (auto simp: version_key_def slot_of_def)

text \<open>Every write leaves a row of its slot that is at least as late.\<close>

lemma version_kept:
  assumes "\<forall>r \<in> set ws. pt (mr_materialized_at r) \<noteq> None" "w \<in> set ws"
  obtains x where "x \<in> set (versions.written pt (map version_row ws))" "version_key x = version_key w"
    "the (pt (mr_materialized_at w)) \<le> the (pt (mr_materialized_at x))"
proof -
  have ok: "\<forall>r \<in> set (map version_row ws). pt (mr_materialized_at r) \<noteq> None" using assms(1) by simp
  have "version_key w \<in> version_key ` set (map version_row ws)"
    using assms(2) by (metis image_eqI list.set_map version_row_simps(1))
  then obtain x where x: "versions.lookup (version_key w) (versions.written pt (map version_row ws)) = Some x"
    by (metis not_None_eq versions.written_none)
  note best = versions.written_best [OF ok x]
  have "not_older pt mr_materialized_at x (version_row w)" using best assms(2) by simp
  moreover obtain y z where "pt (mr_materialized_at x) = Some y" "pt (mr_materialized_at w) = Some z"
    using best ok assms by blast
  ultimately have "the (pt (mr_materialized_at w)) \<le> the (pt (mr_materialized_at x))"
    by (simp add: not_older_def rfc3339_less_def)
  with that versions.lookup_key [OF x] show thesis by blast
qed

text \<open>
  Property C9. However the writes of concurrent runs interleave, the store keeps for each model and
  environment the record of the latest materialisation: what it reads back is a record written for that
  slot, with no later one, and nothing only when nothing was written for the slot.
\<close>

theorem latest_materialisation_wins:
  assumes "\<forall>r \<in> set ws. pt (mr_materialized_at r) \<noteq> None"
  shows "case materialized_version m e (versions_after pt ws (empty_database :: 'j database)) of
      None \<Rightarrow> {r \<in> set ws. slot_of m (env_column e) r} = {}
    | Some r \<Rightarrow> r \<in> version_row ` {w \<in> set ws. slot_of m (env_column e) w} \<and>
        {q \<in> set ws. slot_of m (env_column e) q \<and>
           the (pt (mr_materialized_at r)) < the (pt (mr_materialized_at q))} = {}"
proof -
  let ?rows = "versions.written pt (map version_row ws)"
  show ?thesis
  proof (cases "versions.lookup (m, env_column e) ?rows")
    case None
    then have none: "(m, env_column e) \<notin> version_key ` set (map version_row ws)"
      by (simp only: versions.written_none not_False_eq_True)
    have "\<not> slot_of m (env_column e) w" if "w \<in> set ws" for w
    proof
      assume "slot_of m (env_column e) w"
      then have "(m, env_column e) = version_key (version_row w)" by (simp add: slot_of_key [symmetric])
      moreover have "version_key (version_row w) \<in> version_key ` set (map version_row ws)"
        by (rule imageI) (simp add: that)
      ultimately show False using none by simp
    qed
    then show ?thesis by (simp add: materialized_version_lookup versions_written None)
  next
    case (Some r)
    note r = versions.lookup_key [OF Some]
    have "\<not> the (pt (mr_materialized_at r)) < the (pt (mr_materialized_at q))"
      if q: "q \<in> set ws" "slot_of m (env_column e) q" for q
    proof -
      obtain x where x: "x \<in> set ?rows" "version_key x = version_key q"
        "the (pt (mr_materialized_at q)) \<le> the (pt (mr_materialized_at x))"
        by (rule version_kept [OF assms q(1)])
      have inj: "inj_on version_key (set ?rows)"
        using versions.distinct_written [of pt "map version_row ws"] by (simp add: distinct_map)
      have "x = r"
        by (rule inj_onD [OF inj _ x(1)]) (use r x(2) q(2) in \<open>simp_all add: slot_of_key [symmetric]\<close>)
      with x(3) show ?thesis by simp
    qed
    moreover have "r \<in> version_row ` {w \<in> set ws. slot_of m (env_column e) w}"
      using r versions.set_written [of pt "map version_row ws"] by (auto simp: slot_of_key)
    ultimately show ?thesis by (auto simp: materialized_version_lookup versions_written Some)
  qed
qed

text \<open>
  Two runs that finish in either order leave the same state: when no two writes for a slot
  carry the same instant, any reordering of the writes leaves the same record in every slot.
\<close>

theorem materialisations_commute:
  assumes "\<forall>r \<in> set ws. pt (mr_materialized_at r) \<noteq> None" "mset vs = mset ws"
    and "\<forall>a \<in> set ws. \<forall>b \<in> set ws. version_key a = version_key b \<and>
      pt (mr_materialized_at a) = pt (mr_materialized_at b) \<longrightarrow> a = b"
  shows "materialized_version m e (versions_after pt vs (empty_database :: 'j database)) =
    materialized_version m e (versions_after pt ws (empty_database :: 'j database))"
  unfolding materialized_version_lookup versions_written
proof (rule versions.written_order_independent)
  show "\<forall>r \<in> set (map version_row ws). pt (mr_materialized_at r) \<noteq> None" using assms(1) by simp
  show "mset (map version_row vs) = mset (map version_row ws)" using assms(2) by simp
  have "a = b" if "a \<in> set ws" "b \<in> set ws" "version_key a = version_key b"
    "not_older pt mr_materialized_at a b" "not_older pt mr_materialized_at b a" for a b
  proof -
    have "pt (mr_materialized_at a) \<noteq> None" "pt (mr_materialized_at b) \<noteq> None" using assms(1) that by blast+
    then have "pt (mr_materialized_at a) = pt (mr_materialized_at b)"
      using that(4,5) by (auto simp: not_older_def rfc3339_less_def)
    then show ?thesis using assms(3) that by blast
  qed
  then show "\<forall>a \<in> set (map version_row ws). \<forall>b \<in> set (map version_row ws). version_key a = version_key b \<longrightarrow>
      not_older pt mr_materialized_at a b \<longrightarrow> not_older pt mr_materialized_at b a \<longrightarrow> a = b"
    by (auto simp: not_older_def)
qed

section \<open>What the planner reads\<close>

text \<open>The labels a plan for an environment folds together: the default environment and \<open>main\<close> are one.\<close>

definition labels :: "string option \<Rightarrow> string set" where
  "labels e =
     (case e of
        None \<Rightarrow> {[], ''main''}
      | Some s \<Rightarrow> if s = ''main'' then {[], ''main''} else {s})"

text \<open>A table of materialisations as the store leaves it.\<close>

definition wf_versions :: "(string \<Rightarrow> int option) \<Rightarrow> 'j database \<Rightarrow> bool" where
  "wf_versions pt d \<longleftrightarrow> distinct (map version_key (db_model_versions d)) \<and>
     (\<forall>r \<in> set (db_model_versions d). pt (mr_materialized_at r) \<noteq> None)"

lemma scope_of_database:
  fixes d :: "'j database"
  assumes "wf_versions pt d"
  obtains a where "materialized_scope pt (\<lambda>e. Inr (materialized_in e d)) environment = Inr a"
    "latest_of pt mr_model_id mr_materialized_at
       {r \<in> set (db_model_versions d). env_column (mr_environment r) \<in> labels environment} a"
proof -
  let ?in = "\<lambda>e. Inr (materialized_in e d) :: string + materialized_record list"
  let ?ds = "materialized_in None d" and ?ms = "materialized_in (Some ''main'') d"
  have dist: "distinct (map mr_model_id (materialized_in e d))" for e
    using assms by (intro distinct_materialized_in) (simp add: wf_versions_def)
  have ok: "pt (mr_materialized_at r) \<noteq> None" if "r \<in> set ?ds \<union> set ?ms" for r
    using that assms by (auto simp: set_materialized_in wf_versions_def)
  have both: "set ?ds \<union> set ?ms = {r \<in> set (db_model_versions d). env_column (mr_environment r) \<in> {[], ''main''}}"
    by (auto simp: set_materialized_in env_column_def)
  have shared: "\<exists>a b. materialized_scope pt ?in None = Inr a \<and> materialized_scope pt ?in (Some ''main'') = Inr b \<and>
      latest_of pt mr_model_id mr_materialized_at (set ?ds \<union> set ?ms) a \<and>
      latest_of pt mr_model_id mr_materialized_at (set ?ds \<union> set ?ms) b"
    by (rule latest_scopes) (use dist ok in auto)
  show thesis
  proof (cases "environment = None \<or> environment = Some ''main''")
    case True
    then show thesis using shared that unfolding both by (auto simp: labels_def)
  next
    case False
    then obtain s where s: "environment = Some s" "s \<noteq> ''main''" by auto
    have "set (materialized_in environment d) =
        {r \<in> set (db_model_versions d). env_column (mr_environment r) \<in> labels environment}"
      using s by (auto simp: set_materialized_in labels_def env_column_def)
    then show thesis
      using that [of "collect_records mr_model_id (materialized_in environment d)"]
        latest_of_collect [OF dist [of environment], of pt mr_materialized_at] s
      by (simp add: materialized_scope_def records_scope_def records_for_environment_def
          includes_default_environment_def)
  qed
qed

lemma wf_versions_after:
  assumes "wf_versions pt d" "\<forall>r \<in> set ws. pt (mr_materialized_at r) \<noteq> None"
  shows "wf_versions pt (versions_after pt ws d)"
    and "db_model_versions (versions_after pt ws d) = versions.written pt (db_model_versions d @ map version_row ws)"
proof -
  show eq: "db_model_versions (versions_after pt ws d) =
      versions.written pt (db_model_versions d @ map version_row ws)"
    using assms(1) by (simp add: versions_table versions.fold_written wf_versions_def)
  have "set (versions.written pt (db_model_versions d @ map version_row ws)) \<subseteq>
      set (db_model_versions d) \<union> version_row ` set ws"
    using versions.set_written [of pt "db_model_versions d @ map version_row ws"] by simp
  then show "wf_versions pt (versions_after pt ws d)"
    using assms versions.distinct_written unfolding wf_versions_def eq by fastforce
qed

lemma wf_empty_database: "wf_versions pt empty_database"
  by (simp add: wf_versions_def empty_database_def)

text \<open>A row that is later than all others of its model under the labels is the one the plan reads.\<close>

lemma scope_reads_latest:
  assumes "latest_of pt mr_model_id mr_materialized_at R a" "r \<in> R"
    and "\<And>q. q \<in> R \<Longrightarrow> mr_model_id q = mr_model_id r \<Longrightarrow> q \<noteq> r \<Longrightarrow>
      the (pt (mr_materialized_at q)) < the (pt (mr_materialized_at r))"
  shows "map_of a (mr_model_id r) = Some r"
proof -
  have "mr_model_id r \<in> fst ` set a" using assms(1,2) by (auto simp: latest_of_def)
  then obtain x where x: "map_of a (mr_model_id r) = Some x"
    by (metis map_of_eq_None_iff not_None_eq set_map)
  then have "x \<in> R" "mr_model_id x = mr_model_id r"
    "the (pt (mr_materialized_at r)) \<le> the (pt (mr_materialized_at x))"
    using assms(1,2) unfolding latest_of_def by blast+
  then have "x = r" using assms(3) [of x] by auto
  with x show ?thesis by simp
qed

text \<open>
  Property C11. A plan starts from the truth: over any history of writes, the records it reads from the
  store for its environment hold for every model the latest materialisation recorded under the labels that
  count as that environment, and leave out exactly the models never recorded there.
\<close>

theorem planner_reads_latest:
  assumes "\<forall>r \<in> set ws. pt (mr_materialized_at r) \<noteq> None"
  shows "\<exists>a. materialized_scope pt (\<lambda>e. Inr (materialized_in e (versions_after pt ws (empty_database :: 'j database))))
      environment = Inr a \<and>
    (let mine = {r \<in> set ws. mr_model_id r = i \<and> env_column (mr_environment r) \<in> labels environment}
     in case map_of a i of
          None \<Rightarrow> mine = {}
        | Some r \<Rightarrow> r \<in> version_row ` mine \<and>
            {q \<in> mine. the (pt (mr_materialized_at r)) < the (pt (mr_materialized_at q))} = {})"
proof -
  let ?d = "versions_after pt ws (empty_database :: 'j database)"
  let ?R = "{r \<in> set (db_model_versions ?d). env_column (mr_environment r) \<in> labels environment}"
  let ?mine = "{r \<in> set ws. mr_model_id r = i \<and> env_column (mr_environment r) \<in> labels environment}"
  obtain a where a: "materialized_scope pt (\<lambda>e. Inr (materialized_in e ?d)) environment = Inr a"
    "latest_of pt mr_model_id mr_materialized_at ?R a"
    by (rule scope_of_database [OF wf_versions_after(1) [OF wf_empty_database assms]])
  note lat = a(2) [unfolded latest_of_def]
  have rows: "set (db_model_versions ?d) \<subseteq> version_row ` set ws"
    using versions.set_written [of pt "map version_row ws"] by (simp add: versions_written)
  have kept: "\<exists>x \<in> ?R. mr_model_id x = i \<and>
      the (pt (mr_materialized_at q)) \<le> the (pt (mr_materialized_at x))" if q: "q \<in> ?mine" for q
  proof -
    have "q \<in> set ws" using q by simp
    then obtain x where x: "x \<in> set (versions.written pt (map version_row ws))" "version_key x = version_key q"
      "the (pt (mr_materialized_at q)) \<le> the (pt (mr_materialized_at x))"
      by (rule version_kept [OF assms])
    then have "x \<in> ?R" "mr_model_id x = i"
      using q by (simp_all add: versions_written version_key_def)
    with x(3) show ?thesis by blast
  qed
  have "case map_of a i of None \<Rightarrow> ?mine = {}
      | Some r \<Rightarrow> r \<in> version_row ` ?mine \<and>
          {q \<in> ?mine. the (pt (mr_materialized_at r)) < the (pt (mr_materialized_at q))} = {}"
  proof (cases "map_of a i")
    case None
    then have none: "i \<notin> fst ` set a" by (simp only: map_of_eq_None_iff not_False_eq_True)
    have "fst ` set a = mr_model_id ` ?R" using lat by blast
    with none have none: "i \<notin> mr_model_id ` ?R" by simp
    have "?mine = {}"
    proof (rule ccontr)
      assume "?mine \<noteq> {}"
      then obtain q where "q \<in> ?mine" by blast
      from kept [OF this] obtain x where "x \<in> ?R" "mr_model_id x = i" by blast
      then show False using none by blast
    qed
    then show ?thesis by (simp add: None)
  next
    case (Some r)
    have r: "r \<in> ?R" "mr_model_id r = i"
      "\<forall>q \<in> ?R. mr_model_id q = i \<longrightarrow> the (pt (mr_materialized_at q)) \<le> the (pt (mr_materialized_at r))"
      using lat Some by blast+
    obtain w where "w \<in> set ws" "r = version_row w" using r(1) rows by blast
    then have "r \<in> version_row ` ?mine" using r(1,2) by (intro image_eqI [of r version_row w]) simp_all
    moreover have "\<not> the (pt (mr_materialized_at r)) < the (pt (mr_materialized_at q))" if q: "q \<in> ?mine" for q
    proof -
      obtain x where x: "x \<in> ?R" "mr_model_id x = i"
        "the (pt (mr_materialized_at q)) \<le> the (pt (mr_materialized_at x))" using kept [OF q] by blast
      have "the (pt (mr_materialized_at x)) \<le> the (pt (mr_materialized_at r))" using r(3) x(1,2) by blast
      with x(3) show ?thesis by linarith
    qed
    ultimately have "r \<in> version_row ` ?mine \<and>
        {q \<in> ?mine. the (pt (mr_materialized_at r)) < the (pt (mr_materialized_at q))} = {}"
      by blast
    then show ?thesis by (simp only: Some option.case)
  qed
  with a(1) show ?thesis by (simp add: Let_def)
qed

section \<open>Watermarks\<close>

text \<open>A sequence of watermark writes for an environment, each with its time of writing.\<close>

definition watermark_writes ::
    "(string \<Rightarrow> int option) \<Rightarrow> string option \<Rightarrow> watermark_row list \<Rightarrow> 'j database \<Rightarrow> 'j database" where
  "watermark_writes pt e ws d =
     fold (\<lambda>w. set_watermark pt (wm_updated_at w) (wm_model w) e (wm_value w) (wm_run_id w)) ws d"

definition watermark_row_of :: "string option \<Rightarrow> watermark_row \<Rightarrow> watermark_row" where
  "watermark_row_of e w = w\<lparr>wm_environment := env_column e\<rparr>"

lemma set_watermark_runs [simp]: "db_runs (set_watermark pt now m e v run_id d) = db_runs d"
  by (simp add: set_watermark_def)

lemma run_started_at_cong: "db_runs d = db_runs c \<Longrightarrow> run_started_at d = run_started_at c"
  by (simp add: run_started_at_def fun_eq_iff)

lemma watermarks_table:
  "db_watermarks (watermark_writes pt e ws d) =
     fold (upsert watermark_key (supersedes pt (run_started_at d))) (map (watermark_row_of e) ws) (db_watermarks d)"
proof (induction ws arbitrary: d)
  case Nil
  then show ?case by (simp add: watermark_writes_def)
next
  case (Cons w ws)
  let ?d = "set_watermark pt (wm_updated_at w) (wm_model w) e (wm_value w) (wm_run_id w) d"
  have "run_started_at ?d = run_started_at d" by (rule run_started_at_cong) simp
  moreover have "db_watermarks ?d =
      upsert watermark_key (supersedes pt (run_started_at d)) (watermark_row_of e w) (db_watermarks d)"
    by (cases w) (simp add: set_watermark_def watermark_row_of_def)
  ultimately show ?case using Cons.IH [of ?d] by (simp add: watermark_writes_def)
qed

text \<open>
  Property C12. A watermark belongs to the newest run that observed one, not to the last writer: whatever the
  order in which runs write, the value read back was written by a run started no earlier than any other
  run that wrote for the model.
\<close>

theorem watermark_follows_generation:
  assumes "db_watermarks d = []"
    and "\<forall>w \<in> set ws. \<exists>t. run_started_at d (wm_run_id w) = Some t \<and> pt t \<noteq> None"
  shows "let mine = {w \<in> set ws. wm_model w = m}; begun = (\<lambda>w. the (pt (the (run_started_at d (wm_run_id w)))))
    in case watermark m e (watermark_writes pt e ws d) of
         None \<Rightarrow> mine = {}
       | Some v \<Rightarrow> \<exists>w \<in> mine. v = wm_value w \<and> begun w = Max (begun ` mine)"
proof -
  let ?rows = "map (watermark_row_of e) ws" and ?k = "(m, env_column e)" and ?mine = "{w \<in> set ws. wm_model w = m}"
  let ?begun = "\<lambda>w. the (pt (the (run_started_at d (wm_run_id w))))"
  have key: "watermark_key (watermark_row_of e w) = ?k \<longleftrightarrow> wm_model w = m" for w
    by (simp add: watermark_key_def watermark_row_of_def)
  have read: "watermark m e (watermark_writes pt e ws d) =
      map_option wm_value (watermarks.lookup ?k (watermarks.written pt (run_started_at d) ?rows))"
    by (simp add: watermark_def watermarks_table assms(1) watermarks.written_def watermarks.lookup_def)
  show ?thesis
  proof (cases "watermarks.lookup ?k (watermarks.written pt (run_started_at d) ?rows)")
    case None
    then have none: "?k \<notin> watermark_key ` set ?rows"
      by (simp only: watermarks.written_none not_False_eq_True)
    have "wm_model w \<noteq> m" if "w \<in> set ws" for w
    proof
      assume "wm_model w = m"
      then have "?k = watermark_key (watermark_row_of e w)" using key [of w] by simp
      moreover have "watermark_key (watermark_row_of e w) \<in> watermark_key ` set ?rows"
        by (rule imageI) (simp add: that)
      ultimately show False using none by simp
    qed
    then show ?thesis by (simp add: read None)
  next
    case (Some r)
    have ok: "\<forall>r \<in> set ?rows. \<exists>t. run_started_at d (wm_run_id r) = Some t \<and> pt t \<noteq> None"
      using assms(2) by (simp add: watermark_row_of_def)
    note best = watermarks.written_best [OF ok Some]
    obtain w where w: "w \<in> set ws" "r = watermark_row_of e w" using best by auto
    then have mine: "w \<in> ?mine" using best key by simp
    have le: "?begun q \<le> ?begun w" if q: "q \<in> ?mine" for q
    proof -
      have "supersedes pt (run_started_at d) r (watermark_row_of e q)" using best q key [of q] by simp
      moreover obtain a b where "run_started_at d (wm_run_id q) = Some a" "pt a \<noteq> None"
          "run_started_at d (wm_run_id w) = Some b" "pt b \<noteq> None"
        using assms(2) q w(1) by blast
      ultimately show ?thesis by (auto simp: supersedes_def watermark_row_of_def w(2) rfc3339_less_def)
    qed
    have "?begun w = Max (?begun ` ?mine)"
      by (rule sym, rule Max_eqI) (use mine le in auto)
    then show ?thesis
      using mine by (auto simp: read Some w(2) watermark_row_of_def)
  qed
qed

section \<open>Reads by time\<close>

lemma set_freshest [simp]: "set (freshest pt at rows) = set rows"
  by (simp add: freshest_def newest_first_def text_desc_def)

lemma freshest_Nil_iff [simp]: "freshest pt at rows = [] \<longleftrightarrow> rows = []"
  by (metis set_empty set_freshest)

text \<open>With timestamps that parse, the rows come newest instant first.\<close>

lemma sorted_freshest:
  assumes "\<forall>r \<in> set rows. pt (at r) \<noteq> None"
  shows "sorted_wrt (\<lambda>a b. the (pt (at b)) \<le> the (pt (at a))) (freshest pt at rows)"
proof -
  let ?le = "\<lambda>a b. \<not> rfc3339_less pt (at a) (at b)"
  have instants: "?le a b \<longleftrightarrow> the (pt (at b)) \<le> the (pt (at a))" if "a \<in> set rows" "b \<in> set rows" for a b
    using assms that by (auto simp: rfc3339_less_def split: option.split)
  have "sorts_on ?le (set (text_desc at rows))"
    unfolding sorts_on_def by (auto simp: text_desc_def instants)
  then have "sorted_wrt ?le (freshest pt at rows)"
    unfolding freshest_def newest_first_def by (rule sorted_sort_by)
  then show ?thesis
    by (rule sorted_wrt_mono_rel [rotated]) (use instants in auto)
qed

lemma first_per_subset: "r \<in> set (first_per key seen rs) \<Longrightarrow> r \<in> set rs \<and> key r \<notin> seen"
  by (induction rs arbitrary: seen) (auto split: if_splits)

lemma first_per_distinct: "distinct (map key (first_per key seen rs))"
  by (induction rs arbitrary: seen) (auto dest: first_per_subset)

lemma first_per_covers: "r \<in> set rs \<Longrightarrow> key r \<notin> seen \<Longrightarrow> key r \<in> key ` set (first_per key seen rs)"
proof (induction rs arbitrary: seen)
  case (Cons x rs)
  show ?case
  proof (cases "key r = key x")
    case True
    then show ?thesis using Cons.prems(2) by simp
  next
    case False
    then show ?thesis
      using Cons.IH [of seen] Cons.IH [of "insert (key x) seen"] Cons.prems by (cases "key x \<in> seen") auto
  qed
qed simp

lemma first_per_sorted:
  assumes "sorted_wrt le rs" "\<And>a. a \<in> set rs \<Longrightarrow> le a a"
  shows "r \<in> set (first_per key seen rs) \<Longrightarrow> q \<in> set rs \<Longrightarrow> key q = key r \<Longrightarrow> le r q"
  using assms
proof (induction rs arbitrary: seen)
  case (Cons x rs)
  show ?case
  proof (cases "key x \<in> seen")
    case True
    then have r: "r \<in> set (first_per key seen rs)" using Cons.prems(1) by simp
    then have "key r \<notin> seen" using first_per_subset [OF r] by blast
    then have "q \<in> set rs" using Cons.prems(2,3) True by auto
    then show ?thesis using Cons.IH [OF r] Cons.prems(3-5) by simp
  next
    case False
    show ?thesis
    proof (cases "r = x")
      case True
      then show ?thesis using Cons.prems(2,4,5) by auto
    next
      case neq: False
      then have r: "r \<in> set (first_per key (insert (key x) seen) rs)" using Cons.prems(1) False by simp
      then have "key r \<noteq> key x" using first_per_subset [OF r] by blast
      then have "q \<in> set rs" using Cons.prems(2,3) by auto
      then show ?thesis using Cons.IH [OF r] Cons.prems(3-5) by simp
    qed
  qed
qed simp

text \<open>
  Property C13. The evidence a promotion looks up is the newest there is: the records of a subject come newest
  first and complete, and the latest evidence holds exactly one record for each audited pair of subject
  and target, none older than another record of the pair.
\<close>

theorem evidence_newest_first:
  assumes "\<forall>r \<in> set (db_evidence d). pt (er_created_at r) \<noteq> None"
  shows "let instant = (\<lambda>r. the (pt (er_created_at r))); pair = (\<lambda>r. (er_subject r, er_target_ref r));
        mine = {r \<in> set (db_evidence d). er_kind r = kind}; latest = latest_evidence pt kind d;
        found = evidence_for pt kind subject d
    in set found = {r \<in> mine. er_subject r = subject} \<and> sorted_wrt (\<lambda>a b. instant b \<le> instant a) found \<and>
       set latest \<subseteq> mine \<and> distinct (map pair latest) \<and> pair ` set latest = pair ` mine \<and>
       {(r, q). r \<in> set latest \<and> q \<in> mine \<and> pair q = pair r \<and> instant r < instant q} = {}"
proof -
  let ?instant = "\<lambda>r. the (pt (er_created_at r))" and ?pair = "\<lambda>r. (er_subject r, er_target_ref r)"
  let ?rows = "filter (\<lambda>r. er_kind r = kind) (db_evidence d)"
  let ?found = "evidence_for pt kind subject d" and ?latest = "latest_evidence pt kind d"
  have found: "set ?found = {r \<in> set ?rows. er_subject r = subject}"
    by (auto simp: evidence_for_def)
  have sorted: "sorted_wrt (\<lambda>a b. ?instant b \<le> ?instant a) ?found"
    unfolding evidence_for_def by (rule sorted_freshest) (use assms in auto)
  have rows: "sorted_wrt (\<lambda>a b. ?instant b \<le> ?instant a) (freshest pt er_created_at ?rows)"
    by (rule sorted_freshest) (use assms in auto)
  have newest: "?instant q \<le> ?instant r" if "r \<in> set ?latest" "q \<in> set ?rows" "?pair q = ?pair r" for r q
    using first_per_sorted [OF rows _ that(1) [unfolded latest_evidence_def]] that(2,3) by simp
  have distinct: "distinct (map ?pair ?latest)"
    unfolding latest_evidence_def by (rule first_per_distinct)
  have latest: "set ?latest \<subseteq> set ?rows"
    unfolding latest_evidence_def by (auto dest: first_per_subset)
  have "?pair r \<in> ?pair ` set ?latest" if "r \<in> set ?rows" for r
    using first_per_covers [of r "freshest pt er_created_at ?rows" ?pair "{}"] that by (simp add: latest_evidence_def)
  then have pairs: "?pair ` set ?latest = ?pair ` set ?rows" using latest by blast
  have mine: "{r \<in> set (db_evidence d). er_kind r = kind} = set ?rows" by auto
  have none: "{(r, q). r \<in> set ?latest \<and> q \<in> set ?rows \<and> ?pair q = ?pair r \<and> ?instant r < ?instant q} = {}"
    using newest by fastforce
  show ?thesis
    unfolding Let_def mine
    by (intro conjI) (rule found, rule sorted, rule latest, rule distinct, rule pairs, rule none)
qed

section \<open>Witnesses\<close>

text \<open>Instants for the witnesses: the length of the text.\<close>

definition length_time :: "string \<Rightarrow> int option" where
  "length_time s = Some (int (length s))"

definition sample_writes :: "materialized_record list" where
  "sample_writes = [bare_record ''m.a'' None ''22'', bare_record ''m.a'' None ''1'', bare_record ''m.a'' (Some ''main'') ''333'']"

lemma sample_writes_timed: "\<forall>r \<in> set sample_writes. length_time (mr_materialized_at r) \<noteq> None"
  by (simp add: length_time_def)

theorem latest_materialisation_wins_witness:
  "\<exists>r. materialized_version ''m.a'' None (versions_after length_time sample_writes (empty_database :: nat database)) = Some r \<and>
     mr_materialized_at r = ''22''"
proof -
  note wins = latest_materialisation_wins [OF sample_writes_timed, of "''m.a''" None, where 'j = nat,
    unfolded set_filter [symmetric]]
  have mine: "filter (slot_of ''m.a'' (env_column None)) sample_writes =
      [bare_record ''m.a'' None ''22'', bare_record ''m.a'' None ''1'']"
    by (simp add: sample_writes_def bare_record_def slot_of_def env_column_def)
  show ?thesis
  proof (cases "materialized_version ''m.a'' None (versions_after length_time sample_writes (empty_database :: nat database))")
    case None
    then show ?thesis using wins by (simp add: mine)
  next
    case (Some r)
    have "r \<in> version_row ` set (filter (slot_of ''m.a'' (env_column None)) sample_writes)"
      using wins by (simp add: Some)
    moreover have "\<not> the (length_time (mr_materialized_at r)) < the (length_time ''22'')"
      using wins unfolding Some option.case set_empty filter_empty_conv
      by (simp add: sample_writes_def bare_record_def slot_of_def env_column_def)
    ultimately show ?thesis
      using Some unfolding mine by (auto simp: bare_record_def length_time_def)
  qed
qed

theorem materialisations_commute_witness:
  "materialized_version ''m.a'' None (versions_after length_time (rev sample_writes) (empty_database :: nat database)) =
   materialized_version ''m.a'' None (versions_after length_time sample_writes (empty_database :: nat database))"
proof (rule materialisations_commute [OF sample_writes_timed])
  show "mset (rev sample_writes) = mset sample_writes" by simp
  show "\<forall>a \<in> set sample_writes. \<forall>b \<in> set sample_writes. version_key a = version_key b \<and>
      length_time (mr_materialized_at a) = length_time (mr_materialized_at b) \<longrightarrow> a = b"
    by (auto simp: sample_writes_def bare_record_def length_time_def version_key_def)
qed

theorem planner_reads_latest_witness:
  "\<exists>a r. materialized_scope length_time
       (\<lambda>e. Inr (materialized_in e (versions_after length_time sample_writes (empty_database :: nat database)))) None = Inr a \<and>
     map_of a ''m.a'' = Some r \<and> mr_materialized_at r = ''333''"
proof -
  obtain a where a: "materialized_scope length_time
      (\<lambda>e. Inr (materialized_in e (versions_after length_time sample_writes (empty_database :: nat database)))) None = Inr a"
    "let mine = {r \<in> set sample_writes. mr_model_id r = ''m.a'' \<and> env_column (mr_environment r) \<in> labels None}
     in case map_of a ''m.a'' of
          None \<Rightarrow> mine = {}
        | Some r \<Rightarrow> r \<in> version_row ` mine \<and>
            {q \<in> mine. the (length_time (mr_materialized_at r)) < the (length_time (mr_materialized_at q))} = {}"
    using planner_reads_latest [OF sample_writes_timed, of None "''m.a''", where 'j = nat] by blast
  have mine: "filter (\<lambda>r. mr_model_id r = ''m.a'' \<and> env_column (mr_environment r) \<in> labels None) sample_writes =
      sample_writes"
    by (simp add: sample_writes_def bare_record_def env_column_def labels_def)
  note latest = a(2) [unfolded Let_def set_filter [symmetric] mine]
  have late: "bare_record ''m.a'' (Some ''main'') ''333'' \<in> set sample_writes" by (simp add: sample_writes_def)
  show ?thesis
  proof (cases "map_of a ''m.a''")
    case None
    then show ?thesis using latest by (simp add: sample_writes_def)
  next
    case (Some r)
    have "r \<in> version_row ` set sample_writes" using latest by (simp add: Some)
    moreover have "\<not> the (length_time (mr_materialized_at r)) < the (length_time ''333'')"
      using latest late unfolding Some by (auto simp: filter_empty_conv bare_record_def)
    ultimately have "mr_materialized_at r = ''333''"
      unfolding sample_writes_def by (auto simp: bare_record_def length_time_def)
    then show ?thesis using a(1) Some by blast
  qed
qed

definition sample_run :: "string \<Rightarrow> string \<Rightarrow> run_summary" where
  "sample_run run_id at =
     \<lparr>rs_run_id = run_id, rs_plan_id = ''p'', rs_environment = None, rs_reference_hash = None,
      rs_started_at = at, rs_finished_at = None, rs_status = Running, rs_model_count = 1, rs_failed_count = 0\<rparr>"

definition two_runs :: "nat database" where
  "two_runs = empty_database\<lparr>db_runs := map (\<lambda>r. (r, \<lparr>spl_plan_id = ''p'', spl_environment = None, spl_models = [],
     spl_seeds = [], spl_tests = []\<rparr>)) [sample_run ''old'' ''1'', sample_run ''new'' ''22'']\<rparr>"

text \<open>The newer run writes first, the older one last.\<close>

definition sample_watermarks :: "watermark_row list" where
  "sample_watermarks = map (\<lambda>(v, r). \<lparr>wm_model = ''m.a'', wm_environment = [], wm_value = v, wm_run_id = r,
     wm_updated_at = ''t''\<rparr>) [(''5'', ''new''), (''4'', ''old'')]"

theorem watermark_follows_generation_witness:
  "watermark ''m.a'' None (watermark_writes length_time None sample_watermarks two_runs) = Some ''5''"
proof -
  have runs: "run_started_at two_runs ''new'' = Some ''22''" "run_started_at two_runs ''old'' = Some ''1''"
    by (simp_all add: run_started_at_def two_runs_def sample_run_def empty_database_def)
  have "db_watermarks two_runs = []" by (simp add: two_runs_def empty_database_def)
  moreover have "\<forall>w \<in> set sample_watermarks.
      \<exists>t. run_started_at two_runs (wm_run_id w) = Some t \<and> length_time t \<noteq> None"
    by (simp add: sample_watermarks_def runs length_time_def)
  ultimately have newest: "case watermark ''m.a'' None (watermark_writes length_time None sample_watermarks two_runs) of
      None \<Rightarrow> set (filter (\<lambda>w. wm_model w = ''m.a'') sample_watermarks) = {}
    | Some v \<Rightarrow> \<exists>w \<in> set (filter (\<lambda>w. wm_model w = ''m.a'') sample_watermarks). v = wm_value w \<and>
        the (length_time (the (run_started_at two_runs (wm_run_id w)))) =
        Max ((\<lambda>w. the (length_time (the (run_started_at two_runs (wm_run_id w))))) `
          set (filter (\<lambda>w. wm_model w = ''m.a'') sample_watermarks))"
    using watermark_follows_generation [of two_runs sample_watermarks length_time "''m.a''" None]
    unfolding Let_def set_filter [symmetric] by blast
  have mine: "filter (\<lambda>w. wm_model w = ''m.a'') sample_watermarks = sample_watermarks"
    by (simp add: sample_watermarks_def)
  show ?thesis
    using newest unfolding mine
    by (auto simp: sample_watermarks_def runs length_time_def split: option.splits)
qed

definition sample_evidence :: "string \<Rightarrow> string \<Rightarrow> nat evidence_record" where
  "sample_evidence eid at =
     \<lparr>er_evidence_id = eid, er_kind = BranchDiffEvidence, er_subject = ''ci'', er_target_ref = ''main'',
      er_candidate_hash = None, er_target_hash = None, er_fingerprint = None, er_payload = 0, er_run_id = None,
      er_created_at = at\<rparr>"

definition sample_audits :: "nat database" where
  "sample_audits = empty_database\<lparr>db_evidence := [sample_evidence ''e2'' ''22'', sample_evidence ''e1'' ''1'']\<rparr>"

theorem evidence_newest_first_witness:
  "\<exists>r. set (latest_evidence length_time BranchDiffEvidence sample_audits) = {r} \<and> er_evidence_id r = ''e2''"
proof -
  have "\<forall>r \<in> set (db_evidence sample_audits). length_time (er_created_at r) \<noteq> None" by (simp add: length_time_def)
  note newest = evidence_newest_first [OF this, of BranchDiffEvidence "''ci''", unfolded Let_def]
  have evidence: "set (db_evidence sample_audits) = {sample_evidence ''e2'' ''22'', sample_evidence ''e1'' ''1''}"
    by (simp add: sample_audits_def)
  let ?latest = "latest_evidence length_time BranchDiffEvidence sample_audits"
  have all: "filter (\<lambda>r. er_kind r = BranchDiffEvidence) (db_evidence sample_audits) = db_evidence sample_audits"
    by (simp add: sample_audits_def sample_evidence_def)
  note latest = newest [unfolded set_filter [symmetric] all]
  have "sample_evidence ''e1'' ''1'' \<notin> set ?latest"
  proof
    assume "sample_evidence ''e1'' ''1'' \<in> set ?latest"
    then have "(sample_evidence ''e1'' ''1'', sample_evidence ''e2'' ''22'') \<in>
        {(r, q). r \<in> set ?latest \<and> q \<in> set (db_evidence sample_audits) \<and>
          (er_subject q, er_target_ref q) = (er_subject r, er_target_ref r) \<and>
          the (length_time (er_created_at r)) < the (length_time (er_created_at q))}"
      by (simp add: sample_audits_def) (simp add: sample_evidence_def length_time_def)
    then show False using latest by (simp only: empty_iff)
  qed
  moreover have "set ?latest \<subseteq> {sample_evidence ''e1'' ''1'', sample_evidence ''e2'' ''22''}"
    using latest evidence by blast
  moreover have "set ?latest \<noteq> {}" using latest unfolding evidence by auto
  ultimately have "set ?latest = {sample_evidence ''e2'' ''22''}"
    by (simp add: subset_insert subset_singleton_iff)
  then show ?thesis by (simp add: sample_evidence_def)
qed

end
