(* ===== verification/Resume.thy ===== *)
theory Resume
  imports Run
begin

text \<open>
  The ways into a run, \<open>Runner::apply\<close>, \<open>resume\<close> and \<open>retry_failed\<close> of
  \<^verbatim>\<open>phlo-transform-engine/src/run.rs\<close>: what each refuses, the plan each executes, and what it tells
  the driver about earlier work. The recorded history is read through the record \<open>history\<close>, and
  planning is that of the theory Planner, panics included.
\<close>

section \<open>What a continuation reads\<close>

record history =
  hs_find_runs :: "string \<Rightarrow> engine_error + run_summary list"
  hs_run :: "string \<Rightarrow> engine_error + stored_run option"
  hs_model_runs :: "string \<Rightarrow> engine_error + model_run_record list"
  hs_seed_runs :: "string \<Rightarrow> engine_error + seed_run_record list"
  hs_test_runs :: "string \<Rightarrow> engine_error + test_run_record list"

text \<open>
  The planner a continuation builds, the clock and the fresh plan id it draws, the adapter's
  \<open>relation_exists\<close>, and the standard library's debug form of an optional string.
\<close>

record continuation =
  cn_compilation :: compilation
  cn_history :: "history option"
  cn_environment :: "string option"
  cn_evidence :: evidence_source
  cn_relation_exists :: "relation \<Rightarrow> adapter_error + bool"
  cn_sha :: "string \<Rightarrow> string"
  cn_plan_id :: string
  cn_now :: string
  cn_debug :: "string option \<Rightarrow> string"

type_synonym prior_run = "(string \<rightharpoonup> model_run_record) \<times> (string \<rightharpoonup> seed_run_record)"

definition reading :: "engine_error + 'a \<Rightarrow> ('a \<Rightarrow> run_end + 'b) \<Rightarrow> run_end + 'b" where
  "reading r k = (case r of Inl e \<Rightarrow> Inl (RunError e) | Inr a \<Rightarrow> k a)"

definition refuse :: "bool \<Rightarrow> engine_error \<Rightarrow> (run_end + 'a) \<Rightarrow> run_end + 'a" where
  "refuse bad e k = (if bad then Inl (RunError e) else k)"

section \<open>Applying a plan\<close>

definition fresh_inputs :: "run_inputs \<Rightarrow> run_inputs" where
  "fresh_inputs ri =
     ri\<lparr>ri_context := (ri_context ri)\<lparr>rx_prior_models := Map.empty\<rparr>, ri_resume := False,
        ri_continued_from := None, ri_prior_seeds := Map.empty\<rparr>"

definition apply_refusal :: "compilation \<Rightarrow> plan \<Rightarrow> engine_error option" where
  "apply_refusal c p =
     (if pl_blocked p then Some ECompilation else map_option EStalePlan (staleness p c))"

definition applied :: "run_inputs \<Rightarrow> run_end + run_outcome \<Rightarrow> bool" where
  "applied ri r \<longleftrightarrow>
     (case apply_refusal (ri_compilation ri) (ri_plan ri) of
        Some e \<Rightarrow> r = Inl (RunError e)
      | None \<Rightarrow> executed (fresh_inputs ri) r)"

section \<open>Finding the run\<close>

definition resolve_run_id :: "history \<Rightarrow> string \<Rightarrow> engine_error + string" where
  "resolve_run_id h prefix =
     (case hs_find_runs h prefix of
        Inl e \<Rightarrow> Inl e
      | Inr [] \<Rightarrow> Inl (EInvalidPlan (''no run matches `'' @ prefix @ ''`''))
      | Inr [r] \<Rightarrow> Inr (rs_run_id r)
      | Inr rs \<Rightarrow> Inl (EInvalidPlan (''`'' @ prefix @ ''` matches '' @ dec (length rs) @
                                      '' runs; give a longer prefix'')))"

definition short_id :: "string \<Rightarrow> string" where
  "short_id run_id =
     (if 8 \<le> length run_id \<and> char_boundary 8 run_id then take 8 run_id else run_id)"

text \<open>Continuations need a workspace that compiles, a store, and the run they name.\<close>

definition named_run ::
    "continuation \<Rightarrow> string \<Rightarrow> string \<Rightarrow> (history \<Rightarrow> string \<Rightarrow> stored_run \<Rightarrow> run_end + 'a) \<Rightarrow> run_end + 'a" where
  "named_run cn what prefix k =
     refuse (\<not> is_ok (cn_compilation cn)) ECompilation
       (case cn_history cn of
          None \<Rightarrow> Inl (RunError (EState (what @ '' requires a state store'')))
        | Some h \<Rightarrow>
            reading (resolve_run_id h prefix) (\<lambda>run_id.
            reading (hs_run h run_id) (\<lambda>found.
              (case found of
                 None \<Rightarrow> Inl (RunError (EInvalidPlan (''no run `'' @ prefix @ ''`'')))
               | Some stored \<Rightarrow> k h run_id stored))))"

definition wrong_environment :: "continuation \<Rightarrow> string \<Rightarrow> string \<Rightarrow> stored_run \<Rightarrow> engine_error" where
  "wrong_environment cn verb run_id stored =
     EInvalidPlan (''run '' @ short_id run_id @ '' targeted environment '' @
       cn_debug cn (rs_environment (sto_record stored)) @ ''; refusing to '' @ verb @ '' into '' @
       cn_debug cn (cn_environment cn))"

definition incompatible :: "string \<Rightarrow> string \<Rightarrow> string \<Rightarrow> engine_error" where
  "incompatible run_id kind name =
     EInvalidPlan (''run '' @ short_id run_id @ '' is incompatible with the workspace: '' @ kind @ '' `'' @
       name @ ''` no longer exists'')"

section \<open>Resuming\<close>

definition resumable :: "string \<Rightarrow> execution_status \<Rightarrow> engine_error option" where
  "resumable run_id st =
     (case st of
        Passed \<Rightarrow> Some (EInvalidPlan (''run '' @ short_id run_id @ '' already passed '' @ em_dash @ '' nothing to resume''))
      | Failed \<Rightarrow> Some (EInvalidPlan (''run '' @ short_id run_id @ '' already finished '' @ em_dash @
                          '' retry its failed work with `--retry-failed`''))
      | _ \<Rightarrow> None)"

fun models_present :: "compilation \<Rightarrow> string \<Rightarrow> stored_plan_model list \<Rightarrow> engine_error option" where
  "models_present c run_id [] = None"
| "models_present c run_id (m # ms) =
     (case model_id_parse (spm_id m) of
        Inl e \<Rightarrow> Some (EInvalidPlan (identity_error_text e))
      | Inr i \<Rightarrow>
          if compilation_model c i = None then Some (incompatible run_id ''model'' (spm_id m))
          else models_present c run_id ms)"

fun seeds_present :: "compilation \<Rightarrow> string \<Rightarrow> stored_plan_seed list \<Rightarrow> engine_error option" where
  "seeds_present c run_id [] = None"
| "seeds_present c run_id (s # ss) =
     (if find_seed c (sps_name s) = None then Some (incompatible run_id ''seed'' (sps_name s))
      else seeds_present c run_id ss)"

definition prior_of :: "model_run_record list \<Rightarrow> seed_run_record list \<Rightarrow> prior_run" where
  "prior_of models seeds =
     (map_of (rev (map (\<lambda>r. (mrr_model_id r, r)) models)), map_of (rev (map (\<lambda>r. (srr_name r, r)) seeds)))"

fun stored_ids :: "stored_plan_model list \<Rightarrow> engine_error + model_id list" where
  "stored_ids [] = Inr []"
| "stored_ids (m # ms) =
     (case model_id_parse (spm_id m) of
        Inl e \<Rightarrow> Inl (EInvalidPlan (identity_error_text e))
      | Inr i \<Rightarrow> (case stored_ids ms of Inl e \<Rightarrow> Inl e | Inr ids \<Rightarrow> Inr (i # ids)))"

definition fresh_plan :: "continuation \<Rightarrow> model_id list \<Rightarrow> (plan \<Rightarrow> run_end + 'a) \<Rightarrow> run_end + 'a" where
  "fresh_plan cn ids k =
     (case make_plan (cn_sha cn) (cn_plan_id cn) (cn_now cn) (cn_evidence cn) (cn_compilation cn)
             (selection_of (cn_compilation cn) ids) (cn_environment cn) False of
        None \<Rightarrow> Inl RunPanic
      | Some (Inl e) \<Rightarrow> Inl (RunError e)
      | Some (Inr p) \<Rightarrow> k p)"

definition provenance :: "prior_run \<Rightarrow> string \<Rightarrow> bool \<Rightarrow> string" where
  "provenance prior name reused =
     (if reused then ''passed earlier in this run at the same version '' @ em_dash @ '' reused''
      else (case fst prior name of
              Some r \<Rightarrow>
                if is_terminal (mrr_status r)
                then ''resumed run; previous status was '' @ status_label (mrr_status r)
                else ''resumed run; execution was interrupted''
            | None \<Rightarrow> ''resumed run; model never started''))"

text \<open>The stored versions are collected into maps, the last entry of a name deciding.\<close>

definition stored_desired :: "stored_plan \<Rightarrow> string \<rightharpoonup> string" where
  "stored_desired p = map_of (rev (map (\<lambda>m. (spm_id m, spm_desired_version m)) (spl_models p)))"

definition stored_seed_versions :: "stored_plan \<Rightarrow> string \<rightharpoonup> string" where
  "stored_seed_versions p = map_of (rev (map (\<lambda>s. (sps_name s, sps_desired_version s)) (spl_seeds p)))"

definition model_reused :: "prior_run \<Rightarrow> model_id \<Rightarrow> planned_model \<Rightarrow> bool" where
  "model_reused prior i m \<longleftrightarrow> pm_exists m \<and> reusable_model (fst prior) i (pm_desired_version m) \<noteq> None"

definition overlay_model :: "stored_plan \<Rightarrow> prior_run \<Rightarrow> planned_model \<Rightarrow> run_end + planned_model" where
  "overlay_model manifest prior m =
     (case model_id_parse (pm_id m) of
        Inl e \<Rightarrow> Inl (RunError (EInvalidPlan (identity_error_text e)))
      | Inr i \<Rightarrow>
          (let reused = model_reused prior i m;
               noted = m\<lparr>pm_reasons := reason_simple ResumedRun (provenance prior (pm_id m) reused) # pm_reasons m\<rparr>;
               moved = (case stored_desired manifest (pm_id m) of
                          Some v \<Rightarrow> v \<noteq> pm_desired_version m | None \<Rightarrow> False)
           in Inr (if reused then noted\<lparr>pm_action := Skip\<rparr>
                   else if moved then
                     noted\<lparr>pm_reasons := pm_reasons noted @
                       [reason_simple ResumedRun ''desired version changed since the original run'']\<rparr>
                   else noted)))"

definition reusable_seed :: "prior_run \<Rightarrow> string \<Rightarrow> string \<Rightarrow> string \<Rightarrow> bool" where
  "reusable_seed prior name stored_version current \<longleftrightarrow>
     stored_version = current \<and>
     (case snd prior name of Some r \<Rightarrow> srr_status r = Passed | None \<Rightarrow> False)"

definition seed_exists :: "continuation \<Rightarrow> planned_seed \<Rightarrow> adapter_error + bool" where
  "seed_exists cn s =
     (let c = cn_compilation cn; adapter = es_adapter (cn_evidence cn)
      in case find_seed c (ps_name s) of
           None \<Rightarrow> Inr False
         | Some seed \<Rightarrow>
             cn_relation_exists cn
               (seed_relation seed (wd_catalog (cp_defaults c)) (default_schema c adapter) adapter))"

definition overlay_seed :: "continuation \<Rightarrow> stored_plan \<Rightarrow> prior_run \<Rightarrow> planned_seed \<Rightarrow> run_end + planned_seed" where
  "overlay_seed cn manifest prior s =
     (case seed_exists cn s of
        Inl e \<Rightarrow> Inl (RunError (EAdapter e))
      | Inr present \<Rightarrow>
          Inr (if present \<and>
                  reusable_seed prior (ps_name s) (or_empty (stored_seed_versions manifest (ps_name s)))
                    (ps_desired_version s)
               then s\<lparr>ps_action := Skip,
                      ps_reasons := reason_simple ResumedRun (''loaded earlier in this run '' @ em_dash @ '' reused'')
                        # ps_reasons s\<rparr>
               else s))"

fun map_run :: "('a \<Rightarrow> run_end + 'b) \<Rightarrow> 'a list \<Rightarrow> run_end + 'b list" where
  "map_run f [] = Inr []"
| "map_run f (x # xs) = then_run (f x) (\<lambda>y. then_run (map_run f xs) (\<lambda>ys. Inr (y # ys)))"

text \<open>The plan of a resume: planned afresh, with earlier passes overlaid.\<close>

definition resume_plan ::
    "continuation \<Rightarrow> stored_run \<Rightarrow> stored_plan \<Rightarrow> prior_run \<Rightarrow> run_end + plan" where
  "resume_plan cn stored manifest prior =
     reading (stored_ids (spl_models manifest)) (\<lambda>ids.
     fresh_plan cn ids (\<lambda>p.
     then_run (map_run (overlay_model manifest prior) (pl_models p)) (\<lambda>models.
     then_run (map_run (overlay_seed cn manifest prior) (pl_seeds p)) (\<lambda>seeds.
     Inr (p\<lparr>pl_models := models, pl_seeds := seeds, pl_id := rs_plan_id (sto_record stored),
            pl_environment := rs_environment (sto_record stored),
            pl_selection := \<lparr>psel_terms = [''--resume '' @ short_id (rs_run_id (sto_record stored))],
              psel_exclude = [], psel_matched = [], psel_expanded = [], psel_required = []\<rparr>\<rparr>)))))"

definition predates :: "string \<Rightarrow> engine_error" where
  "predates run_id =
     EInvalidPlan (''run '' @ short_id run_id @
       '' predates resumable run state; rerun its failed work with `--retry-failed`'')"

text \<open>Everything \<open>resume\<close> settles before it executes: the run, the plan and the earlier records.\<close>

definition resume_run :: "continuation \<Rightarrow> string \<Rightarrow> run_end + (string \<times> plan \<times> prior_run)" where
  "resume_run cn prefix =
     named_run cn ''resume'' prefix (\<lambda>h run_id stored.
       (case sto_plan stored of
          None \<Rightarrow> Inl (RunError (predates run_id))
        | Some manifest \<Rightarrow>
            checked (resumable run_id (rs_status (sto_record stored)))
            (refuse (cn_environment cn \<noteq> rs_environment (sto_record stored))
              (wrong_environment cn ''resume'' run_id stored)
            (checked (models_present (cn_compilation cn) run_id (spl_models manifest))
            (checked (seeds_present (cn_compilation cn) run_id (spl_seeds manifest))
            (reading (hs_model_runs h run_id) (\<lambda>models.
             reading (hs_seed_runs h run_id) (\<lambda>seeds.
               let prior = prior_of models seeds
               in then_run (resume_plan cn stored manifest prior) (\<lambda>p. Inr (run_id, p, prior))))))))))"

text \<open>What the driver is then given; the rest of the inputs is what the run meets.\<close>

definition resume_inputs :: "run_inputs \<Rightarrow> string \<Rightarrow> plan \<Rightarrow> prior_run \<Rightarrow> run_inputs" where
  "resume_inputs ri run_id p prior =
     ri\<lparr>ri_context := (ri_context ri)\<lparr>rx_plan := p, rx_run_id := run_id, rx_prior_models := fst prior\<rparr>,
        ri_resume := True, ri_continued_from := Some run_id, ri_prior_seeds := snd prior\<rparr>"

section \<open>Retrying\<close>

definition unsatisfied_record :: "model_run_record \<Rightarrow> bool" where
  "unsatisfied_record r \<longleftrightarrow> mrr_status r \<in> {Failed, Blocked, Cancelled}"

definition failed_ids :: "model_run_record list \<Rightarrow> model_id list" where
  "failed_ids rs = parsed_ids (map mrr_model_id (filter unsatisfied_record rs))"

definition failed_tests_of :: "test_run_record list \<Rightarrow> string list" where
  "failed_tests_of rs = btree_set (map trr_test_id (filter (\<lambda>r. trr_status r = Failed) rs))"

definition push_missing :: "'a \<Rightarrow> 'a list \<Rightarrow> 'a list" where
  "push_missing x xs = (if x \<in> set xs then xs else xs @ [x])"

text \<open>The failed models and the targets of the failed tests.\<close>

definition retry_selection :: "compilation \<Rightarrow> model_id list \<Rightarrow> string list \<Rightarrow> model_id list" where
  "retry_selection c ids tests =
     fold (\<lambda>t acc. if tid_name (ct_id t) \<in> set tests then fold push_missing (ct_targets t) acc else acc)
       (cp_tests c) ids"

definition executable_ids :: "plan \<Rightarrow> string list" where
  "executable_ids p = map pm_id (filter (\<lambda>m. pm_action m = Build \<or> pm_action m = Cached) (pl_models p))"

definition retry_tests :: "plan \<Rightarrow> string list \<Rightarrow> planned_test list" where
  "retry_tests p failed =
     filter (\<lambda>t. pt_id t \<in> set failed \<or> list_ex (\<lambda>x. x \<in> set (executable_ids p)) (pt_targets t)) (pl_tests p)"

definition retry_run :: "continuation \<Rightarrow> string \<Rightarrow> run_end + (string \<times> plan)" where
  "retry_run cn prefix =
     named_run cn ''retry'' prefix (\<lambda>h run_id stored.
       let c = cn_compilation cn; run = ''run '' @ short_id run_id
       in refuse (rs_finished_at (sto_record stored) = None)
            (EInvalidPlan (run @ '' did not finish '' @ em_dash @ '' continue it with `--resume`''))
          (refuse (cn_environment cn \<noteq> rs_environment (sto_record stored))
            (wrong_environment cn ''retry'' run_id stored)
          (reading (hs_model_runs h run_id) (\<lambda>models.
           reading (hs_test_runs h run_id) (\<lambda>tests.
             let ids = failed_ids models; failed = failed_tests_of tests
             in refuse (ids = [] \<and> failed = []) (EInvalidPlan (run @ '' has no failed or blocked work to retry''))
                (checked (map_option (\<lambda>i. incompatible run_id ''model'' (logical_name i))
                            (find (\<lambda>i. compilation_model c i = None) ids))
                (checked (map_option (incompatible run_id ''test'')
                            (find (\<lambda>t. t \<notin> set (map (tid_name \<circ> ct_id) (cp_tests c))) failed))
                (fresh_plan cn (retry_selection c ids failed) (\<lambda>p.
                   let scoped = p\<lparr>pl_tests := retry_tests p failed\<rparr>
                   in refuse (executable_ids p = [] \<and> pl_tests scoped = [])
                        (EInvalidPlan (''the failed portion of '' @ run @ '' is already materialised '' @ em_dash @
                           '' nothing to retry''))
                        (Inr (run_id, scoped)))))))))))"

definition retry_inputs :: "run_inputs \<Rightarrow> string \<Rightarrow> string \<Rightarrow> plan \<Rightarrow> run_inputs" where
  "retry_inputs ri new_id run_id p =
     (fresh_inputs ri)\<lparr>ri_context := (ri_context (fresh_inputs ri))\<lparr>rx_plan := p, rx_run_id := new_id\<rparr>,
        ri_continued_from := Some run_id\<rparr>"

end
