(* ===== verification/Adoption.thy ===== *)
theory Adoption
  imports Resume
begin

text \<open>
  What the preparation of a run (\<^verbatim>\<open>run.rs\<close>, lines 1041-1137) records: the store entry of every model it
  adopts from another environment, as a function of the plan, the store and the live relations alone, and
  that nothing after the preparation writes such an entry before the end of the run.
\<close>

section \<open>The adoptions a plan asks for\<close>

text \<open>A planned model that passed in an earlier invocation of the run is carried over, not adopted.\<close>

definition carried_over :: "run_context \<Rightarrow> model_id \<Rightarrow> bool" where
  "carried_over cx i \<longleftrightarrow>
     (\<exists>p m. plan_info cx i = Some p \<and> pm_exists p \<and> compilation_model (rx_compilation cx) i = Some m \<and>
        reusable_model (rx_prior_models cx) i (mv_hash (cm_version m)) \<noteq> None)"

text \<open>The plan serves the model from evidence, and its relation still reports the identity of that evidence.\<close>

definition adopts :: "run_context \<Rightarrow> model_id \<Rightarrow> cache_source \<Rightarrow> bool" where
  "adopts cx i reuse \<longleftrightarrow>
     (\<exists>p. plan_info cx i = Some p \<and> pm_action p = Cached \<and> pm_reuse p = Some reuse) \<and>
     live_identity cx i = Some (cas_output_identity reuse) \<and> \<not> carried_over cx i"

definition adopted_record :: "run_context \<Rightarrow> compiled_model \<Rightarrow> cache_source \<Rightarrow> materialized_record" where
  "adopted_record cx m reuse =
     materialized_of cx m (logical_name (cm_id m)) (relation_display (cm_target m))
       (Some (cas_output_identity reuse)) (cas_run_id reuse) (cas_materialized_at reuse)"

definition adoptions :: "run_context \<Rightarrow> model_id \<Rightarrow> materialized_record set" where
  "adoptions cx i =
     {adopted_record cx m reuse | m reuse.
        rx_store cx \<noteq> None \<and> compilation_model (rx_compilation cx) i = Some m \<and> adopts cx i reuse}"

section \<open>Steps that write no such entry\<close>

lemma entries_simps [simp]:
  "sc_materialized (set_status i st s) = sc_materialized s" "sc_materialized (emit es s) = sc_materialized s"
  "sc_materialized (put_result i r s) = sc_materialized s"
  "sc_materialized (release_dependents cx i s) = sc_materialized s"
  "sc_materialized (extend_ready cx i s) = sc_materialized s"
  "sc_materialized (forget_task i s) = sc_materialized s" "sc_materialized (note_log log s) = sc_materialized s"
  "sc_materialized (fall_back cx i s) = sc_materialized s" "sc_materialized (queue_ready cx s) = sc_materialized s"
  by (simp_all add: set_status_def emit_def put_result_def release_dependents_def extend_ready_def
      forget_task_def note_log_def fall_back_def queue_ready_def split: option.split)

lemma entries_reuse [simp]: "sc_materialized (reuse_prior cx i s) = sc_materialized s"
  by (simp add: reuse_prior_def split: option.split)

lemma entries_persist: "persist_model cx r s = Inr s' \<Longrightarrow> sc_materialized s' = sc_materialized s"
  by (auto dest!: persist_model_Inr)

lemma entries_advance: "advance_watermark cx m s = Inr s' \<Longrightarrow> sc_materialized s' = sc_materialized s"
  by (auto dest!: advance_watermark_Inr)

lemma entries_block: "block_dependents cx i s = Inr s' \<Longrightarrow> sc_materialized s' = sc_materialized s"
proof -
  assume step: "block_dependents cx i s = Inr s'"
  obtain bl u where "block_list cx (map (Pair i) (dependents_of cx i)) s = (bl, u)" "persist_blocked cx bl u = Inr s'"
    using step by (auto simp: block_dependents_def split: prod.splits)
  then show ?thesis
    using blocksD(5) [OF block_list_blocks] persist_blocked_Inr by fastforce
qed

lemma entries_settle: "settle_as cx i action s = Inr s' \<Longrightarrow> sc_materialized s' = sc_materialized s"
  by (auto simp: settle_as_def Let_def then_run_Inr split: option.splits dest!: entries_persist)

lemma entries_seed: "block_seed_reader cx failed i s = Inr s' \<Longrightarrow> sc_materialized s' = sc_materialized s"
  by (auto simp: block_seed_reader_def Let_def then_run_Inr split: if_splits option.splits
      dest!: entries_persist entries_block)

lemma entries_start: "start_model cx i s = Inr s' \<Longrightarrow> sc_materialized s' = sc_materialized s"
  by (auto simp: start_model_def Let_def then_run_Inr split: option.splits dest!: persist_record_Inr)

lemma entries_fill: "fill_list cx ready s = Inr s' \<Longrightarrow> sc_materialized s' = sc_materialized s"
  by (induction cx ready s rule: fill_list.induct)
     (auto simp: then_run_Inr split: if_splits dest: entries_start)

lemma entries_join: "join_task cx log s = Inr s' \<Longrightarrow> sc_materialized s' = sc_materialized s"
  by (auto simp: join_task_def on_passed_def on_failed_def Let_def then_run_Inr
      split: option.splits sum.splits if_splits dest!: entries_persist entries_advance entries_block)

lemma entries_drain: "drain_task cx log s = Inr s' \<Longrightarrow> sc_materialized s' = sc_materialized s"
  by (auto simp: drain_task_def Let_def then_run_Inr
      split: option.splits sum.splits if_splits dest!: entries_persist entries_block)

lemma entries_step: "sched_step cx s (Inr s') \<Longrightarrow> sc_materialized s' = sc_materialized s"
proof (erule sched_step.cases, goal_cases)
  case (2 u)
  then show ?case using entries_fill [of cx "sc_ready s" s s'] by (simp add: fill_def)
next
  case (3 u t)
  then show ?case using entries_join [of cx "task_log_of cx t" s s'] by simp
next
  case (5 u t)
  then show ?case using entries_drain [of cx "task_log_of cx t" s s'] by simp
qed (simp_all add: forget_task_def)

lemma entries_reach: "sched_reach cx s t \<Longrightarrow> sc_materialized t = sc_materialized s"
  by (induction rule: sched_reach.induct) (simp_all add: entries_step)

lemma entries_sweep: "sweep cx s = Inr s' \<Longrightarrow> sc_materialized s' = sc_materialized s"
proof -
  assume sweep: "sweep cx s = Inr s'"
  have "sc_materialized u = sc_materialized t" if "sweep_model cx i t = Inr u" for i t u
    using that by (auto simp: sweep_model_def Let_def then_run_Inr split: if_splits option.splits
        dest!: entries_persist)
  then show ?thesis
    using sweep unfolding sweep_def
    by (auto elim: fold_run_invariant [where P = "\<lambda>t. sc_materialized t = sc_materialized s"])
qed

section \<open>The entries of the preparation\<close>

text \<open>Before a model is considered, its plan is the initial one and it is pending unless carried over.\<close>

definition untouched :: "run_context \<Rightarrow> model_id \<Rightarrow> sched \<Rightarrow> bool" where
  "untouched cx i s \<longleftrightarrow>
     sc_info s i = plan_info cx i \<and> (sc_status s i = Some Pending \<longleftrightarrow> \<not> carried_over cx i)"

lemma untouched_cong:
  "untouched cx i s \<Longrightarrow> sc_info t i = sc_info s i \<Longrightarrow> sc_status t i = sc_status s i \<Longrightarrow> untouched cx i t"
  by (simp add: untouched_def)

lemma reuse_prior_keeps:
  "sc_info (reuse_prior cx i s) = sc_info s"
  "j \<noteq> i \<Longrightarrow> sc_status (reuse_prior cx i s) j = sc_status s j"
  by (simp_all add: reuse_prior_def release_dependents_def put_result_def emit_def set_status_def split: option.split)

lemma reuse_prior_touches:
  assumes "sc_info s i = plan_info cx i" "sc_status s i = Some Pending"
  shows "untouched cx i (reuse_prior cx i s)"
  using assms
  by (auto simp: untouched_def carried_over_def reuse_prior_def planned_exists_def release_dependents_def
      put_result_def emit_def set_status_def split: option.split)

lemma reuse_fold:
  assumes "distinct xs" "\<forall>i. sc_info s i = plan_info cx i" "\<forall>i \<in> set xs. sc_status s i = Some Pending"
  shows "sc_materialized (fold (reuse_prior cx) xs s) = sc_materialized s"
    "i \<in> set xs \<Longrightarrow> untouched cx i (fold (reuse_prior cx) xs s)"
proof -
  have keep: "sc_info (fold (reuse_prior cx) ys t) = sc_info t \<and>
      sc_materialized (fold (reuse_prior cx) ys t) = sc_materialized t \<and>
      (\<forall>j. j \<notin> set ys \<longrightarrow> sc_status (fold (reuse_prior cx) ys t) j = sc_status t j)" for ys t
    by (induction ys arbitrary: t) (simp_all add: reuse_prior_keeps)
  then show "sc_materialized (fold (reuse_prior cx) xs s) = sc_materialized s" by blast
  show "i \<in> set xs \<Longrightarrow> untouched cx i (fold (reuse_prior cx) xs s)"
    using assms
  proof (induction xs arbitrary: s)
    case (Cons x xs)
    let ?t = "reuse_prior cx x s"
    show ?case
    proof (cases "i = x")
      case True
      have "untouched cx x ?t" using Cons.prems by (intro reuse_prior_touches) auto
      then have "untouched cx x (fold (reuse_prior cx) xs ?t)"
        using keep [of xs ?t] Cons.prems(2) by (auto intro: untouched_cong)
      then show ?thesis by (simp add: True)
    next
      case False
      have "\<forall>j \<in> set xs. sc_status ?t j = Some Pending"
      proof
        fix j assume j: "j \<in> set xs"
        with Cons.prems(2) have "j \<noteq> x" by auto
        then show "sc_status ?t j = Some Pending" using Cons.prems(4) j by (simp add: reuse_prior_keeps(2))
      qed
      then show ?thesis using Cons.IH [of ?t] Cons.prems False by (simp add: reuse_prior_keeps(1))
    qed
  qed simp
qed

lemma adopt_entries:
  assumes "adopt cx i s = Inr s'" "compilation_model (rx_compilation cx) i = Some m" "planned_reuse s i = Some reuse"
  shows "sc_materialized s' = sc_materialized s @ (if rx_store cx = None then [] else [adopted_record cx m reuse])"
proof -
  have "sc_materialized u = sc_materialized t" if "adopt_watermark cx st m reuse t = Inr u" for st t u
    using that by (auto simp: adopt_watermark_def split: if_splits sum.splits option.splits dest!: write_watermark_Inr)
  then show ?thesis
    using assms by (fastforce simp: adopt_def adopted_record_def Let_def split: option.splits)
qed

lemma settle_keeps:
  assumes "settle_as cx i action s = Inr s'"
  shows "sc_info s' = sc_info s" "j \<noteq> i \<Longrightarrow> sc_status s' j = sc_status s j"
  using assms
  by (auto simp: settle_as_def Let_def then_run_Inr release_dependents_def put_result_def emit_def set_status_def
      split: option.splits dest!: persist_model_Inr)

lemma skip_or_adopt_cases:
  assumes "skip_or_adopt cx i s = Inr s'"
  obtains "s' = s" | "s' = fall_back cx i s"
    | t where "adopt cx i s = Inr t" "settle_as cx i Cached t = Inr s'"
    | "settle_as cx i (planned_action s i) s = Inr s'"
proof (cases "sc_status s i \<noteq> Some Pending \<or> planned_action s i = Build \<or> planned_action s i = Unknown")
  case True
  then show ?thesis using assms that(1) by (simp add: skip_or_adopt_def)
next
  case False
  show ?thesis
  proof (cases "planned_action s i = Cached")
    case True
    show ?thesis
    proof (cases "adoptable cx s i")
      case stale: False
      then show ?thesis using assms False True that(2)
        by (simp add: skip_or_adopt_def)
    next
      case adoptable: True
      obtain t where "adopt cx i s = Inr t" "settle_as cx i Cached t = Inr s'"
        using assms False True adoptable by (cases "adopt cx i s") (simp_all add: skip_or_adopt_def then_run_def)
      then show ?thesis by (rule that(3))
    qed
  next
    case other: False
    then show ?thesis using assms False that(4) by (simp add: skip_or_adopt_def)
  qed
qed

lemma skip_or_adopt_keeps:
  assumes "skip_or_adopt cx i s = Inr s'" "j \<noteq> i"
  shows "sc_info s' j = sc_info s j \<and> sc_status s' j = sc_status s j"
proof -
  have stay: "sc_info (fall_back cx i s) j = sc_info s j" "sc_status (fall_back cx i s) = sc_status s"
    using assms(2) by (auto simp: fall_back_def split: option.split)
  have took: "sc_info t = sc_info s" "sc_status t = sc_status s" if "adopt cx i s = Inr t" for t
    using adopt_Inr [OF that] by auto
  show ?thesis
    using assms(1)
  proof (cases rule: skip_or_adopt_cases)
    case (3 t)
    then show ?thesis using took [OF 3(1)] settle_keeps(1) [OF 3(2)] settle_keeps(2) [OF 3(2) assms(2)] by simp
  next
    case 4
    then show ?thesis using settle_keeps(1) [OF 4] settle_keeps(2) [OF 4 assms(2)] by simp
  qed (simp_all add: stay)
qed

lemma skip_or_adopt_entries:
  assumes "skip_or_adopt cx i s = Inr s'" "untouched cx i s" "\<exists>m. compilation_model (rx_compilation cx) i = Some m"
  shows "set (sc_materialized s') = set (sc_materialized s) \<union> adoptions cx i"
proof -
  obtain m where m: "compilation_model (rx_compilation cx) i = Some m" using assms(3) by blast
  have info: "sc_info s i = plan_info cx i" and status: "sc_status s i = Some Pending \<longleftrightarrow> \<not> carried_over cx i"
    using assms(2) by (simp_all add: untouched_def)
  have acts: "planned_action s i = Cached \<longleftrightarrow> (\<exists>p. plan_info cx i = Some p \<and> pm_action p = Cached)"
    by (simp add: planned_action_def info split: option.split)
  have due: "adopts cx i reuse \<longleftrightarrow> planned_action s i = Cached \<and> planned_reuse s i = Some reuse \<and>
      live_identity cx i = Some (cas_output_identity reuse) \<and> sc_status s i = Some Pending" for reuse
    by (cases "plan_info cx i") (auto simp: adopts_def acts status planned_reuse_def info)
  show ?thesis
  proof (cases "sc_status s i = Some Pending \<and> planned_action s i = Cached \<and> adoptable cx s i")
    case True
    then obtain reuse where reuse: "planned_reuse s i = Some reuse" "live_identity cx i = Some (cas_output_identity reuse)"
      by (auto simp: adoptable_def split: option.splits)
    obtain t where t: "adopt cx i s = Inr t" "settle_as cx i Cached t = Inr s'"
      using assms(1) True by (auto simp: skip_or_adopt_def Let_def then_run_Inr)
    have "adoptions cx i = (if rx_store cx = None then {} else {adopted_record cx m reuse})"
      using True reuse m by (auto simp: adoptions_def due)
    then show ?thesis
      using adopt_entries [OF t(1) m reuse(1)] entries_settle [OF t(2)] by auto
  next
    case False
    then have "adoptions cx i = {}" by (auto simp: adoptions_def due adoptable_def)
    moreover have "sc_materialized s' = sc_materialized s"
      using False assms(1) entries_settle by (auto simp: skip_or_adopt_def Let_def split: if_splits)
    ultimately show ?thesis by simp
  qed
qed

lemma skip_fold_entries:
  assumes "fold_run (skip_or_adopt cx) xs s = Inr s'" "distinct xs" "\<forall>i \<in> set xs. untouched cx i s"
    "\<forall>i \<in> set xs. \<exists>m. compilation_model (rx_compilation cx) i = Some m"
  shows "set (sc_materialized s') = set (sc_materialized s) \<union> (\<Union>i \<in> set xs. adoptions cx i)"
  using assms
proof (induction xs arbitrary: s)
  case (Cons x xs)
  then obtain t where t: "skip_or_adopt cx x s = Inr t" "fold_run (skip_or_adopt cx) xs t = Inr s'"
    by (auto simp: then_run_Inr)
  have here: "set (sc_materialized t) = set (sc_materialized s) \<union> adoptions cx x"
    by (rule skip_or_adopt_entries [OF t(1)]) (use Cons.prems in auto)
  have "\<forall>i \<in> set xs. untouched cx i t"
  proof
    fix i assume i: "i \<in> set xs"
    with Cons.prems(2) have "i \<noteq> x" by auto
    then show "untouched cx i t"
      using skip_or_adopt_keeps [OF t(1)] Cons.prems(3) i by (auto intro: untouched_cong)
  qed
  with Cons.IH [OF t(2)] Cons.prems show ?case by (simp add: here Un_assoc)
qed simp

text \<open>The preparation leaves exactly the entries of the adoptions the plan asks for.\<close>

lemma prepare_entries:
  assumes wf: "wf_context cx"
    and step: "prepare cx failed (initial_sched cx cancelled fail_fast events) = Inr pre"
  shows "set (sc_materialized pre) = (\<Union>i \<in> set (planned_ids cx). adoptions cx i)"
proof -
  let ?s = "initial_sched cx cancelled fail_fast events"
  let ?r = "fold (reuse_prior cx) (planned_ids cx) ?s"
  have ids: "distinct (planned_ids cx)" "\<forall>i \<in> set (planned_ids cx). \<exists>m. compilation_model (rx_compilation cx) i = Some m"
    using wf wf_model [OF wf] by (auto simp: wf_context_def)
  have fresh: "\<forall>i. sc_info ?s i = plan_info cx i" "\<forall>i \<in> set (planned_ids cx). sc_status ?s i = Some Pending"
    "sc_materialized ?s = []"
    by (simp_all add: initial_sched_def map_of_const)
  obtain t u where t: "fold_run (skip_or_adopt cx) (planned_ids cx) ?r = Inr t"
    and u: "u = t \<or> fold_run (block_seed_reader cx failed) (planned_ids cx) t = Inr u" and pre: "pre = queue_ready cx u"
    using step by (auto simp: prepare_def then_run_Inr split: if_splits)
  have "sc_materialized u = sc_materialized t"
    using u by (auto elim!: fold_run_invariant [where P = "\<lambda>v. sc_materialized v = sc_materialized t"] dest: entries_seed)
  moreover have "set (sc_materialized t) = set (sc_materialized ?r) \<union> (\<Union>i \<in> set (planned_ids cx). adoptions cx i)"
    by (rule skip_fold_entries [OF t ids(1) _ ids(2)]) (use reuse_fold(2) [OF ids(1) fresh(1,2)] in blast)
  moreover have "sc_materialized ?r = []" using reuse_fold(1) [OF ids(1) fresh(1,2)] fresh(3) by simp
  ultimately show ?thesis by (simp add: pre)
qed

end
