(* ===== verification/RunFacts.thy ===== *)
theory RunFacts
  imports Adoption
begin

text \<open>
  What a finished run guarantees: its results speak of the models they are filed under, what is recorded
  as materialised is what this run built and what is still there, and a run that reports success left
  every planned model and seed satisfied.
\<close>

section \<open>Results speak of their models\<close>

definition faithful :: "run_context \<Rightarrow> model_id \<Rightarrow> model_result \<Rightarrow> bool" where
  "faithful cx i r \<longleftrightarrow>
     (\<exists>m. compilation_model (rx_compilation cx) i = Some m \<and> mres_model r = logical_name (cm_id m) \<and>
        mres_target r = relation_display (cm_target m) \<and>
        (mres_status r = Passed \<longrightarrow> mres_output_identity r = rx_identity_built cx (cm_target m)))"

definition honest :: "run_context \<Rightarrow> sched \<Rightarrow> bool" where
  "honest cx s \<longleftrightarrow> (\<forall>(i, r) \<in> set (sc_results s). faithful cx i r)"

lemma set_bm_insert: "set (bm_insert k v xs) \<subseteq> insert (k, v) (set xs)"
  by (induction k v xs rule: bm_insert.induct) auto

lemma honest_put: "honest cx s \<Longrightarrow> faithful cx i r \<Longrightarrow> honest cx (put_result i r s)"
  using set_bm_insert [of i r "sc_results s"] by (auto simp: honest_def put_result_def)

lemma honest_cong: "honest cx s \<Longrightarrow> sc_results s' = sc_results s \<Longrightarrow> honest cx s'"
  by (simp add: honest_def)

lemma model_result_fields [simp]:
  "mres_model (model_result_of sha m st as a b d info) = logical_name (cm_id m)"
  "mres_target (model_result_of sha m st as a b d info) = relation_display (cm_target m)"
  by (simp_all add: model_result_of_def split: prod.splits)

lemma faithful_results:
  assumes "compilation_model (rx_compilation cx) i = Some m"
  shows "st \<noteq> Passed \<Longrightarrow> faithful cx i (idle_result cx s m i st)"
    "faithful cx i (with_failure f r) = faithful cx i r"
    "faithful cx i (add_reason t r) = faithful cx i r"
    "faithful cx i (passed_result cx s m co q)"
    "faithful cx i (failed_result cx s m co f)"
    "faithful cx i (settled_result cx s m i action)"
  using assms
  by (auto simp: faithful_def idle_result_def with_failure_def add_reason_def passed_result_def
      failed_result_def ran_result_def settled_result_def Let_def split: option.split)

lemma results_simps [simp]:
  "sc_results (set_status i st s) = sc_results s" "sc_results (emit es s) = sc_results s"
  "sc_results (release_dependents cx i s) = sc_results s" "sc_results (extend_ready cx i s) = sc_results s"
  "sc_results (forget_task i s) = sc_results s" "sc_results (note_log log s) = sc_results s"
  "sc_results (fall_back cx i s) = sc_results s"
  by (simp_all add: set_status_def emit_def release_dependents_def extend_ready_def forget_task_def
      note_log_def fall_back_def split: option.split)

lemma honest_simps [simp]:
  "honest cx (set_status i st s) = honest cx s" "honest cx (emit es s) = honest cx s"
  "honest cx (release_dependents cx' i s) = honest cx s" "honest cx (extend_ready cx' i s) = honest cx s"
  "honest cx (forget_task i s) = honest cx s" "honest cx (note_log log s) = honest cx s"
  "honest cx (fall_back cx' i s) = honest cx s" "honest cx (s\<lparr>sc_ready := ready\<rparr>) = honest cx s"
  "honest cx (s\<lparr>sc_running := running\<rparr>) = honest cx s" "honest cx (s\<lparr>sc_cancelled := c\<rparr>) = honest cx s"
  "honest cx (s\<lparr>sc_fail_fast := c\<rparr>) = honest cx s" "honest cx (s\<lparr>sc_writes := ws\<rparr>) = honest cx s"
  "honest cx (s\<lparr>sc_watermarks := wm\<rparr>) = honest cx s" "honest cx (s\<lparr>sc_materialized := ms\<rparr>) = honest cx s"
  by (simp_all add: honest_def)

lemma honest_persist: "persist_model cx' r s = Inr s' \<Longrightarrow> honest cx s' = honest cx s"
  by (auto dest!: persist_model_Inr)

lemma honest_block_list: "block_list cx work s = (bl, s') \<Longrightarrow> honest cx s \<Longrightarrow> honest cx s'"
proof (induction cx work s arbitrary: bl s' rule: block_list.induct)
  case (1 cx s)
  then show ?case by simp
next
  case (2 cx cause child rest s)
  have "honest cx (mark_blocked cx cause child s)"
    using "2.prems"(2)
    by (auto simp: mark_blocked_def Let_def faithful_results intro!: honest_put split: option.split)
  with 2 show ?case by (auto split: if_splits prod.splits)
qed

lemma honest_block: "block_dependents cx i s = Inr s' \<Longrightarrow> honest cx s \<Longrightarrow> honest cx s'"
  by (erule block_dependents_Inr) (auto dest: honest_block_list elim: honest_cong)

section \<open>Every phase keeps them so\<close>

lemma honest_reuse: "honest cx s \<Longrightarrow> honest cx (reuse_prior cx i s)"
  by (auto simp: reuse_prior_def faithful_results intro!: honest_put split: option.split)

lemma honest_settle: "settle_as cx i action s = Inr s' \<Longrightarrow> honest cx s \<Longrightarrow> honest cx s'"
  by (auto simp: settle_as_def Let_def then_run_Inr faithful_results honest_persist
      intro!: honest_put split: option.splits)

lemma honest_skip:
  assumes "skip_or_adopt cx i s = Inr s'" "honest cx s"
  shows "honest cx s'"
proof -
  have "honest cx t" if "adopt cx i s = Inr t" for t
    using adopt_Inr [OF that] assms(2) by auto
  then show ?thesis
    using assms by (auto simp: skip_or_adopt_def Let_def then_run_Inr split: if_splits intro: honest_settle)
qed

lemma honest_seed:
  assumes "block_seed_reader cx failed i s = Inr s'" "honest cx s"
  shows "honest cx s'"
proof (cases "s' = s")
  case False
  then obtain m s1 where m: "compilation_model (rx_compilation cx) i = Some m"
    and s1: "persist_model cx (with_failure (without_attempt (rx_clock cx i) DependencyFailure
        ''blocked by a failed seed load'') (idle_result cx s m i Blocked))
        (emit [finished_event i Blocked] (set_status i Blocked s)) = Inr s1"
    and step: "block_dependents cx i (put_result i (with_failure (without_attempt (rx_clock cx i)
        DependencyFailure ''blocked by a failed seed load'') (idle_result cx s m i Blocked)) s1) = Inr s'"
    using assms(1)
    by (auto simp: block_seed_reader_def Let_def then_run_Inr split: if_splits option.splits)
  show ?thesis
    by (rule honest_block [OF step honest_put])
       (simp_all add: honest_persist [OF s1] assms(2) faithful_results [OF m])
qed (use assms(2) in simp)

lemma honest_prepare:
  assumes step: "prepare cx failed s = Inr pre" and start: "honest cx s"
  shows "honest cx pre"
proof -
  have "honest cx (fold (reuse_prior cx) (planned_ids cx) s)"
    by (rule fold_invariant_list [where P = "honest cx"]) (simp_all add: start honest_reuse)
  then show ?thesis
    using step
    by (auto simp: prepare_def then_run_Inr queue_ready_def split: if_splits
        elim!: fold_run_invariant [where P = "honest cx"] intro: honest_skip honest_seed)
qed

lemma honest_start: "start_model cx i s = Inr s' \<Longrightarrow> honest cx s \<Longrightarrow> honest cx s'"
  by (auto simp: start_model_def Let_def then_run_Inr split: option.splits dest!: persist_record_Inr)

lemma honest_fill: "fill_list cx ready s = Inr s' \<Longrightarrow> honest cx s \<Longrightarrow> honest cx s'"
  by (induction cx ready s rule: fill_list.induct)
     (auto simp: then_run_Inr split: if_splits dest: honest_start)

lemma honest_passed:
  "on_passed cx m co q s = Inr s' \<Longrightarrow> compilation_model (rx_compilation cx) (co_id co) = Some m \<Longrightarrow>
     honest cx s \<Longrightarrow> honest cx s'"
  by (auto simp: on_passed_def Let_def then_run_Inr faithful_results honest_persist
      dest!: advance_watermark_Inr intro!: honest_put)

lemma honest_failed:
  assumes step: "on_failed cx m co f s = Inr s'"
    and m: "compilation_model (rx_compilation cx) (co_id co) = Some m" and start: "honest cx s"
  shows "honest cx s'"
proof -
  obtain s1 where s1: "honest cx s1"
    and next_state: "then_run (block_dependents cx (co_id co) (put_result (co_id co) (failed_result cx s m co f) s1
          \<lparr>sc_fail_fast := True\<rparr>)) (\<lambda>s3. Inr (s3\<lparr>sc_ready := []\<rparr>)) = Inr s' \<or>
        block_dependents cx (co_id co) (put_result (co_id co) (failed_result cx s m co f) s1) = Inr s'"
    using step start
    by (auto simp: on_failed_def Let_def then_run_Inr split: if_splits dest!: honest_persist)
  have put: "honest cx (put_result (co_id co) (failed_result cx s m co f) s1)"
    by (rule honest_put [OF s1]) (simp add: faithful_results [OF m])
  from next_state show ?thesis
  proof
    assume "block_dependents cx (co_id co) (put_result (co_id co) (failed_result cx s m co f) s1) = Inr s'"
    then show ?thesis using put by (rule honest_block)
  next
    assume "then_run (block_dependents cx (co_id co) (put_result (co_id co) (failed_result cx s m co f) s1
          \<lparr>sc_fail_fast := True\<rparr>)) (\<lambda>s3. Inr (s3\<lparr>sc_ready := []\<rparr>)) = Inr s'"
    then obtain s3 where "block_dependents cx (co_id co) (put_result (co_id co) (failed_result cx s m co f) s1
          \<lparr>sc_fail_fast := True\<rparr>) = Inr s3" "s' = s3\<lparr>sc_ready := []\<rparr>"
      by (auto simp: then_run_Inr)
    then show ?thesis using honest_block put by fastforce
  qed
qed

lemma honest_join: "join_task cx log s = Inr s' \<Longrightarrow> honest cx s \<Longrightarrow> honest cx s'"
  by (auto simp: join_task_def Let_def split: option.splits sum.splits intro: honest_passed honest_failed)

lemma honest_drain:
  assumes step: "drain_task cx log s = Inr s'" and start: "honest cx s"
  shows "honest cx s'"
proof -
  let ?co = "lg_completion log" and ?i = "co_id (lg_completion log)"
  let ?s1 = "forget_task ?i (note_log log s)"
  show ?thesis
  proof (cases "settled (sc_status ?s1) ?i")
    case True
    then show ?thesis using step start by (auto simp: drain_task_def Let_def split: option.splits)
  next
    case False
    then obtain r s2 where r: "faithful cx ?i r" and s2: "honest cx s2"
      and next_state: "s' = release_dependents cx ?i (put_result ?i r s2) \<or>
          block_dependents cx ?i (put_result ?i r s2) = Inr s'"
      using step start
      by (auto simp: drain_task_def Let_def then_run_Inr
          split: option.splits sum.splits dest!: honest_persist)
         (blast intro: faithful_results(4,5))+
    show ?thesis using next_state honest_block honest_put [OF s2 r] by auto
  qed
qed

lemma honest_step:
  assumes "sched_step cx s (Inr s')" "honest cx s"
  shows "honest cx s'"
  using assms(1)
proof (cases rule: sched_step.cases)
  case Fill
  then show ?thesis using assms(2) honest_fill unfolding fill_def by metis
next
  case (Join t)
  then show ?thesis using assms(2) honest_join by metis
next
  case (Drain t)
  then show ?thesis using assms(2) honest_drain by metis
qed (use assms(2) in auto)

lemma honest_reach: "sched_reach cx s t \<Longrightarrow> honest cx s \<Longrightarrow> honest cx t"
  by (induction rule: sched_reach.induct) (auto intro: honest_step)

lemma honest_sweep:
  assumes "sweep cx s = Inr s'" "honest cx s"
  shows "honest cx s'"
proof -
  have "honest cx t'" if "sweep_model cx i t = Inr t'" "honest cx t" for i t t'
    using that by (auto simp: sweep_model_def swept_status_def Let_def then_run_Inr faithful_results
        honest_persist intro!: honest_put split: if_splits option.splits)
  then show ?thesis
    using assms unfolding sweep_def by (auto elim: fold_run_invariant [where P = "honest cx"])
qed

section \<open>The flags of a run\<close>

definition flags :: "sched \<Rightarrow> bool \<times> bool" where
  "flags s = (sc_cancelled s, sc_fail_fast s)"

lemma flags_simps [simp]:
  "flags (set_status i st s) = flags s" "flags (emit es s) = flags s" "flags (put_result i r s) = flags s"
  "flags (release_dependents cx i s) = flags s" "flags (extend_ready cx i s) = flags s"
  "flags (forget_task i s) = flags s" "flags (note_log log s) = flags s" "flags (fall_back cx i s) = flags s"
  "flags (s\<lparr>sc_ready := ready\<rparr>) = flags s" "flags (s\<lparr>sc_running := running\<rparr>) = flags s"
  "flags (s\<lparr>sc_writes := ws\<rparr>) = flags s" "flags (s\<lparr>sc_watermarks := wm\<rparr>) = flags s"
  "flags (s\<lparr>sc_materialized := ms\<rparr>) = flags s"
  by (simp_all add: flags_def set_status_def emit_def put_result_def release_dependents_def extend_ready_def
      forget_task_def note_log_def fall_back_core)

lemma reuse_flags [simp]: "flags (reuse_prior cx i s) = flags s"
  by (auto simp: reuse_prior_def split: option.split)

lemma persist_flags:
  "persist_model cx r s = Inr s' \<Longrightarrow> flags s' = flags s"
  by (auto dest!: persist_model_Inr)

lemma block_flags:
  "block_dependents cx i s = Inr s' \<Longrightarrow> flags s' = flags s"
  by (erule block_dependents_Inr) (auto simp: core_def flags_def)

lemma settle_flags:
  "settle_as cx i action s = Inr s' \<Longrightarrow> flags s' = flags s"
  by (auto simp: settle_as_def Let_def then_run_Inr split: option.splits dest!: persist_flags)

lemma skip_flags:
  "skip_or_adopt cx i s = Inr s' \<Longrightarrow> flags s' = flags s"
  by (auto simp: skip_or_adopt_def Let_def then_run_Inr split: if_splits
      dest!: settle_flags adopt_Inr)

lemma seed_flags:
  "block_seed_reader cx failed i s = Inr s' \<Longrightarrow> flags s' = flags s"
  by (auto simp: block_seed_reader_def Let_def then_run_Inr split: if_splits option.splits
      dest!: persist_flags block_flags)

lemma prepare_flags:
  assumes "prepare cx failed s = Inr pre"
  shows "flags pre = flags s"
proof -
  let ?P = "\<lambda>t. flags t = flags s"
  have start: "?P (fold (reuse_prior cx) (planned_ids cx) s)"
    by (rule fold_invariant_list [where P = ?P]) simp_all
  obtain t u where t: "fold_run (skip_or_adopt cx) (planned_ids cx) (fold (reuse_prior cx) (planned_ids cx) s) = Inr t"
    and u: "u = t \<or> fold_run (block_seed_reader cx failed) (planned_ids cx) t = Inr u"
    and pre: "pre = queue_ready cx u"
    using assms by (auto simp: prepare_def then_run_Inr split: if_splits)
  have "?P t" using t start by (rule fold_run_invariant [where P = ?P]) (simp add: skip_flags)
  then have "?P u" using u by (auto elim!: fold_run_invariant [where P = ?P] simp: seed_flags)
  then show ?thesis by (simp add: pre queue_ready_def)
qed

lemma fill_flags: "fill_list cx ready s = Inr s' \<Longrightarrow> flags s' = flags s"
proof (induction cx ready s rule: fill_list.induct)
  case (2 cx i rest s)
  have "flags t = flags s" if "start_model cx i s = Inr t" for t
    using that by (auto simp: start_model_def Let_def then_run_Inr split: option.splits dest!: persist_record_Inr)
  with 2 show ?case by (auto simp: then_run_Inr split: if_splits)
qed auto

lemma on_failed_status:
  assumes "on_failed cx m co f s = Inr s'"
  shows "sc_status s' (co_id co) = Some Failed" "sc_cancelled s' = sc_cancelled s"
proof -
  obtain s1 t where s1: "sc_status s1 = (sc_status s)(co_id co \<mapsto> Failed)" "sc_cancelled s1 = sc_cancelled s"
    and t: "block_dependents cx (co_id co) s1 = Inr t" "sc_status s' = sc_status t" "sc_cancelled s' = sc_cancelled t"
  proof -
    let ?r = "failed_result cx s m co f"
    obtain u where u: "persist_model cx ?r
        (emit [ModelFinished (logical_name (co_id co)) Failed None (co_duration_ms co)]
          (set_status (co_id co) Failed s)) = Inr u"
      and rest: "if rx_fail_fast cx
         then then_run (block_dependents cx (co_id co) ((put_result (co_id co) ?r u)\<lparr>sc_fail_fast := True\<rparr>))
                (\<lambda>s3. Inr (s3\<lparr>sc_ready := []\<rparr>)) = Inr s'
         else block_dependents cx (co_id co) (put_result (co_id co) ?r u) = Inr s'"
      using assms by (auto simp: on_failed_def Let_def then_run_Inr split: if_splits)
    have st: "sc_status u = (sc_status s)(co_id co \<mapsto> Failed)" "sc_cancelled u = sc_cancelled s"
      using persist_core [OF u] by (simp_all add: set_status_def emit_def core_def)
    show thesis
    proof (cases "rx_fail_fast cx")
      case True
      with rest obtain t where "block_dependents cx (co_id co) ((put_result (co_id co) ?r u)\<lparr>sc_fail_fast := True\<rparr>) = Inr t"
        "s' = t\<lparr>sc_ready := []\<rparr>" by (auto simp: then_run_Inr)
      then show ?thesis by (intro that [of "(put_result (co_id co) ?r u)\<lparr>sc_fail_fast := True\<rparr>" t])
          (simp_all add: st put_result_def)
    next
      case False
      with rest show ?thesis by (intro that [of "put_result (co_id co) ?r u" s']) (simp_all add: st put_result_def)
    qed
  qed
  obtain bl u where u: "sc_status t = sc_status u" "blocks cx (map (Pair (co_id co)) (dependents_of cx (co_id co))) s1 bl u"
    by (rule block_dependents_Inr [OF t(1)])
  have "co_id co \<notin> set bl"
    using blocksD(1) [OF u(2), of "co_id co"] u(2) s1(1)
    by (auto simp: blocks_def settled_def status_or_default_def)
  then show "sc_status s' (co_id co) = Some Failed"
    using u(2) by (auto simp: t(2) u(1) s1(1) blocks_def)
  show "sc_cancelled s' = sc_cancelled s" using block_flags [OF t(1)] t(3) s1(2) by (simp add: flags_def)
qed

lemma step_flags:
  assumes "sched_step cx s (Inr s')"
  shows "sc_cancelled s \<longrightarrow> sc_cancelled s'"
    "sc_fail_fast s' \<Longrightarrow> sc_fail_fast s \<or> (\<exists>i. sc_status s' i = Some Failed)"
proof -
  have "(sc_cancelled s \<longrightarrow> sc_cancelled s') \<and>
      (sc_fail_fast s' \<longrightarrow> sc_fail_fast s \<or> (\<exists>i. sc_status s' i = Some Failed))"
    using assms
  proof (cases rule: sched_step.cases)
    case Fill
    then have "flags s' = flags s" using fill_flags [of cx "sc_ready s" s s'] by (simp add: fill_def)
    then show ?thesis by (simp add: flags_def)
  next
    case (Join t)
    let ?s = "forget_task (co_id (lg_completion (task_log_of cx t))) (note_log (task_log_of cx t) s)"
    have same: "flags ?s = flags s" by simp
    from Join(1) consider m co q where "on_passed cx m co q ?s = Inr s'" | m co f where "on_failed cx m co f ?s = Inr s'"
      by (auto simp: join_task_def Let_def split: option.splits sum.splits)
    then show ?thesis
    proof cases
      case 1
      then have "flags s' = flags ?s"
        by (auto simp: on_passed_def Let_def then_run_Inr dest!: persist_flags advance_watermark_Inr)
      then show ?thesis using same by (simp add: flags_def)
    next
      case 2
      then show ?thesis using on_failed_status [OF 2] same by (auto simp: flags_def)
    qed
  next
    case (Drain t)
    from Drain(1) [symmetric] have "flags s' = flags s"
      by (auto simp: drain_task_def Let_def then_run_Inr
          split: option.splits sum.splits if_splits dest!: persist_flags block_flags)
    then show ?thesis by (simp add: flags_def)
  qed (auto simp: forget_task_def)
  then show "sc_cancelled s \<longrightarrow> sc_cancelled s'"
    "sc_fail_fast s' \<Longrightarrow> sc_fail_fast s \<or> (\<exists>i. sc_status s' i = Some Failed)" by blast+
qed
lemma reach_flags:
  assumes wf: "wf_context cx" and inv: "loop_inv cx pre (sc_ready pre) pre" and reach: "sched_reach cx pre s"
  shows "sc_cancelled pre \<longrightarrow> sc_cancelled s"
    "sc_fail_fast s \<longrightarrow> sc_fail_fast pre \<or> (\<exists>i. sc_status s i = Some Failed)"
proof -
  have "(sc_cancelled pre \<longrightarrow> sc_cancelled s) \<and>
      (sc_fail_fast s \<longrightarrow> sc_fail_fast pre \<or> (\<exists>i. sc_status s i = Some Failed))"
    using reach inv
  proof (induction rule: sched_reach.induct)
    case (Step s t u)
    have t: "loop_inv cx s (sc_ready t) t"
      using sched_reach_inv [OF wf Step.hyps(1) Step.prems] .
    have keep: "sc_status u i = Some Failed" if "sc_status t i = Some Failed" for i
      using step_keeps_settled [OF wf Step.hyps(2) t] that by (simp add: settled_def status_or_default_def)
    show ?case using step_flags [OF Step.hyps(2)] Step.IH [OF Step.prems] keep by blast
  qed simp
  then show "sc_cancelled pre \<longrightarrow> sc_cancelled s"
    "sc_fail_fast s \<longrightarrow> sc_fail_fast pre \<or> (\<exists>i. sc_status s i = Some Failed)" by blast+
qed

section \<open>The end of a run\<close>

lemma sweep_results:
  assumes "sweep cx s = Inr s'" "res_ok (sc_results s) (sc_status s)" "wf_context cx"
  shows "res_ok (sc_results s') (sc_status s')" "flags s' = flags s"
proof -
  let ?P = "\<lambda>t. res_ok (sc_results t) (sc_status t) \<and> flags t = flags s"
  have "?P t'" if i: "i \<in> set (planned_ids cx)" and t: "?P t" and step: "sweep_model cx i t = Inr t'" for i t t'
  proof (cases "settled (sc_status t) i")
    case True
    then show ?thesis using t step by (simp add: sweep_model_def)
  next
    case False
    obtain m where m: "compilation_model (rx_compilation cx) i = Some m" using wf_model [OF assms(3) i] by blast
    let ?r = "with_failure (swept_failure cx t i) (idle_result cx t m i (swept_status t))"
    obtain t2 where t2: "persist_model cx ?r (emit [finished_event i (swept_status t)] (set_status i (swept_status t) t)) = Inr t2"
      "t' = put_result i ?r t2"
      using step False m by (auto simp: sweep_model_def Let_def then_run_Inr)
    note p = persist_core [OF t2(1)] and f = persist_flags [OF t2(1)]
    have r: "mres_status ?r = swept_status t" "is_terminal (swept_status t)" by (simp_all add: swept_status_def)
    have eq: "sc_results t' = bm_insert i ?r (sc_results t)" "sc_status t' = (sc_status t)(i \<mapsto> swept_status t)"
      using p by (simp_all add: t2(2) put_result_def set_status_def emit_def)
    have "res_ok (sc_results t') (sc_status t')"
      unfolding eq by (rule res_ok_put [OF _ r]) (use t in blast)
    moreover have "flags t' = flags t" using f by (simp add: t2(2))
    ultimately show ?thesis using t by simp
  qed
  note step = this
  have start: "?P s" using assms(2) by blast
  have "?P s'"
    by (rule fold_run_invariant [where P = ?P, OF assms(1) [unfolded sweep_def] start]) (rule step)
  then show "res_ok (sc_results s') (sc_status s')" "flags s' = flags s" by blast+
qed

lemma case_sum_Inr:
  "(case r of Inl e \<Rightarrow> Inl (f e) | Inr a \<Rightarrow> g a) = Inr b \<longleftrightarrow> (\<exists>a. r = Inr a \<and> g a = Inr b)"
  by (cases r) simp_all

lemma finish_Inr:
  assumes "finish ri sd s tests events = Inr out"
  shows "record_run ri (map shared_warning (shared_targets (ri_context ri))) (sc_results s) (sd_results sd)
      = Inr (ro_records out)"
    "ro_sched out = s" "rres_tests (ro_result out) = tests" "rres_seeds (ro_result out) = sd_results sd"
    "rres_status (ro_result out) =
       run_status (sc_cancelled s) (result_statuses (sc_results s) (sd_results sd) tests)"
    "rres_counts (ro_result out) = run_counts_of (result_statuses (sc_results s) (sd_results sd) tests)"
    "rres_models (ro_result out) = model_results (ri_context ri) (sc_results s)"
  using assms by (auto simp: finish_def Let_def then_run_Inr checked_def split: option.splits)

text \<open>What \<open>executed\<close> went through when it ended with an outcome.\<close>

lemma executed_Inr:
  assumes run: "executed ri (Inr out)" and wf: "wf_context (ri_context ri)"
  obtains sd pre s events where
    "load_seeds ri = Inr sd"
    "prepare (ri_context ri) (failed_seed_targets sd)
       (initial_sched (ri_context ri) (sd_cancelled sd) (sd_fail_fast sd) (run_started ri # sd_events sd)) = Inr pre"
    "sched_reach (ri_context ri) pre s" "loop_done s" "sweep (ri_context ri) s = Inr (ro_sched out)"
    "run_tests (rx_store (ri_context ri)) (rx_run_id (ri_context ri)) (ri_run_tests ri) (ri_compilation ri)
       (rx_adapter (ri_context ri)) (ri_plan ri) (sc_status (ro_sched out)) (failed_seed_targets sd)
       (stopped (ro_sched out)) (ri_test_world ri) = Inr (rres_tests (ro_result out), events)"
    "finish ri sd (ro_sched out) (rres_tests (ro_result out)) events = Inr out"
    "rres_seeds (ro_result out) = sd_results sd"
    "loop_inv (ri_context ri) pre (sc_ready s) s"
    "res_ok (sc_results (ro_sched out)) (sc_status (ro_sched out))" "honest (ri_context ri) (ro_sched out)"
    "flags (ro_sched out) = flags s"
    "set (sc_materialized (ro_sched out)) = (\<Union>i \<in> set (planned_ids (ri_context ri)). adoptions (ri_context ri) i)"
proof -
  let ?cx = "ri_context ri"
  from run obtain sd pre s where head: "execute_head ri = Inr (sd, pre)"
    and reach: "sched_reach ?cx pre s" "loop_done s" and tail: "execute_tail ri sd s = Inr out"
    by (auto elim: executed.cases)
  have seeds: "load_seeds ri = Inr sd" and prep: "prepare ?cx (failed_seed_targets sd)
       (initial_sched ?cx (sd_cancelled sd) (sd_fail_fast sd) (run_started ri # sd_events sd)) = Inr pre"
    using head by (auto simp: execute_head_def Let_def checked_def then_run_Inr split: option.splits)
  obtain s' tests events where s': "sweep ?cx s = Inr s'"
    and tests: "run_tests (rx_store ?cx) (rx_run_id ?cx) (ri_run_tests ri) (ri_compilation ri)
       (rx_adapter ?cx) (ri_plan ri) (sc_status s') (failed_seed_targets sd) (stopped s') (ri_test_world ri)
       = Inr (tests, events)"
    and fin: "finish ri sd s' tests events = Inr out"
    using tail by (auto simp: execute_tail_def Let_def then_run_Inr case_sum_Inr)
  note out = finish_Inr(2-4) [OF fin]
  have inv: "loop_inv ?cx pre (sc_ready s) s"
    by (rule sched_reach_inv [OF wf reach(1) prepare_inv(1) [OF wf prep]])
  have start: "honest ?cx (initial_sched ?cx c f ev)" for c f ev by (simp add: honest_def initial_sched_def)
  note sr = sweep_results [OF s' loop_invD(2) [OF inv] wf]
  show thesis
    by (rule that [of sd pre s events, OF seeds prep reach])
       (simp_all add: out s' tests fin inv sr
         honest_sweep [OF s' honest_reach [OF reach(1) honest_prepare [OF prep start]]]
         entries_sweep [OF s'] entries_reach [OF reach(1)] prepare_entries [OF wf prep])
qed

section \<open>What a run records\<close>

text \<open>The record a result leaves, if any.\<close>

definition record_of :: "run_inputs \<Rightarrow> model_result \<Rightarrow> materialized_record option" where
  "record_of ri r =
     (case built_model (ri_context ri) r of
        None \<Rightarrow> None
      | Some m \<Rightarrow>
          if overwritten ri m r then None
          else Some (materialized_of (ri_context ri) m (mres_model r) (mres_target r)
                       (mres_output_identity r) (rx_run_id (ri_context ri)) (ri_finished_at ri)))"

lemma record_results:
  "fold_run (record_result ri st) rs (ws, es) = Inr (ws', es') \<Longrightarrow> es' = es @ List.map_filter (record_of ri) rs"
proof (induction rs arbitrary: ws es)
  case (Cons r rs)
  then obtain ws1 es1 where step: "record_result ri st r (ws, es) = Inr (ws1, es1)"
    and rest: "fold_run (record_result ri st) rs (ws1, es1) = Inr (ws', es')"
    by (auto simp: then_run_Inr)
  have "es1 = es @ (case record_of ri r of None \<Rightarrow> [] | Some e \<Rightarrow> [e])"
    using step by (auto simp: record_result_def record_of_def checked_def Let_def split: option.splits if_splits)
  then show ?case using Cons.IH [OF rest] by (simp add: map_filter_simps split: option.split)
qed (simp add: map_filter_simps)

lemma record_run_Inr:
  "record_run ri ws results seeds = Inr rk \<Longrightarrow> rk_materialized rk =
     (if rx_store (ri_context ri) = None then [] else List.map_filter (record_of ri) (map snd results))"
  by (auto simp: then_run_Inr record_run_def split: option.splits dest!: record_results)

lemma planned_wf: "i \<in> set (planned_ids cx) \<Longrightarrow> wf_model_id i"
  by (auto simp: planned_ids_def planned_of_def parsed_id_def map_filter_def model_id_parse_wf split: sum.splits)



text \<open>The result filed under a planned model, and the record it leaves.\<close>

lemma filed_result:
  assumes wf: "wf_context cx" and ok: "res_ok (sc_results s) (sc_status s)" and dom: "dom (sc_status s) = set (planned_ids cx)"
    and honest: "honest cx s"
  shows "(i, r) \<in> set (sc_results s) \<Longrightarrow>
     i \<in> set (planned_ids cx) \<and> sc_status s i = Some (mres_status r) \<and> is_terminal (mres_status r) \<and>
     (\<exists>m. compilation_model (rx_compilation cx) i = Some m \<and> cm_id m = i \<and> mres_model r = logical_name i \<and>
        mres_target r = relation_display (cm_target m) \<and>
        (mres_status r = Passed \<longrightarrow> mres_output_identity r = rx_identity_built cx (cm_target m)))"
    "sc_status s i = Some x \<Longrightarrow> is_terminal x \<Longrightarrow> \<exists>r. (i, r) \<in> set (sc_results s) \<and> mres_status r = x"
proof -
  have get: "map_of (sc_results s) i = Some r \<longleftrightarrow> (i, r) \<in> set (sc_results s)" for i r
    using ok bm_ok_distinct [of "sc_results s"] by (auto simp: res_ok_def intro: map_of_SomeD)
  have st: "map_option mres_status (map_of (sc_results s) i) = (if settled (sc_status s) i then sc_status s i else None)" for i
    using ok by (simp add: res_ok_def)
  {
    assume r: "(i, r) \<in> set (sc_results s)"
    then have some: "map_of (sc_results s) i = Some r" by (simp add: get)
    with st [of i] have "settled (sc_status s) i" "sc_status s i = Some (mres_status r)"
      by (auto split: if_splits)
    moreover from this dom have i: "i \<in> set (planned_ids cx)" by auto
    moreover obtain m where "compilation_model (rx_compilation cx) i = Some m" "cm_id m = i"
      using wf_model [OF wf i] by blast
    moreover have "faithful cx i r" using honest r by (auto simp: honest_def)
    ultimately show "i \<in> set (planned_ids cx) \<and> sc_status s i = Some (mres_status r) \<and> is_terminal (mres_status r) \<and>
     (\<exists>m. compilation_model (rx_compilation cx) i = Some m \<and> cm_id m = i \<and> mres_model r = logical_name i \<and>
        mres_target r = relation_display (cm_target m) \<and>
        (mres_status r = Passed \<longrightarrow> mres_output_identity r = rx_identity_built cx (cm_target m)))"
      by (auto simp: faithful_def settled_def status_or_default_def)
  }
  show "\<exists>r. (i, r) \<in> set (sc_results s) \<and> mres_status r = x" if "sc_status s i = Some x" "is_terminal x"
    using st [of i] that by (auto simp: settled_def status_or_default_def get)
qed

text \<open>A swept state: every planned model has a terminal status.\<close>

lemma outcome_settled:
  assumes wf: "wf_context cx" and inv: "loop_inv cx pre (sc_ready s) s" and sweep: "sweep cx s = Inr s'"
  shows "dom (sc_status s') = set (planned_ids cx)" "i \<in> set (planned_ids cx) \<Longrightarrow> settled (sc_status s') i"
proof -
  have dom: "dom (sc_status s) = set (planned_ids cx)" using deps_invD(1) [OF loop_invD(1) [OF inv]] .
  note at = sweep_Inr(1) [OF sweep]
  show "dom (sc_status s') = set (planned_ids cx)"
  proof (intro set_eqI iffI)
    fix j
    show "j \<in> set (planned_ids cx)" if "j \<in> dom (sc_status s')"
    proof (rule ccontr)
      assume j: "j \<notin> set (planned_ids cx)"
      then have "sc_status s' j = sc_status s j" using at [of j] by simp
      moreover have "sc_status s j = None" using j dom by blast
      ultimately show False using that by auto
    qed
    show "j \<in> dom (sc_status s')" if "j \<in> set (planned_ids cx)"
    proof -
      have "j \<in> dom (sc_status s)" using that by (simp only: dom)
      then obtain x where "sc_status s j = Some x" by (cases "sc_status s j") (simp_all add: domIff)
      then show ?thesis using at [of j] by (simp add: domIff)
    qed
  qed
  show "settled (sc_status s') i" if "i \<in> set (planned_ids cx)"
  proof (cases "settled (sc_status s) i")
    case True
    then have "sc_status s' i = sc_status s i" using at [of i] by simp
    then show ?thesis using True by (simp add: settled_def status_or_default_def)
  next
    case False
    then have "sc_status s' i = Some (swept_status s)" using at [of i] that by simp
    then show ?thesis by (simp add: settled_def status_or_default_def swept_status_def)
  qed
qed

text \<open>The records of a run, by the models that passed.\<close>

lemma recorded_outputs:
  assumes "executed ri (Inr out)" "wf_context (ri_context ri)"
  shows "let cx = ri_context ri; live = (\<lambda>m. rx_identity_built cx (cm_target m))
    in set (rk_materialized (ro_records out)) =
         {materialized_of cx m (logical_name i) (relation_display (cm_target m)) (live m)
            (rx_run_id cx) (ri_finished_at ri) | i m.
            rx_store cx \<noteq> None \<and> i \<in> set (planned_ids cx) \<and> sc_status (ro_sched out) i = Some Passed \<and>
            compilation_model (ri_compilation ri) i = Some m \<and>
            (live m = None \<or> ri_identity_final ri (cm_target m) = live m)}"
proof -
  let ?cx = "ri_context ri" and ?s = "ro_sched out"
  obtain sd pre s events where fin: "finish ri sd ?s (rres_tests (ro_result out)) events = Inr out"
    and inv: "loop_inv ?cx pre (sc_ready s) s" and sweep: "sweep ?cx s = Inr ?s"
    and res: "res_ok (sc_results ?s) (sc_status ?s)" and honest: "honest ?cx ?s"
    by (rule executed_Inr [OF assms])
  note filed = filed_result [OF assms(2) res outcome_settled(1) [OF assms(2) inv sweep] honest]
  have records: "rk_materialized (ro_records out) =
      (if rx_store ?cx = None then [] else List.map_filter (record_of ri) (map snd (sc_results ?s)))"
    by (rule record_run_Inr [OF finish_Inr(1) [OF fin]])
  have entry: "record_of ri r = Some e \<longleftrightarrow> mres_status r = Passed \<and>
        (rx_identity_built ?cx (cm_target m) = None \<or>
         ri_identity_final ri (cm_target m) = rx_identity_built ?cx (cm_target m)) \<and>
        e = materialized_of ?cx m (logical_name i) (relation_display (cm_target m))
              (rx_identity_built ?cx (cm_target m)) (rx_run_id ?cx) (ri_finished_at ri)"
    if r: "(i, r) \<in> set (sc_results ?s)" and m: "compilation_model (ri_compilation ri) i = Some m" for i r m e
  proof -
    have "model_id_parse (logical_name i) = Inr i"
      using filed(1) [OF r] model_id_parse_logical_name planned_wf by blast
    then show ?thesis
      using filed(1) [OF r] m
      by (auto simp: record_of_def built_model_def overwritten_def split: option.splits)
  qed
  show ?thesis
    unfolding Let_def records
  proof (intro set_eqI iffI, goal_cases)
    case (1 e)
    then obtain i r where r: "(i, r) \<in> set (sc_results ?s)" "record_of ri r = Some e" "rx_store ?cx \<noteq> None"
      by (auto simp: map_filter_def split: if_splits)
    obtain m where m: "compilation_model (ri_compilation ri) i = Some m" using filed(1) [OF r(1)] by blast
    have "mres_status r = Passed" and rest: "rx_identity_built ?cx (cm_target m) = None \<or>
        ri_identity_final ri (cm_target m) = rx_identity_built ?cx (cm_target m)"
      "e = materialized_of ?cx m (logical_name i) (relation_display (cm_target m))
         (rx_identity_built ?cx (cm_target m)) (rx_run_id ?cx) (ri_finished_at ri)"
      using entry [OF r(1) m, of e] r(2) by simp_all
    then have "i \<in> set (planned_ids ?cx)" "sc_status ?s i = Some Passed" using filed(1) [OF r(1)] by auto
    with rest r(3) m show ?case by blast
  next
    case (2 e)
    then obtain i m where h: "rx_store ?cx \<noteq> None" "sc_status ?s i = Some Passed"
      "compilation_model (ri_compilation ri) i = Some m"
      "rx_identity_built ?cx (cm_target m) = None \<or>
         ri_identity_final ri (cm_target m) = rx_identity_built ?cx (cm_target m)"
      "e = materialized_of ?cx m (logical_name i) (relation_display (cm_target m))
              (rx_identity_built ?cx (cm_target m)) (rx_run_id ?cx) (ri_finished_at ri)" by blast
    obtain r where r: "(i, r) \<in> set (sc_results ?s)" "mres_status r = Passed"
      using filed(2) [OF h(2)] by auto
    then have "record_of ri r = Some e" using entry [OF r(1) h(3)] h by blast
    then show ?case using r h(1) by (force simp: map_filter_def)
  qed
qed

text \<open>
  Property C5. With a store, a run that ends with an outcome has recorded exactly two groups of
  materialisations (without a store none). At its end: every planned model that passed in this run and whose
  relation still reports the identity captured after the build (or had none then), with that identity, this
  run and the end of the run as its time. In its preparation: every planned model that the plan serves from
  the evidence of another materialisation and whose relation reports the identity of that evidence, unless a
  pass of an earlier invocation of this run was carried over; its record names the identity, the run and the
  time of the evidence. So a model that failed, was skipped, carried over, blocked, cancelled or overwritten
  gets no record.
\<close>

theorem run_records_own_output:
  assumes "executed ri (Inr out)" "wf_context (ri_context ri)"
  shows "let cx = ri_context ri; live = (\<lambda>m. rx_identity_built cx (cm_target m))
    in set (rk_materialized (ro_records out)) =
         {materialized_of cx m (logical_name i) (relation_display (cm_target m)) (live m)
            (rx_run_id cx) (ri_finished_at ri) | i m.
            rx_store cx \<noteq> None \<and> i \<in> set (planned_ids cx) \<and> sc_status (ro_sched out) i = Some Passed \<and>
            compilation_model (ri_compilation ri) i = Some m \<and>
            (live m = None \<or> ri_identity_final ri (cm_target m) = live m)} \<and>
       set (sc_materialized (ro_sched out)) =
         {materialized_of cx m (logical_name i) (relation_display (cm_target m)) (Some (cas_output_identity e))
            (cas_run_id e) (cas_materialized_at e) | i m p e.
            rx_store cx \<noteq> None \<and> i \<in> set (planned_ids cx) \<and>
            compilation_model (ri_compilation ri) i = Some m \<and>
            plan_info cx i = Some p \<and> pm_action p = Cached \<and> pm_reuse p = Some e \<and>
            rx_identity_before cx (cm_target m) = Some (cas_output_identity e) \<and>
            \<not> (pm_exists p \<and> reusable_model (rx_prior_models cx) i (mv_hash (cm_version m)) \<noteq> None)}"
proof -
  let ?cx = "ri_context ri"
  have entries: "set (sc_materialized (ro_sched out)) = (\<Union>i \<in> set (planned_ids ?cx). adoptions ?cx i)"
    by (rule executed_Inr [OF assms])
  have id: "cm_id m = i" if "i \<in> set (planned_ids ?cx)" "compilation_model (ri_compilation ri) i = Some m" for i m
    using wf_model [OF assms(2) that(1)] that(2) by auto
  have "set (sc_materialized (ro_sched out)) =
         {materialized_of ?cx m (logical_name i) (relation_display (cm_target m)) (Some (cas_output_identity e))
            (cas_run_id e) (cas_materialized_at e) | i m p e.
            rx_store ?cx \<noteq> None \<and> i \<in> set (planned_ids ?cx) \<and>
            compilation_model (ri_compilation ri) i = Some m \<and>
            plan_info ?cx i = Some p \<and> pm_action p = Cached \<and> pm_reuse p = Some e \<and>
            rx_identity_before ?cx (cm_target m) = Some (cas_output_identity e) \<and>
            \<not> (pm_exists p \<and> reusable_model (rx_prior_models ?cx) i (mv_hash (cm_version m)) \<noteq> None)}" (is "_ = ?R")
  proof (intro set_eqI iffI)
    fix x assume "x \<in> set (sc_materialized (ro_sched out))"
    then obtain i m e p where "i \<in> set (planned_ids ?cx)" "rx_store ?cx \<noteq> None"
      "compilation_model (ri_compilation ri) i = Some m" "x = adopted_record ?cx m e"
      "plan_info ?cx i = Some p" "pm_action p = Cached" "pm_reuse p = Some e"
      "live_identity ?cx i = Some (cas_output_identity e)" "\<not> carried_over ?cx i"
      by (auto simp: entries adoptions_def adopts_def)
    then show "x \<in> ?R"
      using id [of i m] by (auto simp: live_identity_def carried_over_def adopted_record_def)
  next
    fix x assume "x \<in> ?R"
    then obtain i m p e where i: "i \<in> set (planned_ids ?cx)" and m: "compilation_model (ri_compilation ri) i = Some m"
      and store: "rx_store ?cx \<noteq> None"
      and plan: "plan_info ?cx i = Some p" "pm_action p = Cached" "pm_reuse p = Some e"
        "rx_identity_before ?cx (cm_target m) = Some (cas_output_identity e)"
        "\<not> (pm_exists p \<and> reusable_model (rx_prior_models ?cx) i (mv_hash (cm_version m)) \<noteq> None)"
      and eq: "x = materialized_of ?cx m (logical_name i) (relation_display (cm_target m))
        (Some (cas_output_identity e)) (cas_run_id e) (cas_materialized_at e)"
      by blast
    have x: "x = adopted_record ?cx m e" by (simp only: eq adopted_record_def id [OF i m])
    have "\<not> carried_over ?cx i" using plan(1,5) m by (simp add: carried_over_def)
    with plan m have adopts: "adopts ?cx i e" by (simp add: adopts_def live_identity_def)
    have "x \<in> adoptions ?cx i" using m x adopts store by (auto simp: adoptions_def)
    then show "x \<in> set (sc_materialized (ro_sched out))" using i by (auto simp: entries)
  qed
  with recorded_outputs [OF assms] show ?thesis by (simp add: Let_def)
qed


section \<open>What a reported success means\<close>

text \<open>The seeds: one that failed is behind a fail-fast stop, and only a stop cancels one.\<close>

definition seeds_ok :: "seed_phase \<Rightarrow> bool" where
  "seeds_ok sd \<longleftrightarrow>
     (\<forall>r \<in> set (sd_results sd). is_terminal (sres_status r) \<and> sres_status r \<noteq> Blocked \<and>
        (sres_status r = Cancelled \<longrightarrow> sd_cancelled sd \<or> sd_fail_fast sd)) \<and>
     (sd_fail_fast sd \<longrightarrow> (\<exists>r \<in> set (sd_results sd). sres_status r = Failed))"

lemma run_seed_status: "run_seed p w st run_id ps r at = Inr (result, events, writes) \<Longrightarrow>
    sres_status result = Passed \<or> sres_status result = Failed"
  unfolding run_seed_def by (drule seed_attempts_shape) (auto simp: seed_shape_def split: if_splits)

lemma seeds_ok_note:
  assumes "note_seed ri write r events sd = Inr sd'" "seeds_ok sd" "is_terminal (sres_status r)"
    "sres_status r \<notin> {Blocked, Failed}" "sres_status r = Cancelled \<longrightarrow> sd_cancelled sd \<or> sd_fail_fast sd"
  shows "seeds_ok sd'"
proof -
  have "sd_results sd' = sd_results sd @ [r]" "sd_cancelled sd' = sd_cancelled sd" "sd_fail_fast sd' = sd_fail_fast sd"
    using assms(1) by (auto simp: note_seed_def Let_def checked_def split: if_splits option.splits)
  then show ?thesis using assms(2-) by (auto simp: seeds_ok_def)
qed

lemma seeds_ok_load:
  assumes "load_planned_seed ri ps r sd = Inr sd'" "seeds_ok sd"
  shows "seeds_ok sd'"
proof -
  obtain result events writes where
    "run_seed (rx_retry (ri_context ri)) (ri_seed_world ri (ps_name ps)) (rx_store (ri_context ri))
       (rx_run_id (ri_context ri)) ps r (ri_seed_clock ri (ps_name ps)) = Inr (result, events, writes)"
    and sd': "sd_results sd' = sd_results sd @ [result]"
      "sd_cancelled sd' \<longleftrightarrow> sd_cancelled sd \<or> ri_seed_cancelled ri (ps_name ps)"
      "sd_fail_fast sd' \<longleftrightarrow> sd_fail_fast sd \<or> sres_status result = Failed \<and> rx_fail_fast (ri_context ri)"
    using assms(1) by (auto simp: load_planned_seed_def split: option.splits sum.splits)
  then show ?thesis using assms(2) run_seed_status by (fastforce simp: seeds_ok_def)
qed

lemma load_seeds_ok: "load_seeds ri = Inr sd \<Longrightarrow> seeds_ok sd"
  unfolding load_seeds_def
proof (erule fold_run_invariant [where P = seeds_ok])
  fix ps sd sd'
  assume "seeds_ok sd" "run_planned_seed ri ps sd = Inr sd'"
  then show "seeds_ok sd'"
    by (auto simp: run_planned_seed_def seed_result_of_def Let_def split: option.splits if_splits
        elim!: seeds_ok_note intro: seeds_ok_load)
qed (simp add: seeds_ok_def)

lemma no_failed_seed:
  assumes "\<forall>r \<in> set (sd_results sd). sres_status r \<noteq> Failed"
  shows "failed_seed_targets sd = []"
proof -
  have "filter (\<lambda>r. sres_status r = Failed) (sd_results sd) = []" using assms by (simp add: filter_empty_conv)
  then show ?thesis by (simp add: failed_seed_targets_def btree_set_def)
qed

text \<open>Without a failed seed, a blocked model has a failed one behind it.\<close>

lemma blocked_behind_failed:
  assumes wf: "wf_context cx" and prep: "prepare cx [] (initial_sched cx c ff ev) = Inr pre"
    and inv: "loop_inv cx pre ready s" and blocked: "sc_status s i = Some Blocked"
  shows "\<exists>j. sc_status s j = Some Failed"
proof (rule ccontr)
  assume none: "\<nexists>j. sc_status s j = Some Failed"
  note di = deps_invD [OF loop_invD(1) [OF inv]]
  note pi = deps_invD [OF prep_invD(1) [OF prepare_inv(4) [OF wf prep]]]
  have readers: "seed_readers cx [] = {}"
    by (auto simp: seed_readers_def reads_seed_def reads_failed_seed_def list_ex_iff split: option.splits)
  have keep: "sc_status s d = sc_status pre d" if "broken (sc_status pre) d" for d
    using pre_invD(1) [OF loop_invD(4) [OF inv] broken_settled [OF that]] .
  have dep: "\<exists>d \<in> set (planned_deps cx j). sc_status s d = Some Blocked" if j: "sc_status s j = Some Blocked" for j
  proof -
    have "\<exists>d \<in> set (planned_deps cx j). broken (sc_status s) d"
    proof (cases "sc_status pre j = Some Blocked")
      case True
      then obtain d where d: "d \<in> set (planned_deps cx j)" "broken (sc_status pre) d"
        using pi(7) [of j] by (auto simp: readers)
      then have "broken (sc_status s) d" using keep by (simp add: broken_def)
      then show ?thesis using d(1) by blast
    next
      case False
      then show ?thesis using di(7) [OF j] by auto
    qed
    then show ?thesis using none by (auto simp: broken_def)
  qed
  have "sc_status s (planned_ids cx ! k) \<noteq> Some Blocked" if "k < length (planned_ids cx)" for k
    using that
  proof (induction k rule: less_induct)
    case (less k)
    show ?case
    proof
      assume "sc_status s (planned_ids cx ! k) = Some Blocked"
      then obtain d where d: "d \<in> set (planned_deps cx (planned_ids cx ! k))" "sc_status s d = Some Blocked"
        using dep by blast
      then have "d \<in> set (take k (planned_ids cx))" using wf less.prems by (auto simp: wf_context_def)
      then obtain l where "l < k" "planned_ids cx ! l = d" by (auto simp: in_set_conv_nth)
      then show False using less.IH [of l] less.prems d(2) by simp
    qed
  qed
  moreover have "i \<in> set (planned_ids cx)" using di(1) blocked by blast
  ultimately show False using blocked by (metis in_set_conv_nth)
qed


lemma failed_in_results:
  assumes "wf_context cx" "res_ok (sc_results s) (sc_status s)" "dom (sc_status s) = set (planned_ids cx)" "honest cx s"
  shows "Failed \<in> set (result_statuses (sc_results s) seeds tests) \<longleftrightarrow>
     (\<exists>i. sc_status s i = Some Failed) \<or> Failed \<in> sres_status ` set seeds \<or> Failed \<in> tres_status ` set tests"
proof -
  note filed = filed_result [OF assms]
  have "Failed \<in> (mres_status \<circ> snd) ` set (sc_results s) \<longleftrightarrow> (\<exists>i. sc_status s i = Some Failed)"
  proof
    assume "Failed \<in> (mres_status \<circ> snd) ` set (sc_results s)"
    then obtain i r where "(i, r) \<in> set (sc_results s)" "mres_status r = Failed" by fastforce
    then show "\<exists>i. sc_status s i = Some Failed" using filed(1) [of i r] by auto
  next
    assume "\<exists>i. sc_status s i = Some Failed"
    then obtain i r where "(i, r) \<in> set (sc_results s)" "mres_status r = Failed"
      using filed(2) by fastforce
    then show "Failed \<in> (mres_status \<circ> snd) ` set (sc_results s)" by force
  qed
  then show ?thesis by (simp add: result_statuses_def)
qed

text \<open>When nothing failed and nobody cancelled, everything planned ended satisfied.\<close>

lemma unfailed_run_satisfied:
  assumes "executed ri (Inr out)" "wf_context (ri_context ri)"
    and ok: "\<not> sc_cancelled (ro_sched out)" "\<nexists>i. sc_status (ro_sched out) i = Some Failed"
      "Failed \<notin> sres_status ` set (rres_seeds (ro_result out))"
  shows "\<forall>i \<in> set (planned_ids (ri_context ri)). is_satisfied (status_or_default (sc_status (ro_sched out)) i)"
    and "\<forall>r \<in> set (rres_seeds (ro_result out)). is_satisfied (sres_status r)"
proof -
  let ?cx = "ri_context ri" and ?s = "ro_sched out" and ?seeds = "rres_seeds (ro_result out)"
  obtain sd pre s events where h: "load_seeds ri = Inr sd"
    "prepare ?cx (failed_seed_targets sd)
       (initial_sched ?cx (sd_cancelled sd) (sd_fail_fast sd) (run_started ri # sd_events sd)) = Inr pre"
    "sched_reach ?cx pre s" "loop_done s" "sweep ?cx s = Inr ?s"
    "?seeds = sd_results sd" "loop_inv ?cx pre (sc_ready s) s" "flags ?s = flags s"
    by (rule executed_Inr [OF assms(1,2)])
  note ends = outcome_settled [OF assms(2) h(7,5)]
  note sd = load_seeds_ok [OF h(1)]
  have seeds: "\<forall>r \<in> set (sd_results sd). sres_status r \<noteq> Failed" using ok(3) by (force simp: h(6))
  have fast: "\<not> sd_fail_fast sd" using sd seeds by (auto simp: seeds_ok_def)
  have flags_pre: "sc_cancelled pre = sd_cancelled sd" "\<not> sc_fail_fast pre"
    using prepare_flags [OF h(2)] fast by (simp_all add: flags_def initial_sched_def)
  note rf = reach_flags [OF assms(2) prepare_inv(1) [OF assms(2) h(2)] h(3)]
  have cancelled: "\<not> sc_cancelled s" using ok(1) h(8) by (simp add: flags_def)
  then have not_cancelled: "\<not> sd_cancelled sd" using rf(1) flags_pre(1) by blast
  have none: "sc_status s i \<noteq> Some Failed" for i
    using sweep_Inr(1) [OF h(5), of i] ok(2) by (auto simp: settled_def status_or_default_def)
  then have "\<not> stopped s" using rf(2) flags_pre(2) cancelled by (auto simp: stopped_def)
  then have same: "?s = s" using complete_run_sequential [OF assms(2) h(2,3,4)] h(5) by simp
  note prep = h(2) [unfolded no_failed_seed [OF seeds]]
  show "\<forall>i \<in> set (planned_ids ?cx). is_satisfied (status_or_default (sc_status ?s) i)"
  proof
    fix i assume i: "i \<in> set (planned_ids ?cx)"
    obtain x where x: "sc_status s i = Some x" "is_terminal x"
      using ends(1) ends(2) [OF i] i unfolding same
      by (cases "sc_status s i") (auto simp: settled_def status_or_default_def domIff)
    have "x \<noteq> Failed" "x \<noteq> Cancelled" "x \<noteq> Blocked"
      using none [of i] deps_invD(3) [OF loop_invD(1) [OF h(7)], of i]
        blocked_behind_failed [OF assms(2) prep h(7), of i] none x(1) by auto
    then show "is_satisfied (status_or_default (sc_status ?s) i)"
      using x by (auto simp: same status_or_default_def is_terminal_def is_satisfied_def)
  qed
  show "\<forall>r \<in> set ?seeds. is_satisfied (sres_status r)"
    using sd seeds fast not_cancelled by (auto simp: seeds_ok_def h(6) is_terminal_def is_satisfied_def)
qed

text \<open>
  Property C4. A run reports success exactly when it was not cancelled before the tests, every planned model
  and every planned seed ended satisfied (passed, skipped or reused), and no test failed. Nothing is said of
  tests that were blocked or cancelled: they do not keep a run from passing.
\<close>

theorem run_success_iff:
  assumes "executed ri (Inr out)" "wf_context (ri_context ri)"
  shows "rres_status (ro_result out) = Passed \<longleftrightarrow>
    \<not> sc_cancelled (ro_sched out) \<and>
    (\<forall>i \<in> set (planned_ids (ri_context ri)). is_satisfied (status_or_default (sc_status (ro_sched out)) i)) \<and>
    (\<forall>r \<in> set (rres_seeds (ro_result out)). is_satisfied (sres_status r)) \<and>
    Failed \<notin> tres_status ` set (rres_tests (ro_result out))"
proof -
  let ?cx = "ri_context ri" and ?s = "ro_sched out" and ?seeds = "rres_seeds (ro_result out)"
    and ?tests = "rres_tests (ro_result out)"
  obtain sd pre s events where h: "sweep ?cx s = Inr ?s" "finish ri sd ?s ?tests events = Inr out"
    "?seeds = sd_results sd" "loop_inv ?cx pre (sc_ready s) s"
    "res_ok (sc_results ?s) (sc_status ?s)" "honest ?cx ?s"
    by (rule executed_Inr [OF assms])
  note ends = outcome_settled [OF assms(2) h(4,1)]
  have verdict: "rres_status (ro_result out) = Passed \<longleftrightarrow> \<not> sc_cancelled ?s \<and>
      (\<nexists>i. sc_status ?s i = Some Failed) \<and> Failed \<notin> sres_status ` set ?seeds \<and> Failed \<notin> tres_status ` set ?tests"
    using finish_Inr(5) [OF h(2)] failed_in_results [OF assms(2) h(5) ends(1) h(6)]
    by (simp add: run_status_def h(3))
  have "\<nexists>i. sc_status ?s i = Some Failed"
    if sat: "\<forall>i \<in> set (planned_ids ?cx). is_satisfied (status_or_default (sc_status ?s) i)"
  proof
    assume "\<exists>i. sc_status ?s i = Some Failed"
    then obtain i where i: "sc_status ?s i = Some Failed" ..
    then have "i \<in> set (planned_ids ?cx)" using ends(1) by (metis domI)
    from bspec [OF sat this] show False using i by (simp add: status_or_default_def is_satisfied_def)
  qed
  moreover have "Failed \<notin> sres_status ` set ?seeds" if "\<forall>r \<in> set ?seeds. is_satisfied (sres_status r)"
    using that by (force simp: is_satisfied_def)
  ultimately show ?thesis unfolding verdict using unfailed_run_satisfied [OF assms] by blast
qed


section \<open>A concrete run\<close>

text \<open>A run that nothing outside interferes with, of a plan without seeds and tests, ends with an outcome.\<close>

definition undisturbed :: "run_inputs \<Rightarrow> bool" where
  "undisturbed ri \<longleftrightarrow>
     runnable (ri_context ri) \<and> accepting (rx_store (ri_context ri)) \<and> \<not> rx_fail_fast (ri_context ri) \<and>
     pl_seeds (ri_plan ri) = [] \<and> \<not> ri_run_tests ri \<and> ri_ensure_schema ri = (\<lambda>r. None) \<and>
     \<not> ri_resume ri \<and> ri_start_run ri = (\<lambda>r p. None) \<and> ri_finish_run ri = (\<lambda>r s t n. None)"

lemma accepting_record_run:
  assumes "accepting (rx_store (ri_context ri))"
  obtains rk where "record_run ri warnings results seeds = Inr rk"
proof (cases "rx_store (ri_context ri)")
  case (Some st)
  then have "wr_materialized st e = None" "wr_seed_state st d = None" for e d
    using assms by (simp_all add: accepting_def)
  then have step: "record_result ri st r acc \<noteq> Inl x" "record_seed_result ri st q records \<noteq> Inl x" for r acc x q records
    by (auto simp: record_result_def record_seed_result_def checked_def Let_def split: option.splits prod.splits)
  have "fold_run (record_result ri st) rs acc \<noteq> Inl x" "fold_run (record_seed_result ri st) qs records \<noteq> Inl x"
    for rs acc x qs records
    by (rule notI, erule fold_run_Inl, erule notE [OF step(1)])
       (rule notI, erule fold_run_Inl, erule notE [OF step(2)])
  then obtain acc records where "fold_run (record_result ri st) (map snd results) (warnings, []) = Inr acc"
    "fold_run (record_seed_result ri st) seeds [] = Inr records" by (meson sum.exhaust)
  then show thesis using that by (cases acc) (simp add: record_run_def Some then_run_def)
qed (use that in \<open>simp add: record_run_def\<close>)

lemma undisturbed_executes:
  assumes "undisturbed ri"
    and prep: "prepare (ri_context ri) [] (initial_sched (ri_context ri) False False [run_started ri]) = Inr pre"
    and run: "\<not> stopped pre"
  obtains out where "executed ri (Inr out)" "sc_status (ro_sched out) = sequential (ri_context ri) pre"
    "rres_seeds (ro_result out) = []"
proof -
  let ?cx = "ri_context ri"
  have quiet: "runnable ?cx" "accepting (rx_store ?cx)" "\<not> rx_fail_fast ?cx"
    using assms(1) by (simp_all add: undisturbed_def)
  have wf: "wf_context ?cx" using quiet(1) by (simp add: runnable_def)
  let ?sd = "\<lparr>sd_results = [], sd_events = [], sd_writes = [], sd_cancelled = False, sd_fail_fast = False\<rparr>"
  have seeds: "load_seeds ri = Inr ?sd" "failed_seed_targets ?sd = []"
    using assms(1) by (simp_all add: undisturbed_def load_seeds_def failed_seed_targets_def btree_set_def)
  have "ensure_schemas (\<lambda>r. None) xs = None" for xs by (induction xs) auto
  then have head: "execute_head ri = Inr (?sd, pre)"
    using assms(1) prep
    by (cases "rx_store ?cx")
       (simp_all add: execute_head_def undisturbed_def open_run_def checked_def seeds then_run_def Let_def)
  obtain s where s: "sched_reach ?cx pre s" "loop_done s" "\<not> stopped s"
    using accepting_completes [OF quiet prepare_inv(1) [OF wf prep] run] by blast
  note seq = complete_run_sequential [OF wf prep s]
  obtain rk where "record_run ri (map shared_warning (shared_targets ?cx)) (sc_results s) [] = Inr rk"
    by (rule accepting_record_run [OF quiet(2)])
  then obtain out where out: "finish ri ?sd s [] [] = Inr out"
    using assms(1)
    by (cases "rx_store ?cx") (auto simp: finish_def undisturbed_def close_run_def checked_def Let_def then_run_def)
  then have "execute_tail ri ?sd s = Inr out"
    using assms(1) seq by (simp add: execute_tail_def undisturbed_def Let_def run_tests_def then_run_def)
  then have "executed ri (Inr out)" using executed.LoopEnds [OF head s(1,2)] by simp
  then show thesis using that [of out] seq finish_Inr(2,4) [OF out] by simp
qed

text \<open>Two models, the second reading the first, over a store: the first passes, the second fails.\<close>

definition quiet_store :: store where
  "quiet_store =
     \<lparr>wr_model = (\<lambda>r. None), wr_seed = (\<lambda>r. None), wr_test = (\<lambda>r. None), wr_materialized = (\<lambda>r. None),
      wr_seed_state = (\<lambda>r. None), wr_watermark = (\<lambda>m e v r. None), rd_watermark = (\<lambda>m e. Inr None)\<rparr>"

definition stored_pair :: run_context where
  "stored_pair = (sample_context pair_compiled (sample_plan [mid ''a'', mid ''b''])
     (\<lambda>i. if i = mid ''a'' then AttemptOk ok_query else AttemptTimeout))\<lparr>rx_store := Some quiet_store\<rparr>"

definition stored_run_inputs :: run_inputs where
  "stored_run_inputs =
     \<lparr>ri_context = stored_pair, ri_resume = False, ri_continued_from = None, ri_started_at = ''t'',
      ri_finished_at = ''u'', ri_run_tests = False, ri_prior_seeds = Map.empty,
      ri_ensure_schema = (\<lambda>r. None), ri_seed_world = (\<lambda>n. quiet_world (\<lambda>k. AttemptOk ok_query)),
      ri_seed_clock = (\<lambda>n. ''t''), ri_seed_cancelled = (\<lambda>n. False),
      ri_identity_final = (\<lambda>r. Some ''o''),
      ri_test_world = \<lparr>tw_end = (\<lambda>t. AttemptOk ok_query), tw_now = (\<lambda>t. ''t''), tw_duration = (\<lambda>t. 0),
        tw_cancelled = (\<lambda>t. False), tw_limit = ''1''\<rparr>,
      ri_start_run = (\<lambda>r p. None), ri_reopen_run = (\<lambda>r. None), ri_finish_run = (\<lambda>r s t n. None)\<rparr>"

lemma stored_pair_like:
  "rx_compilation stored_pair = rx_compilation failing_pair" "rx_plan stored_pair = rx_plan failing_pair"
  "rx_store stored_pair = Some quiet_store" "rx_prior_models stored_pair = Map.empty"
  "rx_fail_fast stored_pair = False" "rx_environment stored_pair = None"
  by (simp_all add: stored_pair_def failing_pair_def sample_context_def)

lemma stored_pair_facts:
  "planned_ids stored_pair = [mid ''a'', mid ''b'']" "planned_deps stored_pair = planned_deps failing_pair"
  "runnable stored_pair" "accepting (rx_store stored_pair)"
proof -
  show ids: "planned_ids stored_pair = [mid ''a'', mid ''b'']"
    using failing_pair_facts(1) by (simp add: planned_ids_def stored_pair_like)
  show deps: "planned_deps stored_pair = planned_deps failing_pair"
    by (simp add: fun_eq_iff planned_deps_def ids failing_pair_facts(1) stored_pair_like split: option.split)
  show "runnable stored_pair"
    using failing_pair_runnable
    by (simp add: runnable_def wf_context_def ids deps failing_pair_facts(1) stored_pair_like)
  show "accepting (rx_store stored_pair)" by (simp add: stored_pair_like accepting_def quiet_store_def)
qed

lemma stored_pair_tasks: "task_passes stored_pair pre (mid ''a'')" "\<not> task_passes stored_pair pre (mid ''b'')"
proof -
  have world: "rx_world stored_pair i = quiet_world (\<lambda>n. if i = mid ''a'' then AttemptOk ok_query else AttemptTimeout)" for i
    by (simp add: stored_pair_def sample_context_def)
  have "mid ''b'' \<noteq> mid ''a''" using failing_pair_facts(4) by simp
  note ends = world [of "mid ''a''"] world [of "mid ''b''", simplified this if_False]
  have no: "\<not> retries p w (timeout_failure ''t'' ''1'' n) n" for p w n
    by (simp add: retries_def should_retry_def timeout_failure_def)
  have "attempt_result (rx_world stored_pair (mid ''b'')) n = Inl (timeout_failure ''t'' ''1'' n)"
    "attempt_result (rx_world stored_pair (mid ''a'')) n = Inr ok_query" for n
    using ends by (simp_all add: attempt_result_def quiet_world_def)
  then have
    "co_outcome (lg_completion (model_attempts p (rx_world stored_pair (mid ''a'')) (Some quiet_store) t n [])) = Inr ok_query"
    "co_outcome (lg_completion (model_attempts p (rx_world stored_pair (mid ''b'')) (Some quiet_store) t n [])) =
       Inl (timeout_failure ''t'' ''1'' n)" for p t n
    by (simp_all add: model_attempts.simps [of _ _ _ _ n] no write_with_def quiet_store_def Let_def complete_def)
  moreover have "exec_op (hd pair_models) info \<noteq> None" for info
    using failing_pair_models(5) by (auto simp: exec_op_def split: incremental_strategy.splits option.splits)
  ultimately show "task_passes stored_pair pre (mid ''a'')" "\<not> task_passes stored_pair pre (mid ''b'')"
    using failing_pair_models(1-4)
    by (auto simp: task_passes_def task_for_def task_of_def task_log_of_def run_model_task_def stored_pair_like
        split: option.split)
qed

lemma stored_run_executes:
  obtains out where "executed stored_run_inputs (Inr out)"
    "sc_status (ro_sched out) (mid ''a'') = Some Passed" "sc_status (ro_sched out) (mid ''b'') = Some Failed"
proof -
  let ?pre = "queue_ready stored_pair (initial_sched stored_pair False False [run_started stored_run_inputs])"
  have cx: "ri_context stored_run_inputs = stored_pair" by (simp add: stored_run_inputs_def)
  have "undisturbed stored_run_inputs"
    using stored_pair_facts
    by (simp add: undisturbed_def cx stored_pair_like failing_pair_def sample_context_def sample_plan_def)
       (simp add: stored_run_inputs_def)
  moreover have "prepare stored_pair [] (initial_sched stored_pair False False [run_started stored_run_inputs]) = Inr ?pre"
    by (rule build_prepared) (auto simp: stored_pair_like failing_pair_def sample_context_def sample_plan_def)
  moreover have "\<not> stopped ?pre" by (simp add: queue_ready_def initial_sched_def stopped_def)
  ultimately obtain out where out: "executed stored_run_inputs (Inr out)"
    "sc_status (ro_sched out) = sequential stored_pair ?pre"
    using undisturbed_executes [of stored_run_inputs ?pre] unfolding cx by blast
  have "\<not> settled (sc_status ?pre) i" for i
    by (simp add: queue_ready_def initial_sched_def stored_pair_facts settled_def status_or_default_def)
  then have "sequential stored_pair ?pre (mid ''a'') = Some Passed" "sequential stored_pair ?pre (mid ''b'') = Some Failed"
    using stored_pair_facts failing_pair_facts stored_pair_tasks [of ?pre]
    by (simp_all add: sequential_def verdict_def broken_def)
  then show thesis using that [of out] out by simp
qed

theorem run_success_iff_witness:
  "\<exists>out. executed stored_run_inputs (Inr out) \<and> sc_status (ro_sched out) (mid ''a'') = Some Passed \<and>
     rres_status (ro_result out) \<noteq> Passed"
proof -
  obtain out where out: "executed stored_run_inputs (Inr out)"
    "sc_status (ro_sched out) (mid ''a'') = Some Passed" "sc_status (ro_sched out) (mid ''b'') = Some Failed"
    by (rule stored_run_executes)
  have cx: "ri_context stored_run_inputs = stored_pair" by (simp add: stored_run_inputs_def)
  have "wf_context stored_pair" using stored_pair_facts(3) by (simp add: runnable_def)
  then show ?thesis
    using run_success_iff [OF out(1)] out
    by (auto simp: cx stored_pair_facts(1) status_or_default_def is_satisfied_def)
qed

theorem run_records_own_output_witness:
  "\<exists>out. executed stored_run_inputs (Inr out) \<and>
     mr_model_id ` set (rk_materialized (ro_records out)) = {logical_name (mid ''a'')} \<and>
     sc_materialized (ro_sched out) = []"
proof -
  obtain out where out: "executed stored_run_inputs (Inr out)"
    "sc_status (ro_sched out) (mid ''a'') = Some Passed" "sc_status (ro_sched out) (mid ''b'') = Some Failed"
    by (rule stored_run_executes)
  have cx: "ri_context stored_run_inputs = stored_pair" "ri_identity_final stored_run_inputs r = Some ''o''"
    "rx_identity_built stored_pair r = Some ''o''" for r
    by (simp_all add: stored_run_inputs_def stored_pair_def sample_context_def)
  have wf: "wf_context stored_pair" using stored_pair_facts(3) by (simp add: runnable_def)
  have materialized_id: "mr_model_id (materialized_of cx m name target identity run at) = name"
    for cx m name target identity run at
    by (simp add: materialized_of_def)
  note both = run_records_own_output [OF out(1), unfolded cx Let_def, OF wf]
  note own = conjunct1 [OF both]
  have "pm_action p \<noteq> Cached" if "plan_info stored_pair i = Some p" for i p
    using plan_info_in [OF that] by (auto simp: stored_pair_like failing_pair_def sample_context_def sample_plan_def)
  then have "set (sc_materialized (ro_sched out)) = {}" unfolding conjunct2 [OF both] by blast
  have "x = logical_name (mid ''a'')" if "x \<in> mr_model_id ` set (rk_materialized (ro_records out))" for x
    using that out(3) unfolding own by (auto simp: stored_pair_facts(1) materialized_of_def)
  moreover have "materialized_of stored_pair (hd pair_models) (logical_name (mid ''a''))
      (relation_display (cm_target (hd pair_models))) (Some ''o'') (rx_run_id stored_pair)
      (ri_finished_at stored_run_inputs) \<in> set (rk_materialized (ro_records out))"
    unfolding own
    by (rule CollectI, rule exI [of _ "mid ''a''"], rule exI [of _ "hd pair_models"])
       (use out(2) failing_pair_models(1) in \<open>simp add: stored_pair_facts(1) stored_pair_like\<close>)
  from imageI [OF this, of mr_model_id]
  have "logical_name (mid ''a'') \<in> mr_model_id ` set (rk_materialized (ro_records out))"
    by (simp only: materialized_id)
  ultimately have "mr_model_id ` set (rk_materialized (ro_records out)) = {logical_name (mid ''a'')}"
    by blast
  with out(1) \<open>set (sc_materialized (ro_sched out)) = {}\<close> show ?thesis by auto
qed

end
