(* ===== verification/Rebuild.thy ===== *)
theory Rebuild
  imports StoreFacts RunFacts
begin

text \<open>
  Runs and plans together: what a run recorded in the store is what the next plan decides on.
\<close>

text \<open>The record a run leaves for a model it built.\<close>

definition built_record :: "run_inputs \<Rightarrow> model_id \<Rightarrow> compiled_model \<Rightarrow> materialized_record" where
  "built_record ri i m =
     materialized_of (ri_context ri) m (logical_name i) (relation_display (cm_target m))
       (rx_identity_built (ri_context ri) (cm_target m)) (rx_run_id (ri_context ri)) (ri_finished_at ri)"

lemma built_record_simps:
  "mr_model_id (built_record ri i m) = logical_name i"
  "mr_environment (built_record ri i m) = rx_environment (ri_context ri)"
  "mr_version (built_record ri i m) = cm_version m"
  "mr_target (built_record ri i m) = relation_display (cm_target m)"
  "mr_adapter (built_record ri i m) = Some (rx_adapter (ri_context ri))"
  "mr_output_identity (built_record ri i m) = rx_identity_built (ri_context ri) (cm_target m)"
  "mr_materialized_at (built_record ri i m) = ri_finished_at ri"
  by (simp_all add: built_record_def materialized_of_def)

text \<open>A model that passed in a run and was not overwritten before it ended.\<close>

definition built_in :: "run_inputs \<Rightarrow> run_outcome \<Rightarrow> model_id \<Rightarrow> compiled_model \<Rightarrow> bool" where
  "built_in ri out i m \<longleftrightarrow>
     rx_store (ri_context ri) \<noteq> None \<and> i \<in> set (planned_ids (ri_context ri)) \<and>
     sc_status (ro_sched out) i = Some Passed \<and> compilation_model (ri_compilation ri) i = Some m \<and>
     (rx_identity_built (ri_context ri) (cm_target m) = None \<or>
      ri_identity_final ri (cm_target m) = rx_identity_built (ri_context ri) (cm_target m))"

lemma recorded_built:
  assumes "executed ri (Inr out)" "wf_context (ri_context ri)"
  shows "set (rk_materialized (ro_records out)) = {built_record ri i m | i m. built_in ri out i m}"
  using recorded_outputs [OF assms] by (simp add: Let_def built_record_def built_in_def)

text \<open>After the run's records are written, a later plan reads the built model's own record.\<close>

lemma plan_reads_built:
  fixes d :: "'j database"
  assumes run: "executed ri (Inr out)" "wf_context (ri_context ri)" and built: "built_in ri out i m"
    and db: "wf_versions pt d" "pt (ri_finished_at ri) = Some t"
      "\<forall>r \<in> set (db_model_versions d). mr_model_id r = logical_name i \<longrightarrow> the (pt (mr_materialized_at r)) < t"
    and scope: "materialized_scope pt (\<lambda>e. Inr (materialized_in e (versions_after pt (rk_materialized (ro_records out)) d)))
      (rx_environment (ri_context ri)) = Inr a"
  shows "map_of a (logical_name i) = Some (version_row (built_record ri i m))"
proof -
  let ?env = "rx_environment (ri_context ri)" and ?ws = "rk_materialized (ro_records out)"
  let ?d = "versions_after pt ?ws d" and ?r = "version_row (built_record ri i m)"
  let ?R = "{r \<in> set (db_model_versions ?d). env_column (mr_environment r) \<in> labels ?env}"
  have ws: "\<forall>r \<in> set ?ws. pt (mr_materialized_at r) \<noteq> None"
    using db(2) by (auto simp: recorded_built [OF run] built_record_simps)
  note after = wf_versions_after [OF db(1) ws]
  have latest: "latest_of pt mr_model_id mr_materialized_at ?R a"
  proof (rule scope_of_database [OF after(1), of ?env])
    fix b
    assume "materialized_scope pt (\<lambda>e. Inr (materialized_in e ?d)) ?env = Inr b"
      "latest_of pt mr_model_id mr_materialized_at ?R b"
    with scope show ?thesis by simp
  qed
  have mine: "built_record ri i m \<in> set ?ws" using built by (auto simp: recorded_built [OF run])
  have own: "q = built_record ri i m" if written: "q \<in> set ?ws" "mr_model_id q = logical_name i" for q
  proof -
    obtain j n where q: "q = built_record ri j n" "built_in ri out j n"
      using written(1) unfolding recorded_built [OF run] by blast
    have "logical_name j = logical_name i" using written(2) by (simp add: q(1) built_record_simps)
    moreover have "wf_model_id j" "wf_model_id i" using q(2) built planned_wf by (auto simp: built_in_def)
    ultimately have "j = i" by (rule logical_name_inj [rotated 2])
    then show ?thesis using q built by (simp add: built_in_def)
  qed
  have column: "env_column ?env \<in> labels ?env" by (auto simp: labels_def env_column_def split: option.split)
  have rows: "\<forall>r \<in> set (db_model_versions d @ map version_row ?ws). pt (mr_materialized_at r) \<noteq> None"
    using db(1) ws by (auto simp: wf_versions_def)
  have later: "the (pt (mr_materialized_at q)) < t \<or> q = ?r"
    if "q \<in> set (db_model_versions ?d)" "mr_model_id q = logical_name i" for q
  proof -
    have "q \<in> set (db_model_versions d) \<or> q \<in> version_row ` set ?ws"
      using that(1) versions.set_written [of pt "db_model_versions d @ map version_row ?ws"] unfolding after(2) by auto
    then show ?thesis using db(3) own that(2) by auto
  qed
  have "?r \<in> ?R"
  proof -
    let ?k = "version_key ?r"
    have "?k \<in> version_key ` set (db_model_versions d @ map version_row ?ws)" by (rule imageI) (simp add: mine)
    then obtain x where x: "versions.lookup ?k (db_model_versions ?d) = Some x"
      unfolding after(2) by (metis not_None_eq versions.written_none)
    note best = versions.written_best [OF rows x [unfolded after(2)]]
    have "x \<in> set (db_model_versions ?d)" "version_key x = ?k" using versions.lookup_key [OF x] by simp_all
    moreover have "not_older pt mr_materialized_at x ?r" using best mine by simp
    moreover obtain u where "pt (mr_materialized_at x) = Some u" using rows best by blast
    ultimately have "\<not> the (pt (mr_materialized_at x)) < t"
      using db(2) by (simp add: not_older_def rfc3339_less_def built_record_simps)
    moreover have "x \<in> set (db_model_versions ?d)" "version_key x = ?k" using versions.lookup_key [OF x] by simp_all
    ultimately have "x = ?r" using later [of x] by (simp add: version_key_def built_record_simps)
    then show ?thesis
      using \<open>x \<in> set (db_model_versions ?d)\<close> column by (simp add: built_record_simps)
  qed
  then have "map_of a (mr_model_id ?r) = Some ?r"
    by (rule scope_reads_latest [OF latest])
       (use later db(2) in \<open>force simp: built_record_simps\<close>)
  then show ?thesis by (simp add: built_record_simps)
qed

text \<open>
  Property C10. Work that was done is not done again: when a run built a model, nothing overwrote it before
  the run ended, and the store holds no later record of it, then a plan of the same compilation that finds
  the relation with the identity it was built with skips the model.
\<close>

theorem built_model_skipped_next:
  fixes d :: "'j database"
  assumes "executed ri (Inr out)" "wf_context (ri_context ri)" "built_in ri out i m"
    and "wf_versions pt d" "pt (ri_finished_at ri) = Some t"
      "\<forall>r \<in> set (db_model_versions d). mr_model_id r = logical_name i \<longrightarrow> the (pt (mr_materialized_at r)) < t"
    and "materialized_scope pt (\<lambda>e. Inr (materialized_in e (versions_after pt (rk_materialized (ro_records out)) d)))
      (rx_environment (ri_context ri)) = Inr (ga_materialized g)"
    and "found_in (ga_existing g) (cm_target m)"
      "ev_live_output (model_evidence_of g m) = rx_identity_built (ri_context ri) (cm_target m)"
  shows "map_option dec_action (decide True (rx_adapter (ri_context ri)) m (model_evidence_of g m)
    (rx_environment (ri_context ri)) False) = Some Skip"
proof -
  have "i \<in> set (planned_ids (ri_context ri))" "compilation_model (ri_compilation ri) i = Some m"
    using assms(3) by (simp_all add: built_in_def)
  then have "cm_id m = i" using wf_model [OF assms(2)] by fastforce
  then have "ev_current (model_evidence_of g m) = Some (version_row (built_record ri i m))"
    using plan_reads_built [OF assms(1-7)] by (simp add: model_evidence_of_def)
  moreover have "ev_exists (model_evidence_of g m)" using assms(8) by (simp add: model_evidence_of_def)
  ultimately show ?thesis
    using assms(9) by (auto simp: decide_def decide_recorded_def Let_def version_row_def built_record_simps)
qed

text \<open>The run of two models again: the plan after it skips the model that passed.\<close>

definition gathered_after :: "(string \<times> materialized_record) list \<Rightarrow> gathered" where
  "gathered_after materialized =
     (let target = relation_display (cm_target (hd pair_models))
      in \<lparr>ga_existing = [(target, True)], ga_warnings = [], ga_materialized = materialized, ga_seeds = [],
          ga_by_hash = [], ga_live = [(target, Some ''o'')]\<rparr>)"

theorem built_model_skipped_next_witness:
  "\<exists>out materialized. executed stored_run_inputs (Inr out) \<and>
     map_option dec_action (decide True (rx_adapter stored_pair) (hd pair_models)
       (model_evidence_of (gathered_after materialized) (hd pair_models)) None False) = Some Skip"
proof -
  obtain out where out: "executed stored_run_inputs (Inr out)"
    "sc_status (ro_sched out) (mid ''a'') = Some Passed" "sc_status (ro_sched out) (mid ''b'') = Some Failed"
    by (rule stored_run_executes)
  have cx: "ri_context stored_run_inputs = stored_pair" "ri_identity_final stored_run_inputs r = Some ''o''"
    "rx_identity_built stored_pair r = Some ''o''" "ri_finished_at stored_run_inputs = ''u''" for r
    by (simp_all add: stored_run_inputs_def stored_pair_def sample_context_def)
  have wf: "wf_context (ri_context stored_run_inputs)"
    using stored_pair_facts(3) by (simp add: cx runnable_def)
  have built: "built_in stored_run_inputs out (mid ''a'') (hd pair_models)"
    using out(2) failing_pair_models(1) stored_pair_facts(1)
    by (simp add: built_in_def cx stored_pair_like)
  note db = wf_empty_database [of length_time, where 'a = nat]
  let ?d = "versions_after length_time (rk_materialized (ro_records out)) (empty_database :: nat database)"
  obtain a where a: "materialized_scope length_time (\<lambda>e. Inr (materialized_in e ?d)) None = Inr a"
    by (rule scope_of_database [OF wf_versions_after(1) [OF db]]) (simp_all add: length_time_def)
  have "found_in (ga_existing (gathered_after a)) (cm_target (hd pair_models))"
    "ev_live_output (model_evidence_of (gathered_after a) (hd pair_models)) = Some ''o''"
    by (simp_all add: gathered_after_def found_in_def model_evidence_of_def Let_def)
  then have "map_option dec_action (decide True (rx_adapter stored_pair) (hd pair_models)
       (model_evidence_of (gathered_after a) (hd pair_models)) None False) = Some Skip"
    using built_model_skipped_next [OF out(1) wf built db, of 1 "gathered_after a", unfolded cx stored_pair_like] a
    by (simp add: length_time_def empty_database_def gathered_after_def Let_def)
  then show ?thesis using out(1) by blast
qed

end
