(* ===== verification/Nessie.thy ===== *)
theory Nessie
  imports Gates Ordered
begin

text \<open>
  Nessie references, \<^verbatim>\<open>phlo-transform-nessie/src/lib.rs\<close>: the operations of the client trait as the
  record \<open>nessie_client\<close> over a state \<open>'w\<close>, the in-memory client, and the REST client over an HTTP
  transport. An operation takes the state and gives a result or an error with the state after it. JSON
  bodies are the values they encode; decoding a response is a parameter of the REST client. The locale
  \<open>reference_store\<close> states what the rest of the development relies on.
\<close>

section \<open>Operations that may fail\<close>

type_synonym ('w, 'e, 'a) act = "'w \<Rightarrow> ('e + 'a) \<times> 'w"

definition ret :: "'a \<Rightarrow> ('w, 'e, 'a) act" where
  "ret a w = (Inr a, w)"

definition throw :: "'e \<Rightarrow> ('w, 'e, 'a) act" where
  "throw e w = (Inl e, w)"

definition bind_act :: "('w, 'e, 'a) act \<Rightarrow> ('a \<Rightarrow> ('w, 'e, 'b) act) \<Rightarrow> ('w, 'e, 'b) act" where
  "bind_act m f w = (case m w of (Inl e, u) \<Rightarrow> (Inl e, u) | (Inr a, u) \<Rightarrow> f a u)"

text \<open>An operation with its error translated.\<close>

definition map_error :: "('e \<Rightarrow> 'f) \<Rightarrow> ('w, 'e, 'a) act \<Rightarrow> ('w, 'f, 'a) act" where
  "map_error f m w = (case m w of (Inl e, u) \<Rightarrow> (Inl (f e), u) | (Inr a, u) \<Rightarrow> (Inr a, u))"

text \<open>An operation run for its effect, its result ignored.\<close>

definition ignoring :: "('w, 'e, 'a) act \<Rightarrow> 'w \<Rightarrow> 'w" where
  "ignoring m w = snd (m w)"

lemmas act_defs = ret_def throw_def bind_act_def map_error_def ignoring_def

lemma bind_act_Inr:
  "bind_act m f w = (Inr b, v) \<longleftrightarrow> (\<exists>a u. m w = (Inr a, u) \<and> f a u = (Inr b, v))"
  by (auto simp: bind_act_def split: prod.splits sum.splits)

lemma map_error_Inr [simp]: "map_error f m w = (Inr a, u) \<longleftrightarrow> m w = (Inr a, u)"
  by (auto simp: map_error_def split: prod.splits sum.splits)

section \<open>References and errors\<close>

record reference_info =
  rf_name :: string
  rf_hash :: string
  rf_kind :: string

definition reference_branch :: "string \<Rightarrow> string \<Rightarrow> reference_info" where
  "reference_branch name h = \<lparr>rf_name = name, rf_hash = h, rf_kind = ''BRANCH''\<rparr>"

definition merge_clean :: "string \<Rightarrow> merge_outcome" where
  "merge_clean h = \<lparr>mo_hash = Some h, mo_conflicts = []\<rparr>"

definition merge_refused :: "string \<Rightarrow> string \<Rightarrow> merge_outcome" where
  "merge_refused path message =
     \<lparr>mo_hash = None, mo_conflicts = [\<lparr>cf_path = path, cf_message = message\<rparr>]\<rparr>"

datatype nessie_error =
    NessieNotFound string
  | NessieAlreadyExists string
  | NessieTransport string
  | NessieRemote string

fun nessie_error_text :: "nessie_error \<Rightarrow> string" where
  "nessie_error_text (NessieNotFound n) = ''reference `'' @ n @ ''` was not found''"
| "nessie_error_text (NessieAlreadyExists n) = ''reference `'' @ n @ ''` already exists''"
| "nessie_error_text (NessieTransport m) = ''transport error: '' @ m"
| "nessie_error_text (NessieRemote m) = ''nessie error: '' @ m"

section \<open>The client\<close>

record 'w nessie_client =
  nc_get_reference :: "string \<Rightarrow> ('w, nessie_error, reference_info option) act"
  nc_list_references :: "('w, nessie_error, reference_info list) act"
  nc_create_branch :: "string \<Rightarrow> reference_info \<Rightarrow> ('w, nessie_error, reference_info) act"
  nc_delete_branch :: "string \<Rightarrow> ('w, nessie_error, unit) act"
  nc_merge :: "string \<Rightarrow> string option \<Rightarrow> string \<Rightarrow> string option \<Rightarrow> ('w, nessie_error, merge_outcome) act"
  nc_can_merge :: "string \<Rightarrow> string \<Rightarrow> ('w, nessie_error, merge_outcome) act"
  nc_assign_reference :: "string \<Rightarrow> string \<Rightarrow> ('w, nessie_error, reference_info) act"

section \<open>The in-memory client\<close>

type_synonym memory_refs = "(string \<times> reference_info) list"

definition memory_seed :: "string \<Rightarrow> string \<Rightarrow> memory_refs \<Rightarrow> memory_refs" where
  "memory_seed name h = bm_insert name (reference_branch name h)"

definition next_hash :: "string \<Rightarrow> string" where
  "next_hash seed = seed @ ''-00000000''"

definition memory_get :: "string \<Rightarrow> (memory_refs, nessie_error, reference_info option) act" where
  "memory_get name refs = (Inr (map_of refs name), refs)"

definition memory_list :: "(memory_refs, nessie_error, reference_info list) act" where
  "memory_list refs = (Inr (sort_key rf_name (map snd refs)), refs)"

definition memory_create :: "string \<Rightarrow> reference_info \<Rightarrow> (memory_refs, nessie_error, reference_info) act" where
  "memory_create name from refs =
     (if map_of refs name \<noteq> None then (Inl (NessieAlreadyExists name), refs)
      else let h = (if rf_hash from = []
                    then (case map_of refs (rf_name from) of Some r \<Rightarrow> rf_hash r | None \<Rightarrow> next_hash name)
                    else rf_hash from);
               r = reference_branch name h
           in (Inr r, bm_insert name r refs))"

definition memory_delete :: "string \<Rightarrow> (memory_refs, nessie_error, unit) act" where
  "memory_delete name refs =
     (if map_of refs name = None then (Inl (NessieNotFound name), refs)
      else (Inr (), filter (\<lambda>(n, r). n \<noteq> name) refs))"

definition advanced_text :: "string \<Rightarrow> string \<Rightarrow> string" where
  "advanced_text expected found = ''target advanced: expected '' @ expected @ '', found '' @ found"

text \<open>The source hash is not looked at: the source's current head is merged.\<close>

definition memory_merge ::
    "string \<Rightarrow> string option \<Rightarrow> string \<Rightarrow> string option \<Rightarrow> (memory_refs, nessie_error, merge_outcome) act" where
  "memory_merge from_ref from_hash to_ref expected refs =
     (case map_of refs from_ref of
        None \<Rightarrow> (Inl (NessieNotFound from_ref), refs)
      | Some source \<Rightarrow>
          (case map_of refs to_ref of
             None \<Rightarrow> (Inl (NessieNotFound to_ref), refs)
           | Some target \<Rightarrow>
               (case expected of
                  Some e \<Rightarrow>
                    if e \<noteq> rf_hash target
                    then (Inr (merge_refused to_ref (advanced_text e (rf_hash target))), refs)
                    else (Inr (merge_clean (rf_hash source)),
                          bm_insert to_ref (target\<lparr>rf_hash := rf_hash source\<rparr>) refs)
                | None \<Rightarrow> (Inr (merge_clean (rf_hash source)),
                          bm_insert to_ref (target\<lparr>rf_hash := rf_hash source\<rparr>) refs))))"

definition memory_can_merge :: "string \<Rightarrow> string \<Rightarrow> (memory_refs, nessie_error, merge_outcome) act" where
  "memory_can_merge from_ref to_ref refs =
     (case map_of refs from_ref of
        None \<Rightarrow> (Inl (NessieNotFound from_ref), refs)
      | Some source \<Rightarrow>
          if map_of refs to_ref = None then (Inl (NessieNotFound to_ref), refs)
          else (Inr (merge_clean (rf_hash source)), refs))"

definition memory_assign :: "string \<Rightarrow> string \<Rightarrow> (memory_refs, nessie_error, reference_info) act" where
  "memory_assign name h refs =
     (case map_of refs name of
        None \<Rightarrow> (Inl (NessieNotFound name), refs)
      | Some r \<Rightarrow> (Inr (r\<lparr>rf_hash := h\<rparr>), bm_insert name (r\<lparr>rf_hash := h\<rparr>) refs))"

definition memory_nessie :: "memory_refs nessie_client" where
  "memory_nessie =
     \<lparr>nc_get_reference = memory_get, nc_list_references = memory_list, nc_create_branch = memory_create,
      nc_delete_branch = memory_delete, nc_merge = memory_merge, nc_can_merge = memory_can_merge,
      nc_assign_reference = memory_assign\<rparr>"

section \<open>The REST client\<close>

text \<open>A reference name in a path: every byte but the unreserved ones as a percent sign and two digits.\<close>

definition unreserved :: "char \<Rightarrow> bool" where
  "unreserved c \<longleftrightarrow> is_ascii_alphanumeric c \<or> c \<in> {CHR ''-'', CHR ''_'', CHR ''.'', CHR ''~''}"

definition upper_nibble :: "nat \<Rightarrow> char" where
  "upper_nibble n = char_of (if n < 10 then 48 + n else 55 + n)"

definition percent :: "char \<Rightarrow> string" where
  "percent c = [CHR ''%'', upper_nibble (of_char c div 16), upper_nibble (of_char c mod 16)]"

definition percent_encode :: "string \<Rightarrow> string" where
  "percent_encode s = concat (map (\<lambda>c. if unreserved c then [c] else percent c) s)"

definition trim_slashes :: "string \<Rightarrow> string" where
  "trim_slashes s = rev (dropWhile (\<lambda>c. c = CHR ''/'') (rev s))"

record nessie_config =
  nf_endpoint :: string
  nf_token :: "string option"

definition nessie_config_new :: "string \<Rightarrow> nessie_config" where
  "nessie_config_new endpoint =
     (let e = trim_slashes endpoint
      in \<lparr>nf_endpoint = (case strip_suffix ''/api/v2'' e of Some s \<Rightarrow> s | None \<Rightarrow> e), nf_token = None\<rparr>)"

datatype request_body =
    NoBody
  | ReferenceBody string string
  | MergeBody string string bool

datatype http_method = GET | POST | PUT | DELETE

record http_request =
  hq_method :: http_method
  hq_url :: string
  hq_token :: "string option"
  hq_body :: request_body

record http_response =
  hp_status :: nat
  hp_text :: string

text \<open>A conflict is an object with a message and a type, in older shapes a bare text.\<close>

datatype conflict_value =
    ConflictText string
  | ConflictObject "string option" "string option"
  | ConflictOther

record merge_detail =
  md_key :: "string list option"
  md_conflict :: "conflict_value option"

record merge_response =
  mp_was_successful :: bool
  mp_target_hash :: "string option"
  mp_details :: "merge_detail list"

text \<open>The transport, the printed status, and the decoders with their error texts.\<close>

record 'w rest_client =
  rc_config :: nessie_config
  rc_send :: "http_request \<Rightarrow> ('w, string, http_response) act"
  rc_status_text :: "nat \<Rightarrow> string"
  rc_decode_reference :: "string \<Rightarrow> string + reference_info"
  rc_decode_references :: "string \<Rightarrow> string + reference_info list"
  rc_decode_merge :: "string \<Rightarrow> string + merge_response"

definition rest_request :: "'w rest_client \<Rightarrow> http_method \<Rightarrow> string \<Rightarrow> request_body \<Rightarrow> http_request" where
  "rest_request rc method path body =
     \<lparr>hq_method = method, hq_url = nf_endpoint (rc_config rc) @ ''/api/v2'' @ path,
      hq_token = nf_token (rc_config rc), hq_body = body\<rparr>"

definition rest_send :: "'w rest_client \<Rightarrow> http_request \<Rightarrow> ('w, nessie_error, http_response) act" where
  "rest_send rc q = map_error NessieTransport (rc_send rc q)"

definition is_success :: "nat \<Rightarrow> bool" where
  "is_success status \<longleftrightarrow> 200 \<le> status \<and> status < 300"

definition rest_json ::
    "'w rest_client \<Rightarrow> (string \<Rightarrow> string + 'a) \<Rightarrow> http_request \<Rightarrow> ('w, nessie_error, 'a) act" where
  "rest_json rc decode q =
     bind_act (rest_send rc q) (\<lambda>response.
       if hp_status response = 404 then throw (NessieNotFound ''reference'')
       else if \<not> is_success (hp_status response) then
         throw (NessieRemote (''HTTP '' @ rc_status_text rc (hp_status response) @ '': '' @ hp_text response))
       else (case decode (hp_text response) of
               Inl e \<Rightarrow> throw (NessieRemote e)
             | Inr a \<Rightarrow> ret a))"

definition rest_get :: "'w rest_client \<Rightarrow> string \<Rightarrow> ('w, nessie_error, reference_info option) act" where
  "rest_get rc name w =
     (case rest_json rc (rc_decode_reference rc)
             (rest_request rc GET (''/trees/'' @ percent_encode name) NoBody) w of
        (Inr r, u) \<Rightarrow> (Inr (Some r), u)
      | (Inl (NessieNotFound _), u) \<Rightarrow> (Inr None, u)
      | (Inl e, u) \<Rightarrow> (Inl e, u))"

definition rest_list :: "'w rest_client \<Rightarrow> ('w, nessie_error, reference_info list) act" where
  "rest_list rc =
     bind_act (rest_json rc (rc_decode_references rc) (rest_request rc GET ''/trees'' NoBody))
       (\<lambda>rs. ret (sort_key rf_name rs))"

definition rest_create :: "'w rest_client \<Rightarrow> string \<Rightarrow> reference_info \<Rightarrow> ('w, nessie_error, reference_info) act" where
  "rest_create rc name from =
     rest_json rc (rc_decode_reference rc)
       (rest_request rc POST (''/trees?name='' @ percent_encode name @ ''&type=BRANCH'')
         (ReferenceBody (rf_name from) (rf_hash from)))"

text \<open>The head that was observed is what is deleted.\<close>

definition rest_delete :: "'w rest_client \<Rightarrow> string \<Rightarrow> ('w, nessie_error, unit) act" where
  "rest_delete rc name =
     bind_act (rest_get rc name) (\<lambda>found.
       (case found of
          None \<Rightarrow> throw (NessieNotFound name)
        | Some r \<Rightarrow>
            bind_act (rest_send rc (rest_request rc DELETE
                (''/trees/'' @ percent_encode name @ ''@'' @ rf_hash r @ ''?type=BRANCH'') NoBody)) (\<lambda>response.
              if is_success (hp_status response) then ret ()
              else throw (NessieRemote (''delete returned HTTP '' @ rc_status_text rc (hp_status response))))))"

fun conflict_message :: "conflict_value \<Rightarrow> string" where
  "conflict_message (ConflictText kind) = kind"
| "conflict_message (ConflictObject message conflict_type) =
     (case message of
        Some m \<Rightarrow> m
      | None \<Rightarrow> (case conflict_type of Some t \<Rightarrow> t | None \<Rightarrow> ''merge conflict''))"
| "conflict_message ConflictOther = ''merge conflict''"

definition conflict_of :: "merge_detail \<Rightarrow> merge_conflict option" where
  "conflict_of d =
     map_option (\<lambda>v.
       \<lparr>cf_path = (case md_key d of Some elements \<Rightarrow> join ''.'' elements | None \<Rightarrow> []),
        cf_message = conflict_message v\<rparr>)
       (md_conflict d)"

definition merge_outcome_of :: "merge_response \<Rightarrow> string \<Rightarrow> merge_outcome" where
  "merge_outcome_of m raw =
     (let conflicts = List.map_filter conflict_of (mp_details m)
      in \<lparr>mo_hash = mp_target_hash m,
          mo_conflicts = (if \<not> mp_was_successful m \<and> conflicts = []
            then [\<lparr>cf_path = [], cf_message = ''merge was not applied: '' @ raw\<rparr>] else conflicts)\<rparr>)"

definition rest_head :: "'w rest_client \<Rightarrow> string \<Rightarrow> string option \<Rightarrow> ('w, nessie_error, string) act" where
  "rest_head rc name pinned =
     (case pinned of
        Some h \<Rightarrow> ret h
      | None \<Rightarrow> bind_act (rest_get rc name) (\<lambda>found.
          (case found of None \<Rightarrow> throw (NessieNotFound name) | Some r \<Rightarrow> ret (rf_hash r))))"

definition post_merge ::
    "'w rest_client \<Rightarrow> string \<Rightarrow> string option \<Rightarrow> string \<Rightarrow> string option \<Rightarrow> bool
       \<Rightarrow> ('w, nessie_error, merge_outcome) act" where
  "post_merge rc from_ref from_hash to_ref expected dry_run =
     bind_act (rest_head rc to_ref expected) (\<lambda>target.
     bind_act (rest_head rc from_ref from_hash) (\<lambda>source.
     bind_act (rest_send rc (rest_request rc POST
         (''/trees/'' @ percent_encode to_ref @ ''@'' @ target @ ''/history/merge'')
         (MergeBody from_ref source dry_run))) (\<lambda>response.
       (case rc_decode_merge rc (hp_text response) of
          Inr m \<Rightarrow> ret (merge_outcome_of m (hp_text response))
        | Inl e \<Rightarrow>
            if hp_status response = 409
            then ret (merge_refused to_ref (''merge conflict: '' @ hp_text response))
            else throw (NessieRemote (''HTTP '' @ rc_status_text rc (hp_status response) @ '': '' @ e))))))"

definition rest_assign :: "'w rest_client \<Rightarrow> string \<Rightarrow> string \<Rightarrow> ('w, nessie_error, reference_info) act" where
  "rest_assign rc name h =
     rest_json rc (rc_decode_reference rc)
       (rest_request rc PUT (''/trees/'' @ percent_encode name @ ''?type=BRANCH'') (ReferenceBody name h))"

definition rest_nessie :: "'w rest_client \<Rightarrow> 'w nessie_client" where
  "rest_nessie rc =
     \<lparr>nc_get_reference = rest_get rc, nc_list_references = rest_list rc, nc_create_branch = rest_create rc,
      nc_delete_branch = rest_delete rc,
      nc_merge = (\<lambda>from_ref from_hash to_ref expected. post_merge rc from_ref from_hash to_ref expected False),
      nc_can_merge = (\<lambda>from_ref to_ref. post_merge rc from_ref None to_ref None True),
      nc_assign_reference = rest_assign rc\<rparr>"

section \<open>What clients rely on\<close>

text \<open>
  \<open>head\<close> is what a state holds under a name. Reads change nothing; a failed operation, a refused merge and a
  merge check change nothing; a clean merge moves exactly the target, and only from the expected head.
\<close>

locale reference_store =
  fixes cl :: "'w nessie_client" and head :: "'w \<Rightarrow> string \<Rightarrow> reference_info option"
  assumes get: "nc_get_reference cl n w = (Inr found, u) \<Longrightarrow> found = head w n"
    and get_pure: "head (snd (nc_get_reference cl n w)) = head w"
    and create: "nc_create_branch cl n from w = (Inr r, u) \<Longrightarrow>
      head w n = None \<and> rf_name r = n \<and> head u = (head w)(n \<mapsto> r)"
    and create_fails: "nc_create_branch cl n from w = (Inl e, u) \<Longrightarrow> head u = head w"
    and delete: "nc_delete_branch cl n w = (Inr (), u) \<Longrightarrow> head w n \<noteq> None \<and> head u = (head w)(n := None)"
    and delete_fails: "nc_delete_branch cl n w = (Inl e, u) \<Longrightarrow> head u = head w"
    and merge: "nc_merge cl a ah b bh w = (Inr out, u) \<Longrightarrow> is_clean out \<Longrightarrow>
      (\<exists>s t h. head w a = Some s \<and> head w b = Some t \<and> (bh = None \<or> bh = Some (rf_hash t)) \<and>
         mo_hash out = Some h \<and> head u = (head w)(b \<mapsto> t\<lparr>rf_hash := h\<rparr>))"
    and merge_refused: "nc_merge cl a ah b bh w = (Inr out, u) \<Longrightarrow> \<not> is_clean out \<Longrightarrow> head u = head w"
    and merge_fails: "nc_merge cl a ah b bh w = (Inl e, u) \<Longrightarrow> head u = head w"
    and can_merge_pure: "head (snd (nc_can_merge cl a b w)) = head w"

lemma map_of_delete: "map_of (filter (\<lambda>(n, r). n \<noteq> name) refs) = (map_of refs)(name := None)"
  by (induction refs) (auto simp: fun_eq_iff)

lemma map_of_bm_insert: "map_of (bm_insert k v m) = (map_of m)(k \<mapsto> v)"
  by (induction k v m rule: bm_insert.induct) (auto simp: fun_eq_iff)

interpretation memory: reference_store memory_nessie map_of
proof unfold_locales
  fix a ah b bh w out u
  assume h: "nc_merge memory_nessie a ah b bh w = (Inr out, u)" "is_clean out"
  then show "\<exists>s t h. map_of w a = Some s \<and> map_of w b = Some t \<and> (bh = None \<or> bh = Some (rf_hash t)) \<and>
      mo_hash out = Some h \<and> map_of u = (map_of w)(b \<mapsto> t\<lparr>rf_hash := h\<rparr>)"
    by (auto simp: memory_nessie_def memory_merge_def merge_clean_def merge_refused_def is_clean_def map_of_bm_insert
        fun_eq_iff split: option.splits if_splits)
qed (auto simp: memory_nessie_def memory_get_def memory_create_def memory_delete_def memory_merge_def
    memory_can_merge_def merge_clean_def merge_refused_def is_clean_def reference_branch_def Let_def
    map_of_bm_insert fun_eq_iff map_of_delete split: option.splits if_splits)

section \<open>The requests of the REST client\<close>

text \<open>Reading a path segment back.\<close>

definition digit_value :: "char \<Rightarrow> nat" where
  "digit_value c = (let n = of_char c in if n < 58 then n - 48 else n - 55)"

fun percent_decode :: "string \<Rightarrow> string" where
  "percent_decode (c # a # b # s) =
     (if c = CHR ''%'' then char_of (digit_value a * 16 + digit_value b) # percent_decode s
      else c # percent_decode (a # b # s))"
| "percent_decode (c # s) = c # percent_decode s"
| "percent_decode [] = []"

lemma digit_value_nibble: "n < 16 \<Longrightarrow> digit_value (upper_nibble n) = n"
  by (auto simp: digit_value_def upper_nibble_def Let_def of_char_of take_bit_nat_eq_self)

lemma char_high_nibble: "(of_char c :: nat) div 16 < 16"
proof -
  have "(of_char c :: nat) < 256" by simp
  then show ?thesis by (simp add: less_mult_imp_div_less)
qed

lemma percent_not_unreserved: "\<not> unreserved (CHR ''%'')"
  by (simp add: unreserved_def is_ascii_alphanumeric_def is_ascii_digit_def)

lemma percent_decode_plain: "c \<noteq> CHR ''%'' \<Longrightarrow> percent_decode (c # s) = c # percent_decode s"
  by (cases s; cases "tl s") auto

lemma percent_decode_encode: "percent_decode (percent_encode s) = s"
proof (induction s)
  case (Cons c s)
  then show ?case
  proof (cases "unreserved c")
    case True
    then have "c \<noteq> CHR ''%''" using percent_not_unreserved by metis
    then show ?thesis using Cons True by (simp add: percent_encode_def percent_decode_plain)
  qed (simp add: percent_encode_def percent_def digit_value_nibble char_high_nibble)
qed (simp add: percent_encode_def)

text \<open>The client with a log of the requests it sends.\<close>

definition recording :: "'w rest_client \<Rightarrow> (http_request list \<times> 'w) rest_client" where
  "recording rc =
     \<lparr>rc_config = rc_config rc,
      rc_send = (\<lambda>q (log, w). case rc_send rc q w of (r, u) \<Rightarrow> (r, (log @ [q], u))),
      rc_status_text = rc_status_text rc, rc_decode_reference = rc_decode_reference rc,
      rc_decode_references = rc_decode_references rc, rc_decode_merge = rc_decode_merge rc\<rparr>"

definition merge_url :: "'w rest_client \<Rightarrow> string \<Rightarrow> string \<Rightarrow> string" where
  "merge_url rc to_ref target =
     nf_endpoint (rc_config rc) @ ''/api/v2'' @ ''/trees/'' @ percent_encode to_ref @ ''@'' @ target @ ''/history/merge''"

text \<open>Requests that change nothing: reads, and merges that are only checked.\<close>

definition harmless :: "http_request \<Rightarrow> bool" where
  "harmless q \<longleftrightarrow> hq_method q = GET \<or> (\<exists>a h. hq_body q = MergeBody a h True)"

text \<open>The recording client behaves as the client it records.\<close>

lemma recording_request [simp]: "rest_request (recording rc) = rest_request rc"
  by (simp add: fun_eq_iff rest_request_def recording_def)

lemma recording_send:
  "rest_send (recording rc) q (log, w) = (fst (rest_send rc q w), (log @ [q], snd (rest_send rc q w)))"
  by (simp add: rest_send_def map_error_def recording_def split: prod.split sum.split)

lemma recording_json:
  "rest_json (recording rc) decode q (log, w) = (fst (rest_json rc decode q w), (log @ [q], snd (rest_json rc decode q w)))"
  by (simp add: rest_json_def bind_act_def recording_send)
     (simp add: recording_def ret_def throw_def split: prod.split sum.split)

lemma recording_get:
  "rest_get (recording rc) name (log, w) =
     (fst (rest_get rc name w),
      (log @ [rest_request rc GET (''/trees/'' @ percent_encode name) NoBody], snd (rest_get rc name w)))"
proof -
  have decode: "rc_decode_reference (recording rc) = rc_decode_reference rc" by (simp add: recording_def)
  show ?thesis
    by (simp add: rest_get_def recording_json decode split: prod.split sum.split nessie_error.split)
qed

text \<open>The hash a reference is taken at: the one given, or else the one the server answers for its name.\<close>

definition head_at :: "'w rest_client \<Rightarrow> string \<Rightarrow> string option \<Rightarrow> 'w \<Rightarrow> string option \<times> 'w" where
  "head_at rc name given w =
     (case given of
        Some h \<Rightarrow> (Some h, w)
      | None \<Rightarrow> (case rest_get rc name w of (Inr (Some r), u) \<Rightarrow> (Some (rf_hash r), u) | (_, u) \<Rightarrow> (None, u)))"

definition read_request :: "'w rest_client \<Rightarrow> string \<Rightarrow> string option \<Rightarrow> http_request list" where
  "read_request rc name given =
     (if given = None
      then [\<lparr>hq_method = GET, hq_url = nf_endpoint (rc_config rc) @ ''/api/v2'' @ ''/trees/'' @ percent_encode name,
              hq_token = nf_token (rc_config rc), hq_body = NoBody\<rparr>]
      else [])"

text \<open>
  The requests of a merge of \<open>a\<close> into \<open>b\<close>: the hash of the target is read when it is not given, then
  that of the source, and when both are known one request names both references at these hashes.
\<close>

definition merge_trace ::
    "'w rest_client \<Rightarrow> string \<Rightarrow> string option \<Rightarrow> string \<Rightarrow> string option \<Rightarrow> bool \<Rightarrow> 'w \<Rightarrow> http_request list" where
  "merge_trace rc a ah b bh dry w =
     read_request rc b bh @
     (case head_at rc b bh w of
        (None, u) \<Rightarrow> []
      | (Some target, u) \<Rightarrow>
          read_request rc a ah @
          (case head_at rc a ah u of
             (None, v) \<Rightarrow> []
           | (Some source, v) \<Rightarrow>
               [\<lparr>hq_method = POST, hq_url = merge_url rc b target, hq_token = nf_token (rc_config rc),
                 hq_body = MergeBody a source dry\<rparr>]))"

lemma recording_head:
  assumes "head_at rc name given w = (found, u)"
  obtains r where "rest_head (recording rc) name given (log, w) = (r, (log @ read_request rc name given, u))"
    "case r of Inl e \<Rightarrow> found = None | Inr h \<Rightarrow> found = Some h"
  using assms
  by (cases given)
     (auto simp: rest_head_def head_at_def read_request_def bind_act_def recording_get rest_request_def
       ret_def throw_def split: prod.splits sum.splits option.splits)

lemma post_merge_trace:
  "fst (snd (post_merge (recording rc) a ah b bh dry (log, w))) = log @ merge_trace rc a ah b bh dry w"
proof -
  obtain found u where target: "head_at rc b bh w = (found, u)" by (cases "head_at rc b bh w")
  obtain source v where source: "head_at rc a ah u = (source, v)" by (cases "head_at rc a ah u")
  obtain t where t: "rest_head (recording rc) b bh (log, w) = (t, (log @ read_request rc b bh, u))"
    "case t of Inl e \<Rightarrow> found = None | Inr h \<Rightarrow> found = Some h"
    by (rule recording_head [OF target])
  obtain x where x: "rest_head (recording rc) a ah (log @ read_request rc b bh, u) =
      (x, ((log @ read_request rc b bh) @ read_request rc a ah, v))"
    "case x of Inl e \<Rightarrow> source = None | Inr h \<Rightarrow> source = Some h"
    by (rule recording_head [OF source])
  show ?thesis
  proof (cases t)
    case (Inl e)
    then show ?thesis using t by (simp add: post_merge_def bind_act_def merge_trace_def target)
  next
    case h: (Inr h)
    show ?thesis
    proof (cases x)
      case (Inl e)
      then show ?thesis using t x h by (simp add: post_merge_def bind_act_def merge_trace_def target source)
    next
      case (Inr s)
      have "fst (snd (post_merge (recording rc) a ah b bh dry (log, w))) =
          log @ read_request rc b bh @ read_request rc a ah @
          [rest_request rc POST (''/trees/'' @ percent_encode b @ ''@'' @ h @ ''/history/merge'') (MergeBody a s dry)]"
        using t(1) x(1)
        by (simp add: post_merge_def bind_act_def h Inr recording_send)
           (simp add: ret_def throw_def split: prod.split sum.split)
      then show ?thesis
        using t(2) x(2) by (simp add: h Inr merge_trace_def target source merge_url_def rest_request_def)
    qed
  qed
qed

text \<open>
  Property C32. The requests of a merge and of a merge check, whatever the server answers. A merge reads the
  hash of the target, unless it was given one, then in the same way that of the source, and then sends one
  request, which merges the source at its hash into the target at its hash; if a hash that was not given
  cannot be read, it stops there. A merge check does the same without given hashes, with the request marked
  as a dry run, so all it sends are reads and that request.
\<close>

theorem rest_merge_requests:
  "fst (snd (nc_merge (rest_nessie (recording rc)) a ah b bh (log, w))) = log @ merge_trace rc a ah b bh False w \<and>
   fst (snd (nc_can_merge (rest_nessie (recording rc)) a b (log, w))) = log @ merge_trace rc a None b None True w \<and>
   list_all harmless (merge_trace rc a None b None True w)"
proof (intro conjI)
  show "list_all harmless (merge_trace rc a None b None True w)"
    by (simp add: merge_trace_def read_request_def harmless_def split: prod.split option.split)
qed (simp_all add: rest_nessie_def post_merge_trace)

text \<open>
  Property C33. A reference name in a path names that reference and nothing else: reading the percent signs of
  the encoded name back gives the name, and no encoded name holds a character with a meaning in a path or a
  query.
\<close>

theorem percent_encode_faithful:
  "percent_decode (percent_encode s) = s \<and> set (percent_encode s) \<subseteq> {c. unreserved c \<or> c = CHR ''%''}"
proof
  show "percent_decode (percent_encode s) = s" by (rule percent_decode_encode)
  have "unreserved (upper_nibble n)" if "n < 16" for n
  proof -
    have "(of_char (upper_nibble n) :: nat) = (if n < 10 then 48 + n else 55 + n)"
      using that by (simp add: upper_nibble_def of_char_of take_bit_nat_eq_self)
    then show ?thesis using that by (auto simp: unreserved_def is_ascii_alphanumeric_def is_ascii_digit_def)
  qed
  then show "set (percent_encode s) \<subseteq> {c. unreserved c \<or> c = CHR ''%''}"
    by (auto simp: percent_encode_def percent_def char_high_nibble split: if_splits)
qed

end
