(* ===== verification/Environment.thy ===== *)
theory Environment
  imports Store Nessie
begin

text \<open>
  Candidate environments: a Nessie branch with a catalog of its own. Provisioning is
  \<^verbatim>\<open>phlo-transform-engine/src/environment.rs\<close>, the recorded evidence of it
  \<^verbatim>\<open>phlo-transform-engine/src/audit.rs\<close>. What the functions act on is the record \<open>platform\<close>: the Nessie
  client, the warehouse, the evidence part of the state store, the artifact files of the workspace, and
  the codec of an evidence payload. Compiling a retargeted workspace is a parameter of \<open>resolve\<close>.
\<close>

unbundle bit_operations_syntax

section \<open>Catalogs and bindings\<close>

datatype catalog_status = CatalogCreated | CatalogUnverified | CatalogUnmanaged

record catalog_request =
  cq_catalog :: string
  cq_reference :: "string option"
  cq_nessie_uri :: "string option"
  cq_warehouse :: "string option"

record environment_spec =
  es_base_ref :: string
  es_candidate_ref :: string
  es_nessie_uri :: "string option"
  es_warehouse :: "string option"
  es_catalog :: "string option"

record environment_setup =
  en_base :: reference_info
  en_candidate :: reference_info
  en_created_from :: "reference_info option"
  en_created_branch :: bool
  en_catalog :: string
  en_catalog_status :: catalog_status
  en_owned :: "bool option"

definition owns_catalog :: "environment_setup \<Rightarrow> bool" where
  "owns_catalog s =
     (case en_owned s of Some owned \<Rightarrow> owned | None \<Rightarrow> en_catalog_status s = CatalogCreated)"

subsection \<open>Names\<close>

text \<open>Runs of characters that are not alphanumeric become one underscore.\<close>

definition fold_char :: "char \<Rightarrow> string \<times> bool \<Rightarrow> string \<times> bool" where
  "fold_char c = (\<lambda>(name, underscore).
     if is_ascii_alphanumeric c then (name @ to_ascii_lowercase [c], False)
     else if underscore then (name, True) else (name @ ''_'', True))"

definition fold_reference :: "string \<Rightarrow> bool \<Rightarrow> string \<Rightarrow> string" where
  "fold_reference prefix underscore reference = fst (fold fold_char reference (prefix, underscore))"

definition trim_underscores :: "string \<Rightarrow> string" where
  "trim_underscores s = rev (dropWhile (\<lambda>c. c = CHR ''_'') (rev s))"

definition catalog_name :: "(string \<Rightarrow> string) \<Rightarrow> string \<Rightarrow> string" where
  "catalog_name sha reference =
     trim_underscores (take 48 (trim_underscores (fold_reference ''phlo_'' False reference))) @
     ''_'' @ take 8 (sha reference)"

text \<open>The 32-bit FNV-1a hash, printed with eight digits.\<close>

definition fnv1a :: "string \<Rightarrow> 32 word" where
  "fnv1a s = foldl (\<lambda>h c. (h XOR of_nat (of_char c)) * 0x01000193) 0x811c9dc5 s"

definition hex8 :: "32 word \<Rightarrow> string" where
  "hex8 w = map (\<lambda>k. nibble (unat (drop_bit (4 * (7 - k)) w AND 0xF))) [0..<8]"

definition environment_artifact_name :: "string \<Rightarrow> string" where
  "environment_artifact_name reference =
     trim_underscores (fold_reference ''environment_'' True reference) @ ''_'' @ hex8 (fnv1a reference) @ ''.json''"

section \<open>The platform\<close>

record 'w warehouse =
  wh_name :: string
  wh_provisions :: bool
  wh_ensure_catalog :: "catalog_request \<Rightarrow> ('w, adapter_error, catalog_status) act"
  wh_drop_catalog :: "string \<Rightarrow> ('w, adapter_error, unit) act"
  wh_columns :: "relation \<Rightarrow> 'w \<Rightarrow> adapter_error + column_info list"
  wh_source_state :: "relation \<Rightarrow> 'w \<Rightarrow> adapter_error + string option"

record ('w, 'j) evidence_store =
  xs_for :: "evidence_kind \<Rightarrow> string \<Rightarrow> ('w, engine_error, 'j evidence_record list) act"
  xs_latest :: "evidence_kind \<Rightarrow> ('w, engine_error, 'j evidence_record list) act"
  xs_record :: "'j evidence_record \<Rightarrow> ('w, engine_error, unit) act"
  xs_remove :: "evidence_kind \<Rightarrow> string \<Rightarrow> ('w, engine_error, unit) act"

text \<open>The artifact files: the binding a file holds, if it can be read and parsed, and the files there are.\<close>

record 'w environment_files =
  fl_read :: "string \<Rightarrow> 'w \<Rightarrow> environment_setup option"
  fl_names :: "'w \<Rightarrow> string list"
  fl_write :: "string \<Rightarrow> environment_setup \<Rightarrow> ('w, string, unit) act"
  fl_remove :: "string \<Rightarrow> ('w, string, unit) act"

record ('w, 'j) platform =
  pf_nessie :: "'w nessie_client"
  pf_warehouse :: "'w warehouse"
  pf_state :: "('w, 'j) evidence_store option"
  pf_files :: "'w environment_files"
  pf_encode :: "environment_setup \<Rightarrow> 'j"
  pf_decode :: "'j \<Rightarrow> string + environment_setup"
  pf_stamp :: "'w \<Rightarrow> (string \<times> string) \<times> 'w"
  pf_sha :: "string \<Rightarrow> string"

section \<open>Provisioning\<close>

text \<open>A reference that has to be there, or the error of its absence.\<close>

definition require_reference ::
    "'w nessie_client \<Rightarrow> (string \<Rightarrow> engine_error) \<Rightarrow> string \<Rightarrow> string \<Rightarrow> ('w, engine_error, reference_info) act" where
  "require_reference cl wrap role name =
     bind_act (map_error (\<lambda>e. wrap (nessie_error_text e)) (nc_get_reference cl name)) (\<lambda>found.
       (case found of
          None \<Rightarrow> throw (ENotFound (role @ '' reference `'' @ name @ ''` was not found''))
        | Some r \<Rightarrow> ret r))"

definition ensure_branch ::
    "'w nessie_client \<Rightarrow> environment_spec \<Rightarrow> reference_info \<Rightarrow> ('w, engine_error, reference_info \<times> bool) act" where
  "ensure_branch cl spec base =
     (if es_candidate_ref spec = es_base_ref spec then ret (base, False)
      else bind_act (map_error (\<lambda>e. EEnvironment (nessie_error_text e))
               (nc_get_reference cl (es_candidate_ref spec))) (\<lambda>found.
             (case found of
                Some existing \<Rightarrow> ret (existing, False)
              | None \<Rightarrow>
                  bind_act (map_error (\<lambda>e. EEnvironment (nessie_error_text e))
                      (nc_create_branch cl (es_candidate_ref spec) base))
                    (\<lambda>created. ret (created, True)))))"

text \<open>A branch just created is deleted again when the environment cannot be had.\<close>

definition roll_back :: "'w nessie_client \<Rightarrow> bool \<Rightarrow> string \<Rightarrow> engine_error \<Rightarrow> ('w, engine_error, 'a) act" where
  "roll_back cl created name e w =
     (Inl e, if created then ignoring (nc_delete_branch cl name) w else w)"

definition unprovisioned_text :: "string \<Rightarrow> string \<Rightarrow> string" where
  "unprovisioned_text adapter reference =
     ''adapter `'' @ adapter @ ''` cannot provision a catalog bound to Nessie ref `'' @ reference @
     ''` '' @ em_dash @ '' the environment claims branch isolation it cannot honour''"

definition ensure_environment ::
    "(string \<Rightarrow> string) \<Rightarrow> 'w nessie_client \<Rightarrow> 'w warehouse \<Rightarrow> environment_spec
       \<Rightarrow> ('w, engine_error, environment_setup) act" where
  "ensure_environment sha cl wh spec =
     bind_act (require_reference cl EEnvironment ''base'' (es_base_ref spec)) (\<lambda>base.
     bind_act (ensure_branch cl spec base) (\<lambda>(candidate, created_branch) w.
       let created_from = (if created_branch \<or> rf_name candidate = rf_name base then Some base else None);
           catalog = (case es_catalog spec of Some c \<Rightarrow> c | None \<Rightarrow> catalog_name sha (es_candidate_ref spec));
           request = \<lparr>cq_catalog = catalog, cq_reference = Some (es_candidate_ref spec),
                      cq_nessie_uri = es_nessie_uri spec, cq_warehouse = es_warehouse spec\<rparr>
       in case wh_ensure_catalog wh request w of
            (Inl e, u) \<Rightarrow> roll_back cl created_branch (es_candidate_ref spec) (EAdapter e) u
          | (Inr status, u) \<Rightarrow>
              if status = CatalogUnmanaged \<and> es_nessie_uri spec \<noteq> None \<and> es_catalog spec = None
              then roll_back cl created_branch (es_candidate_ref spec)
                     (ENotConfigured (unprovisioned_text (wh_name wh) (es_candidate_ref spec))) u
              else (Inr \<lparr>en_base = base, en_candidate = candidate, en_created_from = created_from,
                         en_created_branch = created_branch, en_catalog = catalog,
                         en_catalog_status = status, en_owned = None\<rparr>, u)))"

section \<open>The binding of a candidate\<close>

definition resolve_catalog :: "(string \<Rightarrow> string) \<Rightarrow> environment_spec \<Rightarrow> environment_setup option \<Rightarrow> string" where
  "resolve_catalog sha spec prior =
     (case es_catalog spec of
        Some c \<Rightarrow> c
      | None \<Rightarrow> (case prior of Some p \<Rightarrow> en_catalog p | None \<Rightarrow> catalog_name sha (es_candidate_ref spec)))"

definition prior_records_binding :: "(string \<Rightarrow> string) \<Rightarrow> environment_setup \<Rightarrow> string \<Rightarrow> bool" where
  "prior_records_binding sha prior candidate_ref =
     (case en_catalog_status prior of
        CatalogCreated \<Rightarrow> True
      | CatalogUnverified \<Rightarrow> en_owned prior \<noteq> None
      | CatalogUnmanaged \<Rightarrow> en_catalog prior \<noteq> catalog_name sha candidate_ref)"

definition catalog_is_pinned :: "(string \<Rightarrow> string) \<Rightarrow> environment_spec \<Rightarrow> environment_setup option \<Rightarrow> bool" where
  "catalog_is_pinned sha spec prior \<longleftrightarrow>
     es_catalog spec \<noteq> None \<or>
     (case prior of Some p \<Rightarrow> prior_records_binding sha p (es_candidate_ref spec) | None \<Rightarrow> False)"

section \<open>Recorded evidence\<close>

definition environment_record ::
    "('w, 'j) platform \<Rightarrow> environment_setup \<Rightarrow> string \<times> string \<Rightarrow> 'j evidence_record" where
  "environment_record pf setup = (\<lambda>(evidence_id, now).
     \<lparr>er_evidence_id = evidence_id, er_kind = EnvironmentEvidence, er_subject = rf_name (en_candidate setup),
      er_target_ref = (case en_created_from setup of Some base \<Rightarrow> rf_name base | None \<Rightarrow> []),
      er_candidate_hash = Some (rf_hash (en_candidate setup)),
      er_target_hash = map_option rf_hash (en_created_from setup), er_fingerprint = None,
      er_payload = pf_encode pf setup, er_run_id = None, er_created_at = now\<rparr>)"

text \<open>Operations that need a fresh identifier and the time.\<close>

definition with_stamp :: "('w, 'j) platform \<Rightarrow> (string \<times> string \<Rightarrow> ('w, 'e, 'a) act) \<Rightarrow> ('w, 'e, 'a) act" where
  "with_stamp pf f w = (case pf_stamp pf w of (stamp, u) \<Rightarrow> f stamp u)"

definition unreadable :: "engine_error \<Rightarrow> engine_error" where
  "unreadable e = EState (''cannot read the evidence store: '' @ engine_error_text e)"

text \<open>A record the store already carries is not written again; the identifier of the standing one is given.\<close>

definition import_evidence :: "('w, 'j) evidence_store \<Rightarrow> 'j evidence_record \<Rightarrow> ('w, engine_error, string option) act" where
  "import_evidence st r =
     bind_act (map_error unreadable (xs_for st (er_kind r) (er_subject r))) (\<lambda>standing.
       (case find (\<lambda>x. er_target_ref x = er_target_ref r \<and>
                      (er_created_at x = er_created_at r \<or> er_payload x = er_payload r)) standing of
          Some x \<Rightarrow> ret (Some (er_evidence_id x))
        | None \<Rightarrow>
            bind_act (map_error (\<lambda>e. EState (''cannot persist '' @ evidence_kind_str (er_kind r) @ '' evidence for `'' @
                er_subject r @ ''` to the state store: '' @ engine_error_text e)) (xs_record st r))
              (\<lambda>_. ret (Some (er_evidence_id r)))))"

text \<open>The files of a candidate: its own, else the single slot when it names the candidate.\<close>

definition names_candidate :: "string \<Rightarrow> environment_setup option \<Rightarrow> environment_setup option" where
  "names_candidate candidate found =
     (case found of
        Some s \<Rightarrow> if rf_name (en_candidate s) = candidate then Some s else None
      | None \<Rightarrow> None)"

definition read_environment_files :: "'w environment_files \<Rightarrow> string \<Rightarrow> 'w \<Rightarrow> environment_setup option" where
  "read_environment_files fl candidate w =
     (case names_candidate candidate (fl_read fl (environment_artifact_name candidate) w) of
        Some s \<Rightarrow> Some s
      | None \<Rightarrow> names_candidate candidate (fl_read fl ''environment.json'' w))"

definition decode_environment :: "('w, 'j) platform \<Rightarrow> 'j \<Rightarrow> engine_error + environment_setup" where
  "decode_environment pf payload =
     (case pf_decode pf payload of
        Inl e \<Rightarrow> Inl (EState (''undecodable environment evidence: '' @ e))
      | Inr s \<Rightarrow> Inr s)"

definition lift_sum :: "'e + 'a \<Rightarrow> ('w, 'e, 'a) act" where
  "lift_sum r w = (r, w)"

definition mismatched_text :: "string \<Rightarrow> string \<Rightarrow> string" where
  "mismatched_text candidate found =
     ''environment evidence recorded for `'' @ candidate @ ''` decodes to a binding for `'' @ found @ ''`''"

definition read_environment_evidence ::
    "('w, 'j) platform \<Rightarrow> string \<Rightarrow> ('w, engine_error, environment_setup option \<times> string option) act" where
  "read_environment_evidence pf candidate =
     (case pf_state pf of
        None \<Rightarrow> (\<lambda>w. (Inr (read_environment_files (pf_files pf) candidate w, None), w))
      | Some st \<Rightarrow>
          bind_act (map_error unreadable (xs_for st EnvironmentEvidence candidate)) (\<lambda>records.
            (case records of
               r # _ \<Rightarrow>
                 bind_act (lift_sum (decode_environment pf (er_payload r))) (\<lambda>setup.
                   if rf_name (en_candidate setup) \<noteq> candidate
                   then throw (EState (mismatched_text candidate (rf_name (en_candidate setup))))
                   else ret (Some setup, Some (er_evidence_id r)))
             | [] \<Rightarrow> (\<lambda>w.
                 case read_environment_files (pf_files pf) candidate w of
                   None \<Rightarrow> (Inr (None, None), w)
                 | Some setup \<Rightarrow>
                     with_stamp pf (\<lambda>stamp.
                       bind_act (import_evidence st (environment_record pf setup stamp))
                         (\<lambda>evidence_id. ret (Some setup, evidence_id))) w))))"

definition read_environment_for ::
    "('w, 'j) platform \<Rightarrow> string \<Rightarrow> ('w, engine_error, environment_setup option) act" where
  "read_environment_for pf candidate =
     bind_act (read_environment_evidence pf candidate) (\<lambda>(setup, _). ret setup)"

subsection \<open>Every binding\<close>

definition same_candidate :: "environment_setup \<Rightarrow> environment_setup \<Rightarrow> bool" where
  "same_candidate a b \<longleftrightarrow> rf_name (en_candidate a) = rf_name (en_candidate b)"

text \<open>The newest record of each candidate; an undecodable record is an error.\<close>

fun latest_bindings ::
    "('w, 'j) platform \<Rightarrow> 'j evidence_record list \<Rightarrow> environment_setup list \<Rightarrow> engine_error + environment_setup list" where
  "latest_bindings pf [] setups = Inr setups"
| "latest_bindings pf (r # rs) setups =
     (case decode_environment pf (er_payload r) of
        Inl e \<Rightarrow> Inl e
      | Inr s \<Rightarrow>
          if list_ex (same_candidate s) setups then latest_bindings pf rs setups
          else latest_bindings pf rs (setups @ [s]))"

definition is_environment_file :: "string \<Rightarrow> bool" where
  "is_environment_file name \<longleftrightarrow> starts_with ''environment'' name \<and> ends_with ''.json'' name"

text \<open>Files add the candidates the store does not know, and bring them into the store.\<close>

fun add_file_bindings ::
    "('w, 'j) platform \<Rightarrow> string list \<Rightarrow> environment_setup list \<Rightarrow> ('w, engine_error, environment_setup list) act" where
  "add_file_bindings pf [] setups w = (Inr setups, w)"
| "add_file_bindings pf (name # names) setups w =
     (case (if is_environment_file name then fl_read (pf_files pf) name w else None) of
        None \<Rightarrow> add_file_bindings pf names setups w
      | Some s \<Rightarrow>
          if list_ex (same_candidate s) setups then add_file_bindings pf names setups w
          else (case pf_state pf of
                  None \<Rightarrow> add_file_bindings pf names (setups @ [s]) w
                | Some st \<Rightarrow>
                    (case with_stamp pf (\<lambda>stamp. import_evidence st (environment_record pf s stamp)) w of
                       (Inl e, u) \<Rightarrow> (Inl e, u)
                     | (Inr _, u) \<Rightarrow> add_file_bindings pf names (setups @ [s]) u)))"

definition environment_artifacts :: "('w, 'j) platform \<Rightarrow> ('w, engine_error, environment_setup list) act" where
  "environment_artifacts pf =
     bind_act
       (case pf_state pf of
          None \<Rightarrow> ret []
        | Some st \<Rightarrow>
            bind_act (map_error unreadable (xs_latest st EnvironmentEvidence))
              (\<lambda>records. lift_sum (latest_bindings pf records [])))
       (\<lambda>setups w. add_file_bindings pf (fl_names (pf_files pf) w) setups w)"

subsection \<open>Writing and removing\<close>

definition record_environment ::
    "('w, 'j) platform \<Rightarrow> ('w, 'j) evidence_store \<Rightarrow> environment_setup \<Rightarrow> ('w, string, unit) act" where
  "record_environment pf st setup =
     with_stamp pf (\<lambda>stamp.
       let r = environment_record pf setup stamp
       in bind_act (map_error engine_error_text (xs_for st EnvironmentEvidence (er_subject r))) (\<lambda>records.
            case records of
              x # _ \<Rightarrow>
                if er_target_ref x = er_target_ref r \<and> er_payload x = er_payload r then ret ()
                else map_error engine_error_text (xs_record st r)
            | [] \<Rightarrow> map_error engine_error_text (xs_record st r)))"

definition write_environment_artifacts ::
    "('w, 'j) platform \<Rightarrow> environment_setup \<Rightarrow> ('w, string, unit) act" where
  "write_environment_artifacts pf setup =
     bind_act (case pf_state pf of None \<Rightarrow> ret () | Some st \<Rightarrow> record_environment pf st setup) (\<lambda>_.
     bind_act (fl_write (pf_files pf) ''environment.json'' setup) (\<lambda>_.
       fl_write (pf_files pf) (environment_artifact_name (rf_name (en_candidate setup))) setup))"

definition remove_environment_artifacts :: "('w, 'j) platform \<Rightarrow> string \<Rightarrow> ('w, engine_error, unit) act" where
  "remove_environment_artifacts pf candidate =
     bind_act (map_error EArtifact (fl_remove (pf_files pf) (environment_artifact_name candidate))) (\<lambda>_.
     bind_act (\<lambda>w.
         case names_candidate candidate (fl_read (pf_files pf) ''environment.json'' w) of
           Some _ \<Rightarrow> map_error EArtifact (fl_remove (pf_files pf) ''environment.json'') w
         | None \<Rightarrow> (Inr (), w)) (\<lambda>_.
       case pf_state pf of
         None \<Rightarrow> ret ()
       | Some st \<Rightarrow>
           map_error (\<lambda>e. EState (''cannot remove environment evidence: '' @ engine_error_text e))
             (xs_remove st EnvironmentEvidence candidate)))"

section \<open>Ensuring a candidate\<close>

definition claimed_text :: "string \<Rightarrow> string" where
  "claimed_text catalog =
     ''catalog `'' @ catalog @ ''` is already claimed by another candidate '' @ em_dash @
     '' choose a different `--catalog` or remove the other candidate's artifacts''"

definition unverified_text :: "string \<Rightarrow> string \<Rightarrow> string" where
  "unverified_text catalog reference =
     ''catalog `'' @ catalog @ ''` already exists but cannot be verified as bound to `'' @ reference @
     ''` '' @ em_dash @ '' drop it or let phlo provision it once so the binding is recorded''"

definition vouched :: "(string \<Rightarrow> string) \<Rightarrow> environment_spec \<Rightarrow> environment_setup option \<Rightarrow> string \<Rightarrow> bool" where
  "vouched sha spec prior catalog \<longleftrightarrow>
     (case prior of
        Some p \<Rightarrow> en_catalog p = catalog \<and> prior_records_binding sha p (es_candidate_ref spec)
      | None \<Rightarrow> False)"

text \<open>Ownership is decided at provisioning and kept by the record that vouches for the catalog.\<close>

definition catalog_owned :: "environment_setup option \<Rightarrow> environment_setup \<Rightarrow> bool" where
  "catalog_owned prior setup =
     (case en_catalog_status setup of
        CatalogCreated \<Rightarrow> True
      | CatalogUnverified \<Rightarrow>
          (case prior of Some p \<Rightarrow> en_catalog p = en_catalog setup \<and> owns_catalog p | None \<Rightarrow> False)
      | CatalogUnmanaged \<Rightarrow> False)"

definition completed_setup :: "environment_setup option \<Rightarrow> environment_setup \<Rightarrow> environment_setup" where
  "completed_setup prior setup =
     setup\<lparr>en_owned := Some (catalog_owned prior setup),
           en_created_from := (case en_created_from setup of
              Some base \<Rightarrow> Some base
            | None \<Rightarrow> Option.bind prior en_created_from)\<rparr>"

definition ensure_candidate ::
    "('w, 'j) platform \<Rightarrow> environment_spec \<Rightarrow> ('w, engine_error, environment_setup) act" where
  "ensure_candidate pf spec =
     bind_act (read_environment_for pf (es_candidate_ref spec)) (\<lambda>prior.
     bind_act (environment_artifacts pf) (\<lambda>others.
       let catalog = resolve_catalog (pf_sha pf) spec prior
       in if list_ex (\<lambda>other. en_catalog other = catalog \<and>
                rf_name (en_candidate other) \<noteq> es_candidate_ref spec) others
          then throw (EEnvironment (claimed_text catalog))
          else
            bind_act (ensure_environment (pf_sha pf) (pf_nessie pf) (pf_warehouse pf)
                (spec\<lparr>es_catalog := (if catalog_is_pinned (pf_sha pf) spec prior then Some catalog else None)\<rparr>))
              (\<lambda>setup.
                if en_catalog_status setup = CatalogUnverified \<and>
                   \<not> vouched (pf_sha pf) spec prior (en_catalog setup)
                then roll_back (pf_nessie pf) (en_created_branch setup) (es_candidate_ref spec)
                       (EEnvironment (unverified_text (en_catalog setup) (es_candidate_ref spec)))
                else
                  bind_act (map_error EArtifact (write_environment_artifacts pf (completed_setup prior setup)))
                    (\<lambda>_. ret (completed_setup prior setup)))))"

section \<open>Compiling for a catalog\<close>

text \<open>
  A loaded project is its defaults and its content; loading it and compiling it with the schemas and the
  states of the sources are arguments.
\<close>

record 'p project =
  pj_defaults :: workspace_defaults
  pj_content :: 'p

type_synonym source_schemas = "string \<rightharpoonup> schema_col list"

record ('w, 'p) workspace =
  wk_label :: string
  wk_load :: "'w \<Rightarrow> diagnostic list + 'p project"
  wk_compile :: "'p project \<Rightarrow> source_schemas \<Rightarrow> (string \<rightharpoonup> string) \<Rightarrow> compilation"

definition observed_column :: "column_info \<Rightarrow> schema_col" where
  "observed_column c =
     \<lparr>sc_name = ci_name c, sc_type = parse_trino (ci_data_type c),
      sc_nullability = (if ci_nullable c then NullUnknown else NotNull)\<rparr>"

text \<open>A source that does not answer, or has no columns, keeps its declared schema.\<close>

definition observed_schemas ::
    "'w warehouse \<Rightarrow> string option \<Rightarrow> string option \<Rightarrow> source_id list \<Rightarrow> 'w \<Rightarrow> source_schemas" where
  "observed_schemas wh catalog schema sources w =
     fold (\<lambda>s schemas.
             case wh_columns wh (relation_for_source s catalog schema) w of
               Inl e \<Rightarrow> schemas
             | Inr columns \<Rightarrow>
                 if columns = [] then schemas else schemas(source_name s \<mapsto> map observed_column columns))
       sources Map.empty"

definition enrich_sources ::
    "('w, 'p) workspace \<Rightarrow> 'w warehouse \<Rightarrow> 'p project \<Rightarrow> string option \<Rightarrow> string option \<Rightarrow> compilation \<Rightarrow> 'w
       \<Rightarrow> compilation" where
  "enrich_sources wk wh project catalog schema_setting base w =
     (let sources = graph_source_ids (cp_graph base);
          schema = (case schema_setting of Some s \<Rightarrow> Some s | None \<Rightarrow> adapter_default_schema (wh_name wh));
          states = (case collect_source_states
                           (\<lambda>r. map_sum engine_error_text (\<lambda>x. x) (map_sum EAdapter (\<lambda>x. x) (wh_source_state wh r w)))
                           (wh_name wh) (cp_seeds base) catalog schema sources Map.empty of
                      Inl e \<Rightarrow> Map.empty
                    | Inr states \<Rightarrow> states)
      in wk_compile wk project (observed_schemas wh catalog schema sources w) states)"

definition compile_for_catalog ::
    "('w, 'p) workspace \<Rightarrow> string option \<Rightarrow> 'w warehouse option \<Rightarrow> bool \<Rightarrow> ('w, engine_error, compilation) act" where
  "compile_for_catalog wk catalog warehouse enrich w =
     (case wk_load wk w of
        Inl ds \<Rightarrow> (Inl (EFailedDiagnostics (wk_label wk) ''cannot load'' ds), w)
      | Inr loaded \<Rightarrow>
          (let source_catalog = wd_catalog (pj_defaults loaded);
               source_schema = wd_schema (pj_defaults loaded);
               project = (case catalog of
                            Some c \<Rightarrow> loaded\<lparr>pj_defaults := (pj_defaults loaded)\<lparr>wd_catalog := Some c\<rparr>\<rparr>
                          | None \<Rightarrow> loaded);
               base = wk_compile wk project Map.empty Map.empty;
               compiled = (case warehouse of
                             Some wh \<Rightarrow> if enrich then enrich_sources wk wh project source_catalog source_schema base w
                                        else base
                           | None \<Rightarrow> base)
           in if is_ok compiled then (Inr compiled, w)
              else (Inl (EFailedDiagnostics (wk_label wk) ''does not compile cleanly'' (cp_diagnostics compiled)), w)))"

section \<open>Resolving an environment\<close>

datatype environment_mode = Ensure | ReadOnly

record candidate_workspace =
  cw_setup :: environment_setup
  cw_compilation :: compilation

definition provision_candidate ::
    "('w, 'j) platform \<Rightarrow> ('w, 'p) workspace \<Rightarrow> environment_spec \<Rightarrow> bool \<Rightarrow> ('w, engine_error, candidate_workspace) act" where
  "provision_candidate pf wk spec enrich =
     bind_act (ensure_candidate pf spec) (\<lambda>setup.
     bind_act (compile_for_catalog wk (Some (en_catalog setup)) (Some (pf_warehouse pf)) enrich) (\<lambda>compilation.
       ret \<lparr>cw_setup = setup, cw_compilation = compilation\<rparr>))"

text \<open>Which handles the caller has; the platform holds the handles that are present.\<close>

record ('w, 'j) environment_context =
  ex_platform :: "('w, 'j) platform"
  ex_has_nessie :: bool
  ex_has_adapter :: bool
  ex_nessie_uri :: "string option"
  ex_warehouse :: "string option"
  ex_catalog :: "string option"

record environment_target =
  et_compilation :: "compilation option"
  et_catalog :: "string option"
  et_setup :: "environment_setup option"

definition no_target :: environment_target where
  "no_target = \<lparr>et_compilation = None, et_catalog = None, et_setup = None\<rparr>"

definition unisolated_text :: "string \<Rightarrow> string" where
  "unisolated_text environment =
     ''environment `'' @ environment @ ''` claims a Nessie branch but its catalog cannot be '' @
     ''provisioned '' @ em_dash @ '' a catalog-facing Nessie URI (and an adapter) is required''"

definition unpreviewable_text :: "string \<Rightarrow> string \<Rightarrow> string \<Rightarrow> string" where
  "unpreviewable_text environment catalog adapter =
     ''environment `'' @ environment @ ''` resolves to generated catalog `'' @ catalog @
     ''`, which adapter `'' @ adapter @ ''` cannot provision '' @ em_dash @
     '' a run would fail closed the same way; pin an existing catalog with `--catalog`''"

definition context_spec :: "('w, 'j) environment_context \<Rightarrow> string \<Rightarrow> string \<Rightarrow> string \<Rightarrow> environment_spec" where
  "context_spec ex uri environment base_ref =
     \<lparr>es_base_ref = base_ref, es_candidate_ref = environment, es_nessie_uri = Some uri,
      es_warehouse = ex_warehouse ex, es_catalog = ex_catalog ex\<rparr>"

definition preview ::
    "('w, 'j) platform \<Rightarrow> ('w, 'p) workspace \<Rightarrow> environment_spec \<Rightarrow> ('w, engine_error, environment_target) act" where
  "preview pf wk spec =
     bind_act (read_environment_for pf (es_candidate_ref spec)) (\<lambda>prior.
       if \<not> catalog_is_pinned (pf_sha pf) spec prior \<and> \<not> wh_provisions (pf_warehouse pf)
       then throw (ENotConfigured (unpreviewable_text (es_candidate_ref spec)
              (catalog_name (pf_sha pf) (es_candidate_ref spec)) (wh_name (pf_warehouse pf))))
       else
         (let catalog = resolve_catalog (pf_sha pf) spec prior
          in bind_act (compile_for_catalog wk (Some catalog) (Some (pf_warehouse pf)) True) (\<lambda>compilation.
               ret \<lparr>et_compilation = Some compilation, et_catalog = Some catalog, et_setup = prior\<rparr>)))"

definition resolve_environment ::
    "('w, 'j) environment_context \<Rightarrow> ('w, 'p) workspace \<Rightarrow> string option \<Rightarrow> string \<Rightarrow> environment_mode
       \<Rightarrow> ('w, engine_error, environment_target) act" where
  "resolve_environment ex wk environment base_ref mode =
     (case environment of
        None \<Rightarrow> ret no_target
      | Some e \<Rightarrow>
          if e = base_ref then ret no_target
          else if \<not> ex_has_nessie ex then ret no_target
          else (case ex_nessie_uri ex of
                  None \<Rightarrow> throw (ENotConfigured (unisolated_text e))
                | Some uri \<Rightarrow>
                    if \<not> ex_has_adapter ex then throw (ENotConfigured (unisolated_text e))
                    else (case mode of
                            Ensure \<Rightarrow>
                              bind_act (provision_candidate (ex_platform ex) wk (context_spec ex uri e base_ref) True)
                                (\<lambda>t. ret \<lparr>et_compilation = Some (cw_compilation t),
                                         et_catalog = Some (en_catalog (cw_setup t)), et_setup = Some (cw_setup t)\<rparr>)
                          | ReadOnly \<Rightarrow> preview (ex_platform ex) wk (context_spec ex uri e base_ref))))"

definition base_ref_for ::
    "('w, 'j) platform \<Rightarrow> string option \<Rightarrow> string option \<Rightarrow> ('w, engine_error, string) act" where
  "base_ref_for pf environment explicit =
     (case explicit of
        Some e \<Rightarrow> ret e
      | None \<Rightarrow>
          (case environment of
             None \<Rightarrow> ret ''main''
           | Some e \<Rightarrow>
               bind_act (read_environment_for pf e) (\<lambda>found.
                 (case found of Some setup \<Rightarrow> ret (rf_name (en_base setup)) | None \<Rightarrow> ret ''main''))))"

definition environment_catalog :: "('w, 'j) platform \<Rightarrow> string \<Rightarrow> ('w, engine_error, string) act" where
  "environment_catalog pf reference =
     bind_act (read_environment_for pf reference) (\<lambda>found.
       ret (case found of Some setup \<Rightarrow> en_catalog setup | None \<Rightarrow> catalog_name (pf_sha pf) reference))"

definition base_catalog ::
    "('w, 'j) platform \<Rightarrow> string \<Rightarrow> string option \<Rightarrow> string option \<Rightarrow> ('w, engine_error, string option) act" where
  "base_catalog pf base_ref configured compiled =
     (if base_ref = ''main'' then ret (case configured of Some c \<Rightarrow> Some c | None \<Rightarrow> compiled)
      else bind_act (environment_catalog pf base_ref) (\<lambda>c. ret (Some c)))"

end
