(* ===== verification/Diff.thy ===== *)
theory Diff
  imports Exec
begin

text \<open>
  The warehouse-side data diff, \<^verbatim>\<open>phlo-transform-engine/src/diff.rs\<close>: the counting queries, partitions,
  the column-level comparison of two relations and the policies a report passes. What the warehouse answers
  is the record \<open>diff_source\<close>; it only reads. The floating-point thresholds of a policy have type \<open>'f\<close>, and
  what the code does with them is the record \<open>float_ops\<close>. Counts are 64-bit and wrap.
\<close>

section \<open>Requests and reports\<close>

datatype diff_strategy =
    StrategyKeyed
  | StrategyAggregate
  | StrategyFull
  | StrategySampled
  | StrategyPartition "string list"

record 'f column_tolerance =
  tl_absolute :: "'f option"
  tl_relative :: "'f option"

record 'f diff_policy =
  dp_max_added_rows :: "int option"
  dp_max_removed_rows :: "int option"
  dp_max_modified_rows :: "int option"
  dp_max_changed_fraction :: "'f option"
  dp_require_keyed_diff :: bool
  dp_require_full_diff :: bool
  dp_tolerances :: "(string \<times> 'f column_tolerance) list"

definition default_policy :: "'f diff_policy" where
  "default_policy =
     \<lparr>dp_max_added_rows = None, dp_max_removed_rows = None, dp_max_modified_rows = None,
      dp_max_changed_fraction = None, dp_require_keyed_diff = False, dp_require_full_diff = False,
      dp_tolerances = []\<rparr>"

text \<open>
  Floats: printing, the percentage of a clamped fraction, and whether a number of changed rows stays within a
  fraction of the base rows, with the fraction printed to four digits.
\<close>

record 'f float_ops =
  fo_show :: "'f \<Rightarrow> string"
  fo_percentage :: "'f \<Rightarrow> string"
  fo_within :: "int \<Rightarrow> int \<Rightarrow> 'f \<Rightarrow> bool"
  fo_fraction :: "int \<Rightarrow> int \<Rightarrow> string"

record policy_result =
  pr_policy :: string
  pr_passed :: bool
  pr_detail :: string

record 'f diff_request =
  dq_model :: string
  dq_candidate_relation :: relation
  dq_base_relation :: relation
  dq_candidate_ref :: "string option"
  dq_base_ref :: "string option"
  dq_candidate_version :: "string option"
  dq_base_version :: "string option"
  dq_key_columns :: "string list"
  dq_columns :: "string list"
  dq_strategy :: diff_strategy
  dq_policy :: "'f diff_policy"
  dq_sample_fraction :: "'f option"
  dq_renames :: "(string \<times> string) list"

record row_summary =
  rw_base_rows :: int
  rw_candidate_rows :: int
  rw_delta :: int
  rw_added :: int
  rw_removed :: int
  rw_modified :: int
  rw_unchanged :: int

record schema_change =
  sg_column :: string
  sg_kind :: string
  sg_detail :: string
  sg_safety :: string

record diff_report =
  dr_diff_id :: string
  dr_model :: string
  dr_candidate_ref :: "string option"
  dr_base_ref :: "string option"
  dr_candidate_version :: "string option"
  dr_base_version :: "string option"
  dr_candidate_relation :: string
  dr_base_relation :: string
  dr_strategy :: diff_strategy
  dr_coverage :: string
  dr_key_columns :: "string list"
  dr_row_summary :: row_summary
  dr_column_changes :: "(string \<times> int) list"
  dr_schema_changes :: "schema_change list"
  dr_partitions_added :: "string list"
  dr_partitions_removed :: "string list"
  dr_partitions_changed :: "string list"
  dr_policy_results :: "policy_result list"
  dr_passed :: bool
  dr_started_at :: string
  dr_finished_at :: string

section \<open>The warehouse\<close>

record diff_source =
  ds_exists :: "relation \<Rightarrow> adapter_error + bool"
  ds_columns :: "relation \<Rightarrow> adapter_error + column_info list"
  ds_state :: "relation \<Rightarrow> adapter_error + string option"
  ds_execute :: "string \<Rightarrow> adapter_error + query_result"
  ds_partitions :: "relation \<Rightarrow> string list \<Rightarrow> adapter_error + (string \<times> int) list option"

definition malformed :: "string \<Rightarrow> engine_error" where
  "malformed message = EAdapter \<lparr>ae_code = ''MALFORMED_RESULT'', ae_message = message, ae_retryable = False\<rparr>"

definition run_query :: "diff_source \<Rightarrow> string \<Rightarrow> engine_error + query_result" where
  "run_query ds sql = map_sum EAdapter (\<lambda>q. q) (ds_execute ds sql)"

definition and_then :: "'e + 'a \<Rightarrow> ('a \<Rightarrow> 'e + 'b) \<Rightarrow> 'e + 'b" where
  "and_then r f = (case r of Inl e \<Rightarrow> Inl e | Inr a \<Rightarrow> f a)"

section \<open>Signed 64-bit integers\<close>

definition wrap64 :: "int \<Rightarrow> int" where
  "wrap64 n = (n + 2 ^ 63) mod 2 ^ 64 - 2 ^ 63"

text \<open>\<open>str::parse::<i64>\<close>: a sign, then digits, within the range.\<close>

definition digits_value :: "string \<Rightarrow> int" where
  "digits_value s = foldl (\<lambda>n c. n * 10 + (of_char c - 48)) 0 s"

definition parse_i64 :: "string \<Rightarrow> int option" where
  "parse_i64 s =
     (let negative = (s \<noteq> [] \<and> hd s = CHR ''-'');
          digits = (if s \<noteq> [] \<and> (hd s = CHR ''-'' \<or> hd s = CHR ''+'') then tl s else s);
          n = (if negative then - digits_value digits else digits_value digits)
      in if digits = [] \<or> \<not> list_all is_ascii_digit digits then None
         else if - (2 ^ 63) \<le> n \<and> n < 2 ^ 63 then Some n else None)"

definition int_text :: "int \<Rightarrow> string" where
  "int_text n = (if n < 0 then ''-'' @ dec (nat (- n)) else dec (nat n))"

definition numeric_cell :: "string \<Rightarrow> engine_error + int" where
  "numeric_cell v =
     (case parse_i64 v of
        Some n \<Rightarrow> Inr n
      | None \<Rightarrow> Inl (malformed (''count query returned non-numeric value `'' @ v @ ''`'')))"

definition first_cell_i64 :: "string list list \<Rightarrow> engine_error + int" where
  "first_cell_i64 rows =
     (case rows of
        (v # _) # _ \<Rightarrow> numeric_cell v
      | _ \<Rightarrow> Inl (malformed ''count query returned no rows''))"

definition cell :: "string list \<Rightarrow> nat \<Rightarrow> engine_error + int" where
  "cell row index =
     (if index < length row then numeric_cell (row ! index)
      else Inl (malformed (''count query returned no column '' @ dec index)))"

section \<open>Queries\<close>

definition sampled_sql :: "'f float_ops \<Rightarrow> 'f diff_request \<Rightarrow> relation \<Rightarrow> string" where
  "sampled_sql fo q r =
     (case (dq_strategy q, dq_sample_fraction q) of
        (StrategySampled, Some fraction) \<Rightarrow>
          relation_sql r @ '' TABLESAMPLE BERNOULLI ('' @ fo_percentage fo fraction @ '')''
      | _ \<Rightarrow> relation_sql r)"

definition row_count :: "diff_source \<Rightarrow> string \<Rightarrow> engine_error + int" where
  "row_count ds sql =
     and_then (run_query ds (''SELECT count(*) FROM '' @ sql)) (\<lambda>result. first_cell_i64 (qr_rows result))"

definition change_predicate :: "'f float_ops \<Rightarrow> string \<Rightarrow> 'f column_tolerance option \<Rightarrow> string" where
  "change_predicate fo column tolerance =
     (let c = quote_ident column
      in case tolerance of
           None \<Rightarrow> ''b.'' @ c @ '' IS DISTINCT FROM c.'' @ c
         | Some t \<Rightarrow>
             (let difference = ''abs(b.'' @ c @ '' - c.'' @ c @ '')'';
                  within = [''b.'' @ c @ '' = c.'' @ c] @
                    (case tl_absolute t of
                       Some a \<Rightarrow> [difference @ '' <= '' @ fo_show fo a] | None \<Rightarrow> []) @
                    (case tl_relative t of
                       Some a \<Rightarrow> [difference @ '' <= '' @ fo_show fo a @ '' * greatest(abs(b.'' @ c @ ''), abs(c.'' @ c @ ''))'']
                     | None \<Rightarrow> [])
              in ''((b.'' @ c @ '' IS NULL) <> (c.'' @ c @ '' IS NULL)) OR (b.'' @ c @ '' IS NOT NULL AND c.'' @ c @
                 '' IS NOT NULL AND NOT ('' @ join '' OR '' within @ ''))''))"

definition keyed_sql :: "'f float_ops \<Rightarrow> 'f diff_request \<Rightarrow> string \<Rightarrow> string \<Rightarrow> string" where
  "keyed_sql fo q base_sql candidate_sql =
     (let joins = map (\<lambda>k. ''b.'' @ quote_ident k @ '' IS NOT DISTINCT FROM c.'' @ quote_ident k) (dq_key_columns q);
          conditions = map (\<lambda>c. change_predicate fo c (map_of (dp_tolerances (dq_policy q)) c)) (dq_columns q);
          any_changed = (if conditions = [] then ''false'' else join '' OR '' conditions);
          k = quote_ident (hd (dq_key_columns q))
      in ''SELECT count(*) FILTER (WHERE b.'' @ k @ '' IS NULL) AS added, count(*) FILTER (WHERE c.'' @ k @
         '' IS NULL) AS removed, count(*) FILTER (WHERE b.'' @ k @ '' IS NOT NULL AND c.'' @ k @
         '' IS NOT NULL AND ('' @ any_changed @ '')) AS modified, count(*) FILTER (WHERE b.'' @ k @
         '' IS NOT NULL AND c.'' @ k @ '' IS NOT NULL AND NOT ('' @ any_changed @ '')) AS unchanged FROM ('' @
         candidate_sql @ '') c FULL OUTER JOIN ('' @ base_sql @ '') b ON '' @ join '' AND '' joins)"

definition keyed_counts ::
    "'f float_ops \<Rightarrow> diff_source \<Rightarrow> 'f diff_request \<Rightarrow> string \<Rightarrow> string \<Rightarrow> engine_error + int \<times> int \<times> int \<times> int" where
  "keyed_counts fo ds q base_sql candidate_sql =
     and_then (run_query ds (keyed_sql fo q base_sql candidate_sql)) (\<lambda>result.
       (case qr_rows result of
          [] \<Rightarrow> Inl (malformed ''count query returned no rows'')
        | row # _ \<Rightarrow>
            and_then (cell row 0) (\<lambda>added. and_then (cell row 1) (\<lambda>removed.
            and_then (cell row 2) (\<lambda>modified. and_then (cell row 3) (\<lambda>unchanged.
              Inr (added, removed, modified, unchanged)))))))"

definition column_changed ::
    "'f float_ops \<Rightarrow> diff_source \<Rightarrow> 'f diff_request \<Rightarrow> string \<Rightarrow> string \<Rightarrow> string \<Rightarrow> engine_error + int" where
  "column_changed fo ds q base_sql candidate_sql column =
     (let joins = map (\<lambda>k. ''b.'' @ quote_ident k @ '' = c.'' @ quote_ident k) (dq_key_columns q)
      in and_then (run_query ds (''SELECT count(*) FROM ('' @ candidate_sql @ '') c JOIN ('' @ base_sql @ '') b ON '' @
           join '' AND '' joins @ '' WHERE '' @
           change_predicate fo column (map_of (dp_tolerances (dq_policy q)) column)))
         (\<lambda>result. first_cell_i64 (qr_rows result)))"

fun column_changes ::
    "'f float_ops \<Rightarrow> diff_source \<Rightarrow> 'f diff_request \<Rightarrow> string \<Rightarrow> string \<Rightarrow> string list \<Rightarrow> (string \<times> int) list
       \<Rightarrow> engine_error + (string \<times> int) list" where
  "column_changes fo ds q base_sql candidate_sql [] changed = Inr changed"
| "column_changes fo ds q base_sql candidate_sql (c # cs) changed =
     and_then (column_changed fo ds q base_sql candidate_sql c) (\<lambda>n.
       column_changes fo ds q base_sql candidate_sql cs (if 0 < n then bm_insert c n changed else changed))"

subsection \<open>Partitions\<close>

definition column_values :: "string list list \<Rightarrow> string list" where
  "column_values rows = map hd (filter (\<lambda>row. row \<noteq> []) rows)"

definition partition_key :: "string list \<Rightarrow> string" where
  "partition_key columns =
     (let casts = map (\<lambda>c. ''CAST('' @ quote_ident c @ '' AS varchar)'') columns
      in if length casts = 1 then hd casts else ''concat_ws('' @ [CHR 39] @ ''|'' @ [CHR 39] @ '', '' @ join '', '' casts @ '')'')"

definition partition_summary ::
    "diff_source \<Rightarrow> string \<Rightarrow> string \<Rightarrow> string list \<Rightarrow> engine_error + string list \<times> string list \<times> string list" where
  "partition_summary ds base_sql candidate_sql columns =
     (let key = partition_key columns;
          only = (\<lambda>a b. ''SELECT '' @ key @ '' FROM ('' @ a @ '') EXCEPT SELECT '' @ key @ '' FROM ('' @ b @ '') ORDER BY 1'');
          counts = (\<lambda>a. ''(SELECT '' @ key @ '' AS __key, count(*) AS n FROM ('' @ a @ '') GROUP BY 1)'')
      in and_then (run_query ds (only candidate_sql base_sql)) (\<lambda>added.
         and_then (run_query ds (only base_sql candidate_sql)) (\<lambda>removed.
         and_then (run_query ds (''SELECT c.__key FROM '' @ counts candidate_sql @ '' c JOIN '' @ counts base_sql @
             '' b ON c.__key = b.__key WHERE c.n <> b.n ORDER BY 1'')) (\<lambda>changed.
           Inr (column_values (qr_rows added), column_values (qr_rows removed), column_values (qr_rows changed))))))"

definition partition_delta ::
    "(string \<times> int) list \<Rightarrow> (string \<times> int) list \<Rightarrow> string list \<times> string list \<times> string list" where
  "partition_delta base candidate =
     (let b = fold (\<lambda>(k, n). bm_insert k n) base []; c = fold (\<lambda>(k, n). bm_insert k n) candidate []
      in (sort (map fst (filter (\<lambda>(k, n). map_of b k = None) c)),
          sort (map fst (filter (\<lambda>(k, n). map_of c k = None) b)),
          sort (map fst (filter (\<lambda>(k, n). map_of b k \<noteq> None \<and> map_of b k \<noteq> Some n) c))))"

section \<open>Columns\<close>

definition column_types :: "column_info list \<Rightarrow> (string \<times> data_type \<times> bool) list" where
  "column_types columns =
     fold (\<lambda>c. bm_insert (ci_name c) (parse_trino (ci_data_type c), ci_nullable c)) columns []"

text \<open>
  The declared renames that apply: the new name is the candidate's only, the old one a column of the base that
  no other declaration claims.
\<close>

definition claimed_by :: "(string \<times> string) list \<Rightarrow> (string \<times> string list) list" where
  "claimed_by renames = fold (\<lambda>(new, old). bm_push old new) renames []"

definition ambiguous_rename :: "(string \<times> string) list \<Rightarrow> string \<Rightarrow> bool" where
  "ambiguous_rename renames old =
     (case map_of (claimed_by renames) old of Some news \<Rightarrow> 1 < length news | None \<Rightarrow> False)"

definition applied_renames ::
    "(string \<times> data_type \<times> bool) list \<Rightarrow> (string \<times> data_type \<times> bool) list \<Rightarrow> (string \<times> string) list
       \<Rightarrow> (string \<times> string) list" where
  "applied_renames ct bt renames =
     filter (\<lambda>(new, old). \<not> ambiguous_rename renames old \<and> map_of ct new \<noteq> None \<and>
        map_of bt new = None \<and> map_of bt old \<noteq> None) renames"

definition change :: "string \<Rightarrow> string \<Rightarrow> string \<Rightarrow> string \<Rightarrow> schema_change" where
  "change column kind detail safety =
     \<lparr>sg_column = column, sg_kind = kind, sg_detail = detail, sg_safety = safety\<rparr>"

definition ambiguity_notes ::
    "(string \<times> data_type \<times> bool) list \<Rightarrow> (string \<times> string) list \<Rightarrow> schema_change list" where
  "ambiguity_notes bt renames =
     map (\<lambda>(old, news). change old ''rename_ambiguous''
            (''declared renames for `'' @ old @ ''` are ambiguous: '' @ join '', '' news) ''review'')
       (filter (\<lambda>(old, news). 1 < length news \<and> map_of bt old \<noteq> None) (claimed_by renames))"

text \<open>A base column that is gone was renamed, if a declaration explains it, or removed.\<close>

definition gone_change ::
    "(string \<times> data_type \<times> bool) list \<Rightarrow> (string \<times> string) list \<Rightarrow> string \<Rightarrow> data_type \<Rightarrow> schema_change" where
  "gone_change ct away name was_type =
     (case map_of away name of
        Some new \<Rightarrow>
          (let new_type = fst (the (map_of ct new))
           in change new ''renamed''
                (''`'' @ name @ ''` renamed to `'' @ new @ ''`'' @
                 (if new_type \<noteq> was_type
                  then '' (type '' @ data_type_text was_type @ '' -> '' @ data_type_text new_type @ '')'' else []))
                ''full_rebuild_required'')
      | None \<Rightarrow> change name ''removed'' (data_type_text was_type @ '' removed'') ''full_rebuild_required'')"

definition kept_changes :: "string \<Rightarrow> data_type \<times> bool \<Rightarrow> data_type \<times> bool \<Rightarrow> schema_change list" where
  "kept_changes name b c =
     (if fst c \<noteq> fst b
      then [change name ''changed'' (data_type_text (fst b) @ '' -> '' @ data_type_text (fst c))
              (if is_numeric (fst c) \<and> is_numeric (fst b) then ''review'' else ''error'')] else []) @
     (if snd c \<noteq> snd b
      then [change name ''nullability''
              (if snd c then ''not null -> nullable'' else ''nullable -> not null'')
              (if snd c then ''error'' else ''review'')] else [])"

definition compare_column_lists ::
    "column_info list \<Rightarrow> column_info list \<Rightarrow> (string \<times> string) list \<Rightarrow> schema_change list" where
  "compare_column_lists candidate base renames =
     (if candidate = [] \<and> base = [] then []
      else
        let ct = column_types candidate; bt = column_types base;
            applied = applied_renames ct bt renames;
            away = fold (\<lambda>(new, old). bm_insert old new) applied [];
            kept = concat (map (\<lambda>(name, b). case map_of ct name of
                     None \<Rightarrow> [gone_change ct away name (fst b)]
                   | Some c \<Rightarrow> kept_changes name b c) bt);
            added = map (\<lambda>(name, c). change name ''added'' (data_type_text (fst c) @ '' added'') ''safe'')
                      (filter (\<lambda>(name, c). map_of bt name = None \<and> name \<notin> fst ` set applied) ct)
        in sort_key sg_column (ambiguity_notes bt renames @ kept @ added))"

definition compare_columns ::
    "diff_source \<Rightarrow> relation \<Rightarrow> relation \<Rightarrow> (string \<times> string) list \<Rightarrow> schema_change list" where
  "compare_columns ds candidate base renames =
     (case (ds_columns ds candidate, ds_columns ds base) of
        (Inr cs, Inr bs) \<Rightarrow> compare_column_lists cs bs renames
      | _ \<Rightarrow> [])"

section \<open>Policies\<close>

definition is_partition :: "diff_strategy \<Rightarrow> bool" where
  "is_partition s = (case s of StrategyPartition _ \<Rightarrow> True | _ \<Rightarrow> False)"

text \<open>Row counts are measured only when rows were compared by key.\<close>

definition measured :: "'f diff_request \<Rightarrow> bool" where
  "measured q \<longleftrightarrow> dq_key_columns q \<noteq> [] \<and> \<not> is_partition (dq_strategy q)"

definition row_policy :: "bool \<Rightarrow> string \<Rightarrow> string \<Rightarrow> int \<Rightarrow> int \<Rightarrow> policy_result" where
  "row_policy was_measured name metric n limit =
     \<lparr>pr_policy = name, pr_passed = (was_measured \<and> n \<le> limit),
      pr_detail = (if was_measured then metric @ '' '' @ int_text n @ '' (max '' @ int_text limit @ '')''
                   else metric @ '' cannot be measured without keyed row counts'')\<rparr>"

definition evaluate_policy ::
    "'f float_ops \<Rightarrow> 'f diff_policy \<Rightarrow> 'f diff_request \<Rightarrow> row_summary \<Rightarrow> policy_result list" where
  "evaluate_policy fo p q s =
     (case dp_max_added_rows p of
        Some limit \<Rightarrow> [row_policy (measured q) ''max_added_rows'' ''added'' (rw_added s) limit] | None \<Rightarrow> []) @
     (case dp_max_removed_rows p of
        Some limit \<Rightarrow> [row_policy (measured q) ''max_removed_rows'' ''removed'' (rw_removed s) limit] | None \<Rightarrow> []) @
     (case dp_max_modified_rows p of
        Some limit \<Rightarrow> [row_policy (measured q) ''max_modified_rows'' ''modified'' (rw_modified s) limit] | None \<Rightarrow> []) @
     (case dp_max_changed_fraction p of
        Some limit \<Rightarrow>
          (let changed = wrap64 (wrap64 (rw_added s + rw_removed s) + rw_modified s); base = max (rw_base_rows s) 1
           in [\<lparr>pr_policy = ''max_changed_fraction'', pr_passed = (measured q \<and> fo_within fo changed base limit),
                pr_detail = (if measured q
                  then ''changed fraction '' @ fo_fraction fo changed base @ '' (max '' @ fo_show fo limit @ '')''
                  else ''changed fraction cannot be measured without keyed row counts'')\<rparr>])
      | None \<Rightarrow> []) @
     (if dp_require_keyed_diff p
      then [\<lparr>pr_policy = ''require_keyed_diff'', pr_passed = measured q,
             pr_detail = ''a stable key is required for keyed diffing''\<rparr>] else []) @
     (if dp_require_full_diff p
      then [\<lparr>pr_policy = ''require_full_diff'',
             pr_passed = (dq_key_columns q \<noteq> [] \<and> dq_strategy q \<in> {StrategyKeyed, StrategyFull}),
             pr_detail = ''full/keyed coverage is required''\<rparr>] else [])"

section \<open>The diff\<close>

record diff_counts =
  dc_summary :: row_summary
  dc_columns :: "(string \<times> int) list"
  dc_added :: "string list"
  dc_removed :: "string list"
  dc_changed :: "string list"
  dc_coverage :: string

definition no_counts :: "row_summary \<Rightarrow> string \<Rightarrow> diff_counts" where
  "no_counts s coverage =
     \<lparr>dc_summary = s, dc_columns = [], dc_added = [], dc_removed = [], dc_changed = [], dc_coverage = coverage\<rparr>"

definition metadata :: "diff_source \<Rightarrow> relation \<Rightarrow> string list \<Rightarrow> (string \<times> int) list option" where
  "metadata ds r columns = (case ds_partitions ds r columns of Inl e \<Rightarrow> None | Inr found \<Rightarrow> found)"

definition partition_coverage :: "string \<Rightarrow> string list \<Rightarrow> string" where
  "partition_coverage source changed =
     ''partition-aware ('' @ source @ '', '' @ dec (length changed) @ '' partitions changed)''"

definition partition_counted ::
    "diff_source \<Rightarrow> 'f diff_request \<Rightarrow> string list \<Rightarrow> string \<Rightarrow> string \<Rightarrow> row_summary \<Rightarrow> engine_error + diff_counts" where
  "partition_counted ds q columns base_sql candidate_sql s =
     (let counted = (\<lambda>source (added, removed, changed).
            (no_counts s (partition_coverage source changed))
              \<lparr>dc_added := added, dc_removed := removed, dc_changed := changed\<rparr>)
      in case (metadata ds (dq_base_relation q) columns, metadata ds (dq_candidate_relation q) columns) of
           (Some base, Some candidate) \<Rightarrow> Inr (counted ''partition metadata'' (partition_delta base candidate))
         | _ \<Rightarrow> and_then (partition_summary ds base_sql candidate_sql columns)
                  (\<lambda>delta. Inr (counted ''partition row counts'' delta)))"

definition keyed_coverage :: "diff_strategy \<Rightarrow> string" where
  "keyed_coverage s =
     (case s of StrategySampled \<Rightarrow> ''sampled keyed'' | StrategyFull \<Rightarrow> ''full keyed'' | _ \<Rightarrow> ''keyed'')"

definition counted ::
    "'f float_ops \<Rightarrow> diff_source \<Rightarrow> 'f diff_request \<Rightarrow> string \<Rightarrow> string \<Rightarrow> row_summary \<Rightarrow> engine_error + diff_counts" where
  "counted fo ds q base_sql candidate_sql s =
     (case dq_strategy q of
        StrategyPartition columns \<Rightarrow> partition_counted ds q columns base_sql candidate_sql s
      | strategy \<Rightarrow>
          if dq_key_columns q = [] then
            Inr (no_counts s (if strategy = StrategySampled then ''sampled aggregate (row counts only)''
                              else ''aggregate (row counts only)''))
          else
            and_then (keyed_counts fo ds q base_sql candidate_sql) (\<lambda>(added, removed, modified, unchanged).
            and_then (column_changes fo ds q base_sql candidate_sql (dq_columns q) []) (\<lambda>changed.
              Inr ((no_counts (s\<lparr>rw_added := added, rw_removed := removed, rw_modified := modified,
                                 rw_unchanged := unchanged\<rparr>) (keyed_coverage strategy))
                   \<lparr>dc_columns := changed\<rparr>))))"

text \<open>\<open>diff_id\<close> is the identifier drawn, \<open>started\<close> and \<open>finished\<close> the clock.\<close>

definition diff ::
    "'f float_ops \<Rightarrow> diff_source \<Rightarrow> string \<times> string \<times> string \<Rightarrow> 'f diff_request \<Rightarrow> engine_error + diff_report" where
  "diff fo ds = (\<lambda>(diff_id, started_at, finished_at) q.
     let candidate_sql = sampled_sql fo q (dq_candidate_relation q);
         base_sql = sampled_sql fo q (dq_base_relation q)
     in and_then (row_count ds base_sql) (\<lambda>base_rows.
        and_then (row_count ds candidate_sql) (\<lambda>candidate_rows.
        and_then (counted fo ds q base_sql candidate_sql
            \<lparr>rw_base_rows = base_rows, rw_candidate_rows = candidate_rows,
             rw_delta = wrap64 (candidate_rows - base_rows),
             rw_added = 0, rw_removed = 0, rw_modified = 0, rw_unchanged = 0\<rparr>) (\<lambda>c.
          let policies = evaluate_policy fo (dq_policy q) q (dc_summary c)
          in Inr \<lparr>dr_diff_id = diff_id, dr_model = dq_model q, dr_candidate_ref = dq_candidate_ref q,
                  dr_base_ref = dq_base_ref q, dr_candidate_version = dq_candidate_version q,
                  dr_base_version = dq_base_version q,
                  dr_candidate_relation = relation_display (dq_candidate_relation q),
                  dr_base_relation = relation_display (dq_base_relation q), dr_strategy = dq_strategy q,
                  dr_coverage = dc_coverage c, dr_key_columns = dq_key_columns q,
                  dr_row_summary = dc_summary c, dr_column_changes = dc_columns c,
                  dr_schema_changes = compare_columns ds (dq_candidate_relation q) (dq_base_relation q) (dq_renames q),
                  dr_partitions_added = dc_added c, dr_partitions_removed = dc_removed c,
                  dr_partitions_changed = dc_changed c, dr_policy_results = policies,
                  dr_passed = list_all pr_passed policies, dr_started_at = started_at,
                  dr_finished_at = finished_at\<rparr>))))"

definition attach_schema_changes :: "string \<Rightarrow> diff_report \<Rightarrow> diff_report" where
  "attach_schema_changes safety report =
     report\<lparr>dr_schema_changes := dr_schema_changes report @
       [change ''*'' ''schema'' ''see compiler schema classification'' (to_ascii_lowercase safety)]\<rparr>"

end
