(* ===== verification/BranchDiff.thy ===== *)
theory BranchDiff
  imports Diff
begin

text \<open>
  The comparison of two references, \<^verbatim>\<open>phlo-transform-engine/src/branch_diff.rs\<close>: the datasets of both sides
  with their status, the schema, row and contract changes, the deep diffs, and what the breaking changes
  reach. The recorded materialisations come from the state, live facts from the warehouse; the walks over
  column lineage are the argument \<open>impact_of\<close>, and the diff policy of a model the argument \<open>policy_of\<close>.
\<close>

section \<open>Reports\<close>

datatype dataset_kind = ModelDataset | SeedDataset

datatype dataset_status = DatasetAdded | DatasetRemoved | DatasetChanged | DatasetUnchanged | DatasetAbsent

record dataset_diff =
  dd_dataset :: string
  dd_kind :: dataset_kind
  dd_status :: dataset_status
  dd_candidate_version :: "string option"
  dd_base_version :: "string option"
  dd_candidate_relation :: "string option"
  dd_base_relation :: "string option"
  dd_upstream :: "string list"

record model_schema_diff =
  sd_model :: string
  sd_schema_changes :: "schema_change list"

record model_contract_diff =
  kd_model :: string
  kd_changes :: "contract_change list"

record breaking_impact =
  bi_model :: string
  bi_column :: "string option"
  bi_change :: string
  bi_source :: string
  bi_downstream_models :: "string list"
  bi_tests :: "string list"

record model_row_diff =
  rd_dataset :: string
  rd_base_rows :: "int option"
  rd_candidate_rows :: "int option"
  rd_delta :: "int option"

record branch_diff_request =
  bq_candidate_ref :: string
  bq_base_ref :: string
  bq_candidate_catalog :: "string option"
  bq_base_catalog :: "string option"
  bq_deep :: bool
  bq_default_schema :: "string option"
  bq_candidate_hash :: "string option"
  bq_base_hash :: "string option"

record branch_diff_report =
  br_candidate_ref :: string
  br_base_ref :: string
  br_candidate_hash :: "string option"
  br_base_hash :: "string option"
  br_datasets :: "dataset_diff list"
  br_schema_changes :: "model_schema_diff list"
  br_contract_changes :: "model_contract_diff list"
  br_impacts :: "breaking_impact list"
  br_rows :: "model_row_diff list"
  br_diffs :: "diff_report list"
  br_deep :: bool
  br_passed :: bool
  br_started_at :: string
  br_finished_at :: string

section \<open>Sides\<close>

text \<open>One side of the comparison: its recorded models and seeds, and the catalog its targets are put in.\<close>

record branch_side =
  bs_models :: "(string \<times> materialized_record) list"
  bs_seeds :: "(string \<times> seed_record) list"
  bs_catalog :: "string option"

definition or_else :: "'a option \<Rightarrow> 'a option \<Rightarrow> 'a option" where
  "or_else a b = (case a of Some x \<Rightarrow> Some x | None \<Rightarrow> b)"

definition side_version :: "branch_side \<Rightarrow> string \<Rightarrow> string option" where
  "side_version s name =
     or_else (map_option (\<lambda>r. mv_hash (mr_version r)) (map_of (bs_models s) name))
       (map_option sr_content_hash (map_of (bs_seeds s) name))"

definition parsed_target :: "string \<Rightarrow> relation option" where
  "parsed_target target = (case relation_parse target of Inl e \<Rightarrow> None | Inr r \<Rightarrow> Some r)"

definition side_relation ::
    "string option \<Rightarrow> compiled_model option \<Rightarrow> compiled_seed option \<Rightarrow> branch_side \<Rightarrow> string \<Rightarrow> relation option" where
  "side_relation fallback model seed s name =
     or_else (Option.bind (map_of (bs_models s) name) (\<lambda>r. parsed_target (mr_target r)))
    (or_else (Option.bind (map_of (bs_seeds s) name) (\<lambda>r. parsed_target (sr_target r)))
    (or_else (map_option (\<lambda>m. retarget (cm_target m) (bs_catalog s)) model)
       (map_option (\<lambda>x. compiled_seed_relation x (bs_catalog s)
          (case fallback of Some f \<Rightarrow> f | None \<Rightarrow> ''public'')) seed)))"

definition relation_there :: "diff_source \<Rightarrow> relation option \<Rightarrow> bool" where
  "relation_there ds r =
     (case r of
        None \<Rightarrow> False
      | Some r \<Rightarrow> (case ds_exists ds r of Inl e \<Rightarrow> False | Inr found \<Rightarrow> found))"

definition snapshot :: "diff_source \<Rightarrow> relation option \<Rightarrow> string option" where
  "snapshot ds r =
     (case r of
        None \<Rightarrow> None
      | Some r \<Rightarrow> (case ds_state ds r of Inl e \<Rightarrow> None | Inr found \<Rightarrow> found))"

section \<open>Datasets\<close>

definition dataset_status_of ::
    "bool \<Rightarrow> bool \<Rightarrow> string option \<Rightarrow> string option \<Rightarrow> string option \<Rightarrow> string option \<Rightarrow> dataset_status" where
  "dataset_status_of candidate_exists base_exists candidate_version base_version candidate_state base_state =
     (if candidate_exists \<and> \<not> base_exists then DatasetAdded
      else if \<not> candidate_exists \<and> base_exists then DatasetRemoved
      else if \<not> candidate_exists then DatasetAbsent
      else
        (case candidate_version of
           Some candidate \<Rightarrow>
             (case base_version of
                Some base \<Rightarrow> if candidate \<noteq> base then DatasetChanged else DatasetUnchanged
              | None \<Rightarrow> DatasetChanged)
         | None \<Rightarrow>
             (case (candidate_state, base_state) of
                (Some candidate, Some base) \<Rightarrow> if candidate \<noteq> base then DatasetChanged else DatasetUnchanged
              | _ \<Rightarrow> DatasetUnchanged)))"

record resolved_sides =
  rv_candidate :: "relation option"
  rv_candidate_exists :: bool
  rv_base :: "relation option"
  rv_base_exists :: bool

definition find_compiled_seed :: "compilation \<Rightarrow> string \<Rightarrow> compiled_seed option" where
  "find_compiled_seed c name = find (\<lambda>s. cs_name s = name) (cp_seeds c)"

definition dataset_names :: "compilation \<Rightarrow> branch_side \<Rightarrow> branch_side \<Rightarrow> string list" where
  "dataset_names c candidate base =
     btree_set (map (\<lambda>m. logical_name (cm_id m)) (cp_models c) @ map cs_name (cp_seeds c) @
       map fst (bs_models candidate) @ map fst (bs_models base) @
       map fst (bs_seeds candidate) @ map fst (bs_seeds base))"

definition compare_dataset ::
    "compilation \<Rightarrow> diff_source \<Rightarrow> string option \<Rightarrow> branch_side \<Rightarrow> branch_side \<Rightarrow> string
       \<Rightarrow> dataset_diff \<times> resolved_sides" where
  "compare_dataset c ds fallback candidate base name =
     (let model = model_by_name c name; seed = find_compiled_seed c name;
          is_seed = (model = None \<and> (seed \<noteq> None \<or> map_of (bs_seeds candidate) name \<noteq> None \<or>
            map_of (bs_seeds base) name \<noteq> None));
          cv = side_version candidate name; bv = side_version base name;
          cr = side_relation fallback model seed candidate name; br = side_relation fallback model seed base name;
          ce = relation_there ds cr; be = relation_there ds br
      in (\<lparr>dd_dataset = name, dd_kind = (if is_seed then SeedDataset else ModelDataset),
           dd_status = dataset_status_of ce be cv bv (snapshot ds cr) (snapshot ds br),
           dd_candidate_version = cv, dd_base_version = bv,
           dd_candidate_relation = map_option relation_display cr, dd_base_relation = map_option relation_display br,
           dd_upstream = (case model of Some m \<Rightarrow> map logical_name (model_dependencies m) | None \<Rightarrow> [])\<rparr>,
          \<lparr>rv_candidate = cr, rv_candidate_exists = ce, rv_base = br, rv_base_exists = be\<rparr>))"

section \<open>Columns and rows\<close>

definition side_columns :: "diff_source \<Rightarrow> relation option \<Rightarrow> bool \<Rightarrow> column_info list" where
  "side_columns ds r there =
     (case r of
        Some r \<Rightarrow> if there then (case ds_columns ds r of Inl e \<Rightarrow> [] | Inr cs \<Rightarrow> cs) else []
      | None \<Rightarrow> [])"

definition side_rows :: "diff_source \<Rightarrow> relation option \<Rightarrow> bool \<Rightarrow> engine_error + int option" where
  "side_rows ds r there =
     (case r of
        Some r \<Rightarrow> if there then map_sum (\<lambda>e. e) Some (row_count ds (relation_sql r)) else Inr None
      | None \<Rightarrow> Inr None)"

definition model_renames :: "compilation \<Rightarrow> string \<Rightarrow> (string \<times> string) list" where
  "model_renames c name =
     (case Option.bind (model_by_name c name) cm_contract of Some k \<Rightarrow> mc_renames k | None \<Rightarrow> [])"

definition row_difference :: "string \<Rightarrow> int option \<Rightarrow> int option \<Rightarrow> model_row_diff list" where
  "row_difference name base candidate =
     (if base = None \<and> candidate = None then []
      else [\<lparr>rd_dataset = name, rd_base_rows = base, rd_candidate_rows = candidate,
             rd_delta = (case (base, candidate) of (Some b, Some c) \<Rightarrow> Some (wrap64 (c - b)) | _ \<Rightarrow> None)\<rparr>])"

fun measure_datasets ::
    "compilation \<Rightarrow> diff_source \<Rightarrow> (dataset_diff \<times> resolved_sides) list
       \<Rightarrow> engine_error + model_schema_diff list \<times> model_row_diff list" where
  "measure_datasets c ds [] = Inr ([], [])"
| "measure_datasets c ds ((d, r) # rest) =
     (if dd_status d = DatasetAbsent then measure_datasets c ds rest
      else
        let changes = compare_column_lists (side_columns ds (rv_candidate r) (rv_candidate_exists r))
              (side_columns ds (rv_base r) (rv_base_exists r)) (model_renames c (dd_dataset d));
            schema = (if changes = [] then [] else [\<lparr>sd_model = dd_dataset d, sd_schema_changes = changes\<rparr>])
        in and_then (side_rows ds (rv_candidate r) (rv_candidate_exists r)) (\<lambda>candidate.
           and_then (side_rows ds (rv_base r) (rv_base_exists r)) (\<lambda>base.
           and_then (measure_datasets c ds rest) (\<lambda>(schemas, rows).
             Inr (schema @ schemas, row_difference (dd_dataset d) base candidate @ rows)))))"

section \<open>Deep diffs\<close>

definition model_keys :: "compiled_model \<Rightarrow> string list" where
  "model_keys m =
     (case cfg_incremental (cm_config m) of
        Some (Key columns) \<Rightarrow> columns
      | _ \<Rightarrow> (case find (\<lambda>a. case a of AUnique cs \<Rightarrow> True | _ \<Rightarrow> False) (cm_assertions m) of
                Some (AUnique columns) \<Rightarrow> columns
              | _ \<Rightarrow> []))"

definition compared_columns :: "compiled_model \<Rightarrow> string list" where
  "compared_columns m =
     (if ms_known (cm_schema m)
      then filter (\<lambda>n. n \<notin> set (model_keys m)) (map oc_name (ms_columns (cm_schema m))) else [])"

definition deep_request ::
    "compilation \<Rightarrow> (compiled_model \<Rightarrow> 'f diff_policy option) \<Rightarrow> branch_diff_request
       \<Rightarrow> dataset_diff \<times> resolved_sides \<Rightarrow> 'f diff_request option" where
  "deep_request c policy_of q = (\<lambda>(d, r).
     (if dd_status d \<noteq> DatasetChanged then None
      else case model_by_name c (dd_dataset d) of
        None \<Rightarrow> None
      | Some m \<Rightarrow>
          if model_keys m = [] \<and> policy_of m = None then None
          else if \<not> rv_candidate_exists r \<or> \<not> rv_base_exists r then None
          else (case (rv_candidate r, rv_base r) of
                  (Some candidate, Some base) \<Rightarrow>
                    Some \<lparr>dq_model = dd_dataset d, dq_candidate_relation = candidate, dq_base_relation = base,
                          dq_candidate_ref = Some (bq_candidate_ref q), dq_base_ref = Some (bq_base_ref q),
                          dq_candidate_version = dd_candidate_version d, dq_base_version = dd_base_version d,
                          dq_key_columns = model_keys m, dq_columns = compared_columns m,
                          dq_strategy = StrategyKeyed,
                          dq_policy = (case policy_of m of Some p \<Rightarrow> p | None \<Rightarrow> default_policy),
                          dq_sample_fraction = None,
                          dq_renames = (case cm_contract m of Some k \<Rightarrow> mc_renames k | None \<Rightarrow> [])\<rparr>
                | _ \<Rightarrow> None)))"

fun run_diffs ::
    "'f float_ops \<Rightarrow> diff_source \<Rightarrow> (string \<Rightarrow> string \<times> string \<times> string) \<Rightarrow> 'f diff_request list
       \<Rightarrow> engine_error + diff_report list" where
  "run_diffs fo ds stamp [] = Inr []"
| "run_diffs fo ds stamp (q # qs) =
     and_then (diff fo ds (stamp (dq_model q)) q) (\<lambda>report.
     and_then (run_diffs fo ds stamp qs) (\<lambda>reports. Inr (report # reports)))"

section \<open>Contracts and impacts\<close>

definition breaking_safety :: "string \<Rightarrow> bool" where
  "breaking_safety safety \<longleftrightarrow> safety = ''error'' \<or> safety = ''full_rebuild_required''"

definition model_contract_changes ::
    "(string \<times> materialized_record) list \<Rightarrow> compiled_model \<Rightarrow> contract_change list" where
  "model_contract_changes base m =
     (let record = map_of base (logical_name (cm_id m));
          key = (case record of Some r \<Rightarrow> mr_recorded_key r | None \<Rightarrow> KeyKnown None)
      in contract_diff (Option.bind record mr_contract) (cm_contract m) @
         (case key_change key (effective_key m) of Some g \<Rightarrow> [g] | None \<Rightarrow> []))"

definition contract_changes ::
    "compilation \<Rightarrow> (string \<times> materialized_record) list \<Rightarrow> model_contract_diff list" where
  "contract_changes c base =
     concat (map (\<lambda>m.
       let changes = model_contract_changes base m
       in if changes = [] then []
          else [\<lparr>kd_model = logical_name (cm_id m), kd_changes = changes\<rparr>]) (cp_models c))"

text \<open>A dataset that is not a compiled model has no lineage to walk.\<close>

definition breaking_impact_of ::
    "compilation \<Rightarrow> (model_id \<Rightarrow> string option \<Rightarrow> string list \<times> string list) \<Rightarrow> string \<Rightarrow> string option
       \<Rightarrow> string \<Rightarrow> string \<Rightarrow> breaking_impact" where
  "breaking_impact_of c impact_of name column source detail =
     (let reached = (case model_by_name c name of Some m \<Rightarrow> impact_of (cm_id m) column | None \<Rightarrow> ([], []))
      in \<lparr>bi_model = name, bi_column = column, bi_change = detail, bi_source = source,
          bi_downstream_models = fst reached, bi_tests = snd reached\<rparr>)"

definition breaking_impacts ::
    "compilation \<Rightarrow> (model_id \<Rightarrow> string option \<Rightarrow> string list \<times> string list) \<Rightarrow> model_schema_diff list
       \<Rightarrow> model_contract_diff list \<Rightarrow> breaking_impact list" where
  "breaking_impacts c impact_of schemas contracts =
     concat (map (\<lambda>s. map (\<lambda>g. breaking_impact_of c impact_of (sd_model s) (Some (sg_column g)) ''schema'' (sg_detail g))
       (filter (\<lambda>g. breaking_safety (sg_safety g)) (sd_schema_changes s))) schemas) @
     concat (map (\<lambda>k. map (\<lambda>g. breaking_impact_of c impact_of (kd_model k)
          (if ch_column g = [] then None else Some (ch_column g)) ''contract'' (ch_detail g))
       (filter (\<lambda>g. ch_safety g = CBreaking) (kd_changes k))) contracts)"

section \<open>The branch diff\<close>

text \<open>The records of one side, none without a state store.\<close>

definition side_models ::
    "(string \<Rightarrow> int option) \<Rightarrow> state_view option \<Rightarrow> string \<Rightarrow> engine_error + (string \<times> materialized_record) list" where
  "side_models parse_time state reference =
     (case state of
        None \<Rightarrow> Inr []
      | Some sv \<Rightarrow> state_error (records_for_environment parse_time mr_model_id mr_materialized_at
                      (sv_materialized_in sv) reference))"

definition side_seeds ::
    "(string \<Rightarrow> int option) \<Rightarrow> state_view option \<Rightarrow> string \<Rightarrow> engine_error + (string \<times> seed_record) list" where
  "side_seeds parse_time state reference =
     (case state of
        None \<Rightarrow> Inr []
      | Some sv \<Rightarrow> state_error (records_for_environment parse_time sr_name sr_loaded_at (sv_seeds_in sv) reference))"

definition branch_sides ::
    "(string \<Rightarrow> int option) \<Rightarrow> state_view option \<Rightarrow> branch_diff_request \<Rightarrow> engine_error + branch_side \<times> branch_side" where
  "branch_sides parse_time state q =
     and_then (side_models parse_time state (bq_candidate_ref q)) (\<lambda>candidate_models.
     and_then (side_models parse_time state (bq_base_ref q)) (\<lambda>base_models.
     and_then (side_seeds parse_time state (bq_candidate_ref q)) (\<lambda>candidate_seeds.
     and_then (side_seeds parse_time state (bq_base_ref q)) (\<lambda>base_seeds.
       Inr (\<lparr>bs_models = candidate_models, bs_seeds = candidate_seeds, bs_catalog = bq_candidate_catalog q\<rparr>,
            \<lparr>bs_models = base_models, bs_seeds = base_seeds, bs_catalog = bq_base_catalog q\<rparr>)))))"

record 'f diff_setting =
  dx_parse_time :: "string \<Rightarrow> int option"
  dx_floats :: "'f float_ops"
  dx_source :: diff_source
  dx_stamp :: "string \<Rightarrow> string \<times> string \<times> string"
  dx_policy_of :: "compiled_model \<Rightarrow> 'f diff_policy option"
  dx_impact_of :: "model_id \<Rightarrow> string option \<Rightarrow> string list \<times> string list"
  dx_started_at :: string
  dx_finished_at :: string

definition branch_diff ::
    "'f diff_setting \<Rightarrow> state_view option \<Rightarrow> compilation \<Rightarrow> branch_diff_request \<Rightarrow> engine_error + branch_diff_report" where
  "branch_diff dx state c q =
     and_then (branch_sides (dx_parse_time dx) state q) (\<lambda>(candidate, base).
       let ds = dx_source dx;
           compared = map (compare_dataset c ds (bq_default_schema q) candidate base) (dataset_names c candidate base)
       in and_then (measure_datasets c ds compared) (\<lambda>(schemas, rows).
          and_then (if bq_deep q
                    then run_diffs (dx_floats dx) ds (dx_stamp dx)
                           (List.map_filter (deep_request c (dx_policy_of dx) q) compared)
                    else Inr []) (\<lambda>reports.
            let diffs = sort_key dr_model reports; contracts = contract_changes c (bs_models base)
            in Inr \<lparr>br_candidate_ref = bq_candidate_ref q, br_base_ref = bq_base_ref q,
                    br_candidate_hash = bq_candidate_hash q, br_base_hash = bq_base_hash q,
                    br_datasets = map fst compared, br_schema_changes = schemas,
                    br_contract_changes = contracts,
                    br_impacts = breaking_impacts c (dx_impact_of dx) schemas contracts,
                    br_rows = rows, br_diffs = diffs, br_deep = bq_deep q,
                    br_passed = list_all dr_passed diffs,
                    br_started_at = dx_started_at dx, br_finished_at = dx_finished_at dx\<rparr>)))"

end
