(* ===== verification/Lineage.thy ===== *)
theory Lineage
  imports Compiled "HOL-Library.Product_Lexorder"
begin

text \<open>
  The lineage graph, \<^verbatim>\<open>phlo-transform-core/src/lineage.rs\<close>: models, datasets, columns and tests, the edges
  between them, and the walks over it. A graph is the sorted map from its nodes to their metadata and the
  list of its edges in the order they were added. The sources keep the edges in a petgraph \<open>DiGraph\<close>, whose
  order of the edges at a node is not documented: where the answer depends on it, it is the parameter
  \<open>io\<close>, which lists a node's edges in some order.
\<close>

section \<open>Nodes\<close>

datatype dataset_id = DatasetId (did_parts: "string list")

definition dataset_of_model :: "model_id \<Rightarrow> dataset_id" where
  "dataset_of_model i = DatasetId (mid_namespace i # mid_path i)"

definition dataset_of_source :: "source_id \<Rightarrow> dataset_id" where
  "dataset_of_source s = DatasetId (sid_parts s)"

fun dataset_of_relation :: "relation_ref \<Rightarrow> dataset_id" where
  "dataset_of_relation (RelModel i) = dataset_of_model i"
| "dataset_of_relation (RelSource s) = dataset_of_source s"

definition dataset_name :: "dataset_id \<Rightarrow> string" where
  "dataset_name d = join ''.'' (did_parts d)"

definition dataset_uri :: "dataset_id \<Rightarrow> string" where
  "dataset_uri d = ''dataset://'' @ join ''/'' (did_parts d)"

datatype dataset_origin = OriginModel | OriginSource | OriginSeed | OriginExternal

datatype dataset_column = DatasetColumn (dc_dataset: dataset_id) (dc_name: string)

definition dataset_column_uri :: "dataset_column \<Rightarrow> string" where
  "dataset_column_uri c = dataset_uri (dc_dataset c) @ ''#'' @ dc_name c"

datatype lineage_node =
    LnModel model_id
  | LnDataset dataset_id
  | LnColumn dataset_column
  | LnTest test_id

fun node_uri :: "lineage_node \<Rightarrow> string" where
  "node_uri (LnModel i) = model_uri i"
| "node_uri (LnDataset d) = dataset_uri d"
| "node_uri (LnColumn c) = dataset_column_uri c"
| "node_uri (LnTest t) = test_uri t"

fun node_kind :: "lineage_node \<Rightarrow> string" where
  "node_kind (LnModel i) = ''model''"
| "node_kind (LnDataset d) = ''dataset''"
| "node_kind (LnColumn c) = ''column''"
| "node_kind (LnTest t) = ''test''"

text \<open>The derived orders: variants in order, then their fields.\<close>

instantiation dataset_id :: linorder
begin

definition less_eq_dataset_id :: "dataset_id \<Rightarrow> dataset_id \<Rightarrow> bool" where
  "less_eq_dataset_id a b \<longleftrightarrow> did_parts a \<le> did_parts b"

definition less_dataset_id :: "dataset_id \<Rightarrow> dataset_id \<Rightarrow> bool" where
  "less_dataset_id a b \<longleftrightarrow> did_parts a < did_parts b"

instance
  by intro_classes
    (auto simp: less_eq_dataset_id_def less_dataset_id_def intro: dataset_id.expand)

end

definition column_key :: "dataset_column \<Rightarrow> dataset_id \<times> string" where
  "column_key c = (dc_dataset c, dc_name c)"

lemma column_key_inj: "column_key a = column_key b \<Longrightarrow> a = b"
  by (auto simp: column_key_def intro: dataset_column.expand)

instantiation dataset_column :: linorder
begin

definition less_eq_dataset_column :: "dataset_column \<Rightarrow> dataset_column \<Rightarrow> bool" where
  "less_eq_dataset_column a b \<longleftrightarrow> column_key a \<le> column_key b"

definition less_dataset_column :: "dataset_column \<Rightarrow> dataset_column \<Rightarrow> bool" where
  "less_dataset_column a b \<longleftrightarrow> column_key a < column_key b"

instance
proof
  fix a b c :: dataset_column
  show "a < b \<longleftrightarrow> a \<le> b \<and> \<not> b \<le> a"
    by (auto simp: less_eq_dataset_column_def less_dataset_column_def)
  show "a \<le> a" by (simp add: less_eq_dataset_column_def)
  show "a \<le> b \<Longrightarrow> b \<le> c \<Longrightarrow> a \<le> c"
    unfolding less_eq_dataset_column_def by (rule order.trans)
  show "a \<le> b \<Longrightarrow> b \<le> a \<Longrightarrow> a = b"
    by (simp add: less_eq_dataset_column_def column_key_inj)
  show "a \<le> b \<or> b \<le> a" by (simp add: less_eq_dataset_column_def linear)
qed

end

fun node_order_key :: "lineage_node \<Rightarrow> nat \<times> string list \<times> string" where
  "node_order_key (LnModel i) = (0, mid_namespace i # mid_path i, [])"
| "node_order_key (LnDataset d) = (1, did_parts d, [])"
| "node_order_key (LnColumn c) = (2, did_parts (dc_dataset c), dc_name c)"
| "node_order_key (LnTest t) = (3, [], tid_name t)"

lemma node_order_key_inj: "node_order_key a = node_order_key b \<Longrightarrow> a = b"
  by (cases a; cases b)
    (auto intro: model_id.expand dataset_id.expand dataset_column.expand test_id.expand)

instantiation lineage_node :: linorder
begin

definition less_eq_lineage_node :: "lineage_node \<Rightarrow> lineage_node \<Rightarrow> bool" where
  "less_eq_lineage_node a b \<longleftrightarrow> node_order_key a \<le> node_order_key b"

definition less_lineage_node :: "lineage_node \<Rightarrow> lineage_node \<Rightarrow> bool" where
  "less_lineage_node a b \<longleftrightarrow> node_order_key a < node_order_key b"

instance
proof
  fix a b c :: lineage_node
  show "a < b \<longleftrightarrow> a \<le> b \<and> \<not> b \<le> a"
    by (auto simp: less_eq_lineage_node_def less_lineage_node_def)
  show "a \<le> a" by (simp add: less_eq_lineage_node_def)
  show "a \<le> b \<Longrightarrow> b \<le> c \<Longrightarrow> a \<le> c"
    unfolding less_eq_lineage_node_def by (rule order.trans)
  show "a \<le> b \<Longrightarrow> b \<le> a \<Longrightarrow> a = b"
    by (simp add: less_eq_lineage_node_def node_order_key_inj)
  show "a \<le> b \<or> b \<le> a" by (simp add: less_eq_lineage_node_def linear)
qed

end

text \<open>The key orders model, dataset and column nodes as their fields do.\<close>

lemma node_order_fields:
  "LnModel i \<le> LnModel j \<longleftrightarrow> i \<le> j" "LnDataset d \<le> LnDataset e \<longleftrightarrow> d \<le> e"
  "LnColumn a \<le> LnColumn b \<longleftrightarrow> a \<le> b" "LnTest t \<le> LnTest u \<longleftrightarrow> t \<le> u"
  by (auto simp: less_eq_lineage_node_def less_eq_model_id_def less_eq_dataset_id_def
      less_eq_dataset_column_def less_dataset_id_def column_key_def less_eq_test_id_def)

section \<open>Metadata and edges\<close>

record node_meta =
  nm_path :: "string option"
  nm_version :: "string option"
  nm_origin :: "dataset_origin option"
  nm_target :: "string option"
  nm_data_type :: "string option"
  nm_nullability :: "string option"
  nm_confidence :: "lineage_confidence option"
  nm_generated :: bool
  nm_materialization :: "string option"
  nm_workflow :: "string option"

definition empty_meta :: node_meta where
  "empty_meta =
     \<lparr>nm_path = None, nm_version = None, nm_origin = None, nm_target = None, nm_data_type = None,
      nm_nullability = None, nm_confidence = None, nm_generated = False, nm_materialization = None,
      nm_workflow = None\<rparr>"

text \<open>What is newly known replaces what was; a generated test stays one.\<close>

definition newer :: "'a option \<Rightarrow> 'a option \<Rightarrow> 'a option" where
  "newer old new = (case new of Some x \<Rightarrow> Some x | None \<Rightarrow> old)"

definition merge_meta :: "node_meta \<Rightarrow> node_meta \<Rightarrow> node_meta" where
  "merge_meta old new =
     \<lparr>nm_path = newer (nm_path old) (nm_path new), nm_version = newer (nm_version old) (nm_version new),
      nm_origin = newer (nm_origin old) (nm_origin new), nm_target = newer (nm_target old) (nm_target new),
      nm_data_type = newer (nm_data_type old) (nm_data_type new),
      nm_nullability = newer (nm_nullability old) (nm_nullability new),
      nm_confidence = newer (nm_confidence old) (nm_confidence new),
      nm_generated = (nm_generated old \<or> nm_generated new),
      nm_materialization = newer (nm_materialization old) (nm_materialization new),
      nm_workflow = newer (nm_workflow old) (nm_workflow new)\<rparr>"

datatype edge_kind = EkInput | EkOutput | EkDerives | EkContains | EkTests

definition edge_kind_rank :: "edge_kind \<Rightarrow> nat" where
  "edge_kind_rank k =
     (case k of EkInput \<Rightarrow> 0 | EkOutput \<Rightarrow> 1 | EkDerives \<Rightarrow> 2 | EkContains \<Rightarrow> 3 | EkTests \<Rightarrow> 4)"

lemma edge_kind_rank_inj: "edge_kind_rank a = edge_kind_rank b \<Longrightarrow> a = b"
  by (simp add: edge_kind_rank_def split: edge_kind.splits)

instantiation edge_kind :: linorder
begin

definition less_eq_edge_kind :: "edge_kind \<Rightarrow> edge_kind \<Rightarrow> bool" where
  "less_eq_edge_kind a b \<longleftrightarrow> edge_kind_rank a \<le> edge_kind_rank b"

definition less_edge_kind :: "edge_kind \<Rightarrow> edge_kind \<Rightarrow> bool" where
  "less_edge_kind a b \<longleftrightarrow> edge_kind_rank a < edge_kind_rank b"

instance
  by intro_classes
    (auto simp: less_eq_edge_kind_def less_edge_kind_def intro: edge_kind_rank_inj)

end

record lineage_edge =
  lge_kind :: edge_kind
  lge_directness :: "directness option"
  lge_transformation :: "transformation option"
  lge_confidence :: "lineage_confidence option"
  lge_expression :: "string option"

definition plain_edge :: "edge_kind \<Rightarrow> lineage_edge" where
  "plain_edge k =
     \<lparr>lge_kind = k, lge_directness = None, lge_transformation = None, lge_confidence = None,
      lge_expression = None\<rparr>"

definition edge_from_input :: "column_input \<Rightarrow> lineage_edge" where
  "edge_from_input i =
     \<lparr>lge_kind = EkDerives, lge_directness = Some (in_directness i),
      lge_transformation = Some (in_transformation i), lge_confidence = Some (in_confidence i),
      lge_expression = in_expression i\<rparr>"

type_synonym lineage_arc = "lineage_node \<times> lineage_node \<times> lineage_edge"

record lineage_graph =
  lg_nodes :: "(lineage_node \<times> node_meta) list"
  lg_arcs :: "lineage_arc list"

definition empty_lineage :: lineage_graph where
  "empty_lineage = \<lparr>lg_nodes = [], lg_arcs = []\<rparr>"

definition has_node :: "lineage_graph \<Rightarrow> lineage_node \<Rightarrow> bool" where
  "has_node g n \<longleftrightarrow> map_of (lg_nodes g) n \<noteq> None"

definition put_node :: "lineage_node \<Rightarrow> node_meta \<Rightarrow> lineage_graph \<Rightarrow> lineage_graph" where
  "put_node n meta g =
     g\<lparr>lg_nodes := bm_insert n (case map_of (lg_nodes g) n of Some old \<Rightarrow> merge_meta old meta | None \<Rightarrow> meta)
         (lg_nodes g)\<rparr>"

text \<open>An edge between nodes that are there, unless the same edge is.\<close>

definition put_edge :: "lineage_node \<Rightarrow> lineage_node \<Rightarrow> lineage_edge \<Rightarrow> lineage_graph \<Rightarrow> lineage_graph" where
  "put_edge from to e g =
     (if has_node g from \<and> has_node g to \<and> (from, to, e) \<notin> set (lg_arcs g)
      then g\<lparr>lg_arcs := lg_arcs g @ [(from, to, e)]\<rparr> else g)"

section \<open>Building the graph\<close>

definition seed_matches :: "source_id \<Rightarrow> compiled_seed \<Rightarrow> bool" where
  "seed_matches s seed \<longleftrightarrow>
     source_name s = cs_name seed \<or> ends_with (''.'' @ cs_name seed) (source_name s)"

definition model_nodes :: "compiled_model \<Rightarrow> lineage_graph \<Rightarrow> lineage_graph" where
  "model_nodes m g =
     (let materialization = materialization_str (cfg_materialization (cm_config m));
          output = LnDataset (dataset_of_model (cm_id m))
      in put_edge (LnModel (cm_id m)) output (plain_edge EkOutput)
           (put_node output
              (empty_meta\<lparr>nm_origin := Some OriginModel,
                 nm_target := (if cfg_materialization (cm_config m) = Ephemeral then None
                               else Some (relation_display (cm_target m))),
                 nm_materialization := Some materialization\<rparr>)
              (put_node (LnModel (cm_id m))
                 (empty_meta\<lparr>nm_path := path_display (cm_origin m),
                    nm_version := Some (mv_hash (cm_version m)),
                    nm_materialization := Some materialization, nm_workflow := cm_workflow m\<rparr>) g)))"

definition source_node :: "compiled_seed list \<Rightarrow> source_id \<Rightarrow> lineage_graph \<Rightarrow> lineage_graph" where
  "source_node seeds s =
     put_node (LnDataset (dataset_of_source s))
       (case find (seed_matches s) seeds of
          Some seed \<Rightarrow> empty_meta\<lparr>nm_origin := Some OriginSeed,
            nm_path := Some (replace_char CHR 0x5C ''/'' (cs_path seed))\<rparr>
        | None \<Rightarrow> empty_meta\<lparr>nm_origin := Some OriginSource\<rparr>)"

fun dataset_of_dependency :: "dependency \<Rightarrow> dataset_id" where
  "dataset_of_dependency (DepModel i) = dataset_of_model i"
| "dataset_of_dependency (DepSource s) = dataset_of_source s"

definition dependency_edges :: "model_id \<Rightarrow> dependency \<Rightarrow> lineage_graph \<Rightarrow> lineage_graph" where
  "dependency_edges i d g =
     (let input = LnDataset (dataset_of_dependency d);
          read = put_edge input (LnModel i) (plain_edge EkInput) g;
          rolled = (case d of DepModel j \<Rightarrow> put_edge (LnModel j) (LnModel i) (plain_edge EkDerives) read
                    | DepSource _ \<Rightarrow> read)
      in put_edge input (LnDataset (dataset_of_model i)) (plain_edge EkDerives) rolled)"

definition input_column :: "column_input \<Rightarrow> dataset_column" where
  "input_column i = DatasetColumn (dataset_of_relation (cr_relation (in_column i))) (cr_column (in_column i))"

definition input_edges :: "dataset_column \<Rightarrow> column_input \<Rightarrow> lineage_graph \<Rightarrow> lineage_graph" where
  "input_edges target i g =
     put_edge (LnColumn (input_column i)) (LnColumn target) (edge_from_input i)
       (put_edge (LnDataset (dc_dataset (input_column i))) (LnColumn (input_column i)) (plain_edge EkContains)
          (put_node (LnColumn (input_column i)) empty_meta g))"

definition column_edges :: "model_id \<Rightarrow> output_column \<Rightarrow> lineage_graph \<Rightarrow> lineage_graph" where
  "column_edges i c g =
     (let target = DatasetColumn (dataset_of_model i) (oc_name c)
      in fold (input_edges target) (oc_inputs c)
           (put_edge (LnDataset (dataset_of_model i)) (LnColumn target) (plain_edge EkContains)
              (put_node (LnColumn target)
                 (empty_meta\<lparr>nm_data_type := Some (data_type_text (oc_type c)),
                    nm_nullability := Some (nullability_text (oc_nullability c)),
                    nm_confidence := Some (oc_confidence c)\<rparr>) g)))"

definition test_edges :: "compiled_test \<Rightarrow> lineage_graph \<Rightarrow> lineage_graph" where
  "test_edges t g =
     fold (\<lambda>d. put_edge (LnDataset d) (LnTest (ct_id t)) (plain_edge EkTests))
       (map dataset_of_model (ct_targets t) @ map dataset_of_source (ct_sources t))
       (put_node (LnTest (ct_id t))
          (empty_meta\<lparr>nm_path := path_display (ct_origin t), nm_generated := ct_generated t\<rparr>) g)"

definition lineage_build :: "compilation \<Rightarrow> lineage_graph" where
  "lineage_build c =
     fold test_edges (cp_tests c)
       (fold (\<lambda>m. fold (column_edges (cm_id m)) (ms_columns (cm_schema m))) (cp_models c)
         (fold (\<lambda>m. fold (dependency_edges (cm_id m)) (cm_dependencies m)) (cp_models c)
           (fold (source_node (sort_key cs_name (cp_seeds c))) (graph_source_ids (cp_graph c))
             (fold model_nodes (cp_models c) empty_lineage))))"

section \<open>One hop\<close>

datatype walk_direction = Upstream | Downstream

fun near_end :: "walk_direction \<Rightarrow> lineage_arc \<Rightarrow> lineage_node" where
  "near_end Upstream (from, to, e) = to"
| "near_end Downstream (from, to, e) = from"

fun far_end :: "walk_direction \<Rightarrow> lineage_arc \<Rightarrow> lineage_node" where
  "far_end Upstream (from, to, e) = from"
| "far_end Downstream (from, to, e) = to"

definition arc_edge :: "lineage_arc \<Rightarrow> lineage_edge" where
  "arc_edge a = snd (snd a)"

type_synonym incidence = "lineage_arc list \<Rightarrow> lineage_arc list"

text \<open>The edges at a node that is in the graph.\<close>

definition arcs_at :: "lineage_graph \<Rightarrow> walk_direction \<Rightarrow> lineage_node \<Rightarrow> lineage_arc list" where
  "arcs_at g d n = (if has_node g n then filter (\<lambda>a. near_end d a = n) (lg_arcs g) else [])"

definition node_neighbours :: "lineage_graph \<Rightarrow> walk_direction \<Rightarrow> lineage_node \<Rightarrow> lineage_node list" where
  "node_neighbours g d n = sort_dedup (map (far_end d) (arcs_at g d n))"

definition upstream :: "lineage_graph \<Rightarrow> lineage_node \<Rightarrow> lineage_node list" where
  "upstream g = node_neighbours g Upstream"

definition downstream :: "lineage_graph \<Rightarrow> lineage_node \<Rightarrow> lineage_node list" where
  "downstream g = node_neighbours g Downstream"

fun as_dataset :: "lineage_node \<Rightarrow> dataset_id option" where
  "as_dataset (LnDataset d) = Some d"
| "as_dataset _ = None"

fun as_column :: "lineage_node \<Rightarrow> dataset_column option" where
  "as_column (LnColumn c) = Some c"
| "as_column _ = None"

fun as_model :: "lineage_node \<Rightarrow> model_id option" where
  "as_model (LnModel i) = Some i"
| "as_model _ = None"

fun as_test :: "lineage_node \<Rightarrow> test_id option" where
  "as_test (LnTest t) = Some t"
| "as_test _ = None"

definition of_kind :: "edge_kind \<Rightarrow> lineage_arc list \<Rightarrow> lineage_arc list" where
  "of_kind k = filter (\<lambda>a. lge_kind (arc_edge a) = k)"

definition input_datasets :: "lineage_graph \<Rightarrow> model_id \<Rightarrow> dataset_id list" where
  "input_datasets g i =
     sort_dedup (List.map_filter (\<lambda>a. as_dataset (far_end Upstream a))
       (of_kind EkInput (arcs_at g Upstream (LnModel i))))"

definition dataset_columns :: "lineage_graph \<Rightarrow> dataset_id \<Rightarrow> dataset_column list" where
  "dataset_columns g d =
     sort (List.map_filter (\<lambda>a. as_column (far_end Downstream a))
       (of_kind EkContains (arcs_at g Downstream (LnDataset d))))"

definition tests_for_dataset :: "lineage_graph \<Rightarrow> dataset_id \<Rightarrow> test_id list" where
  "tests_for_dataset g d =
     sort (List.map_filter (\<lambda>a. as_test (far_end Downstream a))
       (of_kind EkTests (arcs_at g Downstream (LnDataset d))))"

definition first_of :: "'a list \<Rightarrow> 'a option" where
  "first_of xs = (case xs of x # _ \<Rightarrow> Some x | [] \<Rightarrow> None)"

definition column_dataset :: "incidence \<Rightarrow> lineage_graph \<Rightarrow> dataset_column \<Rightarrow> dataset_id option" where
  "column_dataset io g c =
     first_of (List.map_filter (\<lambda>a. as_dataset (far_end Upstream a))
       (of_kind EkContains (io (arcs_at g Upstream (LnColumn c)))))"

definition dataset_producer :: "incidence \<Rightarrow> lineage_graph \<Rightarrow> dataset_id \<Rightarrow> model_id option" where
  "dataset_producer io g d =
     first_of (List.map_filter (\<lambda>a. as_model (far_end Upstream a))
       (of_kind EkOutput (io (arcs_at g Upstream (LnDataset d)))))"

definition dataset_by_name :: "lineage_graph \<Rightarrow> string \<Rightarrow> dataset_id option" where
  "dataset_by_name g name =
     find (\<lambda>d. dataset_name d = name) (List.map_filter (\<lambda>(n, meta). as_dataset n) (lg_nodes g))"

text \<open>The columns at the other end of the derivations of a column, in column order.\<close>

definition counts :: "bool \<Rightarrow> lineage_edge \<Rightarrow> bool" where
  "counts include_indirect e \<longleftrightarrow> lge_kind e = EkDerives \<and> (include_indirect \<or> lge_directness e \<noteq> Some Indirect)"

definition column_hop ::
    "incidence \<Rightarrow> lineage_graph \<Rightarrow> walk_direction \<Rightarrow> bool \<Rightarrow> dataset_column
       \<Rightarrow> (dataset_column \<times> lineage_edge) list" where
  "column_hop io g d include_indirect c =
     sort_key fst
       (List.map_filter (\<lambda>a. map_option (\<lambda>x. (x, arc_edge a)) (as_column (far_end d a)))
         (filter (\<lambda>a. counts include_indirect (arc_edge a)) (io (arcs_at g d (LnColumn c)))))"

section \<open>Walks\<close>

text \<open>
  Breadth first: the visited set, the queue, and the edge each node was first reached by. A node that is
  taken from the queue hands over its successors with their edges.
\<close>

fun bfs_visit :: "('a::linorder \<times> 'e) list \<Rightarrow> 'a list \<times> 'a list \<times> ('a \<times> 'e) list
    \<Rightarrow> 'a list \<times> 'a list \<times> ('a \<times> 'e) list" where
  "bfs_visit [] s = s"
| "bfs_visit ((n, e) # ns) (visited, queue, found) =
     bfs_visit ns
       (if n \<in> set visited then (visited, queue, found)
        else (insort n visited, queue @ [n], bm_insert n e found))"

definition bfs_step :: "('a::linorder \<Rightarrow> ('a \<times> 'e) list) \<Rightarrow> 'a list \<times> 'a list \<times> ('a \<times> 'e) list
    \<Rightarrow> 'a list \<times> 'a list \<times> ('a \<times> 'e) list" where
  "bfs_step succ = (\<lambda>(visited, queue, found). bfs_visit (succ (hd queue)) (visited, tl queue, found))"

definition bfs :: "('a::linorder \<Rightarrow> ('a \<times> 'e) list) \<Rightarrow> 'a list \<Rightarrow> 'a
    \<Rightarrow> ('a list \<times> 'a list \<times> ('a \<times> 'e) list) option" where
  "bfs succ visited start =
     while_option (\<lambda>(visited, queue, found). queue \<noteq> []) (bfs_step succ) (visited, [start], [])"

text \<open>Both walks end; the defaults are never taken.\<close>

definition lineage_walk :: "lineage_graph \<Rightarrow> walk_direction \<Rightarrow> lineage_node \<Rightarrow> lineage_node list" where
  "lineage_walk g d n =
     (case bfs (\<lambda>x. map (\<lambda>y. (y, ())) (node_neighbours g d x)) [] n of
        Some (visited, _) \<Rightarrow> visited
      | None \<Rightarrow> [])"

definition upstream_transitive :: "lineage_graph \<Rightarrow> lineage_node \<Rightarrow> lineage_node list" where
  "upstream_transitive g = lineage_walk g Upstream"

definition downstream_transitive :: "lineage_graph \<Rightarrow> lineage_node \<Rightarrow> lineage_node list" where
  "downstream_transitive g = lineage_walk g Downstream"

definition column_walk ::
    "incidence \<Rightarrow> lineage_graph \<Rightarrow> walk_direction \<Rightarrow> bool \<Rightarrow> dataset_column
       \<Rightarrow> (dataset_column \<times> lineage_edge) list" where
  "column_walk io g d include_indirect c =
     (case bfs (column_hop io g d include_indirect) [c] c of
        Some (_, _, found) \<Rightarrow> found
      | None \<Rightarrow> [])"

section \<open>Documents and subgraphs\<close>

fun node_label :: "lineage_node \<Rightarrow> string" where
  "node_label (LnModel i) = logical_name i"
| "node_label (LnDataset d) = dataset_name d"
| "node_label (LnColumn c) = dc_name c"
| "node_label (LnTest t) = tid_name t"

record node_json =
  nj_uri :: string
  nj_kind :: string
  nj_name :: string
  nj_meta :: node_meta

record edge_json =
  ej_from :: string
  ej_to :: string
  ej_edge :: lineage_edge

record lineage_document =
  ld_nodes :: "node_json list"
  ld_edges :: "edge_json list"

definition document :: "lineage_graph \<Rightarrow> lineage_document" where
  "document g =
     \<lparr>ld_nodes = map (\<lambda>(n, meta). \<lparr>nj_uri = node_uri n, nj_kind = node_kind n, nj_name = node_label n,
         nj_meta = meta\<rparr>) (lg_nodes g),
      ld_edges = sort_key (\<lambda>e. (ej_from e, ej_to e))
        (map (\<lambda>(from, to, e). \<lparr>ej_from = node_uri from, ej_to = node_uri to, ej_edge = e\<rparr>) (lg_arcs g))\<rparr>"

definition edge_order :: "lineage_edge \<Rightarrow>
    directness option \<times> transformation option \<times> lineage_confidence option \<times> string option" where
  "edge_order e = (lge_directness e, lge_transformation e, lge_confidence e, lge_expression e)"

definition canonical_edges :: "lineage_document \<Rightarrow> lineage_document" where
  "canonical_edges doc =
     doc\<lparr>ld_edges := sort_key (\<lambda>e. (ej_from e, ej_to e, lge_kind (ej_edge e), edge_order (ej_edge e))) (ld_edges doc)\<rparr>"

text \<open>The JSON printer and SHA-256 are arguments.\<close>

definition fingerprint :: "(lineage_document \<Rightarrow> string) \<Rightarrow> (string \<Rightarrow> string) \<Rightarrow> lineage_graph \<Rightarrow> string" where
  "fingerprint print sha g = sha (print (canonical_edges (document g)))"

definition model_scope :: "lineage_graph \<Rightarrow> model_id \<Rightarrow> lineage_node list" where
  "model_scope g i =
     (if \<not> has_node g (LnModel i) then []
      else let output = dataset_of_model i
           in LnModel i # LnDataset output # map LnColumn (dataset_columns g output) @
              map LnTest (tests_for_dataset g output) @ map LnDataset (input_datasets g i))"

definition subgraph_scope :: "incidence \<Rightarrow> lineage_graph \<Rightarrow> model_id list \<Rightarrow> lineage_node list" where
  "subgraph_scope io g models =
     (let scope = btree_set (concat (map (model_scope g) models));
          sources = concat (map (\<lambda>c. map (\<lambda>(u, e). LnColumn u) (column_hop io g Upstream True c))
            (List.map_filter as_column scope))
      in btree_set (scope @ sources))"

definition subgraph :: "incidence \<Rightarrow> lineage_graph \<Rightarrow> model_id list \<Rightarrow> lineage_graph" where
  "subgraph io g models =
     (let scope = subgraph_scope io g models
      in fold (\<lambda>(from, to, e) s. if from \<in> set scope \<and> to \<in> set scope then put_edge from to e s else s) (lg_arcs g)
           (fold (\<lambda>n s. case map_of (lg_nodes g) n of Some meta \<Rightarrow> put_node n meta s | None \<Rightarrow> s) scope
             empty_lineage))"

definition document_for :: "incidence \<Rightarrow> lineage_graph \<Rightarrow> model_id list \<Rightarrow> lineage_document" where
  "document_for io g models = document (subgraph io g models)"

end
