(* ===== verification/LineageDiff.thy ===== *)
theory LineageDiff
  imports Lineage Store
begin

text \<open>
  The difference of two lineage graphs, \<^verbatim>\<open>phlo-transform-core/src/lineage_diff.rs\<close>: nodes gained, lost and
  changed, edges as bags of parallel edges, and what was downstream of everything that went or moved.
\<close>

section \<open>Report\<close>

record diff_node =
  dn_uri :: string
  dn_kind :: string
  dn_name :: string

record node_change =
  nh_node :: diff_node
  nh_changes :: "string list"

record diff_edge =
  de_from :: string
  de_to :: string
  de_kind :: string
  de_detail :: "string option"

record edge_change =
  eh_from :: string
  eh_to :: string
  eh_kind :: string
  eh_changes :: "string list"

record lineage_diff_impact =
  di_node :: string
  di_orphans :: "string list"

record edge_impact =
  ei_from :: string
  ei_to :: string
  ei_kind :: string
  ei_change :: string
  ei_downstream :: "string list"

record lineage_delta =
  lf_base_ref :: "string option"
  lf_nodes_added :: "diff_node list"
  lf_nodes_removed :: "diff_node list"
  lf_nodes_changed :: "node_change list"
  lf_edges_added :: "diff_edge list"
  lf_edges_removed :: "diff_edge list"
  lf_edges_changed :: "edge_change list"
  lf_impacts :: "lineage_diff_impact list"
  lf_edge_impacts :: "edge_impact list"

definition no_delta :: "lineage_delta \<Rightarrow> bool" where
  "no_delta d \<longleftrightarrow>
     lf_nodes_added d = [] \<and> lf_nodes_removed d = [] \<and> lf_nodes_changed d = [] \<and>
     lf_edges_added d = [] \<and> lf_edges_removed d = [] \<and> lf_edges_changed d = []"

definition change_count :: "lineage_delta \<Rightarrow> nat" where
  "change_count d =
     length (lf_nodes_added d) + length (lf_nodes_removed d) + length (lf_nodes_changed d) +
     length (lf_edges_added d) + length (lf_edges_removed d) + length (lf_edges_changed d)"

section \<open>Texts\<close>

fun node_title :: "lineage_node \<Rightarrow> string" where
  "node_title (LnModel i) = logical_name i"
| "node_title (LnDataset d) = dataset_name d"
| "node_title (LnColumn c) = dataset_name (dc_dataset c) @ ''.'' @ dc_name c"
| "node_title (LnTest t) = tid_name t"

definition diff_node_of :: "lineage_node \<Rightarrow> diff_node" where
  "diff_node_of n = \<lparr>dn_uri = node_uri n, dn_kind = node_kind n, dn_name = node_title n\<rparr>"

definition edge_kind_label :: "edge_kind \<Rightarrow> string" where
  "edge_kind_label k =
     (case k of EkInput \<Rightarrow> ''input'' | EkOutput \<Rightarrow> ''output'' | EkDerives \<Rightarrow> ''derives''
      | EkContains \<Rightarrow> ''contains'' | EkTests \<Rightarrow> ''tests'')"

text \<open>The texts of \<open>Debug\<close>.\<close>

definition directness_debug :: "directness \<Rightarrow> string" where
  "directness_debug d = (case d of Direct \<Rightarrow> ''Direct'' | Indirect \<Rightarrow> ''Indirect'')"

definition transformation_debug :: "transformation \<Rightarrow> string" where
  "transformation_debug t =
     (case t of TrIdentity \<Rightarrow> ''Identity'' | TrTransformation \<Rightarrow> ''Transformation''
      | TrAggregation \<Rightarrow> ''Aggregation'' | TrJoin \<Rightarrow> ''Join'' | TrFilter \<Rightarrow> ''Filter''
      | TrGroupBy \<Rightarrow> ''GroupBy'' | TrSort \<Rightarrow> ''Sort'' | TrWindow \<Rightarrow> ''Window''
      | TrConditional \<Rightarrow> ''Conditional'')"

definition confidence_debug :: "lineage_confidence \<Rightarrow> string" where
  "confidence_debug c =
     (case c of LcExact \<Rightarrow> ''Exact'' | LcInferred \<Rightarrow> ''Inferred'' | LcDeclared \<Rightarrow> ''Declared''
      | LcRuntime \<Rightarrow> ''Runtime'' | LcUnknown \<Rightarrow> ''Unknown'')"

definition option_debug :: "('a \<Rightarrow> string) \<Rightarrow> 'a option \<Rightarrow> string" where
  "option_debug f v = (case v of Some x \<Rightarrow> ''Some('' @ f x @ '')'' | None \<Rightarrow> ''None'')"

definition bool_text :: "bool \<Rightarrow> string" where
  "bool_text b = (if b then ''true'' else ''false'')"

text \<open>The first characters of a text.\<close>

fun take_chars :: "nat \<Rightarrow> string \<Rightarrow> string" where
  "take_chars 0 s = []"
| "take_chars (Suc n) s =
     (if s = [] then [] else take (length s - length (after_char s)) s @ take_chars n (after_char s))"

definition ticked :: "string \<Rightarrow> string" where
  "ticked s = ''`'' @ s @ ''`''"

definition ellipsis :: string where
  "ellipsis = [CHR 0xE2, CHR 0x80, CHR 0xA6]"

definition truncate_text :: "string \<Rightarrow> nat \<Rightarrow> string" where
  "truncate_text s n = (if take_chars n s = s then s else take_chars n s @ ellipsis)"

definition edge_detail :: "lineage_edge \<Rightarrow> string option" where
  "edge_detail e =
     (let parts = (case lge_directness e of Some d \<Rightarrow> [to_ascii_lowercase (directness_debug d)] | None \<Rightarrow> []) @
                  (case lge_transformation e of
                     Some t \<Rightarrow> [to_ascii_lowercase (transformation_debug t)] | None \<Rightarrow> []) @
                  (case lge_expression e of Some x \<Rightarrow> [ticked (truncate_text x 60)] | None \<Rightarrow> [])
      in if parts = [] then None else Some (join '', '' parts))"

definition diff_edge_of :: "lineage_node \<times> lineage_node \<times> edge_kind \<Rightarrow> lineage_edge \<Rightarrow> diff_edge" where
  "diff_edge_of = (\<lambda>(from, to, kind) e.
     \<lparr>de_from = node_uri from, de_to = node_uri to, de_kind = edge_kind_label kind, de_detail = edge_detail e\<rparr>)"

definition or_dash :: "string option \<Rightarrow> string" where
  "or_dash v = (case v of Some s \<Rightarrow> s | None \<Rightarrow> ''-'')"

definition moved_field :: "string \<Rightarrow> bool \<Rightarrow> string \<Rightarrow> string \<Rightarrow> string list" where
  "moved_field field moved old new = (if moved then [field @ '': '' @ old @ '' -> '' @ new] else [])"

definition origin_label :: "dataset_origin option \<Rightarrow> string" where
  "origin_label k =
     (case k of Some OriginModel \<Rightarrow> ''model'' | Some OriginSource \<Rightarrow> ''source'' | Some OriginSeed \<Rightarrow> ''seed''
      | Some OriginExternal \<Rightarrow> ''external'' | None \<Rightarrow> ''-'')"

definition meta_changes :: "node_meta \<Rightarrow> node_meta \<Rightarrow> string list" where
  "meta_changes b c =
     moved_field ''path'' (nm_path b \<noteq> nm_path c) (or_dash (nm_path b)) (or_dash (nm_path c)) @
     moved_field ''version'' (nm_version b \<noteq> nm_version c)
       (take_chars 12 (or_dash (nm_version b))) (take_chars 12 (or_dash (nm_version c))) @
     moved_field ''dataset kind'' (nm_origin b \<noteq> nm_origin c) (origin_label (nm_origin b)) (origin_label (nm_origin c)) @
     moved_field ''target'' (nm_target b \<noteq> nm_target c) (or_dash (nm_target b)) (or_dash (nm_target c)) @
     moved_field ''type'' (nm_data_type b \<noteq> nm_data_type c) (or_dash (nm_data_type b)) (or_dash (nm_data_type c)) @
     moved_field ''nullability'' (nm_nullability b \<noteq> nm_nullability c)
       (or_dash (nm_nullability b)) (or_dash (nm_nullability c)) @
     moved_field ''confidence'' (nm_confidence b \<noteq> nm_confidence c)
       (option_debug confidence_debug (nm_confidence b)) (option_debug confidence_debug (nm_confidence c)) @
     moved_field ''generated'' (nm_generated b \<noteq> nm_generated c)
       (bool_text (nm_generated b)) (bool_text (nm_generated c)) @
     moved_field ''materialization'' (nm_materialization b \<noteq> nm_materialization c)
       (or_dash (nm_materialization b)) (or_dash (nm_materialization c)) @
     moved_field ''workflow'' (nm_workflow b \<noteq> nm_workflow c) (or_dash (nm_workflow b)) (or_dash (nm_workflow c))"

definition edge_changes :: "lineage_edge \<Rightarrow> lineage_edge \<Rightarrow> string list" where
  "edge_changes b c =
     moved_field ''directness'' (lge_directness b \<noteq> lge_directness c)
       (option_debug directness_debug (lge_directness b)) (option_debug directness_debug (lge_directness c)) @
     moved_field ''transformation'' (lge_transformation b \<noteq> lge_transformation c)
       (option_debug transformation_debug (lge_transformation b))
       (option_debug transformation_debug (lge_transformation c)) @
     moved_field ''confidence'' (lge_confidence b \<noteq> lge_confidence c)
       (option_debug confidence_debug (lge_confidence b)) (option_debug confidence_debug (lge_confidence c)) @
     moved_field ''expression'' (lge_expression b \<noteq> lge_expression c)
       (truncate_text (or_dash (lge_expression b)) 60) (truncate_text (or_dash (lge_expression c)) 60)"

section \<open>Nodes\<close>

type_synonym node_map = "(lineage_node \<times> node_meta) list"

definition only_in :: "('k \<times> 'v) list \<Rightarrow> ('k \<times> 'w) list \<Rightarrow> 'k list" where
  "only_in xs ys = map fst (filter (\<lambda>(k, v). map_of ys k = None) xs)"

definition changed_nodes :: "node_map \<Rightarrow> node_map \<Rightarrow> node_change list" where
  "changed_nodes base candidate =
     List.map_filter (\<lambda>(n, meta).
       case map_of base n of
         None \<Rightarrow> None
       | Some old \<Rightarrow> if meta_changes old meta = [] then None
                    else Some \<lparr>nh_node = diff_node_of n, nh_changes = meta_changes old meta\<rparr>)
       candidate"

section \<open>Edges\<close>

type_synonym edge_bags = "((lineage_node \<times> lineage_node \<times> edge_kind) \<times> lineage_edge list) list"

definition edge_bags :: "lineage_graph \<Rightarrow> edge_bags" where
  "edge_bags g =
     map (\<lambda>(k, es). (k, sort_key edge_order es))
       (fold (\<lambda>(from, to, e). bm_push (from, to, lge_kind e) e) (lg_arcs g) [])"

text \<open>Equal edges of two sorted bags cancel; what is left of each side.\<close>

fun cancel_bags :: "lineage_edge list \<Rightarrow> lineage_edge list \<Rightarrow> lineage_edge list \<times> lineage_edge list" where
  "cancel_bags (b # bs) (c # cs) =
     (if b = c then cancel_bags bs cs
      else if edge_order b \<le> edge_order c
      then (case cancel_bags bs (c # cs) of (l, r) \<Rightarrow> (b # l, r))
      else (case cancel_bags (b # bs) cs of (l, r) \<Rightarrow> (l, c # r)))"
| "cancel_bags bs [] = (bs, [])"
| "cancel_bags [] cs = ([], cs)"

definition left_over :: "lineage_edge list \<times> lineage_edge list \<Rightarrow> lineage_edge list" where
  "left_over = (\<lambda>(l, r). drop (length r) l)"

definition right_over :: "lineage_edge list \<times> lineage_edge list \<Rightarrow> lineage_edge list" where
  "right_over = (\<lambda>(l, r). drop (length l) r)"

definition added_edges :: "edge_bags \<Rightarrow> edge_bags \<Rightarrow> diff_edge list" where
  "added_edges base candidate =
     concat (map (\<lambda>(k, cs). map (diff_edge_of k)
       (case map_of base k of None \<Rightarrow> cs | Some bs \<Rightarrow> right_over (cancel_bags bs cs))) candidate)"

definition removed_edges :: "edge_bags \<Rightarrow> edge_bags \<Rightarrow> diff_edge list" where
  "removed_edges base candidate =
     concat (map (\<lambda>(k, cs). map (diff_edge_of k)
       (case map_of base k of None \<Rightarrow> [] | Some bs \<Rightarrow> left_over (cancel_bags bs cs))) candidate) @
     concat (map (\<lambda>(k, bs). if map_of candidate k = None then map (diff_edge_of k) bs else []) base)"

definition paired_changes ::
    "lineage_node \<times> lineage_node \<times> edge_kind \<Rightarrow> lineage_edge list \<times> lineage_edge list \<Rightarrow> edge_change list" where
  "paired_changes = (\<lambda>(from, to, kind) (l, r).
     map (\<lambda>(b, c). \<lparr>eh_from = node_uri from, eh_to = node_uri to, eh_kind = edge_kind_label kind,
        eh_changes = edge_changes b c\<rparr>) (zip l r))"

definition changed_edges :: "edge_bags \<Rightarrow> edge_bags \<Rightarrow> edge_change list" where
  "changed_edges base candidate =
     concat (map (\<lambda>(k, cs).
       (case map_of base k of None \<Rightarrow> [] | Some bs \<Rightarrow> paired_changes k (cancel_bags bs cs))) candidate)"

section \<open>Impacts\<close>

definition node_by_uri :: "lineage_graph \<Rightarrow> string \<Rightarrow> lineage_node option" where
  "node_by_uri g uri = find (\<lambda>n. node_uri n = uri) (map fst (lg_nodes g))"

definition titles_downstream :: "lineage_graph \<Rightarrow> lineage_node \<Rightarrow> string list" where
  "titles_downstream g n = first_per (\<lambda>t. t) {} (map node_title (downstream_transitive g n))"

definition impact_of :: "lineage_graph \<Rightarrow> diff_node \<Rightarrow> lineage_diff_impact option" where
  "impact_of base n =
     (case node_by_uri base (dn_uri n) of
        None \<Rightarrow> None
      | Some found \<Rightarrow>
          (let orphans = titles_downstream base found
           in if orphans = [] then None else Some \<lparr>di_node = dn_uri n, di_orphans = orphans\<rparr>))"

definition edge_impact_of :: "lineage_graph \<Rightarrow> string \<times> string \<times> string \<times> string \<Rightarrow> edge_impact option" where
  "edge_impact_of base = (\<lambda>(from, to, kind, how).
     case node_by_uri base to of
       None \<Rightarrow> None
     | Some found \<Rightarrow>
         (let names = titles_downstream base found
          in if names = [] then None
             else Some \<lparr>ei_from = from, ei_to = to, ei_kind = kind, ei_change = how, ei_downstream = names\<rparr>))"

section \<open>The difference\<close>

definition lineage_diff :: "lineage_graph \<Rightarrow> lineage_graph \<Rightarrow> lineage_delta" where
  "lineage_diff base candidate =
     (let bn = lg_nodes base; cn = lg_nodes candidate; be = edge_bags base; ce = edge_bags candidate;
          removed = map diff_node_of (only_in bn cn);
          lost = removed_edges be ce; moved = changed_edges be ce
      in \<lparr>lf_base_ref = None, lf_nodes_added = map diff_node_of (only_in cn bn), lf_nodes_removed = removed,
          lf_nodes_changed = changed_nodes bn cn, lf_edges_added = added_edges be ce, lf_edges_removed = lost,
          lf_edges_changed = moved, lf_impacts = List.map_filter (impact_of base) removed,
          lf_edge_impacts = List.map_filter (edge_impact_of base)
            (map (\<lambda>e. (de_from e, de_to e, de_kind e, ''removed'')) lost @
             map (\<lambda>e. (eh_from e, eh_to e, eh_kind e, ''changed'')) moved)\<rparr>)"

end
