(* ===== verification/Evidence.thy ===== *)
theory Evidence
  imports Environment BranchDiff LineageDiff
begin

text \<open>
  The evidence a promotion relies on, \<^verbatim>\<open>phlo-transform-engine/src/audit.rs\<close>: branch diffs and lineage
  diffs in the evidence store and in the artifact files of the workspace, and what they prove for a pair of
  references at given commits. What is read is the record \<open>auditor\<close>: the platform, the recorded
  materialisations, the files, the codecs, and Git.
\<close>

section \<open>Lineage artifacts\<close>

record candidate_provenance =
  cv_git_ref :: "string option"
  cv_head :: "string option"
  cv_dirty :: bool
  cv_lineage_hash :: "string option"
  cv_model_versions :: "(string \<times> string) list"

record lineage_environment =
  le_candidate_ref :: string
  le_candidate_hash :: string
  le_target_ref :: string
  le_target_hash :: string

record lineage_artifact =
  la_base_kind :: string
  la_base_ref :: string
  la_base_commit :: string
  la_candidate :: candidate_provenance
  la_environment :: "lineage_environment option"
  la_created_at :: "string option"
  la_diff :: lineage_delta

record comparison_base =
  cb_commit :: string
  cb_head :: "string option"
  cb_dirty :: bool

record ('w, 'j) auditor =
  ad_platform :: "('w, 'j) platform"
  ad_view :: "'w \<Rightarrow> state_view"
  ad_parse_time :: "string \<Rightarrow> int option"
  ad_branch_diff :: "'w \<Rightarrow> branch_diff_report option"
  ad_single_diff :: "'w \<Rightarrow> bool"
  ad_lineage_diff :: "'w \<Rightarrow> (string + lineage_artifact) option"
  ad_write_branch_diff :: "branch_diff_report \<Rightarrow> ('w, string, unit) act"
  ad_encode_report :: "branch_diff_report \<Rightarrow> 'j"
  ad_decode_report :: "'j \<Rightarrow> string + branch_diff_report"
  ad_encode_lineage :: "lineage_artifact \<Rightarrow> 'j"
  ad_decode_lineage :: "'j \<Rightarrow> string + lineage_artifact"
  ad_comparison_base :: "string \<Rightarrow> 'w \<Rightarrow> comparison_base option"
  ad_resolve_commit :: "string \<Rightarrow> 'w \<Rightarrow> string option"

section \<open>Evidence records\<close>

definition branch_diff_record ::
    "('w, 'j) auditor \<Rightarrow> branch_diff_report \<Rightarrow> string \<times> string \<Rightarrow> 'j evidence_record" where
  "branch_diff_record ad report = (\<lambda>(evidence_id, _).
     \<lparr>er_evidence_id = evidence_id, er_kind = BranchDiffEvidence, er_subject = br_candidate_ref report,
      er_target_ref = br_base_ref report, er_candidate_hash = br_candidate_hash report,
      er_target_hash = br_base_hash report, er_fingerprint = None, er_payload = ad_encode_report ad report,
      er_run_id = None, er_created_at = br_finished_at report\<rparr>)"

definition lineage_diff_subject :: "lineage_artifact \<Rightarrow> string option" where
  "lineage_diff_subject a = or_else (map_option le_candidate_ref (la_environment a)) (cv_git_ref (la_candidate a))"

definition lineage_diff_target :: "lineage_artifact \<Rightarrow> string" where
  "lineage_diff_target a =
     (case la_environment a of Some binding \<Rightarrow> le_target_ref binding | None \<Rightarrow> la_base_ref a)"

definition lineage_diff_record ::
    "('w, 'j) auditor \<Rightarrow> lineage_artifact \<Rightarrow> string \<times> string \<Rightarrow> 'j evidence_record" where
  "lineage_diff_record ad a = (\<lambda>(evidence_id, now).
     \<lparr>er_evidence_id = evidence_id, er_kind = LineageDiffEvidence,
      er_subject = (case lineage_diff_subject a of Some s \<Rightarrow> s | None \<Rightarrow> []),
      er_target_ref = lineage_diff_target a,
      er_candidate_hash = or_else (map_option le_candidate_hash (la_environment a)) (cv_head (la_candidate a)),
      er_target_hash = or_else (map_option le_target_hash (la_environment a)) (Some (la_base_commit a)),
      er_fingerprint = cv_lineage_hash (la_candidate a), er_payload = ad_encode_lineage ad a, er_run_id = None,
      er_created_at = (case la_created_at a of Some t \<Rightarrow> t | None \<Rightarrow> now)\<rparr>)"

definition persist_branch_diff :: "('w, 'j) auditor \<Rightarrow> branch_diff_report \<Rightarrow> ('w, engine_error, unit) act" where
  "persist_branch_diff ad report =
     bind_act (map_error EArtifact (ad_write_branch_diff ad report)) (\<lambda>_.
       case pf_state (ad_platform ad) of
         None \<Rightarrow> ret ()
       | Some st \<Rightarrow> with_stamp (ad_platform ad) (\<lambda>stamp.
           map_error (\<lambda>e. EState (engine_error_text e)) (xs_record st (branch_diff_record ad report stamp))))"

definition persist_lineage_evidence :: "('w, 'j) auditor \<Rightarrow> lineage_artifact \<Rightarrow> ('w, engine_error, unit) act" where
  "persist_lineage_evidence ad a =
     (case pf_state (ad_platform ad) of
        None \<Rightarrow> ret ()
      | Some st \<Rightarrow>
          if lineage_diff_subject a = None then ret ()
          else with_stamp (ad_platform ad) (\<lambda>stamp. xs_record st (lineage_diff_record ad a stamp)))"

section \<open>The freshest branch diff\<close>

datatype branch_diff_lookup =
    NoReport
  | FoundReport branch_diff_report "string option"
  | CorruptReport string

definition unreadable_store :: "engine_error \<Rightarrow> string" where
  "unreadable_store e = ''cannot read the evidence store: '' @ engine_error_text e"

text \<open>What a file attests is brought into the store; the identifier of its record, or the error.\<close>

definition import_report ::
    "('w, 'j) auditor \<Rightarrow> ('w, 'j) evidence_store \<Rightarrow> branch_diff_report option \<Rightarrow> ('w, string, string option) act" where
  "import_report ad st file =
     (case file of
        None \<Rightarrow> ret None
      | Some report \<Rightarrow> map_error engine_error_text
          (with_stamp (ad_platform ad) (\<lambda>stamp. import_evidence st (branch_diff_record ad report stamp))))"

definition names_pair :: "string \<Rightarrow> string \<Rightarrow> branch_diff_report \<Rightarrow> bool" where
  "names_pair candidate to report \<longleftrightarrow> br_candidate_ref report = candidate \<and> br_base_ref report = to"

definition file_fresher ::
    "(string \<Rightarrow> int option) \<Rightarrow> string \<Rightarrow> string \<Rightarrow> branch_diff_report option \<Rightarrow> 'j evidence_record option \<Rightarrow> bool" where
  "file_fresher parse_time candidate to file pair_record =
     (case file of
        None \<Rightarrow> False
      | Some report \<Rightarrow>
          names_pair candidate to report \<and>
          (case pair_record of
             Some r \<Rightarrow> rfc3339_less parse_time (er_created_at r) (br_finished_at report)
           | None \<Rightarrow> True))"

definition decoded_report :: "('w, 'j) auditor \<Rightarrow> 'j evidence_record \<Rightarrow> branch_diff_lookup" where
  "decoded_report ad r =
     (case ad_decode_report ad (er_payload r) of
        Inr report \<Rightarrow> FoundReport report (Some (er_evidence_id r))
      | Inl e \<Rightarrow> CorruptReport (''undecodable branch-diff evidence: '' @ e))"

definition chosen_report ::
    "('w, 'j) auditor \<Rightarrow> ('w, 'j) evidence_store \<Rightarrow> string \<Rightarrow> string \<Rightarrow> branch_diff_report option
       \<Rightarrow> 'j evidence_record list \<Rightarrow> string option \<Rightarrow> ('w, string, branch_diff_lookup) act" where
  "chosen_report ad st candidate to file records file_id =
     (let pair_record = find (\<lambda>r. er_target_ref r = to) records
      in if file_fresher (ad_parse_time ad) candidate to file pair_record
         then ret (FoundReport (the file) file_id)
         else (case or_else pair_record (case records of r # _ \<Rightarrow> Some r | [] \<Rightarrow> None) of
                 Some r \<Rightarrow> ret (decoded_report ad r)
               | None \<Rightarrow>
                   (case file of
                      Some report \<Rightarrow> ret (FoundReport report file_id)
                    | None \<Rightarrow>
                        bind_act (map_error unreadable_store (xs_latest st BranchDiffEvidence)) (\<lambda>latest.
                          ret (case latest of r # _ \<Rightarrow> decoded_report ad r | [] \<Rightarrow> NoReport)))))"

definition branch_diff_evidence ::
    "('w, 'j) auditor \<Rightarrow> ('w, 'j) evidence_store \<Rightarrow> string \<Rightarrow> string \<Rightarrow> 'w \<Rightarrow> branch_diff_lookup \<times> 'w" where
  "branch_diff_evidence ad st candidate to w =
     (let file = ad_branch_diff ad w
      in case bind_act (map_error unreadable_store (xs_for st BranchDiffEvidence candidate)) (\<lambda>records.
              bind_act (import_report ad st file) (\<lambda>file_id.
                chosen_report ad st candidate to file records file_id)) w of
           (Inl e, u) \<Rightarrow> (CorruptReport e, u)
         | (Inr found, u) \<Rightarrow> (found, u))"

section \<open>The audited diff\<close>

record audit_evidence =
  au_diff_passed :: "bool option"
  au_diff_rejected :: "string option"
  au_breaking_schema_changes :: "string list"
  au_audited_base_hash :: "string option"
  au_schema_audited :: bool
  au_diff_evidence_id :: "string option"

definition no_audit :: audit_evidence where
  "no_audit =
     \<lparr>au_diff_passed = None, au_diff_rejected = None, au_breaking_schema_changes = [],
      au_audited_base_hash = None, au_schema_audited = False, au_diff_evidence_id = None\<rparr>"

definition rerun_diff :: "string \<Rightarrow> string \<Rightarrow> string" where
  "rerun_diff candidate to = ''diff --from '' @ candidate @ '' --to '' @ to @ '' --full`''"

definition reported_breaks :: "branch_diff_report \<Rightarrow> string list" where
  "reported_breaks report =
     concat (map (\<lambda>s. map (\<lambda>g. sd_model s @ ''.'' @ sg_column g @ '': '' @ sg_detail g)
       (filter (\<lambda>g. breaking_safety (sg_safety g)) (sd_schema_changes s))) (br_schema_changes report))"

text \<open>Each check gives the reasons why the report no longer applies.\<close>

definition commit_stale :: "string \<Rightarrow> string \<Rightarrow> string \<Rightarrow> string option \<Rightarrow> string option \<Rightarrow> string list" where
  "commit_stale candidate to label recorded expected =
     (case expected of
        None \<Rightarrow> []
      | Some e \<Rightarrow>
          (case recorded of
             Some r \<Rightarrow>
               if r = e then []
               else [''branch diff audited '' @ label @ ''@'' @ r @ '', not current '' @ label @ ''@'' @ e @
                     ''; rerun `'' @ rerun_diff candidate to]
           | None \<Rightarrow> [''branch diff does not record the '' @ label @ '' commit it audited; rerun `'' @
                     rerun_diff candidate to]))"

type_synonym recorded_side = "(string \<times> materialized_record) list \<times> (string \<times> seed_record) list"

definition recorded_side :: "(string \<Rightarrow> int option) \<Rightarrow> state_view \<Rightarrow> string \<Rightarrow> engine_error + recorded_side" where
  "recorded_side parse_time sv environment =
     (case (side_models parse_time (Some sv) environment, side_seeds parse_time (Some sv) environment) of
        (Inr models, Inr seeds) \<Rightarrow> Inr (models, seeds)
      | (Inl e, _) \<Rightarrow> Inl e
      | (_, Inl e) \<Rightarrow> Inl e)"

definition side_stale :: "engine_error + recorded_side \<Rightarrow> string list" where
  "side_stale r =
     (case r of Inl e \<Rightarrow> [''cannot confirm the diff is current: '' @ engine_error_text e] | Inr _ \<Rightarrow> [])"

definition side_records :: "engine_error + recorded_side \<Rightarrow> recorded_side" where
  "side_records r = (case r of Inl e \<Rightarrow> ([], []) | Inr s \<Rightarrow> s)"

definition current_version :: "recorded_side \<Rightarrow> dataset_diff \<Rightarrow> string option" where
  "current_version s d =
     (case dd_kind d of
        ModelDataset \<Rightarrow> map_option (\<lambda>r. mv_hash (mr_version r)) (map_of (fst s) (dd_dataset d))
      | SeedDataset \<Rightarrow> map_option sr_content_hash (map_of (snd s) (dd_dataset d)))"

definition dataset_stale :: "string \<Rightarrow> recorded_side \<Rightarrow> recorded_side \<Rightarrow> dataset_diff \<Rightarrow> string list" where
  "dataset_stale to candidate base d =
     (if current_version candidate d \<noteq> dd_candidate_version d
      then [''branch diff is stale: '' @ ticked (dd_dataset d) @ '' changed on the candidate since the diff''] else []) @
     (if current_version base d \<noteq> dd_base_version d
      then [''branch diff is stale: '' @ ticked (dd_dataset d) @ '' changed on '' @ ticked to @ '' since the diff''] else [])"

definition covers :: "branch_diff_report \<Rightarrow> dataset_kind \<Rightarrow> string \<Rightarrow> bool" where
  "covers report kind name = list_ex (\<lambda>d. dd_dataset d = name \<and> dd_kind d = kind) (br_datasets report)"

definition uncovered_stale :: "branch_diff_report \<Rightarrow> string \<Rightarrow> recorded_side \<Rightarrow> string list" where
  "uncovered_stale report where_to s =
     map (\<lambda>name. ''branch diff is stale: '' @ ticked name @ '' materialised on '' @ where_to @ '' after the diff'')
       (filter (\<lambda>name. \<not> covers report ModelDataset name) (map fst (fst s)) @
        filter (\<lambda>name. \<not> covers report SeedDataset name) (map fst (snd s)))"

definition self_compared :: "branch_diff_report \<Rightarrow> bool" where
  "self_compared report = list_ex (\<lambda>d. dr_candidate_relation d = dr_base_relation d) (br_diffs report)"

definition stale_reasons ::
    "string \<Rightarrow> string \<Rightarrow> string option \<Rightarrow> string option \<Rightarrow> engine_error + recorded_side
       \<Rightarrow> engine_error + recorded_side \<Rightarrow> branch_diff_report \<Rightarrow> string list" where
  "stale_reasons candidate to candidate_hash base_hash candidate_side base_side report =
     commit_stale candidate to ''candidate'' (br_candidate_hash report) candidate_hash @
     commit_stale candidate to ''base'' (br_base_hash report) base_hash @
     side_stale candidate_side @ side_stale base_side @
     concat (map (dataset_stale to (side_records candidate_side) (side_records base_side)) (br_datasets report)) @
     uncovered_stale report ''the candidate'' (side_records candidate_side) @
     uncovered_stale report (ticked to) (side_records base_side) @
     (if self_compared report
      then [''branch diff compared a relation to itself; rerun against distinct candidate and base relations''] else [])"

definition shallow_report :: "branch_diff_report \<Rightarrow> bool" where
  "shallow_report report \<longleftrightarrow> \<not> br_deep report \<and> br_diffs report = []"

definition audited_report ::
    "string \<Rightarrow> string \<Rightarrow> string option \<Rightarrow> string option \<Rightarrow> engine_error + recorded_side
       \<Rightarrow> engine_error + recorded_side \<Rightarrow> branch_diff_report \<Rightarrow> string option \<Rightarrow> audit_evidence" where
  "audited_report candidate to candidate_hash base_hash candidate_side base_side report evidence_id =
     (if \<not> names_pair candidate to report then
        no_audit\<lparr>au_diff_rejected := Some (''branch diff covers '' @ ticked (br_candidate_ref report) @ '' -> '' @
            ticked (br_base_ref report) @ '', not '' @ ticked candidate @ '' -> '' @ ticked to @ ''; rerun `'' @
            rerun_diff candidate to),
          au_diff_evidence_id := evidence_id\<rparr>
      else
        let stale = stale_reasons candidate to candidate_hash base_hash candidate_side base_side report;
            reasons = stale @ (if shallow_report report
              then [''branch diff ran without `--full`; rerun `'' @ rerun_diff candidate to @
                    '' for a value-level audit''] else [])
        in \<lparr>au_diff_passed = (if shallow_report report then None else Some (br_passed report)),
            au_diff_rejected = (case reasons of r # _ \<Rightarrow> Some r | [] \<Rightarrow> None),
            au_breaking_schema_changes = reported_breaks report,
            au_audited_base_hash = br_base_hash report, au_schema_audited = (stale = []),
            au_diff_evidence_id = evidence_id\<rparr>)"

definition audited_diff ::
    "('w, 'j) auditor \<Rightarrow> string \<Rightarrow> string \<Rightarrow> string option \<Rightarrow> string option \<Rightarrow> 'w \<Rightarrow> audit_evidence \<times> 'w" where
  "audited_diff ad candidate to candidate_hash base_hash w =
     (case pf_state (ad_platform ad) of
        None \<Rightarrow> (no_audit, w)
      | Some st \<Rightarrow>
          (case branch_diff_evidence ad st candidate to w of
             (CorruptReport reason, u) \<Rightarrow>
               (no_audit\<lparr>au_diff_rejected := Some (reason @ ''; rerun `'' @ rerun_diff candidate to)\<rparr>, u)
           | (FoundReport report evidence_id, u) \<Rightarrow>
               (audited_report candidate to candidate_hash base_hash
                  (recorded_side (ad_parse_time ad) (ad_view ad u) candidate)
                  (recorded_side (ad_parse_time ad) (ad_view ad u) to) report evidence_id, u)
           | (NoReport, u) \<Rightarrow>
               (if ad_single_diff ad u
                then no_audit\<lparr>au_diff_rejected := Some (''a single-model diff cannot audit a branch; run `'' @
                       rerun_diff candidate to)\<rparr>
                else no_audit, u)))"

section \<open>Contracts\<close>

definition break_text :: "string \<Rightarrow> contract_change \<Rightarrow> string" where
  "break_text name g =
     (if ch_column g = [] then name else name @ ''.'' @ ch_column g) @ '': contract '' @ ch_detail g"

definition contract_breaking_changes ::
    "('w, 'j) auditor \<Rightarrow> compilation \<Rightarrow> string \<Rightarrow> ('w, engine_error, string list) act" where
  "contract_breaking_changes ad c to w =
     (case pf_state (ad_platform ad) of
        None \<Rightarrow> (Inr [], w)
      | Some _ \<Rightarrow>
          (case side_models (ad_parse_time ad) (Some (ad_view ad w)) to of
             Inl e \<Rightarrow> (Inl e, w)
           | Inr base \<Rightarrow>
               (Inr (concat (map (\<lambda>m. map (break_text (logical_name (cm_id m)))
                  (filter (\<lambda>g. ch_safety g = CBreaking) (model_contract_changes base m))) (cp_models c))), w)))"

definition compiled_catalog :: "compilation \<Rightarrow> string option" where
  "compiled_catalog c =
     (case List.map_filter (\<lambda>m. rel_catalog (cm_target m)) (cp_models c) of r # _ \<Rightarrow> Some r | [] \<Rightarrow> None)"

section \<open>The audited lineage\<close>

record lineage_evidence =
  li_status :: string
  li_reason :: "string option"
  li_base :: string
  li_changes :: nat
  li_evidence_id :: "string option"

definition lineage_names_pair :: "string \<Rightarrow> string \<Rightarrow> lineage_artifact \<Rightarrow> bool" where
  "lineage_names_pair candidate to a \<longleftrightarrow> lineage_diff_subject a = Some candidate \<and> lineage_diff_target a = to"

definition import_lineage ::
    "('w, 'j) auditor \<Rightarrow> ('w, 'j) evidence_store \<Rightarrow> (string + lineage_artifact) option \<Rightarrow> ('w, string, string option) act" where
  "import_lineage ad st file =
     (case file of
        Some (Inr a) \<Rightarrow>
          if lineage_diff_subject a = None then ret None
          else map_error engine_error_text
                 (with_stamp (ad_platform ad) (\<lambda>stamp. import_evidence st (lineage_diff_record ad a stamp)))
      | _ \<Rightarrow> ret None)"

definition lineage_file_newer ::
    "(string \<Rightarrow> int option) \<Rightarrow> string \<Rightarrow> string \<Rightarrow> (string + lineage_artifact) option
       \<Rightarrow> 'j evidence_record option \<Rightarrow> bool" where
  "lineage_file_newer parse_time candidate to file pair_record =
     (case file of
        Some (Inr a) \<Rightarrow>
          lineage_names_pair candidate to a \<and>
          (case pair_record of
             Some r \<Rightarrow> (case la_created_at a of
                          Some t \<Rightarrow> rfc3339_less parse_time (er_created_at r) t
                        | None \<Rightarrow> False)
           | None \<Rightarrow> True)
      | _ \<Rightarrow> False)"

type_synonym found_lineage = "(string + lineage_artifact \<times> string option) option"

definition lineage_diff_evidence ::
    "('w, 'j) auditor \<Rightarrow> string \<Rightarrow> string \<Rightarrow> 'w \<Rightarrow> found_lineage \<times> 'w" where
  "lineage_diff_evidence ad candidate to w =
     (let file = ad_lineage_diff ad w
      in case pf_state (ad_platform ad) of
           None \<Rightarrow> (map_option (map_sum (\<lambda>e. e) (\<lambda>a. (a, None))) file, w)
         | Some st \<Rightarrow>
             (case bind_act (map_error unreadable_store (xs_for st LineageDiffEvidence candidate)) (\<lambda>records.
                   bind_act (import_lineage ad st file) (\<lambda>file_id. ret (records, file_id))) w of
                (Inl e, u) \<Rightarrow> (Some (Inl e), u)
              | (Inr (records, file_id), u) \<Rightarrow>
                  (let pair_record = find (\<lambda>r. er_target_ref r = to) records;
                       from_file = map_option (map_sum (\<lambda>e. e) (\<lambda>a. (a, file_id))) file
                   in if lineage_file_newer (ad_parse_time ad) candidate to file pair_record then (from_file, u)
                      else (case or_else pair_record (case records of r # _ \<Rightarrow> Some r | [] \<Rightarrow> None) of
                              Some r \<Rightarrow>
                                (Some (map_sum (\<lambda>e. ''undecodable lineage evidence: '' @ e)
                                   (\<lambda>a. (a, Some (er_evidence_id r))) (ad_decode_lineage ad (er_payload r))), u)
                            | None \<Rightarrow> (from_file, u)))))"

definition rerun_lineage :: "string \<Rightarrow> string \<Rightarrow> string" where
  "rerun_lineage candidate to = ''rerun `lineage --diff '' @ to @ '' --ref '' @ candidate @ ''`''"

text \<open>Why an artifact bound to a Nessie pair does not speak for the promotion, if it does not.\<close>

definition bound_stale ::
    "string \<Rightarrow> string \<Rightarrow> string \<Rightarrow> string \<Rightarrow> lineage_environment \<Rightarrow> string option" where
  "bound_stale candidate to candidate_hash target_hash binding =
     (if le_candidate_ref binding \<noteq> candidate \<or> le_target_ref binding \<noteq> to then
        Some (''lineage diff covers '' @ ticked (le_candidate_ref binding) @ '' -> '' @
          ticked (le_target_ref binding) @ '', not '' @ ticked candidate @ '' -> '' @ ticked to @ ''; '' @
          rerun_lineage candidate to)
      else if le_candidate_hash binding \<noteq> candidate_hash then
        Some (''candidate '' @ ticked candidate @ '' moved since the lineage diff; '' @ rerun_lineage candidate to)
      else if le_target_hash binding \<noteq> target_hash then
        Some (''target '' @ ticked to @ '' moved since the lineage diff; '' @ rerun_lineage candidate to)
      else None)"

text \<open>The same for an artifact that only records Git commits.\<close>

definition git_stale ::
    "('w, 'j) auditor \<Rightarrow> string \<Rightarrow> string \<Rightarrow> lineage_artifact \<Rightarrow> 'w \<Rightarrow> string option" where
  "git_stale ad candidate to a w =
     (let rerun = rerun_lineage candidate to;
          no_base = Some (''base ref '' @ ticked (la_base_ref a) @ '' no longer resolves; '' @ rerun)
      in if la_base_kind a = ''merge-base'' then
           (case ad_comparison_base ad (la_base_ref a) w of
              Some current \<Rightarrow>
                if cb_commit current = la_base_commit a \<and> cb_head current = cv_head (la_candidate a) \<and>
                   cb_dirty current = cv_dirty (la_candidate a) then None
                else Some (''the worktree or '' @ ticked (la_base_ref a) @ '' moved since the lineage diff; '' @ rerun)
            | None \<Rightarrow> no_base)
         else
           (case ad_resolve_commit ad (la_base_ref a) w of
              None \<Rightarrow> no_base
            | Some base_now \<Rightarrow>
                (case cv_git_ref (la_candidate a) of
                   None \<Rightarrow> Some (''the artifact does not record a resolvable candidate ref; '' @ rerun)
                 | Some git_ref \<Rightarrow>
                     (case ad_resolve_commit ad git_ref w of
                        None \<Rightarrow> Some (''candidate ref '' @ ticked git_ref @ '' no longer resolves; '' @ rerun)
                      | Some now \<Rightarrow>
                          (case cv_head (la_candidate a) of
                             None \<Rightarrow> Some (''the artifact does not record a resolvable candidate ref; '' @ rerun)
                           | Some recorded \<Rightarrow>
                               if now = recorded \<and> base_now = la_base_commit a then None
                               else Some (''a diffed ref moved since the lineage diff; '' @ rerun))))))"

definition fingerprint_stale :: "string option \<Rightarrow> string option \<Rightarrow> string \<Rightarrow> string option" where
  "fingerprint_stale recorded now rerun =
     (case recorded of
        None \<Rightarrow> Some (''the lineage artifact predates candidate fingerprinting; '' @ rerun)
      | Some r \<Rightarrow>
          (case now of
             None \<Rightarrow> Some (''the candidate's lineage could not be fingerprinted; '' @ rerun)
           | Some n \<Rightarrow> if r = n then None else Some (''the candidate's lineage changed since the diff; '' @ rerun)))"

definition audited_artifact ::
    "('w, 'j) auditor \<Rightarrow> string \<Rightarrow> string \<Rightarrow> string \<Rightarrow> string \<Rightarrow> string option \<Rightarrow> lineage_artifact
       \<Rightarrow> string option \<Rightarrow> 'w \<Rightarrow> lineage_evidence" where
  "audited_artifact ad candidate to candidate_hash target_hash now a evidence_id w =
     (let verdict = (\<lambda>status reason.
            \<lparr>li_status = status, li_reason = reason,
             li_base = la_base_ref a @ '' ('' @ take_chars 12 (la_base_commit a) @ '')'',
             li_changes = change_count (la_diff a), li_evidence_id = evidence_id\<rparr>);
          stale = (case la_environment a of
                     Some binding \<Rightarrow> bound_stale candidate to candidate_hash target_hash binding
                   | None \<Rightarrow> git_stale ad candidate to a w)
      in case or_else stale (fingerprint_stale (cv_lineage_hash (la_candidate a)) now (rerun_lineage candidate to)) of
           Some reason \<Rightarrow> verdict ''stale'' (Some reason)
         | None \<Rightarrow> verdict (if la_environment a = None then ''advisory'' else ''current'') None)"

definition audited_lineage ::
    "('w, 'j) auditor \<Rightarrow> string \<Rightarrow> string \<Rightarrow> string \<Rightarrow> string \<Rightarrow> string option \<Rightarrow> 'w \<Rightarrow> lineage_evidence option \<times> 'w" where
  "audited_lineage ad candidate to candidate_hash target_hash now w =
     (case lineage_diff_evidence ad candidate to w of
        (None, u) \<Rightarrow> (None, u)
      | (Some (Inl e), u) \<Rightarrow>
          (Some \<lparr>li_status = ''stale'', li_reason = Some e, li_base = ''unknown'', li_changes = 0,
                 li_evidence_id = None\<rparr>, u)
      | (Some (Inr (a, evidence_id)), u) \<Rightarrow>
          (Some (audited_artifact ad candidate to candidate_hash target_hash now a evidence_id u), u))"

end
