(* ===== verification/Promotion.thy ===== *)
theory Promotion
  imports Evidence
begin

text \<open>
  Promotion of an audited candidate, \<^verbatim>\<open>phlo-transform-engine/src/promotion.rs\<close>: gathering the evidence
  and evaluating the gates over it, merging, recording, binding a run to the commit it validated, and
  cleaning up after the merge. The run history of the state store is the record \<open>promoter\<close>.
\<close>

section \<open>Requests\<close>

record promotion_request =
  pq_candidate_ref :: string
  pq_target_ref :: string
  pq_candidate_hash :: "string option"
  pq_expected_target_hash :: "string option"
  pq_plan_id :: "string option"
  pq_run_id :: "string option"
  pq_quality_gates_passed :: bool
  pq_diff_passed :: "bool option"
  pq_require_diff :: bool
  pq_breaking_schema_changes :: "string list"
  pq_allow_breaking_schema :: bool
  pq_dry_run :: bool
  pq_actor :: "string option"
  pq_gates :: "gate_result list"
  pq_evidence :: promotion_evidence_ids

section \<open>The merge\<close>

definition advanced_since :: "string \<Rightarrow> string \<Rightarrow> string \<Rightarrow> string \<Rightarrow> string \<Rightarrow> string \<Rightarrow> string" where
  "advanced_since role name since expected found advice =
     role @ '' '' @ ticked name @ '' advanced since '' @ since @ '' (expected '' @ expected @ '', found '' @ found @
     ''); '' @ advice"

definition conflict_detail :: "merge_outcome \<Rightarrow> string" where
  "conflict_detail m = join ''; '' (map (\<lambda>c. cf_path c @ '': '' @ cf_message c) (mo_conflicts m))"

definition promotion_of ::
    "string \<times> string \<Rightarrow> promotion_request \<Rightarrow> reference_info \<Rightarrow> reference_info \<Rightarrow> merge_outcome \<Rightarrow> promotion_record" where
  "promotion_of = (\<lambda>(promotion_id, now) q candidate target m.
     \<lparr>pn_promotion_id = promotion_id, pn_candidate_ref = pq_candidate_ref q,
      pn_candidate_hash = or_else (pq_candidate_hash q) (Some (rf_hash candidate)),
      pn_target_ref = pq_target_ref q, pn_target_hash_before = rf_hash target,
      pn_target_hash_after = mo_hash m, pn_plan_id = pq_plan_id q, pn_run_id = pq_run_id q,
      pn_dry_run = pq_dry_run q, pn_merged = (\<not> pq_dry_run q), pn_conflicts = [], pn_gates = pq_gates q,
      pn_evidence = ids_or_none (pq_evidence q), pn_timestamp = now, pn_actor = pq_actor q\<rparr>)"

definition promotion_error :: "nessie_error \<Rightarrow> engine_error" where
  "promotion_error e = EPromotion (nessie_error_text e)"

text \<open>\<open>stamp\<close> is the identifier drawn and the time.\<close>

definition merge_audited ::
    "'w nessie_client \<Rightarrow> string \<times> string \<Rightarrow> promotion_request \<Rightarrow> reference_info \<Rightarrow> reference_info
       \<Rightarrow> ('w, engine_error, promotion_record) act" where
  "merge_audited cl stamp q candidate target =
     bind_act (map_error promotion_error
         (if pq_dry_run q then nc_can_merge cl (pq_candidate_ref q) (pq_target_ref q)
          else nc_merge cl (pq_candidate_ref q) (Some (rf_hash candidate)) (pq_target_ref q)
                 (pq_expected_target_hash q))) (\<lambda>m.
       if \<not> is_clean m then throw (EPromotion (''candidate cannot be promoted: '' @ conflict_detail m))
       else ret (promotion_of stamp q candidate target m))"

definition moved_from :: "string option \<Rightarrow> reference_info \<Rightarrow> bool" where
  "moved_from expected r \<longleftrightarrow> expected \<noteq> None \<and> expected \<noteq> Some (rf_hash r)"

definition promote ::
    "'w nessie_client \<Rightarrow> string \<times> string \<Rightarrow> promotion_request \<Rightarrow> ('w, engine_error, promotion_record) act" where
  "promote cl stamp q =
     (if \<not> pq_quality_gates_passed q then
        throw (EPromotion ''quality gates have not passed; refusing to promote'')
      else if pq_require_diff q \<and> pq_diff_passed q \<noteq> Some True then
        throw (EPromotion ''a passing data diff is required before promotion'')
      else if \<not> pq_allow_breaking_schema q \<and> pq_breaking_schema_changes q \<noteq> [] then
        throw (EPromotion (''breaking schema changes block promotion: '' @
          join '', '' (pq_breaking_schema_changes q)))
      else
        bind_act (require_reference cl EPromotion ''candidate'' (pq_candidate_ref q)) (\<lambda>candidate.
        bind_act (require_reference cl EPromotion ''target'' (pq_target_ref q)) (\<lambda>target.
          if moved_from (pq_candidate_hash q) candidate then
            throw (EPromotion (advanced_since ''candidate'' (pq_candidate_ref q) ''the audit''
              (the (pq_candidate_hash q)) (rf_hash candidate) ''re-run the audit and gates''))
          else if moved_from (pq_expected_target_hash q) target then
            throw (EPromotion (advanced_since ''target'' (pq_target_ref q) ''planning''
              (the (pq_expected_target_hash q)) (rf_hash target) ''re-plan the candidate''))
          else merge_audited cl stamp q candidate target)))"

section \<open>The evaluation\<close>

record promotion_options =
  po_require_diff :: bool
  po_allow_breaking_schema :: bool

record promotion_evaluation =
  pv_candidate :: reference_info
  pv_target :: reference_info
  pv_run :: "run_summary option"
  pv_audit :: audit_evidence
  pv_lineage :: "lineage_evidence option"
  pv_environment :: "environment_setup option"
  pv_expected_target_hash :: "string option"
  pv_evidence :: promotion_evidence_ids
  pv_gates :: gate_report

definition evaluation_request ::
    "promotion_evaluation \<Rightarrow> promotion_options \<Rightarrow> string option \<Rightarrow> promotion_request" where
  "evaluation_request pv po actor =
     \<lparr>pq_candidate_ref = rf_name (pv_candidate pv), pq_target_ref = rf_name (pv_target pv),
      pq_candidate_hash = Some (rf_hash (pv_candidate pv)),
      pq_expected_target_hash = or_else (pv_expected_target_hash pv) (Some (rf_hash (pv_target pv))),
      pq_plan_id = map_option rs_plan_id (pv_run pv), pq_run_id = map_option rs_run_id (pv_run pv),
      pq_quality_gates_passed = True, pq_diff_passed = au_diff_passed (pv_audit pv),
      pq_require_diff = po_require_diff po,
      pq_breaking_schema_changes = au_breaking_schema_changes (pv_audit pv),
      pq_allow_breaking_schema = po_allow_breaking_schema po, pq_dry_run = False, pq_actor = actor,
      pq_gates = ge_results (pv_gates pv), pq_evidence = pv_evidence pv\<rparr>"

record ('w, 'j) promoter =
  pm_auditor :: "('w, 'j) auditor"
  pm_latest_run :: "string option \<Rightarrow> 'w \<Rightarrow> engine_error + run_summary option"
  pm_model_runs :: "string \<Rightarrow> 'w \<Rightarrow> engine_error + model_run_record list"
  pm_seed_runs :: "string \<Rightarrow> 'w \<Rightarrow> engine_error + seed_run_record list"
  pm_test_runs :: "string \<Rightarrow> 'w \<Rightarrow> engine_error + test_run_record list"
  pm_find_runs :: "string \<Rightarrow> 'w \<Rightarrow> engine_error + run_summary list"
  pm_record_promotion :: "promotion_record \<Rightarrow> ('w, engine_error, unit) act"
  pm_bind_reference :: "string \<Rightarrow> string \<Rightarrow> ('w, engine_error, unit) act"
  pm_write_promotion :: "promotion_record \<Rightarrow> ('w, string, unit) act"
  pm_fingerprint :: "compilation \<Rightarrow> string"

abbreviation pm_platform :: "('w, 'j) promoter \<Rightarrow> ('w, 'j) platform" where
  "pm_platform pm \<equiv> ad_platform (pm_auditor pm)"

definition stored_state :: "('w, 'j) promoter \<Rightarrow> bool" where
  "stored_state pm \<longleftrightarrow> pf_state (pm_platform pm) \<noteq> None"

text \<open>A read of the store, its error one of the promotion.\<close>

definition promotion_read :: "('w \<Rightarrow> engine_error + 'a) \<Rightarrow> ('w, engine_error, 'a) act" where
  "promotion_read f w = (map_sum (\<lambda>e. EPromotion (engine_error_text e)) (\<lambda>a. a) (f w), w)"

record run_evidence =
  rn_run :: "run_summary option"
  rn_models :: "model_run_record list"
  rn_seeds :: "seed_run_record list"
  rn_tests :: "test_run_record list"

definition run_evidence_of :: "('w, 'j) promoter \<Rightarrow> string \<Rightarrow> ('w, engine_error, run_evidence) act" where
  "run_evidence_of pm candidate =
     (if \<not> stored_state pm then ret \<lparr>rn_run = None, rn_models = [], rn_seeds = [], rn_tests = []\<rparr>
      else
        bind_act (promotion_read (pm_latest_run pm (Some candidate))) (\<lambda>latest.
          case latest of
            None \<Rightarrow> ret \<lparr>rn_run = None, rn_models = [], rn_seeds = [], rn_tests = []\<rparr>
          | Some run \<Rightarrow>
              bind_act (promotion_read (pm_model_runs pm (rs_run_id run))) (\<lambda>models.
              bind_act (promotion_read (pm_seed_runs pm (rs_run_id run))) (\<lambda>seeds.
              bind_act (promotion_read (pm_test_runs pm (rs_run_id run))) (\<lambda>tests.
                ret \<lparr>rn_run = Some run, rn_models = models, rn_seeds = seeds, rn_tests = tests\<rparr>)))))"

text \<open>An operation that cannot fail.\<close>

definition always :: "('w \<Rightarrow> 'a \<times> 'w) \<Rightarrow> ('w, 'e, 'a) act" where
  "always f w = (case f w of (a, u) \<Rightarrow> (Inr a, u))"

definition succeeded :: "('w, 'e, 'a) act \<Rightarrow> 'w \<Rightarrow> 'a option \<times> 'w" where
  "succeeded m w = (case m w of (Inr a, u) \<Rightarrow> (Some a, u) | (Inl e, u) \<Rightarrow> (None, u))"

text \<open>The commit the evidence was established against: the audited base, else the recorded cut.\<close>

definition established_base ::
    "string \<Rightarrow> string \<Rightarrow> audit_evidence \<Rightarrow> environment_setup option \<Rightarrow> string option" where
  "established_base candidate to audit environment =
     or_else (au_audited_base_hash audit)
       (case environment of
          Some setup \<Rightarrow>
            if rf_name (en_candidate setup) = candidate \<and> rf_name (en_base setup) = to
            then map_option rf_hash (en_created_from setup) else None
        | None \<Rightarrow> None)"

definition gate_input_of ::
    "promotion_options \<Rightarrow> run_evidence \<Rightarrow> audit_evidence \<Rightarrow> string option \<Rightarrow> reference_info \<Rightarrow> reference_info
       \<Rightarrow> merge_outcome option \<Rightarrow> gate_input" where
  "gate_input_of po rn audit expected candidate target check =
     \<lparr>gi_run = rn_run rn, gi_model_runs = rn_models rn, gi_seed_runs = rn_seeds rn, gi_test_runs = rn_tests rn,
      gi_require_diff = po_require_diff po, gi_diff_passed = au_diff_passed audit,
      gi_diff_rejected = au_diff_rejected audit,
      gi_breaking_schema_changes = au_breaking_schema_changes audit,
      gi_allow_breaking_schema = po_allow_breaking_schema po, gi_expected_target_hash = expected,
      gi_actual_target_hash = Some (rf_hash target), gi_actual_candidate_hash = Some (rf_hash candidate),
      gi_schema_audited = au_schema_audited audit, gi_merge_check = check\<rparr>"

definition evaluate_promotion ::
    "('w, 'j) promoter \<Rightarrow> compilation \<Rightarrow> string \<Rightarrow> string \<Rightarrow> promotion_options
       \<Rightarrow> ('w, engine_error, promotion_evaluation) act" where
  "evaluate_promotion pm c candidate_ref to po =
     (let cl = pf_nessie (pm_platform pm); ad = pm_auditor pm
      in bind_act (require_reference cl EPromotion ''candidate'' candidate_ref) (\<lambda>candidate.
         bind_act (require_reference cl EPromotion ''target'' to) (\<lambda>target.
         bind_act (run_evidence_of pm candidate_ref) (\<lambda>rn.
         bind_act (read_environment_evidence (pm_platform pm) candidate_ref) (\<lambda>(environment, environment_id).
         bind_act (always (audited_diff ad candidate_ref to (Some (rf_hash candidate)) (Some (rf_hash target)))) (\<lambda>found.
         bind_act (contract_breaking_changes ad c to) (\<lambda>breaks.
         bind_act (always (succeeded (nc_can_merge cl candidate_ref to))) (\<lambda>check.
         bind_act (always (audited_lineage ad candidate_ref to (rf_hash candidate) (rf_hash target)
             (Some (pm_fingerprint pm c)))) (\<lambda>lineage.
           let audit = found\<lparr>au_breaking_schema_changes := au_breaking_schema_changes found @ breaks\<rparr>;
               expected = established_base candidate_ref to audit environment
           in ret \<lparr>pv_candidate = candidate, pv_target = target, pv_run = rn_run rn, pv_audit = audit,
                   pv_lineage = lineage, pv_environment = environment, pv_expected_target_hash = expected,
                   pv_evidence = \<lparr>pe_branch_diff = au_diff_evidence_id audit,
                     pe_lineage_diff = Option.bind lineage li_evidence_id, pe_environment = environment_id\<rparr>,
                   pv_gates = evaluate_gates (gate_input_of po rn audit expected candidate target check)\<rparr>)))))))))"

section \<open>After the merge\<close>

definition persist_promotion :: "('w, 'j) promoter \<Rightarrow> promotion_record \<Rightarrow> ('w, engine_error, unit) act" where
  "persist_promotion pm r =
     bind_act (map_error EArtifact (pm_write_promotion pm r)) (\<lambda>_.
       if stored_state pm then map_error (\<lambda>e. EPromotion (engine_error_text e)) (pm_record_promotion pm r)
       else ret ())"

definition drop_owned ::
    "'w warehouse option \<Rightarrow> environment_setup option \<Rightarrow> 'w \<Rightarrow> string list \<times> 'w" where
  "drop_owned warehouse environment w =
     (case environment of
        None \<Rightarrow> ([], w)
      | Some setup \<Rightarrow>
          if \<not> owns_catalog setup then ([], w)
          else (case warehouse of
                  None \<Rightarrow> ([''no adapter configured to drop catalog '' @ ticked (en_catalog setup)], w)
                | Some wh \<Rightarrow>
                    (case wh_drop_catalog wh (en_catalog setup) w of
                       (Inl e, u) \<Rightarrow> ([''drop catalog '' @ ticked (en_catalog setup) @ '': '' @ adapter_error_text e], u)
                     | (Inr _, u) \<Rightarrow> ([], u))))"

definition delete_merged :: "'w nessie_client \<Rightarrow> string \<Rightarrow> 'w \<Rightarrow> string list \<times> 'w" where
  "delete_merged cl candidate w =
     (case nc_delete_branch cl candidate w of
        (Inl (NessieNotFound _), u) \<Rightarrow> ([], u)
      | (Inl e, u) \<Rightarrow> ([''delete branch '' @ ticked candidate @ '': '' @ nessie_error_text e], u)
      | (Inr _, u) \<Rightarrow> ([], u))"

definition cleanup_candidate ::
    "('w, 'j) platform \<Rightarrow> 'w warehouse option \<Rightarrow> string \<Rightarrow> environment_setup option \<Rightarrow> ('w, string, unit) act" where
  "cleanup_candidate pf warehouse candidate environment w =
     (case drop_owned warehouse environment w of
        (dropping, u) \<Rightarrow>
          (case delete_merged (pf_nessie pf) candidate u of
             (deleting, v) \<Rightarrow>
               if dropping @ deleting \<noteq> [] then (Inl (join ''; '' (dropping @ deleting)), v)
               else map_error (\<lambda>e. ''remove environment evidence: '' @ engine_error_text e)
                      (remove_environment_artifacts pf candidate) v))"

definition bind_run_reference :: "('w, 'j) promoter \<Rightarrow> run_result \<Rightarrow> ('w, engine_error, unit) act" where
  "bind_run_reference pm result =
     (if rres_status result \<noteq> Passed then ret ()
      else case rres_environment result of
             None \<Rightarrow> ret ()
           | Some environment \<Rightarrow>
               bind_act (map_error promotion_error (nc_get_reference (pf_nessie (pm_platform pm)) environment)) (\<lambda>found.
                 case found of
                   None \<Rightarrow> ret ()
                 | Some head \<Rightarrow>
                     map_error (\<lambda>e. EPromotion (engine_error_text e))
                       (pm_bind_reference pm (rres_run_id result) (rf_hash head))))"

definition find_unique_run :: "('w, 'j) promoter \<Rightarrow> string \<Rightarrow> 'w \<Rightarrow> engine_error + run_summary" where
  "find_unique_run pm id_or_prefix w =
     (case pm_find_runs pm id_or_prefix w of
        Inl e \<Rightarrow> Inl (EState (engine_error_text e))
      | Inr [] \<Rightarrow> Inl (ENotFound (''no run matches '' @ ticked id_or_prefix))
      | Inr [only] \<Rightarrow> Inr only
      | Inr several \<Rightarrow> Inl (EAmbiguous (ticked id_or_prefix @ '' matches '' @ dec (length several) @
          '' runs '' @ em_dash @ '' give a longer prefix'')))"

end
