(* ===== verification/PromotionFacts.thy ===== *)
theory PromotionFacts
  imports Promotion StoreFacts
begin

text \<open>
  What promotion guarantees: merges move the target alone and only from the commits that were audited, the
  gates decide on the evidence that is recorded with the promotion, and a diff stands as evidence exactly
  while it describes both sides as they are.
\<close>

section \<open>Sequencing\<close>

lemma bind_act_Inl:
  "bind_act m f w = (Inl e, u) \<longleftrightarrow> m w = (Inl e, u) \<or> (\<exists>a v. m w = (Inr a, v) \<and> f a v = (Inl e, u))"
  by (auto simp: bind_act_def split: prod.splits sum.splits)

lemma map_error_Inl: "map_error f m w = (Inl e, u) \<longleftrightarrow> (\<exists>x. m w = (Inl x, u) \<and> e = f x)"
  by (auto simp: map_error_def split: prod.splits sum.splits)

lemma ret_throw_simps [simp]:
  "ret a w = (Inr b, u) \<longleftrightarrow> b = a \<and> u = w" "ret a w = (Inl e, u) \<longleftrightarrow> False"
  "throw e w = (Inr b, u) \<longleftrightarrow> False" "throw e w = (Inl x, u) \<longleftrightarrow> x = e \<and> u = w"
  by (auto simp: ret_def throw_def)

lemmas act_cases = bind_act_Inr bind_act_Inl map_error_Inl

section \<open>Merging through a reference store\<close>

context reference_store
begin

lemma get_read:
  assumes "nc_get_reference cl n w = (Inr found, u)"
  shows "found = head w n" "head u = head w"
  using get [OF assms] get_pure [of n w] assms by simp_all

lemma require_reference_head: "head (snd (require_reference cl wrap role n w)) = head w"
proof -
  obtain r u where "nc_get_reference cl n w = (r, u)" by fastforce
  then show ?thesis
    using get_pure [of n w]
    by (auto simp: require_reference_def act_defs split: sum.splits option.splits)
qed

lemma require_reference_found:
  assumes "require_reference cl wrap role n w = (Inr r, u)"
  shows "head w n = Some r" "head u = head w"
proof -
  show "head u = head w" using require_reference_head [of wrap role n w] assms by simp
  show "head w n = Some r"
    using assms get_read [of n w]
    by (auto simp: require_reference_def bind_act_Inr split: option.splits)
qed

lemma merge_audited_cases:
  assumes "merge_audited cl stamp q c t w = (r, u)"
  shows "case r of
      Inl e \<Rightarrow> head u = head w
    | Inr p \<Rightarrow> (\<exists>m. p = promotion_of stamp q c t m \<and>
        (if pq_dry_run q then head u = head w
         else (\<exists>target h. head w (pq_target_ref q) = Some target \<and> mo_hash m = Some h \<and>
           head u = (head w)(pq_target_ref q \<mapsto> target\<lparr>rf_hash := h\<rparr>))))"
proof (cases "pq_dry_run q")
  case True
  have pure: "head v = head w" if "nc_can_merge cl (pq_candidate_ref q) (pq_target_ref q) w = (x, v)" for x v
    using that can_merge_pure [of "pq_candidate_ref q" "pq_target_ref q" w] by simp
  show ?thesis
    using assms True
    by (auto simp: merge_audited_def act_cases act_defs split: sum.splits prod.splits if_splits dest: pure)
next
  case False
  show ?thesis
    using assms False merge merge_fails merge_refused
    by (auto simp: merge_audited_def act_cases act_defs split: sum.splits prod.splits if_splits)
      (fast dest: merge)+
qed

lemma promote_cases:
  assumes "promote cl stamp q w = (r, u)"
  shows "case r of
      Inl e \<Rightarrow> head u = head w
    | Inr p \<Rightarrow> pq_quality_gates_passed q \<and> (if pq_require_diff q then pq_diff_passed q = Some True else True) \<and>
        (pq_allow_breaking_schema q \<or> pq_breaking_schema_changes q = []) \<and>
        (\<exists>c t m. head w (pq_candidate_ref q) = Some c \<and> head w (pq_target_ref q) = Some t \<and>
           \<not> moved_from (pq_candidate_hash q) c \<and> \<not> moved_from (pq_expected_target_hash q) t \<and>
           p = promotion_of stamp q c t m \<and>
           head u = (if pq_dry_run q then head w
                     else (head w)(pq_target_ref q \<mapsto> t\<lparr>rf_hash := the (mo_hash m)\<rparr>)))"
proof (cases "pq_quality_gates_passed q \<and> (if pq_require_diff q then pq_diff_passed q = Some True else True) \<and>
    (pq_allow_breaking_schema q \<or> pq_breaking_schema_changes q = [])")
  case False
  then show ?thesis using assms by (auto simp: promote_def throw_def split: if_splits)
next
  case True
  let ?c = "require_reference cl EPromotion ''candidate'' (pq_candidate_ref q)"
  let ?t = "require_reference cl EPromotion ''target'' (pq_target_ref q)"
  have run: "promote cl stamp q w =
      bind_act ?c (\<lambda>c. bind_act ?t (\<lambda>t.
        if moved_from (pq_candidate_hash q) c then
          throw (EPromotion (advanced_since ''candidate'' (pq_candidate_ref q) ''the audit''
            (the (pq_candidate_hash q)) (rf_hash c) ''re-run the audit and gates''))
        else if moved_from (pq_expected_target_hash q) t then
          throw (EPromotion (advanced_since ''target'' (pq_target_ref q) ''planning''
            (the (pq_expected_target_hash q)) (rf_hash t) ''re-plan the candidate''))
        else merge_audited cl stamp q c t)) w"
    using True by (auto simp: promote_def)
  obtain cr v where c: "?c w = (cr, v)" by fastforce
  have hv: "head v = head w" using require_reference_head [of EPromotion "''candidate''" "pq_candidate_ref q" w] c by simp
  show ?thesis
  proof (cases cr)
    case (Inl e)
    then show ?thesis using assms hv by (auto simp: run bind_act_def c)
  next
    case (Inr cand)
    have cand: "head w (pq_candidate_ref q) = Some cand" using require_reference_found(1) [OF c [unfolded Inr]] .
    obtain tr x where t: "?t v = (tr, x)" by fastforce
    have hx: "head x = head w" using require_reference_head [of EPromotion "''target''" "pq_target_ref q" v] t hv by simp
    show ?thesis
    proof (cases tr)
      case (Inl e)
      then show ?thesis using assms hx by (auto simp: run bind_act_def c \<open>cr = Inr cand\<close> t)
    next
      case (Inr tgt)
      have tgt: "head w (pq_target_ref q) = Some tgt" using require_reference_found(1) [OF t [unfolded Inr]] hv by simp
      have out: "(r, u) =
          (if moved_from (pq_candidate_hash q) cand then
             throw (EPromotion (advanced_since ''candidate'' (pq_candidate_ref q) ''the audit''
               (the (pq_candidate_hash q)) (rf_hash cand) ''re-run the audit and gates''))
           else if moved_from (pq_expected_target_hash q) tgt then
             throw (EPromotion (advanced_since ''target'' (pq_target_ref q) ''planning''
               (the (pq_expected_target_hash q)) (rf_hash tgt) ''re-plan the candidate''))
           else merge_audited cl stamp q cand tgt) x"
        using assms by (simp add: run bind_act_def c \<open>cr = Inr cand\<close> t Inr)
      show ?thesis
      proof (cases "moved_from (pq_candidate_hash q) cand \<or> moved_from (pq_expected_target_hash q) tgt")
        case True
        then show ?thesis using out hx by (auto simp: throw_def split: if_splits)
      next
        case False
        then have "merge_audited cl stamp q cand tgt x = (r, u)" using out by simp
        note m = merge_audited_cases [OF this]
        then show ?thesis
          using True False cand tgt hx by (fastforce split: sum.splits if_splits)
      qed
    qed
  qed
qed

end

section \<open>The merge\<close>

text \<open>
  Property C26. A promotion merges what was audited or changes nothing: on an error and in a dry run every
  reference stays where it was, and a merge happens only when the gates, a required diff and the schema
  check let it, from the candidate and the target commits that were expected, moves the target alone, and is
  recorded with the commits it merged.
\<close>

theorem promotion_merges_audited:
  assumes "reference_store cl head"
  shows "case promote cl stamp q w of
      (Inl e, u) \<Rightarrow> head u = head w
    | (Inr p, u) \<Rightarrow> pq_quality_gates_passed q \<and> (pq_require_diff q \<longrightarrow> pq_diff_passed q = Some True) \<and>
        (pq_allow_breaking_schema q \<or> pq_breaking_schema_changes q = []) \<and>
        (\<exists>c t. head w (pq_candidate_ref q) = Some c \<and> head w (pq_target_ref q) = Some t \<and>
           pq_candidate_hash q \<in> {None, Some (rf_hash c)} \<and> pq_expected_target_hash q \<in> {None, Some (rf_hash t)} \<and>
           pn_candidate_hash p = Some (rf_hash c) \<and> pn_target_hash_before p = rf_hash t \<and>
           pn_merged p = (\<not> pq_dry_run q) \<and> pn_gates p = pq_gates q \<and>
           head u = (if pq_dry_run q then head w
                     else (head w)(pq_target_ref q \<mapsto> t\<lparr>rf_hash := the (pn_target_hash_after p)\<rparr>)))"
proof -
  obtain r u where r: "promote cl stamp q w = (r, u)" by fastforce
  show ?thesis
    using reference_store.promote_cases [OF assms r] unfolding r
    by (cases r; cases stamp) (auto simp: promotion_of_def moved_from_def or_else_def split: if_splits option.splits)
qed

section \<open>The audit\<close>

definition recorded_datasets :: "recorded_side \<Rightarrow> (string \<times> dataset_kind) set" where
  "recorded_datasets s = (\<lambda>n. (n, ModelDataset)) ` fst ` set (fst s) \<union> (\<lambda>n. (n, SeedDataset)) ` fst ` set (snd s)"

definition reported_datasets :: "branch_diff_report \<Rightarrow> (string \<times> dataset_kind) set" where
  "reported_datasets report = (\<lambda>d. (dd_dataset d, dd_kind d)) ` set (br_datasets report)"

lemma covers_iff: "covers report kind name \<longleftrightarrow> (name, kind) \<in> reported_datasets report"
  by (auto simp: covers_def reported_datasets_def list_ex_iff)

lemma commit_current:
  "commit_stale candidate to label recorded (Some h) = [] \<longleftrightarrow> recorded = Some h"
  by (auto simp: commit_stale_def split: option.splits)

lemma dataset_current:
  "dataset_stale to candidate base d = [] \<longleftrightarrow>
     current_version candidate d = dd_candidate_version d \<and> current_version base d = dd_base_version d"
  by (simp add: dataset_stale_def)

lemma uncovered_current:
  "uncovered_stale report where_to s = [] \<longleftrightarrow> recorded_datasets s \<subseteq> reported_datasets report"
  unfolding uncovered_stale_def recorded_datasets_def
  by (simp add: filter_empty_conv covers_iff Un_subset_iff image_subset_iff)

lemma side_current: "side_stale r = [] \<longleftrightarrow> (\<exists>s. r = Inr s)"
  by (auto simp: side_stale_def split: sum.splits)

lemma not_stale:
  "stale_reasons candidate to (Some ch) (Some bh) cside bside report = [] \<longleftrightarrow>
     br_candidate_hash report = Some ch \<and> br_base_hash report = Some bh \<and>
     (\<exists>cs bs. cside = Inr cs \<and> bside = Inr bs \<and>
        list_all (\<lambda>d. current_version cs d = dd_candidate_version d \<and> current_version bs d = dd_base_version d)
          (br_datasets report) \<and>
        recorded_datasets cs \<union> recorded_datasets bs \<subseteq> reported_datasets report) \<and>
     \<not> self_compared report"
  unfolding stale_reasons_def append_is_Nil_conv commit_current side_current uncovered_current
  by (auto simp: dataset_current side_records_def list_all_iff)

text \<open>
  The freshest report on a pair: of the records of the pair, newest first, the first, unless the file names the
  pair and finished later, by instant, than the record was created. Without such a record it is the file, when
  it names the pair.
\<close>

definition freshest_report ::
    "('w, 'j) auditor \<Rightarrow> string \<Rightarrow> string \<Rightarrow> branch_diff_report option \<Rightarrow> 'j evidence_record list
       \<Rightarrow> branch_diff_report option" where
  "freshest_report ad candidate to file records =
     (let attested = (case file of Some f \<Rightarrow> if names_pair candidate to f then Some f else None | None \<Rightarrow> None)
      in case filter (\<lambda>r. er_target_ref r = to) records of
           [] \<Rightarrow> attested
         | r # _ \<Rightarrow>
             (let recorded = (case ad_decode_report ad (er_payload r) of Inr report \<Rightarrow> Some report | Inl e \<Rightarrow> None)
              in case attested of
                   None \<Rightarrow> recorded
                 | Some f \<Rightarrow>
                     if rfc3339_less (ad_parse_time ad) (er_created_at r) (br_finished_at f) then Some f else recorded))"

text \<open>
  The store files a report under the pair it names, as \<open>persist_branch_diff\<close> and the import of a file do,
  and the records of a reference are all of them.
\<close>

definition filed_as_named :: "('w, 'j) auditor \<Rightarrow> 'j evidence_record \<Rightarrow> bool" where
  "filed_as_named ad r \<longleftrightarrow>
     (\<forall>report. ad_decode_report ad (er_payload r) = Inr report \<longrightarrow>
        br_candidate_ref report = er_subject r \<and> br_base_ref report = er_target_ref r)"

definition well_filed :: "('w, 'j) auditor \<Rightarrow> ('w, 'j) evidence_store \<Rightarrow> string \<Rightarrow> 'w \<Rightarrow> bool" where
  "well_filed ad st candidate w \<longleftrightarrow>
     (\<forall>records v. xs_for st BranchDiffEvidence candidate w = (Inr records, v) \<longrightarrow>
        (\<forall>r \<in> set records. filed_as_named ad r) \<and>
        (records = [] \<longrightarrow> (\<forall>latest u. xs_latest st BranchDiffEvidence v = (Inr latest, u) \<longrightarrow>
           (\<forall>r \<in> set latest. filed_as_named ad r \<and> er_subject r \<noteq> candidate))))"

lemma find_filter: "find P xs = (case filter P xs of [] \<Rightarrow> None | x # _ \<Rightarrow> Some x)"
  by (induction xs) auto

lemma decoded_found:
  "decoded_report ad r = FoundReport report i \<longleftrightarrow>
     ad_decode_report ad (er_payload r) = Inr report \<and> i = Some (er_evidence_id r)"
  by (auto simp: decoded_report_def split: sum.splits)

text \<open>A report that names the pair is chosen exactly when it is the freshest one.\<close>

lemma chosen_report_pair:
  assumes filed: "well_filed ad st candidate w" and records: "xs_for st BranchDiffEvidence candidate w = (Inr records, v)"
    and import: "import_report ad st (ad_branch_diff ad w) v = (Inr file_id, u)"
    and names: "names_pair candidate to report"
  shows "(\<exists>i. chosen_report ad st candidate to (ad_branch_diff ad w) records file_id u = (Inr (FoundReport report i), x)) \<longleftrightarrow>
    freshest_report ad candidate to (ad_branch_diff ad w) records = Some report \<and> x = u"
proof -
  let ?file = "ad_branch_diff ad w" and ?mine = "filter (\<lambda>r. er_target_ref r = to) records"
  have named: "filed_as_named ad r" if "r \<in> set records" for r
    using filed records that by (simp add: well_filed_def)
  have other: "ad_decode_report ad (er_payload r) \<noteq> Inr report"
    if "?mine = []" "r \<in> set records" for r
    using named [OF that(2)] names that by (auto simp: filed_as_named_def names_pair_def filter_empty_conv)
  have stranger: "ad_decode_report ad (er_payload r) \<noteq> Inr report"
    if "records = []" "?file = None" "xs_latest st BranchDiffEvidence u = (Inr latest, y)" "r \<in> set latest" for latest y r
  proof -
    have "u = v" using import that(2) by (simp add: import_report_def)
    then have "filed_as_named ad r \<and> er_subject r \<noteq> candidate"
      using filed records that by (simp add: well_filed_def)
    then show ?thesis using names by (auto simp: filed_as_named_def names_pair_def)
  qed
  show ?thesis
  proof (cases ?mine)
    case (Cons r rest)
    then show ?thesis using names
      by (cases ?file) (auto simp: chosen_report_def freshest_report_def find_filter file_fresher_def or_else_def
          ret_def decoded_found Let_def split: sum.splits if_splits)
  next
    case Nil
    show ?thesis
    proof (cases records)
      case (Cons r rest)
      then have "ad_decode_report ad (er_payload r) \<noteq> Inr report" using other Nil by simp
      with Cons Nil names show ?thesis
        by (cases ?file) (auto simp: chosen_report_def freshest_report_def find_filter file_fresher_def or_else_def
            ret_def decoded_found Let_def split: if_splits)
    next
      case empty: Nil
      show ?thesis
      proof (cases ?file)
        case None
        then show ?thesis using stranger [OF empty None]
          by (auto simp: chosen_report_def freshest_report_def file_fresher_def or_else_def empty bind_act_Inr
              ret_def decoded_found Let_def split: list.splits)
      next
        case (Some f)
        then show ?thesis using names
          by (auto simp: chosen_report_def freshest_report_def file_fresher_def or_else_def empty ret_def Let_def)
      qed
    qed
  qed
qed

lemma branch_diff_pair:
  assumes "well_filed ad st candidate w" "names_pair candidate to report"
  shows "(\<exists>i. branch_diff_evidence ad st candidate to w = (FoundReport report i, x)) \<longleftrightarrow>
    (\<exists>records v file_id. xs_for st BranchDiffEvidence candidate w = (Inr records, v) \<and>
       import_report ad st (ad_branch_diff ad w) v = (Inr file_id, x) \<and>
       freshest_report ad candidate to (ad_branch_diff ad w) records = Some report)"
proof -
  have found: "branch_diff_evidence ad st candidate to w = (FoundReport report i, x) \<longleftrightarrow>
      (\<exists>records v file_id u. xs_for st BranchDiffEvidence candidate w = (Inr records, v) \<and>
         import_report ad st (ad_branch_diff ad w) v = (Inr file_id, u) \<and>
         chosen_report ad st candidate to (ad_branch_diff ad w) records file_id u = (Inr (FoundReport report i), x))" for i
    by (auto simp: branch_diff_evidence_def Let_def bind_act_Inr split: prod.splits sum.splits)
       (auto simp: bind_act_def map_error_def split: prod.splits sum.splits)
  show ?thesis
  proof
    assume "\<exists>i. branch_diff_evidence ad st candidate to w = (FoundReport report i, x)"
    then obtain i records v file_id u where h: "xs_for st BranchDiffEvidence candidate w = (Inr records, v)"
      "import_report ad st (ad_branch_diff ad w) v = (Inr file_id, u)"
      "chosen_report ad st candidate to (ad_branch_diff ad w) records file_id u = (Inr (FoundReport report i), x)"
      unfolding found by blast
    then show "\<exists>records v file_id. xs_for st BranchDiffEvidence candidate w = (Inr records, v) \<and>
        import_report ad st (ad_branch_diff ad w) v = (Inr file_id, x) \<and>
        freshest_report ad candidate to (ad_branch_diff ad w) records = Some report"
      using chosen_report_pair [OF assms(1) h(1,2) assms(2), of x] by blast
  next
    assume "\<exists>records v file_id. xs_for st BranchDiffEvidence candidate w = (Inr records, v) \<and>
        import_report ad st (ad_branch_diff ad w) v = (Inr file_id, x) \<and>
        freshest_report ad candidate to (ad_branch_diff ad w) records = Some report"
    then obtain records v file_id where h: "xs_for st BranchDiffEvidence candidate w = (Inr records, v)"
      "import_report ad st (ad_branch_diff ad w) v = (Inr file_id, x)"
      "freshest_report ad candidate to (ad_branch_diff ad w) records = Some report" by blast
    then show "\<exists>i. branch_diff_evidence ad st candidate to w = (FoundReport report i, x)"
      unfolding found using chosen_report_pair [OF assms(1) h(1,2) assms(2), of x] by blast
  qed
qed

text \<open>
  Property C27. A diff certifies a promotion exactly while it describes it. When the store files reports under
  the pair they name, a schema audit counts when and only when the evidence can be read and the freshest report
  on this pair (the newest record, or the file when it is later or there is no record) was made at the two given
  commits, both sides could be read, every dataset of it has on both sides the version it was compared at, no
  dataset was materialised that it does not list, and no relation was compared with itself. Without a store,
  without such a report or with an unreadable record nothing is certified.
\<close>

theorem schema_audited_iff:
  assumes "\<And>st. pf_state (ad_platform ad) = Some st \<Longrightarrow> well_filed ad st candidate w"
  shows "au_schema_audited (fst (audited_diff ad candidate to (Some ch) (Some bh) w)) \<longleftrightarrow>
     (\<exists>st records v file_id u report cs bs. pf_state (ad_platform ad) = Some st \<and>
        xs_for st BranchDiffEvidence candidate w = (Inr records, v) \<and>
        import_report ad st (ad_branch_diff ad w) v = (Inr file_id, u) \<and>
        freshest_report ad candidate to (ad_branch_diff ad w) records = Some report \<and>
        br_candidate_ref report = candidate \<and> br_base_ref report = to \<and>
        br_candidate_hash report = Some ch \<and> br_base_hash report = Some bh \<and>
        recorded_side (ad_parse_time ad) (ad_view ad u) candidate = Inr cs \<and>
        recorded_side (ad_parse_time ad) (ad_view ad u) to = Inr bs \<and>
        list_all (\<lambda>d. current_version cs d = dd_candidate_version d \<and> current_version bs d = dd_base_version d)
          (br_datasets report) \<and>
        recorded_datasets cs \<union> recorded_datasets bs \<subseteq> reported_datasets report \<and> \<not> self_compared report)"
proof (cases "pf_state (ad_platform ad)")
  case None
  then show ?thesis by (simp add: audited_diff_def no_audit_def)
next
  case (Some st)
  note pair = branch_diff_pair [OF assms [OF Some]]
  obtain found u where found: "branch_diff_evidence ad st candidate to w = (found, u)"
    by (cases "branch_diff_evidence ad st candidate to w")
  have audited: "au_schema_audited (fst (audited_diff ad candidate to (Some ch) (Some bh) w)) \<longleftrightarrow>
      (\<exists>report i. found = FoundReport report i \<and> names_pair candidate to report \<and>
        stale_reasons candidate to (Some ch) (Some bh)
          (recorded_side (ad_parse_time ad) (ad_view ad u) candidate)
          (recorded_side (ad_parse_time ad) (ad_view ad u) to) report = [])"
    by (cases found) (auto simp: audited_diff_def Some found audited_report_def no_audit_def Let_def)
  show ?thesis (is "_ \<longleftrightarrow> ?certified")
  proof
    assume "au_schema_audited (fst (audited_diff ad candidate to (Some ch) (Some bh) w))"
    then obtain report i where r: "found = FoundReport report i" "names_pair candidate to report"
      and fresh: "stale_reasons candidate to (Some ch) (Some bh)
          (recorded_side (ad_parse_time ad) (ad_view ad u) candidate)
          (recorded_side (ad_parse_time ad) (ad_view ad u) to) report = []"
      unfolding audited by blast
    obtain records v file_id where "xs_for st BranchDiffEvidence candidate w = (Inr records, v)"
      "import_report ad st (ad_branch_diff ad w) v = (Inr file_id, u)"
      "freshest_report ad candidate to (ad_branch_diff ad w) records = Some report"
      using pair [OF r(2), of u] found r(1) by blast
    with fresh [unfolded not_stale] r(2) [unfolded names_pair_def] Some show ?certified by blast
  next
    assume ?certified
    then obtain records v file_id x report cs bs where
      h: "xs_for st BranchDiffEvidence candidate w = (Inr records, v)"
        "import_report ad st (ad_branch_diff ad w) v = (Inr file_id, x)"
        "freshest_report ad candidate to (ad_branch_diff ad w) records = Some report"
      and names: "br_candidate_ref report = candidate" "br_base_ref report = to"
      and rest: "br_candidate_hash report = Some ch" "br_base_hash report = Some bh"
        "recorded_side (ad_parse_time ad) (ad_view ad x) candidate = Inr cs"
        "recorded_side (ad_parse_time ad) (ad_view ad x) to = Inr bs"
        "list_all (\<lambda>d. current_version cs d = dd_candidate_version d \<and> current_version bs d = dd_base_version d)
          (br_datasets report)"
        "recorded_datasets cs \<union> recorded_datasets bs \<subseteq> reported_datasets report" "\<not> self_compared report"
      unfolding Some by blast
    have n: "names_pair candidate to report" using names by (simp add: names_pair_def)
    then obtain i where "found = FoundReport report i" "x = u"
      using pair [OF n, of x] h unfolding found by blast
    with n rest show "au_schema_audited (fst (audited_diff ad candidate to (Some ch) (Some bh) w))"
      unfolding audited not_stale by blast
  qed
qed

section \<open>From the evidence to the merge\<close>

lemma evaluated:
  assumes "evaluate_promotion pm c candidate to po w = (Inr pv, u)"
  obtains rn check where "pv_run pv = rn_run rn"
    "pv_gates pv = evaluate_gates (gate_input_of po rn (pv_audit pv) (pv_expected_target_hash pv)
       (pv_candidate pv) (pv_target pv) check)"
  using assms by (force simp: evaluate_promotion_def Let_def bind_act_Inr split: prod.splits)

text \<open>
  Property C25. Whatever happens between the evaluation and the merge, a promotion that went through was
  authorised for exactly the commits it merged: the latest run of the candidate passed without a failure and
  validated the merged commit, the target was still at the commit the evidence was established against, the
  schema was audited without a break or the breaks were waived, and the record names that run, those
  commits, the gates and the evidence.
\<close>

theorem promotion_was_authorised:
  assumes "reference_store (pf_nessie (pm_platform pm)) head"
    and "evaluate_promotion pm c candidate to po w = (Inr pv, w1)" "ge_passed (pv_gates pv)"
    and "promote (pf_nessie (pm_platform pm)) stamp (evaluation_request pv po actor) w2 = (Inr p, u)"
  shows "\<exists>run source target. pv_run pv = Some run \<and> rs_status run = Passed \<and> rs_failed_count run = 0 \<and>
    pn_run_id p = Some (rs_run_id run) \<and> rs_reference_hash run = Some (rf_hash source) \<and>
    head w2 (rf_name (pv_candidate pv)) = Some source \<and> pn_candidate_hash p = Some (rf_hash source) \<and>
    head w2 (rf_name (pv_target pv)) = Some target \<and> pn_target_hash_before p = rf_hash target \<and>
    pv_expected_target_hash pv = Some (rf_hash target) \<and>
    (if au_breaking_schema_changes (pv_audit pv) = [] then au_schema_audited (pv_audit pv)
     else po_allow_breaking_schema po) \<and>
    pn_merged p \<and> pn_gates p = ge_results (pv_gates pv) \<and> pn_evidence p = ids_or_none (pv_evidence pv) \<and>
    head u = (head w2)(rf_name (pv_target pv) \<mapsto> target\<lparr>rf_hash := the (pn_target_hash_after p)\<rparr>)"
proof -
  obtain rn check where gates: "pv_run pv = rn_run rn"
    "pv_gates pv = evaluate_gates (gate_input_of po rn (pv_audit pv) (pv_expected_target_hash pv)
       (pv_candidate pv) (pv_target pv) check)"
    by (rule evaluated [OF assms(2)])
  let ?i = "gate_input_of po rn (pv_audit pv) (pv_expected_target_hash pv) (pv_candidate pv) (pv_target pv) check"
  have "gr_passed (run_gate ?i)" "gr_passed (schema_gate ?i)" "gr_passed (base_gate ?i)"
    using assms(3) by (simp_all add: gates(2) gates_verdict)
  then obtain run where run: "pv_run pv = Some run" "rs_status run = Passed" "rs_failed_count run = 0"
      "rs_reference_hash run = Some (rf_hash (pv_candidate pv))"
      "pv_expected_target_hash pv = Some (rf_hash (pv_target pv))"
      "if au_breaking_schema_changes (pv_audit pv) = [] then au_schema_audited (pv_audit pv)
       else po_allow_breaking_schema po"
    by (auto simp: gates_passed gate_input_of_def gates(1) split: if_splits)
  show ?thesis
    using reference_store.promote_cases [OF assms(1,4)] run
    by (cases stamp) (auto simp: evaluation_request_def promotion_of_def moved_from_def or_else_def)
qed

section \<open>A client within a larger state\<close>

definition on_fst :: "('a, 'e, 'r) act \<Rightarrow> ('a \<times> 'b, 'e, 'r) act" where
  "on_fst m = (\<lambda>(a, b). case m a of (r, c) \<Rightarrow> (r, (c, b)))"

definition beside :: "'a nessie_client \<Rightarrow> ('a \<times> 'b) nessie_client" where
  "beside cl =
     \<lparr>nc_get_reference = (\<lambda>n. on_fst (nc_get_reference cl n)), nc_list_references = on_fst (nc_list_references cl),
      nc_create_branch = (\<lambda>n from. on_fst (nc_create_branch cl n from)),
      nc_delete_branch = (\<lambda>n. on_fst (nc_delete_branch cl n)),
      nc_merge = (\<lambda>a ah b bh. on_fst (nc_merge cl a ah b bh)),
      nc_can_merge = (\<lambda>a b. on_fst (nc_can_merge cl a b)),
      nc_assign_reference = (\<lambda>n h. on_fst (nc_assign_reference cl n h))\<rparr>"

lemma on_fst_result: "on_fst m w = (r, u) \<longleftrightarrow> (\<exists>c. m (fst w) = (r, c) \<and> u = (c, snd w))"
  by (cases w) (auto simp: on_fst_def split: prod.splits)

lemma snd_on_fst: "fst (snd (on_fst m w)) = snd (m (fst w))"
  by (cases w) (simp add: on_fst_def split: prod.splits)

lemma reference_store_beside:
  assumes "reference_store cl head"
  shows "reference_store (beside cl) (\<lambda>w. head (fst w))"
proof -
  note laws = reference_store.get [OF assms] reference_store.create [OF assms] reference_store.create_fails [OF assms]
    reference_store.delete [OF assms] reference_store.delete_fails [OF assms] reference_store.merge [OF assms]
    reference_store.merge_refused [OF assms] reference_store.merge_fails [OF assms]
  note pure = reference_store.get_pure [OF assms] reference_store.can_merge_pure [OF assms]
  show ?thesis
    by unfold_locales (auto simp: beside_def on_fst_result snd_on_fst pure dest: laws)
qed

section \<open>The SQLite store as an evidence store\<close>

definition on_database :: "('j database \<Rightarrow> 'j database) \<Rightarrow> ('a \<times> 'j database, 'e, unit) act" where
  "on_database f = (\<lambda>(a, d). (Inr (), (a, f d)))"

definition sqlite_evidence :: "(string \<Rightarrow> int option) \<Rightarrow> ('a \<times> 'j database, 'j) evidence_store" where
  "sqlite_evidence parse_time =
     \<lparr>xs_for = (\<lambda>kind subject w. (Inr (evidence_for parse_time kind subject (snd w)), w)),
      xs_latest = (\<lambda>kind w. (Inr (latest_evidence parse_time kind (snd w)), w)),
      xs_record = (\<lambda>r w. case record_evidence r (snd w) of
         Some d \<Rightarrow> (Inr (), (fst w, d))
       | None \<Rightarrow> (Inl (EState ''UNIQUE constraint failed: evidence.evidence_id''), w)),
      xs_remove = (\<lambda>kind subject. on_database (remove_evidence kind subject))\<rparr>"

definition sqlite_view :: "'a \<times> 'j database \<Rightarrow> state_view" where
  "sqlite_view w =
     \<lparr>sv_materialized_in = (\<lambda>e. Inr (materialized_in e (snd w))), sv_seeds_in = (\<lambda>e. Inr (seeds_in e (snd w))),
      sv_materialized_by_hashes = (\<lambda>hs. Inr (materialized_by_hashes hs (snd w))),
      sv_watermark = (\<lambda>m e. Inr (watermark m e (snd w)))\<rparr>"

text \<open>A database whose reports are filed under the pair they name is well filed.\<close>

lemma sqlite_well_filed:
  assumes "\<forall>r \<in> set (db_evidence (snd w)). er_kind r = BranchDiffEvidence \<longrightarrow> filed_as_named ad r"
  shows "well_filed ad (sqlite_evidence parse_time) candidate w"
proof -
  have mine: "r \<in> set (db_evidence (snd w)) \<and> er_kind r = BranchDiffEvidence"
    if "r \<in> set (evidence_for parse_time BranchDiffEvidence candidate (snd w))" for r
    using that by (simp add: evidence_for_def)
  have latest: "r \<in> set (db_evidence (snd w)) \<and> er_kind r = BranchDiffEvidence"
    if "r \<in> set (latest_evidence parse_time BranchDiffEvidence (snd w))" for r
    using first_per_subset [OF that [unfolded latest_evidence_def]] by simp
  have none: "er_subject r \<noteq> candidate"
    if "evidence_for parse_time BranchDiffEvidence candidate (snd w) = []"
      "r \<in> set (latest_evidence parse_time BranchDiffEvidence (snd w))" for r
  proof -
    have "set (evidence_for parse_time BranchDiffEvidence candidate (snd w)) = {}" using that(1) by simp
    then show ?thesis using latest [OF that(2)] by (auto simp: evidence_for_def)
  qed
  have reads: "xs_for (sqlite_evidence parse_time) kind subject v = (Inr (evidence_for parse_time kind subject (snd v)), v)"
    "xs_latest (sqlite_evidence parse_time) kind v = (Inr (latest_evidence parse_time kind (snd v)), v)" for kind subject v
    by (simp_all add: sqlite_evidence_def)
  show ?thesis
    unfolding well_filed_def reads using assms mine latest none by blast
qed

section \<open>Witnesses\<close>

definition demo_refs :: memory_refs where
  "demo_refs = [(''ci'', reference_branch ''ci'' ''c1''), (''main'', reference_branch ''main'' ''m1'')]"

definition demo_request :: promotion_request where
  "demo_request =
     \<lparr>pq_candidate_ref = ''ci'', pq_target_ref = ''main'', pq_candidate_hash = Some ''c1'',
      pq_expected_target_hash = Some ''m1'', pq_plan_id = None, pq_run_id = None, pq_quality_gates_passed = True,
      pq_diff_passed = None, pq_require_diff = False, pq_breaking_schema_changes = [],
      pq_allow_breaking_schema = False, pq_dry_run = False, pq_actor = None, pq_gates = [],
      pq_evidence = no_evidence_ids\<rparr>"

theorem promotion_merges_audited_witness:
  "\<exists>p u. promote memory_nessie (''p1'', ''t'') demo_request demo_refs = (Inr p, u) \<and>
     pn_candidate_hash p = Some ''c1'' \<and> map_of u ''main'' = Some (reference_branch ''main'' ''c1'')"
proof -
  have run: "promote memory_nessie (''p1'', ''t'') demo_request demo_refs =
      (Inr (promotion_of (''p1'', ''t'') demo_request (reference_branch ''ci'' ''c1'') (reference_branch ''main'' ''m1'')
         (merge_clean ''c1'')),
       [(''ci'', reference_branch ''ci'' ''c1''), (''main'', reference_branch ''main'' ''c1'')])"
    by code_simp
  show ?thesis
    using promotion_merges_audited [OF memory.reference_store_axioms,
        where stamp = "(''p1'', ''t'')" and q = demo_request and w = demo_refs]
    unfolding run
    by (auto simp: promotion_of_def demo_refs_def demo_request_def reference_branch_def merge_clean_def)
qed

text \<open>
  One state of the audit: the candidate and the target have each one commit, the report on the pair is the only
  evidence, nothing was materialised, and the candidate passed its run.
\<close>

type_synonym demo_json = "(environment_setup + branch_diff_report) + lineage_artifact"

definition demo_report :: branch_diff_report where
  "demo_report =
     \<lparr>br_candidate_ref = ''ci'', br_base_ref = ''main'', br_candidate_hash = Some ''c1'',
      br_base_hash = Some ''m1'', br_datasets = [], br_schema_changes = [], br_contract_changes = [],
      br_impacts = [], br_rows = [], br_diffs = [], br_deep = True, br_passed = True, br_started_at = ''1'',
      br_finished_at = ''2''\<rparr>"

definition demo_run :: run_summary where
  "demo_run =
     \<lparr>rs_run_id = ''r1'', rs_plan_id = ''p1'', rs_environment = Some ''ci'', rs_reference_hash = Some ''c1'',
      rs_started_at = ''1'', rs_finished_at = Some ''2'', rs_status = Passed, rs_model_count = 0,
      rs_failed_count = 0\<rparr>"

type_synonym demo_world = "memory_refs \<times> demo_json database"

definition demo_warehouse :: "demo_world warehouse" where
  "demo_warehouse =
     \<lparr>wh_name = ''memory'', wh_provisions = True, wh_ensure_catalog = (\<lambda>q. ret CatalogCreated),
      wh_drop_catalog = (\<lambda>c. ret ()), wh_columns = (\<lambda>r w. Inr []), wh_source_state = (\<lambda>r w. Inr None)\<rparr>"

definition no_files :: "demo_world environment_files" where
  "no_files =
     \<lparr>fl_read = (\<lambda>name w. None), fl_names = (\<lambda>w. []), fl_write = (\<lambda>name s. ret ()), fl_remove = (\<lambda>name. ret ())\<rparr>"

definition demo_platform :: "(demo_world, demo_json) platform" where
  "demo_platform =
     \<lparr>pf_nessie = beside memory_nessie, pf_warehouse = demo_warehouse,
      pf_state = Some (sqlite_evidence (\<lambda>s. Some (int (length s)))), pf_files = no_files,
      pf_encode = (\<lambda>s. Inl (Inl s)),
      pf_decode = (\<lambda>j. case j of Inl (Inl s) \<Rightarrow> Inr s | _ \<Rightarrow> Inl ''not an environment''),
      pf_stamp = (\<lambda>w. ((''e'' @ replicate (length (db_evidence (snd w))) CHR ''x'', ''3''), w)),
      pf_sha = (\<lambda>s. s)\<rparr>"

definition demo_auditor :: "(demo_world, demo_json) auditor" where
  "demo_auditor =
     \<lparr>ad_platform = demo_platform, ad_view = sqlite_view, ad_parse_time = (\<lambda>s. Some (int (length s))),
      ad_branch_diff = (\<lambda>w. None), ad_single_diff = (\<lambda>w. False), ad_lineage_diff = (\<lambda>w. None),
      ad_write_branch_diff = (\<lambda>r. ret ()), ad_encode_report = (\<lambda>r. Inl (Inr r)),
      ad_decode_report = (\<lambda>j. case j of Inl (Inr r) \<Rightarrow> Inr r | _ \<Rightarrow> Inl ''not a report''),
      ad_encode_lineage = Inr, ad_decode_lineage = (\<lambda>j. case j of Inr a \<Rightarrow> Inr a | _ \<Rightarrow> Inl ''not a lineage''),
      ad_comparison_base = (\<lambda>r w. None), ad_resolve_commit = (\<lambda>r w. None)\<rparr>"

definition demo_promoter :: "(demo_world, demo_json) promoter" where
  "demo_promoter =
     \<lparr>pm_auditor = demo_auditor, pm_latest_run = (\<lambda>e w. Inr (latest_run (\<lambda>s. Some (int (length s))) e (snd w))),
      pm_model_runs = (\<lambda>r w. Inr (model_runs r (snd w))), pm_seed_runs = (\<lambda>r w. Inr (seed_runs r (snd w))),
      pm_test_runs = (\<lambda>r w. Inr (test_runs r (snd w))), pm_find_runs = (\<lambda>p w. Inr []),
      pm_record_promotion = (\<lambda>r. on_database (record_promotion r)),
      pm_bind_reference = (\<lambda>r h. ret ()), pm_write_promotion = (\<lambda>r. ret ()),
      pm_fingerprint = (\<lambda>c. [])\<rparr>"

definition demo_compilation :: compilation where
  "demo_compilation =
     \<lparr>cp_models = [], cp_tests = [], cp_seeds = [],
      cp_defaults = \<lparr>wd_materialization = View, wd_catalog = None, wd_schema = None\<rparr>, cp_graph = empty_graph,
      cp_diagnostics = [], cp_index = [], cp_test_index = []\<rparr>"

definition demo_world :: demo_world where
  "demo_world =
     (demo_refs, empty_database
        \<lparr>db_runs := [(demo_run, \<lparr>spl_plan_id = ''p1'', spl_environment = Some ''ci'', spl_models = [],
           spl_seeds = [], spl_tests = []\<rparr>)],
         db_evidence := [branch_diff_record demo_auditor demo_report (''e1'', ''2'')]\<rparr>)"

definition demo_options :: promotion_options where
  "demo_options = \<lparr>po_require_diff = True, po_allow_breaking_schema = False\<rparr>"

definition demo_audit :: audit_evidence where
  "demo_audit =
     \<lparr>au_diff_passed = Some True, au_diff_rejected = None, au_breaking_schema_changes = [],
      au_audited_base_hash = Some ''m1'', au_schema_audited = True, au_diff_evidence_id = Some ''e1''\<rparr>"

definition demo_gates :: gate_input where
  "demo_gates = gate_input_of demo_options \<lparr>rn_run = Some demo_run, rn_models = [], rn_seeds = [], rn_tests = []\<rparr>
     demo_audit (Some ''m1'') (reference_branch ''ci'' ''c1'') (reference_branch ''main'' ''m1'')
     (Some (merge_clean ''c1''))"

definition demo_evaluation :: promotion_evaluation where
  "demo_evaluation =
     \<lparr>pv_candidate = reference_branch ''ci'' ''c1'', pv_target = reference_branch ''main'' ''m1'',
      pv_run = Some demo_run, pv_audit = demo_audit, pv_lineage = None, pv_environment = None,
      pv_expected_target_hash = Some ''m1'',
      pv_evidence = \<lparr>pe_branch_diff = Some ''e1'', pe_lineage_diff = None, pe_environment = None\<rparr>,
      pv_gates = evaluate_gates demo_gates\<rparr>"

text \<open>The steps of the example, evaluated together.\<close>

lemma demo_facts:
  "require_reference (pf_nessie demo_platform) EPromotion ''candidate'' ''ci'' demo_world =
     (Inr (reference_branch ''ci'' ''c1''), demo_world)"
  "require_reference (pf_nessie demo_platform) EPromotion ''target'' ''main'' demo_world =
     (Inr (reference_branch ''main'' ''m1''), demo_world)"
  "nc_can_merge (pf_nessie demo_platform) ''ci'' ''main'' demo_world = (Inr (merge_clean ''c1''), demo_world)"
  "run_evidence_of demo_promoter ''ci'' demo_world =
     (Inr \<lparr>rn_run = Some demo_run, rn_models = [], rn_seeds = [], rn_tests = []\<rparr>, demo_world)"
  "read_environment_evidence demo_platform ''ci'' demo_world = (Inr (None, None), demo_world)"
  "audited_diff demo_auditor ''ci'' ''main'' (Some ''c1'') (Some ''m1'') demo_world = (demo_audit, demo_world)"
  "contract_breaking_changes demo_auditor demo_compilation ''main'' demo_world = (Inr [], demo_world)"
  "audited_lineage demo_auditor ''ci'' ''main'' ''c1'' ''m1'' (Some []) demo_world = (None, demo_world)"
  "ge_passed (pv_gates demo_evaluation)"
  "promote (pf_nessie demo_platform) (''p1'', ''4'') (evaluation_request demo_evaluation demo_options None) demo_world =
     (Inr (promotion_of (''p1'', ''4'') (evaluation_request demo_evaluation demo_options None)
        (reference_branch ''ci'' ''c1'') (reference_branch ''main'' ''m1'') (merge_clean ''c1'')),
      ([(''ci'', reference_branch ''ci'' ''c1''), (''main'', reference_branch ''main'' ''c1'')], snd demo_world))"
  by code_simp+

lemmas demo_references = demo_facts(1-3)
lemmas demo_run_evidence = demo_facts(4-5)
lemmas demo_audited = demo_facts(6-8)
lemmas demo_passed = demo_facts(9)
lemmas demo_promoted = demo_facts(10)

lemma demo_store: "reference_store (pf_nessie (pm_platform demo_promoter)) (\<lambda>w. map_of (fst w))"
  by (simp add: demo_promoter_def demo_auditor_def demo_platform_def reference_store_beside
      memory.reference_store_axioms)

lemma demo_parts:
  "ad_platform demo_auditor = demo_platform" "pm_auditor demo_promoter = demo_auditor"
  "pm_fingerprint demo_promoter c = []"
  by (simp_all add: demo_promoter_def demo_auditor_def)

lemma demo_evaluated:
  "evaluate_promotion demo_promoter demo_compilation ''ci'' ''main'' demo_options demo_world =
     (Inr demo_evaluation, demo_world)"
  by (simp add: evaluate_promotion_def demo_parts bind_act_def always_def succeeded_def ret_def Let_def
      demo_references demo_run_evidence demo_audited demo_evaluation_def demo_gates_def established_base_def
      reference_branch_def or_else_def) (simp add: demo_audit_def)

theorem promotion_was_authorised_witness:
  "\<exists>p u. evaluate_promotion demo_promoter demo_compilation ''ci'' ''main'' demo_options demo_world =
      (Inr demo_evaluation, demo_world) \<and>
     promote (pf_nessie demo_platform) (''p1'', ''4'') (evaluation_request demo_evaluation demo_options None) demo_world =
      (Inr p, u) \<and>
     pn_merged p \<and> pn_candidate_hash p = Some ''c1'' \<and> pn_gates p = ge_results (pv_gates demo_evaluation)"
  using promotion_was_authorised [OF demo_store demo_evaluated demo_passed, unfolded demo_parts, OF demo_promoted]
    demo_evaluated demo_promoted
  by (auto simp: demo_evaluation_def demo_run_def)

text \<open>
  The report of the example is the freshest on its pair, and what it describes is what is there.
\<close>

lemma demo_well_filed: "well_filed ad (sqlite_evidence parse_time) ''ci'' demo_world"
  if "ad_decode_report ad = ad_decode_report demo_auditor" for ad :: "(demo_world, demo_json) auditor"
proof (rule sqlite_well_filed)
  show "\<forall>r \<in> set (db_evidence (snd demo_world)). er_kind r = BranchDiffEvidence \<longrightarrow> filed_as_named ad r"
    by (auto simp: demo_world_def empty_database_def branch_diff_record_def filed_as_named_def that demo_auditor_def)
qed

theorem schema_audited_iff_witness:
  "\<exists>cs bs. recorded_side (ad_parse_time demo_auditor) (ad_view demo_auditor demo_world) ''ci'' = Inr cs \<and>
     recorded_side (ad_parse_time demo_auditor) (ad_view demo_auditor demo_world) ''main'' = Inr bs \<and>
     recorded_datasets cs \<union> recorded_datasets bs \<subseteq> reported_datasets demo_report \<and>
     au_schema_audited (fst (audited_diff demo_auditor ''ci'' ''main'' (Some ''c1'') (Some ''m1'') demo_world))"
proof -
  have store: "pf_state (ad_platform demo_auditor) = Some (sqlite_evidence (\<lambda>s. Some (int (length s))))"
    by (simp add: demo_auditor_def demo_platform_def)
  have audited: "au_schema_audited (fst (audited_diff demo_auditor ''ci'' ''main'' (Some ''c1'') (Some ''m1'') demo_world))"
    by (simp add: demo_audited demo_audit_def)
  have filed: "well_filed demo_auditor st ''ci'' demo_world" if "pf_state (ad_platform demo_auditor) = Some st" for st
    using that demo_well_filed [OF refl] by (auto simp: store)
  have no_file: "ad_branch_diff demo_auditor demo_world = None" by (simp add: demo_auditor_def)
  have records: "xs_for (sqlite_evidence p) BranchDiffEvidence ''ci'' demo_world =
      (Inr [branch_diff_record demo_auditor demo_report (''e1'', ''2'')], demo_world)" for p
    by (simp add: sqlite_evidence_def evidence_for_def demo_world_def empty_database_def branch_diff_record_def
        demo_report_def freshest_def newest_first_def text_desc_def sort_by_def)
  have fresh: "freshest_report demo_auditor ''ci'' ''main'' None [branch_diff_record demo_auditor demo_report (''e1'', ''2'')] =
      Some demo_report"
    by (simp add: freshest_report_def branch_diff_record_def demo_auditor_def demo_report_def Let_def)
  show ?thesis
    using audited iffD1 [OF schema_audited_iff [OF filed] audited]
    by (auto simp: store no_file records import_report_def fresh)
qed

end
