(* ===== verification/Report.thy ===== *)
theory Report
  imports Lineage
begin

text \<open>
  The reports of a compilation, \<^verbatim>\<open>phlo-transform-core/src/report.rs\<close>, over its lineage graph: the inventory,
  the detail of a model, its lineage, the lineage and the impact of a column, and the exported dependency
  graph. Workspace roots are not part of the compilation modelled here, so \<open>check_report\<close> has the counts
  and the diagnostics. The registries of \<^verbatim>\<open>consumers.rs\<close> are functions from columns to descriptions.
\<close>

section \<open>Inventory\<close>

record check_report =
  kr_ok :: bool
  kr_model_count :: nat
  kr_source_count :: nat
  kr_seed_count :: nat
  kr_test_count :: nat
  kr_diagnostics :: "diagnostic list"

definition check_report_of :: "compilation \<Rightarrow> check_report" where
  "check_report_of c =
     \<lparr>kr_ok = is_ok c, kr_model_count = length (cp_models c),
      kr_source_count = length (graph_source_ids (cp_graph c)), kr_seed_count = length (cp_seeds c),
      kr_test_count = length (cp_tests c), kr_diagnostics = cp_diagnostics c\<rparr>"

record model_summary =
  my_id :: string
  my_name :: string
  my_namespace :: string
  my_materialization :: string
  my_target :: string
  my_version :: string
  my_path :: "string option"
  my_tags :: "string list"
  my_depends_on :: "string list"
  my_sources :: "string list"

record test_summary =
  ty_id :: string
  ty_name :: string
  ty_generated :: bool
  ty_targets :: "string list"
  ty_sources :: "string list"

record source_summary =
  sy_id :: string
  sy_name :: string

record seed_summary =
  ey_name :: string
  ey_path :: string
  ey_schema :: "string option"

record list_report =
  ly_models :: "model_summary list"
  ly_sources :: "source_summary list"
  ly_seeds :: "seed_summary list"
  ly_tests :: "test_summary list"

definition model_summary_of :: "compiled_model \<Rightarrow> model_summary" where
  "model_summary_of m =
     \<lparr>my_id = model_uri (cm_id m), my_name = logical_name (cm_id m), my_namespace = cm_namespace m,
      my_materialization = materialization_str (cfg_materialization (cm_config m)),
      my_target = relation_display (cm_target m), my_version = version_short (cm_version m),
      my_path = path_display (cm_origin m), my_tags = cfg_tags (cm_config m),
      my_depends_on = map logical_name (model_dependencies m),
      my_sources = map source_name (source_dependencies m)\<rparr>"

definition test_summary_of :: "compiled_test \<Rightarrow> test_summary" where
  "test_summary_of t =
     \<lparr>ty_id = test_uri (ct_id t), ty_name = tid_name (ct_id t), ty_generated = ct_generated t,
      ty_targets = map logical_name (ct_targets t), ty_sources = map source_name (ct_sources t)\<rparr>"

definition list_report_of :: "compilation \<Rightarrow> list_report" where
  "list_report_of c =
     \<lparr>ly_models = map (model_summary_of) (cp_models c),
      ly_sources = map (\<lambda>s. \<lparr>sy_id = source_uri s, sy_name = source_name s\<rparr>) (graph_source_ids (cp_graph c)),
      ly_seeds = map (\<lambda>s. \<lparr>ey_name = cs_name s, ey_path = replace_char CHR 0x5C ''/'' (cs_path s),
        ey_schema = cs_schema s\<rparr>) (cp_seeds c),
      ly_tests = map test_summary_of (cp_tests c)\<rparr>"

section \<open>One model\<close>

record column_report =
  cy_name :: string
  cy_data_type :: string
  cy_nullability :: string
  cy_inputs :: "string list"

record model_detail =
  mz_summary :: model_summary
  mz_workflow :: "string option"
  mz_owner :: "string option"
  mz_pinned_id :: "string option"
  mz_used_by :: "string list"
  mz_tests :: "string list"
  mz_columns :: "column_report list"
  mz_limitations :: "string list"
  mz_assertions :: "string list"
  mz_sql :: string

definition column_report_of :: "output_column \<Rightarrow> column_report" where
  "column_report_of c =
     \<lparr>cy_name = oc_name c, cy_data_type = data_type_text (oc_type c),
      cy_nullability = nullability_text (oc_nullability c),
      cy_inputs = map (\<lambda>i. column_ref_display (in_column i)) (oc_inputs c)\<rparr>"

definition inspect_report :: "compilation \<Rightarrow> model_id \<Rightarrow> model_detail option" where
  "inspect_report c i =
     (case compilation_model c i of
        None \<Rightarrow> None
      | Some m \<Rightarrow> Some
          \<lparr>mz_summary = model_summary_of m, mz_workflow = cm_workflow m,
           mz_owner = cfg_owner (cm_config m), mz_pinned_id = map_option logical_name (cm_pinned_id m),
           mz_used_by = map logical_name (dependents (cp_graph c) i),
           mz_tests = map (\<lambda>t. tid_name (ct_id t)) (tests_for c i),
           mz_columns = map column_report_of (ms_columns (cm_schema m)),
           mz_limitations = cm_limitations m, mz_assertions = map assertion_describe (cm_assertions m),
           mz_sql = cm_sql m\<rparr>)"

section \<open>Lineage\<close>

record model_lineage_report =
  mx_model :: string
  mx_upstream :: "string list"
  mx_downstream :: "string list"

definition model_names :: "lineage_node list \<Rightarrow> string list" where
  "model_names ns = map logical_name (List.map_filter as_model ns)"

definition model_lineage :: "compilation \<Rightarrow> model_id \<Rightarrow> model_lineage_report option" where
  "model_lineage c i =
     (case compilation_model c i of
        None \<Rightarrow> None
      | Some _ \<Rightarrow> Some
          \<lparr>mx_model = logical_name i,
           mx_upstream = model_names (upstream_transitive (lineage_build c) (LnModel i)),
           mx_downstream = model_names (downstream_transitive (lineage_build c) (LnModel i))\<rparr>)"

record column_lineage_report =
  cx_column :: string
  cx_confidence :: lineage_confidence
  cx_direct :: "string list"
  cx_indirect :: "string list"
  cx_transitive :: "string list"

definition column_display :: "dataset_column \<Rightarrow> string" where
  "column_display c = dataset_name (dc_dataset c) @ ''.'' @ dc_name c"

definition terminal_columns :: "incidence \<Rightarrow> lineage_graph \<Rightarrow> dataset_column \<Rightarrow> dataset_column list" where
  "terminal_columns io g c =
     filter (\<lambda>u. column_hop io g Upstream True u = []) (map fst (column_walk io g Upstream True c))"

definition column_lineage :: "incidence \<Rightarrow> compilation \<Rightarrow> model_id \<Rightarrow> string \<Rightarrow> column_lineage_report option" where
  "column_lineage io c i column =
     (case compilation_model c i of
        None \<Rightarrow> None
      | Some m \<Rightarrow>
          (case schema_column (cm_schema m) column of
             None \<Rightarrow> None
           | Some out \<Rightarrow>
               (let g = lineage_build c; target = DatasetColumn (dataset_of_model i) (oc_name out);
                    named = logical_name i @ ''.'' @ column;
                    hops = column_hop io g Upstream True target;
                    inputs = (\<lambda>d. map (\<lambda>(u, e). column_display u) (filter (\<lambda>(u, e). lge_directness e = Some d) hops));
                    ends = sort_dedup (map column_display (terminal_columns io g target))
                in Some \<lparr>cx_column = named, cx_confidence = oc_confidence out, cx_direct = inputs Direct,
                         cx_indirect = inputs Indirect, cx_transitive = (if ends = [] then [named] else ends)\<rparr>)))"

section \<open>Impact\<close>

record impact_report =
  ix_column :: string
  ix_columns :: "string list"
  ix_models :: "string list"
  ix_tests :: "string list"
  ix_consumers :: "string list"

definition ref_column :: "column_ref \<Rightarrow> dataset_column" where
  "ref_column r = DatasetColumn (dataset_of_relation (cr_relation r)) (cr_column r)"

definition impact_report_with :: "(column_ref \<Rightarrow> string list) \<Rightarrow> incidence \<Rightarrow> lineage_graph \<Rightarrow> column_ref \<Rightarrow> impact_report" where
  "impact_report_with consumers io g target =
     (let affected = map fst (column_walk io g Downstream True (ref_column target))
      in \<lparr>ix_column = column_ref_display target, ix_columns = map column_display affected,
          ix_models = btree_set (map logical_name
            (List.map_filter (\<lambda>c. dataset_producer io g (dc_dataset c)) affected)),
          ix_tests = btree_set (concat (map (\<lambda>c. map tid_name (tests_for_dataset g (dc_dataset c))) affected)),
          ix_consumers = consumers target\<rparr>)"

definition no_consumers :: "column_ref \<Rightarrow> string list" where
  "no_consumers r = []"

definition static_consumers :: "(string \<times> string list) list \<Rightarrow> column_ref \<Rightarrow> string list" where
  "static_consumers entries r = (case map_of entries (column_ref_display r) of Some cs \<Rightarrow> cs | None \<Rightarrow> [])"

definition register_consumers ::
    "column_ref \<Rightarrow> string list \<Rightarrow> (string \<times> string list) list \<Rightarrow> (string \<times> string list) list" where
  "register_consumers r cs = bm_insert (column_ref_display r) cs"

definition impact_report_of :: "incidence \<Rightarrow> lineage_graph \<Rightarrow> column_ref \<Rightarrow> impact_report" where
  "impact_report_of = impact_report_with no_consumers"

section \<open>The exported graph\<close>

record graph_node_artifact =
  gz_id :: string
  gz_kind :: string
  gz_name :: string
  gz_workflow :: "string option"

record graph_edge_artifact =
  gw_from :: string
  gw_to :: string
  gw_kind :: string

record graph_artifact =
  gt_nodes :: "graph_node_artifact list"
  gt_edges :: "graph_edge_artifact list"

fun dependency_edge :: "model_id \<Rightarrow> dependency \<Rightarrow> graph_edge_artifact" where
  "dependency_edge i (DepModel j) = \<lparr>gw_from = model_uri i, gw_to = model_uri j, gw_kind = ''model''\<rparr>"
| "dependency_edge i (DepSource s) = \<lparr>gw_from = model_uri i, gw_to = source_uri s, gw_kind = ''source''\<rparr>"

definition graph_artifact_of :: "compilation \<Rightarrow> graph_artifact" where
  "graph_artifact_of c =
     \<lparr>gt_nodes =
        map (\<lambda>m. \<lparr>gz_id = model_uri (cm_id m), gz_kind = ''model'', gz_name = logical_name (cm_id m),
          gz_workflow = cm_workflow m\<rparr>) (cp_models c) @
        map (\<lambda>s. \<lparr>gz_id = source_uri s, gz_kind = ''source'', gz_name = source_name s, gz_workflow = None\<rparr>)
          (graph_source_ids (cp_graph c)) @
        map (\<lambda>t. \<lparr>gz_id = test_uri (ct_id t), gz_kind = ''quality_gate'', gz_name = tid_name (ct_id t),
          gz_workflow = None\<rparr>) (cp_tests c),
      gt_edges = concat (map (\<lambda>m.
        map (dependency_edge (cm_id m)) (dependencies (cp_graph c) (cm_id m)) @
        map (\<lambda>t. \<lparr>gw_from = model_uri (cm_id m), gw_to = test_uri (ct_id t), gw_kind = ''quality_gate''\<rparr>)
          (tests_for c (cm_id m))) (cp_models c))\<rparr>"

end
