(* ===== verification/LineageRun.thy ===== *)
theory LineageRun
  imports Evidence Report
begin

text \<open>
  \<open>lineage --diff\<close>, \<^verbatim>\<open>phlo-transform-engine/src/lineage_diff.rs\<close>: materialising the trees the refs name,
  compiling them, comparing their graphs, binding the result to the Nessie pair, and recording it. Git
  (\<open>comparison_base\<close>, \<open>checkout_tree\<close>), the compiler, the JSON printer and SHA-256 are arguments.
\<close>

record ('w, 'p) checked_tree =
  ck_commit :: string
  ck_workspace :: "('w, 'p) workspace"

record ('w, 'j, 'p) lineage_context =
  lx_auditor :: "('w, 'j) auditor"
  lx_workspace :: "compilation option"
  lx_catalog :: "string option"
  lx_warehouse :: "'w warehouse option"
  lx_nessie :: "'w nessie_client option"
  lx_candidate_env :: "string option"
  lx_write_artifact :: bool
  lx_comparison_base :: "string \<Rightarrow> 'w \<Rightarrow> string + comparison_base"
  lx_checkout_tree :: "string \<Rightarrow> ('w, string, ('w, 'p) checked_tree) act"
  lx_write :: "lineage_artifact \<Rightarrow> ('w, string, unit) act"
  lx_now :: "'w \<Rightarrow> string"
  lx_print :: "lineage_document \<Rightarrow> string"

fun relabel :: "string \<Rightarrow> engine_error \<Rightarrow> engine_error" where
  "relabel label (EFailedDiagnostics _ problem diagnostics) = EFailedDiagnostics label problem diagnostics"
| "relabel label e = e"

definition compile_tree ::
    "('w, 'j, 'p) lineage_context \<Rightarrow> ('w, 'p) checked_tree \<Rightarrow> string \<Rightarrow> ('w, engine_error, compilation) act" where
  "compile_tree lx tree label =
     map_error (relabel label) (compile_for_catalog (ck_workspace tree) (lx_catalog lx) (lx_warehouse lx) True)"

definition candidate_identity ::
    "('w, 'j, 'p) lineage_context \<Rightarrow> compilation \<Rightarrow> candidate_provenance \<Rightarrow> candidate_provenance" where
  "candidate_identity lx c provenance =
     provenance
       \<lparr>cv_lineage_hash := Some (fingerprint (lx_print lx) (pf_sha (ad_platform (lx_auditor lx))) (lineage_build c)),
        cv_model_versions := fold (\<lambda>m. bm_insert (logical_name (cm_id m)) (mv_hash (cm_version m))) (cp_models c) []\<rparr>"

text \<open>A byte prefix that is not one of characters is not taken.\<close>

definition short_commit :: "string \<Rightarrow> nat \<Rightarrow> string" where
  "short_commit h n = (if char_boundary n h then take n h else h)"

definition base_label :: "string \<Rightarrow> string \<Rightarrow> string \<Rightarrow> string" where
  "base_label base_kind base_ref base_commit =
     (if base_kind = ''merge-base'' then base_ref @ '' (merge-base '' @ short_commit base_commit 12 @ '')''
      else base_ref @ '' ('' @ short_commit base_commit 12 @ '')'')"

text \<open>A reference that cannot be read binds nothing.\<close>

definition succeeded_reference :: "('w, nessie_error, reference_info option) act \<Rightarrow> 'w \<Rightarrow> reference_info option \<times> 'w" where
  "succeeded_reference m w = (case m w of (Inr r, u) \<Rightarrow> (r, u) | (Inl e, u) \<Rightarrow> (None, u))"

definition environment_binding ::
    "'w nessie_client option \<Rightarrow> string option \<Rightarrow> string \<Rightarrow> 'w \<Rightarrow> lineage_environment option \<times> 'w" where
  "environment_binding nessie git_ref base_ref w =
     (case (git_ref, nessie) of
        (Some candidate_ref, Some cl) \<Rightarrow>
          (case succeeded_reference (nc_get_reference cl candidate_ref) w of
             (candidate, u) \<Rightarrow>
               (case succeeded_reference (nc_get_reference cl base_ref) u of
                  (target, v) \<Rightarrow>
                    (case (candidate, target) of
                       (Some c, Some t) \<Rightarrow>
                         Some \<lparr>le_candidate_ref = candidate_ref, le_candidate_hash = rf_hash c,
                               le_target_ref = base_ref, le_target_hash = rf_hash t\<rparr>
                     | _ \<Rightarrow> None, v)))
      | _ \<Rightarrow> (None, w))"

definition finish_diff ::
    "('w, 'j, 'p) lineage_context \<Rightarrow> string \<Rightarrow> string \<Rightarrow> string \<Rightarrow> candidate_provenance \<Rightarrow> lineage_graph
       \<Rightarrow> lineage_graph \<Rightarrow> ('w, engine_error, lineage_artifact) act" where
  "finish_diff lx base_kind base_ref base_commit candidate base_graph candidate_graph w =
     (case environment_binding (lx_nessie lx) (cv_git_ref candidate) base_ref w of
        (environment, u) \<Rightarrow>
          (let a = \<lparr>la_base_kind = base_kind, la_base_ref = base_ref, la_base_commit = base_commit,
                    la_candidate = candidate, la_environment = environment, la_created_at = Some (lx_now lx u),
                    la_diff = (lineage_diff base_graph candidate_graph)
                      \<lparr>lf_base_ref := Some (base_label base_kind base_ref base_commit)\<rparr>\<rparr>
           in if lx_write_artifact lx
              then bind_act (map_error EArtifact (lx_write lx a)) (\<lambda>_.
                   bind_act (persist_lineage_evidence (lx_auditor lx) a) (\<lambda>_. ret a)) u
              else (Inr a, u)))"

definition no_workspace :: string where
  "no_workspace = ''a workspace-vs-ref lineage diff needs the live compilation''"

definition diff_vs_ref ::
    "('w, 'j, 'p) lineage_context \<Rightarrow> string \<Rightarrow> ('w, engine_error, lineage_artifact) act" where
  "diff_vs_ref lx base_ref =
     (case lx_workspace lx of
        None \<Rightarrow> throw (EGit no_workspace)
      | Some workspace \<Rightarrow>
          bind_act (\<lambda>w. (map_sum EGit (\<lambda>b. b) (lx_comparison_base lx base_ref w), w)) (\<lambda>comparison.
          bind_act (map_error EGit (lx_checkout_tree lx (cb_commit comparison))) (\<lambda>tree.
          bind_act (compile_tree lx tree base_ref) (\<lambda>base.
            finish_diff lx ''merge-base'' base_ref (ck_commit tree)
              (candidate_identity lx workspace
                 \<lparr>cv_git_ref = lx_candidate_env lx, cv_head = cb_head comparison, cv_dirty = cb_dirty comparison,
                  cv_lineage_hash = None, cv_model_versions = []\<rparr>)
              (lineage_build base) (lineage_build workspace)))))"

definition diff_ref_vs_ref ::
    "('w, 'j, 'p) lineage_context \<Rightarrow> string \<Rightarrow> string \<Rightarrow> ('w, engine_error, lineage_artifact) act" where
  "diff_ref_vs_ref lx base_ref candidate_ref =
     bind_act (map_error EGit (lx_checkout_tree lx base_ref)) (\<lambda>base_tree.
     bind_act (map_error EGit (lx_checkout_tree lx candidate_ref)) (\<lambda>candidate_tree.
     bind_act (compile_tree lx base_tree base_ref) (\<lambda>base.
     bind_act (compile_tree lx candidate_tree candidate_ref) (\<lambda>candidate.
       finish_diff lx ''ref'' base_ref (ck_commit base_tree)
         (candidate_identity lx candidate
            \<lparr>cv_git_ref = Some candidate_ref, cv_head = Some (ck_commit candidate_tree), cv_dirty = False,
             cv_lineage_hash = None, cv_model_versions = []\<rparr>)
         (lineage_build base) (lineage_build candidate)))))"

section \<open>The impact a branch diff reports\<close>

text \<open>The walk \<open>breaking_impact\<close> of \<^verbatim>\<open>branch_diff.rs\<close> makes: by column, or from the model as a whole.\<close>

definition branch_impact :: "incidence \<Rightarrow> lineage_graph \<Rightarrow> model_id \<Rightarrow> string option \<Rightarrow> string list \<times> string list" where
  "branch_impact io g i column =
     (case column of
        Some name \<Rightarrow>
          (let r = impact_report_of io g \<lparr>cr_relation = RelModel i, cr_column = name\<rparr> in (ix_models r, ix_tests r))
      | None \<Rightarrow>
          (model_names (downstream_transitive g (LnModel i)),
           map tid_name (tests_for_dataset g (dataset_of_model i))))"

end
