(* ===== verification/LineageFacts.thy ===== *)
theory LineageFacts
  imports LineageRun "HOL-Library.Multiset"
begin

text \<open>
  What the lineage graph guarantees: its walks are reachability, the walk between models agrees with the
  dependency graph that schedules them, the impact of a column is what derives from it, and a difference of
  two graphs is empty exactly when there is none.
\<close>

section \<open>Well-formed graphs\<close>

definition wf_lineage :: "lineage_graph \<Rightarrow> bool" where
  "wf_lineage g \<longleftrightarrow>
     bm_ok (lg_nodes g) \<and> distinct (lg_arcs g) \<and>
     list_all (\<lambda>(from, to, e). has_node g from \<and> has_node g to) (lg_arcs g)"

named_theorems lineage_simps

lemma has_node_empty [lineage_simps]: "\<not> has_node empty_lineage n"
  by (simp add: has_node_def empty_lineage_def)

lemma has_node_put_node [lineage_simps]:
  "wf_lineage g \<Longrightarrow> has_node (put_node n meta g) x \<longleftrightarrow> x = n \<or> has_node g x"
  by (auto simp: wf_lineage_def has_node_def put_node_def btree_simps)

lemma arcs_put_node [lineage_simps]: "lg_arcs (put_node n meta g) = lg_arcs g"
  by (simp add: put_node_def)

lemma nodes_put_edge [lineage_simps]:
  "lg_nodes (put_edge f t e g) = lg_nodes g" "has_node (put_edge f t e g) x = has_node g x"
  by (simp_all add: put_edge_def has_node_def)

lemma set_put_edge [lineage_simps]:
  "set (lg_arcs (put_edge f t e g)) =
     (if has_node g f \<and> has_node g t then insert (f, t, e) (set (lg_arcs g)) else set (lg_arcs g))"
  by (auto simp: put_edge_def)

lemma wf_empty_lineage [simp, intro]: "wf_lineage empty_lineage"
  by (simp add: wf_lineage_def empty_lineage_def)

lemma wf_put_node [intro]: "wf_lineage g \<Longrightarrow> wf_lineage (put_node n meta g)"
  unfolding wf_lineage_def by (auto simp: put_node_def has_node_def list_all_iff btree_simps)

lemma wf_put_edge [intro]: "wf_lineage g \<Longrightarrow> wf_lineage (put_edge f t e g)"
  unfolding wf_lineage_def by (auto simp: put_edge_def has_node_def list_all_iff)

lemma wf_fold:
  "wf_lineage g \<Longrightarrow> (\<And>x g. wf_lineage g \<Longrightarrow> wf_lineage (f x g)) \<Longrightarrow> wf_lineage (fold f xs g)"
  by (induction xs arbitrary: g) auto

lemma wf_input_edges [intro]: "wf_lineage g \<Longrightarrow> wf_lineage (input_edges c i g)"
  by (auto simp: input_edges_def)

lemma wf_column_edges [intro]: "wf_lineage g \<Longrightarrow> wf_lineage (column_edges i c g)"
  unfolding column_edges_def Let_def by (intro wf_fold wf_input_edges wf_put_edge wf_put_node)

lemma wf_test_edges [intro]: "wf_lineage g \<Longrightarrow> wf_lineage (test_edges t g)"
  unfolding test_edges_def by (intro wf_fold wf_put_edge wf_put_node)

lemma wf_dependency_edges [intro]: "wf_lineage g \<Longrightarrow> wf_lineage (dependency_edges i d g)"
  by (auto simp: dependency_edges_def Let_def split: dependency.split)

lemma wf_source_node [intro]: "wf_lineage g \<Longrightarrow> wf_lineage (source_node seeds s g)"
  by (auto simp: source_node_def)

lemma wf_model_nodes [intro]: "wf_lineage g \<Longrightarrow> wf_lineage (model_nodes m g)"
  by (auto simp: model_nodes_def Let_def)

definition declared_lineage :: "compilation \<Rightarrow> lineage_graph" where
  "declared_lineage c =
     fold (source_node (sort_key cs_name (cp_seeds c))) (graph_source_ids (cp_graph c))
       (fold model_nodes (cp_models c) empty_lineage)"

definition relation_lineage :: "compilation \<Rightarrow> lineage_graph" where
  "relation_lineage c =
     fold (\<lambda>m. fold (dependency_edges (cm_id m)) (cm_dependencies m)) (cp_models c) (declared_lineage c)"

lemma wf_declared: "wf_lineage (declared_lineage c)"
  unfolding declared_lineage_def by (intro wf_fold wf_source_node wf_model_nodes wf_empty_lineage)

lemma wf_relation: "wf_lineage (relation_lineage c)"
  unfolding relation_lineage_def by (intro wf_fold wf_dependency_edges wf_declared)

lemma lineage_build_phases:
  "lineage_build c =
     fold test_edges (cp_tests c)
       (fold (\<lambda>m. fold (column_edges (cm_id m)) (ms_columns (cm_schema m))) (cp_models c) (relation_lineage c))"
  by (simp add: lineage_build_def relation_lineage_def declared_lineage_def)

lemma wf_lineage_build: "wf_lineage (lineage_build c)"
  unfolding lineage_build_phases by (intro wf_fold wf_test_edges wf_column_edges wf_relation)

lemma wf_subgraph: "wf_lineage (subgraph io g models)"
  unfolding subgraph_def Let_def
  by (intro wf_fold) (auto split: option.split prod.split intro: wf_put_edge wf_put_node)

lemma arcs_have_nodes:
  "wf_lineage g \<Longrightarrow> (f, t, e) \<in> set (lg_arcs g) \<Longrightarrow> has_node g f \<and> has_node g t"
  by (auto simp: wf_lineage_def list_all_iff)

section \<open>Breadth-first walks\<close>

lemma bm_insert_subset: "set (bm_insert k v m) \<subseteq> insert (k, v) (set m)"
  by (induction k v m rule: bm_insert.induct) auto

lemma bfs_visit_spec:
  "bfs_visit ns (V, Q, F) = (V', Q', F') \<Longrightarrow>
     set V' = set V \<union> fst ` set ns \<and> set Q' = set Q \<union> (fst ` set ns - set V) \<and>
     length Q' + length V = length Q + length V' \<and>
     (sorted V \<longrightarrow> sorted V') \<and> (distinct V \<longrightarrow> distinct V') \<and> (bm_ok F \<longrightarrow> bm_ok F') \<and>
     set (map fst F') = set (map fst F) \<union> (fst ` set ns - set V) \<and> set F' \<subseteq> set F \<union> set ns"
proof (induction ns "(V, Q, F)" arbitrary: V Q F rule: bfs_visit.induct)
  case (1 V Q F)
  then show ?case by simp
next
  case (2 n e ns V Q F)
  show ?case
  proof (cases "n \<in> set V")
    case True
    with "2.prems" have "bfs_visit ns (V, Q, F) = (V', Q', F')" by simp
    with "2.hyps" [of V Q F] True show ?thesis by auto
  next
    case False
    with "2.prems" have "bfs_visit ns (insort n V, Q @ [n], bm_insert n e F) = (V', Q', F')" by simp
    with "2.hyps" [of "insort n V" "Q @ [n]" "bm_insert n e F"] False show ?thesis
      using bm_insert_subset [of n e F]
      by (auto simp: set_insort_key sorted_insort distinct_insort btree_simps simp del: set_map)
  qed
qed

locale bfs_graph =
  fixes succ :: "'a::linorder \<Rightarrow> ('a \<times> 'e) list"
    and nodes :: "'a set"
  assumes finite_nodes: "finite nodes"
    and succ_in: "fst ` set (succ a) \<subseteq> nodes"
begin

definition hops :: "('a \<times> 'a) set" where
  "hops = {(a, b). b \<in> fst ` set (succ a)}"

definition bfs_inv :: "'a set \<Rightarrow> 'a \<Rightarrow> 'a list \<times> 'a list \<times> ('a \<times> 'e) list \<Rightarrow> bool" where
  "bfs_inv A start = (\<lambda>(V, Q, F).
     sorted V \<and> distinct V \<and> bm_ok F \<and> set V = A \<union> fst ` set F \<and> A \<inter> fst ` set F = {} \<and>
     set Q \<subseteq> insert start (fst ` set F) \<and> fst ` set F \<subseteq> hops\<^sup>+ `` {start} \<and>
     (\<forall>a \<in> insert start (fst ` set F) - set Q. fst ` set (succ a) \<subseteq> set V) \<and>
     (\<forall>(b, e) \<in> set F. \<exists>a. (b, e) \<in> set (succ a) \<and> (start, a) \<in> hops\<^sup>*))"

lemma bfs_invD:
  assumes "bfs_inv A start (V, Q, F)"
  shows "sorted V" "distinct V" "bm_ok F" "set V = A \<union> fst ` set F" "A \<inter> fst ` set F = {}"
    "set Q \<subseteq> insert start (fst ` set F)" "fst ` set F \<subseteq> hops\<^sup>+ `` {start}"
    "\<forall>a \<in> insert start (fst ` set F) - set Q. fst ` set (succ a) \<subseteq> set V"
    "\<forall>(b, e) \<in> set F. \<exists>a. (b, e) \<in> set (succ a) \<and> (start, a) \<in> hops\<^sup>*"
  using assms unfolding bfs_inv_def prod.case by - (elim conjE, assumption)+

lemma bfs_inv_step:
  assumes inv: "bfs_inv A start s" and ne: "case s of (V, Q, F) \<Rightarrow> Q \<noteq> []"
  shows "bfs_inv A start (bfs_step succ s)"
proof -
  obtain V Q F where s: "s = (V, Q, F)" by (cases s)
  obtain x Q1 where q: "Q = x # Q1" using ne s by (cases Q) auto
  obtain V' Q' F' where v: "bfs_visit (succ x) (V, Q1, F) = (V', Q', F')" by (metis prod_cases3)
  note spec = bfs_visit_spec [OF v]
  note facts = bfs_invD [OF inv [unfolded s]]
  have closed: "fst ` set (succ a) \<subseteq> set V" if "a \<in> insert start (fst ` set F)" "a \<notin> set Q" for a
    using facts(8) that by blast
  have x: "(start, x) \<in> hops\<^sup>*"
    using facts(6,7) q by (auto dest: trancl_into_rtrancl)
  have new: "(start, b) \<in> hops\<^sup>+" if "b \<in> fst ` set (succ x)" for b
    using x that by (intro rtrancl_into_trancl1 [of start x]) (auto simp: hops_def)
  have F': "fst ` set F' = fst ` set F \<union> (fst ` set (succ x) - set V)"
    using spec by (simp add: image_set [symmetric])
  have sub: "set F' \<subseteq> set F \<union> set (succ x)" using spec by simp
  have parts: "set V' = set V \<union> fst ` set (succ x)" "set Q' = set Q1 \<union> (fst ` set (succ x) - set V)"
    "sorted V'" "distinct V'" "bm_ok F'"
    using spec facts(1-3) by simp_all
  have "bfs_inv A start (V', Q', F')"
    unfolding bfs_inv_def prod.case
  proof (intro conjI)
    show "set V' = A \<union> fst ` set F'" using facts(4) parts(1) F' by auto
    show "A \<inter> fst ` set F' = {}" using facts(4,5) F' by auto
    show "set Q' \<subseteq> insert start (fst ` set F')" using facts(6) parts(2) F' q by auto
    show "fst ` set F' \<subseteq> hops\<^sup>+ `` {start}" unfolding F' using facts(7) new by blast
    show "\<forall>a \<in> insert start (fst ` set F') - set Q'. fst ` set (succ a) \<subseteq> set V'"
    proof
      fix a assume a: "a \<in> insert start (fst ` set F') - set Q'"
      show "fst ` set (succ a) \<subseteq> set V'"
      proof (cases "a = x")
        case True
        then show ?thesis using parts(1) by simp
      next
        case False
        have "a \<in> insert start (fst ` set F)" "a \<notin> set Q" using a False q F' parts(2) by auto
        then have "fst ` set (succ a) \<subseteq> set V" by (rule closed)
        then show ?thesis using parts(1) by blast
      qed
    qed
    show "\<forall>(b, e) \<in> set F'. \<exists>a. (b, e) \<in> set (succ a) \<and> (start, a) \<in> hops\<^sup>*"
      using sub facts(9) x by blast
  qed (use parts in simp_all)
  then show ?thesis using s q v by (simp add: bfs_step_def)
qed

lemma bfs_ends:
  assumes "finite A" "bfs_inv A start s"
  shows "\<exists>t. while_option (\<lambda>(V, Q, F). Q \<noteq> []) (bfs_step succ) s = Some t"
proof (rule measure_while_option_Some [where P = "bfs_inv A start"
      and f = "\<lambda>(V, Q, F). 2 * card (A \<union> nodes - set V) + length Q"])
  fix s assume inv: "bfs_inv A start s" and ne: "case s of (V, Q, F) \<Rightarrow> Q \<noteq> []"
  obtain V Q F where s: "s = (V, Q, F)" by (cases s)
  obtain x Q1 where q: "Q = x # Q1" using ne s by (cases Q) auto
  obtain V' Q' F' where v: "bfs_visit (succ x) (V, Q1, F) = (V', Q', F')" by (metis prod_cases3)
  have step: "bfs_step succ s = (V', Q', F')" using s q v by (simp add: bfs_step_def)
  have inv': "bfs_inv A start (V', Q', F')" using bfs_inv_step [OF inv ne] step by simp
  note spec = bfs_visit_spec [OF v]
  have fin: "finite (A \<union> nodes)" using assms(1) finite_nodes by simp
  have bound: "set W \<subseteq> A \<union> nodes" if w: "bfs_inv A start (W, R, G)" for W R G
  proof -
    have "hops\<^sup>+ `` {start} \<subseteq> nodes"
    proof
      fix b assume "b \<in> hops\<^sup>+ `` {start}"
      then have "(start, b) \<in> hops\<^sup>+" by simp
      then obtain a where "(a, b) \<in> hops" by (metis tranclE)
      then show "b \<in> nodes" using succ_in by (auto simp: hops_def)
    qed
    then show ?thesis using bfs_invD(4,7) [OF w] by blast
  qed
  have c: "card (A \<union> nodes - set W) + length W = card (A \<union> nodes)"
    if "set W \<subseteq> A \<union> nodes" "distinct W" for W
    using that fin by (metis List.finite_set card_Diff_subset card_mono distinct_card le_add_diff_inverse2)
  have V: "set V \<subseteq> A \<union> nodes" "distinct V"
    using bound [OF inv [unfolded s]] bfs_invD(2) [OF inv [unfolded s]] by simp_all
  have V': "set V' \<subseteq> A \<union> nodes" "distinct V'" using bound [OF inv'] bfs_invD(2) [OF inv'] by simp_all
  have "length V \<le> length V'"
    using spec V(2) V'(2) by (metis List.finite_set Un_upper1 card_mono distinct_card)
  moreover have "length Q' + length V = length Q1 + length V'" using spec by simp
  ultimately have "2 * card (A \<union> nodes - set V') + length Q' < 2 * card (A \<union> nodes - set V) + length Q"
    using c [OF V] c [OF V'] q by simp
  then show "bfs_inv A start (bfs_step succ s) \<and>
      (case bfs_step succ s of (V, Q, F) \<Rightarrow> 2 * card (A \<union> nodes - set V) + length Q)
        < (case s of (V, Q, F) \<Rightarrow> 2 * card (A \<union> nodes - set V) + length Q)"
    using inv' step s by simp
qed (rule assms(2))

lemma bfs_reaches:
  assumes "sorted visited" "distinct visited" "set visited \<subseteq> {start}"
  shows "\<exists>V F. bfs succ visited start = Some (V, [], F) \<and> sorted V \<and> distinct V \<and> bm_ok F \<and>
    set V = set visited \<union> hops\<^sup>+ `` {start} \<and> fst ` set F = hops\<^sup>+ `` {start} - set visited \<and>
    (\<forall>(b, e) \<in> set F. \<exists>a. (b, e) \<in> set (succ a) \<and> (start, a) \<in> hops\<^sup>*)"
proof -
  have begun: "bfs_inv (set visited) start (visited, [start], [])"
    using assms by (auto simp: bfs_inv_def)
  then obtain t where t: "bfs succ visited start = Some t"
    unfolding bfs_def using bfs_ends by blast
  obtain V Q F where vqf: "t = (V, Q, F)" by (cases t)
  have inv: "bfs_inv (set visited) start t"
    using t [unfolded bfs_def] begun
    by (rule while_option_rule [where P = "bfs_inv (set visited) start", rotated]) (rule bfs_inv_step)
  have q: "Q = []" using while_option_stop [OF t [unfolded bfs_def]] vqf by simp
  note facts = bfs_invD [OF inv [unfolded vqf]]
  have closed: "fst ` set (succ a) \<subseteq> set V" if "a \<in> insert start (fst ` set F)" for a
    by (rule bspec [OF facts(8)]) (use that q in simp)
  note V = facts(4)
  have again: "fst ` set (succ a) \<subseteq> set V" if "a \<in> set V" for a
    by (rule closed) (use that V assms(3) in blast)
  have "b \<in> set V" if "(start, b) \<in> hops\<^sup>+" for b
    using that
  proof (induction rule: trancl_induct)
    case (base b)
    then show ?case using closed [of start] by (auto simp: hops_def)
  next
    case (step b c)
    then show ?case using again [of b] by (auto simp: hops_def)
  qed
  then have "hops\<^sup>+ `` {start} \<subseteq> set V" by auto
  then have "set V = set visited \<union> hops\<^sup>+ `` {start}" "fst ` set F = hops\<^sup>+ `` {start} - set visited"
    using V facts(5,7) by blast+
  with t vqf q facts(1-3,9) show ?thesis by blast
qed

end

section \<open>Walks over the nodes\<close>

definition arc_rel :: "lineage_graph \<Rightarrow> walk_direction \<Rightarrow> (lineage_node \<times> lineage_node) set" where
  "arc_rel g d = (\<lambda>a. (near_end d a, far_end d a)) ` set (lg_arcs g)"

lemma set_arcs_at:
  "wf_lineage g \<Longrightarrow> set (arcs_at g d n) = {a \<in> set (lg_arcs g). near_end d a = n}"
  using arcs_have_nodes by (cases d) (fastforce simp: arcs_at_def)+

interpretation nodes: bfs_graph "\<lambda>x. map (\<lambda>y. (y, ())) (node_neighbours g d x)"
  "far_end d ` set (lg_arcs g)" for g d
  by unfold_locales (auto simp: node_neighbours_def arcs_at_def)

lemma node_hops: "wf_lineage g \<Longrightarrow> nodes.hops g d = arc_rel g d"
  unfolding nodes.hops_def by (auto simp: node_neighbours_def arc_rel_def set_arcs_at image_iff)

lemma lineage_walk_reaches:
  assumes "wf_lineage g"
  shows "sorted (lineage_walk g d n) \<and> distinct (lineage_walk g d n) \<and>
    set (lineage_walk g d n) = (arc_rel g d)\<^sup>+ `` {n}"
proof -
  obtain V F where "bfs (\<lambda>x. map (\<lambda>y. (y, ())) (node_neighbours g d x)) [] n = Some (V, [], F)"
    "sorted V" "distinct V" "set V = (arc_rel g d)\<^sup>+ `` {n}"
    using nodes.bfs_reaches [of "[]" n g d] by (auto simp: node_hops [OF assms])
  then show ?thesis by (simp add: lineage_walk_def)
qed

lemma arc_rel_converse: "arc_rel g Upstream = (arc_rel g Downstream)\<inverse>"
  by (force simp: arc_rel_def)

lemma walks_converse:
  assumes "wf_lineage g"
  shows "m \<in> set (downstream_transitive g n) \<longleftrightarrow> n \<in> set (upstream_transitive g m)"
  using lineage_walk_reaches [OF assms]
  by (simp add: downstream_transitive_def upstream_transitive_def arc_rel_converse trancl_converse)

section \<open>Walks over the columns\<close>

definition column_arcs :: "lineage_graph \<Rightarrow> walk_direction \<Rightarrow> bool \<Rightarrow> (dataset_column \<times> dataset_column) set" where
  "column_arcs g d include_indirect =
     {(x, y). \<exists>a \<in> set (lg_arcs g). near_end d a = LnColumn x \<and> far_end d a = LnColumn y \<and>
        counts include_indirect (arc_edge a)}"

definition permutes_edges :: "incidence \<Rightarrow> bool" where
  "permutes_edges io \<longleftrightarrow> (\<forall>es. set (io es) = set es)"

lemma set_map_filter: "set (List.map_filter f xs) = {y. \<exists>x \<in> set xs. f x = Some y}"
  by (force simp: List.map_filter_def)

lemma as_column_Some: "as_column n = Some c \<longleftrightarrow> n = LnColumn c"
  by (cases n) auto

lemma set_column_hop:
  assumes "permutes_edges io" "wf_lineage g"
  shows "set (column_hop io g d b x) =
    {(y, arc_edge a) | y a. a \<in> set (lg_arcs g) \<and> near_end d a = LnColumn x \<and> far_end d a = LnColumn y \<and>
       counts b (arc_edge a)}"
  using assms by (auto simp: column_hop_def permutes_edges_def set_map_filter as_column_Some set_arcs_at)

lemma column_hop_names:
  assumes "permutes_edges io" "wf_lineage g"
  shows "fst ` set (column_hop io g d b x) = column_arcs g d b `` {x}"
  unfolding set_column_hop [OF assms] column_arcs_def by (auto simp: image_def)

lemma columns_graph:
  assumes "permutes_edges io" "wf_lineage g"
  shows "bfs_graph (column_hop io g d b) (\<Union>a \<in> set (lg_arcs g). {y. far_end d a = LnColumn y})"
proof
  have "finite {y. far_end d a = LnColumn y}" for a
    by (cases "far_end d a") auto
  then show "finite (\<Union>a \<in> set (lg_arcs g). {y. far_end d a = LnColumn y})" by blast
  show "fst ` set (column_hop io g d b x) \<subseteq> (\<Union>a \<in> set (lg_arcs g). {y. far_end d a = LnColumn y})" for x
    using set_column_hop [OF assms] by auto
qed

lemma column_walk_reaches:
  assumes "permutes_edges io" "wf_lineage g"
  shows "bm_ok (column_walk io g d b c) \<and>
    fst ` set (column_walk io g d b c) = (column_arcs g d b)\<^sup>+ `` {c} - {c} \<and>
    (\<forall>(y, e) \<in> set (column_walk io g d b c). \<exists>a \<in> set (lg_arcs g). far_end d a = LnColumn y \<and> arc_edge a = e)"
proof -
  note cols = columns_graph [OF assms, of d b]
  have hops: "bfs_graph.hops (column_hop io g d b) = column_arcs g d b"
    unfolding bfs_graph.hops_def [OF cols] column_hop_names [OF assms] by auto
  have "sorted [c]" "distinct [c]" "set [c] \<subseteq> {c}" by simp_all
  then have "\<exists>V F. bfs (column_hop io g d b) [c] c = Some (V, [], F) \<and> sorted V \<and> distinct V \<and> bm_ok F \<and>
      set V = set [c] \<union> (column_arcs g d b)\<^sup>+ `` {c} \<and>
      fst ` set F = (column_arcs g d b)\<^sup>+ `` {c} - set [c] \<and>
      (\<forall>(y, e) \<in> set F. \<exists>x. (y, e) \<in> set (column_hop io g d b x) \<and> (c, x) \<in> (column_arcs g d b)\<^sup>*)"
    by (rule bfs_graph.bfs_reaches [OF cols, unfolded hops])
  then obtain V F where r: "bfs (column_hop io g d b) [c] c = Some (V, [], F)" "bm_ok F"
      "fst ` set F = (column_arcs g d b)\<^sup>+ `` {c} - set [c]"
    and edges: "\<forall>(y, e) \<in> set F. \<exists>x. (y, e) \<in> set (column_hop io g d b x) \<and> (c, x) \<in> (column_arcs g d b)\<^sup>*"
    by (elim exE conjE) (rule that; assumption)
  have "\<exists>a \<in> set (lg_arcs g). far_end d a = LnColumn y \<and> arc_edge a = e" if "(y, e) \<in> set F" for y e
  proof -
    from bspec [OF edges that] obtain x where "(y, e) \<in> set (column_hop io g d b x)" by auto
    then show ?thesis unfolding set_column_hop [OF assms] by auto
  qed
  then show ?thesis unfolding column_walk_def r(1) using r(2,3) by auto
qed

end
