(* ===== verification/LineageProps.thy ===== *)
theory LineageProps
  imports LineageFacts
begin

text \<open>
  The properties of the lineage: the walk between models against the graph that schedules them, the columns
  a change reaches, and the difference of two graphs against the graphs themselves.
\<close>

section \<open>The edges of a compiled workspace\<close>

definition all_arcs :: "(lineage_node \<Rightarrow> lineage_node \<Rightarrow> bool) \<Rightarrow> lineage_graph \<Rightarrow> bool" where
  "all_arcs P g \<longleftrightarrow> (\<forall>(f, t, e) \<in> set (lg_arcs g). P f t)"

lemma all_arcs_put_node [simp]: "all_arcs P (put_node n meta g) = all_arcs P g"
  by (simp add: all_arcs_def lineage_simps)

lemma all_arcs_put_edge: "all_arcs P g \<Longrightarrow> P f t \<Longrightarrow> all_arcs P (put_edge f t e g)"
  by (auto simp: all_arcs_def lineage_simps)

lemma all_arcs_fold:
  "all_arcs P g \<Longrightarrow> (\<And>x g. x \<in> set xs \<Longrightarrow> all_arcs P g \<Longrightarrow> all_arcs P (f x g)) \<Longrightarrow> all_arcs P (fold f xs g)"
  by (induction xs arbitrary: g) auto

fun leads_on :: "lineage_node \<Rightarrow> bool" where
  "leads_on (LnModel i) = True"
| "leads_on (LnDataset d) = True"
| "leads_on _ = False"

text \<open>The edges into models and datasets; none leads from a model to a column or a test.\<close>

definition lineage_arc_ok :: "compilation \<Rightarrow> lineage_node \<Rightarrow> lineage_node \<Rightarrow> bool" where
  "lineage_arc_ok c f t \<longleftrightarrow>
     \<not> leads_on t \<and> (\<forall>j. f \<noteq> LnModel j) \<or>
     (\<exists>i \<in> ids_of c. f = LnModel i \<and> t = LnDataset (dataset_of_model i)) \<or>
     (\<exists>m d. m \<in> set (cp_models c) \<and> d \<in> set (cm_dependencies m) \<and>
        (t = LnModel (cm_id m) \<or> t = LnDataset (dataset_of_model (cm_id m))) \<and>
        (f = LnDataset (dataset_of_dependency d) \<or> (\<exists>j. d = DepModel j \<and> f = LnModel j)))"

lemma dependency_arc_ok:
  "m \<in> set (cp_models c) \<Longrightarrow> d \<in> set (cm_dependencies m) \<Longrightarrow>
     t = LnModel (cm_id m) \<or> t = LnDataset (dataset_of_model (cm_id m)) \<Longrightarrow>
     f = LnDataset (dataset_of_dependency d) \<or> (\<exists>j. d = DepModel j \<and> f = LnModel j) \<Longrightarrow>
     lineage_arc_ok c f t"
  unfolding lineage_arc_ok_def by blast

lemma lineage_arcs_ok: "all_arcs (lineage_arc_ok c) (lineage_build c)"
proof -
  have nodes: "all_arcs (lineage_arc_ok c) (model_nodes m g)"
    if "m \<in> set (cp_models c)" "all_arcs (lineage_arc_ok c) g" for m g
    using that unfolding model_nodes_def Let_def by (intro all_arcs_put_edge) (auto simp: lineage_arc_ok_def)
  have source: "all_arcs (lineage_arc_ok c) g \<Longrightarrow> all_arcs (lineage_arc_ok c) (source_node ss s g)" for ss s g
    by (simp add: source_node_def)
  have deps: "all_arcs (lineage_arc_ok c) (dependency_edges (cm_id m) d g)"
    if "m \<in> set (cp_models c)" "d \<in> set (cm_dependencies m)" "all_arcs (lineage_arc_ok c) g" for m d g
    using that unfolding dependency_edges_def Let_def
    by (cases d) (auto intro!: all_arcs_put_edge intro: dependency_arc_ok)
  have input: "all_arcs (lineage_arc_ok c) g \<Longrightarrow> all_arcs (lineage_arc_ok c) (input_edges x i g)" for x i g
    unfolding input_edges_def by (intro all_arcs_put_edge) (auto simp: lineage_arc_ok_def)
  have cols: "all_arcs (lineage_arc_ok c) g \<Longrightarrow> all_arcs (lineage_arc_ok c) (column_edges i x g)" for i x g
    unfolding column_edges_def Let_def
    by (intro all_arcs_fold input all_arcs_put_edge) (auto simp: lineage_arc_ok_def)
  have tests: "all_arcs (lineage_arc_ok c) g \<Longrightarrow> all_arcs (lineage_arc_ok c) (test_edges t g)" for t g
    unfolding test_edges_def by (intro all_arcs_fold all_arcs_put_edge) (auto simp: lineage_arc_ok_def)
  have "all_arcs (lineage_arc_ok c) empty_lineage" by (simp add: all_arcs_def empty_lineage_def)
  then have "all_arcs (lineage_arc_ok c) (declared_lineage c)"
    unfolding declared_lineage_def by (intro all_arcs_fold source nodes)
  then have "all_arcs (lineage_arc_ok c) (relation_lineage c)"
    unfolding relation_lineage_def by (intro all_arcs_fold deps)
  then show ?thesis
    unfolding lineage_build_phases by (intro all_arcs_fold tests cols)
qed

text \<open>Later phases keep nodes and edges.\<close>

definition grows :: "lineage_graph \<Rightarrow> lineage_graph \<Rightarrow> bool" where
  "grows g h \<longleftrightarrow> wf_lineage g \<and> wf_lineage h \<and> (\<forall>n. has_node g n \<longrightarrow> has_node h n) \<and>
     set (lg_arcs g) \<subseteq> set (lg_arcs h)"

lemma grows_refl: "wf_lineage g \<Longrightarrow> grows g g"
  by (simp add: grows_def)

lemma grows_put_node: "grows g h \<Longrightarrow> grows g (put_node n meta h)"
  unfolding grows_def by (auto simp: lineage_simps)

lemma grows_put_edge: "grows g h \<Longrightarrow> grows g (put_edge f t e h)"
  unfolding grows_def by (auto simp: lineage_simps)

lemma grows_fold: "grows g h \<Longrightarrow> (\<And>x h. grows g h \<Longrightarrow> grows g (f x h)) \<Longrightarrow> grows g (fold f xs h)"
  by (induction xs arbitrary: h) auto

lemma grows_trans: "grows g h \<Longrightarrow> grows h k \<Longrightarrow> grows g k"
  by (auto simp: grows_def)

lemma grows_dependency: "grows g h \<Longrightarrow> grows g (dependency_edges i d h)"
  unfolding dependency_edges_def Let_def by (cases d) (auto intro: grows_put_edge)

lemma grows_source: "grows g h \<Longrightarrow> grows g (source_node ss s h)"
  unfolding source_node_def by (rule grows_put_node)

lemma grows_model: "grows g h \<Longrightarrow> grows g (model_nodes m h)"
  unfolding model_nodes_def Let_def by (intro grows_put_edge grows_put_node)

lemma grows_columns: "grows g h \<Longrightarrow> grows g (column_edges i x h)"
  unfolding column_edges_def input_edges_def Let_def by (intro grows_fold grows_put_edge grows_put_node)

lemma grows_tests: "grows g h \<Longrightarrow> grows g (test_edges t h)"
  unfolding test_edges_def by (intro grows_fold grows_put_edge grows_put_node)

lemma declared_models:
  assumes "m \<in> set (cp_models c)"
  shows "has_node (declared_lineage c) (LnModel (cm_id m))"
proof -
  obtain xs ys where ms: "cp_models c = xs @ m # ys" using split_list [OF assms] by blast
  let ?g = "fold model_nodes xs empty_lineage"
  have g: "wf_lineage ?g" by (intro wf_fold wf_model_nodes wf_empty_lineage)
  have "has_node (model_nodes m ?g) (LnModel (cm_id m))"
    using g by (auto simp: model_nodes_def Let_def lineage_simps wf_put_node)
  moreover have "grows (model_nodes m ?g) (declared_lineage c)"
    unfolding declared_lineage_def ms
    by (simp, intro grows_fold grows_source grows_model grows_refl wf_model_nodes g)
  ultimately show ?thesis by (simp add: grows_def)
qed

lemma compiled_dependency:
  assumes "wf_compilation c" "m \<in> set (cp_models c)" "DepModel j \<in> set (cm_dependencies m)"
  shows "j \<in> ids_of c"
proof -
  have b: "graph_build (cp_models c) = Some (cp_graph c)" using assms(1) by (simp add: wf_compilation_def)
  then have "j \<in> model_deps (cp_graph c) (cm_id m)"
    using assms(2,3) graph_build_Some(3) [OF b, of "DepModel j" "cm_id m"] by (auto simp: model_deps_def)
  then show ?thesis
    using model_deps_ids(1) [OF graph_build_Some(1) [OF b]] graph_build_Some(2) [OF b] by blast
qed

lemma dependency_arc:
  assumes wf: "wf_compilation c" and m: "m \<in> set (cp_models c)" and d: "DepModel j \<in> set (cm_dependencies m)"
  shows "(LnModel j, LnModel (cm_id m), plain_edge EkDerives) \<in> set (lg_arcs (lineage_build c))"
proof -
  let ?F = "\<lambda>m. fold (dependency_edges (cm_id m)) (cm_dependencies m)"
  obtain xs ys where ms: "cp_models c = xs @ m # ys" using split_list [OF m] by blast
  obtain as bs where ds: "cm_dependencies m = as @ DepModel j # bs" using split_list [OF d] by blast
  let ?g = "fold (dependency_edges (cm_id m)) as (fold ?F xs (declared_lineage c))"
  have start: "grows (declared_lineage c) ?g"
    by (intro grows_fold grows_dependency grows_refl wf_declared)
  have "j \<in> ids_of c" by (rule compiled_dependency [OF wf m d])
  then have "has_node ?g (LnModel j)" "has_node ?g (LnModel (cm_id m))"
    using declared_models start m by (auto simp: grows_def)
  then have there: "(LnModel j, LnModel (cm_id m), plain_edge EkDerives)
      \<in> set (lg_arcs (dependency_edges (cm_id m) (DepModel j) ?g))"
    by (simp add: dependency_edges_def Let_def lineage_simps)
  have wf': "wf_lineage (dependency_edges (cm_id m) (DepModel j) ?g)"
    using start by (auto simp: grows_def)
  have "grows (dependency_edges (cm_id m) (DepModel j) ?g) (relation_lineage c)"
    unfolding relation_lineage_def ms fold_append fold_simps comp_def ds
    by (intro grows_fold grows_dependency grows_refl wf')
  moreover have "grows (relation_lineage c) (lineage_build c)"
    unfolding lineage_build_phases by (intro grows_fold grows_tests grows_columns grows_refl wf_relation)
  ultimately show ?thesis using there by (auto simp: grows_def)
qed

section \<open>Models reached\<close>

text \<open>No source has the name of the dataset of a model.\<close>

definition sources_apart :: "compilation \<Rightarrow> bool" where
  "sources_apart c \<longleftrightarrow>
     list_all (\<lambda>m. list_all (\<lambda>s. \<not> list_ex (\<lambda>k. dataset_of_model (cm_id k) = dataset_of_source s) (cp_models c))
       (source_dependencies m)) (cp_models c)"

lemma dataset_of_model_inj: "dataset_of_model i = dataset_of_model j \<longleftrightarrow> i = j"
  by (auto simp: dataset_of_model_def intro: model_id.expand)

text \<open>What a walk from a model stays in.\<close>

fun within :: "transform_graph \<Rightarrow> model_id \<Rightarrow> lineage_node \<Rightarrow> bool" where
  "within g i (LnModel j) \<longleftrightarrow> (i, j) \<in> (dep_rel g)\<^sup>+"
| "within g i (LnDataset d) \<longleftrightarrow> (\<exists>j. d = dataset_of_model j \<and> (i, j) \<in> (dep_rel g)\<^sup>*)"
| "within g i _ \<longleftrightarrow> True"

lemma dep_rel_iff:
  assumes "wf_compilation c"
  shows "(j, i) \<in> dep_rel (cp_graph c) \<longleftrightarrow> (\<exists>m \<in> set (cp_models c). cm_id m = i \<and> DepModel j \<in> set (cm_dependencies m))"
  using assms graph_build_Some(3) [of "cp_models c" "cp_graph c" "DepModel j" i]
  by (auto simp: wf_compilation_def dep_rel_def model_deps_def)


lemma dep_relI:
  "wf_compilation c \<Longrightarrow> m \<in> set (cp_models c) \<Longrightarrow> DepModel j \<in> set (cm_dependencies m) \<Longrightarrow>
     (j, cm_id m) \<in> dep_rel (cp_graph c)"
  using dep_rel_iff by blast

lemma arc_within:
  assumes wf: "wf_compilation c" and apart: "sources_apart c" and i: "i \<in> ids_of c"
    and ok: "lineage_arc_ok c f t" and f: "within (cp_graph c) i f"
  shows "within (cp_graph c) i t"
proof (cases "leads_on t")
  case False
  then show ?thesis by (cases t) auto
next
  case True
  let ?R = "dep_rel (cp_graph c)"
  from ok True consider (own) j where "f = LnModel j" "t = LnDataset (dataset_of_model j)"
    | (reads) m d where "m \<in> set (cp_models c)" "d \<in> set (cm_dependencies m)"
        "t = LnModel (cm_id m) \<or> t = LnDataset (dataset_of_model (cm_id m))"
        "f = LnDataset (dataset_of_dependency d) \<or> (\<exists>j. d = DepModel j \<and> f = LnModel j)"
    unfolding lineage_arc_ok_def by blast
  then show ?thesis
  proof cases
    case own
    with f show ?thesis by (auto intro: trancl_into_rtrancl)
  next
    case reads
    have "(i, cm_id m) \<in> ?R\<^sup>+"
    proof (cases d)
      case (DepModel j)
      have "(j, cm_id m) \<in> ?R" using reads(1,2) DepModel by (auto simp: dep_rel_iff [OF wf])
      moreover have "(i, j) \<in> ?R\<^sup>*"
        using reads(4) f DepModel by (auto simp: dataset_of_model_inj intro: trancl_into_rtrancl)
      ultimately show ?thesis by (rule rtrancl_into_trancl1 [rotated])
    next
      case (DepSource s)
      have "\<forall>k \<in> set (cp_models c). dataset_of_model (cm_id k) \<noteq> dataset_of_source s"
        using apart reads(1,2) DepSource by (auto simp: sources_apart_def list_all_iff list_ex_iff source_dependencies_def)
      moreover obtain j where "dataset_of_source s = dataset_of_model j" "(i, j) \<in> ?R\<^sup>*"
        using reads(4) f DepSource by auto
      moreover have "j \<in> ids_of c" if "(i, j) \<in> ?R\<^sup>*" for j
        using that i by (cases rule: rtrancl.cases) (auto simp: dep_rel_iff [OF wf])
      ultimately show ?thesis by (metis imageE)
    qed
    with reads(3) show ?thesis by (auto intro: trancl_into_rtrancl simp: dataset_of_model_inj)
  qed
qed


lemma reach_within:
  assumes "wf_compilation c" "sources_apart c" "i \<in> ids_of c"
    and "(LnModel i, n) \<in> (arc_rel (lineage_build c) Downstream)\<^sup>+"
  shows "within (cp_graph c) i n"
proof -
  have step: "within (cp_graph c) i t" if "(f, t) \<in> arc_rel (lineage_build c) Downstream"
    "within (cp_graph c) i f" for f t
    using that lineage_arcs_ok [of c] arc_within [OF assms(1-3), of f t]
    by (auto simp: arc_rel_def all_arcs_def)
  have first: "within (cp_graph c) i t" if "(LnModel i, t) \<in> arc_rel (lineage_build c) Downstream" for t
  proof -
    have "lineage_arc_ok c (LnModel i) t"
      using that lineage_arcs_ok [of c] by (auto simp: arc_rel_def all_arcs_def)
    then show ?thesis
      by (cases t) (auto simp: lineage_arc_ok_def dataset_of_model_inj intro: dep_relI [OF assms(1)])
  qed
  from assms(4) show ?thesis
    by (induction rule: trancl_induct) (auto intro: first step)
qed

lemma dependency_reach:
  assumes "wf_compilation c" "(i, j) \<in> (dep_rel (cp_graph c))\<^sup>+"
  shows "(LnModel i, LnModel j) \<in> (arc_rel (lineage_build c) Downstream)\<^sup>+"
proof -
  have step: "(LnModel k, LnModel l) \<in> arc_rel (lineage_build c) Downstream" if "(k, l) \<in> dep_rel (cp_graph c)" for k l
    using that dependency_arc [OF assms(1)] by (force simp: dep_rel_iff [OF assms(1)] arc_rel_def)
  from assms(2) show ?thesis
    by (induction rule: trancl_induct) (auto intro: step trancl_into_trancl)
qed

lemma reach_from_compiled:
  assumes "wf_compilation c" "(LnModel j, n) \<in> (arc_rel (lineage_build c) Downstream)\<^sup>+"
  shows "j \<in> ids_of c"
proof -
  from assms(2) obtain t where "(LnModel j, t) \<in> arc_rel (lineage_build c) Downstream" by (metis converse_tranclE)
  then have "lineage_arc_ok c (LnModel j) t"
    using lineage_arcs_ok [of c] by (auto simp: arc_rel_def all_arcs_def)
  then consider "j \<in> ids_of c" | m where "m \<in> set (cp_models c)" "DepModel j \<in> set (cm_dependencies m)"
    unfolding lineage_arc_ok_def by auto
  then show ?thesis
  proof cases
    case (2 m)
    then show ?thesis by (rule compiled_dependency [OF assms(1)])
  qed
qed

lemma reaches_iff:
  assumes "wf_compilation c" "sources_apart c" "i \<in> ids_of c"
  shows "(LnModel i, LnModel j) \<in> (arc_rel (lineage_build c) Downstream)\<^sup>+ \<longleftrightarrow> (i, j) \<in> (dep_rel (cp_graph c))\<^sup>+"
  using reach_within [OF assms] dependency_reach [OF assms(1)] by fastforce

lemma set_as_model: "set (List.map_filter as_model ns) = {i. LnModel i \<in> set ns}"
proof -
  have "as_model n = Some i \<longleftrightarrow> n = LnModel i" for n i by (cases n) auto
  then show ?thesis by (auto simp: set_map_filter)
qed

lemma sorted_as_model:
  "sorted ns \<Longrightarrow> distinct ns \<Longrightarrow> sorted (List.map_filter as_model ns) \<and> distinct (List.map_filter as_model ns)"
proof (induction ns)
  case Nil
  then show ?case by simp
next
  case (Cons n ns)
  then show ?case
    by (cases n) (auto simp: set_as_model map_filter_simps node_order_fields [symmetric] simp del: node_order_fields)
qed

lemma models_of_walk:
  assumes "\<And>j. LnModel j \<in> set ns \<longleftrightarrow> j \<in> J" "sorted ns" "distinct ns"
  shows "model_names ns = map logical_name (sorted_list_of_set J)"
proof -
  let ?ms = "List.map_filter as_model ns"
  have "J = set ?ms" using assms(1) by (auto simp: set_as_model)
  then show ?thesis
    using sorted_as_model [OF assms(2,3)] by (simp add: model_names_def sorted_list_of_set.idem_if_sorted_distinct)
qed

text \<open>
  Property C24. For a compiled model, when no source has the name of the dataset of a model, the lineage report names
  exactly the models the dependency graph reaches, in either direction and in model order: the lineage graph,
  with its datasets, columns, tests and rolled-up edges, neither loses nor invents a dependency between
  models.
\<close>

theorem lineage_matches_dependencies:
  assumes "wf_compilation c" "sources_apart c" "compilation_model c i = Some m"
  shows "model_lineage c i = Some
     \<lparr>mx_model = logical_name i,
      mx_upstream = map logical_name (sorted_list_of_set {j. (j, i) \<in> (dep_rel (cp_graph c))\<^sup>+}),
      mx_downstream = map logical_name (sorted_list_of_set {j. (i, j) \<in> (dep_rel (cp_graph c))\<^sup>+})\<rparr>"
proof -
  note wf = wf_lineage_build [of c]
  note walk = lineage_walk_reaches [OF wf]
  have i: "i \<in> ids_of c" using assms(3) compilation_model_Some [OF assms(1)] by auto
  have down: "LnModel j \<in> set (downstream_transitive (lineage_build c) (LnModel i)) \<longleftrightarrow>
      j \<in> {j. (i, j) \<in> (dep_rel (cp_graph c))\<^sup>+}" for j
    using walk reaches_iff [OF assms(1,2) i] by (simp add: downstream_transitive_def)
  have up: "LnModel j \<in> set (upstream_transitive (lineage_build c) (LnModel i)) \<longleftrightarrow>
      j \<in> {j. (j, i) \<in> (dep_rel (cp_graph c))\<^sup>+}" for j
    using walks_converse [OF wf, of "LnModel i" "LnModel j"] walk reaches_iff [OF assms(1,2), of j i]
      reach_from_compiled [OF assms(1), of j] reach_from_compiled
      dependency_reach [OF assms(1), of j i]
    by (auto simp: downstream_transitive_def)
  show ?thesis
    using assms(3) models_of_walk [OF down] models_of_walk [OF up] walk
    by (simp add: model_lineage_def downstream_transitive_def upstream_transitive_def)
qed


section \<open>The columns a change reaches\<close>

text \<open>Columns derive from columns: the edges of the column lineage.\<close>

definition derives_columns :: "lineage_graph \<Rightarrow> (dataset_column \<times> dataset_column) set" where
  "derives_columns g =
     {(x, y). \<exists>e. (LnColumn x, LnColumn y, e) \<in> set (lg_arcs g) \<and> lge_kind e = EkDerives}"

definition columns_affected :: "lineage_graph \<Rightarrow> dataset_column \<Rightarrow> dataset_column set" where
  "columns_affected g x = (derives_columns g)\<^sup>+ `` {x} - {x}"

lemma column_arcs_derives: "column_arcs g Downstream True = derives_columns g"
  by (force simp: column_arcs_def derives_columns_def counts_def arc_edge_def)

lemma keys_of_walk:
  "bm_ok m \<Longrightarrow> map fst m = sorted_list_of_set (fst ` set m)"
  by (metis bm_ok_def list.set_map sorted_list_of_set.idem_if_sorted_distinct strict_sorted_iff)

text \<open>
  Property C36. The impact of a column lists exactly the columns that derive from it through any number of steps, in
  column order and the column itself left out, whatever order the graph library lists edges in, and the
  tests of exactly the datasets those columns are in.
\<close>

theorem column_impact_complete:
  assumes "permutes_edges io"
  shows "ix_columns (impact_report_of io (lineage_build c) r) = map column_display
      (sorted_list_of_set (columns_affected (lineage_build c) (ref_column r))) \<and>
    set (ix_tests (impact_report_of io (lineage_build c) r)) =
      tid_name ` (\<Union>x \<in> columns_affected (lineage_build c) (ref_column r). set (tests_for_dataset (lineage_build c) (dc_dataset x)))"
proof -
  let ?walk = "column_walk io (lineage_build c) Downstream True (ref_column r)"
  note w = column_walk_reaches [OF assms(1) wf_lineage_build, of c Downstream True "ref_column r",
      unfolded column_arcs_derives]
  have s: "fst ` set ?walk = columns_affected (lineage_build c) (ref_column r)"
    using w by (simp add: columns_affected_def)
  have "bm_ok ?walk" using w by blast
  then have "map fst ?walk = sorted_list_of_set (columns_affected (lineage_build c) (ref_column r))"
    using keys_of_walk s by metis
  then show ?thesis
    unfolding s [symmetric] by (auto simp: impact_report_of_def impact_report_with_def Let_def)
qed

section \<open>Differences\<close>

lemma edge_order_inj: "lge_kind a = lge_kind b \<Longrightarrow> edge_order a = edge_order b \<Longrightarrow> a = b"
  by (cases a, cases b) (simp add: edge_order_def)

lemma edge_changes_Nil: "lge_kind a = lge_kind b \<Longrightarrow> edge_changes a b = [] \<longleftrightarrow> a = b"
  by (cases a, cases b) (simp add: edge_changes_def moved_field_def)

lemma meta_changes_Nil: "meta_changes a b = [] \<longleftrightarrow> a = b"
  by (cases a, cases b) (simp add: meta_changes_def moved_field_def)

text \<open>Two sorted bags cancel to nothing exactly when they are equal.\<close>

lemma cancel_bags_same: "cancel_bags bs bs = ([], [])"
  by (induction bs) simp_all

lemma cancel_bags_keeps:
  "cancel_bags bs cs = (l, r) \<Longrightarrow> mset bs + mset r = mset cs + mset l"
  by (induction bs cs arbitrary: l r rule: cancel_bags.induct) (auto split: if_splits prod.splits)

lemma over_Nil:
  "left_over x = [] \<Longrightarrow> right_over x = [] \<Longrightarrow> paired_changes k x = [] \<Longrightarrow> x = ([], [])"
  by (cases x; cases k; cases "fst x"; cases "snd x") (auto simp: left_over_def right_over_def paired_changes_def)

lemma sorted_bags_unique:
  assumes "\<forall>b \<in> set bs. lge_kind b = k" "\<forall>c \<in> set cs. lge_kind c = k"
    and "sorted (map edge_order bs)" "sorted (map edge_order cs)" "mset bs = mset cs"
  shows "bs = cs"
proof -
  have "map edge_order bs = sort (map edge_order cs)"
    by (rule properties_for_sort [symmetric]) (use assms(3,5) in simp_all)
  then have "map edge_order bs = map edge_order cs" using assms(4) by (simp add: sorted_sort_id)
  moreover have "inj_on edge_order (set bs \<union> set cs)"
    using assms(1,2) by (auto intro!: inj_onI intro: edge_order_inj)
  ultimately show ?thesis by (rule map_inj_on)
qed

section \<open>The bags of a graph\<close>

definition arc_key :: "lineage_arc \<Rightarrow> lineage_node \<times> lineage_node \<times> edge_kind" where
  "arc_key a = (fst a, fst (snd a), lge_kind (snd (snd a)))"

definition bag_at :: "lineage_graph \<Rightarrow> lineage_node \<times> lineage_node \<times> edge_kind \<Rightarrow> lineage_edge list" where
  "bag_at g k = sort_key edge_order (map arc_edge (filter (\<lambda>a. arc_key a = k) (lg_arcs g)))"

lemma edge_bags_get:
  "map_of (edge_bags g) k = (if bag_at g k = [] then None else Some (bag_at g k))"
proof -
  have f: "(\<lambda>(from, to, e). bm_push (from, to, lge_kind e) e) = (\<lambda>a. bm_push (arc_key a) (arc_edge a))"
    by (auto simp: arc_key_def arc_edge_def)
  have e: "sort_key edge_order xs = [] \<longleftrightarrow> xs = []" for xs
    by (metis length_0_conv length_sort)
  show ?thesis
    unfolding edge_bags_def f map_of_map bag_at_def e
    by (simp add: bmi.get_fold_push split: list.split)
qed

lemma edge_bags_ok: "bm_ok (edge_bags g)"
proof -
  have f: "(\<lambda>(from, to, e). bm_push (from, to, lge_kind e) e) = (\<lambda>a. bm_push (arc_key a) (arc_edge a))"
    by (auto simp: arc_key_def arc_edge_def)
  have "bm_ok (fold (\<lambda>a. bm_push (arc_key a) (arc_edge a)) (lg_arcs g) [])"
    by (rule bmi.invar_fold_push) simp
  then show ?thesis unfolding edge_bags_def f by (simp add: bm_ok_def comp_def case_prod_unfold)
qed


lemma bag_facts:
  "e \<in> set (bag_at g k) \<longleftrightarrow> (fst k, fst (snd k), e) \<in> set (lg_arcs g) \<and> lge_kind e = snd (snd k)"
  "sorted (map edge_order (bag_at g k))"
  by (cases k) (force simp: bag_at_def arc_key_def arc_edge_def, simp add: bag_at_def)

lemma bag_kinds: "\<forall>e \<in> set (bag_at g k). lge_kind e = snd (snd k)"
  by (simp add: bag_facts)

lemma edge_bags_iff: "(k, es) \<in> set (edge_bags g) \<longleftrightarrow> es = bag_at g k \<and> es \<noteq> []"
  using edge_bags_get [of g k] map_of_eq_Some_iff [OF bm_ok_distinct [OF edge_bags_ok [of g]], of k es]
  by (auto split: if_splits)

lemma bags_arcs:
  assumes "wf_lineage g" "wf_lineage h"
  shows "(\<forall>k. bag_at g k = bag_at h k) \<longleftrightarrow> set (lg_arcs g) = set (lg_arcs h)"
proof
  assume eq: "\<forall>k. bag_at g k = bag_at h k"
  have "(f, t, e) \<in> set (lg_arcs x) \<longleftrightarrow> e \<in> set (bag_at x (f, t, lge_kind e))" for f t e x
    by (simp add: bag_facts)
  with eq show "set (lg_arcs g) = set (lg_arcs h)" by auto
next
  assume "set (lg_arcs g) = set (lg_arcs h)"
  then have "mset (lg_arcs g) = mset (lg_arcs h)"
    using assms by (simp add: wf_lineage_def set_eq_iff_mset_eq_distinct)
  then have "mset (bag_at g k) = mset (bag_at h k)" for k
    by (simp add: bag_at_def mset_filter)
  then show "\<forall>k. bag_at g k = bag_at h k"
    using sorted_bags_unique [OF bag_kinds bag_kinds bag_facts(2) bag_facts(2)] by blast
qed

lemma no_edge_delta:
  "added_edges (edge_bags g) (edge_bags h) = [] \<and> removed_edges (edge_bags g) (edge_bags h) = [] \<and>
     changed_edges (edge_bags g) (edge_bags h) = [] \<longleftrightarrow> (\<forall>k. bag_at g k = bag_at h k)"
  (is "?none \<longleftrightarrow> _")
proof
  assume none: ?none
  show "\<forall>k. bag_at g k = bag_at h k"
  proof
    fix k
    show "bag_at g k = bag_at h k"
    proof (cases "bag_at h k = []")
      case True
      then have "bag_at g k = []" if "(k, bag_at g k) \<in> set (edge_bags g)"
        using none that by (fastforce simp: removed_edges_def edge_bags_get)
      then have "bag_at g k = []" by (cases "bag_at g k = []") (simp_all add: edge_bags_iff)
      with True show ?thesis by simp
    next
      case False
      then have there: "(k, bag_at h k) \<in> set (edge_bags h)" by (simp add: edge_bags_iff)
      have g: "bag_at g k \<noteq> []"
        using none there False by (auto simp: added_edges_def edge_bags_get)
      then have "left_over (cancel_bags (bag_at g k) (bag_at h k)) = []"
        "right_over (cancel_bags (bag_at g k) (bag_at h k)) = []"
        "paired_changes k (cancel_bags (bag_at g k) (bag_at h k)) = []"
        using none there by (auto simp: added_edges_def removed_edges_def changed_edges_def edge_bags_get dest!: bspec)
      then have "cancel_bags (bag_at g k) (bag_at h k) = ([], [])"
        by (rule over_Nil)
      then show ?thesis
        using sorted_bags_unique [OF bag_kinds bag_kinds bag_facts(2) bag_facts(2)] cancel_bags_keeps by fastforce
    qed
  qed
next
  assume eq: "\<forall>k. bag_at g k = bag_at h k"
  have "edge_bags g = edge_bags h"
    by (rule bm.entries_unique [OF edge_bags_ok edge_bags_ok]) (simp add: edge_bags_get eq)
  moreover have "map_of (edge_bags h) k = Some es" if "(k, es) \<in> set (edge_bags h)" for k es
    using that bm_ok_distinct [OF edge_bags_ok] by simp
  ultimately show ?none
    by (auto simp: added_edges_def removed_edges_def changed_edges_def cancel_bags_same left_over_def right_over_def
        paired_changes_def)
qed

lemma no_node_delta:
  assumes "bm_ok bn" "bm_ok cn"
  shows "only_in cn bn = [] \<and> only_in bn cn = [] \<and> changed_nodes bn cn = [] \<longleftrightarrow> bn = cn"
proof
  assume none: "only_in cn bn = [] \<and> only_in bn cn = [] \<and> changed_nodes bn cn = []"
  have "map_of bn n = map_of cn n" for n
  proof (cases "map_of cn n")
    case None
    then have "map_of bn n = None" if "(n, v) \<in> set bn" for v
      using none that by (auto simp: only_in_def filter_empty_conv)
    with None show ?thesis by (metis map_of_SomeD not_Some_eq)
  next
    case (Some v)
    then have v: "(n, v) \<in> set cn" by (rule map_of_SomeD)
    then obtain w where w: "map_of bn n = Some w"
      using none by (fastforce simp: only_in_def filter_empty_conv)
    have "meta_changes w v = []"
      using none v w by (fastforce simp: changed_nodes_def List.map_filter_def filter_empty_conv split: if_splits)
    with Some w show ?thesis by (simp add: meta_changes_Nil)
  qed
  then show "bn = cn" by (rule bm.entries_unique [OF assms])
next
  assume "bn = cn"
  moreover have "map_of cn n = Some v" if "(n, v) \<in> set cn" for n v
    using that bm_ok_distinct [OF assms(2)] by simp
  ultimately show "only_in cn bn = [] \<and> only_in bn cn = [] \<and> changed_nodes bn cn = []"
    by (auto simp: only_in_def changed_nodes_def List.map_filter_def filter_empty_conv meta_changes_Nil)
qed

text \<open>
  Property C37. The lineage difference of two compilations reports nothing exactly when the two lineage graphs have the
  same nodes with the same metadata and the same edges: no change of a node, an edge or the detail of an
  edge goes unreported, and the order in which edges were added is not reported as one.
\<close>

theorem lineage_diff_empty_iff:
  "no_delta (lineage_diff (lineage_build b) (lineage_build c)) \<longleftrightarrow>
     lg_nodes (lineage_build b) = lg_nodes (lineage_build c) \<and>
     set (lg_arcs (lineage_build b)) = set (lg_arcs (lineage_build c))"
proof -
  let ?g = "lineage_build b" and ?h = "lineage_build c"
  have ok: "bm_ok (lg_nodes ?g)" "bm_ok (lg_nodes ?h)"
    using wf_lineage_build by (auto simp: wf_lineage_def)
  have "no_delta (lineage_diff ?g ?h) \<longleftrightarrow>
      (only_in (lg_nodes ?h) (lg_nodes ?g) = [] \<and> only_in (lg_nodes ?g) (lg_nodes ?h) = [] \<and>
       changed_nodes (lg_nodes ?g) (lg_nodes ?h) = []) \<and>
      (added_edges (edge_bags ?g) (edge_bags ?h) = [] \<and> removed_edges (edge_bags ?g) (edge_bags ?h) = [] \<and>
       changed_edges (edge_bags ?g) (edge_bags ?h) = [])"
    by (auto simp: no_delta_def lineage_diff_def Let_def)
  then show ?thesis
    unfolding no_node_delta [OF ok] no_edge_delta bags_arcs [OF wf_lineage_build wf_lineage_build] .
qed


section \<open>Concrete instances\<close>

text \<open>The diamond of the graph tests, and a chain of three models that hand one column on.\<close>

lemma diamond_apart: "sources_apart diamond_workspace"
  unfolding sources_apart_def diamond_workspace_models by code_simp

theorem lineage_matches_dependencies_witness:
  "\<exists>r. model_lineage diamond_workspace (mid ''a'') = Some r \<and>
     mx_upstream r = map logical_name (sorted_list_of_set {j. (j, mid ''a'') \<in> (dep_rel diamond)\<^sup>+}) \<and>
     mx_downstream r = map logical_name (sorted_list_of_set {j. (mid ''a'', j) \<in> (dep_rel diamond)\<^sup>+})"
proof -
  obtain m where "compilation_model diamond_workspace (mid ''a'') = Some m"
    using compilation_model_Some [OF diamond_workspace_wf, of "mid ''a''" "bare_model (mid ''a'') []"]
    by (auto simp: diamond_workspace_models diamond_models_def bare_model_def)
  from lineage_matches_dependencies [OF diamond_workspace_wf diamond_apart this]
  show ?thesis by (simp add: diamond_workspace_graph)
qed

definition handed_on :: "string \<Rightarrow> column_ref option \<Rightarrow> dependency list \<Rightarrow> compiled_model" where
  "handed_on n source ds =
     (bare_model (mid n) ds)\<lparr>cm_schema :=
       \<lparr>ms_columns = [\<lparr>oc_name = ''x'', oc_type = TVarchar, oc_nullability = NullUnknown,
          oc_inputs = (case source of Some r \<Rightarrow> [column_input_identity r] | None \<Rightarrow> []),
          oc_confidence = LcExact\<rparr>],
        ms_known = True\<rparr>\<rparr>"

definition column_x :: "string \<Rightarrow> column_ref" where
  "column_x n = \<lparr>cr_relation = RelModel (mid n), cr_column = ''x''\<rparr>"

definition chain_workspace :: compilation where
  "chain_workspace = the (compilation_new
     [handed_on ''a'' None [], handed_on ''b'' (Some (column_x ''a'')) [DepModel (mid ''a'')],
      handed_on ''c'' (Some (column_x ''b'')) [DepModel (mid ''b'')]] [] [] no_defaults [])"

lemma chain_impact:
  "ix_columns (impact_report_of (\<lambda>es. es) (lineage_build chain_workspace) (column_x ''a'')) = [''m.b.x'', ''m.c.x'']"
  by code_simp

theorem column_impact_complete_witness:
  "map column_display (sorted_list_of_set (columns_affected (lineage_build chain_workspace) (ref_column (column_x ''a'')))) =
     [''m.b.x'', ''m.c.x'']"
  using column_impact_complete [of "\<lambda>es. es" chain_workspace "column_x ''a''"] chain_impact
  by (simp add: permutes_edges_def)

end
