(* ===== verification/Compile.thy ===== *)
theory Compile
  imports Resolve Planner LineageDiff "HOL-Library.Monad_Syntax"
begin

text \<open>
  The compiler, \<^verbatim>\<open>phlo-transform-core/src/compile.rs\<close>: from a semantic project to a compilation. Models are
  lowered, duplicates and colliding targets reported, names resolved, ephemeral models inlined, and schemas,
  assertions, generated tests and versions filled in along the dependency graph.

  Statements and queries are values of the parser crate, here the types \<open>'s\<close> and \<open>'q\<close>; parsing, printing,
  listing relations, rewriting and analysing them are the record \<open>sql_tools\<close>. \<open>Debug\<close> of a string is the
  function \<open>tl_debug\<close>. The lineage graph of the result is \<open>lineage_build\<close> of it. \<open>None\<close> is a panic, or an
  expansion out of fuel.
\<close>

section \<open>What the compiler is given\<close>

datatype cross_workflow_policy = PolicyAllow | PolicyWarn | PolicyError

record semantic_project =
  pr_models :: "semantic_model list"
  pr_tests :: "semantic_test list"
  pr_seeds :: "semantic_seed list"
  pr_defaults :: workspace_defaults
  pr_cross_workflow :: cross_workflow_policy
  pr_diagnostics :: "diagnostic list"

type_synonym schema_provider = "source_id \<Rightarrow> schema_col list option"
type_synonym source_state_provider = "source_id \<Rightarrow> string option"

definition no_schemas :: schema_provider where
  "no_schemas s = None"

definition static_schemas :: "(string \<times> schema_col list) list \<Rightarrow> schema_provider" where
  "static_schemas schemas s = map_of schemas (source_name s)"

definition seed_schemas :: "schema_provider \<Rightarrow> semantic_seed list \<Rightarrow> schema_provider" where
  "seed_schemas inner seeds s =
     (case inner s of
        Some schema \<Rightarrow> Some schema
      | None \<Rightarrow>
          map_option (\<lambda>seed. map (\<lambda>c. \<lparr>sc_name = c, sc_type = TVarchar, sc_nullability = Nullable\<rparr>) (ss_columns seed))
            (find (\<lambda>seed. source_name s = ss_name seed \<or> ends_with (''.'' @ ss_name seed) (source_name s)) seeds))"

record 'q rewriting =
  rw_current :: "registry_entry option"
  rw_resolver :: resolver
  rw_targets :: "(model_id \<times> relation) list"
  rw_ephemerals :: "(model_id \<times> 'q) list"
  rw_catalog :: "string option"
  rw_schema :: "string option"

record analysis =
  an_schema :: model_schema
  an_diagnostics :: "diagnostic list"
  an_limitations :: "string list"

record ('s, 'q) sql_tools =
  tl_parse :: "string \<Rightarrow> string + 's list"
  tl_relations :: "'s list \<Rightarrow> relation_name list"
  tl_query :: "'s \<Rightarrow> 'q option"
  tl_statement_text :: "'s \<Rightarrow> string"
  tl_query_text :: "'q \<Rightarrow> string"
  tl_debug :: "string \<Rightarrow> string"
  tl_rewrite :: "'q rewriting \<Rightarrow> 's list \<Rightarrow> 's list \<times> string"
  tl_analyze :: "resolver \<Rightarrow> (model_id \<times> model_schema) list \<Rightarrow> schema_provider \<Rightarrow> registry_entry \<Rightarrow> 's list
    \<Rightarrow> model_id \<Rightarrow> analysis"

section \<open>Diagnostics\<close>

text \<open>\<open>str::rfind\<close> with the text after the match, and \<open>parse::<usize>()\<close>.\<close>

definition rsplit_str :: "string \<Rightarrow> string \<Rightarrow> (string \<times> string) option" where
  "rsplit_str p s =
     map_option (\<lambda>n. (take n s, drop (n + length p) s))
       (find (\<lambda>n. starts_with p (drop n s)) (rev [0..<Suc (length s)]))"

definition digits_nat :: "string \<Rightarrow> nat" where
  "digits_nat s = foldl (\<lambda>n c. n * 10 + (of_char c - 48)) 0 s"

definition parse_usize :: "string \<Rightarrow> nat option" where
  "parse_usize s =
     (let digits = (case strip_prefix ''+'' s of Some r \<Rightarrow> r | None \<Rightarrow> s)
      in if digits \<noteq> [] \<and> list_all is_ascii_digit digits \<and> digits_nat digits < 2 ^ 64
         then Some (digits_nat digits) else None)"

definition split_parser_location :: "string \<Rightarrow> string \<times> (nat \<times> nat) option" where
  "split_parser_location message =
     (case do {
        (before, tail) \<leftarrow> rsplit_str ''Line: '' message;
        (line_text, rest) \<leftarrow> split_once CHR '','' tail;
        line \<leftarrow> parse_usize (trim line_text);
        column_text \<leftarrow> strip_prefix '' Column: '' rest;
        column \<leftarrow> parse_usize (takeWhile is_ascii_digit column_text);
        let prefix = trim_end before;
        let stripped = (case strip_suffix '' at'' prefix of Some r \<Rightarrow> r | None \<Rightarrow> prefix);
        Some (trim_end stripped, (line, column))
      } of
        Some (text, location) \<Rightarrow> (text, Some location)
      | None \<Rightarrow> (message, None))"

definition at_path :: "string option \<Rightarrow> diagnostic \<Rightarrow> diagnostic" where
  "at_path path d = (case path of Some p \<Rightarrow> with_path p d | None \<Rightarrow> d)"

definition parse_diagnostic :: "string \<Rightarrow> string option \<Rightarrow> string \<Rightarrow> diagnostic" where
  "parse_diagnostic error path context =
     (case split_parser_location error of
        (message, location) \<Rightarrow>
          (let d = at_path path (diag_error PARSE_INVALID_SQL (context @ '': '' @ message))
           in case location of Some (line, column) \<Rightarrow> with_location line column d | None \<Rightarrow> d))"

definition directive_diagnostic :: "string option \<Rightarrow> directive_issue \<Rightarrow> diagnostic" where
  "directive_diagnostic path issue =
     (let name = ticked (issue_name issue);
          d = (case issue_kind issue of
                 MissingValue \<Rightarrow> diag_error PARSE_MALFORMED_DIRECTIVE (''directive '' @ name @ '' requires a value'')
               | InvalidValue \<Rightarrow>
                   diag_error PARSE_MALFORMED_DIRECTIVE (''directive '' @ name @ '' has an invalid value'')
               | DuplicateId \<Rightarrow>
                   diag_error PARSE_MALFORMED_DIRECTIVE (''directive '' @ name @ '' is declared more than once'')
               | ConflictingMaterialization \<Rightarrow>
                   diag_error PARSE_MALFORMED_DIRECTIVE (''conflicting materialisation directive '' @ name)
               | UnknownDirective \<Rightarrow> diag_warning PARSE_UNKNOWN_DIRECTIVE (''unknown directive '' @ name))
      in at_path (map_option (\<lambda>p. p @ '':'' @ dec (issue_line issue)) path) d)"

definition directive_diagnostics :: "semantic_model \<Rightarrow> string option \<Rightarrow> diagnostic list" where
  "directive_diagnostics m path = map (directive_diagnostic path) (d_issues (sm_directives m))"

definition ambiguous_diagnostic :: "string option \<Rightarrow> relation_name \<Rightarrow> model_id list \<Rightarrow> diagnostic" where
  "ambiguous_diagnostic path r candidates =
     with_help ''use a qualified model name''
       (with_labels (map logical_name candidates)
         (at_path path (diag_error RESOLUTION_AMBIGUOUS (''ambiguous relation '' @ ticked (as_dotted r)))))"

section \<open>Lowering\<close>

record 's lowered_model =
  lw_model :: semantic_model
  lw_path :: "string option"
  lw_pinned_id :: "model_id option"
  lw_statements :: "'s list"

abbreviation lw_id :: "'s lowered_model \<Rightarrow> model_id" where
  "lw_id l \<equiv> sm_id (lw_model l)"

definition lower_pinned_id :: "semantic_model \<Rightarrow> string option \<Rightarrow> model_id option \<times> diagnostic list" where
  "lower_pinned_id m path =
     (case d_pinned_id (sm_directives m) of
        None \<Rightarrow> (None, [])
      | Some raw \<Rightarrow>
          if list_ex (\<lambda>i. issue_kind i = DuplicateId \<or> issue_kind i = MissingValue) (d_issues (sm_directives m))
          then (None, [])
          else (case model_id_parse raw of
                  Inr i \<Rightarrow> (Some i, [])
                | Inl e \<Rightarrow>
                    (None, [at_path path (diag_error PROJECT_INVALID_MODEL_ID
                       (''invalid pinned model id '' @ ticked raw @ '': '' @ identity_error_text e))])))"

definition lower_model :: "('s, 'q) sql_tools \<Rightarrow> semantic_model \<Rightarrow> 's lowered_model \<times> diagnostic list" where
  "lower_model t m =
     (let path = path_display (sm_origin m);
          (pinned, invalid) = lower_pinned_id m path;
          (statements, unparsed) =
            (case tl_parse t (sm_sql m) of
               Inr statements \<Rightarrow> (statements, [])
             | Inl error \<Rightarrow> ([], [parse_diagnostic error path ''could not parse model SQL'']))
      in (\<lparr>lw_model = m, lw_path = path, lw_pinned_id = pinned, lw_statements = statements\<rparr>,
          directive_diagnostics m path @ invalid @ unparsed))"

definition lower_models :: "('s, 'q) sql_tools \<Rightarrow> semantic_model list \<Rightarrow> 's lowered_model list \<times> diagnostic list" where
  "lower_models t ms =
     (let lowered = map (lower_model t) ms
      in (sort_key lw_id (map fst lowered), concat (map snd lowered)))"

text \<open>The first model of each identity is kept; a repeated identity collects its models in a group.\<close>

record 's duplicate_scan =
  du_unique :: "'s lowered_model list"
  du_seen :: "model_id \<rightharpoonup> nat"
  du_group :: "model_id \<rightharpoonup> nat"
  du_groups :: "'s lowered_model list list"

definition note_model :: "'s lowered_model \<Rightarrow> 's duplicate_scan \<Rightarrow> 's duplicate_scan" where
  "note_model l s =
     (case du_seen s (lw_id l) of
        Some first \<Rightarrow>
          (case du_group s (lw_id l) of
             Some g \<Rightarrow> s\<lparr>du_groups := (du_groups s)[g := du_groups s ! g @ [l]]\<rparr>
           | None \<Rightarrow>
               s\<lparr>du_group := (du_group s)(lw_id l \<mapsto> length (du_groups s)),
                 du_groups := du_groups s @ [[du_unique s ! first, l]]\<rparr>)
      | None \<Rightarrow>
          s\<lparr>du_seen := (du_seen s)(lw_id l \<mapsto> length (du_unique s)), du_unique := du_unique s @ [l]\<rparr>)"

definition scan_duplicates :: "'s lowered_model list \<Rightarrow> 's duplicate_scan" where
  "scan_duplicates ls =
     fold note_model ls \<lparr>du_unique = [], du_seen = Map.empty, du_group = Map.empty, du_groups = []\<rparr>"

definition duplicate_diagnostic :: "'s lowered_model list \<Rightarrow> diagnostic" where
  "duplicate_diagnostic ls =
     with_labels (map (\<lambda>l. case lw_path l of Some p \<Rightarrow> p | None \<Rightarrow> ''('' @ model_uri (lw_id l) @ '')'') ls)
       (diag_error PROJECT_DUPLICATE_MODEL (''duplicate model id '' @ ticked (logical_name (lw_id (hd ls)))))"

section \<open>Targets\<close>

definition target_relation :: "semantic_model \<Rightarrow> workspace_defaults \<Rightarrow> relation" where
  "target_relation m defaults =
     (let namespace = sm_namespace m;
          schema = (case cfg_schema (sm_config m) of
                      Some s \<Rightarrow> s
                    | None \<Rightarrow> (case wd_schema defaults of Some s \<Rightarrow> s | None \<Rightarrow> namespace));
          table = (if schema = namespace then join ''__'' (sm_path m)
                   else namespace @ ''__'' @ join ''__'' (sm_path m))
      in Relation (wd_catalog defaults) schema table)"

definition physical_targets :: "workspace_defaults \<Rightarrow> 's lowered_model list \<Rightarrow> (model_id \<times> relation) list" where
  "physical_targets defaults unique =
     fold (\<lambda>l. bm_insert (lw_id l) (target_relation (lw_model l) defaults)) unique []"

definition models_by_target ::
    "(model_id \<times> relation) list \<Rightarrow> 's lowered_model list \<Rightarrow> (relation \<times> 's lowered_model list) list" where
  "models_by_target targets unique =
     fold (\<lambda>l m. case map_of targets (lw_id l) of Some target \<Rightarrow> bm_push target l m | None \<Rightarrow> m) unique []"

definition collision_diagnostic :: "relation \<times> 's lowered_model list \<Rightarrow> diagnostic option" where
  "collision_diagnostic = (\<lambda>(target, ls).
     if length ls > 1
     then Some (with_labels
       (map (\<lambda>l. logical_name (lw_id l) @ '' ('' @
          (case lw_path l of Some p \<Rightarrow> p | None \<Rightarrow> ''in memory'') @ '')'') ls)
       (diag_error PROJECT_TARGET_COLLISION (''multiple models target the relation '' @ ticked (relation_display target))))
     else None)"

definition target_collisions :: "(model_id \<times> relation) list \<Rightarrow> 's lowered_model list \<Rightarrow> diagnostic list" where
  "target_collisions targets unique = List.map_filter collision_diagnostic (models_by_target targets unique)"

section \<open>Names\<close>

definition entry_for :: "'s lowered_model \<Rightarrow> registry_entry" where
  "entry_for l =
     \<lparr>re_id = lw_id l, re_namespace = sm_namespace (lw_model l), re_path = sm_path (lw_model l),
      re_root = sm_root (lw_model l)\<rparr>"

fun resolution_dependency :: "resolution \<Rightarrow> dependency option" where
  "resolution_dependency (ResModel i) = Some (DepModel i)"
| "resolution_dependency (ResExternal s) = Some (DepSource s)"
| "resolution_dependency (ResAmbiguous cs) = None"

definition ambiguities :: "string option \<Rightarrow> (relation_name \<Rightarrow> resolution) \<Rightarrow> relation_name list \<Rightarrow> diagnostic list" where
  "ambiguities path resolved names =
     List.map_filter (\<lambda>r. case resolved r of ResAmbiguous cs \<Rightarrow> Some (ambiguous_diagnostic path r cs) | _ \<Rightarrow> None) names"

definition model_dependency_list :: "('s, 'q) sql_tools \<Rightarrow> resolver \<Rightarrow> 's lowered_model \<Rightarrow> dependency list" where
  "model_dependency_list t r l =
     sort_dedup (List.map_filter (\<lambda>n. resolution_dependency (resolve r (entry_for l) n))
       (tl_relations t (lw_statements l)))"

definition workflow_crossing ::
    "cross_workflow_policy \<Rightarrow> (model_id \<times> string option) list \<Rightarrow> 's lowered_model \<Rightarrow> dependency \<Rightarrow> diagnostic option" where
  "workflow_crossing policy workflows l d =
     (case (sm_workflow (lw_model l), d) of
        (Some current, DepModel i) \<Rightarrow>
          (case map_of workflows i of
             Some (Some other) \<Rightarrow>
               (let message = ''model '' @ ticked (logical_name (lw_id l)) @ '' in workflow '' @ ticked current @
                      '' depends on '' @ ticked (logical_name i) @ '' in workflow '' @ ticked other;
                    path = (case lw_path l of Some p \<Rightarrow> p | None \<Rightarrow> [])
                in if other = current then None
                   else (case policy of
                           PolicyAllow \<Rightarrow> None
                         | PolicyWarn \<Rightarrow> Some (with_path path (diag_warning DEPENDENCIES_CROSS_WORKFLOW message))
                         | PolicyError \<Rightarrow> Some (with_path path (diag_error DEPENDENCIES_CROSS_WORKFLOW message))))
           | _ \<Rightarrow> None)
      | _ \<Rightarrow> None)"

definition dependency_diagnostics ::
    "('s, 'q) sql_tools \<Rightarrow> resolver \<Rightarrow> cross_workflow_policy \<Rightarrow> (model_id \<times> string option) list
       \<Rightarrow> 's lowered_model \<Rightarrow> diagnostic list" where
  "dependency_diagnostics t r policy workflows l =
     ambiguities (lw_path l) (resolve r (entry_for l)) (tl_relations t (lw_statements l)) @
     List.map_filter (workflow_crossing policy workflows l) (model_dependency_list t r l)"

definition dependency_table ::
    "('s, 'q) sql_tools \<Rightarrow> resolver \<Rightarrow> 's lowered_model list \<Rightarrow> (model_id \<times> dependency list) list" where
  "dependency_table t r unique = fold (\<lambda>l. bm_insert (lw_id l) (model_dependency_list t r l)) unique []"


section \<open>Ephemeral models\<close>

record ('s, 'q) expansion_env =
  ev_tools :: "('s, 'q) sql_tools"
  ev_lowered :: "(model_id \<times> 's lowered_model) list"
  ev_resolver :: resolver
  ev_targets :: "(model_id \<times> relation) list"
  ev_dependencies :: "(model_id \<times> dependency list) list"
  ev_catalog :: "string option"
  ev_schema :: "string option"

text \<open>The memo, the models being expanded, and the diagnostics of the compilation so far.\<close>

record 'q expansion =
  xs_memo :: "(model_id \<times> 'q option) list"
  xs_visiting :: "model_id list"
  xs_diagnostics :: "diagnostic list"

definition is_ephemeral :: "('s, 'q) expansion_env \<Rightarrow> model_id \<Rightarrow> bool" where
  "is_ephemeral ev i =
     (case map_of (ev_lowered ev) i of
        Some l \<Rightarrow> cfg_materialization (sm_config (lw_model l)) = Ephemeral
      | None \<Rightarrow> False)"

definition ephemeral_dependencies :: "('s, 'q) expansion_env \<Rightarrow> dependency list \<Rightarrow> model_id list" where
  "ephemeral_dependencies ev ds = filter (is_ephemeral ev) (dep_models ds)"

definition nested_ephemerals :: "('s, 'q) expansion_env \<Rightarrow> model_id \<Rightarrow> model_id list" where
  "nested_ephemerals ev i =
     (case map_of (ev_dependencies ev) i of Some ds \<Rightarrow> ephemeral_dependencies ev ds | None \<Rightarrow> [])"

definition rewrite_with ::
    "('s, 'q) expansion_env \<Rightarrow> registry_entry option \<Rightarrow> (model_id \<times> 'q) list \<Rightarrow> 's list \<Rightarrow> 's list \<times> string" where
  "rewrite_with ev current ephemerals statements =
     tl_rewrite (ev_tools ev)
       \<lparr>rw_current = current, rw_resolver = ev_resolver ev, rw_targets = ev_targets ev,
        rw_ephemerals = ephemerals, rw_catalog = ev_catalog ev, rw_schema = ev_schema ev\<rparr> statements"

definition inlined_query :: "('s, 'q) expansion_env \<Rightarrow> 's list \<Rightarrow> 'q option" where
  "inlined_query ev statements = (case statements of [s] \<Rightarrow> tl_query (ev_tools ev) s | _ \<Rightarrow> None)"

definition MODEL_EPHEMERAL :: string where
  "MODEL_EPHEMERAL = ''MODEL001''"

definition not_inlinable :: "'s lowered_model \<Rightarrow> diagnostic" where
  "not_inlinable l =
     with_labels (case lw_path l of Some p \<Rightarrow> [p] | None \<Rightarrow> [])
       (diag_error MODEL_EPHEMERAL
         (''ephemeral model '' @ ticked (logical_name (lw_id l)) @ '' must be a single query to be inlined''))"

text \<open>What is left to do once the nested models are expanded.\<close>

definition finish_expansion ::
    "('s, 'q) expansion_env \<Rightarrow> 's lowered_model \<Rightarrow> (model_id \<times> 'q) list \<Rightarrow> 'q expansion \<Rightarrow> 'q option \<times> 'q expansion" where
  "finish_expansion ev l ephemerals s =
     (let statements = fst (rewrite_with ev (Some (entry_for l)) ephemerals (lw_statements l));
          expanded = inlined_query ev statements
      in (expanded,
          \<lparr>xs_memo = bm_insert (lw_id l) expanded (xs_memo s), xs_visiting = remove1 (lw_id l) (xs_visiting s),
           xs_diagnostics = xs_diagnostics s @ (if expanded = None then [not_inlinable l] else [])\<rparr>))"

text \<open>
  The recursion follows dependencies between ephemeral models; the visiting set stops it on a cycle, so
  one step of fuel per model is enough.
\<close>

fun expand :: "('s, 'q) expansion_env \<Rightarrow> nat \<Rightarrow> model_id \<Rightarrow> 'q expansion \<Rightarrow> ('q option \<times> 'q expansion) option"
  and expand_list :: "('s, 'q) expansion_env \<Rightarrow> nat \<Rightarrow> model_id list \<Rightarrow> (model_id \<times> 'q) list \<Rightarrow> 'q expansion
    \<Rightarrow> ((model_id \<times> 'q) list \<times> 'q expansion) option" where
  "expand ev 0 i s = None"
| "expand ev (Suc n) i s =
     (case map_of (xs_memo s) i of
        Some cached \<Rightarrow> Some (cached, s)
      | None \<Rightarrow>
          (case map_of (ev_lowered ev) i of
             None \<Rightarrow> Some (None, s)
           | Some l \<Rightarrow>
               if i \<in> set (xs_visiting s) then Some (None, s)
               else (case expand_list ev n (nested_ephemerals ev i) []
                            (s\<lparr>xs_visiting := insort_insert i (xs_visiting s)\<rparr>) of
                       None \<Rightarrow> None
                     | Some (ephemerals, s') \<Rightarrow> Some (finish_expansion ev l ephemerals s'))))"
| "expand_list ev n [] ephemerals s = Some (ephemerals, s)"
| "expand_list ev n (i # is) ephemerals s =
     (case expand ev n i s of
        None \<Rightarrow> None
      | Some (query, s') \<Rightarrow>
          expand_list ev n is (case query of Some q \<Rightarrow> bm_insert i q ephemerals | None \<Rightarrow> ephemerals) s')"

definition expansion_fuel :: "('s, 'q) expansion_env \<Rightarrow> nat" where
  "expansion_fuel ev = Suc (length (ev_lowered ev))"

section \<open>Models and tests\<close>

definition compile_model ::
    "('s, 'q) expansion_env \<Rightarrow> 's lowered_model \<Rightarrow> 'q expansion \<Rightarrow> (compiled_model \<times> 'q expansion) option" where
  "compile_model ev l s =
     do {
       ds \<leftarrow> map_of (ev_dependencies ev) (lw_id l);
       target \<leftarrow> map_of (ev_targets ev) (lw_id l);
       (ephemerals, s') \<leftarrow> expand_list ev (expansion_fuel ev) (ephemeral_dependencies ev ds) [] s;
       let m = lw_model l;
       Some
         (\<lparr>cm_id = sm_id m, cm_namespace = sm_namespace m, cm_path = sm_path m, cm_origin = sm_origin m,
           cm_sql = sm_sql m, cm_workflow = sm_workflow m, cm_config = sm_config m, cm_target = target,
           cm_compiled_sql = snd (rewrite_with ev (Some (entry_for l)) ephemerals (lw_statements l)),
           cm_schema = empty_schema, cm_limitations = [], cm_assertions = [], cm_contract = sm_contract m,
           cm_version = no_version, cm_version_detail = \<lparr>vd_dependencies = [], vd_sources = []\<rparr>,
           cm_pinned_id = lw_pinned_id l, cm_dependencies = ds\<rparr>, s')
     }"

fun compile_models ::
    "('s, 'q) expansion_env \<Rightarrow> 's lowered_model list \<Rightarrow> 'q expansion \<Rightarrow> (compiled_model list \<times> 'q expansion) option" where
  "compile_models ev [] s = Some ([], s)"
| "compile_models ev (l # ls) s =
     do {
       (m, s') \<leftarrow> compile_model ev l s;
       (ms, s'') \<leftarrow> compile_models ev ls s';
       Some (m # ms, s'')
     }"

definition compile_test ::
    "('s, 'q) expansion_env \<Rightarrow> semantic_test \<Rightarrow> 'q expansion \<Rightarrow> (compiled_test option \<times> 'q expansion) option" where
  "compile_test ev test s =
     (let path = path_display (st_origin test)
      in case tl_parse (ev_tools ev) (st_sql test) of
           Inl error \<Rightarrow>
             Some (None, s\<lparr>xs_diagnostics := xs_diagnostics s @ [parse_diagnostic error path ''could not parse test SQL'']\<rparr>)
         | Inr statements \<Rightarrow>
             (let names = tl_relations (ev_tools ev) statements;
                  resolved = resolve_global (ev_resolver ev);
                  found = List.map_filter (\<lambda>n. resolution_dependency (resolved n)) names;
                  targets = btree_set (dep_models found)
              in case expand_list ev (expansion_fuel ev) (filter (is_ephemeral ev) targets) []
                        (s\<lparr>xs_diagnostics := xs_diagnostics s @ ambiguities path resolved names\<rparr>) of
                   None \<Rightarrow> None
                 | Some (ephemerals, s') \<Rightarrow>
                     Some (Some \<lparr>ct_id = st_id test, ct_origin = st_origin test, ct_sql = st_sql test,
                       ct_compiled_sql = snd (rewrite_with ev None ephemerals statements), ct_targets = targets,
                       ct_sources = btree_set (dep_sources found), ct_generated = False\<rparr>, s')))"

fun compile_test_list ::
    "('s, 'q) expansion_env \<Rightarrow> semantic_test list \<Rightarrow> 'q expansion \<Rightarrow> (compiled_test list \<times> 'q expansion) option" where
  "compile_test_list ev [] s = Some ([], s)"
| "compile_test_list ev (t # ts) s =
     do {
       (compiled, s') \<leftarrow> compile_test ev t s;
       (rest, s'') \<leftarrow> compile_test_list ev ts s';
       Some ((case compiled of Some c \<Rightarrow> c # rest | None \<Rightarrow> rest), s'')
     }"

definition compile_tests ::
    "('s, 'q) expansion_env \<Rightarrow> semantic_test list \<Rightarrow> 'q expansion \<Rightarrow> (compiled_test list \<times> 'q expansion) option" where
  "compile_tests ev ts s = map_option (\<lambda>(tests, s'). (sort_key ct_id tests, s')) (compile_test_list ev ts s)"

definition compile_seed :: "workspace_defaults \<Rightarrow> semantic_seed \<Rightarrow> compiled_seed" where
  "compile_seed defaults seed =
     \<lparr>cs_name = ss_name seed, cs_path = ss_path seed,
      cs_schema = (case ss_schema seed of Some s \<Rightarrow> Some s | None \<Rightarrow> wd_schema defaults),
      cs_content_hash = ss_content_hash seed, cs_columns = ss_columns seed\<rparr>"

section \<open>Assertions and contracts\<close>

definition assertions_for :: "semantic_model \<Rightarrow> assertion list" where
  "assertions_for m =
     (let keys = d_keys (sm_directives m)
      in fold (\<lambda>c as. if ANotNull c \<in> set as then as else as @ [ANotNull c]) (d_not_null (sm_directives m))
           (map ANotNull keys @ (if keys = [] then [] else [AUnique keys])))"

definition contract_column_problems :: "model_schema \<Rightarrow> column_contract \<Rightarrow> string list" where
  "contract_column_problems schema c =
     (case schema_column schema (cc_name c) of
        None \<Rightarrow> if ms_known schema then [''contract column '' @ ticked (cc_name c) @ '' is missing''] else []
      | Some output \<Rightarrow>
          (case cc_type c of
             Some expected \<Rightarrow>
               if is_known (oc_type output) \<and> oc_type output \<noteq> expected
               then [''column '' @ ticked (cc_name c) @ '' has type '' @ data_type_text (oc_type output) @
                     '' but contract expects '' @ data_type_text expected] else []
           | None \<Rightarrow> []) @
          (if cc_nullable c = Some False \<and> oc_nullability output = Nullable
           then [''column '' @ ticked (cc_name c) @ '' is nullable but the contract requires not null''] else []))"

definition validate_contract :: "model_id \<Rightarrow> model_schema \<Rightarrow> model_contract \<Rightarrow> diagnostic list" where
  "validate_contract i schema contract =
     (let name = logical_name i;
          problem = (if mc_enforced contract then diag_error TYPE_CONTRACT else diag_warning TYPE_CONTRACT)
      in (if ms_known schema then []
          else [with_path name (diag_warning TYPE_CONTRACT
            ''contract could not be fully validated because the schema is unknown'')]) @
         map (\<lambda>message. with_path name (problem message))
           (concat (map (contract_column_problems schema) (mc_columns contract))))"

definition assertion_slug :: "assertion \<Rightarrow> string" where
  "assertion_slug a =
     (case a of ANotNull column \<Rightarrow> ''not_null_'' @ column | AUnique columns \<Rightarrow> ''unique_'' @ join ''_'' columns)"

definition assertion_sql :: "assertion \<Rightarrow> string \<Rightarrow> string" where
  "assertion_sql a subject =
     (case a of
        ANotNull column \<Rightarrow> ''select * from '' @ subject @ '' where '' @ quote_identifier column @ '' is null''
      | AUnique columns \<Rightarrow>
          (let quoted = join '', '' (map quote_identifier columns)
           in ''select '' @ quoted @ '', count(*) as __phlo_count from '' @ subject @ '' group by '' @ quoted @
              '' having count(*) > 1''))"

definition generate_tests :: "model_id \<Rightarrow> assertion list \<Rightarrow> string \<Rightarrow> compiled_test list" where
  "generate_tests i as subject =
     map (\<lambda>a. \<lparr>ct_id = TestId (logical_name i @ ''.generated.'' @ assertion_slug a),
        ct_origin = \<lparr>mo_frontend = InMemory, mo_path = None\<rparr>, ct_sql = assertion_sql a subject,
        ct_compiled_sql = assertion_sql a subject, ct_targets = [i], ct_sources = [], ct_generated = True\<rparr>) as"

section \<open>Versions\<close>

definition debug_strings :: "(string \<Rightarrow> string) \<Rightarrow> string list \<Rightarrow> string" where
  "debug_strings debug xs = ''['' @ join '', '' (map debug xs) @ '']''"

fun strategy_debug :: "(string \<Rightarrow> string) \<Rightarrow> incremental_strategy \<Rightarrow> string" where
  "strategy_debug debug Append = ''Append''"
| "strategy_debug debug (Key columns) = ''Key { columns: '' @ debug_strings debug columns @ '' }''"
| "strategy_debug debug (Partition columns) = ''Partition { columns: '' @ debug_strings debug columns @ '' }''"
| "strategy_debug debug (TimeWindow column overlap) =
     ''TimeWindow { column: '' @ debug column @ '', overlap_seconds: '' @
     option_debug (\<lambda>n. dec (unat n)) overlap @ '' }''"

definition version_config :: "(string \<Rightarrow> string) \<Rightarrow> model_config \<Rightarrow> string" where
  "version_config debug c =
     ''materialization='' @ materialization_str (cfg_materialization c) @ '';schema='' @
     (case cfg_schema c of Some s \<Rightarrow> s | None \<Rightarrow> []) @ '';incremental='' @
     option_debug (strategy_debug debug) (cfg_incremental c)"

definition contract_column_text :: "column_contract \<Rightarrow> string" where
  "contract_column_text c =
     cc_name c @ '':'' @ option_debug data_type_debug (cc_type c) @ '':'' @ option_debug bool_text (cc_nullable c)"

definition contract_text :: "model_contract \<Rightarrow> string" where
  "contract_text c =
     ''enforced='' @ bool_text (mc_enforced c) @ '';columns='' @
     join '','' (map contract_column_text (mc_columns c)) @ '';renames='' @
     join '','' (map (\<lambda>(new, old). new @ ''='' @ old) (mc_renames c))"

definition version_contract :: "compiled_model \<Rightarrow> string" where
  "version_contract m =
     (case cm_contract m of Some c \<Rightarrow> contract_text c | None \<Rightarrow> []) @ '';assertions='' @
     join '','' (map assertion_describe (cm_assertions m))"

definition version_inputs_for ::
    "('s, 'q) sql_tools \<Rightarrow> 's lowered_model \<Rightarrow> compiled_model \<Rightarrow> source_state_provider
       \<Rightarrow> (model_id \<times> model_version) list \<Rightarrow> version_inputs" where
  "version_inputs_for t l m states versions =
     \<lparr>vi_canonical_sql = join ('';'' @ [CHR 10]) (map (tl_statement_text t) (lw_statements l)),
      vi_config = version_config (tl_debug t) (cm_config m),
      vi_contract = version_contract m,
      vi_dependencies = map (\<lambda>d. (logical_name d,
        case map_of versions d of Some v \<Rightarrow> mv_hash v | None \<Rightarrow> [])) (model_dependencies m),
      vi_sources = map (\<lambda>s. (source_name s, case states s of Some v \<Rightarrow> v | None \<Rightarrow> [])) (source_dependencies m),
      vi_target = rel_schema (cm_target m) @ ''.'' @ rel_table (cm_target m) @ ''|'' @
        materialization_str (cfg_materialization (cm_config m))\<rparr>"


section \<open>Analysis\<close>

text \<open>
  Models are analysed in dependency order: each sees the schemas and the versions of those before it. The
  state is the models of the compilation with the positions of the index, the expansion with the
  diagnostics, and what the loop collects.
\<close>

record 'q analysis_state =
  al_models :: "compiled_model list"
  al_expansion :: "'q expansion"
  al_schemas :: "(model_id \<times> model_schema) list"
  al_versions :: "(model_id \<times> model_version) list"
  al_generated :: "compiled_test list"

record compiler =
  co_schemas :: schema_provider
  co_states :: source_state_provider
  co_sha :: "string \<Rightarrow> string"

text \<open>What a generated test reads from: the target, or the expansion of an ephemeral model.\<close>

definition test_subject ::
    "('s, 'q) expansion_env \<Rightarrow> model_id \<Rightarrow> compiled_model option \<Rightarrow> 'q expansion \<Rightarrow> (string option \<times> 'q expansion) option" where
  "test_subject ev i m s =
     (case m of
        Some c \<Rightarrow>
          if cfg_materialization (cm_config c) = Ephemeral
          then (case expand ev (expansion_fuel ev) i s of
                  None \<Rightarrow> None
                | Some (None, s') \<Rightarrow> Some (None, s')
                | Some (Some q, s') \<Rightarrow>
                    map_option (\<lambda>name.
                      (Some (''('' @ tl_query_text (ev_tools ev) q @ '') AS '' @ quote_identifier name), s'))
                      (last_segment i))
          else Some (Some (relation_sql (cm_target c)), s)
      | None \<Rightarrow> Some (Some [], s))"

definition filled_in ::
    "analysis \<Rightarrow> assertion list \<Rightarrow> model_version \<Rightarrow> version_detail \<Rightarrow> compiled_model \<Rightarrow> compiled_model" where
  "filled_in an as version detail m =
     m\<lparr>cm_schema := an_schema an, cm_limitations := an_limitations an, cm_assertions := as,
       cm_version := version, cm_version_detail := detail\<rparr>"

definition add_diagnostics :: "diagnostic list \<Rightarrow> 'q expansion \<Rightarrow> 'q expansion" where
  "add_diagnostics ds s = s\<lparr>xs_diagnostics := xs_diagnostics s @ ds\<rparr>"

definition analyze_model ::
    "('s, 'q) expansion_env \<Rightarrow> compiler \<Rightarrow> (model_id \<times> nat) list \<Rightarrow> model_id \<Rightarrow> 'q analysis_state
       \<Rightarrow> 'q analysis_state option" where
  "analyze_model ev co index i s =
     (case map_of (ev_lowered ev) i of
        None \<Rightarrow> Some s
      | Some l \<Rightarrow>
          (let an = tl_analyze (ev_tools ev) (ev_resolver ev) (al_schemas s) (co_schemas co) (entry_for l)
                 (lw_statements l) i;
               as = assertions_for (lw_model l);
               broken = (case sm_contract (lw_model l) of
                           Some contract \<Rightarrow> validate_contract i (an_schema an) contract | None \<Rightarrow> []);
               m = map_option ((!) (al_models s)) (map_of index i);
               inputs = (case m of
                           Some c \<Rightarrow> version_inputs_for (ev_tools ev) l c (co_states co) (al_versions s)
                         | None \<Rightarrow> no_inputs);
               version = model_version (co_sha co) inputs
           in case test_subject ev i m (add_diagnostics broken (al_expansion s)) of
                None \<Rightarrow> None
              | Some (subject, x) \<Rightarrow>
                  Some \<lparr>al_models =
                          (case map_of index i of
                             Some p \<Rightarrow> (al_models s)[p := filled_in an as version (version_detail_of inputs) (al_models s ! p)]
                           | None \<Rightarrow> al_models s),
                        al_expansion = add_diagnostics (an_diagnostics an) x,
                        al_schemas = bm_insert i (an_schema an) (al_schemas s),
                        al_versions = bm_insert i version (al_versions s),
                        al_generated = al_generated s @
                          (case subject of Some sql \<Rightarrow> generate_tests i as sql | None \<Rightarrow> [])\<rparr>))"

fun analyze_models ::
    "('s, 'q) expansion_env \<Rightarrow> compiler \<Rightarrow> (model_id \<times> nat) list \<Rightarrow> model_id list \<Rightarrow> 'q analysis_state
       \<Rightarrow> 'q analysis_state option" where
  "analyze_models ev co index [] s = Some s"
| "analyze_models ev co index (i # is) s =
     (case analyze_model ev co index i s of None \<Rightarrow> None | Some s' \<Rightarrow> analyze_models ev co index is s')"

definition cycle_diagnostic :: "model_id list \<Rightarrow> diagnostic" where
  "cycle_diagnostic cycle =
     with_help ''break the cycle by removing one of the references''
       (with_labels [join '' -> '' (map logical_name cycle)]
         (diag_error GRAPH_CYCLE ''transformation cycle detected''))"

text \<open>From a compilation with resolved dependencies to the finished one.\<close>

definition analyze_compilation ::
    "('s, 'q) expansion_env \<Rightarrow> compiler \<Rightarrow> 'q expansion \<Rightarrow> compilation \<Rightarrow> compilation option" where
  "analyze_compilation ev co x c =
     (let x = add_diagnostics (case graph_cycle (cp_graph c) of Some cycle \<Rightarrow> [cycle_diagnostic cycle] | None \<Rightarrow> []) x
      in case topological_order (cp_graph c) of
           None \<Rightarrow> Some (c\<lparr>cp_diagnostics := xs_diagnostics x\<rparr>)
         | Some order \<Rightarrow>
             (case analyze_models ev co (cp_index c) order
                     \<lparr>al_models = cp_models c, al_expansion = x, al_schemas = [], al_versions = [], al_generated = []\<rparr> of
                None \<Rightarrow> None
              | Some s \<Rightarrow>
                  Some (add_generated_tests (al_generated s)
                    (c\<lparr>cp_models := al_models s, cp_diagnostics := xs_diagnostics (al_expansion s)\<rparr>))))"

section \<open>The compiler\<close>

text \<open>What the phases up to the expansion make of a project.\<close>

definition unique_models :: "('s, 'q) sql_tools \<Rightarrow> semantic_project \<Rightarrow> 's lowered_model list" where
  "unique_models t p = du_unique (scan_duplicates (fst (lower_models t (pr_models p))))"

definition project_env :: "('s, 'q) sql_tools \<Rightarrow> semantic_project \<Rightarrow> ('s, 'q) expansion_env" where
  "project_env t p =
     (let unique = unique_models t p; r = resolver_new (map entry_for unique)
      in \<lparr>ev_tools = t, ev_lowered = map (\<lambda>l. (lw_id l, l)) unique, ev_resolver = r,
          ev_targets = physical_targets (pr_defaults p) unique, ev_dependencies = dependency_table t r unique,
          ev_catalog = wd_catalog (pr_defaults p), ev_schema = wd_schema (pr_defaults p)\<rparr>)"

definition project_diagnostics :: "('s, 'q) sql_tools \<Rightarrow> semantic_project \<Rightarrow> diagnostic list" where
  "project_diagnostics t p =
     (let (lowered, ds) = lower_models t (pr_models p); ev = project_env t p; unique = unique_models t p;
          workflows = fold (\<lambda>l. bm_insert (lw_id l) (sm_workflow (lw_model l))) unique []
      in pr_diagnostics p @ ds @ map duplicate_diagnostic (du_groups (scan_duplicates lowered)) @
         target_collisions (ev_targets ev) unique @
         concat (map (dependency_diagnostics t (ev_resolver ev) (pr_cross_workflow p) workflows) unique))"

definition compile_with_options ::
    "('s, 'q) sql_tools \<Rightarrow> compiler \<Rightarrow> semantic_project \<Rightarrow> compilation option" where
  "compile_with_options t co p =
     (let ev = project_env t p; co = co\<lparr>co_schemas := seed_schemas (co_schemas co) (pr_seeds p)\<rparr>
      in do {
           (models, x) \<leftarrow> compile_models ev (unique_models t p)
             \<lparr>xs_memo = [], xs_visiting = [], xs_diagnostics = project_diagnostics t p\<rparr>;
           (tests, x') \<leftarrow> compile_tests ev (pr_tests p) x;
           c \<leftarrow> compilation_new models tests (map (compile_seed (pr_defaults p)) (pr_seeds p)) (pr_defaults p)
             (xs_diagnostics x');
           analyze_compilation ev co x' c
         })"

definition no_source_states :: source_state_provider where
  "no_source_states s = None"

definition compile_with_provider ::
    "('s, 'q) sql_tools \<Rightarrow> (string \<Rightarrow> string) \<Rightarrow> schema_provider \<Rightarrow> semantic_project \<Rightarrow> compilation option" where
  "compile_with_provider t sha schemas =
     compile_with_options t \<lparr>co_schemas = schemas, co_states = no_source_states, co_sha = sha\<rparr>"

definition compile_project ::
    "('s, 'q) sql_tools \<Rightarrow> (string \<Rightarrow> string) \<Rightarrow> semantic_project \<Rightarrow> compilation option" where
  "compile_project t sha = compile_with_provider t sha no_schemas"

end
