(* ===== verification/CompileFacts.thy ===== *)
theory CompileFacts
  imports Compile StoreFacts
begin

text \<open>
  What the compiler guarantees: every phase of it on its own, then the compilation it returns.
\<close>

section \<open>Duplicates\<close>

lemma first_per_snoc:
  "first_per key seen (xs @ [x]) =
     first_per key seen xs @ (if key x \<in> seen \<union> key ` set xs then [] else [x])"
  by (induction xs arbitrary: seen) auto

lemma first_per_keys: "key ` set (first_per key {} xs) = key ` set xs"
  using first_per_covers [of _ xs key "{}"] first_per_subset [of _ key "{}" xs] by blast

lemma first_per_keeps_sorted: "sorted (map key xs) \<Longrightarrow> sorted (map key (first_per key seen xs))"
  by (induction xs arbitrary: seen) (auto dest: first_per_subset)

definition scan_inv :: "'s lowered_model list \<Rightarrow> 's duplicate_scan \<Rightarrow> bool" where
  "scan_inv ls s \<longleftrightarrow>
     du_unique s = first_per lw_id {} ls \<and> dom (du_seen s) = lw_id ` set ls \<and>
     (\<forall>i. du_group s i \<noteq> None \<longrightarrow> du_groups s \<noteq> []) \<and> (du_groups s = [] \<longleftrightarrow> distinct (map lw_id ls))"

lemma note_model_inv:
  assumes "scan_inv ls s"
  shows "scan_inv (ls @ [l]) (note_model l s)"
proof (cases "du_seen s (lw_id l)")
  case None
  then have "lw_id l \<notin> lw_id ` set ls" using assms by (auto simp: scan_inv_def)
  with None assms show ?thesis
    by (auto simp: scan_inv_def note_model_def first_per_snoc)
next
  case (Some first)
  then have "lw_id l \<in> lw_id ` set ls" using assms by (auto simp: scan_inv_def)
  with Some assms show ?thesis
    by (auto simp: scan_inv_def note_model_def first_per_snoc split: option.split)
qed

lemma scan_duplicates_inv: "scan_inv ls (scan_duplicates ls)"
proof (induction ls rule: rev_induct)
  case Nil
  then show ?case by (simp add: scan_inv_def scan_duplicates_def)
next
  case (snoc l ls)
  then show ?case using note_model_inv by (simp add: scan_duplicates_def)
qed

lemma map_sort_key: "map f (sort_key f xs) = sort (map f xs)"
proof (rule properties_for_sort [symmetric])
  show "mset (map f (sort_key f xs)) = mset (map f xs)" by (metis mset_map mset_sort)
qed simp

lemma lowered_ids:
  "map lw_id (fst (lower_models t ms)) = sort (map sm_id ms)"
proof -
  have "lw_id (fst (lower_model t m)) = sm_id m" for m
    by (simp add: lower_model_def Let_def split: prod.split)
  then have "map lw_id (map fst (map (lower_model t) ms)) = map sm_id ms" by (simp add: comp_def)
  then show ?thesis by (simp only: lower_models_def Let_def fst_conv map_sort_key)
qed


section \<open>Expansion\<close>

text \<open>A step leaves the visiting set as it found it and only adds diagnostics.\<close>

definition continues :: "'q expansion \<Rightarrow> 'q expansion \<Rightarrow> bool" where
  "continues s s' \<longleftrightarrow>
     xs_visiting s' = xs_visiting s \<and> (\<exists>ds. xs_diagnostics s' = xs_diagnostics s @ ds)"

lemma continues_refl [simp, intro]: "continues s s"
  by (simp add: continues_def)

lemma continues_trans: "continues s t \<Longrightarrow> continues t u \<Longrightarrow> continues s u"
  by (auto simp: continues_def)

lemma continues_add [simp, intro]: "continues s (add_diagnostics ds s)"
  by (simp add: continues_def add_diagnostics_def)

definition env_ok :: "('s, 'q) expansion_env \<Rightarrow> bool" where
  "env_ok ev \<longleftrightarrow> (\<forall>(i, l) \<in> set (ev_lowered ev). lw_id l = i \<and> mid_path i \<noteq> [])"

lemma env_okD: "env_ok ev \<Longrightarrow> map_of (ev_lowered ev) i = Some l \<Longrightarrow> lw_id l = i \<and> mid_path i \<noteq> []"
  by (auto simp: env_ok_def dest: map_of_SomeD)

lemma remove_visited: "i \<notin> set vs \<Longrightarrow> remove1 i (insort_insert i vs) = vs"
  by (simp add: insort_insert_insort)

definition enters :: "('s, 'q) expansion_env \<Rightarrow> model_id \<Rightarrow> 'q expansion \<Rightarrow> 's lowered_model \<Rightarrow> bool" where
  "enters ev i s l \<longleftrightarrow>
     map_of (xs_memo s) i = None \<and> map_of (ev_lowered ev) i = Some l \<and> i \<notin> set (xs_visiting s)"

lemma expand_not_entered:
  "\<not> (\<exists>l. enters ev i s l) \<Longrightarrow> \<exists>q. expand ev (Suc n) i s = Some (q, s)"
  by (cases "map_of (ev_lowered ev) i"; cases "map_of (xs_memo s) i"; cases "i \<in> set (xs_visiting s)")
    (auto simp: enters_def)

lemma expand_entered:
  "enters ev i s l \<Longrightarrow> expand ev (Suc n) i s =
     map_option (\<lambda>(es, s'). finish_expansion ev l es s')
       (expand_list ev n (nested_ephemerals ev i) [] (s\<lparr>xs_visiting := insort_insert i (xs_visiting s)\<rparr>))"
  by (auto simp: enters_def split: option.split)

lemma expand_list_Cons:
  "expand_list ev n (i # is) es s = Some (es', s') \<Longrightarrow>
     \<exists>q s1 es1. expand ev n i s = Some (q, s1) \<and> expand_list ev n is es1 s1 = Some (es', s')"
  by (auto split: option.splits)

lemma finish_continues:
  assumes "continues (s\<lparr>xs_visiting := insort_insert i (xs_visiting s)\<rparr>) s1" "lw_id l = i" "i \<notin> set (xs_visiting s)"
  shows "continues s (snd (finish_expansion ev l es s1))"
  using assms by (auto simp: finish_expansion_def Let_def continues_def remove_visited)

lemma expand_continues_both:
  assumes "env_ok ev"
  shows "(\<forall>i s q s'. expand ev n i s = Some (q, s') \<longrightarrow> continues s s') \<and>
    (\<forall>is es s es' s'. expand_list ev n is es s = Some (es', s') \<longrightarrow> continues s s')"
proof (induction n)
  case 0
  have "expand_list ev 0 is es s = Some (es', s') \<Longrightarrow> continues s s'" for "is" es s es' s'
    by (cases "is") simp_all
  then show ?case by simp
next
  case (Suc n)
  have one: "continues s s'" if e: "expand ev (Suc n) i s = Some (q, s')" for i s q s'
  proof (cases "\<exists>l. enters ev i s l")
    case False
    then obtain q' where "expand ev (Suc n) i s = Some (q', s)" using expand_not_entered by blast
    with e show ?thesis by simp
  next
    case True
    then obtain l where l: "enters ev i s l" by blast
    let ?s = "s\<lparr>xs_visiting := insort_insert i (xs_visiting s)\<rparr>"
    obtain es s1 where x: "expand_list ev n (nested_ephemerals ev i) [] ?s = Some (es, s1)"
      and r: "(q, s') = finish_expansion ev l es s1"
      using e expand_entered [OF l, of n] by (auto simp del: expand.simps)
    have "continues ?s s1" using Suc x by blast
    then have "continues s (snd (finish_expansion ev l es s1))"
      using l env_okD [OF assms] by (intro finish_continues) (auto simp: enters_def)
    then show ?thesis using r by (metis snd_conv)
  qed
  have "continues s s'" if "expand_list ev (Suc n) is es s = Some (es', s')" for "is" es s es' s'
    using that
  proof (induction "is" arbitrary: es s)
    case Nil
    then show ?case by simp
  next
    case (Cons i "is")
    from expand_list_Cons [OF Cons.prems] obtain q s1 es1 where
        "expand ev (Suc n) i s = Some (q, s1)" "expand_list ev (Suc n) is es1 s1 = Some (es', s')"
      by blast
    then show ?case using one Cons.IH continues_trans by blast
  qed
  with one show ?case by blast
qed

lemma expand_continues:
  "env_ok ev \<Longrightarrow> expand ev n i s = Some (q, s') \<Longrightarrow> continues s s'"
  "env_ok ev \<Longrightarrow> expand_list ev n is es s = Some (es', s') \<Longrightarrow> continues s s'"
  using expand_continues_both by blast+

text \<open>The models that may still be entered bound the depth.\<close>

definition may_enter :: "('s, 'q) expansion_env \<Rightarrow> 'q expansion \<Rightarrow> model_id set" where
  "may_enter ev s = fst ` set (ev_lowered ev) - set (xs_visiting s)"

lemma expand_total_both:
  assumes "env_ok ev"
  shows "(\<forall>i s. card (may_enter ev s) < n \<longrightarrow> expand ev n i s \<noteq> None) \<and>
    (\<forall>is es s. card (may_enter ev s) < n \<longrightarrow> expand_list ev n is es s \<noteq> None)"
proof (induction n)
  case 0
  then show ?case by simp
next
  case (Suc n)
  have one: "expand ev (Suc n) i s \<noteq> None" if c: "card (may_enter ev s) < Suc n" for i s
  proof (cases "\<exists>l. enters ev i s l")
    case False
    then show ?thesis using expand_not_entered by (metis option.distinct(1))
  next
    case True
    then obtain l where l: "enters ev i s l" by blast
    let ?s = "s\<lparr>xs_visiting := insort_insert i (xs_visiting s)\<rparr>"
    have i: "i \<in> may_enter ev s" using l by (force simp: enters_def may_enter_def dest: map_of_SomeD)
    have "may_enter ev ?s = may_enter ev s - {i}" by (auto simp: may_enter_def set_insort_insert)
    moreover have "finite (may_enter ev s)" by (simp add: may_enter_def)
    ultimately have "card (may_enter ev ?s) < card (may_enter ev s)" using i by (metis card_Diff1_less)
    then have "expand_list ev n (nested_ephemerals ev i) [] ?s \<noteq> None" using c Suc by simp
    then show ?thesis unfolding expand_entered [OF l] by simp
  qed
  have "expand_list ev (Suc n) is es s \<noteq> None" if "card (may_enter ev s) < Suc n" for "is" es s
    using that
  proof (induction "is" arbitrary: es s)
    case Nil
    then show ?case by simp
  next
    case (Cons i "is")
    obtain q s1 where e: "expand ev (Suc n) i s = Some (q, s1)" using one [OF Cons.prems] by (metis not_None_eq surj_pair)
    have "may_enter ev s1 = may_enter ev s"
      using expand_continues(1) [OF assms e] by (simp add: continues_def may_enter_def)
    then have "expand_list ev (Suc n) is es1 s1 \<noteq> None" for es1 using Cons by simp
    then show ?case using e by (simp del: expand.simps)
  qed
  with one show ?case by blast
qed

lemma fuel_enough: "card (may_enter ev s) < expansion_fuel ev"
proof -
  have "card (may_enter ev s) \<le> card (fst ` set (ev_lowered ev))"
    unfolding may_enter_def by (simp add: card_mono)
  also have "\<dots> \<le> length (ev_lowered ev)" by (metis card_image_le card_length le_trans List.finite_set)
  finally show ?thesis by (simp add: expansion_fuel_def)
qed

lemma expansion_ends:
  assumes "env_ok ev"
  shows "\<exists>q s'. expand ev (expansion_fuel ev) i s = Some (q, s') \<and> continues s s'"
    and "\<exists>es' s'. expand_list ev (expansion_fuel ev) is es s = Some (es', s') \<and> continues s s'"
proof -
  obtain r where r: "expand ev (expansion_fuel ev) i s = Some r"
    using expand_total_both [OF assms, of "expansion_fuel ev"] fuel_enough [of ev s] by (metis not_None_eq)
  then show "\<exists>q s'. expand ev (expansion_fuel ev) i s = Some (q, s') \<and> continues s s'"
    using expand_continues(1) [OF assms] by (metis surj_pair)
  obtain rs where "expand_list ev (expansion_fuel ev) is es s = Some rs"
    using expand_total_both [OF assms, of "expansion_fuel ev"] fuel_enough [of ev s] by (metis not_None_eq)
  then show "\<exists>es' s'. expand_list ev (expansion_fuel ev) is es s = Some (es', s') \<and> continues s s'"
    using expand_continues(2) [OF assms] by (metis surj_pair)
qed

section \<open>Models and tests\<close>

definition compiled_from :: "('s, 'q) expansion_env \<Rightarrow> 's lowered_model \<Rightarrow> compiled_model \<Rightarrow> bool" where
  "compiled_from ev l m \<longleftrightarrow>
     cm_id m = lw_id l \<and> map_of (ev_targets ev) (lw_id l) = Some (cm_target m) \<and>
     map_of (ev_dependencies ev) (lw_id l) = Some (cm_dependencies m) \<and> cm_config m = sm_config (lw_model l) \<and>
     cm_contract m = sm_contract (lw_model l) \<and> cm_assertions m = []"

text \<open>Every model that is compiled has a target and dependencies.\<close>

definition env_covers :: "('s, 'q) expansion_env \<Rightarrow> 's lowered_model list \<Rightarrow> bool" where
  "env_covers ev ls \<longleftrightarrow>
     (\<forall>l \<in> set ls. map_of (ev_targets ev) (lw_id l) \<noteq> None \<and> map_of (ev_dependencies ev) (lw_id l) \<noteq> None)"

lemma compile_model_ends:
  assumes "env_ok ev" "env_covers ev [l]"
  shows "\<exists>m s'. compile_model ev l s = Some (m, s') \<and> compiled_from ev l m \<and> continues s s'"
proof -
  obtain target ds where e: "map_of (ev_targets ev) (lw_id l) = Some target" "map_of (ev_dependencies ev) (lw_id l) = Some ds"
    using assms(2) by (auto simp: env_covers_def)
  obtain es s' where x: "expand_list ev (expansion_fuel ev) (ephemeral_dependencies ev ds) [] s = Some (es, s')"
      "continues s s'"
    using expansion_ends(2) [OF assms(1)] by blast
  show ?thesis by (simp add: compile_model_def e x Let_def compiled_from_def)
qed

lemma compile_models_end:
  assumes "env_ok ev" "env_covers ev ls"
  shows "\<exists>ms s'. compile_models ev ls s = Some (ms, s') \<and> list_all2 (compiled_from ev) ls ms \<and> continues s s'"
  using assms(2)
proof (induction ls arbitrary: s)
  case Nil
  then show ?case by simp
next
  case (Cons l ls)
  from Cons.prems have "env_covers ev [l]" "env_covers ev ls" by (simp_all add: env_covers_def)
  then obtain m s1 where m: "compile_model ev l s = Some (m, s1)" "compiled_from ev l m" "continues s s1"
    using compile_model_ends [OF assms(1)] by blast
  obtain ms s2 where "compile_models ev ls s1 = Some (ms, s2)" "list_all2 (compiled_from ev) ls ms" "continues s1 s2"
    using Cons.IH [OF \<open>env_covers ev ls\<close>] by blast
  with m show ?case using continues_trans by auto
qed

lemma compile_test_ends:
  assumes "env_ok ev"
  shows "\<exists>c s'. compile_test ev t s = Some (c, s') \<and> continues s s'"
proof (cases "tl_parse (ev_tools ev) (st_sql t)")
  case (Inl e)
  then show ?thesis by (simp add: compile_test_def Let_def continues_def)
next
  case (Inr statements)
  let ?names = "tl_relations (ev_tools ev) statements"
  let ?found = "List.map_filter (\<lambda>n. resolution_dependency (resolve_global (ev_resolver ev) n)) ?names"
  let ?s = "s\<lparr>xs_diagnostics := xs_diagnostics s @
    ambiguities (path_display (st_origin t)) (resolve_global (ev_resolver ev)) ?names\<rparr>"
  have start: "continues s ?s" by (simp add: continues_def)
  obtain es s' where x: "expand_list ev (expansion_fuel ev)
      (filter (is_ephemeral ev) (btree_set (dep_models ?found))) [] ?s = Some (es, s')" "continues ?s s'"
    using expansion_ends(2) [OF assms] by blast
  then show ?thesis using Inr continues_trans [OF start x(2)] by (simp add: compile_test_def Let_def)
qed

lemma compile_tests_end:
  assumes "env_ok ev"
  shows "\<exists>cs s'. compile_tests ev ts s = Some (cs, s') \<and> continues s s'"
proof -
  have "\<exists>cs s'. compile_test_list ev ts s = Some (cs, s') \<and> continues s s'"
  proof (induction ts arbitrary: s)
    case Nil
    then show ?case by simp
  next
    case (Cons t ts)
    obtain c s1 where c: "compile_test ev t s = Some (c, s1)" "continues s s1"
      using compile_test_ends [OF assms] by blast
    obtain cs s2 where "compile_test_list ev ts s1 = Some (cs, s2)" "continues s1 s2" using Cons by blast
    with c show ?case using continues_trans by auto
  qed
  then show ?thesis by (auto simp: compile_tests_def)
qed

section \<open>Analysis\<close>

text \<open>What the analysis leaves alone.\<close>

definition settled_part :: "compiled_model \<Rightarrow>
    model_id \<times> relation \<times> dependency list \<times> model_config \<times> model_contract option" where
  "settled_part m = (cm_id m, cm_target m, cm_dependencies m, cm_config m, cm_contract m)"

lemma settled_filled [simp]: "settled_part (filled_in an as v d m) = settled_part m"
  by (simp add: settled_part_def filled_in_def)

lemma test_subject_ends:
  assumes "env_ok ev" "mid_path i \<noteq> []"
  shows "\<exists>q s'. test_subject ev i m s = Some (q, s') \<and> continues s s'"
  using expansion_ends(1) [OF assms(1), of i s] assms(2)
  by (auto simp: test_subject_def last_segment_def split: option.split)

lemma map_update_same: "f y = f (xs ! p) \<Longrightarrow> map f (xs[p := y]) = map f xs"
  by (cases "p < length xs") (simp_all add: map_update list_update_beyond, metis list_update_id map_update)

lemma analyze_model_ends:
  assumes "env_ok ev"
  shows "\<exists>s'. analyze_model ev co index i s = Some s' \<and> continues (al_expansion s) (al_expansion s') \<and>
    map settled_part (al_models s') = map settled_part (al_models s)"
proof (cases "map_of (ev_lowered ev) i")
  case None
  then show ?thesis by (simp add: analyze_model_def)
next
  case (Some l)
  let ?an = "tl_analyze (ev_tools ev) (ev_resolver ev) (al_schemas s) (co_schemas co) (entry_for l) (lw_statements l) i"
  let ?broken = "case sm_contract (lw_model l) of Some k \<Rightarrow> validate_contract i (an_schema ?an) k | None \<Rightarrow> []"
  obtain q x where q: "test_subject ev i (map_option ((!) (al_models s)) (map_of index i))
      (add_diagnostics ?broken (al_expansion s)) = Some (q, x)"
    "continues (add_diagnostics ?broken (al_expansion s)) x"
    using test_subject_ends [OF assms] env_okD [OF assms Some] by blast
  have "continues (al_expansion s) (add_diagnostics (an_diagnostics ?an) x)"
    using continues_trans [OF continues_add q(2)] continues_trans continues_add by blast
  then show ?thesis
    using Some q(1) by (auto simp: analyze_model_def Let_def map_update_same split: option.split)
qed

lemma analyze_models_end:
  assumes "env_ok ev"
  shows "\<exists>s'. analyze_models ev co index is s = Some s' \<and> continues (al_expansion s) (al_expansion s') \<and>
    map settled_part (al_models s') = map settled_part (al_models s)"
proof (induction "is" arbitrary: s)
  case Nil
  then show ?case by simp
next
  case (Cons i "is")
  obtain s1 where s1: "analyze_model ev co index i s = Some s1" "continues (al_expansion s) (al_expansion s1)"
      "map settled_part (al_models s1) = map settled_part (al_models s)"
    using analyze_model_ends [OF assms] by blast
  obtain s2 where "analyze_models ev co index is s1 = Some s2" "continues (al_expansion s1) (al_expansion s2)"
      "map settled_part (al_models s2) = map settled_part (al_models s1)"
    using Cons by blast
  with s1 show ?case using continues_trans by auto
qed

text \<open>Graph and index are functions of what the analysis leaves alone.\<close>

lemma add_edges_cong:
  "map (\<lambda>m. (cm_id m, cm_dependencies m)) ms = map (\<lambda>m. (cm_id m, cm_dependencies m)) ms' \<Longrightarrow>
     add_edges ms g = add_edges ms' g"
proof (induction ms arbitrary: ms' g)
  case Nil
  then show ?case by simp
next
  case (Cons m ms)
  then obtain m' rest where "ms' = m' # rest" "cm_id m = cm_id m'" "cm_dependencies m = cm_dependencies m'"
    "map (\<lambda>m. (cm_id m, cm_dependencies m)) ms = map (\<lambda>m. (cm_id m, cm_dependencies m)) rest"
    by (cases ms') auto
  with Cons.IH show ?case by (simp split: option.split)
qed

lemma graph_build_cong:
  assumes "map (\<lambda>m. (cm_id m, cm_dependencies m)) ms = map (\<lambda>m. (cm_id m, cm_dependencies m)) ms'"
  shows "graph_build ms = graph_build ms'"
proof -
  have ids: "map cm_id ms = map cm_id ms'" and ds: "map cm_dependencies ms = map cm_dependencies ms'"
    using arg_cong [OF assms, of "map fst"] arg_cong [OF assms, of "map snd"] by (simp_all add: comp_def)
  have "fold (\<lambda>m. ensure_node (NodeModel (cm_id m))) xs g = fold (\<lambda>i. ensure_node (NodeModel i)) (map cm_id xs) g" for xs g
    by (simp add: fold_map comp_def)
  moreover have "map source_dependencies xs = map dep_sources (map cm_dependencies xs)" for xs
    by (simp add: source_dependencies_def)
  ultimately show ?thesis
    unfolding graph_build_def Let_def using add_edges_cong [OF assms] ids ds by metis
qed

lemma position_index_map: "position_index key xs = position_index (\<lambda>k. k) (map key xs)"
proof -
  have "fold (\<lambda>p. bm_insert (key (snd p)) (fst p)) (enumerate n xs) m =
      fold (\<lambda>p. bm_insert (snd p) (fst p)) (enumerate n (map key xs)) m" for n m
    by (induction xs arbitrary: n m) simp_all
  then show ?thesis by (simp add: position_index_def)
qed

lemma settled_keys:
  assumes "map settled_part ms = map settled_part ms'"
  shows "map cm_id ms = map cm_id ms'" "map cm_target ms = map cm_target ms'"
    "map (\<lambda>m. (cm_id m, cm_dependencies m)) ms = map (\<lambda>m. (cm_id m, cm_dependencies m)) ms'"
  using arg_cong [OF assms, of "map fst"] arg_cong [OF assms, of "map (\<lambda>p. fst (snd p))"]
    arg_cong [OF assms, of "map (\<lambda>p. (fst p, fst (snd (snd p))))"]
  by (simp_all add: settled_part_def comp_def)

lemma analyze_compilation_ends:
  assumes "env_ok ev" "wf_compilation c"
  shows "\<exists>c'. analyze_compilation ev co x c = Some c' \<and> wf_compilation c' \<and> cp_graph c' = cp_graph c \<and>
    map settled_part (cp_models c') = map settled_part (cp_models c) \<and>
    (\<exists>ds. cp_diagnostics c' = xs_diagnostics x @
       (case graph_cycle (cp_graph c) of Some cycle \<Rightarrow> [cycle_diagnostic cycle] | None \<Rightarrow> []) @ ds)"
proof -
  let ?cycle = "case graph_cycle (cp_graph c) of Some cycle \<Rightarrow> [cycle_diagnostic cycle] | None \<Rightarrow> []"
  let ?s = "\<lparr>al_models = cp_models c, al_expansion = add_diagnostics ?cycle x, al_schemas = [], al_versions = [],
    al_generated = []\<rparr>"
  show ?thesis
  proof (cases "topological_order (cp_graph c)")
    case None
    then show ?thesis
      using assms(2) by (simp add: analyze_compilation_def Let_def add_diagnostics_def wf_compilation_def)
  next
    case (Some order)
    obtain s' where s': "analyze_models ev co (cp_index c) order ?s = Some s'"
        "continues (add_diagnostics ?cycle x) (al_expansion s')"
        "map settled_part (al_models s') = map settled_part (cp_models c)"
      using analyze_models_end [OF assms(1), of co "cp_index c" order ?s] by auto
    let ?c = "c\<lparr>cp_models := al_models s', cp_diagnostics := xs_diagnostics (al_expansion s')\<rparr>"
    note keys = settled_keys [OF s'(3)]
    have "wf_compilation ?c"
      using assms(2) graph_build_cong [OF keys(3)] keys(1)
      by (simp add: wf_compilation_def position_index_map [of cm_id])
    then have "wf_compilation (add_generated_tests gs ?c)" for gs
      by (simp add: wf_compilation_def add_generated_tests_def Let_def)
    moreover have "cp_graph (add_generated_tests gs d) = cp_graph d" "cp_models (add_generated_tests gs d) = cp_models d"
      "cp_diagnostics (add_generated_tests gs d) = cp_diagnostics d" for gs d
      by (simp_all add: add_generated_tests_def Let_def)
    ultimately show ?thesis
      using Some s' by (auto simp: analyze_compilation_def Let_def continues_def add_diagnostics_def)
  qed
qed

end
