(* ===== verification/CompileProps.thy ===== *)
theory CompileProps
  imports CompileFacts
begin

text \<open>
  The properties of the compiler as a whole: it always returns a well-formed compilation, what a compilation
  without errors guarantees, and what the version and the generated tests make of assertions.
\<close>

section \<open>A project and its environment\<close>

text \<open>Identities have a path, as every constructed one has.\<close>

definition ids_formed :: "semantic_project \<Rightarrow> bool" where
  "ids_formed p \<longleftrightarrow> list_all (\<lambda>m. mid_path (sm_id m) \<noteq> []) (pr_models p)"

lemma lowered_from:
  "l \<in> set (fst (lower_models t ms)) \<longleftrightarrow> (\<exists>m \<in> set ms. l = fst (lower_model t m))"
  by (auto simp: lower_models_def Let_def)

lemma lowered_parts [simp]:
  "lw_model (fst (lower_model t m)) = m" "lw_path (fst (lower_model t m)) = path_display (sm_origin m)"
  "lw_statements (fst (lower_model t m)) = (case tl_parse t (sm_sql m) of Inr ss \<Rightarrow> ss | Inl e \<Rightarrow> [])"
  by (simp_all add: lower_model_def Let_def split: prod.split sum.split)

lemma unique_eq: "unique_models t p = first_per lw_id {} (fst (lower_models t (pr_models p)))"
  using scan_duplicates_inv [of "fst (lower_models t (pr_models p))"] by (simp add: unique_models_def scan_inv_def)

lemma unique_from: "l \<in> set (unique_models t p) \<Longrightarrow> \<exists>m \<in> set (pr_models p). l = fst (lower_model t m)"
  using lowered_from [of l t "pr_models p"] by (auto simp: unique_eq dest: first_per_subset)

lemma unique_ids: "map lw_id (unique_models t p) = sorted_list_of_set (sm_id ` set (pr_models p))"
proof -
  have s: "sorted (map lw_id (unique_models t p))"
    unfolding unique_eq by (rule first_per_keeps_sorted) (simp add: lowered_ids)
  have d: "distinct (map lw_id (unique_models t p))" unfolding unique_eq by (rule first_per_distinct)
  have "set (map lw_id (unique_models t p)) = set (map lw_id (fst (lower_models t (pr_models p))))"
    unfolding unique_eq using first_per_keys [of lw_id "fst (lower_models t (pr_models p))"] by simp
  also have "\<dots> = sm_id ` set (pr_models p)" unfolding lowered_ids by simp
  finally show ?thesis using s d by (metis sorted_list_of_set.idem_if_sorted_distinct)
qed

lemma unique_distinct: "distinct (map lw_id (unique_models t p))"
  unfolding unique_ids by simp

lemma insert_all_get:
  assumes "distinct (map key xs)" "x \<in> set xs"
  shows "map_of (fold (\<lambda>x. bm_insert (key x) (val x)) xs []) (key x) = Some (val x)"
proof -
  have "find (\<lambda>y. key y = key x) (rev xs) = Some x"
  proof (cases "find (\<lambda>y. key y = key x) (rev xs)")
    case None
    then show ?thesis using assms(2) by (auto simp: find_None_iff)
  next
    case (Some y)
    then have "y \<in> set xs" "key y = key x" using find_SomeD [OF Some] by simp_all
    then show ?thesis using Some assms by (metis distinct_map inj_onD)
  qed
  then show ?thesis by (simp add: bm.get_fold_put)
qed

lemma project_targets:
  "l \<in> set (unique_models t p) \<Longrightarrow>
     map_of (ev_targets (project_env t p)) (lw_id l) = Some (target_relation (lw_model l) (pr_defaults p))"
  unfolding project_env_def Let_def expansion_env.simps physical_targets_def
  by (rule insert_all_get [OF unique_distinct])

lemma project_dependencies:
  "l \<in> set (unique_models t p) \<Longrightarrow>
     map_of (ev_dependencies (project_env t p)) (lw_id l) =
       Some (model_dependency_list t (ev_resolver (project_env t p)) l)"
  unfolding project_env_def Let_def expansion_env.simps dependency_table_def
  by (rule insert_all_get [OF unique_distinct])

lemma project_covers: "env_covers (project_env t p) (unique_models t p)"
  by (simp add: env_covers_def project_targets project_dependencies)

lemma project_env_ok: "ids_formed p \<Longrightarrow> env_ok (project_env t p)"
  using unique_from [of _ t p] by (fastforce simp: env_ok_def project_env_def Let_def ids_formed_def list_all_iff)

section \<open>Resolution\<close>

lemma resolve_scans:
  "resolve (resolver_new es) e n =
     (case Resolve.verdict (scan_exact es (as_dotted n)) of Some r \<Rightarrow> r | None \<Rightarrow>
     (case Resolve.verdict (scan_namespace es e (as_dotted n)) of Some r \<Rightarrow> r | None \<Rightarrow>
     (case Resolve.verdict (scan_root es e (as_dotted n)) of Some r \<Rightarrow> r | None \<Rightarrow>
     (case Resolve.verdict (scan_suffix es (as_dotted n)) of Some r \<Rightarrow> r | None \<Rightarrow>
        ResExternal (SourceId (rn_parts n))))))"
  by (simp add: resolve_def resolve_global_def Let_def resolver_levels split: option.split)

lemma resolve_cong:
  assumes "set es = set es'"
  shows "resolve (resolver_new es) e n = resolve (resolver_new es') e n"
  unfolding resolve_scans scan_exact_def scan_namespace_def scan_root_def scan_suffix_def assms ..

lemma verdict_member: "Resolve.verdict S = Some (ResModel i) \<Longrightarrow> i \<in> S"
  by (auto simp: Resolve.verdict_def is_singleton_def split: if_splits)

lemma resolved_member: "resolve (resolver_new es) e n = ResModel i \<Longrightarrow> i \<in> re_id ` set es"
proof -
  have s: "scan_exact es f \<subseteq> re_id ` set es" "scan_namespace es e f \<subseteq> re_id ` set es"
    "scan_root es e f \<subseteq> re_id ` set es" "scan_suffix es f \<subseteq> re_id ` set es" for f
    by (auto simp: scan_exact_def scan_namespace_def scan_root_def scan_suffix_def)
  assume "resolve (resolver_new es) e n = ResModel i"
  then consider f where "i \<in> scan_exact es f" | f where "i \<in> scan_namespace es e f"
    | f where "i \<in> scan_root es e f" | f where "i \<in> scan_suffix es f"
    unfolding resolve_scans by (auto dest: verdict_member split: option.splits)
  then show ?thesis using s by cases blast+
qed

lemma resolution_dependency_model: "resolution_dependency r = Some (DepModel i) \<longleftrightarrow> r = ResModel i"
  by (cases r) auto

lemma entry_ids [simp]: "re_id (entry_for l) = lw_id l"
  by (simp add: entry_for_def)

lemma dependency_in_project:
  assumes "DepModel i \<in> set (model_dependency_list t (ev_resolver (project_env t p)) l)"
  shows "i \<in> lw_id ` set (unique_models t p)"
proof -
  obtain n where "resolve (resolver_new (map entry_for (unique_models t p))) (entry_for l) n = ResModel i"
    using assms
    by (auto simp: model_dependency_list_def List.map_filter_def resolution_dependency_model project_env_def Let_def)
  then have "i \<in> re_id ` set (map entry_for (unique_models t p))" by (rule resolved_member)
  then show ?thesis by (auto simp: image_image)
qed

section \<open>The result\<close>

lemma compiled_ids: "list_all2 (compiled_from ev) ls ms \<Longrightarrow> map cm_id ms = map lw_id ls"
  by (induction rule: list_all2_induct) (auto simp: compiled_from_def)

lemma compiled_targets:
  "list_all2 (compiled_from ev) ls ms \<Longrightarrow> (\<And>l. l \<in> set ls \<Longrightarrow> map_of (ev_targets ev) (lw_id l) = Some (f l)) \<Longrightarrow>
     map cm_target ms = map f ls"
  by (induction rule: list_all2_induct) (auto simp: compiled_from_def)

text \<open>What compiling a project amounts to.\<close>

lemma compile_result:
  assumes "ids_formed p"
  shows "\<exists>c models ds. compile_with_options t co p = Some c \<and> wf_compilation c \<and>
    list_all2 (compiled_from (project_env t p)) (unique_models t p) models \<and>
    map settled_part (cp_models c) = map settled_part models \<and>
    cp_diagnostics c = project_diagnostics t p @ ds \<and>
    (\<forall>cycle. graph_cycle (cp_graph c) = Some cycle \<longrightarrow> cycle_diagnostic cycle \<in> set ds)"
proof -
  let ?ev = "project_env t p" and ?us = "unique_models t p"
  let ?co = "co\<lparr>co_schemas := seed_schemas (co_schemas co) (pr_seeds p)\<rparr>"
  note ok = project_env_ok [OF assms, of t]
  obtain models x where m: "compile_models ?ev ?us
        \<lparr>xs_memo = [], xs_visiting = [], xs_diagnostics = project_diagnostics t p\<rparr> = Some (models, x)"
      "list_all2 (compiled_from ?ev) ?us models"
      "\<exists>ds. xs_diagnostics x = project_diagnostics t p @ ds"
    using compile_models_end [OF ok project_covers] by (fastforce simp: continues_def)
  obtain tests x' where ts: "compile_tests ?ev (pr_tests p) x = Some (tests, x')" "continues x x'"
    using compile_tests_end [OF ok] by blast
  have ids: "map cm_id models = map lw_id ?us" by (rule compiled_ids [OF m(2)])
  have "\<forall>k \<in> set models. set (model_dependencies k) \<subseteq> cm_id ` set models"
  proof
    fix k assume "k \<in> set models"
    then obtain l where l: "l \<in> set ?us" "compiled_from ?ev l k"
      using m(2) by (metis in_set_conv_nth list_all2_conv_all_nth)
    have "i \<in> set (map cm_id models)" if "i \<in> set (model_dependencies k)" for i
      using that l dependency_in_project [of i t p l] project_dependencies [OF l(1)]
      by (simp add: ids compiled_from_def model_dependencies_def)
    then show "set (model_dependencies k) \<subseteq> cm_id ` set models" by auto
  qed
  then obtain g where g: "graph_build models = Some g" using graph_build_total [of models] by auto
  let ?c = "\<lparr>cp_models = models, cp_tests = tests, cp_seeds = map (compile_seed (pr_defaults p)) (pr_seeds p),
    cp_defaults = pr_defaults p, cp_graph = g, cp_diagnostics = xs_diagnostics x',
    cp_index = position_index cm_id models, cp_test_index = position_index ct_id tests\<rparr>"
  have new: "compilation_new models tests (map (compile_seed (pr_defaults p)) (pr_seeds p)) (pr_defaults p)
      (xs_diagnostics x') = Some ?c"
    by (simp add: compilation_new_def g)
  have wf: "wf_compilation ?c"
    using unique_distinct [of t p] ids g by (simp add: wf_compilation_def)
  obtain c ds where c: "analyze_compilation ?ev ?co x' ?c = Some c" "wf_compilation c" "cp_graph c = g"
      "map settled_part (cp_models c) = map settled_part models"
      "cp_diagnostics c = xs_diagnostics x' @
        (case graph_cycle g of Some cycle \<Rightarrow> [cycle_diagnostic cycle] | None \<Rightarrow> []) @ ds"
    using analyze_compilation_ends [OF ok wf, of ?co x'] by auto
  have "compile_with_options t co p = Some c"
    using m(1) ts(1) new c(1) by (simp add: compile_with_options_def Let_def)
  moreover obtain ds' where "xs_diagnostics x' = project_diagnostics t p @ ds'"
    using m(3) ts(2) by (auto simp: continues_def)
  ultimately show ?thesis using c m(2) by auto
qed

text \<open>
  Property C18. Compiling always returns, whatever the project: the expansion of ephemeral models ends, also when they
  depend on each other in a cycle, and the graph can be built. The compilation has exactly the identities of
  the project as its models, each once and in order, and its graph and index belong to these models.
\<close>

theorem compile_total:
  assumes "ids_formed p"
  shows "\<exists>c. compile_with_options t co p = Some c \<and> wf_compilation c \<and>
    map cm_id (cp_models c) = sorted_list_of_set (sm_id ` set (pr_models p))"
proof -
  obtain c models where c: "compile_with_options t co p = Some c" "wf_compilation c"
      "list_all2 (compiled_from (project_env t p)) (unique_models t p) models"
      "map settled_part (cp_models c) = map settled_part models"
    using compile_result [OF assms] by blast
  then show ?thesis using settled_keys(1) [OF c(4)] compiled_ids [OF c(3)] unique_ids [of t p] by auto
qed


section \<open>No errors\<close>

definition error_free :: "diagnostic list \<Rightarrow> bool" where
  "error_free ds \<longleftrightarrow> \<not> list_ex (\<lambda>d. dg_severity d = SevError) ds"

lemma error_free_append [simp]: "error_free (xs @ ys) \<longleftrightarrow> error_free xs \<and> error_free ys"
  by (simp add: error_free_def)

lemma error_free_concat [simp]: "error_free (concat xss) \<longleftrightarrow> (\<forall>xs \<in> set xss. error_free xs)"
  by (auto simp: error_free_def list_ex_iff)

lemma error_freeD: "error_free ds \<Longrightarrow> d \<in> set ds \<Longrightarrow> dg_severity d \<noteq> SevError"
  by (auto simp: error_free_def list_ex_iff)

lemma is_ok_error_free: "is_ok c \<longleftrightarrow> error_free (cp_diagnostics c)"
  by (simp add: is_ok_def error_free_def)

lemma at_path_severity [simp]: "dg_severity (at_path path d) = dg_severity d"
  by (simp add: at_path_def split: option.split)

lemma raised_errors [simp]:
  "dg_severity (parse_diagnostic e path context) = SevError"
  "dg_severity (ambiguous_diagnostic path r cs) = SevError"
  "dg_severity (duplicate_diagnostic ls) = SevError"
  "dg_severity (cycle_diagnostic is) = SevError"
  by (simp_all add: parse_diagnostic_def ambiguous_diagnostic_def duplicate_diagnostic_def cycle_diagnostic_def Let_def
      split: prod.split option.split)

lemma parsed_when_error_free:
  assumes "error_free (snd (lower_models t ms))" "m \<in> set ms"
  shows "\<exists>ss. tl_parse t (sm_sql m) = Inr ss"
proof (cases "tl_parse t (sm_sql m)")
  case (Inl e)
  then have "parse_diagnostic e (path_display (sm_origin m)) ''could not parse model SQL'' \<in> set (snd (lower_model t m))"
    by (simp add: lower_model_def Let_def split: prod.split)
  then have "parse_diagnostic e (path_display (sm_origin m)) ''could not parse model SQL'' \<in> set (snd (lower_models t ms))"
    using assms(2) by (auto simp: lower_models_def Let_def)
  then show ?thesis using error_freeD [OF assms(1)] raised_errors(1) by blast
qed simp

lemma unambiguous_when_error_free:
  assumes "error_free (ambiguities path f ns)" "n \<in> set ns"
  shows "f n \<noteq> ResAmbiguous cs"
proof
  assume "f n = ResAmbiguous cs"
  then have "ambiguous_diagnostic path n cs \<in> set (ambiguities path f ns)"
    using assms(2) by (force simp: ambiguities_def List.map_filter_def)
  then show False using error_freeD [OF assms(1)] raised_errors(2) by blast
qed

lemma filters_distinct: "(\<And>t. length (filter (\<lambda>x. f x = t) xs) \<le> 1) \<Longrightarrow> distinct (map f xs)"
proof (induction xs)
  case Nil
  then show ?case by simp
next
  case (Cons x xs)
  have "filter (\<lambda>y. f y = f x) xs = []" using Cons.prems [of "f x"] by simp
  then have "f x \<notin> f ` set xs" by (auto simp: filter_empty_conv)
  moreover have "length (filter (\<lambda>x. f x = t) xs) \<le> 1" for t using Cons.prems [of t] by (auto split: if_splits)
  ultimately show ?case using Cons.IH by simp
qed

lemma targets_when_error_free:
  assumes "\<And>l. l \<in> set ls \<Longrightarrow> map_of targets (lw_id l) = Some (f l)"
    and "error_free (target_collisions targets ls)"
  shows "distinct (map f ls)"
proof (rule filters_distinct)
  fix t
  let ?m = "fold (\<lambda>l. bm_push (f l) l) ls []"
  have m: "models_by_target targets ls = ?m"
    unfolding models_by_target_def using assms(1) by (intro fold_cong) auto
  show "length (filter (\<lambda>l. f l = t) ls) \<le> 1"
  proof (rule ccontr)
    assume many: "\<not> length (filter (\<lambda>l. f l = t) ls) \<le> 1"
    then have "map_of ?m t = Some (filter (\<lambda>l. f l = t) ls)"
      using bmi.get_fold_push [where m = "[]" and key = f and val = "\<lambda>l. l" and xs = ls and k = t]
      by (cases "filter (\<lambda>l. f l = t) ls") simp_all
    then have "(t, filter (\<lambda>l. f l = t) ls) \<in> set ?m" by (rule map_of_SomeD)
    moreover obtain d where "collision_diagnostic (t, filter (\<lambda>l. f l = t) ls) = Some d" "dg_severity d = SevError"
      using many by (simp add: collision_diagnostic_def)
    ultimately have "d \<in> set (target_collisions targets ls)"
      by (force simp: target_collisions_def m List.map_filter_def)
    then show False using error_freeD [OF assms(2)] \<open>dg_severity d = SevError\<close> by blast
  qed
qed

section \<open>What no errors mean\<close>

definition model_entry :: "semantic_model \<Rightarrow> registry_entry" where
  "model_entry m =
     \<lparr>re_id = sm_id m, re_namespace = sm_namespace m, re_path = sm_path m, re_root = sm_root m\<rparr>"

text \<open>What a name in a model means in the workspace.\<close>

definition name_in :: "semantic_project \<Rightarrow> semantic_model \<Rightarrow> relation_name \<Rightarrow> resolution" where
  "name_in p m n = resolve (resolver_new (map model_entry (pr_models p))) (model_entry m) n"

lemma unique_all:
  assumes "distinct (map sm_id (pr_models p))" "m \<in> set (pr_models p)"
  shows "fst (lower_model t m) \<in> set (unique_models t p)"
proof -
  have "sm_id m \<in> set (map lw_id (unique_models t p))" using assms(2) by (simp add: unique_ids)
  then obtain l where l: "l \<in> set (unique_models t p)" "lw_id l = sm_id m" by auto
  obtain k where k: "k \<in> set (pr_models p)" "l = fst (lower_model t k)" using unique_from [OF l(1)] by blast
  then have "sm_id k = sm_id m" using l(2) by simp
  then have "k = m" using assms k(1) by (metis distinct_map inj_onD)
  then show ?thesis using l(1) k(2) by simp
qed

lemma resolver_of_project:
  assumes "distinct (map sm_id (pr_models p))"
  shows "resolve (ev_resolver (project_env t p)) (entry_for (fst (lower_model t m))) n = name_in p m n"
proof -
  have e: "entry_for (fst (lower_model t k)) = model_entry k" for k by (simp add: entry_for_def model_entry_def)
  have "set (unique_models t p) = (\<lambda>m. fst (lower_model t m)) ` set (pr_models p)"
    using unique_all [OF assms] unique_from by blast
  then have "set (map entry_for (unique_models t p)) = set (map model_entry (pr_models p))"
    by (simp add: image_image e)
  then show ?thesis
    unfolding name_in_def e project_env_def Let_def expansion_env.simps by (rule resolve_cong)
qed

text \<open>
  Property C17. When a compilation has no errors, the models of the project have different identities and write
  different relations, none depends on itself through others, the SQL of each was parsed, and each name a
  model reads means one thing: its dependencies are exactly what these names resolve to in the workspace.
\<close>

theorem compile_ok_sound:
  assumes "ids_formed p" "compile_with_options t co p = Some c" "is_ok c"
  shows "distinct (map sm_id (pr_models p)) \<and> distinct (map cm_target (cp_models c)) \<and>
    acyclic (dep_rel (cp_graph c)) \<and>
    (\<forall>m \<in> set (pr_models p). \<exists>ss k. tl_parse t (sm_sql m) = Inr ss \<and> compilation_model c (sm_id m) = Some k \<and>
       (\<forall>n \<in> set (tl_relations t ss). \<forall>cs. name_in p m n \<noteq> ResAmbiguous cs) \<and>
       set (cm_dependencies k) =
         {d. \<exists>n \<in> set (tl_relations t ss). resolution_dependency (name_in p m n) = Some d})"
proof -
  let ?ev = "project_env t p" and ?us = "unique_models t p"
  obtain models ds where wf: "wf_compilation c" and built: "list_all2 (compiled_from ?ev) ?us models"
    and kept: "map settled_part (cp_models c) = map settled_part models"
    and diags: "cp_diagnostics c = project_diagnostics t p @ ds"
    and cycle: "\<forall>cycle. graph_cycle (cp_graph c) = Some cycle \<longrightarrow> cycle_diagnostic cycle \<in> set ds"
    using compile_result [OF assms(1), of t co] assms(2) by auto
  have "error_free (cp_diagnostics c)" using assms(3) by (simp add: is_ok_error_free)
  then have free: "error_free (snd (lower_models t (pr_models p)))"
      "error_free (map duplicate_diagnostic (du_groups (scan_duplicates (fst (lower_models t (pr_models p))))))"
      "error_free (target_collisions (ev_targets ?ev) ?us)"
      "\<forall>l \<in> set ?us. error_free (ambiguities (lw_path l) (resolve (ev_resolver ?ev) (entry_for l)) (tl_relations t (lw_statements l)))"
      "error_free ds"
    unfolding diags project_diagnostics_def Let_def
    by (simp_all add: dependency_diagnostics_def case_prod_unfold)
  have "du_groups (scan_duplicates (fst (lower_models t (pr_models p)))) = []"
    using free(2) by (cases "du_groups (scan_duplicates (fst (lower_models t (pr_models p))))") (auto simp: error_free_def)
  then have "distinct (map lw_id (fst (lower_models t (pr_models p))))"
    using scan_duplicates_inv [of "fst (lower_models t (pr_models p))"] by (simp add: scan_inv_def)
  then have d: "distinct (map sm_id (pr_models p))" by (simp add: lowered_ids)
  have "distinct (map (\<lambda>l. target_relation (lw_model l) (pr_defaults p)) ?us)"
    using project_targets free(3) by (rule targets_when_error_free)
  moreover have "map cm_target models = map (\<lambda>l. target_relation (lw_model l) (pr_defaults p)) ?us"
    using built project_targets by (rule compiled_targets)
  ultimately have targets: "distinct (map cm_target (cp_models c))" using settled_keys(2) [OF kept] by simp
  have "graph_cycle (cp_graph c) = None"
    by (metis cycle error_freeD free(5) not_None_eq raised_errors(4))
  then have acyclic: "acyclic (dep_rel (cp_graph c))"
    using graph_cycle_None compilation_graph(1) [OF wf] by blast
  have "\<exists>ss k. tl_parse t (sm_sql m) = Inr ss \<and> compilation_model c (sm_id m) = Some k \<and>
       (\<forall>n \<in> set (tl_relations t ss). \<forall>cs. name_in p m n \<noteq> ResAmbiguous cs) \<and>
       set (cm_dependencies k) =
         {d. \<exists>n \<in> set (tl_relations t ss). resolution_dependency (name_in p m n) = Some d}"
    if m: "m \<in> set (pr_models p)" for m
  proof -
    let ?l = "fst (lower_model t m)"
    obtain ss where ss: "tl_parse t (sm_sql m) = Inr ss" using parsed_when_error_free [OF free(1) m] by blast
    note l = unique_all [OF d m, of t]
    obtain n where n: "n < length ?us" "?us ! n = ?l" using l by (metis in_set_conv_nth)
    have len: "length models = length ?us" "length (cp_models c) = length models"
      using built kept by (auto dest: list_all2_lengthD map_eq_imp_length_eq)
    let ?k = "cp_models c ! n"
    have "settled_part ?k = settled_part (models ! n)"
      using kept n(1) len by (metis nth_map)
    moreover have "compiled_from ?ev ?l (models ! n)" using built n by (metis list_all2_conv_all_nth)
    ultimately have k: "cm_id ?k = sm_id m" "cm_dependencies ?k = model_dependency_list t (ev_resolver ?ev) ?l"
      using project_dependencies [OF l] by (auto simp: settled_part_def compiled_from_def)
    then have "compilation_model c (sm_id m) = Some ?k"
      using n(1) len by (simp add: compilation_model_Some [OF wf])
    moreover have "set (cm_dependencies ?k) =
        {d. \<exists>n \<in> set (tl_relations t ss). resolution_dependency (name_in p m n) = Some d}"
      unfolding k(2) model_dependency_list_def using ss by (force simp: List.map_filter_def resolver_of_project [OF d])
    moreover have "\<forall>n \<in> set (tl_relations t ss). \<forall>cs. name_in p m n \<noteq> ResAmbiguous cs"
      using unambiguous_when_error_free [OF bspec [OF free(4) l]] ss by (simp add: resolver_of_project [OF d])
    ultimately show ?thesis using ss by blast
  qed
  with d targets acyclic show ?thesis by blast
qed


section \<open>Assertions\<close>

definition declared_contract :: "compiled_model \<Rightarrow> string" where
  "declared_contract m = (case cm_contract m of Some k \<Rightarrow> contract_text k | None \<Rightarrow> []) @ '';assertions=''"

text \<open>A model the analysis is done with.\<close>

definition analyzed ::
    "('s, 'q) expansion_env \<Rightarrow> (string \<Rightarrow> string) \<Rightarrow> compiled_test list \<Rightarrow> compiled_model \<Rightarrow> bool" where
  "analyzed ev sha gs m \<longleftrightarrow>
     (\<exists>l. map_of (ev_lowered ev) (cm_id m) = Some l \<and> cm_assertions m = assertions_for (lw_model l)) \<and>
     mv_contract_hash (cm_version m) = sha (declared_contract m) \<and>
     (cfg_materialization (cm_config m) \<noteq> Ephemeral \<longrightarrow>
        set (generate_tests (cm_id m) (cm_assertions m) (relation_sql (cm_target m))) \<subseteq> set gs)"

lemma analyzed_mono: "analyzed ev sha gs m \<Longrightarrow> set gs \<subseteq> set hs \<Longrightarrow> analyzed ev sha hs m"
  by (auto simp: analyzed_def)

definition loop_inv_analysis ::
    "('s, 'q) expansion_env \<Rightarrow> (string \<Rightarrow> string) \<Rightarrow> model_id set \<Rightarrow> 'q analysis_state \<Rightarrow> bool" where
  "loop_inv_analysis ev sha done_ids s \<longleftrightarrow>
     distinct (map cm_id (al_models s)) \<and>
     (\<forall>m \<in> set (al_models s). if cm_id m \<in> done_ids then analyzed ev sha (al_generated s) m else cm_assertions m = [])"

lemma filled_in_simps [simp]:
  "cm_id (filled_in an as v d m) = cm_id m" "cm_assertions (filled_in an as v d m) = as"
  "cm_version (filled_in an as v d m) = v" "cm_contract (filled_in an as v d m) = cm_contract m"
  "cm_config (filled_in an as v d m) = cm_config m" "cm_target (filled_in an as v d m) = cm_target m"
  by (simp_all add: filled_in_def)

lemma contract_hash: "mv_contract_hash (model_version sha inputs) = sha (vi_contract inputs)"
  by (simp add: model_version_def Let_def)

lemma analyze_model_update:
  "analyze_model ev co index i s = Some s' \<Longrightarrow>
     al_models s' = al_models s \<or>
     (\<exists>q y. map_of index i = Some q \<and> al_models s' = (al_models s)[q := y] \<and> cm_id y = cm_id (al_models s ! q))"
  by (fastforce simp: analyze_model_def Let_def split: option.splits)

lemma analyze_model_inv:
  assumes ok: "env_ok ev" and inv: "loop_inv_analysis ev (co_sha co) D s" and i: "i \<notin> D"
    and index: "\<And>k q. map_of index k = Some q \<longleftrightarrow> q < length (al_models s) \<and> cm_id (al_models s ! q) = k"
    and known: "map_of (ev_lowered ev) i \<noteq> None"
    and step: "analyze_model ev co index i s = Some s'"
  shows "loop_inv_analysis ev (co_sha co) (insert i D) s'"
proof -
  obtain l where l: "map_of (ev_lowered ev) i = Some l" using known by blast
  let ?as = "assertions_for (lw_model l)"
  let ?an = "tl_analyze (ev_tools ev) (ev_resolver ev) (al_schemas s) (co_schemas co) (entry_for l) (lw_statements l) i"
  let ?broken = "case sm_contract (lw_model l) of Some k \<Rightarrow> validate_contract i (an_schema ?an) k | None \<Rightarrow> []"
  have d: "distinct (map cm_id (al_models s))"
    and each: "\<forall>m \<in> set (al_models s).
      if cm_id m \<in> D then analyzed ev (co_sha co) (al_generated s) m else cm_assertions m = []"
    using inv by (simp_all add: loop_inv_analysis_def)
  have grows: "set (al_generated s) \<subseteq> set (al_generated s')" and ids: "map cm_id (al_models s') = map cm_id (al_models s)"
    using step l settled_keys(1) [of "al_models s'" "al_models s"] analyze_model_ends [OF ok, of co index i s]
    by (auto simp: analyze_model_def Let_def split: option.splits)
  have "if cm_id m \<in> insert i D then analyzed ev (co_sha co) (al_generated s') m else cm_assertions m = []"
    if m: "m \<in> set (al_models s')" for m
  proof (cases "cm_id m = i")
    case False
    have "m \<in> set (al_models s)"
      using analyze_model_update [OF step]
    proof (elim disjE exE conjE)
      fix q y
      assume q: "map_of index i = Some q" "al_models s' = (al_models s)[q := y]" "cm_id y = cm_id (al_models s ! q)"
      then have "m \<noteq> y" using False index by auto
      then show ?thesis using m q(2) set_update_subset_insert [of "al_models s" q y] by auto
    qed (use m in simp)
    then have "if cm_id m \<in> D then analyzed ev (co_sha co) (al_generated s) m else cm_assertions m = []"
      using each by blast
    then show ?thesis using False analyzed_mono [OF _ grows] by auto
  next
    case True
    have "i \<in> set (map cm_id (al_models s))" using m True ids by (metis image_eqI set_map)
    then obtain q where q: "q < length (al_models s)" "cm_id (al_models s ! q) = i" by (auto simp: in_set_conv_nth)
    let ?c = "al_models s ! q"
    have at: "map_of index i = Some q" using index q by blast
    have none: "cm_assertions ?c = []" using each q i nth_mem [OF q(1)] by metis
    let ?inputs = "version_inputs_for (ev_tools ev) l ?c (co_states co) (al_versions s)"
    let ?v = "model_version (co_sha co) ?inputs"
    let ?filled = "filled_in ?an ?as ?v (version_detail_of ?inputs) ?c"
    obtain sub x where sub: "test_subject ev i (Some ?c) (add_diagnostics ?broken (al_expansion s)) = Some (sub, x)"
      and s': "al_models s' = (al_models s)[q := ?filled]"
        "al_generated s' = al_generated s @ (case sub of Some sql \<Rightarrow> generate_tests i ?as sql | None \<Rightarrow> [])"
      using step l at by (auto simp: analyze_model_def Let_def split: option.splits)
    have "m = ?filled"
    proof -
      have "distinct (map cm_id (al_models s'))" using d ids by simp
      moreover have "?filled \<in> set (al_models s')" using q(1) by (simp add: s'(1) set_update_memI)
      moreover have "cm_id ?filled = cm_id m" using q(2) True by simp
      ultimately show ?thesis using m by (metis distinct_map inj_onD)
    qed
    moreover have "declared_contract ?filled = vi_contract ?inputs"
      using none by (simp add: declared_contract_def version_inputs_for_def version_contract_def)
    moreover have "set (generate_tests i ?as (relation_sql (cm_target ?c))) \<subseteq> set (al_generated s')"
      if "cfg_materialization (cm_config ?c) \<noteq> Ephemeral"
      using that sub s'(2) by (auto simp: test_subject_def)
    ultimately have "analyzed ev (co_sha co) (al_generated s') m"
      using l q(2) by (auto simp: analyzed_def contract_hash)
    then show ?thesis using True by simp
  qed
  then show ?thesis using d ids by (simp add: loop_inv_analysis_def)
qed


lemma analysis_ids:
  "env_ok ev \<Longrightarrow> analyze_model ev co index i s = Some s' \<Longrightarrow> map cm_id (al_models s') = map cm_id (al_models s)"
  "env_ok ev \<Longrightarrow> analyze_models ev co index is s = Some s' \<Longrightarrow> map cm_id (al_models s') = map cm_id (al_models s)"
proof -
  assume ok: "env_ok ev"
  show "map cm_id (al_models s') = map cm_id (al_models s)" if "analyze_model ev co index i s = Some s'"
    using analyze_model_ends [OF ok, of co index i s] that by (intro settled_keys(1)) auto
  show "map cm_id (al_models s') = map cm_id (al_models s)" if "analyze_models ev co index is s = Some s'"
    using analyze_models_end [OF ok, of co index "is" s] that by (intro settled_keys(1)) auto
qed

lemma analyze_models_inv:
  assumes "env_ok ev" and index: "\<And>k q. map_of index k = Some q \<longleftrightarrow> q < length ids \<and> ids ! q = k"
  shows "loop_inv_analysis ev (co_sha co) D s \<Longrightarrow> map cm_id (al_models s) = ids \<Longrightarrow> distinct is \<Longrightarrow> set is \<inter> D = {} \<Longrightarrow>
    (\<forall>i \<in> set is. map_of (ev_lowered ev) i \<noteq> None) \<Longrightarrow> analyze_models ev co index is s = Some s' \<Longrightarrow>
    loop_inv_analysis ev (co_sha co) (D \<union> set is) s'"
proof (induction "is" arbitrary: D s)
  case Nil
  then show ?case by simp
next
  case (Cons i "is")
  from Cons.prems(6) obtain s1 where s1: "analyze_model ev co index i s = Some s1" "analyze_models ev co index is s1 = Some s'"
    by (auto split: option.splits)
  have "map_of index k = Some q \<longleftrightarrow> q < length (al_models s) \<and> cm_id (al_models s ! q) = k" for k q
    using index [of k q] Cons.prems(2) by auto
  then have inv: "loop_inv_analysis ev (co_sha co) (insert i D) s1"
    using analyze_model_inv [OF assms(1) Cons.prems(1) _ _ _ s1(1)] Cons.prems(4,5) by auto
  have ids: "map cm_id (al_models s1) = ids"
    using analysis_ids(1) [OF assms(1) s1(1)] Cons.prems(2) by simp
  have "loop_inv_analysis ev (co_sha co) (insert i D \<union> set is) s'"
    by (rule Cons.IH [OF inv ids _ _ _ s1(2)]) (use Cons.prems(3,4,5) in auto)
  then show ?case by simp
qed

lemma compile_analyzes:
  assumes "ids_formed p" "compile_with_options t co p = Some c" "acyclic (dep_rel (cp_graph c))" "m \<in> set (cp_models c)"
  shows "\<exists>gs. analyzed (project_env t p) (co_sha co) gs m \<and> set gs \<subseteq> set (cp_tests c)"
proof -
  let ?ev = "project_env t p" and ?us = "unique_models t p"
  let ?co = "co\<lparr>co_schemas := seed_schemas (co_schemas co) (pr_seeds p)\<rparr>"
  note ok = project_env_ok [OF assms(1), of t]
  obtain models x where m: "compile_models ?ev ?us
        \<lparr>xs_memo = [], xs_visiting = [], xs_diagnostics = project_diagnostics t p\<rparr> = Some (models, x)"
      "list_all2 (compiled_from ?ev) ?us models"
    using compile_models_end [OF ok project_covers] by fastforce
  obtain tests x' b where ts: "compile_tests ?ev (pr_tests p) x = Some (tests, x')"
    and b: "compilation_new models tests (map (compile_seed (pr_defaults p)) (pr_seeds p)) (pr_defaults p)
      (xs_diagnostics x') = Some b" "analyze_compilation ?ev ?co x' b = Some c"
    using assms(2) m(1) by (auto simp: compile_with_options_def Let_def bind_eq_Some_conv)
  have ids: "map cm_id models = map lw_id ?us" by (rule compiled_ids [OF m(2)])
  have d: "distinct (map cm_id models)" using ids unique_distinct [of t p] by simp
  have bs: "cp_models b = models" "cp_index b = position_index cm_id models" "wf_compilation b"
    using b(1) compilation_new_wf [OF d b(1)] by (auto simp: compilation_new_def split: option.splits)
  have g: "cp_graph c = cp_graph b"
    using analyze_compilation_ends [OF ok bs(3), of ?co x'] b(2) by auto
  obtain order where order: "topological_order (cp_graph b) = Some order"
    using topological_order_None [OF compilation_graph(1) [OF bs(3)]] assms(3) g by fastforce
  then have o: "distinct order" "set order = cm_id ` set models"
    using topological_order_Some [OF compilation_graph(1) [OF bs(3)], of order] least_first_distinct
      compilation_graph(2) [OF bs(3)] bs(1) by auto
  let ?cycle = "case graph_cycle (cp_graph b) of Some cycle \<Rightarrow> [cycle_diagnostic cycle] | None \<Rightarrow> []"
  let ?s = "\<lparr>al_models = models, al_expansion = add_diagnostics ?cycle x', al_schemas = [], al_versions = [],
    al_generated = []\<rparr>"
  obtain s' where s': "analyze_models ?ev ?co (position_index cm_id models) order ?s = Some s'"
    and c: "c = add_generated_tests (al_generated s') (b\<lparr>cp_models := al_models s',
      cp_diagnostics := xs_diagnostics (al_expansion s')\<rparr>)"
    using b(2) order by (auto simp: analyze_compilation_def Let_def bs split: option.splits)
  have start: "loop_inv_analysis ?ev (co_sha ?co) {} ?s"
    using d m(2) by (auto simp: loop_inv_analysis_def list_all2_conv_all_nth compiled_from_def in_set_conv_nth)
  have known: "\<forall>i \<in> set order. map_of (ev_lowered ?ev) i \<noteq> None"
  proof
    fix i assume "i \<in> set order"
    then have "i \<in> set (map lw_id ?us)" using o(2) ids by (metis set_map)
    then show "map_of (ev_lowered ?ev) i \<noteq> None" by (auto simp: project_env_def Let_def map_of_eq_None_iff image_image)
  qed
  have inv: "loop_inv_analysis ?ev (co_sha ?co) ({} \<union> set order) s'"
    by (rule analyze_models_inv [OF ok _ start _ o(1) _ known s'])
      (use position_index_Some [OF d] in auto)
  have same: "map cm_id (al_models s') = map cm_id models"
    using analysis_ids(2) [OF ok s'] by simp
  have cs: "cp_models c = al_models s'" "set (al_generated s') \<subseteq> set (cp_tests c)"
    unfolding c by (auto simp: add_generated_tests_def Let_def)
  have "cm_id m \<in> set (map cm_id (al_models s'))" using assms(4) cs(1) by simp
  then have "cm_id m \<in> {} \<union> set order" unfolding same using o(2) by simp
  then have "analyzed ?ev (co_sha ?co) (al_generated s') m"
    using inv assms(4) cs(1) by (simp add: loop_inv_analysis_def)
  then show ?thesis using cs(2) by auto
qed

text \<open>What the directives of a model assert: keys are not null and unique together.\<close>

definition asserted :: "semantic_model \<Rightarrow> assertion set" where
  "asserted l =
     (let keys = d_keys (sm_directives l)
      in ANotNull ` (set keys \<union> set (d_not_null (sm_directives l))) \<union> (if keys = [] then {} else {AUnique keys}))"

lemma assertions_for_set: "set (assertions_for l) = asserted l"
proof -
  have "set (fold (\<lambda>c as. if ANotNull c \<in> set as then as else as @ [ANotNull c]) cs as) = set as \<union> ANotNull ` set cs"
    for cs as
    by (induction cs arbitrary: as) auto
  then show ?thesis by (auto simp: assertions_for_def asserted_def Let_def)
qed

lemma compiled_assertions:
  assumes "ids_formed p" "compile_with_options t co p = Some c" "acyclic (dep_rel (cp_graph c))" "m \<in> set (cp_models c)"
  obtains gs l where "analyzed (project_env t p) (co_sha co) gs m" "set gs \<subseteq> set (cp_tests c)"
    "l \<in> set (pr_models p)" "sm_id l = cm_id m" "cm_assertions m = assertions_for l"
proof -
  have "\<exists>gs. analyzed (project_env t p) (co_sha co) gs m \<and> set gs \<subseteq> set (cp_tests c)"
    by (rule compile_analyzes [OF assms])
  then obtain gs where gs: "analyzed (project_env t p) (co_sha co) gs m" "set gs \<subseteq> set (cp_tests c)" by blast
  then obtain l where l: "map_of (ev_lowered (project_env t p)) (cm_id m) = Some l" "cm_assertions m = assertions_for (lw_model l)"
    unfolding analyzed_def by blast
  have "lw_id l = cm_id m" "lw_model l \<in> set (pr_models p)"
    using env_okD [OF project_env_ok [OF assms(1)]] l(1) unique_from [of l t p]
    by (auto simp: project_env_def Let_def dest!: map_of_SomeD)
  with that [OF gs] l(2) show thesis by simp
qed

text \<open>
  The contract text that the version hashes lists no assertions: the version is computed before the
  assertions are stored in the model.
\<close>

lemma assertions_not_hashed:
  assumes "ids_formed p" "compile_with_options t co p = Some c" "acyclic (dep_rel (cp_graph c))" "m \<in> set (cp_models c)"
  shows "mv_contract_hash (cm_version m) =
      co_sha co ((case cm_contract m of Some k \<Rightarrow> contract_text k | None \<Rightarrow> []) @ '';assertions='')"
proof -
  obtain gs l where "analyzed (project_env t p) (co_sha co) gs m" by (rule compiled_assertions [OF assms])
  then show ?thesis unfolding analyzed_def declared_contract_def by auto
qed

text \<open>
  Property C19. In a compilation without a dependency cycle every model carries exactly the assertions the
  directives of its source declare: its key columns and its not-null columns are not null, and the key columns
  are unique together. For each assertion of a model that is materialised there is a generated test named after
  it, which runs the query of the assertion on the relation of the model and targets that model.
\<close>

theorem assertions_generate_tests:
  assumes "ids_formed p" "compile_with_options t co p = Some c" "acyclic (dep_rel (cp_graph c))" "m \<in> set (cp_models c)"
  shows "(\<exists>l \<in> set (pr_models p). sm_id l = cm_id m \<and> set (cm_assertions m) = asserted l) \<and>
    (cfg_materialization (cm_config m) \<noteq> Ephemeral \<longrightarrow>
       (\<forall>a \<in> set (cm_assertions m). \<exists>test \<in> set (cp_tests c).
          ct_id test = TestId (logical_name (cm_id m) @ ''.generated.'' @ assertion_slug a) \<and>
          ct_sql test = assertion_sql a (relation_sql (cm_target m)) \<and> ct_compiled_sql test = ct_sql test \<and>
          ct_targets test = [cm_id m] \<and> ct_generated test))"
proof -
  obtain gs l where l: "analyzed (project_env t p) (co_sha co) gs m" "set gs \<subseteq> set (cp_tests c)"
    "l \<in> set (pr_models p)" "sm_id l = cm_id m" "cm_assertions m = assertions_for l"
    by (rule compiled_assertions [OF assms])
  have made: "set (generate_tests (cm_id m) (cm_assertions m) (relation_sql (cm_target m))) \<subseteq> set (cp_tests c)"
    if "cfg_materialization (cm_config m) \<noteq> Ephemeral"
    using l(1,2) that unfolding analyzed_def declared_contract_def by auto
  have "\<exists>test \<in> set (generate_tests (cm_id m) (cm_assertions m) (relation_sql (cm_target m))).
      ct_id test = TestId (logical_name (cm_id m) @ ''.generated.'' @ assertion_slug a) \<and>
      ct_sql test = assertion_sql a (relation_sql (cm_target m)) \<and> ct_compiled_sql test = ct_sql test \<and>
      ct_targets test = [cm_id m] \<and> ct_generated test" if "a \<in> set (cm_assertions m)" for a
    unfolding generate_tests_def set_map by (rule bexI [OF _ imageI [OF that]]) simp
  with made have "\<forall>a \<in> set (cm_assertions m). \<exists>test \<in> set (cp_tests c).
      ct_id test = TestId (logical_name (cm_id m) @ ''.generated.'' @ assertion_slug a) \<and>
      ct_sql test = assertion_sql a (relation_sql (cm_target m)) \<and> ct_compiled_sql test = ct_sql test \<and>
      ct_targets test = [cm_id m] \<and> ct_generated test" if "cfg_materialization (cm_config m) \<noteq> Ephemeral"
    using that by (meson subsetD)
  with l(3-5) show ?thesis using assertions_for_set [of l] by metis
qed


section \<open>A small project\<close>

text \<open>A parser that takes a text as one query over the relation it names, and two models, one over the other.\<close>

definition plain_sql :: "(string, string) sql_tools" where
  "plain_sql =
     \<lparr>tl_parse = (\<lambda>s. Inr [s]),
      tl_relations = (\<lambda>ss. List.map_filter (\<lambda>s. if s = [] then None else Some (RelationName [s])) ss),
      tl_query = Some, tl_statement_text = (\<lambda>s. s), tl_query_text = (\<lambda>q. q), tl_debug = (\<lambda>s. ticked s),
      tl_rewrite = (\<lambda>rw ss. (ss, concat ss)),
      tl_analyze = (\<lambda>r schemas provider e ss i. \<lparr>an_schema = empty_schema, an_diagnostics = [], an_limitations = []\<rparr>)\<rparr>"

definition plain_compiler :: compiler where
  "plain_compiler = \<lparr>co_schemas = no_schemas, co_states = no_source_states, co_sha = (\<lambda>s. s)\<rparr>"

definition checked_model :: semantic_model where
  "checked_model =
     (in_memory_model (mid ''a'') [])\<lparr>sm_directives := no_directives\<lparr>d_not_null := [''x'']\<rparr>\<rparr>"

definition small_project :: semantic_project where
  "small_project =
     \<lparr>pr_models = [in_memory_model (mid ''b'') ''m.a'', checked_model], pr_tests = [], pr_seeds = [],
      pr_defaults = no_defaults, pr_cross_workflow = PolicyAllow, pr_diagnostics = []\<rparr>"

lemma small_formed: "ids_formed small_project"
  by code_simp

lemma small_ok:
  "map_option (\<lambda>c. (is_ok c, map cm_id (cp_models c), map cm_assertions (cp_models c),
       map (\<lambda>m. cfg_materialization (cm_config m)) (cp_models c)))
     (compile_with_options plain_sql plain_compiler small_project) =
   Some (True, [mid ''a'', mid ''b''], [[ANotNull ''x''], []], [View, View])"
  by code_simp

lemma small_compiled:
  obtains c where "compile_with_options plain_sql plain_compiler small_project = Some c" "is_ok c"
    "map cm_id (cp_models c) = [mid ''a'', mid ''b'']" "map cm_assertions (cp_models c) = [[ANotNull ''x''], []]"
    "map (\<lambda>m. cfg_materialization (cm_config m)) (cp_models c) = [View, View]"
  using small_ok by auto

theorem compile_total_witness:
  "\<exists>c. compile_with_options plain_sql plain_compiler small_project = Some c \<and>
     map cm_id (cp_models c) = sorted_list_of_set {mid ''a'', mid ''b''}"
  using compile_total [OF small_formed, of plain_sql plain_compiler]
  by (auto simp: small_project_def checked_model_def in_memory_model_def insert_commute)

theorem compile_ok_sound_witness:
  "\<exists>c. compile_with_options plain_sql plain_compiler small_project = Some c \<and>
     acyclic (dep_rel (cp_graph c)) \<and> distinct (map cm_target (cp_models c))"
proof -
  obtain c where c: "compile_with_options plain_sql plain_compiler small_project = Some c" "is_ok c"
    by (rule small_compiled)
  show ?thesis using compile_ok_sound [OF small_formed c] c(1) by blast
qed

theorem assertions_generate_tests_witness:
  "\<exists>c test. compile_with_options plain_sql plain_compiler small_project = Some c \<and> test \<in> set (cp_tests c) \<and>
     ct_targets test = [mid ''a''] \<and> ct_generated test"
proof -
  obtain c where c: "compile_with_options plain_sql plain_compiler small_project = Some c" "is_ok c"
    "map cm_id (cp_models c) = [mid ''a'', mid ''b'']" "map cm_assertions (cp_models c) = [[ANotNull ''x''], []]"
    "map (\<lambda>m. cfg_materialization (cm_config m)) (cp_models c) = [View, View]"
    by (rule small_compiled)
  then have "\<exists>m \<in> set (cp_models c). cm_id m = mid ''a'' \<and> cm_assertions m = [ANotNull ''x''] \<and>
      cfg_materialization (cm_config m) = View"
    by (auto simp: map_eq_Cons_conv)
  then obtain m where m: "m \<in> set (cp_models c)" "cm_id m = mid ''a''" "cm_assertions m = [ANotNull ''x'']"
    "cfg_materialization (cm_config m) = View" by blast
  obtain ds where "cp_diagnostics c = project_diagnostics plain_sql small_project @ ds"
      "\<forall>cycle. graph_cycle (cp_graph c) = Some cycle \<longrightarrow> cycle_diagnostic cycle \<in> set ds" "wf_compilation c"
    using compile_result [OF small_formed, of plain_sql plain_compiler] c(1) by auto
  then have "acyclic (dep_rel (cp_graph c))"
    using c(2) graph_cycle_None [OF compilation_graph(1)] raised_errors(4)
    by (metis error_freeD error_free_append is_ok_error_free not_None_eq)
  from assertions_generate_tests [OF small_formed c(1) this m(1)]
  show ?thesis using c(1) m by auto
qed

end
