(* ===== verification/PgStore.thy ===== *)
theory PgStore
  imports Store
begin

text \<open>
  The shared state store, \<open>PostgresStateStore\<close> of \<^verbatim>\<open>phlo-transform-engine/src/state_postgres.rs\<close>: the
  same tables and methods as the SQLite store of the theory Store, with the statements of this backend.
  The rows of a table are listed in the order their sequence numbers were given; an upsert that hits a row
  updates it in place. What the database server contributes is the parameter \<open>pg_server\<close>: how its collation
  orders texts, what instant (in microseconds) its cast to \<open>timestamptz\<close> reads, none where the cast raises,
  and in which order a scan without \<open>ORDER BY\<close> returns the materialisations. The state is the record
  \<open>database\<close> of the theory Store.
\<close>

section \<open>The server\<close>

record pg_server =
  pg_less :: "string \<Rightarrow> string \<Rightarrow> bool"
  pg_instant :: "string \<Rightarrow> int option"
  pg_scan :: "materialized_record list \<Rightarrow> materialized_record list"

subsection \<open>Comparing timestamps\<close>

text \<open>A text that consists of one character of each kind.\<close>

fun fits :: "(char \<Rightarrow> bool) list \<Rightarrow> string \<Rightarrow> bool" where
  "fits [] s = (s = [])"
| "fits (p # ps) s = (case s of [] \<Rightarrow> False | c # t \<Rightarrow> p c \<and> fits ps t)"

definition date_time_kinds :: "(char \<Rightarrow> bool) list" where
  "date_time_kinds =
     replicate 4 is_ascii_digit @ (=) CHR ''-'' # replicate 2 is_ascii_digit @ (=) CHR ''-'' #
     replicate 2 is_ascii_digit @ (\<lambda>c. c \<in> set ''Tt'') # replicate 2 is_ascii_digit @ (=) CHR '':'' #
     replicate 2 is_ascii_digit @ (=) CHR '':'' # replicate 2 is_ascii_digit"

definition offset_shape :: "string \<Rightarrow> bool" where
  "offset_shape s \<longleftrightarrow> fits [\<lambda>c. c \<in> set ''Zz''] s \<or>
     fits ((\<lambda>c. c \<in> set ''+-'') # replicate 2 is_ascii_digit @ (=) CHR '':'' # replicate 2 is_ascii_digit) s"

text \<open>The regular expression both sides have to match before they are cast.\<close>

definition rfc3339_shape :: "string \<Rightarrow> bool" where
  "rfc3339_shape s \<longleftrightarrow> fits date_time_kinds (take 19 s) \<and>
     (case drop 19 s of
        [] \<Rightarrow> False
      | c # t \<Rightarrow>
          if c = CHR ''.'' then takeWhile is_ascii_digit t \<noteq> [] \<and> offset_shape (dropWhile is_ascii_digit t)
          else offset_shape (c # t))"

definition pg_text_cmp :: "pg_server \<Rightarrow> string \<Rightarrow> string \<Rightarrow> int" where
  "pg_text_cmp pg a b = (if pg_less pg a b then - 1 else if pg_less pg b a then 1 else 0)"

definition phlo_cmp_rfc3339 :: "pg_server \<Rightarrow> string \<Rightarrow> string \<Rightarrow> int" where
  "phlo_cmp_rfc3339 pg a b =
     (if rfc3339_shape a \<and> rfc3339_shape b then
        (case (pg_instant pg a, pg_instant pg b) of
           (Some x, Some y) \<Rightarrow> if x < y then - 1 else if y < x then 1 else 0
         | _ \<Rightarrow> pg_text_cmp pg a b)
      else pg_text_cmp pg a b)"

subsection \<open>Ordering rows\<close>

definition pg_ascending :: "pg_server \<Rightarrow> ('r \<Rightarrow> string) \<Rightarrow> 'r list \<Rightarrow> 'r list" where
  "pg_ascending pg key rows = sort_by (\<lambda>a b. \<not> pg_less pg (key b) (key a)) rows"

text \<open>\<open>ORDER BY timestamp DESC, seq DESC\<close>, then the stable sort by instant.\<close>

definition pg_descending :: "pg_server \<Rightarrow> ('r \<Rightarrow> string) \<Rightarrow> 'r list \<Rightarrow> 'r list" where
  "pg_descending pg at rows = sort_by (\<lambda>a b. \<not> pg_less pg (at a) (at b)) (rev rows)"

definition pg_freshest ::
    "pg_server \<Rightarrow> (string \<Rightarrow> int option) \<Rightarrow> ('r \<Rightarrow> string) \<Rightarrow> 'r list \<Rightarrow> 'r list" where
  "pg_freshest pg parse_time at rows = newest_first parse_time at (pg_descending pg at rows)"

section \<open>The worker thread\<close>

text \<open>
  The client lives on a worker thread that serves one job at a time. A job yields its answer and the state
  it leaves; \<open>None\<close> is a job that panics, which ends the worker. \<open>Stopped\<close> is a worker that is gone.
\<close>

datatype 'd worker = Serving 'd | Stopped

definition worker_stopped :: string where
  "worker_stopped = ''postgres worker stopped''"

definition pg_call :: "('d \<Rightarrow> ((string + 'a) \<times> 'd) option) \<Rightarrow> 'd worker \<Rightarrow> (string + 'a) \<times> 'd worker" where
  "pg_call job w =
     (case w of
        Stopped \<Rightarrow> (Inl worker_stopped, Stopped)
      | Serving d \<Rightarrow>
          (case job d of
             Some (answer, d') \<Rightarrow> (answer, Serving d')
           | None \<Rightarrow> (Inl worker_stopped, Stopped)))"

text \<open>\<open>open_client\<close> opens the connection, \<open>ensure\<close> creates or migrates the schema on it.\<close>

definition pg_connect :: "(string \<Rightarrow> string + 'c) \<Rightarrow> ('c \<Rightarrow> string + 'd) \<Rightarrow> string \<Rightarrow> string + 'd worker" where
  "pg_connect open_client ensure url =
     (case open_client url of
        Inl e \<Rightarrow> Inl e
      | Inr client \<Rightarrow> (case ensure client of Inl e \<Rightarrow> Inl e | Inr d \<Rightarrow> Inr (Serving d)))"

definition pg_drop :: "'d worker \<Rightarrow> 'd worker" where
  "pg_drop w = Stopped"

section \<open>The schema\<close>

text \<open>
  Rows from before the effective key was a column: an incremental \<open>key\<close> strategy's columns were the key.
\<close>

definition legacy_key :: "materialized_record \<Rightarrow> string list list option" where
  "legacy_key r =
     (if mr_effective_key r = None \<and> mr_incremental_strategy r = Some ''key''
      then Option.bind (mr_incremental_key r) incremental_key_claim else None)"

definition backfill_key :: "materialized_record \<Rightarrow> materialized_record" where
  "backfill_key r = (case legacy_key r of Some claim \<Rightarrow> r\<lparr>mr_effective_key := Some claim\<rparr> | None \<Rightarrow> r)"

text \<open>A database without the tables gets them empty; in one that has them only the legacy keys are filled in.\<close>

definition pg_ensure_schema :: "'j database option \<Rightarrow> 'j database" where
  "pg_ensure_schema found =
     (let d = (case found of None \<Rightarrow> empty_database | Some d \<Rightarrow> d)
      in d\<lparr>db_model_versions := map backfill_key (db_model_versions d)\<rparr>)"

section \<open>Runs\<close>

definition pg_start_run :: "run_summary \<Rightarrow> stored_plan \<Rightarrow> 'j database \<Rightarrow> 'j database option" where
  "pg_start_run r p d =
     (if rs_run_id r \<in> set (map (rs_run_id \<circ> fst) (db_runs d)) then None
      else Some (d\<lparr>db_runs := db_runs d @ [(r\<lparr>rs_environment := stored_env (rs_environment r)\<rparr>, p)]\<rparr>))"

definition pg_reopen_run :: "string \<Rightarrow> 'j database \<Rightarrow> 'j database" where
  "pg_reopen_run run_id = update_run run_id (\<lambda>r. r\<lparr>rs_status := Running, rs_finished_at := None\<rparr>)"

definition pg_bind_run_reference_hash :: "string \<Rightarrow> string \<Rightarrow> 'j database \<Rightarrow> 'j database" where
  "pg_bind_run_reference_hash run_id h = update_run run_id (\<lambda>r. r\<lparr>rs_reference_hash := Some h\<rparr>)"

definition pg_finish_run :: "string \<Rightarrow> execution_status \<Rightarrow> string \<Rightarrow> nat \<Rightarrow> 'j database \<Rightarrow> 'j database" where
  "pg_finish_run run_id st at failed =
     update_run run_id (\<lambda>r. r\<lparr>rs_status := st, rs_finished_at := Some at, rs_failed_count := failed\<rparr>)"

definition pg_runs :: "pg_server \<Rightarrow> (string \<Rightarrow> int option) \<Rightarrow> 'j database \<Rightarrow> run_summary list" where
  "pg_runs pg parse_time d = pg_freshest pg parse_time rs_started_at (map fst (db_runs d))"

definition pg_latest_run ::
    "pg_server \<Rightarrow> (string \<Rightarrow> int option) \<Rightarrow> string option \<Rightarrow> 'j database \<Rightarrow> run_summary option" where
  "pg_latest_run pg parse_time environment d =
     (case pg_freshest pg parse_time rs_started_at
             (filter (\<lambda>r. env_column (rs_environment r) = env_column environment) (map fst (db_runs d))) of
        r # _ \<Rightarrow> Some r
      | [] \<Rightarrow> None)"

definition pg_run :: "string \<Rightarrow> 'j database \<Rightarrow> stored_run option" where
  "pg_run run_id d =
     map_option (\<lambda>(r, p). \<lparr>sto_record = r, sto_plan = Some p\<rparr>)
       (find (\<lambda>(r, p). rs_run_id r = run_id) (db_runs d))"

text \<open>
  This server's \<open>LIKE\<close>: letters match in their own case only, and a backslash takes the next character
  literally. (A pattern that ends with a lone backslash, which raises, does not arise.)
\<close>

function (sequential) pg_like :: "string \<Rightarrow> string \<Rightarrow> bool" where
  "pg_like [] s = (s = [])"
| "pg_like (c # p) s =
     (if c = CHR ''%'' then (if s = [] then pg_like p s else pg_like p s \<or> pg_like (c # p) (after_char s))
      else if s = [] then False
      else if c = CHR ''_'' then pg_like p (after_char s)
      else if c = CHR 0x5C then (case p of [] \<Rightarrow> False | e # q \<Rightarrow> e = hd s \<and> pg_like q (tl s))
      else c = hd s \<and> pg_like p (tl s))"
  by pat_completeness auto
termination
  by (relation "measure (\<lambda>(p, s). length p + length s)")
     (auto simp: length_after_char less_Suc_eq intro: add_less_mono dest: length_after_char)

definition pg_find_runs ::
    "pg_server \<Rightarrow> (string \<Rightarrow> int option) \<Rightarrow> string \<Rightarrow> 'j database \<Rightarrow> run_summary list" where
  "pg_find_runs pg parse_time prefix d =
     pg_freshest pg parse_time rs_started_at
       (filter (\<lambda>r. pg_like (prefix @ ''%'') (rs_run_id r)) (map fst (db_runs d)))"

section \<open>The nodes of a run\<close>

text \<open>\<open>ON CONFLICT (key) DO UPDATE\<close> without a condition.\<close>

definition pg_upsert :: "('r \<Rightarrow> 'k) \<Rightarrow> 'r \<Rightarrow> 'r list \<Rightarrow> 'r list" where
  "pg_upsert key = upsert key (\<lambda>_ _. True)"

definition pg_record_model :: "model_run_record \<Rightarrow> 'j database \<Rightarrow> 'j database" where
  "pg_record_model r d = d\<lparr>db_model_runs := pg_upsert (\<lambda>x. (mrr_run_id x, mrr_model_id x)) r (db_model_runs d)\<rparr>"

definition pg_record_seed_run :: "seed_run_record \<Rightarrow> 'j database \<Rightarrow> 'j database" where
  "pg_record_seed_run r d = d\<lparr>db_seed_runs := pg_upsert (\<lambda>x. (srr_run_id x, srr_name x)) r (db_seed_runs d)\<rparr>"

definition pg_record_test :: "test_run_record \<Rightarrow> 'j database \<Rightarrow> 'j database" where
  "pg_record_test r d = d\<lparr>db_test_runs := pg_upsert (\<lambda>x. (trr_run_id x, trr_test_id x)) r (db_test_runs d)\<rparr>"

definition pg_model_runs :: "pg_server \<Rightarrow> string \<Rightarrow> 'j database \<Rightarrow> model_run_record list" where
  "pg_model_runs pg run_id d = pg_ascending pg mrr_model_id (filter (\<lambda>r. mrr_run_id r = run_id) (db_model_runs d))"

definition pg_seed_runs :: "pg_server \<Rightarrow> string \<Rightarrow> 'j database \<Rightarrow> seed_run_record list" where
  "pg_seed_runs pg run_id d = pg_ascending pg srr_name (filter (\<lambda>r. srr_run_id r = run_id) (db_seed_runs d))"

definition pg_test_runs :: "pg_server \<Rightarrow> string \<Rightarrow> 'j database \<Rightarrow> test_run_record list" where
  "pg_test_runs pg run_id d = pg_ascending pg trr_test_id (filter (\<lambda>r. trr_run_id r = run_id) (db_test_runs d))"

section \<open>Materialisations and seed loads\<close>

text \<open>The condition of an ordered upsert.\<close>

definition pg_not_older :: "pg_server \<Rightarrow> ('r \<Rightarrow> string) \<Rightarrow> 'r \<Rightarrow> 'r \<Rightarrow> bool" where
  "pg_not_older pg at new old \<longleftrightarrow> 0 \<le> phlo_cmp_rfc3339 pg (at new) (at old)"

definition pg_record_materialized :: "pg_server \<Rightarrow> materialized_record \<Rightarrow> 'j database \<Rightarrow> 'j database" where
  "pg_record_materialized pg r d =
     d\<lparr>db_model_versions :=
         upsert version_key (pg_not_older pg mr_materialized_at)
           (r\<lparr>mr_environment := stored_env (mr_environment r)\<rparr>) (db_model_versions d)\<rparr>"

definition pg_materialized_version :: "string \<Rightarrow> string option \<Rightarrow> 'j database \<Rightarrow> materialized_record option" where
  "pg_materialized_version model_id environment d =
     find (\<lambda>r. version_key r = (model_id, env_column environment)) (db_model_versions d)"

definition pg_materialized_by_hash :: "pg_server \<Rightarrow> string \<Rightarrow> 'j database \<Rightarrow> materialized_record list" where
  "pg_materialized_by_hash pg h d = filter (\<lambda>r. mv_hash (mr_version r) = h) (pg_scan pg (db_model_versions d))"

text \<open>A hash without a materialisation has no entry.\<close>

definition pg_materialized_by_hashes ::
    "pg_server \<Rightarrow> string list \<Rightarrow> 'j database \<Rightarrow> (string \<times> materialized_record list) list" where
  "pg_materialized_by_hashes pg hashes d =
     fold (\<lambda>r. bm_push (mv_hash (mr_version r)) r)
       (filter (\<lambda>r. mv_hash (mr_version r) \<in> set hashes) (pg_scan pg (db_model_versions d))) []"

definition pg_materialized_in :: "pg_server \<Rightarrow> string option \<Rightarrow> 'j database \<Rightarrow> materialized_record list" where
  "pg_materialized_in pg environment d =
     pg_ascending pg mr_model_id
       (filter (\<lambda>r. env_column (mr_environment r) = env_column environment) (db_model_versions d))"

definition pg_record_seed :: "pg_server \<Rightarrow> seed_record \<Rightarrow> 'j database \<Rightarrow> 'j database" where
  "pg_record_seed pg r d =
     d\<lparr>db_seed_loads :=
         upsert seed_key (pg_not_older pg sr_loaded_at)
           (r\<lparr>sr_environment := stored_env (sr_environment r)\<rparr>) (db_seed_loads d)\<rparr>"

definition pg_seed_state :: "string \<Rightarrow> string option \<Rightarrow> 'j database \<Rightarrow> seed_record option" where
  "pg_seed_state name environment d =
     find (\<lambda>r. seed_key r = (name, env_column environment)) (db_seed_loads d)"

definition pg_seeds_in :: "pg_server \<Rightarrow> string option \<Rightarrow> 'j database \<Rightarrow> seed_record list" where
  "pg_seeds_in pg environment d =
     pg_ascending pg sr_name
       (filter (\<lambda>r. env_column (sr_environment r) = env_column environment) (db_seed_loads d))"

section \<open>Watermarks\<close>

definition pg_supersedes ::
    "pg_server \<Rightarrow> (string \<Rightarrow> string option) \<Rightarrow> watermark_row \<Rightarrow> watermark_row \<Rightarrow> bool" where
  "pg_supersedes pg start_of new old \<longleftrightarrow>
     0 \<le> phlo_cmp_rfc3339 pg
         (case start_of (wm_run_id new) of Some t \<Rightarrow> t | None \<Rightarrow> wm_updated_at new)
         (case start_of (wm_run_id old) of Some t \<Rightarrow> t | None \<Rightarrow> [])"

definition pg_set_watermark ::
    "pg_server \<Rightarrow> string \<Rightarrow> string \<Rightarrow> string option \<Rightarrow> string \<Rightarrow> string \<Rightarrow> 'j database \<Rightarrow> 'j database" where
  "pg_set_watermark pg now model_id environment v run_id d =
     d\<lparr>db_watermarks :=
         upsert watermark_key (pg_supersedes pg (run_started_at d))
           \<lparr>wm_model = model_id, wm_environment = env_column environment, wm_value = v,
            wm_run_id = run_id, wm_updated_at = now\<rparr> (db_watermarks d)\<rparr>"

definition pg_watermark :: "string \<Rightarrow> string option \<Rightarrow> 'j database \<Rightarrow> string option" where
  "pg_watermark model_id environment d =
     map_option wm_value (find (\<lambda>w. watermark_key w = (model_id, env_column environment)) (db_watermarks d))"

section \<open>Promotions and evidence\<close>

definition pg_record_promotion :: "promotion_record \<Rightarrow> 'j database \<Rightarrow> 'j database" where
  "pg_record_promotion r d = d\<lparr>db_promotions := pg_upsert pn_promotion_id r (db_promotions d)\<rparr>"

definition pg_promotions :: "pg_server \<Rightarrow> (string \<Rightarrow> int option) \<Rightarrow> 'j database \<Rightarrow> promotion_record list" where
  "pg_promotions pg parse_time d = pg_freshest pg parse_time pn_timestamp (db_promotions d)"

definition pg_record_evidence :: "'j evidence_record \<Rightarrow> 'j database \<Rightarrow> 'j database option" where
  "pg_record_evidence r d =
     (if er_evidence_id r \<in> set (map er_evidence_id (db_evidence d)) then None
      else Some (d\<lparr>db_evidence := db_evidence d @ [r]\<rparr>))"

definition pg_evidence_for ::
    "pg_server \<Rightarrow> (string \<Rightarrow> int option) \<Rightarrow> evidence_kind \<Rightarrow> string \<Rightarrow> 'j database \<Rightarrow> 'j evidence_record list" where
  "pg_evidence_for pg parse_time kind subject d =
     pg_freshest pg parse_time er_created_at
       (filter (\<lambda>r. er_kind r = kind \<and> er_subject r = subject) (db_evidence d))"

definition pg_latest_evidence ::
    "pg_server \<Rightarrow> (string \<Rightarrow> int option) \<Rightarrow> evidence_kind \<Rightarrow> 'j database \<Rightarrow> 'j evidence_record list" where
  "pg_latest_evidence pg parse_time kind d =
     first_per (\<lambda>r. (er_subject r, er_target_ref r)) {}
       (pg_freshest pg parse_time er_created_at (filter (\<lambda>r. er_kind r = kind) (db_evidence d)))"

definition pg_remove_evidence :: "evidence_kind \<Rightarrow> string \<Rightarrow> 'j database \<Rightarrow> 'j database" where
  "pg_remove_evidence kind subject d =
     d\<lparr>db_evidence := filter (\<lambda>r. \<not> (er_kind r = kind \<and> er_subject r = subject)) (db_evidence d)\<rparr>"

end
