(* ===== verification/PgFacts.thy ===== *)
theory PgFacts
  imports PgStore StoreFacts
begin

text \<open>
  The two state stores side by side: one history of writes, applied to either backend, and what every read
  answers afterwards. On a server that orders texts by their bytes, reads the timestamps of the history
  to the microsecond and keeps them apart, the answers agree. The examples at the end show where they part
  without these conditions.
\<close>

section \<open>Histories of writes\<close>

datatype 'j store_write =
    StartRun run_summary stored_plan
  | ReopenRun string
  | BindReference string string
  | FinishRun string execution_status string nat
  | RecordModel model_run_record
  | RecordSeedRun seed_run_record
  | RecordTest test_run_record
  | RecordMaterialized materialized_record
  | RecordSeed seed_record
  | SetWatermark string string "string option" string string
  | RecordPromotion promotion_record
  | RecordEvidence "'j evidence_record"
  | RemoveEvidence evidence_kind string

fun sqlite_write :: "(string \<Rightarrow> int option) \<Rightarrow> 'j store_write \<Rightarrow> 'j database \<Rightarrow> 'j database option" where
  "sqlite_write pt (StartRun r p) d = start_run r p d"
| "sqlite_write pt (ReopenRun i) d = Some (reopen_run i d)"
| "sqlite_write pt (BindReference i h) d = Some (bind_run_reference_hash i h d)"
| "sqlite_write pt (FinishRun i st at failed) d = Some (finish_run i st at failed d)"
| "sqlite_write pt (RecordModel r) d = Some (record_model r d)"
| "sqlite_write pt (RecordSeedRun r) d = Some (record_seed_run r d)"
| "sqlite_write pt (RecordTest r) d = Some (record_test r d)"
| "sqlite_write pt (RecordMaterialized r) d = Some (record_materialized pt r d)"
| "sqlite_write pt (RecordSeed r) d = Some (record_seed pt r d)"
| "sqlite_write pt (SetWatermark now m e v i) d = Some (set_watermark pt now m e v i d)"
| "sqlite_write pt (RecordPromotion r) d = Some (record_promotion r d)"
| "sqlite_write pt (RecordEvidence r) d = record_evidence r d"
| "sqlite_write pt (RemoveEvidence k s) d = Some (remove_evidence k s d)"

fun pg_write :: "pg_server \<Rightarrow> 'j store_write \<Rightarrow> 'j database \<Rightarrow> 'j database option" where
  "pg_write pg (StartRun r p) d = pg_start_run r p d"
| "pg_write pg (ReopenRun i) d = Some (pg_reopen_run i d)"
| "pg_write pg (BindReference i h) d = Some (pg_bind_run_reference_hash i h d)"
| "pg_write pg (FinishRun i st at failed) d = Some (pg_finish_run i st at failed d)"
| "pg_write pg (RecordModel r) d = Some (pg_record_model r d)"
| "pg_write pg (RecordSeedRun r) d = Some (pg_record_seed_run r d)"
| "pg_write pg (RecordTest r) d = Some (pg_record_test r d)"
| "pg_write pg (RecordMaterialized r) d = Some (pg_record_materialized pg r d)"
| "pg_write pg (RecordSeed r) d = Some (pg_record_seed pg r d)"
| "pg_write pg (SetWatermark now m e v i) d = Some (pg_set_watermark pg now m e v i d)"
| "pg_write pg (RecordPromotion r) d = Some (pg_record_promotion r d)"
| "pg_write pg (RecordEvidence r) d = pg_record_evidence r d"
| "pg_write pg (RemoveEvidence k s) d = Some (pg_remove_evidence k s d)"

text \<open>A refused write reports an error and leaves the state as it was.\<close>

fun run_writes :: "('w \<Rightarrow> 'd \<Rightarrow> 'd option) \<Rightarrow> 'w list \<Rightarrow> 'd \<Rightarrow> bool list \<times> 'd" where
  "run_writes step [] d = ([], d)"
| "run_writes step (w # ws) d =
     (case step w d of
        None \<Rightarrow> map_prod ((#) False) id (run_writes step ws d)
      | Some e \<Rightarrow> map_prod ((#) True) id (run_writes step ws e))"

text \<open>The timestamps the ordered upserts of a history compare; the empty text stands for a forgotten run.\<close>

fun write_times :: "'j store_write \<Rightarrow> string set" where
  "write_times (StartRun r p) = {rs_started_at r}"
| "write_times (RecordMaterialized r) = {mr_materialized_at r}"
| "write_times (RecordSeed r) = {sr_loaded_at r}"
| "write_times (SetWatermark now m e v i) = {now}"
| "write_times _ = {}"

definition history_times :: "'j store_write list \<Rightarrow> string set" where
  "history_times ws = insert [] (\<Union> (write_times ` set ws))"

section \<open>When the comparisons agree\<close>

text \<open>
  The cast reads the instant to the nearest microsecond, however it is written, and nothing where the code
  reads nothing.
\<close>

definition reads_micros :: "pg_server \<Rightarrow> (string \<Rightarrow> int option) \<Rightarrow> string set \<Rightarrow> bool" where
  "reads_micros pg pt T \<longleftrightarrow>
     (\<forall>a \<in> T. case pt a of
        None \<Rightarrow> \<not> (rfc3339_shape a \<and> pg_instant pg a \<noteq> None)
      | Some x \<Rightarrow> rfc3339_shape a \<and>
          (case pg_instant pg a of None \<Rightarrow> False | Some i \<Rightarrow> \<bar>1000 * i - x\<bar> \<le> 500)) \<and>
     (\<forall>a \<in> T. \<forall>b \<in> T. pt a \<noteq> None \<longrightarrow> pt a = pt b \<longrightarrow> pg_instant pg a = pg_instant pg b)"

definition microseconds_apart :: "(string \<Rightarrow> int option) \<Rightarrow> string set \<Rightarrow> bool" where
  "microseconds_apart pt T \<longleftrightarrow>
     (\<forall>a \<in> T. \<forall>b \<in> T. \<forall>x y. pt a = Some x \<longrightarrow> pt b = Some y \<longrightarrow> x < y \<longrightarrow> x + 1000 < y)"

lemma reads_none:
  "reads_micros pg pt T \<Longrightarrow> a \<in> T \<Longrightarrow> pt a = None \<Longrightarrow> \<not> (rfc3339_shape a \<and> pg_instant pg a \<noteq> None)"
  unfolding reads_micros_def by (drule conjunct1, drule (1) bspec) simp

lemma reads_some:
  assumes "reads_micros pg pt T" "a \<in> T" "pt a = Some x"
  obtains i where "rfc3339_shape a" "pg_instant pg a = Some i" "\<bar>1000 * i - x\<bar> \<le> 500"
proof -
  have "rfc3339_shape a \<and> (case pg_instant pg a of None \<Rightarrow> False | Some i \<Rightarrow> \<bar>1000 * i - x\<bar> \<le> 500)"
    using bspec [OF conjunct1 [OF assms(1) [unfolded reads_micros_def]] assms(2)] by (simp add: assms(3))
  then show thesis using that by (cases "pg_instant pg a") auto
qed

lemma reads_same:
  "reads_micros pg pt T \<Longrightarrow> a \<in> T \<Longrightarrow> b \<in> T \<Longrightarrow> pt a = Some x \<Longrightarrow> pt b = Some x \<Longrightarrow>
    pg_instant pg a = pg_instant pg b"
  unfolding reads_micros_def by (drule conjunct2, drule (1) bspec, drule (1) bspec) simp

lemma phlo_cmp_agrees:
  assumes less: "pg_less pg = (<)" and reads: "reads_micros pg pt T"
    and apart: "microseconds_apart pt T" "a \<in> T" "b \<in> T"
  shows "0 \<le> phlo_cmp_rfc3339 pg a b \<longleftrightarrow> \<not> rfc3339_less pt a b"
proof -
  have textual: "0 \<le> pg_text_cmp pg a b \<longleftrightarrow> \<not> a < b" by (auto simp: pg_text_cmp_def less)
  show ?thesis
  proof (cases "pt a = None \<or> pt b = None")
    case True
    then have "\<not> (rfc3339_shape a \<and> pg_instant pg a \<noteq> None) \<or> \<not> (rfc3339_shape b \<and> pg_instant pg b \<noteq> None)"
      using reads_none [OF reads apart(2)] reads_none [OF reads apart(3)] by blast
    then have "phlo_cmp_rfc3339 pg a b = pg_text_cmp pg a b"
      by (auto simp: phlo_cmp_rfc3339_def split: option.split)
    moreover have "rfc3339_less pt a b \<longleftrightarrow> a < b" using True by (auto simp: rfc3339_less_def split: option.split)
    ultimately show ?thesis by (simp add: textual)
  next
    case False
    then obtain x y where xy: "pt a = Some x" "pt b = Some y" by auto
    obtain i where i: "rfc3339_shape a" "pg_instant pg a = Some i" "\<bar>1000 * i - x\<bar> \<le> 500"
      by (rule reads_some [OF reads apart(2) xy(1)])
    obtain j where j: "rfc3339_shape b" "pg_instant pg b = Some j" "\<bar>1000 * j - y\<bar> \<le> 500"
      by (rule reads_some [OF reads apart(3) xy(2)])
    have "x < y \<longrightarrow> x + 1000 < y" "y < x \<longrightarrow> y + 1000 < x"
      using apart xy unfolding microseconds_apart_def by blast+
    moreover have "1000 * i \<le> x + 500" "x \<le> 1000 * i + 500" "1000 * j \<le> y + 500" "y \<le> 1000 * j + 500"
      using i(3) j(3) by (simp_all add: abs_le_iff)
    moreover have "i = j" if "x = y"
      using reads_same [OF reads apart(2,3) xy(1)] xy(2) i(2) j(2) that by simp
    ultimately have "i < j \<longleftrightarrow> x < y" by (cases x y rule: linorder_cases) linarith+
    then show ?thesis by (simp add: phlo_cmp_rfc3339_def i(1,2) j(1,2) rfc3339_less_def xy)
  qed
qed

section \<open>When the orders agree\<close>

lemma pg_ascending_sort_key:
  fixes key :: "'r \<Rightarrow> string"
  assumes "pg_less pg = (<)"
  shows "pg_ascending pg key rows = sort_key key rows"
proof -
  have "insert_by (\<lambda>a b. key a \<le> key b) x ys = insort_key key x ys" for x ys by (induction ys) auto
  then show ?thesis
    unfolding pg_ascending_def sort_by_def sort_key_def assms not_less by (simp cong: foldr_cong)
qed

lemma mset_sort_by [simp]: "mset (sort_by le xs) = mset xs"
proof -
  have "mset (insert_by le x ys) = add_mset x (mset ys)" for x ys by (induction ys) auto
  then show ?thesis unfolding sort_by_def by (induction xs) simp_all
qed

text \<open>Sorting the rows from the last to the first downwards is sorting them upwards and turning them around.\<close>

lemma pg_descending_text_desc:
  fixes at :: "'r \<Rightarrow> string"
  assumes "pg_less pg = (<)"
  shows "pg_descending pg at rows = text_desc at rows"
proof -
  let ?le = "\<lambda>a b. at b \<le> at a"
  have step: "filter (\<lambda>x. at x = k) (insert_by ?le x ys) = filter (\<lambda>x. at x = k) (x # ys)" for k x ys
    by (induction ys) auto
  have stable: "filter (\<lambda>x. at x = k) (sort_by ?le xs) = filter (\<lambda>x. at x = k) xs" for k xs
    unfolding sort_by_def by (induction xs) (auto simp: step)
  have sorted: "sorted_wrt ?le (sort_by ?le (rev rows))"
    by (rule sorted_sort_by) (auto simp: sorts_on_def)
  have "sort_key at rows = rev (sort_by ?le (rev rows))"
  proof (rule properties_for_sort_key)
    show "mset (rev (sort_by ?le (rev rows))) = mset rows" by simp
    show "filter (\<lambda>x. at k = at x) (rev (sort_by ?le (rev rows))) = filter (\<lambda>x. at k = at x) rows" for k
      using arg_cong [OF stable [of "at k" "rev rows"], of rev]
      by (simp add: rev_filter [symmetric] eq_commute [of "at k"])
    show "sorted (map at (rev (sort_by ?le (rev rows))))"
      using sorted by (simp add: sorted_wrt_rev sorted_wrt_map)
  qed
  then show ?thesis by (simp add: pg_descending_def text_desc_def assms not_less)
qed

lemma pg_freshest_freshest:
  "pg_less pg = (<) \<Longrightarrow> pg_freshest pg pt at rows = freshest pt at rows"
  by (simp add: pg_freshest_def freshest_def pg_descending_text_desc)

section \<open>Tables that hold the same rows\<close>

definition same_rows :: "('r \<Rightarrow> 'k) \<Rightarrow> 'r list \<Rightarrow> 'r list \<Rightarrow> bool" where
  "same_rows key xs ys \<longleftrightarrow> distinct (map key ys) \<and> mset xs = mset ys"

lemma mset_pg_upsert:
  "distinct (map key ys) \<Longrightarrow> mset (pg_upsert key r ys) = mset (replace_row key r ys)"
proof (induction ys)
  case (Cons y ys)
  show ?case
  proof (cases "key y = key r")
    case True
    then have "filter (\<lambda>x. key x \<noteq> key r) ys = ys" using Cons.prems by (auto simp: filter_id_conv image_iff)
    with True show ?thesis by (simp add: pg_upsert_def replace_row_def)
  next
    case False
    with Cons show ?thesis by (simp add: pg_upsert_def replace_row_def)
  qed
qed (simp add: pg_upsert_def replace_row_def)

lemma keys_pg_upsert: "key ` set (pg_upsert key r ys) = insert (key r) (key ` set ys)"
  unfolding pg_upsert_def by (induction ys) auto

lemma distinct_pg_upsert: "distinct (map key ys) \<Longrightarrow> distinct (map key (pg_upsert key r ys))"
proof (induction ys)
  case (Cons y ys)
  then show ?case
    using keys_pg_upsert [of key r ys] by (auto simp: pg_upsert_def simp flip: set_map)
qed (simp add: pg_upsert_def)

lemma same_rows_write:
  assumes "same_rows key xs ys"
  shows "same_rows key (replace_row key r xs) (pg_upsert key r ys)"
proof -
  have "mset (replace_row key r xs) = mset (replace_row key r ys)"
    using assms by (simp add: same_rows_def replace_row_def mset_filter)
  then show ?thesis using assms by (simp add: same_rows_def mset_pg_upsert distinct_pg_upsert)
qed

lemma same_rows_sorted:
  assumes "same_rows key xs ys" "\<And>a b. P a \<Longrightarrow> P b \<Longrightarrow> by_name a = by_name b \<Longrightarrow> key a = key b"
  shows "sort_key by_name (filter P xs) = sort_key by_name (filter P ys)"
proof (rule sort_key_inj_key_eq)
  have set: "set xs = set ys" using assms(1) by (metis same_rows_def set_mset_mset)
  show "mset (filter P xs) = mset (sort_key by_name (filter P ys))"
    using assms(1) by (simp add: same_rows_def mset_filter)
  show "inj_on by_name (set (filter P xs))"
  proof (rule inj_onI)
    fix x y
    assume xy: "x \<in> set (filter P xs)" "y \<in> set (filter P xs)" "by_name x = by_name y"
    then have "key x = key y" using assms(2) by simp
    moreover have "inj_on key (set ys)" using assms(1) by (simp add: same_rows_def distinct_map)
    ultimately show "x = y" using xy(1,2) set by (auto dest: inj_onD)
  qed
qed simp

lemma upsert_cong:
  "(\<And>x. x \<in> set rows \<Longrightarrow> wins r x \<longleftrightarrow> wins' r x) \<Longrightarrow> upsert key wins r rows = upsert key wins' r rows"
  by (induction rows) auto

section \<open>The simulation\<close>

text \<open>The two databases after the same history: the ordered tables equal, the others with the same rows.\<close>

definition alike :: "'j database \<Rightarrow> 'j database \<Rightarrow> bool" where
  "alike s p \<longleftrightarrow> db_runs s = db_runs p \<and> db_model_versions s = db_model_versions p \<and>
     db_watermarks s = db_watermarks p \<and> db_seed_loads s = db_seed_loads p \<and> db_evidence s = db_evidence p \<and>
     same_rows (\<lambda>x. (mrr_run_id x, mrr_model_id x)) (db_model_runs s) (db_model_runs p) \<and>
     same_rows (\<lambda>x. (srr_run_id x, srr_name x)) (db_seed_runs s) (db_seed_runs p) \<and>
     same_rows (\<lambda>x. (trr_run_id x, trr_test_id x)) (db_test_runs s) (db_test_runs p) \<and>
     same_rows pn_promotion_id (db_promotions s) (db_promotions p)"

text \<open>Every timestamp an ordered upsert compares is one of those the history wrote.\<close>

definition timed_in :: "string set \<Rightarrow> 'j database \<Rightarrow> bool" where
  "timed_in T d \<longleftrightarrow> (\<forall>x \<in> set (db_runs d). rs_started_at (fst x) \<in> T) \<and>
     (\<forall>r \<in> set (db_model_versions d). mr_materialized_at r \<in> T) \<and>
     (\<forall>r \<in> set (db_seed_loads d). sr_loaded_at r \<in> T)"

lemma alike_empty: "alike empty_database empty_database"
  by (simp add: alike_def empty_database_def same_rows_def)

lemma timed_empty: "timed_in T empty_database"
  by (simp add: timed_in_def empty_database_def)

lemma set_upsert_subset: "set (upsert key wins r rows) \<subseteq> insert r (set rows)"
  by (induction rows) auto

lemma run_started_in: "timed_in T d \<Longrightarrow> run_started_at d i = Some t \<Longrightarrow> t \<in> T"
  unfolding run_started_at_def timed_in_def by (fastforce dest!: find_SomeD)

lemma run_started_alike: "alike s p \<Longrightarrow> run_started_at s = run_started_at p"
  by (simp add: fun_eq_iff run_started_at_def alike_def)

text \<open>A server and a clock under which the comparisons of a set of timestamps agree.\<close>

definition comparable :: "pg_server \<Rightarrow> (string \<Rightarrow> int option) \<Rightarrow> string set \<Rightarrow> bool" where
  "comparable pg pt T \<longleftrightarrow> pg_less pg = (<) \<and> reads_micros pg pt T \<and> microseconds_apart pt T"

lemma comparable_cmp:
  "comparable pg pt T \<Longrightarrow> a \<in> T \<Longrightarrow> b \<in> T \<Longrightarrow> 0 \<le> phlo_cmp_rfc3339 pg a b \<longleftrightarrow> \<not> rfc3339_less pt a b"
  unfolding comparable_def by (intro phlo_cmp_agrees) auto

lemma materialized_alike:
  assumes "comparable pg pt T" "timed_in T d" "mr_materialized_at r \<in> T"
  shows "pg_record_materialized pg r d = record_materialized pt r d"
proof -
  let ?r = "r\<lparr>mr_environment := stored_env (mr_environment r)\<rparr>"
  have "pg_not_older pg mr_materialized_at ?r x \<longleftrightarrow> not_older pt mr_materialized_at ?r x"
    if "x \<in> set (db_model_versions d)" for x
    using comparable_cmp [OF assms(1), of "mr_materialized_at r" "mr_materialized_at x"] assms(2,3) that
    by (simp add: pg_not_older_def not_older_def timed_in_def)
  then have "upsert version_key (pg_not_older pg mr_materialized_at) ?r (db_model_versions d) =
      upsert version_key (not_older pt mr_materialized_at) ?r (db_model_versions d)"
    by (rule upsert_cong)
  then show ?thesis by (simp add: pg_record_materialized_def record_materialized_def)
qed

lemma seed_alike:
  assumes "comparable pg pt T" "timed_in T d" "sr_loaded_at r \<in> T"
  shows "pg_record_seed pg r d = record_seed pt r d"
proof -
  let ?r = "r\<lparr>sr_environment := stored_env (sr_environment r)\<rparr>"
  have "pg_not_older pg sr_loaded_at ?r x \<longleftrightarrow> not_older pt sr_loaded_at ?r x"
    if "x \<in> set (db_seed_loads d)" for x
    using comparable_cmp [OF assms(1), of "sr_loaded_at r" "sr_loaded_at x"] assms(2,3) that
    by (simp add: pg_not_older_def not_older_def timed_in_def)
  then have "upsert seed_key (pg_not_older pg sr_loaded_at) ?r (db_seed_loads d) =
      upsert seed_key (not_older pt sr_loaded_at) ?r (db_seed_loads d)"
    by (rule upsert_cong)
  then show ?thesis by (simp add: pg_record_seed_def record_seed_def)
qed

lemma watermark_alike:
  assumes "comparable pg pt T" "timed_in T d" "now \<in> T" "[] \<in> T"
  shows "pg_set_watermark pg now m e v i d = set_watermark pt now m e v i d"
proof -
  let ?w = "\<lparr>wm_model = m, wm_environment = env_column e, wm_value = v, wm_run_id = i, wm_updated_at = now\<rparr>"
  have "(case run_started_at d j of Some t \<Rightarrow> t | None \<Rightarrow> u) \<in> T" if "u \<in> T" for j u
    using run_started_in [OF assms(2), of j] that by (simp split: option.split)
  then have "pg_supersedes pg (run_started_at d) ?w x \<longleftrightarrow> supersedes pt (run_started_at d) ?w x" for x
    unfolding pg_supersedes_def supersedes_def using assms(3,4)
    by (intro comparable_cmp [OF assms(1)]) simp_all
  then have "upsert watermark_key (pg_supersedes pg (run_started_at d)) ?w (db_watermarks d) =
      upsert watermark_key (supersedes pt (run_started_at d)) ?w (db_watermarks d)"
    by (intro upsert_cong)
  then show ?thesis by (simp add: pg_set_watermark_def set_watermark_def)
qed

text \<open>Writes both stores do alike keep the simulation.\<close>

lemmas common_writes = pg_start_run_def start_run_def pg_reopen_run_def reopen_run_def update_run_def
  pg_bind_run_reference_hash_def bind_run_reference_hash_def pg_finish_run_def finish_run_def
  pg_record_model_def record_model_def pg_record_seed_run_def record_seed_run_def pg_record_test_def
  record_test_def pg_record_promotion_def record_promotion_def pg_record_evidence_def record_evidence_def
  pg_remove_evidence_def remove_evidence_def

lemma timed_version:
  "timed_in T d \<Longrightarrow> mr_materialized_at r \<in> T \<Longrightarrow> timed_in T (record_materialized pt r d)"
  using set_upsert_subset [of version_key "not_older pt mr_materialized_at"
      "r\<lparr>mr_environment := stored_env (mr_environment r)\<rparr>" "db_model_versions d"]
  by (fastforce simp: timed_in_def record_materialized_def)

lemma timed_seed: "timed_in T d \<Longrightarrow> sr_loaded_at r \<in> T \<Longrightarrow> timed_in T (record_seed pt r d)"
  using set_upsert_subset [of seed_key "not_older pt sr_loaded_at"
      "r\<lparr>sr_environment := stored_env (sr_environment r)\<rparr>" "db_seed_loads d"]
  by (fastforce simp: timed_in_def record_seed_def)

lemma write_timed:
  assumes "timed_in T d" "write_times w \<subseteq> T" "sqlite_write pt w d = Some d'"
  shows "timed_in T d'"
proof (cases w)
  case (RecordMaterialized r)
  then show ?thesis using assms timed_version [of T d r pt] by simp
next
  case (RecordSeed r)
  then show ?thesis using assms timed_seed [of T d r pt] by simp
next
  case (SetWatermark now m e v i)
  then show ?thesis using assms by (auto simp: timed_in_def set_watermark_def)
qed (use assms in \<open>fastforce simp: timed_in_def common_writes split: if_splits prod.splits\<close>)+

lemma alike_materialized:
  "alike s p \<Longrightarrow> alike (record_materialized pt r s) (record_materialized pt r p)"
  by (simp add: alike_def record_materialized_def)

lemma alike_seed: "alike s p \<Longrightarrow> alike (record_seed pt r s) (record_seed pt r p)"
  by (simp add: alike_def record_seed_def)

lemma alike_watermark: "alike s p \<Longrightarrow> alike (set_watermark pt now m e v i s) (set_watermark pt now m e v i p)"
  using run_started_alike [of s p] by (simp add: alike_def set_watermark_def)

lemma timed_alike: "alike s p \<Longrightarrow> timed_in T s \<Longrightarrow> timed_in T p"
  by (simp add: timed_in_def alike_def)

lemma write_alike:
  assumes "comparable pg pt T" "[] \<in> T" "write_times w \<subseteq> T" "alike s p" "timed_in T s"
  shows "rel_option alike (sqlite_write pt w s) (pg_write pg w p)"
proof (cases w)
  case (RecordMaterialized r)
  then show ?thesis
    using materialized_alike [OF assms(1) timed_alike [OF assms(4,5)], of r] assms(3)
      alike_materialized [OF assms(4), of pt r] by simp
next
  case (RecordSeed r)
  then show ?thesis
    using seed_alike [OF assms(1) timed_alike [OF assms(4,5)], of r] assms(3) alike_seed [OF assms(4), of pt r]
    by simp
next
  case (SetWatermark now m e v i)
  then show ?thesis
    using watermark_alike [OF assms(1) timed_alike [OF assms(4,5)] _ assms(2), of now m e v i] assms(3)
      alike_watermark [OF assms(4), of pt now m e v i] by simp
qed (use assms(4) in \<open>auto simp: alike_def common_writes intro: same_rows_write\<close>)

lemma history_alike:
  assumes "comparable pg pt T" "[] \<in> T"
  shows "\<Union> (write_times ` set ws) \<subseteq> T \<Longrightarrow> alike s p \<Longrightarrow> timed_in T s \<Longrightarrow>
    fst (run_writes (pg_write pg) ws p) = fst (run_writes (sqlite_write pt) ws s) \<and>
    alike (snd (run_writes (sqlite_write pt) ws s)) (snd (run_writes (pg_write pg) ws p))"
proof (induction ws arbitrary: s p)
  case (Cons w ws)
  have times: "write_times w \<subseteq> T" "\<Union> (write_times ` set ws) \<subseteq> T" using Cons.prems(1) by auto
  note step = write_alike [OF assms times(1) Cons.prems(2,3)]
  show ?case
  proof (cases "sqlite_write pt w s")
    case None
    then have "pg_write pg w p = None" using step by simp
    with None Cons.IH [OF times(2) Cons.prems(2,3)] show ?thesis by simp
  next
    case (Some s')
    then obtain p' where p': "pg_write pg w p = Some p'" "alike s' p'" using step by (auto simp: option_rel_Some1)
    have "timed_in T s'" by (rule write_timed [OF Cons.prems(3) times(1) Some])
    with Some p' Cons.IH [OF times(2), of s' p'] show ?thesis by simp
  qed
qed simp
section \<open>What the reads answer\<close>

text \<open>What a by-hash answer holds for one hash: a hash without an entry has no materialisation.\<close>

definition found_for :: "string \<Rightarrow> (string \<times> materialized_record list) list \<Rightarrow> materialized_record list" where
  "found_for h m = (case map_of m h of Some rs \<Rightarrow> rs | None \<Rightarrow> [])"

definition same_answers :: "pg_server \<Rightarrow> (string \<Rightarrow> int option) \<Rightarrow> 'j database \<Rightarrow> 'j database \<Rightarrow> bool" where
  "same_answers pg pt s p \<longleftrightarrow>
     pg_runs pg pt p = runs pt s \<and>
     (\<forall>e. pg_latest_run pg pt e p = latest_run pt e s) \<and>
     (\<forall>i. pg_run i p = stored_run_of i s) \<and>
     (\<forall>i. pg_model_runs pg i p = model_runs i s) \<and>
     (\<forall>i. pg_seed_runs pg i p = seed_runs i s) \<and>
     (\<forall>i. pg_test_runs pg i p = test_runs i s) \<and>
     (\<forall>m e. pg_materialized_version m e p = materialized_version m e s) \<and>
     (\<forall>e. pg_materialized_in pg e p = materialized_in e s) \<and>
     (\<forall>h. mset (pg_materialized_by_hash pg h p) = mset (materialized_by_hash h s)) \<and>
     (\<forall>hs h. mset (found_for h (pg_materialized_by_hashes pg hs p)) =
        mset (found_for h (materialized_by_hashes hs s))) \<and>
     (\<forall>n e. pg_seed_state n e p = seed_state n e s) \<and>
     (\<forall>e. pg_seeds_in pg e p = seeds_in e s) \<and>
     (\<forall>m e. pg_watermark m e p = watermark m e s) \<and>
     mset (pg_promotions pg pt p) = mset (promotions pt s) \<and>
     (\<forall>k b. pg_evidence_for pg pt k b p = evidence_for pt k b s) \<and>
     (\<forall>k. pg_latest_evidence pg pt k p = latest_evidence pt k s)"

text \<open>One query for many hashes answers each of them as a query for that hash.\<close>

lemma found_for_fold_push:
  "bm_ok m \<Longrightarrow> found_for h (fold (\<lambda>r. bm_push (mv_hash (mr_version r)) r) rs m) =
     found_for h m @ filter (\<lambda>r. mv_hash (mr_version r) = h) rs"
  using bmi.get_fold_push [where m = m and key = "\<lambda>r. mv_hash (mr_version r)" and val = "\<lambda>r. r" and xs = rs and k = h]
  by (auto simp: found_for_def split: list.splits option.splits)

lemma bm_insert_none: "bm_ok m \<Longrightarrow> (\<forall>k. found_for k m = []) \<Longrightarrow> \<forall>k. found_for k (bm_insert h [] m) = []"
  by (simp add: found_for_def bm_insert_get)

lemma fold_none:
  "bm_ok m \<Longrightarrow> (\<forall>k. found_for k m = []) \<Longrightarrow>
     bm_ok (fold (\<lambda>h. bm_insert h []) hs m) \<and> (\<forall>k. found_for k (fold (\<lambda>h. bm_insert h []) hs m) = [])"
  by (induction hs arbitrary: m) (simp_all add: bm_insert_none bm_insert_ok)

lemma bm_insert_nonempty: "bm_insert k v m \<noteq> []"
  by (induction k v m rule: bm_insert.induct) auto

lemma fold_none_empty: "fold (\<lambda>h. bm_insert h []) hs m = [] \<longleftrightarrow> hs = [] \<and> m = []"
  by (induction hs arbitrary: m) (simp_all add: bm_insert_nonempty)

lemma found_by_hashes:
  "found_for h (materialized_by_hashes hs d) = (if h \<in> set hs then materialized_by_hash h d else [])"
  "found_for h (pg_materialized_by_hashes pg hs d) = (if h \<in> set hs then pg_materialized_by_hash pg h d else [])"
proof -
  let ?none = "fold (\<lambda>h. bm_insert h []) hs ([] :: (string \<times> materialized_record list) list)"
  have none: "bm_ok ?none" "\<forall>k. found_for k ?none = []"
    using fold_none [of "[]" hs] by (simp_all add: found_for_def bm_ok_def)
  have nil: "found_for h [] = []" "bm_ok ([] :: (string \<times> materialized_record list) list)"
    by (simp_all add: found_for_def bm_ok_def)
  have both: "filter (\<lambda>r. mv_hash (mr_version r) = h) (filter (\<lambda>r. mv_hash (mr_version r) \<in> set hs) rows) =
      (if h \<in> set hs then filter (\<lambda>r. mv_hash (mr_version r) = h) rows else [])" for rows
    by (induction rows) auto
  show "found_for h (materialized_by_hashes hs d) = (if h \<in> set hs then materialized_by_hash h d else [])"
    using none by (simp add: materialized_by_hashes_def materialized_by_hash_def Let_def fold_none_empty
        found_for_fold_push both del: filter_filter) (simp add: nil)
  show "found_for h (pg_materialized_by_hashes pg hs d) = (if h \<in> set hs then pg_materialized_by_hash pg h d else [])"
    by (simp add: pg_materialized_by_hashes_def pg_materialized_by_hash_def found_for_fold_push nil both del: filter_filter)
qed

text \<open>
  Both \<open>LIKE\<close>s find the texts with a given beginning, when the beginning holds none of their special
  characters and neither side any capital letter.
\<close>

definition lower_case :: "string \<Rightarrow> bool" where
  "lower_case s \<longleftrightarrow> to_ascii_lowercase s = s"

definition literal_text :: "string \<Rightarrow> bool" where
  "literal_text s \<longleftrightarrow> lower_case s \<and> CHR ''%'' \<notin> set s \<and> CHR ''_'' \<notin> set s \<and> CHR 0x5C \<notin> set s"

lemma like_steps:
  "like ''%'' s \<longleftrightarrow> s = [] \<or> like ''%'' (after_char s)" "pg_like ''%'' s \<longleftrightarrow> s = [] \<or> pg_like ''%'' (after_char s)"
  "c \<noteq> CHR ''%'' \<Longrightarrow> c \<noteq> CHR ''_'' \<Longrightarrow> like (c # p) s \<longleftrightarrow>
     s \<noteq> [] \<and> to_ascii_lowercase [c] = to_ascii_lowercase [hd s] \<and> like p (tl s)"
  "c \<noteq> CHR ''%'' \<Longrightarrow> c \<noteq> CHR ''_'' \<Longrightarrow> c \<noteq> CHR 0x5C \<Longrightarrow> pg_like (c # p) s \<longleftrightarrow>
     s \<noteq> [] \<and> c = hd s \<and> pg_like p (tl s)"
  by (subst like.simps pg_like.simps, simp only: like.simps(1) pg_like.simps(1) if_True if_False simp_thms split: if_split, blast?)+

lemma like_anything: "like ''%'' s \<and> pg_like ''%'' s"
  supply like.simps [simp del] pg_like.simps [simp del]
proof (induction s rule: measure_induct_rule [of length])
  case (less s)
  show ?case
  proof (cases "s = []")
    case False
    then show ?thesis using less.IH [OF length_after_char [OF False]] like_steps(1,2) [of s] by simp
  qed (use like_steps(1,2) [of s] in simp)
qed

lemma lower_case_Cons: "lower_case (c # s) \<longleftrightarrow> lower_case [c] \<and> lower_case s"
  by (simp add: lower_case_def to_ascii_lowercase_def)

lemma like_literal:
  assumes "literal_text q" "lower_case s"
  shows "like (q @ ''%'') s \<longleftrightarrow> take (length q) s = q" "pg_like (q @ ''%'') s \<longleftrightarrow> take (length q) s = q"
proof -
  have "(like (q @ ''%'') s \<longleftrightarrow> take (length q) s = q) \<and> (pg_like (q @ ''%'') s \<longleftrightarrow> take (length q) s = q)"
    supply like.simps [simp del] pg_like.simps [simp del]
    using assms
  proof (induction q arbitrary: s)
    case (Cons c q)
    have c: "c \<noteq> CHR ''%''" "c \<noteq> CHR ''_''" "c \<noteq> CHR 0x5C" "to_ascii_lowercase [c] = [c]" "literal_text q"
      using Cons.prems(1) lower_case_Cons [of c q] by (auto simp: literal_text_def lower_case_def)
    show ?case
    proof (cases s)
      case Nil
      then show ?thesis by (simp add: like_steps(3) [OF c(1,2)] like_steps(4) [OF c(1,2,3)])
    next
      case (Cons a t)
      then have "to_ascii_lowercase [a] = [a]" "lower_case t"
        using Cons.prems(2) lower_case_Cons [of a t] by (auto simp: lower_case_def)
      then show ?thesis
        using Cons.IH [OF c(5), of t]
        by (auto simp: Cons like_steps(3) [OF c(1,2)] like_steps(4) [OF c(1,2,3)] c(4))
    qed
  qed (simp add: like_anything)
  then show "like (q @ ''%'') s \<longleftrightarrow> take (length q) s = q" "pg_like (q @ ''%'') s \<longleftrightarrow> take (length q) s = q"
    by simp_all
qed

text \<open>The runs of a history, and its promotions.\<close>

fun written_promotion :: "'j store_write \<Rightarrow> promotion_record list" where
  "written_promotion (RecordPromotion r) = [r]"
| "written_promotion _ = []"

definition history_promotions :: "'j store_write list \<Rightarrow> promotion_record list" where
  "history_promotions ws = concat (map written_promotion ws)"

definition run_ids :: "'j database \<Rightarrow> string set" where
  "run_ids d = rs_run_id ` fst ` set (db_runs d)"

lemma update_run_ids:
  assumes "\<And>r. rs_run_id (f r) = rs_run_id r"
  shows "run_ids (update_run i f d) = run_ids d"
proof -
  have "rs_run_id (fst ((\<lambda>(r, p). (if rs_run_id r = i then f r else r, p)) x)) = rs_run_id (fst x)"
    for x :: "run_summary \<times> stored_plan"
    using assms [of "fst x"] by (cases x) simp
  then show ?thesis by (simp add: run_ids_def update_run_def image_image)
qed

fun started_ids :: "'j store_write \<Rightarrow> string set" where
  "started_ids (StartRun r p) = {rs_run_id r}"
| "started_ids _ = {}"

lemma write_run_ids:
  assumes step: "sqlite_write pt w d = Some e"
  shows "run_ids e \<subseteq> run_ids d \<union> started_ids w"
proof (cases w)
  case (StartRun r p)
  with step have "e = d\<lparr>db_runs := db_runs d @ [(r\<lparr>rs_environment := stored_env (rs_environment r)\<rparr>, p)]\<rparr>"
    by (simp add: start_run_def split: if_splits)
  then show ?thesis by (simp add: run_ids_def StartRun)
next
  case (ReopenRun i)
  then show ?thesis using step by (auto simp: reopen_run_def update_run_ids)
next
  case (BindReference i h)
  then show ?thesis using step by (auto simp: bind_run_reference_hash_def update_run_ids)
next
  case (FinishRun i st at failed)
  then show ?thesis using step by (auto simp: finish_run_def update_run_ids)
qed (use step in \<open>force simp: run_ids_def record_model_def record_seed_run_def record_test_def record_materialized_def
    record_seed_def set_watermark_def record_promotion_def record_evidence_def remove_evidence_def split: if_splits\<close>)+

lemma runs_written: "run_ids (snd (run_writes (sqlite_write pt) ws d)) \<subseteq> run_ids d \<union> \<Union> (started_ids ` set ws)"
proof (induction ws arbitrary: d)
  case (Cons w ws)
  show ?case
  proof (cases "sqlite_write pt w d")
    case None
    then show ?thesis using Cons.IH [of d] by auto
  next
    case (Some e)
    then show ?thesis using Cons.IH [of e] write_run_ids [OF Some] by auto
  qed
qed simp

lemma promotions_written:
  "db_promotions (snd (run_writes (sqlite_write pt) ws d)) =
     fold (replace_row pn_promotion_id) (history_promotions ws) (db_promotions d)"
  "db_promotions (snd (run_writes (pg_write pg) ws d)) =
     fold (pg_upsert pn_promotion_id) (history_promotions ws) (db_promotions d)"
proof -
  have local: "case sqlite_write pt w d of None \<Rightarrow> written_promotion w = []
      | Some e \<Rightarrow> db_promotions e = fold (replace_row pn_promotion_id) (written_promotion w) (db_promotions d)" for w d
    by (cases w) (simp_all add: common_writes record_materialized_def record_seed_def set_watermark_def)
  show "db_promotions (snd (run_writes (sqlite_write pt) ws d)) =
      fold (replace_row pn_promotion_id) (history_promotions ws) (db_promotions d)"
  proof (induction ws arbitrary: d)
    case (Cons w ws)
    then show ?case using local [of w d] by (simp add: history_promotions_def split: option.splits)
  qed (simp add: history_promotions_def)
  have shared: "case pg_write pg w d of None \<Rightarrow> written_promotion w = []
      | Some e \<Rightarrow> db_promotions e = fold (pg_upsert pn_promotion_id) (written_promotion w) (db_promotions d)" for w d
    by (cases w) (simp_all add: common_writes pg_record_materialized_def pg_record_seed_def pg_set_watermark_def)
  show "db_promotions (snd (run_writes (pg_write pg) ws d)) =
      fold (pg_upsert pn_promotion_id) (history_promotions ws) (db_promotions d)"
  proof (induction ws arbitrary: d)
    case (Cons w ws)
    then show ?case using shared [of w d] by (simp add: history_promotions_def split: option.splits)
  qed (simp add: history_promotions_def)
qed

lemma new_keys_appended:
  "distinct (map key (xs @ rs)) \<Longrightarrow> fold (replace_row key) rs xs = xs @ rs"
  "distinct (map key (xs @ rs)) \<Longrightarrow> fold (pg_upsert key) rs xs = xs @ rs"
proof -
  have up: "key r \<notin> key ` set xs \<Longrightarrow> pg_upsert key r xs = xs @ [r]" for r xs
    unfolding pg_upsert_def by (induction xs) auto
  have rep: "key r \<notin> key ` set xs \<Longrightarrow> replace_row key r xs = xs @ [r]" for r xs
    unfolding replace_row_def by (induction xs) auto
  show "distinct (map key (xs @ rs)) \<Longrightarrow> fold (replace_row key) rs xs = xs @ rs"
    by (induction rs arbitrary: xs) (auto simp: rep)
  show "distinct (map key (xs @ rs)) \<Longrightarrow> fold (pg_upsert key) rs xs = xs @ rs"
    by (induction rs arbitrary: xs) (auto simp: up)
qed

lemma mset_freshest [simp]: "mset (freshest pt at rows) = mset rows"
  by (simp add: freshest_def newest_first_def text_desc_def)

lemma alike_answers:
  assumes less: "pg_less pg = (<)" and scan: "\<forall>rows. mset (pg_scan pg rows) = mset rows" and "alike s p"
  shows "same_answers pg pt s p"
proof -
  note eq = assms(3) [unfolded alike_def]
  have rows: "db_runs p = db_runs s" "db_model_versions p = db_model_versions s"
    "db_watermarks p = db_watermarks s" "db_seed_loads p = db_seed_loads s" "db_evidence p = db_evidence s"
    using eq by simp_all
  note fresh = pg_freshest_freshest [OF less] pg_ascending_sort_key [OF less]
  have models: "pg_model_runs pg i p = model_runs i s" for i
    unfolding pg_model_runs_def model_runs_def fresh
    by (rule sym, rule same_rows_sorted [of "\<lambda>x. (mrr_run_id x, mrr_model_id x)"]) (use eq in auto)
  have seeds: "pg_seed_runs pg i p = seed_runs i s" for i
    unfolding pg_seed_runs_def seed_runs_def fresh
    by (rule sym, rule same_rows_sorted [of "\<lambda>x. (srr_run_id x, srr_name x)"]) (use eq in auto)
  have tests: "pg_test_runs pg i p = test_runs i s" for i
    unfolding pg_test_runs_def test_runs_def fresh
    by (rule sym, rule same_rows_sorted [of "\<lambda>x. (trr_run_id x, trr_test_id x)"]) (use eq in auto)
  have promotions: "mset (pg_promotions pg pt p) = mset (promotions pt s)"
    using eq by (simp add: pg_promotions_def promotions_def fresh same_rows_def)
  have hashes: "mset (pg_materialized_by_hash pg h p) = mset (materialized_by_hash h s)" for h
    using scan by (simp add: pg_materialized_by_hash_def materialized_by_hash_def mset_filter rows)
  have many: "mset (found_for h (pg_materialized_by_hashes pg hs p)) = mset (found_for h (materialized_by_hashes hs s))" for hs h
    by (simp add: found_by_hashes hashes)
  have read_runs: "pg_runs pg pt p = runs pt s" "pg_latest_run pg pt e p = latest_run pt e s"
    "pg_run i p = stored_run_of i s" for e i
    by (simp_all add: pg_runs_def runs_def pg_latest_run_def latest_run_def pg_run_def stored_run_of_def rows fresh)
  have read_tables: "pg_materialized_version m e p = materialized_version m e s"
    "pg_materialized_in pg e p = materialized_in e s" "pg_seed_state m e p = seed_state m e s"
    "pg_seeds_in pg e p = seeds_in e s" "pg_watermark m e p = watermark m e s" for m e
    by (simp_all add: pg_materialized_version_def materialized_version_def pg_materialized_in_def
        materialized_in_def pg_seed_state_def seed_state_def pg_seeds_in_def seeds_in_def pg_watermark_def
        watermark_def rows fresh)
  have read_evidence: "pg_evidence_for pg pt k b p = evidence_for pt k b s"
    "pg_latest_evidence pg pt k p = latest_evidence pt k s" for k b
    by (simp_all add: pg_evidence_for_def evidence_for_def pg_latest_evidence_def latest_evidence_def rows fresh)
  show ?thesis
    unfolding same_answers_def
    using models seeds tests promotions hashes many read_runs read_tables read_evidence by simp
qed

text \<open>
  Property C14. The two state stores under one history of writes, on a server whose collation is the byte
  order, whose scans return every row once, and which reads the timestamps of the history to the microsecond
  when they lie more than a microsecond apart: the shared store has refused the same writes as the local one,
  and answers with the same value each of the reads of runs (all, latest, by identifier), of the models, seeds
  and tests of a run, of the materialisation of a model and of an environment, of seed states, of watermarks
  and of evidence. The two reads by version hash, which have no order, answer each hash with the same rows up
  to their order; promotions agree up to their order, and in their order too when no promotion identifier was
  recorded twice. Finding runs by a prefix agrees when the run identifiers of the history and the prefix hold
  no capital letter and the prefix none of the characters special to \<open>LIKE\<close>.
\<close>

theorem stores_answer_alike:
  fixes ws :: "'j store_write list"
  assumes "pg_less pg = (<)" "\<forall>rows. mset (pg_scan pg rows) = mset rows"
    and "reads_micros pg pt (history_times ws)" "microseconds_apart pt (history_times ws)"
  shows "let sqlite = run_writes (sqlite_write pt) ws empty_database;
        postgres = run_writes (pg_write pg) ws empty_database
    in fst postgres = fst sqlite \<and> same_answers pg pt (snd sqlite) (snd postgres) \<and>
       (distinct (map pn_promotion_id (history_promotions ws)) \<longrightarrow>
          pg_promotions pg pt (snd postgres) = promotions pt (snd sqlite)) \<and>
       (\<forall>q. literal_text q \<and> (\<forall>i \<in> \<Union> (started_ids ` set ws). lower_case i) \<longrightarrow>
          pg_find_runs pg pt q (snd postgres) = find_runs pt q (snd sqlite))"
proof -
  let ?s = "snd (run_writes (sqlite_write pt) ws (empty_database :: 'j database))"
  let ?p = "snd (run_writes (pg_write pg) ws (empty_database :: 'j database))"
  have times: "comparable pg pt (history_times ws)" "[] \<in> history_times ws"
    "\<Union> (write_times ` set ws) \<subseteq> history_times ws"
    using assms(1,3,4) by (auto simp: comparable_def history_times_def)
  note same = history_alike [OF times(1,2) times(3) alike_empty timed_empty]
  note fresh = pg_freshest_freshest [OF assms(1)]
  have "db_promotions ?p = db_promotions ?s" if "distinct (map pn_promotion_id (history_promotions ws))"
    using that by (simp add: promotions_written new_keys_appended empty_database_def)
  moreover have "pg_find_runs pg pt q ?p = find_runs pt q ?s"
    if q: "literal_text q" and lower: "\<forall>i \<in> \<Union> (started_ids ` set ws). lower_case i" for q
  proof -
    have "run_ids ?s \<subseteq> \<Union> (started_ids ` set ws)"
      using runs_written [of pt ws "empty_database :: 'j database"] by (simp add: empty_database_def run_ids_def)
    then have "lower_case (rs_run_id r)" if "r \<in> set (map fst (db_runs ?s))" for r
      using that lower unfolding run_ids_def set_map by (meson imageI subsetD)
    then have "filter (\<lambda>r. pg_like (q @ ''%'') (rs_run_id r)) (map fst (db_runs ?s)) =
        filter (\<lambda>r. like (q @ ''%'') (rs_run_id r)) (map fst (db_runs ?s))"
      by (intro filter_cong) (simp_all add: like_literal [OF q])
    moreover have "db_runs ?p = db_runs ?s" using same by (simp add: alike_def)
    ultimately show ?thesis by (simp add: pg_find_runs_def find_runs_def fresh)
  qed
  ultimately show ?thesis
    using same alike_answers [OF assms(1,2) conjunct2 [OF same]]
    by (simp add: Let_def pg_promotions_def promotions_def fresh)
qed

section \<open>Where they part\<close>

definition early_text :: string where
  "early_text = ''2026-01-01T00:00:00.000000100Z''"

definition late_text :: string where
  "late_text = ''2026-01-01T00:00:00.000000200Z''"

definition noon_text :: string where
  "noon_text = ''2026-01-01T12:00:00Z''"

text \<open>Nanoseconds since the year began, for these texts.\<close>

definition sample_clock :: "string \<Rightarrow> int option" where
  "sample_clock s =
     (if s = early_text then Some 100 else if s = late_text then Some 200
      else if s = noon_text then Some 43200000000000 else None)"

text \<open>A server with the byte order for its collation that reads those texts to the microsecond.\<close>

definition sample_server :: pg_server where
  "sample_server = \<lparr>pg_less = (<), pg_instant = map_option (\<lambda>x. (x + 500) div 1000) \<circ> sample_clock,
     pg_scan = (\<lambda>rows. rows)\<rparr>"

lemma sample_texts:
  "rfc3339_shape early_text" "rfc3339_shape late_text" "rfc3339_shape noon_text" "\<not> rfc3339_shape []"
  by code_simp+

lemma sample_instants:
  "sample_clock early_text = Some 100" "sample_clock late_text = Some 200"
  "sample_clock noon_text = Some 43200000000000" "sample_clock [] = None"
  "pg_instant sample_server early_text = Some 0" "pg_instant sample_server late_text = Some 0"
  "pg_instant sample_server noon_text = Some 43200000000"
  by (simp_all add: sample_clock_def sample_server_def early_text_def late_text_def noon_text_def)

lemma sample_reads: "reads_micros sample_server sample_clock {[], noon_text, early_text}"
  by (simp add: reads_micros_def sample_instants sample_texts)

text \<open>
  The cast to \<open>timestamptz\<close> keeps microseconds: of two materialisations within one microsecond the one
  written last stays, also when it is the earlier one, which the local store drops.
\<close>

definition racing_writes :: "nat store_write list" where
  "racing_writes = [RecordMaterialized (bare_record ''m.a'' None late_text),
     RecordMaterialized (bare_record ''m.a'' None early_text)]"

theorem nanoseconds_regress:
  "map_option mr_materialized_at (materialized_version ''m.a'' None
     (snd (run_writes (sqlite_write sample_clock) racing_writes empty_database))) = Some late_text"
  "map_option mr_materialized_at (pg_materialized_version ''m.a'' None
     (snd (run_writes (pg_write sample_server) racing_writes empty_database))) = Some early_text"
  by code_simp+

text \<open>A prefix in capital letters finds a run in the local store only.\<close>

theorem find_runs_case:
  "find_runs length_time ''O'' two_runs = [sample_run ''old'' ''1'']"
  "pg_find_runs sample_server length_time ''O'' two_runs = []"
  by code_simp+

section \<open>Witness\<close>

text \<open>The later materialisation is written first, the earlier one dropped by both stores.\<close>

definition spaced_writes :: "nat store_write list" where
  "spaced_writes = [RecordMaterialized (bare_record ''m.a'' None noon_text),
     RecordMaterialized (bare_record ''m.a'' None early_text)]"

theorem stores_answer_alike_witness:
  "let sqlite = run_writes (sqlite_write sample_clock) spaced_writes empty_database;
     postgres = run_writes (pg_write sample_server) spaced_writes empty_database
   in fst postgres = [True, True] \<and> same_answers sample_server sample_clock (snd sqlite) (snd postgres) \<and>
     map_option mr_materialized_at (pg_materialized_version ''m.a'' None (snd postgres)) = Some noon_text"
proof -
  have times: "history_times spaced_writes = {[], noon_text, early_text}"
    by (auto simp: history_times_def spaced_writes_def bare_record_def)
  have hyps: "pg_less sample_server = (<)" "\<forall>rows. mset (pg_scan sample_server rows) = mset rows"
    "reads_micros sample_server sample_clock (history_times spaced_writes)"
    "microseconds_apart sample_clock (history_times spaced_writes)"
    using sample_reads
    by (simp_all add: times) (auto simp: sample_server_def microseconds_apart_def sample_instants)
  have alike: "let sqlite = run_writes (sqlite_write sample_clock) spaced_writes empty_database;
      postgres = run_writes (pg_write sample_server) spaced_writes empty_database
    in fst postgres = fst sqlite \<and> same_answers sample_server sample_clock (snd sqlite) (snd postgres)"
    using stores_answer_alike [OF hyps] by (simp add: Let_def)
  have "map_option mr_materialized_at (materialized_version ''m.a'' None
      (snd (run_writes (sqlite_write sample_clock) spaced_writes empty_database))) = Some noon_text"
    "fst (run_writes (sqlite_write sample_clock) spaced_writes (empty_database :: nat database)) = [True, True]"
    by (simp_all add: spaced_writes_def record_materialized_def empty_database_def bare_record_def
        version_key_def env_column_def materialized_version_def not_older_def rfc3339_less_def sample_instants
        stored_env_def env_value_def)
  with alike show ?thesis by (simp add: Let_def same_answers_def)
qed
end
