(* ===== verification/Spec2Isabelle.thy ===== *)
theory Spec2Isabelle
  imports Directives Resolve Rebuild PromotionFacts LineageProps CompileProps PgFacts
begin

text \<open>
  Phlo Transform: a compiler for SQL transformation workspaces and the engine that plans, runs and promotes
  what it compiles. This library models the part that decides: what a model is, when it is rebuilt, in
  which order and with what outcome, and when its result may be promoted. The sources are the Rust crates
  under \<^verbatim>\<open>src/crates\<close>; \<^verbatim>\<open>core/\<close>, \<^verbatim>\<open>engine/\<close> and \<^verbatim>\<open>sql/\<close> below stand for
  \<^verbatim>\<open>phlo-transform-core/src\<close>, \<^verbatim>\<open>phlo-transform-engine/src\<close> and \<^verbatim>\<open>phlo-transform-sql/src\<close>.

  \<^bold>\<open>How the parts interact.\<close> The compiler turns model files into a compilation: models with identities,
  directives, resolved dependencies, schemas, contracts and a version hash, and their dependency graph. A
  selection names models of it by selector terms. The planner closes the selection under dependencies,
  gathers evidence from the warehouse adapter and the state store, and decides for every model whether to
  build, skip or adopt an output recorded elsewhere. The runner opens a run in the store, loads the seeds,
  settles the models that need no build, runs the others as their dependencies finish, tests the
  results, records what was materialised and closes the run. A run can be resumed or its failures retried,
  and the gates decide from its records whether a candidate is promoted. A candidate is a Nessie branch with a
  catalog of its own: provisioning ensures both and records the binding, a branch diff compares it with its
  base, and a promotion gathers the evidence in the store, evaluates the gates and merges the branch.

  \<^bold>\<open>Theories and code.\<close>
  \<^item> Prelude, Ordered: strings as lists of bytes with the operations of the Rust standard library, ordered
    maps and sets as sorted lists (\<open>BTreeMap\<close>, \<open>BTreeSet\<close>).
  \<^item> Identity (\<^verbatim>\<open>core/identity.rs\<close>), Relations, Model (\<^verbatim>\<open>core/model.rs\<close>), Compiled (\<^verbatim>\<open>core/compiled.rs\<close>),
    Semantic (\<^verbatim>\<open>core/semantic.rs\<close>, \<^verbatim>\<open>core/schema.rs\<close>), Diagnostics, Directives (\<^verbatim>\<open>sql/directives.rs\<close>),
    Version (\<^verbatim>\<open>core/version.rs\<close>), Resolve (\<^verbatim>\<open>core/resolve.rs\<close>): the data a compilation holds.
  \<^item> Graph (\<^verbatim>\<open>core/graph.rs\<close>), Closure: the dependency graph, its topological order and cycle search, and
    the worklist walks over it; Select (\<^verbatim>\<open>core/select.rs\<close>).
  \<^item> Contracts (\<^verbatim>\<open>engine/contracts.rs\<close>), State (the records of \<^verbatim>\<open>engine/state.rs\<close> and the scopes a plan
    reads), Plan (the decision for one model, \<open>Planner::decide\<close>), Planner (\<open>Planner::plan\<close>).
  \<^item> Failure (\<^verbatim>\<open>engine/failure.rs\<close>, \<^verbatim>\<open>engine/events.rs\<close>, \<^verbatim>\<open>engine/error.rs\<close>), RunRecords, Exec (one task, one
    seed, one test of \<^verbatim>\<open>engine/run.rs\<close>), Schedule (the loop of \<open>Runner::execute\<close>), ScheduleFacts and
    Progress (its invariants and theorems), Run (the whole of \<open>execute\<close>) and
    RunFacts (what its report and its records say), Adoption (what its preparation records), Resume (\<open>apply\<close>,
    \<open>resume\<close>, \<open>retry_failed\<close>), Gates (\<^verbatim>\<open>engine/gates.rs\<close>).
  \<^item> Store (\<^verbatim>\<open>engine/state.rs\<close>, \<open>SqliteStateStore\<close>) and StoreFacts: the tables and every method on them;
    PgStore (\<^verbatim>\<open>engine/state_postgres.rs\<close>, \<open>PostgresStateStore\<close>) and PgFacts: the same tables behind a server, and
    both stores side by side; Rebuild: a run, its records in the store and the plan that follows.
  \<^item> Nessie (\<^verbatim>\<open>phlo-transform-nessie/src/lib.rs\<close>): the client trait, the in-memory and the REST client;
    Environment (\<^verbatim>\<open>engine/environment.rs\<close> and the bindings of \<^verbatim>\<open>engine/audit.rs\<close>).
  \<^item> Diff (\<^verbatim>\<open>engine/diff.rs\<close>), BranchDiff (\<^verbatim>\<open>engine/branch_diff.rs\<close>), Evidence (the audits of
    \<^verbatim>\<open>engine/audit.rs\<close>), Promotion (\<^verbatim>\<open>engine/promotion.rs\<close>) and PromotionFacts.
  \<^item> Compile (\<^verbatim>\<open>core/compile.rs\<close>): the compiler from a semantic project to a compilation, over a SQL parser and
    analyser that are arguments; CompileFacts (its phases) and CompileProps (its properties).
  \<^item> Lineage (\<^verbatim>\<open>core/lineage.rs\<close>), LineageDiff (\<^verbatim>\<open>core/lineage_diff.rs\<close>), Report (\<^verbatim>\<open>core/report.rs\<close>,
    \<^verbatim>\<open>core/consumers.rs\<close>), LineageRun (\<^verbatim>\<open>engine/lineage_diff.rs\<close>); LineageFacts and LineageProps.

  \<^bold>\<open>State and effects.\<close> A struct is a record with the fields of the source, an enum a datatype, a result a
  sum with the error on the left. The scheduler's mutable locals are the record \<open>sched\<close>, and its loop
  is the step relation \<open>sched_step\<close>: which task finishes next and when a cancellation is noticed is the
  environment's choice. What the adapter, the store, the clock and SHA-256 answer are arguments:
  \<open>evidence_source\<close> and \<open>state_view\<close> for a plan, \<open>run_context\<close>, \<open>store\<close> and \<open>attempt_world\<close> for a run,
  \<open>history\<close> for a continuation, \<open>pg_server\<close> for the shared store. The operations of environments and promotions act on a state of any type,
  reached through the records of operations \<open>nessie_client\<close>, \<open>warehouse\<close>, \<open>evidence_store\<close> and
  \<open>environment_files\<close>; locale \<open>reference_store\<close> states the laws of the first, and the in-memory client is
  proved to keep them. A panic is a value: \<open>None\<close> in the planner, \<open>RunPanic\<close> in a run.

  \<^bold>\<open>What the lemmas show.\<close> Round trips and soundness of the parsers; the graph algorithms against the
  dependency relation (locale \<open>closure_walk\<close>, interpreted for every walk of the code); selection and
  resolution against set-based specifications; the planner's decision by evidence, the shape of a plan
  and the reasons it gives; the attempts of a task against the contract \<open>attempts_from\<close>; the scheduler
  against sequential execution in plan order, with the invariant \<open>loop_inv\<close> kept by every step, a
  lexicographic measure for termination and the absence of panics for every plan the planner makes; a
  run's verdict and records against the statuses the scheduler leaves; the tables of the store against the
  latest record written, whatever the order of the writes, and the shared store against the local one
  over any history of writes; the skip of a model that a recorded run built;
  the requests of the REST client; when a diff stands as evidence; what a promotion merges and what it
  proves to have passed; that the compiler always returns and what a compilation without errors guarantees;
  the walks of the lineage graph against reachability (locale \<open>bfs_graph\<close>) and against the dependency graph,
  and its difference against the graphs compared.

  \<^bold>\<open>Bounds and fuel.\<close> The cycle search recurses with one unit of fuel per model and one more, and is proved to
  end within it; the expansion of ephemeral models recurses with one unit per model and one more, and is
  proved to end too. Walks are \<open>while_option\<close> loops proved to end; attempt loops end by the word measure of
  the attempts left; blocking dependents by the number of open models and the work list. Attempt
  counters are 32-bit words, durations and row counts 64-bit, milliseconds 128-bit with the saturating
  arithmetic of the source.

  \<^bold>\<open>Where code and documents part.\<close> Some properties leave out, by a hypothesis that names it, a case in which the
  code does otherwise than its comments or documents say: exclude terms with both signs (Select, with
  \<open>exclude_reaches_siblings\<close>), waived breaks without an audited diff (Gates, with \<open>waived_breaks_unaudited\<close>),
  columns that drop a declaration (Contracts, with \<open>dropped_guarantee_unreported\<close>). The plain lemmas
  \<open>assertions_not_hashed\<close> and \<open>blocked_plan_reads_watermark\<close> record two more.

  \<^bold>\<open>Not modelled.\<close> SQL parsing, the column analysis and the rewriting of statements work on the syntax tree of a
  third-party crate and are arguments of the compiler (\<open>sql_tools\<close>); the translation of dbt projects works on
  that tree and on Jinja templates. The discovery of workspace files and their configuration, the Git
  processes, the SQL text and the connections of the two stores, the warehouse adapters, the
  OpenLineage client, the daemon and the command line are input and output around the decisions above.
\<close>

end
